(* ===== verification/Snx_Prelude.thy ===== *)
theory Snx_Prelude
  imports Main "HOL-Library.Word"
begin

text \<open>
  The types of the driver's integers, the errno values it returns, and the
  generic facts on words and lists that several components use.
  C's \<^verbatim>\<open>unsigned char\<close>, \<^verbatim>\<open>unsigned short\<close>, \<^verbatim>\<open>unsigned int\<close> and
  \<^verbatim>\<open>unsigned long\<close> are words of 8, 16, 32 and 64 bits (an LP64 kernel).
  A C \<^verbatim>\<open>int\<close> used as an index, a count or a status is an \<open>int\<close>.
\<close>

unbundle bit_operations_syntax

section \<open>Prelude: machine integers, error codes and shared lemmas\<close>

type_synonym u8 = "8 word"
type_synonym u16 = "16 word"
type_synonym u32 = "32 word"
type_synonym u64 = "64 word"

named_theorems byte_bits "bit-level facts on register bytes"
named_theorems trace_simps "how an operation extends the I/O trace"

subsection \<open>Error codes\<close>

text \<open>The errno values of the kernel headers the driver returns (negated, as C does).\<close>

abbreviation (input) EIO :: int where "EIO \<equiv> 5"
abbreviation (input) ENXIO :: int where "ENXIO \<equiv> 6"
abbreviation (input) EAGAIN :: int where "EAGAIN \<equiv> 11"
abbreviation (input) EINTR :: int where "EINTR \<equiv> 4"
abbreviation (input) ENOMEM :: int where "ENOMEM \<equiv> 12"
abbreviation (input) EACCES :: int where "EACCES \<equiv> 13"
abbreviation (input) EFAULT :: int where "EFAULT \<equiv> 14"
abbreviation (input) EBUSY :: int where "EBUSY \<equiv> 16"
abbreviation (input) ENODEV :: int where "ENODEV \<equiv> 19"
abbreviation (input) EINVAL :: int where "EINVAL \<equiv> 22"
abbreviation (input) ENOSPC :: int where "ENOSPC \<equiv> 28"
abbreviation (input) EL3HLT :: int where "EL3HLT \<equiv> 46"
abbreviation (input) ERESTARTSYS :: int where "ERESTARTSYS \<equiv> 512"

subsection \<open>Lists\<close>

lemma last_filter_snoc [simp]:
  "P x \<Longrightarrow> last (filter P (xs @ [x])) = x"
  by simp

lemma map_filter_append [simp]:
  "List.map_filter f (xs @ ys) = List.map_filter f xs @ List.map_filter f ys"
  by (simp add: List.map_filter_def)

lemma map_filter_simps [simp]:
  "List.map_filter f [] = []"
  "List.map_filter f (x # xs) = (case f x of None \<Rightarrow> List.map_filter f xs | Some y \<Rightarrow> y # List.map_filter f xs)"
  by (auto simp: List.map_filter_def split: option.splits)

lemma list_all_uptD: "list_all P [a..<b] \<Longrightarrow> a \<le> n \<Longrightarrow> n < b \<Longrightarrow> P n"
  by (simp add: list_all_iff)

subsection \<open>Loops that may return early\<close>

text \<open>
  A C loop whose body may \<^verbatim>\<open>return\<close> a status is a fold over what it iterates on: \<open>Inl\<close> is
  the early return, \<open>Inr\<close> the state carried to the next iteration.
\<close>

fun fold_err :: "('a \<Rightarrow> 's \<Rightarrow> 'e + 's) \<Rightarrow> 'a list \<Rightarrow> 's \<Rightarrow> 'e + 's" where
  "fold_err f [] s = Inr s"
| "fold_err f (x # xs) s = (case f x s of Inl e \<Rightarrow> Inl e | Inr s' \<Rightarrow> fold_err f xs s')"

lemma fold_err_append:
  "fold_err f (xs @ ys) s = (case fold_err f xs s of Inl e \<Rightarrow> Inl e | Inr s' \<Rightarrow> fold_err f ys s')"
  by (induction xs arbitrary: s) (auto split: sum.splits)

text \<open>The invariant rule: what every iteration keeps holds of the state the loop ends in.\<close>

lemma fold_err_inv:
  assumes "fold_err f xs s = Inr s'" and "I s"
    and "\<And>x s s'. x \<in> set xs \<Longrightarrow> I s \<Longrightarrow> f x s = Inr s' \<Longrightarrow> I s'"
  shows "I s'"
  using assms
proof (induction xs arbitrary: s)
  case Nil
  then show ?case by simp
next
  case (Cons x xs)
  from Cons.prems(1) obtain s1 where s1: "f x s = Inr s1" "fold_err f xs s1 = Inr s'"
    by (auto split: sum.splits)
  have "I s1" using Cons.prems(3) [OF _ Cons.prems(2) s1(1)] by simp
  then show ?case
    by (rule Cons.IH [OF s1(2)]) (metis Cons.prems(3) list.set_intros(2))
qed

text \<open>The same for the status of an early return.\<close>

lemma fold_err_Inl:
  "fold_err f xs s = Inl e \<Longrightarrow> \<exists>x\<in>set xs. \<exists>s'. f x s' = Inl e"
  by (induction xs arbitrary: s) (auto split: sum.splits)

subsection \<open>Words\<close>

lemma word_and_not_and_self [byte_bits]: "(x AND NOT m) AND m = (0 :: 'a::len word)"
  by (rule bit_word_eqI) (simp add: bit_simps)

lemma word_or_and_self [byte_bits]: "(x OR m) AND m = (m :: 'a::len word)"
  by (rule bit_word_eqI) (auto simp: bit_simps)

lemma word_and_not_idem [byte_bits]: "(x AND NOT m) AND NOT m = (x AND NOT m :: 'a::len word)"
  by (rule bit_word_eqI) (auto simp: bit_simps)

lemma word_or_idem [byte_bits]: "(x OR m) OR m = (x OR m :: 'a::len word)"
  by (rule bit_word_eqI) (auto simp: bit_simps)

lemma word_and_idem [byte_bits]: "(x AND m) AND m = (x AND m :: 'a::len word)"
  by (rule bit_word_eqI) (auto simp: bit_simps)

lemma and_disjoint: "x AND m = 0 \<Longrightarrow> (x AND y) AND m = (0 :: 'a::len word)"
  by (auto simp: bit_eq_iff bit_simps)

text \<open>Widening a word and narrowing it again.\<close>

lemma ucast_ucast_up [simp]:
  "ucast (ucast (x :: u16) :: u32) = x"
  "ucast (ucast (y :: u8) :: u32) = y"
  "ucast (ucast (z :: u32) :: u64) = z"
  by (simp_all add: ucast_up_ucast_id is_up)

end
