(* ===== verification/Snx_Kernel.thy ===== *)
theory Snx_Kernel
  imports Snx_Prelude
begin

text \<open>
  The driver talks to its boards with \<^verbatim>\<open>inb\<close> and \<^verbatim>\<open>outb\<close> and asks the kernel
  questions whose answers it does not control: is a signal pending, should it
  reschedule, what time is it, did the flip buffer take the character. None of
  this is source code of the repository, so it is a parameter: a \<open>machine\<close> carries
  one oracle per question, each a function of the whole history of I/O so far.
  Any hardware and any scheduling is some choice of the oracles. The history
  itself is the \<open>trace\<close>, oldest event first, and it is what the theorems observe.
\<close>

section \<open>The machine under the driver: port I/O and the kernel services it asks\<close>

type_synonym ioaddr = u64

datatype tty_flag = TTY_NORMAL | TTY_BREAK | TTY_FRAME | TTY_PARITY | TTY_OVERRUN

datatype event =
    In ioaddr u8                 \<comment> \<open>\<^verbatim>\<open>inb\<close> at an address returned a byte\<close>
  | Out ioaddr u8                \<comment> \<open>\<^verbatim>\<open>outb\<close> of a byte to an address\<close>
  | FlipChar u8 tty_flag bool    \<comment> \<open>\<^verbatim>\<open>tty_insert_flip_char\<close> and whether it found room\<close>
  | FlipPush                     \<comment> \<open>\<^verbatim>\<open>tty_flip_buffer_push\<close>\<close>
  | TaskletSchedule              \<comment> \<open>\<^verbatim>\<open>tasklet_schedule(&info->tlet)\<close>\<close>
  | WakeOpen                     \<comment> \<open>\<^verbatim>\<open>wake_up_interruptible(&info->open_wait)\<close>\<close>
  | WakeDelta                    \<comment> \<open>\<^verbatim>\<open>wake_up_interruptible(&info->delta_msr_wait)\<close>\<close>
  | WakeWrite                    \<comment> \<open>\<^verbatim>\<open>wake_up_interruptible(&tty->write_wait)\<close>\<close>
  | TtyHangup                    \<comment> \<open>\<^verbatim>\<open>tty_hangup\<close>\<close>
  | DoSAK                        \<comment> \<open>\<^verbatim>\<open>do_SAK\<close>\<close>
  | SignalPending bool           \<comment> \<open>\<^verbatim>\<open>signal_pending(current)\<close>\<close>
  | NeedResched bool             \<comment> \<open>\<^verbatim>\<open>need_resched()\<close>\<close>
  | Jiffies u64                  \<comment> \<open>a read of \<^verbatim>\<open>jiffies\<close>\<close>
  | DownIrq int                  \<comment> \<open>\<^verbatim>\<open>down_interruptible\<close> and its status\<close>
  | DelTimer bool                \<comment> \<open>\<^verbatim>\<open>del_timer\<close>: was the timer still pending\<close>
  | UpIrq                        \<comment> \<open>\<^verbatim>\<open>up(&ieee1284.irq)\<close>\<close>
  | Sleep u64                    \<comment> \<open>\<^verbatim>\<open>schedule_timeout_interruptible\<close>\<close>
  | Schedule                     \<comment> \<open>\<^verbatim>\<open>schedule\<close>\<close>
  | WaitSent u64                 \<comment> \<open>\<^verbatim>\<open>tty_wait_until_sent\<close>\<close>
  | LdiscFlush                   \<comment> \<open>the line discipline's \<^verbatim>\<open>flush_buffer\<close>\<close>
  | RequestRegion ioaddr         \<comment> \<open>\<^verbatim>\<open>request_region\<close>, its result ignored\<close>
  | ReleaseRegion ioaddr         \<comment> \<open>\<^verbatim>\<open>release_region\<close>\<close>
  | TtyPortInit nat              \<comment> \<open>\<^verbatim>\<open>tty_port_init\<close> of a line's \<^verbatim>\<open>tport\<close>\<close>
  | TtyPortDestroy nat           \<comment> \<open>\<^verbatim>\<open>tty_port_destroy\<close>\<close>
  | TtyRegister int              \<comment> \<open>\<^verbatim>\<open>tty_register_driver\<close> and its status\<close>
  | TtyUnregister                \<comment> \<open>\<^verbatim>\<open>tty_unregister_driver\<close>\<close>
  | PutTtyDriver                 \<comment> \<open>\<^verbatim>\<open>put_tty_driver\<close>\<close>
  | RegisterDevice nat           \<comment> \<open>\<^verbatim>\<open>tty_port_register_device\<close>, its result only printed\<close>
  | UnregisterDevice nat         \<comment> \<open>\<^verbatim>\<open>tty_unregister_device\<close>\<close>
  | TaskletKill                  \<comment> \<open>\<^verbatim>\<open>tasklet_kill(&info->tlet)\<close>\<close>

record machine =
  m_in :: "event list \<Rightarrow> ioaddr \<Rightarrow> u8"
  m_flip :: "event list \<Rightarrow> bool"
  m_signal :: "event list \<Rightarrow> bool"
  m_resched :: "event list \<Rightarrow> bool"
  m_jiffies :: "event list \<Rightarrow> u64"
  m_down :: "event list \<Rightarrow> int"
  m_timer :: "event list \<Rightarrow> bool"
  trace :: "event list"

definition emit :: "event \<Rightarrow> machine \<Rightarrow> machine" where
  "emit e m = m\<lparr>trace := trace m @ [e]\<rparr>"

definition inb :: "ioaddr \<Rightarrow> machine \<Rightarrow> u8 \<times> machine" where
  "inb a m = (let v = m_in m (trace m) a in (v, emit (In a v) m))"

definition outb :: "u8 \<Rightarrow> ioaddr \<Rightarrow> machine \<Rightarrow> machine" where
  "outb v a m = emit (Out a v) m"

definition signal_pending :: "machine \<Rightarrow> bool \<times> machine" where
  "signal_pending m = (let b = m_signal m (trace m) in (b, emit (SignalPending b) m))"

definition need_resched :: "machine \<Rightarrow> bool \<times> machine" where
  "need_resched m = (let b = m_resched m (trace m) in (b, emit (NeedResched b) m))"

definition jiffies :: "machine \<Rightarrow> u64 \<times> machine" where
  "jiffies m = (let t = m_jiffies m (trace m) in (t, emit (Jiffies t) m))"

definition flip_char :: "u8 \<Rightarrow> tty_flag \<Rightarrow> machine \<Rightarrow> bool \<times> machine" where
  "flip_char c f m = (let b = m_flip m (trace m) in (b, emit (FlipChar c f b) m))"

definition down_irq :: "machine \<Rightarrow> int \<times> machine" where
  "down_irq m = (let r = m_down m (trace m) in (r, emit (DownIrq r) m))"

definition del_timer :: "machine \<Rightarrow> bool \<times> machine" where
  "del_timer m = (let b = m_timer m (trace m) in (b, emit (DelTimer b) m))"

text \<open>\<^verbatim>\<open>time_before(a, b)\<close> of the kernel: the signed difference is negative.\<close>

definition time_before :: "u64 \<Rightarrow> u64 \<Rightarrow> bool" where
  "time_before a b \<longleftrightarrow> sint (a - b) < 0"

subsection \<open>Observations of a trace\<close>

definition outs_at :: "ioaddr \<Rightarrow> event list \<Rightarrow> u8 list" where
  "outs_at a = List.map_filter (\<lambda>e. case e of Out a' v \<Rightarrow> if a' = a then Some v else None | _ \<Rightarrow> None)"

definition ins_at :: "ioaddr \<Rightarrow> event list \<Rightarrow> u8 list" where
  "ins_at a = List.map_filter (\<lambda>e. case e of In a' v \<Rightarrow> if a' = a then Some v else None | _ \<Rightarrow> None)"

definition flips :: "event list \<Rightarrow> (u8 \<times> tty_flag) list" where
  "flips = List.map_filter (\<lambda>e. case e of FlipChar c f b \<Rightarrow> Some (c, f) | _ \<Rightarrow> None)"

lemma outs_at_simps [simp]:
  "outs_at a [] = []"
  "outs_at a (xs @ ys) = outs_at a xs @ outs_at a ys"
  "outs_at a (Out a' v # xs) = (if a' = a then v # outs_at a xs else outs_at a xs)"
  by (simp_all add: outs_at_def)

lemma outs_at_other [simp]: "(\<And>v. e \<noteq> Out a v) \<Longrightarrow> outs_at a (e # xs) = outs_at a xs"
  by (cases e) (auto simp: outs_at_def)

lemma ins_at_simps [simp]:
  "ins_at a [] = []"
  "ins_at a (xs @ ys) = ins_at a xs @ ins_at a ys"
  "ins_at a (In a' v # xs) = (if a' = a then v # ins_at a xs else ins_at a xs)"
  by (simp_all add: ins_at_def)

lemma ins_at_other [simp]: "(\<And>v. e \<noteq> In a v) \<Longrightarrow> ins_at a (e # xs) = ins_at a xs"
  by (cases e) (auto simp: ins_at_def)

lemma flips_simps [simp]:
  "flips [] = []"
  "flips (xs @ ys) = flips xs @ flips ys"
  "flips (FlipChar c f b # xs) = (c, f) # flips xs"
  by (simp_all add: flips_def)

lemma flips_other [simp]: "(\<And>c f b. e \<noteq> FlipChar c f b) \<Longrightarrow> flips (e # xs) = flips xs"
  by (cases e) (auto simp: flips_def)

subsection \<open>What a step does to the machine\<close>

lemma trace_emit [simp, trace_simps]: "trace (emit e m) = trace m @ [e]"
  by (simp add: emit_def)

lemma oracles_emit [simp]:
  "m_in (emit e m) = m_in m" "m_flip (emit e m) = m_flip m" "m_signal (emit e m) = m_signal m"
  "m_resched (emit e m) = m_resched m" "m_jiffies (emit e m) = m_jiffies m"
  "m_down (emit e m) = m_down m" "m_timer (emit e m) = m_timer m"
  by (simp_all add: emit_def)

lemma trace_outb [simp, trace_simps]: "trace (outb v a m) = trace m @ [Out a v]"
  by (simp add: outb_def)

lemma oracles_outb [simp]:
  "m_in (outb v a m) = m_in m" "m_flip (outb v a m) = m_flip m" "m_signal (outb v a m) = m_signal m"
  "m_resched (outb v a m) = m_resched m" "m_jiffies (outb v a m) = m_jiffies m"
  "m_down (outb v a m) = m_down m" "m_timer (outb v a m) = m_timer m"
  by (simp_all add: outb_def)

lemma fst_inb [simp]: "fst (inb a m) = m_in m (trace m) a"
  by (simp add: inb_def Let_def)

lemma snd_inb [simp]: "snd (inb a m) = emit (In a (m_in m (trace m) a)) m"
  by (simp add: inb_def Let_def)

subsection \<open>Stretches of a run, and the clock\<close>

text \<open>\<open>ran\<close>: the same oracles, and what happened. \<open>looks\<close> counts the looks at the clock.\<close>

definition ran :: "machine \<Rightarrow> event list \<Rightarrow> machine \<Rightarrow> bool" where
  "ran m us m' \<longleftrightarrow> m' = m\<lparr>trace := trace m @ us\<rparr>"

definition looks :: "event list \<Rightarrow> nat" where
  "looks us = length (filter (\<lambda>e. \<exists>t. e = Jiffies t) us)"

lemma looks_simps [simp]:
  "looks [] = 0" "looks (xs @ ys) = looks xs + looks ys" "looks (Jiffies t # xs) = Suc (looks xs)"
  by (simp_all add: looks_def)

lemma looks_other [simp]: "(\<And>t. e \<noteq> Jiffies t) \<Longrightarrow> looks (e # xs) = looks xs"
  by (auto simp: looks_def)

lemma ran_refl [simp]: "ran m [] m"
  by (simp add: ran_def)

lemma ran_trans: "ran m us m1 \<Longrightarrow> ran m1 vs m2 \<Longrightarrow> ran m (us @ vs) m2"
  by (simp add: ran_def)

lemma ran_kernel:
  "ran m [e] (emit e m)" "ran m [Out a v] (outb v a m)"
  "inb a m = (v, m1) \<Longrightarrow> ran m [In a v] m1" "signal_pending m = (b, m1) \<Longrightarrow> ran m [SignalPending b] m1"
  "need_resched m = (b, m1) \<Longrightarrow> ran m [NeedResched b] m1" "jiffies m = (now, m1) \<Longrightarrow> ran m [Jiffies now] m1"
  "down_irq m = (r, m1) \<Longrightarrow> ran m [DownIrq r] m1" "del_timer m = (b, m1) \<Longrightarrow> ran m [DelTimer b] m1"
  by (auto simp: ran_def emit_def outb_def inb_def signal_pending_def need_resched_def jiffies_def down_irq_def del_timer_def Let_def)

lemma ran_oracles:
  assumes "ran m us m'"
  shows "trace m' = trace m @ us" "m_jiffies m' = m_jiffies m" "m_in m' = m_in m"
  using assms by (simp_all add: ran_def)

text \<open>
  The clock: for \<open>N\<close> looks or more (up to \<open>3 * N + 10\<close>) after any moment, \<open>T\<close> ticks have passed.
\<close>

definition clock_ok :: "u64 \<Rightarrow> nat \<Rightarrow> machine \<Rightarrow> bool" where
  "clock_ok T N m \<longleftrightarrow> 1 \<le> N \<and> (\<forall>ts us. N \<le> looks us \<longrightarrow> looks us \<le> 3 * N + 10 \<longrightarrow>
     \<not> time_before (m_jiffies m (ts @ us)) (m_jiffies m ts + T))"

subsection \<open>A machine for examples\<close>

text \<open>Every port reads 0, every question is answered with "no", the flip buffer has room.\<close>

definition idle_machine :: machine where
  "idle_machine = \<lparr>m_in = (\<lambda>_ _. 0), m_flip = (\<lambda>_. True), m_signal = (\<lambda>_. False), m_resched = (\<lambda>_. False),
     m_jiffies = (\<lambda>_. 0), m_down = (\<lambda>_. 0), m_timer = (\<lambda>_. False), trace = []\<rparr>"

definition counting_machine :: machine where
  "counting_machine = idle_machine\<lparr>m_jiffies := \<lambda>ts. of_nat (looks ts)\<rparr>"

lemma counting_clock:
  assumes "n \<le> N" "1 \<le> N" "N \<le> 1000"
  shows "clock_ok (of_nat n) N counting_machine"
proof -
  have "\<not> time_before (of_nat (a + b)) (of_nat a + of_nat n)" if "N \<le> b" "b \<le> 3 * N + 10" for a b
  proof -
    have "of_nat (a + b) - (of_nat a + of_nat n) = (of_nat (b - n) :: u64)" using that assms by (simp add: of_nat_diff)
    moreover have "b - n \<le> 3010" using that assms by linarith
    then have "sint (of_nat (b - n) :: u64) = int (b - n)"
      by (simp add: signed_of_nat signed_take_bit_int_eq_self del: of_nat_diff)
    ultimately show ?thesis by (simp add: time_before_def)
  qed
  then show ?thesis using assms by (simp add: clock_ok_def counting_machine_def)
qed

end
