(* ===== verification/Snx_Devtable.thy ===== *)
theory Snx_Devtable
  imports Snx_Prelude
begin

text \<open>
  The static tables of the driver. \<open>snx_pci_board_conf\<close> of driver/snx_devtable.c says, for
  every supported board, its identifiers, how many serial and parallel ports it has
  and where each port's registers lie; \<open>sunix_pci_board_id\<close> of driver/snx_main.c lists the
  same boards for the PCI subsystem. The structs are the \<^verbatim>\<open>PORT\<close> and \<^verbatim>\<open>PCI_BOARD\<close> of
  driver/snx_common.h. The rows are grouped by family, in the order of the C array.
  The lemmas evaluate the table once: every row is well formed, and the two tables
  agree row by row, which is what lets the probe use one index for both.
\<close>

section \<open>The device tables\<close>

subsection \<open>Constants of the headers\<close>

abbreviation (input) VENID_GOLDEN :: u32 where "VENID_GOLDEN \<equiv> 5129"
abbreviation (input) DEVID_G_SERIAL :: u32 where "DEVID_G_SERIAL \<equiv> 29032"
abbreviation (input) DEVID_G_PARALL :: u32 where "DEVID_G_PARALL \<equiv> 29288"
abbreviation (input) SUBVENID_GOLDEN :: u32 where "SUBVENID_GOLDEN \<equiv> 5129"
abbreviation (input) VENID_MATRIX :: u32 where "VENID_MATRIX \<equiv> 8148"
abbreviation (input) DEVID_M_SERIAL :: u32 where "DEVID_M_SERIAL \<equiv> 1"
abbreviation (input) SUBVENID_MATRIX :: u32 where "SUBVENID_MATRIX \<equiv> 1"
abbreviation (input) VENID_SUN1999 :: u32 where "VENID_SUN1999 \<equiv> 8148"
abbreviation (input) DEVID_S_SERIAL :: u32 where "DEVID_S_SERIAL \<equiv> 6553"
abbreviation (input) DEVID_S_PARALL :: u32 where "DEVID_S_PARALL \<equiv> 6553"
abbreviation (input) SUBVENID_SUN1999 :: u32 where "SUBVENID_SUN1999 \<equiv> 8148"
abbreviation (input) SUBDEVID_TEST :: u32 where "SUBDEVID_TEST \<equiv> 39321"
abbreviation (input) SUBDEVID_4027A :: u32 where "SUBDEVID_4027A \<equiv> 16423"
abbreviation (input) SUBDEVID_4027D :: u32 where "SUBDEVID_4027D \<equiv> 20519"
abbreviation (input) SUBDEVID_4037A :: u32 where "SUBDEVID_4037A \<equiv> 16439"
abbreviation (input) SUBDEVID_4037D :: u32 where "SUBDEVID_4037D \<equiv> 20535"
abbreviation (input) SUBDEVID_4036A3V :: u32 where "SUBDEVID_4036A3V \<equiv> 2"
abbreviation (input) SUBDEVID_4056A :: u32 where "SUBDEVID_4056A \<equiv> 16470"
abbreviation (input) SUBDEVID_4056D :: u32 where "SUBDEVID_4056D \<equiv> 24662"
abbreviation (input) SUBDEVID_4056DW :: u32 where "SUBDEVID_4056DW \<equiv> 16469"
abbreviation (input) SUBDEVID_4066A :: u32 where "SUBDEVID_4066A \<equiv> 16486"
abbreviation (input) SUBDEVID_4066R :: u32 where "SUBDEVID_4066R \<equiv> 20582"
abbreviation (input) SUBDEVID_8139 :: u32 where "SUBDEVID_8139 \<equiv> 33080"
abbreviation (input) SUBDEVID_8139S :: u32 where "SUBDEVID_8139S \<equiv> 37176"
abbreviation (input) SUBDEVID_8159 :: u32 where "SUBDEVID_8159 \<equiv> 33110"
abbreviation (input) SUBDEVID_8159S :: u32 where "SUBDEVID_8159S \<equiv> 37206"
abbreviation (input) SUBDEVID_8169 :: u32 where "SUBDEVID_8169 \<equiv> 33126"
abbreviation (input) SUBDEVID_8169S :: u32 where "SUBDEVID_8169S \<equiv> 37222"
abbreviation (input) SUBDEVID_4079A :: u32 where "SUBDEVID_4079A \<equiv> 20601"
abbreviation (input) SUBDEVID_4089A :: u32 where "SUBDEVID_4089A \<equiv> 16521"
abbreviation (input) SUBDEVID_4096A :: u32 where "SUBDEVID_4096A \<equiv> 16534"
abbreviation (input) SUBDEVID_P1002 :: u32 where "SUBDEVID_P1002 \<equiv> 4098"
abbreviation (input) SUBDEVID_P1004 :: u32 where "SUBDEVID_P1004 \<equiv> 4100"
abbreviation (input) SUBDEVID_P1008 :: u32 where "SUBDEVID_P1008 \<equiv> 4104"
abbreviation (input) SUBDEVID_P1016 :: u32 where "SUBDEVID_P1016 \<equiv> 4118"
abbreviation (input) SUBDEVID_P2002 :: u32 where "SUBDEVID_P2002 \<equiv> 8194"
abbreviation (input) SUBDEVID_P2004 :: u32 where "SUBDEVID_P2004 \<equiv> 8196"
abbreviation (input) SUBDEVID_P2008 :: u32 where "SUBDEVID_P2008 \<equiv> 8200"
abbreviation (input) SUBDEVID_P3002 :: u32 where "SUBDEVID_P3002 \<equiv> 12290"
abbreviation (input) SUBDEVID_P3004 :: u32 where "SUBDEVID_P3004 \<equiv> 12292"
abbreviation (input) SUBDEVID_P3008 :: u32 where "SUBDEVID_P3008 \<equiv> 12296"
abbreviation (input) SUBDEVID_5027A :: u32 where "SUBDEVID_5027A \<equiv> 1"
abbreviation (input) SUBDEVID_5037A :: u32 where "SUBDEVID_5037A \<equiv> 2"
abbreviation (input) SUBDEVID_5056A :: u32 where "SUBDEVID_5056A \<equiv> 4"
abbreviation (input) SUBDEVID_5066A :: u32 where "SUBDEVID_5066A \<equiv> 8"
abbreviation (input) SUBDEVID_5016A :: u32 where "SUBDEVID_5016A \<equiv> 16"
abbreviation (input) SUBDEVID_5069A :: u32 where "SUBDEVID_5069A \<equiv> 257"
abbreviation (input) SUBDEVID_5079A :: u32 where "SUBDEVID_5079A \<equiv> 258"
abbreviation (input) SUBDEVID_5099A :: u32 where "SUBDEVID_5099A \<equiv> 260"
abbreviation (input) SUBDEVID_5008A :: u32 where "SUBDEVID_5008A \<equiv> 256"
abbreviation (input) SUBDEVID_P2102 :: u32 where "SUBDEVID_P2102 \<equiv> 2"
abbreviation (input) SUBDEVID_P2104 :: u32 where "SUBDEVID_P2104 \<equiv> 4"
abbreviation (input) SUBDEVID_P2108 :: u32 where "SUBDEVID_P2108 \<equiv> 8"
abbreviation (input) SUBDEVID_P2116 :: u32 where "SUBDEVID_P2116 \<equiv> 16"
abbreviation (input) SUBDEVID_P3104 :: u32 where "SUBDEVID_P3104 \<equiv> 132"
abbreviation (input) SUBDEVID_P3108 :: u32 where "SUBDEVID_P3108 \<equiv> 136"
abbreviation (input) SUBDEVID_CASH_2S :: u32 where "SUBDEVID_CASH_2S \<equiv> 2"
abbreviation (input) SUBDEVID_CASH_4S :: u32 where "SUBDEVID_CASH_4S \<equiv> 4"
abbreviation (input) SUBDEVID_DIO0802 :: u32 where "SUBDEVID_DIO0802 \<equiv> 2"
abbreviation (input) SUBDEVID_DIO1604 :: u32 where "SUBDEVID_DIO1604 \<equiv> 4"
abbreviation (input) SUBDEVID_DIO3204 :: u32 where "SUBDEVID_DIO3204 \<equiv> 4"
abbreviation (input) SUNNONE_HWID :: u32 where "SUNNONE_HWID \<equiv> 0"
abbreviation (input) SUN1889_HWID :: u32 where "SUN1889_HWID \<equiv> 1"
abbreviation (input) SUN1699_HWID :: u32 where "SUN1699_HWID \<equiv> 2"
abbreviation (input) SUN1689_HWID :: u32 where "SUN1689_HWID \<equiv> 8"
abbreviation (input) SUNMATX_HWID :: u32 where "SUNMATX_HWID \<equiv> 16"
abbreviation (input) SUN1999_HWID :: u32 where "SUN1999_HWID \<equiv> 32"
abbreviation (input) BOARDFLAG_NONE :: u32 where "BOARDFLAG_NONE \<equiv> 0"
abbreviation (input) BOARDFLAG_REMAP :: u32 where "BOARDFLAG_REMAP \<equiv> 1"
abbreviation (input) BOARDFLAG_16PORTS :: u32 where "BOARDFLAG_16PORTS \<equiv> 2"
abbreviation (input) PART_NUMBER_NONE :: u32 where "PART_NUMBER_NONE \<equiv> 0"
abbreviation (input) CARD_TYPE_UART_ONLY :: u32 where "CARD_TYPE_UART_ONLY \<equiv> 0"
abbreviation (input) CARD_TYPE_UART_GINTR :: u32 where "CARD_TYPE_UART_GINTR \<equiv> 1"
abbreviation (input) CARD_TYPE_UART_GEXTR :: u32 where "CARD_TYPE_UART_GEXTR \<equiv> 2"
abbreviation (input) GPIO_NONE :: int where "GPIO_NONE \<equiv> 0"
abbreviation (input) INTR_GPIO_6PORT :: int where "INTR_GPIO_6PORT \<equiv> 6"
abbreviation (input) EXTR_GPIO_8PORT :: int where "EXTR_GPIO_8PORT \<equiv> 8"
abbreviation (input) EXTR_GPIO_16PORT :: int where "EXTR_GPIO_16PORT \<equiv> 16"
abbreviation (input) EXTR_GPIO_32PORT :: int where "EXTR_GPIO_32PORT \<equiv> 32"
abbreviation (input) SNX_BOARDS_MAX :: nat where "SNX_BOARDS_MAX \<equiv> 4"
abbreviation (input) SNX_PORT_ONBOARD_MAX :: nat where "SNX_PORT_ONBOARD_MAX \<equiv> 16"
abbreviation (input) SNX_SER_TOTAL_MAX :: nat where "SNX_SER_TOTAL_MAX \<equiv> 32"
abbreviation (input) SNX_PAR_SUPPORT_MAX :: nat where "SNX_PAR_SUPPORT_MAX \<equiv> 2"
abbreviation (input) SNX_PAR_TOTAL_MAX :: nat where "SNX_PAR_TOTAL_MAX \<equiv> 4"
abbreviation (input) SNX_PCICFG_BAR_TOTAL :: nat where "SNX_PCICFG_BAR_TOTAL \<equiv> 6"

text \<open>The board numbers: positions in the anonymous enum of driver/snx_main.c.\<close>

abbreviation (input) GOLDEN_BOARD_TEST :: nat where "GOLDEN_BOARD_TEST \<equiv> 0"
abbreviation (input) GOLDEN_BOARD_4027A :: nat where "GOLDEN_BOARD_4027A \<equiv> 1"
abbreviation (input) GOLDEN_BOARD_4027D :: nat where "GOLDEN_BOARD_4027D \<equiv> 2"
abbreviation (input) GOLDEN_BOARD_4037A :: nat where "GOLDEN_BOARD_4037A \<equiv> 3"
abbreviation (input) GOLDEN_BOARD_4037D :: nat where "GOLDEN_BOARD_4037D \<equiv> 4"
abbreviation (input) GOLDEN_BOARD_4036A3V :: nat where "GOLDEN_BOARD_4036A3V \<equiv> 5"
abbreviation (input) GOLDEN_BOARD_4056A :: nat where "GOLDEN_BOARD_4056A \<equiv> 6"
abbreviation (input) GOLDEN_BOARD_4056D :: nat where "GOLDEN_BOARD_4056D \<equiv> 7"
abbreviation (input) GOLDEN_BOARD_4056DW :: nat where "GOLDEN_BOARD_4056DW \<equiv> 8"
abbreviation (input) GOLDEN_BOARD_4066A :: nat where "GOLDEN_BOARD_4066A \<equiv> 9"
abbreviation (input) GOLDEN_BOARD_4066R :: nat where "GOLDEN_BOARD_4066R \<equiv> 10"
abbreviation (input) GOLDEN_BOARD_8139 :: nat where "GOLDEN_BOARD_8139 \<equiv> 11"
abbreviation (input) GOLDEN_BOARD_8139S :: nat where "GOLDEN_BOARD_8139S \<equiv> 12"
abbreviation (input) GOLDEN_BOARD_8159 :: nat where "GOLDEN_BOARD_8159 \<equiv> 13"
abbreviation (input) GOLDEN_BOARD_8159S :: nat where "GOLDEN_BOARD_8159S \<equiv> 14"
abbreviation (input) GOLDEN_BOARD_8169 :: nat where "GOLDEN_BOARD_8169 \<equiv> 15"
abbreviation (input) GOLDEN_BOARD_8169S :: nat where "GOLDEN_BOARD_8169S \<equiv> 16"
abbreviation (input) GOLDEN_BOARD_4079A :: nat where "GOLDEN_BOARD_4079A \<equiv> 17"
abbreviation (input) GOLDEN_BOARD_4089A :: nat where "GOLDEN_BOARD_4089A \<equiv> 18"
abbreviation (input) GOLDEN_BOARD_4096A :: nat where "GOLDEN_BOARD_4096A \<equiv> 19"
abbreviation (input) MATRIX_BOARD_P1002 :: nat where "MATRIX_BOARD_P1002 \<equiv> 20"
abbreviation (input) MATRIX_BOARD_P1004 :: nat where "MATRIX_BOARD_P1004 \<equiv> 21"
abbreviation (input) MATRIX_BOARD_P1008 :: nat where "MATRIX_BOARD_P1008 \<equiv> 22"
abbreviation (input) MATRIX_BOARD_P1016 :: nat where "MATRIX_BOARD_P1016 \<equiv> 23"
abbreviation (input) MATRIX_BOARD_P2002 :: nat where "MATRIX_BOARD_P2002 \<equiv> 24"
abbreviation (input) MATRIX_BOARD_P2004 :: nat where "MATRIX_BOARD_P2004 \<equiv> 25"
abbreviation (input) MATRIX_BOARD_P2008 :: nat where "MATRIX_BOARD_P2008 \<equiv> 26"
abbreviation (input) MATRIX_BOARD_P3002 :: nat where "MATRIX_BOARD_P3002 \<equiv> 27"
abbreviation (input) MATRIX_BOARD_P3004 :: nat where "MATRIX_BOARD_P3004 \<equiv> 28"
abbreviation (input) MATRIX_BOARD_P3008 :: nat where "MATRIX_BOARD_P3008 \<equiv> 29"
abbreviation (input) SUN1999_BOARD_5027A :: nat where "SUN1999_BOARD_5027A \<equiv> 30"
abbreviation (input) SUN1999_BOARD_5037A :: nat where "SUN1999_BOARD_5037A \<equiv> 31"
abbreviation (input) SUN1999_BOARD_5056A :: nat where "SUN1999_BOARD_5056A \<equiv> 32"
abbreviation (input) SUN1999_BOARD_5066A :: nat where "SUN1999_BOARD_5066A \<equiv> 33"
abbreviation (input) SUN1999_BOARD_5016A :: nat where "SUN1999_BOARD_5016A \<equiv> 34"
abbreviation (input) SUN1999_BOARD_5069A :: nat where "SUN1999_BOARD_5069A \<equiv> 35"
abbreviation (input) SUN1999_BOARD_5079A :: nat where "SUN1999_BOARD_5079A \<equiv> 36"
abbreviation (input) SUN1999_BOARD_5099A :: nat where "SUN1999_BOARD_5099A \<equiv> 37"
abbreviation (input) SUN1999_BOARD_5008A :: nat where "SUN1999_BOARD_5008A \<equiv> 38"
abbreviation (input) SUN1999_BOARD_P2102 :: nat where "SUN1999_BOARD_P2102 \<equiv> 39"
abbreviation (input) SUN1999_BOARD_P2104 :: nat where "SUN1999_BOARD_P2104 \<equiv> 40"
abbreviation (input) SUN1999_BOARD_P2108 :: nat where "SUN1999_BOARD_P2108 \<equiv> 41"
abbreviation (input) SUN1999_BOARD_P2116 :: nat where "SUN1999_BOARD_P2116 \<equiv> 42"
abbreviation (input) SUN1999_BOARD_P3104 :: nat where "SUN1999_BOARD_P3104 \<equiv> 43"
abbreviation (input) SUN1999_BOARD_P3108 :: nat where "SUN1999_BOARD_P3108 \<equiv> 44"
abbreviation (input) SUN1999_BOARD_CASH_2S :: nat where "SUN1999_BOARD_CASH_2S \<equiv> 45"
abbreviation (input) SUN1999_BOARD_CASH_4S :: nat where "SUN1999_BOARD_CASH_4S \<equiv> 46"
abbreviation (input) SUN1999_BOARD_DIO0802 :: nat where "SUN1999_BOARD_DIO0802 \<equiv> 47"
abbreviation (input) SUN1999_BOARD_DIO1604 :: nat where "SUN1999_BOARD_DIO1604 \<equiv> 48"
abbreviation (input) SUN1999_BOARD_DIO3204 :: nat where "SUN1999_BOARD_DIO3204 \<equiv> 49"

subsection \<open>One port and one board of the table\<close>

record PORT =
  p_type :: char
  p_bar1 :: int
  p_offset1 :: u8
  p_length1 :: u8
  p_bar2 :: int
  p_offset2 :: u8
  p_length2 :: u8
  p_intmask :: u32
  p_chip_flag :: u32

record PCI_BOARD =
  pb_vendor_id :: u32
  pb_device_id :: u32
  pb_sub_vendor_id :: u32
  pb_sub_device_id :: u32
  pb_num_serport :: u32
  pb_num_parport :: u32
  pb_intr_vector_bar :: u32
  pb_intr_vector_offset :: u8
  pb_board_name :: string
  pb_board_flag :: u32
  pb_part_number :: u32
  pb_card_type :: u32
  pb_gpio_ch_cnt :: int
  pb_port :: "PORT list"

text \<open>
  The initialiser of a board gives the first few of its \<^verbatim>\<open>SNX_PORT_ONBOARD_MAX\<close> ports; C fills
  the others with zero bytes.
\<close>

definition zero_port :: PORT where
  "zero_port = \<lparr>p_type = CHR 0x00, p_bar1 = 0, p_offset1 = 0, p_length1 = 0,
     p_bar2 = 0, p_offset2 = 0, p_length2 = 0, p_intmask = 0, p_chip_flag = 0\<rparr>"

definition pb_port_at :: "PCI_BOARD \<Rightarrow> nat \<Rightarrow> PORT" where
  "pb_port_at pb j = (if j < length (pb_port pb) then pb_port pb ! j else zero_port)"

text \<open>\<open>port_row\<close> and \<open>board_row\<close> spell an initialiser with the columns in the C order.\<close>

definition port_row :: "char \<Rightarrow> int \<Rightarrow> u8 \<Rightarrow> u8 \<Rightarrow> int \<Rightarrow> u8 \<Rightarrow> u8 \<Rightarrow> u32 \<Rightarrow> u32 \<Rightarrow> PORT" where
  "port_row t b1 o1 l1 b2 o2 l2 im cf =
     \<lparr>p_type = t, p_bar1 = b1, p_offset1 = o1, p_length1 = l1,
      p_bar2 = b2, p_offset2 = o2, p_length2 = l2, p_intmask = im, p_chip_flag = cf\<rparr>"

definition board_row :: "u32 \<Rightarrow> u32 \<Rightarrow> u32 \<Rightarrow> u32 \<Rightarrow> u32 \<Rightarrow> u32 \<Rightarrow> u32 \<Rightarrow> u8 \<Rightarrow> string
    \<Rightarrow> u32 \<Rightarrow> u32 \<Rightarrow> u32 \<Rightarrow> int \<Rightarrow> PORT list \<Rightarrow> PCI_BOARD" where
  "board_row v d sv sd ns np ib io nm bf pn ct gc ps =
     \<lparr>pb_vendor_id = v, pb_device_id = d, pb_sub_vendor_id = sv, pb_sub_device_id = sd,
      pb_num_serport = ns, pb_num_parport = np, pb_intr_vector_bar = ib,
      pb_intr_vector_offset = io, pb_board_name = nm, pb_board_flag = bf,
      pb_part_number = pn, pb_card_type = ct, pb_gpio_ch_cnt = gc, pb_port = ps\<rparr>"

subsection \<open>\<^verbatim>\<open>snx_pci_board_conf\<close>\<close>

definition board_conf_golden_1 :: "PCI_BOARD list" where
  "board_conf_golden_1 = [
    board_row VENID_GOLDEN DEVID_G_SERIAL SUBVENID_GOLDEN SUBDEVID_TEST
      0 0 0 0 ''none'' BOARDFLAG_NONE PART_NUMBER_NONE CARD_TYPE_UART_ONLY GPIO_NONE
      [port_row (CHR ''n'') (-1) 0 0 (-1) 0 0 0 SUNNONE_HWID],
    board_row VENID_GOLDEN DEVID_G_SERIAL SUBVENID_GOLDEN SUBDEVID_4027A
      1 0 0 28 ''4027'' BOARDFLAG_NONE PART_NUMBER_NONE CARD_TYPE_UART_ONLY GPIO_NONE
      [port_row (CHR ''s'') 0 0 8 (-1) 0 0 1 SUN1889_HWID],
    board_row VENID_GOLDEN DEVID_G_SERIAL SUBVENID_GOLDEN SUBDEVID_4027D
      1 0 0 0 ''4027'' BOARDFLAG_REMAP PART_NUMBER_NONE CARD_TYPE_UART_ONLY GPIO_NONE
      [port_row (CHR ''s'') 2 0 8 (-1) 0 0 0 SUN1699_HWID],
    board_row VENID_GOLDEN DEVID_G_SERIAL SUBVENID_GOLDEN SUBDEVID_4037A
      2 0 0 28 ''4037'' BOARDFLAG_NONE PART_NUMBER_NONE CARD_TYPE_UART_ONLY GPIO_NONE
      [port_row (CHR ''s'') 0 0 8 (-1) 0 0 1 SUN1889_HWID,
       port_row (CHR ''s'') 0 8 8 (-1) 0 0 2 SUN1889_HWID],
    board_row VENID_GOLDEN DEVID_G_SERIAL SUBVENID_GOLDEN SUBDEVID_4037D
      2 0 0 0 ''4037'' BOARDFLAG_REMAP PART_NUMBER_NONE CARD_TYPE_UART_ONLY GPIO_NONE
      [port_row (CHR ''s'') 2 0 8 (-1) 0 0 0 SUN1699_HWID,
       port_row (CHR ''s'') 3 0 8 (-1) 0 0 0 SUN1699_HWID],
    board_row VENID_GOLDEN DEVID_G_SERIAL SUBVENID_GOLDEN SUBDEVID_4036A3V
      2 0 0 28 ''4036'' BOARDFLAG_NONE PART_NUMBER_NONE CARD_TYPE_UART_ONLY GPIO_NONE
      [port_row (CHR ''s'') 0 0 8 (-1) 0 0 1 SUN1889_HWID,
       port_row (CHR ''s'') 0 8 8 (-1) 0 0 2 SUN1889_HWID],
    board_row VENID_GOLDEN DEVID_G_SERIAL SUBVENID_GOLDEN SUBDEVID_4056A
      4 0 0 28 ''4056'' BOARDFLAG_NONE PART_NUMBER_NONE CARD_TYPE_UART_ONLY GPIO_NONE
      [port_row (CHR ''s'') 0 0 8 (-1) 0 0 1 SUN1889_HWID,
       port_row (CHR ''s'') 0 8 8 (-1) 0 0 2 SUN1889_HWID,
       port_row (CHR ''s'') 1 0 8 (-1) 0 0 4 SUN1699_HWID,
       port_row (CHR ''s'') 1 8 8 (-1) 0 0 8 SUN1699_HWID],
    board_row VENID_GOLDEN DEVID_G_SERIAL SUBVENID_GOLDEN SUBDEVID_4056D
      4 0 0 0 ''4056'' BOARDFLAG_REMAP PART_NUMBER_NONE CARD_TYPE_UART_ONLY GPIO_NONE
      [port_row (CHR ''s'') 2 0 8 (-1) 0 0 0 SUN1699_HWID,
       port_row (CHR ''s'') 3 0 8 (-1) 0 0 0 SUN1699_HWID,
       port_row (CHR ''s'') 4 0 8 (-1) 0 0 0 SUN1699_HWID,
       port_row (CHR ''s'') 5 0 8 (-1) 0 0 0 SUN1699_HWID],
    board_row VENID_GOLDEN DEVID_G_SERIAL SUBVENID_GOLDEN SUBDEVID_4056DW
      4 0 0 28 ''4056'' BOARDFLAG_NONE PART_NUMBER_NONE CARD_TYPE_UART_ONLY GPIO_NONE
      [port_row (CHR ''s'') 0 0 8 (-1) 0 0 1 SUN1889_HWID,
       port_row (CHR ''s'') 0 8 8 (-1) 0 0 2 SUN1889_HWID,
       port_row (CHR ''s'') 1 0 8 (-1) 0 0 4 SUN1699_HWID,
       port_row (CHR ''s'') 1 8 8 (-1) 0 0 8 SUN1699_HWID],
    board_row VENID_GOLDEN DEVID_G_SERIAL SUBVENID_GOLDEN SUBDEVID_4066A
      8 0 0 28 ''4066'' BOARDFLAG_NONE PART_NUMBER_NONE CARD_TYPE_UART_ONLY GPIO_NONE
      [port_row (CHR ''s'') 0 0 8 (-1) 0 0 1 SUN1889_HWID,
       port_row (CHR ''s'') 0 8 8 (-1) 0 0 2 SUN1889_HWID,
       port_row (CHR ''s'') 1 0 8 (-1) 0 0 4 SUN1699_HWID,
       port_row (CHR ''s'') 1 8 8 (-1) 0 0 8 SUN1699_HWID,
       port_row (CHR ''s'') 2 0 8 (-1) 0 0 16 SUN1699_HWID,
       port_row (CHR ''s'') 3 0 8 (-1) 0 0 32 SUN1699_HWID,
       port_row (CHR ''s'') 4 0 8 (-1) 0 0 64 SUN1699_HWID,
       port_row (CHR ''s'') 5 0 8 (-1) 0 0 128 SUN1699_HWID],
    board_row VENID_GOLDEN DEVID_G_SERIAL SUBVENID_GOLDEN SUBDEVID_4066R
      8 0 0 28 ''4066'' BOARDFLAG_NONE PART_NUMBER_NONE CARD_TYPE_UART_ONLY GPIO_NONE
      [port_row (CHR ''s'') 0 0 8 (-1) 0 0 1 SUN1889_HWID,
       port_row (CHR ''s'') 0 8 8 (-1) 0 0 2 SUN1889_HWID,
       port_row (CHR ''s'') 1 0 8 (-1) 0 0 4 SUN1699_HWID,
       port_row (CHR ''s'') 1 8 8 (-1) 0 0 8 SUN1699_HWID,
       port_row (CHR ''s'') 2 0 8 (-1) 0 0 16 SUN1699_HWID,
       port_row (CHR ''s'') 3 0 8 (-1) 0 0 32 SUN1699_HWID,
       port_row (CHR ''s'') 4 0 8 (-1) 0 0 64 SUN1699_HWID,
       port_row (CHR ''s'') 5 0 8 (-1) 0 0 128 SUN1699_HWID],
    board_row VENID_GOLDEN DEVID_G_SERIAL SUBVENID_GOLDEN SUBDEVID_8139
      2 0 0 28 ''8139'' BOARDFLAG_NONE PART_NUMBER_NONE CARD_TYPE_UART_ONLY GPIO_NONE
      [port_row (CHR ''s'') 0 0 8 (-1) 0 0 1 SUN1889_HWID,
       port_row (CHR ''s'') 0 8 8 (-1) 0 0 2 SUN1889_HWID],
    board_row VENID_GOLDEN DEVID_G_SERIAL SUBVENID_GOLDEN SUBDEVID_8139S
      2 0 0 28 ''8139'' BOARDFLAG_NONE PART_NUMBER_NONE CARD_TYPE_UART_ONLY GPIO_NONE
      [port_row (CHR ''s'') 0 0 8 (-1) 0 0 1 SUN1889_HWID,
       port_row (CHR ''s'') 0 8 8 (-1) 0 0 2 SUN1889_HWID]]"

definition board_conf_golden_2 :: "PCI_BOARD list" where
  "board_conf_golden_2 = [
    board_row VENID_GOLDEN DEVID_G_SERIAL SUBVENID_GOLDEN SUBDEVID_8159
      4 0 0 28 ''8159'' BOARDFLAG_NONE PART_NUMBER_NONE CARD_TYPE_UART_ONLY GPIO_NONE
      [port_row (CHR ''s'') 0 0 8 (-1) 0 0 1 SUN1889_HWID,
       port_row (CHR ''s'') 0 8 8 (-1) 0 0 2 SUN1889_HWID,
       port_row (CHR ''s'') 1 0 8 (-1) 0 0 4 SUN1699_HWID,
       port_row (CHR ''s'') 1 8 8 (-1) 0 0 8 SUN1699_HWID],
    board_row VENID_GOLDEN DEVID_G_SERIAL SUBVENID_GOLDEN SUBDEVID_8159S
      4 0 0 28 ''8159'' BOARDFLAG_NONE PART_NUMBER_NONE CARD_TYPE_UART_ONLY GPIO_NONE
      [port_row (CHR ''s'') 0 0 8 (-1) 0 0 1 SUN1889_HWID,
       port_row (CHR ''s'') 0 8 8 (-1) 0 0 2 SUN1889_HWID,
       port_row (CHR ''s'') 1 0 8 (-1) 0 0 4 SUN1699_HWID,
       port_row (CHR ''s'') 1 8 8 (-1) 0 0 8 SUN1699_HWID],
    board_row VENID_GOLDEN DEVID_G_SERIAL SUBVENID_GOLDEN SUBDEVID_8169
      8 0 0 28 ''8169'' BOARDFLAG_NONE PART_NUMBER_NONE CARD_TYPE_UART_ONLY GPIO_NONE
      [port_row (CHR ''s'') 0 0 8 (-1) 0 0 1 SUN1889_HWID,
       port_row (CHR ''s'') 0 8 8 (-1) 0 0 2 SUN1889_HWID,
       port_row (CHR ''s'') 1 0 8 (-1) 0 0 4 SUN1699_HWID,
       port_row (CHR ''s'') 1 8 8 (-1) 0 0 8 SUN1699_HWID,
       port_row (CHR ''s'') 2 0 8 (-1) 0 0 16 SUN1699_HWID,
       port_row (CHR ''s'') 3 0 8 (-1) 0 0 32 SUN1699_HWID,
       port_row (CHR ''s'') 4 0 8 (-1) 0 0 64 SUN1699_HWID,
       port_row (CHR ''s'') 5 0 8 (-1) 0 0 128 SUN1699_HWID],
    board_row VENID_GOLDEN DEVID_G_SERIAL SUBVENID_GOLDEN SUBDEVID_8169S
      8 0 0 28 ''8169'' BOARDFLAG_NONE PART_NUMBER_NONE CARD_TYPE_UART_ONLY GPIO_NONE
      [port_row (CHR ''s'') 0 0 8 (-1) 0 0 1 SUN1889_HWID,
       port_row (CHR ''s'') 0 8 8 (-1) 0 0 2 SUN1889_HWID,
       port_row (CHR ''s'') 1 0 8 (-1) 0 0 4 SUN1699_HWID,
       port_row (CHR ''s'') 1 8 8 (-1) 0 0 8 SUN1699_HWID,
       port_row (CHR ''s'') 2 0 8 (-1) 0 0 16 SUN1699_HWID,
       port_row (CHR ''s'') 3 0 8 (-1) 0 0 32 SUN1699_HWID,
       port_row (CHR ''s'') 4 0 8 (-1) 0 0 64 SUN1699_HWID,
       port_row (CHR ''s'') 5 0 8 (-1) 0 0 128 SUN1699_HWID],
    board_row VENID_GOLDEN DEVID_G_SERIAL SUBVENID_GOLDEN SUBDEVID_4079A
      2 1 0 28 ''4079'' BOARDFLAG_NONE PART_NUMBER_NONE CARD_TYPE_UART_ONLY GPIO_NONE
      [port_row (CHR ''s'') 0 0 8 (-1) 0 0 1 SUN1889_HWID,
       port_row (CHR ''s'') 0 8 8 (-1) 0 0 2 SUN1889_HWID,
       port_row (CHR ''p'') 2 0 8 3 0 8 0 SUN1689_HWID],
    board_row VENID_GOLDEN DEVID_G_SERIAL SUBVENID_GOLDEN SUBDEVID_4089A
      2 2 0 28 ''4089'' BOARDFLAG_NONE PART_NUMBER_NONE CARD_TYPE_UART_ONLY GPIO_NONE
      [port_row (CHR ''s'') 0 0 8 (-1) 0 0 1 SUN1889_HWID,
       port_row (CHR ''s'') 0 8 8 (-1) 0 0 2 SUN1889_HWID,
       port_row (CHR ''p'') 2 0 8 3 0 8 0 SUN1689_HWID,
       port_row (CHR ''p'') 4 0 8 5 0 8 0 SUN1689_HWID],
    board_row VENID_GOLDEN DEVID_G_SERIAL SUBVENID_GOLDEN SUBDEVID_4096A
      4 2 0 28 ''4096'' BOARDFLAG_NONE PART_NUMBER_NONE CARD_TYPE_UART_ONLY GPIO_NONE
      [port_row (CHR ''s'') 0 0 8 (-1) 0 0 1 SUN1889_HWID,
       port_row (CHR ''s'') 0 8 8 (-1) 0 0 2 SUN1889_HWID,
       port_row (CHR ''s'') 1 0 8 (-1) 0 0 4 SUN1699_HWID,
       port_row (CHR ''s'') 1 8 8 (-1) 0 0 8 SUN1699_HWID,
       port_row (CHR ''p'') 2 0 8 3 0 8 0 SUN1689_HWID,
       port_row (CHR ''p'') 4 0 8 5 0 8 0 SUN1689_HWID]]"

definition board_conf_matrix_1 :: "PCI_BOARD list" where
  "board_conf_matrix_1 = [
    board_row VENID_MATRIX DEVID_M_SERIAL SUBVENID_MATRIX SUBDEVID_P1002
      2 0 1 0 ''1002'' BOARDFLAG_NONE PART_NUMBER_NONE CARD_TYPE_UART_ONLY GPIO_NONE
      [port_row (CHR ''s'') 0 0 8 (-1) 0 0 1 SUNMATX_HWID,
       port_row (CHR ''s'') 0 8 8 (-1) 0 0 2 SUNMATX_HWID],
    board_row VENID_MATRIX DEVID_M_SERIAL SUBVENID_MATRIX SUBDEVID_P1004
      4 0 1 0 ''1004'' BOARDFLAG_NONE PART_NUMBER_NONE CARD_TYPE_UART_ONLY GPIO_NONE
      [port_row (CHR ''s'') 0 0 8 (-1) 0 0 1 SUNMATX_HWID,
       port_row (CHR ''s'') 0 8 8 (-1) 0 0 2 SUNMATX_HWID,
       port_row (CHR ''s'') 0 16 8 (-1) 0 0 4 SUNMATX_HWID,
       port_row (CHR ''s'') 0 24 8 (-1) 0 0 8 SUNMATX_HWID],
    board_row VENID_MATRIX DEVID_M_SERIAL SUBVENID_MATRIX SUBDEVID_P1008
      8 0 1 0 ''1008'' BOARDFLAG_NONE PART_NUMBER_NONE CARD_TYPE_UART_ONLY GPIO_NONE
      [port_row (CHR ''s'') 0 0 8 (-1) 0 0 1 SUNMATX_HWID,
       port_row (CHR ''s'') 0 8 8 (-1) 0 0 2 SUNMATX_HWID,
       port_row (CHR ''s'') 0 16 8 (-1) 0 0 4 SUNMATX_HWID,
       port_row (CHR ''s'') 0 24 8 (-1) 0 0 8 SUNMATX_HWID,
       port_row (CHR ''s'') 0 32 8 (-1) 0 0 16 SUNMATX_HWID,
       port_row (CHR ''s'') 0 40 8 (-1) 0 0 32 SUNMATX_HWID,
       port_row (CHR ''s'') 0 48 8 (-1) 0 0 64 SUNMATX_HWID,
       port_row (CHR ''s'') 0 56 8 (-1) 0 0 128 SUNMATX_HWID],
    board_row VENID_MATRIX DEVID_M_SERIAL SUBVENID_MATRIX SUBDEVID_P1016
      16 0 1 0 ''1016'' (BOARDFLAG_NONE OR BOARDFLAG_16PORTS) PART_NUMBER_NONE CARD_TYPE_UART_ONLY GPIO_NONE
      [port_row (CHR ''s'') 0 0 8 (-1) 0 0 1 SUNMATX_HWID,
       port_row (CHR ''s'') 0 8 8 (-1) 0 0 2 SUNMATX_HWID,
       port_row (CHR ''s'') 0 16 8 (-1) 0 0 4 SUNMATX_HWID,
       port_row (CHR ''s'') 0 24 8 (-1) 0 0 8 SUNMATX_HWID,
       port_row (CHR ''s'') 0 32 8 (-1) 0 0 16 SUNMATX_HWID,
       port_row (CHR ''s'') 0 40 8 (-1) 0 0 32 SUNMATX_HWID,
       port_row (CHR ''s'') 0 48 8 (-1) 0 0 64 SUNMATX_HWID,
       port_row (CHR ''s'') 0 56 8 (-1) 0 0 128 SUNMATX_HWID,
       port_row (CHR ''s'') 0 64 8 (-1) 0 0 256 SUNMATX_HWID,
       port_row (CHR ''s'') 0 72 8 (-1) 0 0 512 SUNMATX_HWID,
       port_row (CHR ''s'') 0 80 8 (-1) 0 0 1024 SUNMATX_HWID,
       port_row (CHR ''s'') 0 88 8 (-1) 0 0 2048 SUNMATX_HWID,
       port_row (CHR ''s'') 0 96 8 (-1) 0 0 4096 SUNMATX_HWID,
       port_row (CHR ''s'') 0 104 8 (-1) 0 0 8192 SUNMATX_HWID,
       port_row (CHR ''s'') 0 112 8 (-1) 0 0 16384 SUNMATX_HWID,
       port_row (CHR ''s'') 0 120 8 (-1) 0 0 32768 SUNMATX_HWID],
    board_row VENID_MATRIX DEVID_M_SERIAL SUBVENID_MATRIX SUBDEVID_P2002
      2 0 1 0 ''2002'' BOARDFLAG_NONE PART_NUMBER_NONE CARD_TYPE_UART_ONLY GPIO_NONE
      [port_row (CHR ''s'') 0 0 8 (-1) 0 0 1 SUNMATX_HWID,
       port_row (CHR ''s'') 0 8 8 (-1) 0 0 2 SUNMATX_HWID],
    board_row VENID_MATRIX DEVID_M_SERIAL SUBVENID_MATRIX SUBDEVID_P2004
      4 0 1 0 ''2004'' BOARDFLAG_NONE PART_NUMBER_NONE CARD_TYPE_UART_ONLY GPIO_NONE
      [port_row (CHR ''s'') 0 0 8 (-1) 0 0 1 SUNMATX_HWID,
       port_row (CHR ''s'') 0 8 8 (-1) 0 0 2 SUNMATX_HWID,
       port_row (CHR ''s'') 0 16 8 (-1) 0 0 4 SUNMATX_HWID,
       port_row (CHR ''s'') 0 24 8 (-1) 0 0 8 SUNMATX_HWID],
    board_row VENID_MATRIX DEVID_M_SERIAL SUBVENID_MATRIX SUBDEVID_P2008
      8 0 1 0 ''2008'' BOARDFLAG_NONE PART_NUMBER_NONE CARD_TYPE_UART_ONLY GPIO_NONE
      [port_row (CHR ''s'') 0 0 8 (-1) 0 0 1 SUNMATX_HWID,
       port_row (CHR ''s'') 0 8 8 (-1) 0 0 2 SUNMATX_HWID,
       port_row (CHR ''s'') 0 16 8 (-1) 0 0 4 SUNMATX_HWID,
       port_row (CHR ''s'') 0 24 8 (-1) 0 0 8 SUNMATX_HWID,
       port_row (CHR ''s'') 0 32 8 (-1) 0 0 16 SUNMATX_HWID,
       port_row (CHR ''s'') 0 40 8 (-1) 0 0 32 SUNMATX_HWID,
       port_row (CHR ''s'') 0 48 8 (-1) 0 0 64 SUNMATX_HWID,
       port_row (CHR ''s'') 0 56 8 (-1) 0 0 128 SUNMATX_HWID],
    board_row VENID_MATRIX DEVID_M_SERIAL SUBVENID_MATRIX SUBDEVID_P3002
      2 0 1 0 ''3002'' BOARDFLAG_NONE PART_NUMBER_NONE CARD_TYPE_UART_ONLY GPIO_NONE
      [port_row (CHR ''s'') 0 0 8 (-1) 0 0 1 SUNMATX_HWID,
       port_row (CHR ''s'') 0 8 8 (-1) 0 0 2 SUNMATX_HWID],
    board_row VENID_MATRIX DEVID_M_SERIAL SUBVENID_MATRIX SUBDEVID_P3004
      4 0 1 0 ''3004'' BOARDFLAG_NONE PART_NUMBER_NONE CARD_TYPE_UART_ONLY GPIO_NONE
      [port_row (CHR ''s'') 0 0 8 (-1) 0 0 1 SUNMATX_HWID,
       port_row (CHR ''s'') 0 8 8 (-1) 0 0 2 SUNMATX_HWID,
       port_row (CHR ''s'') 0 16 8 (-1) 0 0 4 SUNMATX_HWID,
       port_row (CHR ''s'') 0 24 8 (-1) 0 0 8 SUNMATX_HWID],
    board_row VENID_MATRIX DEVID_M_SERIAL SUBVENID_MATRIX SUBDEVID_P3008
      8 0 1 0 ''3008'' BOARDFLAG_NONE PART_NUMBER_NONE CARD_TYPE_UART_ONLY GPIO_NONE
      [port_row (CHR ''s'') 0 0 8 (-1) 0 0 1 SUNMATX_HWID,
       port_row (CHR ''s'') 0 8 8 (-1) 0 0 2 SUNMATX_HWID,
       port_row (CHR ''s'') 0 16 8 (-1) 0 0 4 SUNMATX_HWID,
       port_row (CHR ''s'') 0 24 8 (-1) 0 0 8 SUNMATX_HWID,
       port_row (CHR ''s'') 0 32 8 (-1) 0 0 16 SUNMATX_HWID,
       port_row (CHR ''s'') 0 40 8 (-1) 0 0 32 SUNMATX_HWID,
       port_row (CHR ''s'') 0 48 8 (-1) 0 0 64 SUNMATX_HWID,
       port_row (CHR ''s'') 0 56 8 (-1) 0 0 128 SUNMATX_HWID]]"

definition board_conf_sun1999_1 :: "PCI_BOARD list" where
  "board_conf_sun1999_1 = [
    board_row VENID_SUN1999 DEVID_S_SERIAL SUBVENID_SUN1999 SUBDEVID_5027A
      1 0 3 0 ''5027'' BOARDFLAG_NONE 1 CARD_TYPE_UART_ONLY GPIO_NONE
      [port_row (CHR ''s'') 0 0 8 (-1) 0 0 1 SUN1999_HWID],
    board_row VENID_SUN1999 DEVID_S_SERIAL SUBVENID_SUN1999 SUBDEVID_5037A
      2 0 3 0 ''5037'' BOARDFLAG_NONE 2 CARD_TYPE_UART_ONLY GPIO_NONE
      [port_row (CHR ''s'') 0 0 8 (-1) 0 0 1 SUN1999_HWID,
       port_row (CHR ''s'') 0 8 8 (-1) 0 0 2 SUN1999_HWID],
    board_row VENID_SUN1999 DEVID_S_SERIAL SUBVENID_SUN1999 SUBDEVID_5056A
      4 0 3 0 ''5056'' BOARDFLAG_NONE 4 CARD_TYPE_UART_ONLY GPIO_NONE
      [port_row (CHR ''s'') 0 0 8 (-1) 0 0 1 SUN1999_HWID,
       port_row (CHR ''s'') 0 8 8 (-1) 0 0 2 SUN1999_HWID,
       port_row (CHR ''s'') 0 16 8 (-1) 0 0 4 SUN1999_HWID,
       port_row (CHR ''s'') 0 24 8 (-1) 0 0 8 SUN1999_HWID],
    board_row VENID_SUN1999 DEVID_S_SERIAL SUBVENID_SUN1999 SUBDEVID_5066A
      8 0 3 0 ''5066'' BOARDFLAG_NONE 8 CARD_TYPE_UART_ONLY GPIO_NONE
      [port_row (CHR ''s'') 0 0 8 (-1) 0 0 1 SUN1999_HWID,
       port_row (CHR ''s'') 0 8 8 (-1) 0 0 2 SUN1999_HWID,
       port_row (CHR ''s'') 0 16 8 (-1) 0 0 4 SUN1999_HWID,
       port_row (CHR ''s'') 0 24 8 (-1) 0 0 8 SUN1999_HWID,
       port_row (CHR ''s'') 1 0 8 (-1) 0 0 1 SUN1999_HWID,
       port_row (CHR ''s'') 1 8 8 (-1) 0 0 2 SUN1999_HWID,
       port_row (CHR ''s'') 1 16 8 (-1) 0 0 4 SUN1999_HWID,
       port_row (CHR ''s'') 1 24 8 (-1) 0 0 8 SUN1999_HWID],
    board_row VENID_SUN1999 DEVID_S_SERIAL SUBVENID_SUN1999 SUBDEVID_5016A
      16 0 3 0 ''5016'' (BOARDFLAG_NONE OR BOARDFLAG_16PORTS) 16 CARD_TYPE_UART_ONLY GPIO_NONE
      [port_row (CHR ''s'') 0 0 8 (-1) 0 0 1 SUN1999_HWID,
       port_row (CHR ''s'') 0 8 8 (-1) 0 0 2 SUN1999_HWID,
       port_row (CHR ''s'') 0 16 8 (-1) 0 0 4 SUN1999_HWID,
       port_row (CHR ''s'') 0 24 8 (-1) 0 0 8 SUN1999_HWID,
       port_row (CHR ''s'') 1 0 8 (-1) 0 0 1 SUN1999_HWID,
       port_row (CHR ''s'') 1 8 8 (-1) 0 0 2 SUN1999_HWID,
       port_row (CHR ''s'') 1 16 8 (-1) 0 0 4 SUN1999_HWID,
       port_row (CHR ''s'') 1 24 8 (-1) 0 0 8 SUN1999_HWID,
       port_row (CHR ''s'') 1 64 8 (-1) 0 0 16 SUN1999_HWID,
       port_row (CHR ''s'') 1 72 8 (-1) 0 0 32 SUN1999_HWID,
       port_row (CHR ''s'') 1 80 8 (-1) 0 0 64 SUN1999_HWID,
       port_row (CHR ''s'') 1 88 8 (-1) 0 0 128 SUN1999_HWID,
       port_row (CHR ''s'') 1 128 8 (-1) 0 0 256 SUN1999_HWID,
       port_row (CHR ''s'') 1 136 8 (-1) 0 0 512 SUN1999_HWID,
       port_row (CHR ''s'') 1 144 8 (-1) 0 0 1024 SUN1999_HWID,
       port_row (CHR ''s'') 1 152 8 (-1) 0 0 2048 SUN1999_HWID],
    board_row VENID_SUN1999 DEVID_S_SERIAL SUBVENID_SUN1999 SUBDEVID_5069A
      1 1 3 0 ''5069'' BOARDFLAG_NONE 1 0 GPIO_NONE
      [port_row (CHR ''s'') 0 0 8 (-1) 0 0 1 SUN1999_HWID,
       port_row (CHR ''p'') 1 0 8 2 0 0 0 SUN1999_HWID],
    board_row VENID_SUN1999 DEVID_S_SERIAL SUBVENID_SUN1999 SUBDEVID_5079A
      2 1 3 0 ''5079'' BOARDFLAG_NONE 2 0 GPIO_NONE
      [port_row (CHR ''s'') 0 0 8 (-1) 0 0 1 SUN1999_HWID,
       port_row (CHR ''s'') 0 8 8 (-1) 0 0 2 SUN1999_HWID,
       port_row (CHR ''p'') 1 0 8 2 0 0 0 SUN1999_HWID],
    board_row VENID_SUN1999 DEVID_S_SERIAL SUBVENID_SUN1999 SUBDEVID_5099A
      4 1 3 0 ''5099'' BOARDFLAG_NONE 4 0 GPIO_NONE
      [port_row (CHR ''s'') 0 0 8 (-1) 0 0 1 SUN1999_HWID,
       port_row (CHR ''s'') 0 8 8 (-1) 0 0 2 SUN1999_HWID,
       port_row (CHR ''s'') 0 16 8 (-1) 0 0 4 SUN1999_HWID,
       port_row (CHR ''s'') 0 24 8 (-1) 0 0 8 SUN1999_HWID,
       port_row (CHR ''p'') 1 0 8 2 0 0 0 SUN1999_HWID],
    board_row VENID_SUN1999 DEVID_S_PARALL SUBVENID_SUN1999 SUBDEVID_5008A
      0 1 0 0 ''5008'' BOARDFLAG_NONE 0 0 GPIO_NONE
      [port_row (CHR ''p'') 1 0 8 2 0 0 0 SUN1999_HWID],
    board_row VENID_SUN1999 DEVID_S_SERIAL SUBVENID_SUN1999 SUBDEVID_P2102
      2 0 3 0 ''P2102'' BOARDFLAG_NONE 66 CARD_TYPE_UART_ONLY GPIO_NONE
      [port_row (CHR ''s'') 0 0 8 (-1) 0 0 1 SUN1999_HWID,
       port_row (CHR ''s'') 0 8 8 (-1) 0 0 2 SUN1999_HWID],
    board_row VENID_SUN1999 DEVID_S_SERIAL SUBVENID_SUN1999 SUBDEVID_P2104
      4 0 3 0 ''P2104'' BOARDFLAG_NONE 68 CARD_TYPE_UART_ONLY GPIO_NONE
      [port_row (CHR ''s'') 0 0 8 (-1) 0 0 1 SUN1999_HWID,
       port_row (CHR ''s'') 0 8 8 (-1) 0 0 2 SUN1999_HWID,
       port_row (CHR ''s'') 0 16 8 (-1) 0 0 4 SUN1999_HWID,
       port_row (CHR ''s'') 0 24 8 (-1) 0 0 8 SUN1999_HWID]]"

definition board_conf_sun1999_2 :: "PCI_BOARD list" where
  "board_conf_sun1999_2 = [
    board_row VENID_SUN1999 DEVID_S_SERIAL SUBVENID_SUN1999 SUBDEVID_P2108
      8 0 3 0 ''P2108'' BOARDFLAG_NONE 72 CARD_TYPE_UART_ONLY GPIO_NONE
      [port_row (CHR ''s'') 0 0 8 (-1) 0 0 1 SUN1999_HWID,
       port_row (CHR ''s'') 0 8 8 (-1) 0 0 2 SUN1999_HWID,
       port_row (CHR ''s'') 0 16 8 (-1) 0 0 4 SUN1999_HWID,
       port_row (CHR ''s'') 0 24 8 (-1) 0 0 8 SUN1999_HWID,
       port_row (CHR ''s'') 1 0 8 (-1) 0 0 1 SUN1999_HWID,
       port_row (CHR ''s'') 1 8 8 (-1) 0 0 2 SUN1999_HWID,
       port_row (CHR ''s'') 1 16 8 (-1) 0 0 4 SUN1999_HWID,
       port_row (CHR ''s'') 1 24 8 (-1) 0 0 8 SUN1999_HWID],
    board_row VENID_SUN1999 DEVID_S_SERIAL SUBVENID_SUN1999 SUBDEVID_P2116
      16 0 3 0 ''P2116'' (BOARDFLAG_NONE OR BOARDFLAG_16PORTS) 80 CARD_TYPE_UART_ONLY GPIO_NONE
      [port_row (CHR ''s'') 0 0 8 (-1) 0 0 1 SUN1999_HWID,
       port_row (CHR ''s'') 0 8 8 (-1) 0 0 2 SUN1999_HWID,
       port_row (CHR ''s'') 0 16 8 (-1) 0 0 4 SUN1999_HWID,
       port_row (CHR ''s'') 0 24 8 (-1) 0 0 8 SUN1999_HWID,
       port_row (CHR ''s'') 1 0 8 (-1) 0 0 1 SUN1999_HWID,
       port_row (CHR ''s'') 1 8 8 (-1) 0 0 2 SUN1999_HWID,
       port_row (CHR ''s'') 1 16 8 (-1) 0 0 4 SUN1999_HWID,
       port_row (CHR ''s'') 1 24 8 (-1) 0 0 8 SUN1999_HWID,
       port_row (CHR ''s'') 1 64 8 (-1) 0 0 16 SUN1999_HWID,
       port_row (CHR ''s'') 1 72 8 (-1) 0 0 32 SUN1999_HWID,
       port_row (CHR ''s'') 1 80 8 (-1) 0 0 64 SUN1999_HWID,
       port_row (CHR ''s'') 1 88 8 (-1) 0 0 128 SUN1999_HWID,
       port_row (CHR ''s'') 1 128 8 (-1) 0 0 256 SUN1999_HWID,
       port_row (CHR ''s'') 1 136 8 (-1) 0 0 512 SUN1999_HWID,
       port_row (CHR ''s'') 1 144 8 (-1) 0 0 1024 SUN1999_HWID,
       port_row (CHR ''s'') 1 152 8 (-1) 0 0 2048 SUN1999_HWID],
    board_row VENID_SUN1999 DEVID_S_SERIAL SUBVENID_SUN1999 SUBDEVID_P3104
      4 0 3 0 ''P3104'' BOARDFLAG_NONE 132 0 GPIO_NONE
      [port_row (CHR ''s'') 0 0 8 (-1) 0 0 1 SUN1999_HWID,
       port_row (CHR ''s'') 0 8 8 (-1) 0 0 2 SUN1999_HWID,
       port_row (CHR ''s'') 0 16 8 (-1) 0 0 4 SUN1999_HWID,
       port_row (CHR ''s'') 0 24 8 (-1) 0 0 8 SUN1999_HWID],
    board_row VENID_SUN1999 DEVID_S_SERIAL SUBVENID_SUN1999 SUBDEVID_P3108
      8 0 3 0 ''P3108'' BOARDFLAG_NONE 136 0 GPIO_NONE
      [port_row (CHR ''s'') 0 0 8 (-1) 0 0 1 SUN1999_HWID,
       port_row (CHR ''s'') 0 8 8 (-1) 0 0 2 SUN1999_HWID,
       port_row (CHR ''s'') 0 16 8 (-1) 0 0 4 SUN1999_HWID,
       port_row (CHR ''s'') 0 24 8 (-1) 0 0 8 SUN1999_HWID,
       port_row (CHR ''s'') 1 0 8 (-1) 0 0 1 SUN1999_HWID,
       port_row (CHR ''s'') 1 8 8 (-1) 0 0 2 SUN1999_HWID,
       port_row (CHR ''s'') 1 16 8 (-1) 0 0 4 SUN1999_HWID,
       port_row (CHR ''s'') 1 24 8 (-1) 0 0 8 SUN1999_HWID],
    board_row VENID_SUN1999 DEVID_S_SERIAL SUBVENID_SUN1999 SUBDEVID_CASH_2S
      2 0 3 0 ''CDK1037'' BOARDFLAG_NONE 2 CARD_TYPE_UART_GINTR INTR_GPIO_6PORT
      [port_row (CHR ''s'') 0 0 8 (-1) 0 0 1 SUN1999_HWID,
       port_row (CHR ''s'') 0 8 8 (-1) 0 0 2 SUN1999_HWID],
    board_row VENID_SUN1999 DEVID_S_SERIAL SUBVENID_SUN1999 SUBDEVID_CASH_4S
      4 0 3 0 ''CDK1056'' BOARDFLAG_NONE 4 CARD_TYPE_UART_GINTR INTR_GPIO_6PORT
      [port_row (CHR ''s'') 0 0 8 (-1) 0 0 1 SUN1999_HWID,
       port_row (CHR ''s'') 0 8 8 (-1) 0 0 2 SUN1999_HWID,
       port_row (CHR ''s'') 0 16 8 (-1) 0 0 4 SUN1999_HWID,
       port_row (CHR ''s'') 0 24 8 (-1) 0 0 8 SUN1999_HWID],
    board_row VENID_SUN1999 DEVID_S_SERIAL SUBVENID_SUN1999 SUBDEVID_DIO0802
      2 0 3 0 ''DIO0802'' BOARDFLAG_NONE 2 CARD_TYPE_UART_GEXTR EXTR_GPIO_8PORT
      [port_row (CHR ''s'') 0 0 8 (-1) 0 0 1 SUN1999_HWID,
       port_row (CHR ''s'') 0 8 8 (-1) 0 0 2 SUN1999_HWID],
    board_row VENID_SUN1999 DEVID_S_SERIAL SUBVENID_SUN1999 SUBDEVID_DIO1604
      4 0 3 0 ''DIO1604'' BOARDFLAG_NONE 4 CARD_TYPE_UART_GEXTR EXTR_GPIO_16PORT
      [port_row (CHR ''s'') 0 0 8 (-1) 0 0 1 SUN1999_HWID,
       port_row (CHR ''s'') 0 8 8 (-1) 0 0 2 SUN1999_HWID,
       port_row (CHR ''s'') 0 16 8 (-1) 0 0 4 SUN1999_HWID,
       port_row (CHR ''s'') 0 24 8 (-1) 0 0 8 SUN1999_HWID],
    board_row VENID_SUN1999 DEVID_S_SERIAL SUBVENID_SUN1999 SUBDEVID_DIO3204
      4 0 3 0 ''DIO3204'' BOARDFLAG_NONE 4 CARD_TYPE_UART_GEXTR EXTR_GPIO_32PORT
      [port_row (CHR ''s'') 0 0 8 (-1) 0 0 1 SUN1999_HWID,
       port_row (CHR ''s'') 0 8 8 (-1) 0 0 2 SUN1999_HWID,
       port_row (CHR ''s'') 0 16 8 (-1) 0 0 4 SUN1999_HWID,
       port_row (CHR ''s'') 0 24 8 (-1) 0 0 8 SUN1999_HWID]]"

definition snx_pci_board_conf :: "PCI_BOARD list" where
  "snx_pci_board_conf = board_conf_golden_1 @ board_conf_golden_2 @ board_conf_matrix_1 @ board_conf_sun1999_1 @ board_conf_sun1999_2"

subsection \<open>\<^verbatim>\<open>sunix_pci_board_id\<close>\<close>

text \<open>
  The class and class mask columns are zero in every row and left out; the terminating
  zero row is not part of the list, as \<^verbatim>\<open>sunix_pci_board_id_cnt\<close> does not count it.
\<close>

record board_id =
  id_vendor :: u32
  id_device :: u32
  id_subvendor :: u32
  id_subdevice :: u32
  id_driver_data :: nat

definition id_row :: "u32 \<Rightarrow> u32 \<Rightarrow> u32 \<Rightarrow> u32 \<Rightarrow> nat \<Rightarrow> board_id" where
  "id_row v d sv sd n =
     \<lparr>id_vendor = v, id_device = d, id_subvendor = sv, id_subdevice = sd, id_driver_data = n\<rparr>"

definition sunix_pci_board_id :: "board_id list" where
  "sunix_pci_board_id = [
    id_row VENID_GOLDEN DEVID_G_SERIAL SUBVENID_GOLDEN SUBDEVID_TEST GOLDEN_BOARD_TEST,
    id_row VENID_GOLDEN DEVID_G_SERIAL SUBVENID_GOLDEN SUBDEVID_4027A GOLDEN_BOARD_4027A,
    id_row VENID_GOLDEN DEVID_G_SERIAL SUBVENID_GOLDEN SUBDEVID_4027D GOLDEN_BOARD_4027D,
    id_row VENID_GOLDEN DEVID_G_SERIAL SUBVENID_GOLDEN SUBDEVID_4037A GOLDEN_BOARD_4037A,
    id_row VENID_GOLDEN DEVID_G_SERIAL SUBVENID_GOLDEN SUBDEVID_4037D GOLDEN_BOARD_4037D,
    id_row VENID_GOLDEN DEVID_G_SERIAL SUBVENID_GOLDEN SUBDEVID_4036A3V GOLDEN_BOARD_4036A3V,
    id_row VENID_GOLDEN DEVID_G_SERIAL SUBVENID_GOLDEN SUBDEVID_4056A GOLDEN_BOARD_4056A,
    id_row VENID_GOLDEN DEVID_G_SERIAL SUBVENID_GOLDEN SUBDEVID_4056D GOLDEN_BOARD_4056D,
    id_row VENID_GOLDEN DEVID_G_SERIAL SUBVENID_GOLDEN SUBDEVID_4056DW GOLDEN_BOARD_4056DW,
    id_row VENID_GOLDEN DEVID_G_SERIAL SUBVENID_GOLDEN SUBDEVID_4066A GOLDEN_BOARD_4066A,
    id_row VENID_GOLDEN DEVID_G_SERIAL SUBVENID_GOLDEN SUBDEVID_4066R GOLDEN_BOARD_4066R,
    id_row VENID_GOLDEN DEVID_G_SERIAL SUBVENID_GOLDEN SUBDEVID_8139 GOLDEN_BOARD_8139,
    id_row VENID_GOLDEN DEVID_G_SERIAL SUBVENID_GOLDEN SUBDEVID_8139S GOLDEN_BOARD_8139S,
    id_row VENID_GOLDEN DEVID_G_SERIAL SUBVENID_GOLDEN SUBDEVID_8159 GOLDEN_BOARD_8159,
    id_row VENID_GOLDEN DEVID_G_SERIAL SUBVENID_GOLDEN SUBDEVID_8159S GOLDEN_BOARD_8159S,
    id_row VENID_GOLDEN DEVID_G_SERIAL SUBVENID_GOLDEN SUBDEVID_8169 GOLDEN_BOARD_8169,
    id_row VENID_GOLDEN DEVID_G_SERIAL SUBVENID_GOLDEN SUBDEVID_8169S GOLDEN_BOARD_8169S,
    id_row VENID_GOLDEN DEVID_G_SERIAL SUBVENID_GOLDEN SUBDEVID_4079A GOLDEN_BOARD_4079A,
    id_row VENID_GOLDEN DEVID_G_SERIAL SUBVENID_GOLDEN SUBDEVID_4089A GOLDEN_BOARD_4089A,
    id_row VENID_GOLDEN DEVID_G_SERIAL SUBVENID_GOLDEN SUBDEVID_4096A GOLDEN_BOARD_4096A,
    id_row VENID_MATRIX DEVID_M_SERIAL SUBVENID_MATRIX SUBDEVID_P1002 MATRIX_BOARD_P1002,
    id_row VENID_MATRIX DEVID_M_SERIAL SUBVENID_MATRIX SUBDEVID_P1004 MATRIX_BOARD_P1004,
    id_row VENID_MATRIX DEVID_M_SERIAL SUBVENID_MATRIX SUBDEVID_P1008 MATRIX_BOARD_P1008,
    id_row VENID_MATRIX DEVID_M_SERIAL SUBVENID_MATRIX SUBDEVID_P1016 MATRIX_BOARD_P1016,
    id_row VENID_MATRIX DEVID_M_SERIAL SUBVENID_MATRIX SUBDEVID_P2002 MATRIX_BOARD_P2002,
    id_row VENID_MATRIX DEVID_M_SERIAL SUBVENID_MATRIX SUBDEVID_P2004 MATRIX_BOARD_P2004,
    id_row VENID_MATRIX DEVID_M_SERIAL SUBVENID_MATRIX SUBDEVID_P2008 MATRIX_BOARD_P2008,
    id_row VENID_MATRIX DEVID_M_SERIAL SUBVENID_MATRIX SUBDEVID_P3002 MATRIX_BOARD_P3002,
    id_row VENID_MATRIX DEVID_M_SERIAL SUBVENID_MATRIX SUBDEVID_P3004 MATRIX_BOARD_P3004,
    id_row VENID_MATRIX DEVID_M_SERIAL SUBVENID_MATRIX SUBDEVID_P3008 MATRIX_BOARD_P3008,
    id_row VENID_SUN1999 DEVID_S_SERIAL SUBVENID_SUN1999 SUBDEVID_5027A SUN1999_BOARD_5027A,
    id_row VENID_SUN1999 DEVID_S_SERIAL SUBVENID_SUN1999 SUBDEVID_5037A SUN1999_BOARD_5037A,
    id_row VENID_SUN1999 DEVID_S_SERIAL SUBVENID_SUN1999 SUBDEVID_5056A SUN1999_BOARD_5056A,
    id_row VENID_SUN1999 DEVID_S_SERIAL SUBVENID_SUN1999 SUBDEVID_5066A SUN1999_BOARD_5066A,
    id_row VENID_SUN1999 DEVID_S_SERIAL SUBVENID_SUN1999 SUBDEVID_5016A SUN1999_BOARD_5016A,
    id_row VENID_SUN1999 DEVID_S_SERIAL SUBVENID_SUN1999 SUBDEVID_5069A SUN1999_BOARD_5069A,
    id_row VENID_SUN1999 DEVID_S_SERIAL SUBVENID_SUN1999 SUBDEVID_5079A SUN1999_BOARD_5079A,
    id_row VENID_SUN1999 DEVID_S_SERIAL SUBVENID_SUN1999 SUBDEVID_5099A SUN1999_BOARD_5099A,
    id_row VENID_SUN1999 DEVID_S_PARALL SUBVENID_SUN1999 SUBDEVID_5008A SUN1999_BOARD_5008A,
    id_row VENID_SUN1999 DEVID_S_SERIAL SUBVENID_SUN1999 SUBDEVID_P2102 SUN1999_BOARD_P2102,
    id_row VENID_SUN1999 DEVID_S_SERIAL SUBVENID_SUN1999 SUBDEVID_P2104 SUN1999_BOARD_P2104,
    id_row VENID_SUN1999 DEVID_S_SERIAL SUBVENID_SUN1999 SUBDEVID_P2108 SUN1999_BOARD_P2108,
    id_row VENID_SUN1999 DEVID_S_SERIAL SUBVENID_SUN1999 SUBDEVID_P2116 SUN1999_BOARD_P2116,
    id_row VENID_SUN1999 DEVID_S_SERIAL SUBVENID_SUN1999 SUBDEVID_P3104 SUN1999_BOARD_P3104,
    id_row VENID_SUN1999 DEVID_S_SERIAL SUBVENID_SUN1999 SUBDEVID_P3108 SUN1999_BOARD_P3108,
    id_row VENID_SUN1999 DEVID_S_SERIAL SUBVENID_SUN1999 SUBDEVID_CASH_2S SUN1999_BOARD_CASH_2S,
    id_row VENID_SUN1999 DEVID_S_SERIAL SUBVENID_SUN1999 SUBDEVID_CASH_4S SUN1999_BOARD_CASH_4S,
    id_row VENID_SUN1999 DEVID_S_SERIAL SUBVENID_SUN1999 SUBDEVID_DIO0802 SUN1999_BOARD_DIO0802,
    id_row VENID_SUN1999 DEVID_S_SERIAL SUBVENID_SUN1999 SUBDEVID_DIO1604 SUN1999_BOARD_DIO1604,
    id_row VENID_SUN1999 DEVID_S_SERIAL SUBVENID_SUN1999 SUBDEVID_DIO3204 SUN1999_BOARD_DIO3204]"

subsection \<open>The table, evaluated\<close>

lemmas board_conf_defs = snx_pci_board_conf_def board_conf_golden_1_def board_conf_golden_2_def
  board_conf_matrix_1_def board_conf_sun1999_1_def board_conf_sun1999_2_def

lemma length_snx_pci_board_conf: "length snx_pci_board_conf = 50"
  by (simp add: board_conf_defs)

lemma length_sunix_pci_board_id: "length sunix_pci_board_id = 50"
  by (simp add: sunix_pci_board_id_def)

text \<open>
  A port row is well formed when its first BAR is one of the six, its second BAR is one of
  them or the marker -1, and a parallel port has both.
\<close>

definition port_wf :: "PORT \<Rightarrow> bool" where
  "port_wf p \<longleftrightarrow> 0 \<le> p_bar1 p \<and> p_bar1 p < 6 \<and> -1 \<le> p_bar2 p \<and> p_bar2 p < 6
     \<and> (p_type p = CHR ''p'' \<longrightarrow> 0 \<le> p_bar2 p)"

definition board_wf :: "PCI_BOARD \<Rightarrow> bool" where
  "board_wf pb \<longleftrightarrow>
     length (pb_port pb) = unat (pb_num_serport pb) + unat (pb_num_parport pb)
   \<and> length (pb_port pb) \<le> SNX_PORT_ONBOARD_MAX
   \<and> unat (pb_num_parport pb) \<le> SNX_PAR_SUPPORT_MAX
   \<and> list_all port_wf (pb_port pb)
   \<and> list_all (\<lambda>p. p_type p = CHR ''s'') (take (unat (pb_num_serport pb)) (pb_port pb))
   \<and> list_all (\<lambda>p. p_type p = CHR ''p'') (drop (unat (pb_num_serport pb)) (pb_port pb))
   \<and> unat (pb_intr_vector_bar pb) < SNX_PCICFG_BAR_TOTAL"

lemma board_conf_wf: "list_all board_wf (tl snx_pci_board_conf)"
  by code_simp

definition row_matches :: "board_id \<times> PCI_BOARD \<Rightarrow> bool" where
  "row_matches r \<longleftrightarrow> (case r of (i, pb) \<Rightarrow> id_vendor i = pb_vendor_id pb \<and> id_device i = pb_device_id pb
     \<and> id_subvendor i = pb_sub_vendor_id pb \<and> id_subdevice i = pb_sub_device_id pb)"

lemma tables_agree: "list_all row_matches (zip sunix_pci_board_id snx_pci_board_conf)"
  by code_simp

lemma driver_data_is_index: "map id_driver_data sunix_pci_board_id = [0..<50]"
  by code_simp

subsection \<open>Property\<close>

text \<open>
  The two tables that describe the boards agree: row by row, the id table the PCI core
  matches on has the ids of the board configuration, its driver data is the row's own index, and
  every configuration but the empty first one is well formed: as many ports as it claims, serial
  ones first, at most 32 of them and at most two parallel, every bar index inside the six bars.
\<close>

theorem device_tables_consistent:
  "list_all row_matches (zip sunix_pci_board_id snx_pci_board_conf)
   \<and> map id_driver_data sunix_pci_board_id = [0..<length snx_pci_board_conf]
   \<and> list_all board_wf (tl snx_pci_board_conf)"
  using tables_agree driver_data_is_index board_conf_wf by (simp add: length_snx_pci_board_conf)

end
