(* ===== verification/Snx_Ports.thy ===== *)
theory Snx_Ports
  imports Snx_Kernel Snx_Devtable
begin

text \<open>
  The driver's own state: the structs of driver/snx_common.h as records, and the three
  global tables of driver/snx_main.c (boards, serial ports, parallel ports) in their
  initial, zeroed state. Field names carry the variable name the code uses for the
  struct (sb, sp, pp) because record fields share one name space. Locks, wait queues, list
  heads and timers have no value of their own here: an operation that runs under a
  spinlock is one step of the model. A pointer to a struct that only one parent owns is
  an \<open>option\<close> of that struct inside the parent; in particular \<^verbatim>\<open>port->info\<close> and
  \<^verbatim>\<open>state->info\<close>, which the code keeps equal, are the one field \<open>sp_info\<close>.
\<close>

section \<open>The structs of the driver\<close>

subsection \<open>PCI devices, as the kernel shows them\<close>

text \<open>
  What the code reads of a \<^verbatim>\<open>struct pci_dev\<close>: an identity (pointer equality), its place,
  the subdevice word of configuration space, its BARs, its irq and what
  \<^verbatim>\<open>pci_enable_device\<close> answers for it.
\<close>

record pci_dev =
  pd_ident :: nat
  pd_bus :: u32
  pd_slot :: u32
  pd_subdev :: u16
  pd_resource :: "u32 list"
  pd_irq :: u32
  pd_enable :: int

subsection \<open>Serial ports\<close>

record snx_ser_icount =
  ic_cts :: u32
  ic_dsr :: u32
  ic_rng :: u32
  ic_dcd :: u32
  ic_rx :: u32
  ic_tx :: u32
  ic_frame :: u32
  ic_overrun :: u32
  ic_parity :: u32
  ic_brk :: u32
  ic_buf_overrun :: u32

text \<open>
  The kernel's \<^verbatim>\<open>struct circ_buf\<close>; \<open>None\<close> is a NULL buffer. Of the tty, the fields the
  driver reads and writes.
\<close>

record circ_buf =
  cb_buf :: "u8 list option"
  cb_head :: int
  cb_tail :: int

record tty =
  tty_stopped :: bool
  tty_hw_stopped :: bool
  tty_c_cflag :: u32
  tty_c_iflag :: u32
  tty_start_char :: u8
  tty_stop_char :: u8
  tty_io_error :: bool
  tty_throttled :: bool

record snx_ser_info =
  si_tty :: "tty option"
  si_xmit :: circ_buf
  si_flags :: u32
  si_blocked_open :: int

record snx_ser_port =
  sp_iobase :: u32
  sp_irq :: u32
  sp_uartclk :: u32
  sp_fifosize :: u8
  sp_x_char :: u8
  sp_iotype :: u8
  sp_read_status_mask :: u32
  sp_ignore_status_mask :: u32
  sp_info :: "snx_ser_info option"
  sp_icount :: snx_ser_icount
  sp_flags :: u32
  sp_mctrl :: u32
  sp_timeout :: u32
  sp_snx_type :: u32
  sp_type :: u32
  sp_custom_divisor :: u32
  sp_line :: u32
  sp_board_enum :: int
  sp_bus_number :: u32
  sp_dev_number :: u32
  sp_pb_info :: PCI_BOARD
  sp_vector :: u32
  sp_vector_mask :: u32
  sp_chip_flag :: u8
  sp_port_flag :: u32
  sp_baud_base :: u32
  sp_rx_trigger :: int
  sp_ldisc_stop_rx :: u8
  sp_setserial_flag :: u32
  sp_AHDC_State :: int
  sp_RS422_State :: int
  sp_suspended :: u8

record sunix_ser_port = snx_ser_port +
  sp_capabilities :: u32
  sp_ier :: u8
  sp_lcr :: u8
  sp_mcr :: u8
  sp_mcr_mask :: u8
  sp_mcr_force :: u8
  sp_lsr_break_flag :: u8

text \<open>The per-line state of the tty driver; the port it points to is part of it.\<close>

record snx_ser_state =
  ss_close_delay :: u32
  ss_closing_wait :: u32
  ss_count :: int
  ss_port :: sunix_ser_port

subsection \<open>Parallel ports\<close>

record sunix_par_port =
  pp_ctr :: u8
  pp_ctr_writable :: u8
  pp_ecr :: int
  pp_base :: u64
  pp_base_hi :: u64
  pp_irq :: int
  pp_portnum :: int
  pp_snx_type :: u32
  pp_board_enum :: int
  pp_bus_number :: u32
  pp_dev_number :: u32
  pp_pb_info :: PCI_BOARD
  pp_chip_flag :: u8
  pp_port_flag :: u32

subsection \<open>Boards\<close>

text \<open>The two handler pointers are kept as "is not NULL": each has one possible target.\<close>

record sunix_board =
  sb_board_enum :: int
  sb_board_number :: int
  sb_bus_number :: u32
  sb_dev_number :: u32
  sb_ports :: u32
  sb_ser_port :: u32
  sb_par_port :: u32
  sb_ser_port_index :: u32
  sb_par_port_index :: u32
  sb_bar_addr :: "u32 list"
  sb_irq :: u32
  sb_board_flag :: u32
  sb_vector_mask :: u32
  sb_pb_info :: PCI_BOARD
  sb_pdev :: "pci_dev option"
  sb_ser_isr :: bool
  sb_par_isr :: bool
  sb_oem_id :: u32
  sb_uart_cnt :: int
  sb_gpio_chl_cnt :: int
  sb_board_uart_type :: u8
  sb_board_gpio_type :: u8
  sb_board_gpio_card_type :: u8

subsection \<open>Zeroed structs, as memset leaves them\<close>

definition zero_pci_board :: PCI_BOARD where
  "zero_pci_board = board_row 0 0 0 0 0 0 0 0 '''' 0 0 0 0 []"

definition zero_icount :: snx_ser_icount where
  "zero_icount = \<lparr>ic_cts = 0, ic_dsr = 0, ic_rng = 0, ic_dcd = 0, ic_rx = 0, ic_tx = 0,
     ic_frame = 0, ic_overrun = 0, ic_parity = 0, ic_brk = 0, ic_buf_overrun = 0\<rparr>"

definition zero_ser_port :: sunix_ser_port where
  "zero_ser_port = \<lparr>sp_iobase = 0, sp_irq = 0, sp_uartclk = 0, sp_fifosize = 0, sp_x_char = 0,
     sp_iotype = 0, sp_read_status_mask = 0, sp_ignore_status_mask = 0, sp_info = None,
     sp_icount = zero_icount, sp_flags = 0, sp_mctrl = 0, sp_timeout = 0, sp_snx_type = 0,
     sp_type = 0, sp_custom_divisor = 0, sp_line = 0, sp_board_enum = 0, sp_bus_number = 0,
     sp_dev_number = 0, sp_pb_info = zero_pci_board, sp_vector = 0, sp_vector_mask = 0,
     sp_chip_flag = 0, sp_port_flag = 0, sp_baud_base = 0, sp_rx_trigger = 0,
     sp_ldisc_stop_rx = 0, sp_setserial_flag = 0, sp_AHDC_State = 0, sp_RS422_State = 0,
     sp_suspended = 0, sp_capabilities = 0, sp_ier = 0, sp_lcr = 0, sp_mcr = 0,
     sp_mcr_mask = 0, sp_mcr_force = 0, sp_lsr_break_flag = 0\<rparr>"

definition zero_par_port :: sunix_par_port where
  "zero_par_port = \<lparr>pp_ctr = 0, pp_ctr_writable = 0, pp_ecr = 0, pp_base = 0, pp_base_hi = 0,
     pp_irq = 0, pp_portnum = 0, pp_snx_type = 0, pp_board_enum = 0, pp_bus_number = 0,
     pp_dev_number = 0, pp_pb_info = zero_pci_board, pp_chip_flag = 0, pp_port_flag = 0\<rparr>"

definition zero_board :: sunix_board where
  "zero_board = \<lparr>sb_board_enum = 0, sb_board_number = 0, sb_bus_number = 0, sb_dev_number = 0,
     sb_ports = 0, sb_ser_port = 0, sb_par_port = 0, sb_ser_port_index = 0,
     sb_par_port_index = 0, sb_bar_addr = replicate SNX_PCICFG_BAR_TOTAL 0, sb_irq = 0,
     sb_board_flag = 0, sb_vector_mask = 0, sb_pb_info = zero_pci_board, sb_pdev = None,
     sb_ser_isr = False, sb_par_isr = False, sb_oem_id = 0, sb_uart_cnt = 0,
     sb_gpio_chl_cnt = 0, sb_board_uart_type = 0, sb_board_gpio_type = 0,
     sb_board_gpio_card_type = 0\<rparr>"

end
