(* ===== verification/Snx_Boards.thy ===== *)
theory Snx_Boards
  imports Snx_Ports
begin

text \<open>
  \<open>sunix_pci_board_probe\<close> of driver/snx_main.c: the five searches that fill
  \<open>sunix_board_table\<close>. The PCI bus is a parameter: \<open>scan v d\<close> is the sequence of devices the
  calls \<^verbatim>\<open>pci_get_device(v, d, pdev)\<close> return, started from NULL until NULL; the code starts
  over from NULL for the next row of the id table, so every row sees that sequence.
  The lemmas give the invariant of the board table, which every search keeps.
\<close>

section \<open>Finding the boards\<close>

subsection \<open>The state of the probe\<close>

record probe =
  pr_boards :: "sunix_board list"
  pr_pdev_array :: "pci_dev option list"
  pr_boardcnt :: nat
  pr_mach :: machine

type_synonym pci_scan = "u32 \<Rightarrow> u32 \<Rightarrow> pci_dev list"

definition probe_init :: "machine \<Rightarrow> probe" where
  "probe_init m = \<lparr>
     pr_boards = replicate SNX_BOARDS_MAX (zero_board\<lparr>sb_board_enum := -1, sb_board_number := -1\<rparr>),
     pr_pdev_array = replicate 4 None, pr_boardcnt = 0, pr_mach = m\<rparr>"

text \<open>The pointer comparison with the four entries of \<^verbatim>\<open>pdev_array\<close>.\<close>

definition pdev_known :: "pci_dev \<Rightarrow> probe \<Rightarrow> bool" where
  "pdev_known d st \<longleftrightarrow>
     list_ex (\<lambda>e. map_option pd_ident e = Some (pd_ident d)) (pr_pdev_array st)"

text \<open>
  The code every search ends with: count the board, refuse a fifth, and fill its entry.
\<close>

definition add_board :: "nat \<Rightarrow> pci_dev \<Rightarrow> probe \<Rightarrow> int + probe" where
  "add_board tablecnt d st =
    (let cnt = Suc (pr_boardcnt st) in
     if cnt > SNX_BOARDS_MAX then Inl (- ENOSPC)
     else
      (let n = id_driver_data (sunix_pci_board_id ! tablecnt);
           pb = snx_pci_board_conf ! n;
           sb = (pr_boards st ! (cnt - 1))\<lparr>sb_pdev := Some d, sb_bus_number := pd_bus d,
                  sb_dev_number := pd_slot d, sb_board_enum := int n, sb_pb_info := pb,
                  sb_board_flag := pb_board_flag pb, sb_board_number := int cnt - 1\<rparr>
       in Inr (st\<lparr>pr_boards := (pr_boards st)[cnt - 1 := sb],
                  pr_pdev_array := (pr_pdev_array st)[cnt - 1 := Some d],
                  pr_boardcnt := cnt\<rparr>)))"

subsection \<open>The five searches, one device at a time\<close>

definition probe_golden_serial :: "nat \<Rightarrow> pci_dev \<Rightarrow> probe \<Rightarrow> int + probe" where
  "probe_golden_serial tablecnt d st =
    (if tablecnt > 0 \<and> pdev_known d st then Inr st
     else if pd_subdev d = 0 then Inl (- EIO)
     else if ucast (pd_subdev d) \<noteq> id_subdevice (sunix_pci_board_id ! tablecnt) then Inr st
     else if pd_enable d \<noteq> 0 then Inl (- ENXIO)
     else if pb_part_number (snx_pci_board_conf ! tablecnt) \<noteq> 0 then Inr st
     else add_board tablecnt d st)"

definition probe_golden_parallel :: "nat \<Rightarrow> pci_dev \<Rightarrow> probe \<Rightarrow> int + probe" where
  "probe_golden_parallel tablecnt d st =
    (if tablecnt > 0 \<and> pdev_known d st then Inr st
     else if pd_subdev d = 0 then Inl (- EIO)
     else if ucast (pd_subdev d) \<noteq> id_subdevice (sunix_pci_board_id ! tablecnt) then Inr st
     else if pd_enable d \<noteq> 0 then Inl (- ENXIO)
     else add_board tablecnt d st)"

definition probe_matrix :: "nat \<Rightarrow> pci_dev \<Rightarrow> probe \<Rightarrow> int + probe" where
  "probe_matrix tablecnt d st =
    (if tablecnt > 0 \<and> pdev_known d st then Inr st
     else if pd_subdev d = 0 then Inl (- EIO)
     else if ucast (pd_subdev d) \<noteq> id_subdevice (sunix_pci_board_id ! tablecnt) then Inr st
     else if pd_enable d \<noteq> 0 then Inl (- ENXIO)
     else add_board tablecnt d st)"

text \<open>
  A SUN1999 board also says, in three bytes of its BAR 3, its part number, its card type
  and how many GPIO channels it has; all three must match the row. The channel code is
  decoded first; a code without a rule stays as it is.
\<close>

definition gpio_channels :: "int \<Rightarrow> u8 \<Rightarrow> int" where
  "gpio_channels cnt gcard =
    (if cnt = 0 \<and> gcard = 1 then 6
     else if cnt = 0 \<and> gcard = 2 then 8
     else if cnt = 1 then 16
     else if cnt = 2 then 32
     else cnt)"

definition read_bar3 :: "pci_dev \<Rightarrow> machine \<Rightarrow> u8 \<times> u8 \<times> u8 \<times> machine" where
  "read_bar3 d m =
    (let bar3 = pd_resource d ! 3;
         (byte5, m1) = inb (ucast (bar3 + 5)) m;
         (byte6, m2) = inb (ucast (bar3 + 6)) m1;
         (byte7, m3) = inb (ucast (bar3 + 7)) m2
     in (byte5, byte6, byte7, m3))"

text \<open>The fields of the board's entry that only this search fills, from the three bytes.\<close>

definition sun1999_fields :: "u8 \<Rightarrow> u8 \<Rightarrow> u8 \<Rightarrow> sunix_board \<Rightarrow> sunix_board" where
  "sun1999_fields byte5 byte6 byte7 sb =
    (let gpio_card_type = drop_bit 3 (byte7 AND 0x18) in
     sb\<lparr>sb_oem_id := ucast byte5 OR push_bit 8 (ucast byte6) OR push_bit 16 (ucast byte7),
        sb_uart_cnt := sint (pb_num_serport (sb_pb_info sb)),
        sb_gpio_chl_cnt := gpio_channels (uint (drop_bit 5 (byte7 AND 0x60))) gpio_card_type,
        sb_board_uart_type := drop_bit 6 (byte5 AND 0xc0),
        sb_board_gpio_card_type := gpio_card_type,
        sb_board_gpio_type := drop_bit 7 (byte7 AND 0x80)\<rparr>)"

definition probe_sun1999 :: "nat \<Rightarrow> pci_dev \<Rightarrow> probe \<Rightarrow> int + probe" where
  "probe_sun1999 tablecnt d st =
    (if tablecnt > 0 \<and> pdev_known d st then Inr st
     else if pd_subdev d = 0 then Inl (- EIO)
     else if ucast (pd_subdev d) \<noteq> id_subdevice (sunix_pci_board_id ! tablecnt) then Inr st
     else if pd_enable d \<noteq> 0 then Inl (- ENXIO)
     else
      (case read_bar3 d (pr_mach st) of (byte5, byte6, byte7, m) \<Rightarrow>
        (let st1 = st\<lparr>pr_mach := m\<rparr>; row = snx_pci_board_conf ! tablecnt;
             gpio_card_type = drop_bit 3 (byte7 AND 0x18)
         in
          if ucast byte5 \<noteq> pb_part_number row then Inr st1
          else if ucast gpio_card_type \<noteq> pb_card_type row then Inr st1
          else if gpio_channels (uint (drop_bit 5 (byte7 AND 0x60))) gpio_card_type \<noteq> pb_gpio_ch_cnt row
          then Inr st1
          else
           (case add_board tablecnt d st1 of
              Inl e \<Rightarrow> Inl e
            | Inr st2 \<Rightarrow>
               (let k = pr_boardcnt st2 - 1
                in Inr (st2\<lparr>pr_boards := (pr_boards st2)[k :=
                     sun1999_fields byte5 byte6 byte7 (pr_boards st2 ! k)]\<rparr>))))))"

definition probe_sun1999_parallel :: "nat \<Rightarrow> pci_dev \<Rightarrow> probe \<Rightarrow> int + probe" where
  "probe_sun1999_parallel tablecnt d st =
    (if tablecnt > 0 \<and> pdev_known d st then Inr st
     else if pd_subdev d = 0 then Inl (- EIO)
     else if ucast (pd_subdev d) \<noteq> id_subdevice (sunix_pci_board_id ! tablecnt) then Inr st
     else if pd_enable d \<noteq> 0 then Inl (- ENXIO)
     else add_board tablecnt d st)"

subsection \<open>The search loops and the whole probe\<close>

definition search :: "(nat \<Rightarrow> pci_dev \<Rightarrow> probe \<Rightarrow> int + probe) \<Rightarrow> pci_dev list \<Rightarrow> probe \<Rightarrow> int + probe" where
  "search body devs st =
     fold_err (\<lambda>tablecnt. fold_err (body tablecnt) devs) [0..<length sunix_pci_board_id] st"

definition sunix_pci_board_probe :: "pci_scan \<Rightarrow> machine \<Rightarrow> int + probe" where
  "sunix_pci_board_probe scan m =
    (case search probe_golden_serial (scan VENID_GOLDEN DEVID_G_SERIAL) (probe_init m) of
       Inl e \<Rightarrow> Inl e
     | Inr s1 \<Rightarrow>
    (case search probe_golden_parallel (scan VENID_GOLDEN DEVID_G_PARALL) s1 of
       Inl e \<Rightarrow> Inl e
     | Inr s2 \<Rightarrow>
    (case search probe_matrix (scan VENID_MATRIX DEVID_M_SERIAL) s2 of
       Inl e \<Rightarrow> Inl e
     | Inr s3 \<Rightarrow>
    (case search probe_sun1999 (scan VENID_SUN1999 DEVID_S_SERIAL) s3 of
       Inl e \<Rightarrow> Inl e
     | Inr s4 \<Rightarrow>
    (case search probe_sun1999_parallel (scan VENID_SUN1999 DEVID_S_PARALL) s4 of
       Inl e \<Rightarrow> Inl e
     | Inr s5 \<Rightarrow> if pr_boardcnt s5 = 0 then Inl (- ENXIO) else Inr s5)))))"

subsection \<open>The invariant of the board table\<close>

text \<open>
  The first \<open>pr_boardcnt\<close> entries describe devices that were scanned, each under a row of
  the id table with the device's subdevice id, and no device occurs twice; the other
  entries are still marked unused.
\<close>

definition entry_ok :: "pci_dev set \<Rightarrow> nat \<Rightarrow> pci_dev option \<Rightarrow> sunix_board \<Rightarrow> bool" where
  "entry_ok D i e sb \<longleftrightarrow> (\<exists>d\<in>D. e = Some d \<and> sb_pdev sb = Some d \<and> sb_board_number sb = int i
     \<and> sb_bus_number sb = pd_bus d \<and> sb_dev_number sb = pd_slot d
     \<and> (\<exists>n<50. sb_board_enum sb = int n \<and> sb_pb_info sb = snx_pci_board_conf ! n
           \<and> sb_board_flag sb = pb_board_flag (snx_pci_board_conf ! n)
           \<and> ucast (pd_subdev d) = id_subdevice (sunix_pci_board_id ! n)))"

definition board_table_ok :: "pci_dev set \<Rightarrow> probe \<Rightarrow> bool" where
  "board_table_ok D st \<longleftrightarrow>
     length (pr_boards st) = 4 \<and> length (pr_pdev_array st) = 4 \<and> pr_boardcnt st \<le> 4
   \<and> (\<forall>i<pr_boardcnt st. entry_ok D i (pr_pdev_array st ! i) (pr_boards st ! i))
   \<and> (\<forall>i<4. pr_boardcnt st \<le> i \<longrightarrow> pr_pdev_array st ! i = None \<and> sb_board_enum (pr_boards st ! i) = -1)
   \<and> distinct (map (map_option pd_ident) (take (pr_boardcnt st) (pr_pdev_array st)))"

lemma board_table_ok_init: "board_table_ok D (probe_init m)"
  by (simp add: board_table_ok_def probe_init_def)

lemma driver_data_nth: "t < 50 \<Longrightarrow> id_driver_data (sunix_pci_board_id ! t) = t"
  using driver_data_is_index length_sunix_pci_board_id
  by (metis add_0 nth_map nth_upt)

lemma pdev_known_iff:
  "pdev_known d st \<longleftrightarrow> Some (pd_ident d) \<in> set (map (map_option pd_ident) (pr_pdev_array st))"
  by (auto simp: pdev_known_def list_ex_iff image_iff eq_commute)

lemma board_table_ok_mach [simp]:
  "board_table_ok D (st\<lparr>pr_mach := m\<rparr>) = board_table_ok D st"
  "pdev_known d (st\<lparr>pr_mach := m\<rparr>) = pdev_known d st"
  by (simp_all add: board_table_ok_def pdev_known_def)

text \<open>Writing more fields of an entry that the invariant does not speak of.\<close>

lemma board_table_ok_update:
  assumes "board_table_ok D st" and "k < pr_boardcnt st"
    and "\<And>e. entry_ok D k e sb = entry_ok D k e (pr_boards st ! k)"
  shows "board_table_ok D (st\<lparr>pr_boards := (pr_boards st)[k := sb]\<rparr>)"
  using assms by (auto simp: board_table_ok_def nth_list_update)

text \<open>The entry \<open>add_board\<close> writes, by itself.\<close>

definition new_entry :: "nat \<Rightarrow> pci_dev \<Rightarrow> nat \<Rightarrow> sunix_board \<Rightarrow> sunix_board" where
  "new_entry t d k sb = sb\<lparr>sb_pdev := Some d, sb_bus_number := pd_bus d,
     sb_dev_number := pd_slot d, sb_board_enum := int t, sb_pb_info := snx_pci_board_conf ! t,
     sb_board_flag := pb_board_flag (snx_pci_board_conf ! t), sb_board_number := int k\<rparr>"

lemma new_entry_ok:
  assumes "d \<in> D" and "t < 50" and "ucast (pd_subdev d) = id_subdevice (sunix_pci_board_id ! t)"
  shows "entry_ok D k (Some d) (new_entry t d k sb)"
  unfolding entry_ok_def
  by (rule bexI [of _ d]) (use assms in \<open>auto simp: new_entry_def\<close>)

lemma add_board_ok:
  assumes ok: "board_table_ok D st" and d: "d \<in> D" and t: "t < 50"
    and new: "\<not> pdev_known d st"
    and sub: "ucast (pd_subdev d) = id_subdevice (sunix_pci_board_id ! t)"
    and add: "add_board t d st = Inr st'"
  shows "board_table_ok D st' \<and> pr_boardcnt st' = Suc (pr_boardcnt st)"
proof -
  let ?n = "pr_boardcnt st"
  from add have n: "?n < 4" by (auto simp: add_board_def Let_def split: if_splits)
  from ok n have len: "length (pr_boards st) = 4" "length (pr_pdev_array st) = 4"
    by (auto simp: board_table_ok_def)
  have st': "pr_pdev_array st' = (pr_pdev_array st)[?n := Some d]" "pr_boardcnt st' = Suc ?n"
    using add by (auto simp: add_board_def Let_def split: if_splits)
  have "pr_boards st' = (pr_boards st)[?n := new_entry t d ?n (pr_boards st ! ?n)]"
    using add t by (auto simp: add_board_def new_entry_def Let_def driver_data_nth split: if_splits)
  with new_entry_ok [OF d t sub]
  have bs: "\<exists>sb. pr_boards st' = (pr_boards st)[?n := sb] \<and> entry_ok D ?n (Some d) sb"
    by blast
  have "take (Suc ?n) (pr_pdev_array st') = take ?n (pr_pdev_array st) @ [Some d]"
    using n len by (simp add: st' take_Suc_conv_app_nth)
  moreover have "Some (pd_ident d) \<notin> set (map (map_option pd_ident) (take ?n (pr_pdev_array st)))"
    using new unfolding pdev_known_iff by (auto dest: in_set_takeD)
  ultimately have "distinct (map (map_option pd_ident) (take (Suc ?n) (pr_pdev_array st')))"
    using ok by (simp add: board_table_ok_def)
  then show ?thesis
    using ok n len bs st' by (auto simp: board_table_ok_def nth_list_update less_Suc_eq)
qed

text \<open>Row 0 is the placeholder with subdevice 0x9999, so a real device matches a later row.\<close>

lemma subdev_row0: "id_subdevice (sunix_pci_board_id ! 0) = 0x9999"
  by (simp add: sunix_pci_board_id_def id_row_def)

definition keeps_table :: "(nat \<Rightarrow> pci_dev \<Rightarrow> probe \<Rightarrow> int + probe) \<Rightarrow> bool" where
  "keeps_table body \<longleftrightarrow> (\<forall>D t d st st'. board_table_ok D st \<longrightarrow> d \<in> D \<longrightarrow> t < 50
     \<longrightarrow> pd_subdev d \<noteq> 0x9999 \<longrightarrow> body t d st = Inr st' \<longrightarrow> board_table_ok D st')"

lemma not_known_if_matches:
  assumes "ucast (pd_subdev d) = id_subdevice (sunix_pci_board_id ! t)" and "pd_subdev d \<noteq> 0x9999"
    and "\<not> (t > 0 \<and> pdev_known d st)"
  shows "\<not> pdev_known d st"
proof -
  have "t \<noteq> 0"
  proof
    assume "t = 0"
    with assms(1) have "ucast (pd_subdev d) = (0x9999 :: u32)" by (simp only: subdev_row0)
    then have "ucast (ucast (pd_subdev d) :: u32) = (ucast (0x9999 :: u32) :: u16)" by (rule arg_cong)
    then show False using assms(2) by simp
  qed
  then show ?thesis using assms(3) by simp
qed

lemma add_board_keeps:
  assumes "add_board t d st = Inr st'" and "board_table_ok D st" and "d \<in> D" and "t < 50"
    and "pd_subdev d \<noteq> 0x9999" and "ucast (pd_subdev d) = id_subdevice (sunix_pci_board_id ! t)"
    and "t > 0 \<Longrightarrow> \<not> pdev_known d st"
  shows "board_table_ok D st'" and "pr_boardcnt st' = Suc (pr_boardcnt st)"
  using add_board_ok [OF assms(2-4) _ assms(6,1)] not_known_if_matches [OF assms(6,5)] assms(7)
  by blast+

lemma keeps_table_golden_serial: "keeps_table probe_golden_serial"
  unfolding keeps_table_def probe_golden_serial_def
  by (auto split: if_splits elim!: add_board_keeps(1))

lemma keeps_table_golden_parallel: "keeps_table probe_golden_parallel"
  unfolding keeps_table_def probe_golden_parallel_def
  by (auto split: if_splits elim!: add_board_keeps(1))

lemma keeps_table_matrix: "keeps_table probe_matrix"
  unfolding keeps_table_def probe_matrix_def
  by (auto split: if_splits elim!: add_board_keeps(1))

lemma keeps_table_sun1999_parallel: "keeps_table probe_sun1999_parallel"
  unfolding keeps_table_def probe_sun1999_parallel_def
  by (auto split: if_splits elim!: add_board_keeps(1))

lemma keeps_table_sun1999: "keeps_table probe_sun1999"
  unfolding keeps_table_def
proof (intro allI impI)
  fix D t d st st'
  assume ok: "board_table_ok D st" and d: "d \<in> D" and t: "t < 50"
    and sub: "pd_subdev d \<noteq> 0x9999" and step: "probe_sun1999 t d st = Inr st'"
  show "board_table_ok D st'"
  proof (cases "t > 0 \<and> pdev_known d st")
    case True
    with step ok show ?thesis by (simp add: probe_sun1999_def)
  next
    case False
    from step consider (same) m where "st' = st" | (mach) m where "st' = st\<lparr>pr_mach := m\<rparr>"
      | (add) m st2 ext where "ucast (pd_subdev d) = id_subdevice (sunix_pci_board_id ! t)"
        "add_board t d (st\<lparr>pr_mach := m\<rparr>) = Inr st2"
        "st' = st2\<lparr>pr_boards := (pr_boards st2)[pr_boardcnt st2 - 1 := ext]\<rparr>"
        "\<forall>e i. entry_ok D i e ext = entry_ok D i e (pr_boards st2 ! (pr_boardcnt st2 - 1))"
      by (fastforce simp: probe_sun1999_def Let_def entry_ok_def sun1999_fields_def split: if_splits prod.splits sum.splits)
    then show ?thesis
    proof cases
      case add
      from False add_board_keeps [OF add(2) _ d t sub add(1)] ok
      have "board_table_ok D st2" "pr_boardcnt st2 = Suc (pr_boardcnt st)" by auto
      then show ?thesis using add(3,4) by (auto intro!: board_table_ok_update)
    qed (use ok in simp_all)
  qed
qed

lemma search_keeps:
  assumes "keeps_table body" and "search body devs st = Inr st'" and "board_table_ok D st"
    and "set devs \<subseteq> D" and "\<forall>d\<in>D. pd_subdev d \<noteq> 0x9999"
  shows "board_table_ok D st'"
  using assms(2,3) unfolding search_def length_sunix_pci_board_id
proof (rule fold_err_inv)
  fix t s s'
  assume t: "t \<in> set [0..<50]" and "board_table_ok D s" "fold_err (body t) devs s = Inr s'"
  then show "board_table_ok D s'"
    by (elim fold_err_inv) (use assms(1,4,5) t in \<open>auto simp: keeps_table_def\<close>)
qed

lemma probe_keeps_table:
  assumes "sunix_pci_board_probe scan m = Inr st"
    and "\<And>v w. set (scan v w) \<subseteq> D" and "\<forall>d\<in>D. pd_subdev d \<noteq> 0x9999"
  shows "board_table_ok D st \<and> 0 < pr_boardcnt st"
proof -
  note keep = search_keeps [OF _ _ _ assms(2,3)]
  from assms(1) obtain s1 s2 s3 s4 where s:
    "search probe_golden_serial (scan VENID_GOLDEN DEVID_G_SERIAL) (probe_init m) = Inr s1"
    "search probe_golden_parallel (scan VENID_GOLDEN DEVID_G_PARALL) s1 = Inr s2"
    "search probe_matrix (scan VENID_MATRIX DEVID_M_SERIAL) s2 = Inr s3"
    "search probe_sun1999 (scan VENID_SUN1999 DEVID_S_SERIAL) s3 = Inr s4"
    "search probe_sun1999_parallel (scan VENID_SUN1999 DEVID_S_PARALL) s4 = Inr st"
    and pos: "pr_boardcnt st \<noteq> 0"
    by (auto simp: sunix_pci_board_probe_def split: sum.splits if_splits)
  from keep [OF keeps_table_golden_serial s(1) board_table_ok_init]
  have "board_table_ok D s1" .
  from keep [OF keeps_table_golden_parallel s(2) this] have "board_table_ok D s2" .
  from keep [OF keeps_table_matrix s(3) this] have "board_table_ok D s3" .
  from keep [OF keeps_table_sun1999 s(4) this] have "board_table_ok D s4" .
  from keep [OF keeps_table_sun1999_parallel s(5) this] pos show ?thesis by simp
qed

subsection \<open>A board on its own is found under its own row\<close>

text \<open>
  Two states of the probe that differ in the machine only, which keeps \<open>Q\<close>. A search in
  which every row before \<open>n\<close> passes the device over, row \<open>n\<close> takes it and the later rows
  know it.
\<close>

lemma fold_skip:
  assumes "\<And>t m. t \<in> set ts \<Longrightarrow> Q m \<Longrightarrow> \<exists>m'. Q m' \<and> f t (st\<lparr>pr_mach := m\<rparr>) = Inr (st\<lparr>pr_mach := m'\<rparr>)"
    and "Q m"
  shows "\<exists>m'. Q m' \<and> fold_err f ts (st\<lparr>pr_mach := m\<rparr>) = Inr (st\<lparr>pr_mach := m'\<rparr>)"
  using assms
proof (induction ts arbitrary: m)
  case Nil
  then show ?case by auto
next
  case (Cons t ts)
  from Cons.prems(1) [of t m] Cons.prems(2)
  obtain m1 where "Q m1" "f t (st\<lparr>pr_mach := m\<rparr>) = Inr (st\<lparr>pr_mach := m1\<rparr>)" by auto
  moreover from Cons.IH [of m1] Cons.prems \<open>Q m1\<close>
  obtain m2 where "Q m2" "fold_err f ts (st\<lparr>pr_mach := m1\<rparr>) = Inr (st\<lparr>pr_mach := m2\<rparr>)" by auto
  ultimately show ?case by auto
qed

lemma search_one:
  assumes n: "n < 50" and Q: "Q (pr_mach st)"
    and before: "\<And>t m. t < n \<Longrightarrow> Q m \<Longrightarrow> \<exists>m'. Q m' \<and> body t d (st\<lparr>pr_mach := m\<rparr>) = Inr (st\<lparr>pr_mach := m'\<rparr>)"
    and hit: "\<And>m. Q m \<Longrightarrow> \<exists>m'. Q m' \<and> body n d (st\<lparr>pr_mach := m\<rparr>) = Inr (st1\<lparr>pr_mach := m'\<rparr>)"
    and after: "\<And>t m. n < t \<Longrightarrow> body t d (st1\<lparr>pr_mach := m\<rparr>) = Inr (st1\<lparr>pr_mach := m\<rparr>)"
  shows "\<exists>m'. search body [d] st = Inr (st1\<lparr>pr_mach := m'\<rparr>)"
proof -
  let ?f = "\<lambda>t. fold_err (body t) [d]"
  have one: "?f t s = body t d s" for t s by (simp split: sum.split)
  have split: "[0..<50] = [0..<n] @ n # [Suc n..<50]"
    using n by (metis (no_types, lifting) less_imp_le_nat upt_add_eq_append upt_conv_Cons
        le_add_diff_inverse zero_le)
  from fold_skip [where f = ?f and ts = "[0..<n]" and st = st and m = "pr_mach st" and Q = Q] before Q
  obtain m1 where m1: "Q m1" "fold_err ?f [0..<n] st = Inr (st\<lparr>pr_mach := m1\<rparr>)"
    by (auto simp: one simp del: fold_err.simps)
  from hit [OF m1(1)] obtain m2 where m2: "Q m2" "body n d (st\<lparr>pr_mach := m1\<rparr>) = Inr (st1\<lparr>pr_mach := m2\<rparr>)"
    by blast
  from fold_skip [where f = ?f and ts = "[Suc n..<50]" and st = st1 and m = m2 and Q = Q] after m2(1)
  obtain m3 where m3: "fold_err ?f [Suc n..<50] (st1\<lparr>pr_mach := m2\<rparr>) = Inr (st1\<lparr>pr_mach := m3\<rparr>)"
    by (auto simp: one simp del: fold_err.simps)
  have "search body [d] st = Inr (st1\<lparr>pr_mach := m3\<rparr>)"
    unfolding search_def length_sunix_pci_board_id split fold_err_append m1(2)
    using m2 m3 by simp
  then show ?thesis by blast
qed

lemma search_empty [simp]: "search body [] st = Inr st"
proof -
  have "fold_err (\<lambda>t. fold_err (body t) []) ts st = Inr st" for ts
    by (induction ts) simp_all
  then show ?thesis by (simp add: search_def)
qed

text \<open>The state after \<open>d\<close> was taken under row \<open>n\<close>, from an empty board table.\<close>

definition one_board :: "nat \<Rightarrow> pci_dev \<Rightarrow> probe \<Rightarrow> bool" where
  "one_board n d st \<longleftrightarrow> pr_boardcnt st = 1 \<and> sb_board_enum (pr_boards st ! 0) = int n
     \<and> sb_pb_info (pr_boards st ! 0) = snx_pci_board_conf ! n \<and> sb_pdev (pr_boards st ! 0) = Some d
     \<and> pdev_known d st"

definition with_board :: "nat \<Rightarrow> pci_dev \<Rightarrow> machine \<Rightarrow> probe" where
  "with_board n d m = (let st = probe_init m in
     st\<lparr>pr_boards := (pr_boards st)[0 := new_entry n d 0 (pr_boards st ! 0)],
        pr_pdev_array := (pr_pdev_array st)[0 := Some d], pr_boardcnt := 1\<rparr>)"

lemma probe_init_mach [simp]: "(probe_init m0)\<lparr>pr_mach := m\<rparr> = probe_init m"
  by (simp add: probe_init_def)

lemma with_board_mach [simp]: "(with_board n d m0)\<lparr>pr_mach := m\<rparr> = with_board n d m"
  by (simp add: with_board_def Let_def probe_init_def)

lemma not_known_init [simp]: "\<not> pdev_known d (probe_init m)"
  by (simp add: pdev_known_def probe_init_def list_ex_iff)

lemma add_board_init: "n < 50 \<Longrightarrow> add_board n d (probe_init m) = Inr (with_board n d m)"
  by (simp add: add_board_def probe_init_def Let_def driver_data_nth with_board_def new_entry_def)

lemma with_board_one: "one_board n d (with_board n d m)"
  by (simp add: one_board_def with_board_def Let_def new_entry_def pdev_known_def probe_init_def
      eval_nat_numeral)

lemma one_board_mach [simp]: "one_board n d (st\<lparr>pr_mach := m\<rparr>) = one_board n d st"
  by (simp add: one_board_def)

text \<open>The rows before row \<open>n\<close> carry other subdevice ids, where \<open>n\<close> is a GOLDEN or a MATRIX row.\<close>

definition first_of_subdev :: "nat \<Rightarrow> bool" where
  "first_of_subdev n \<longleftrightarrow>
     list_all (\<lambda>t. id_subdevice (sunix_pci_board_id ! t) \<noteq> id_subdevice (sunix_pci_board_id ! n)) [0..<n]"

lemma golden_matrix_rows: "list_all first_of_subdev [0..<30]"
  by code_simp

lemma golden_matrix_part: "list_all (\<lambda>n. pb_part_number (snx_pci_board_conf ! n) = 0) [0..<30]"
  by code_simp

lemma first_of_subdevD:
  "first_of_subdev n \<Longrightarrow> t < n \<Longrightarrow>
     id_subdevice (sunix_pci_board_id ! t) \<noteq> id_subdevice (sunix_pci_board_id ! n)"
  by (simp add: first_of_subdev_def list_all_iff)

definition lone_scan :: "nat \<Rightarrow> pci_dev \<Rightarrow> pci_scan" where
  "lone_scan n d = (\<lambda>v w. if v = id_vendor (sunix_pci_board_id ! n)
                          \<and> w = id_device (sunix_pci_board_id ! n) then [d] else [])"

text \<open>The vendor and device ids of the three families, row by row.\<close>

lemma family_golden: "list_all (\<lambda>n. id_vendor (sunix_pci_board_id ! n) = VENID_GOLDEN
    \<and> id_device (sunix_pci_board_id ! n) = DEVID_G_SERIAL) [0..<20]"
  by code_simp

lemma family_matrix: "list_all (\<lambda>n. id_vendor (sunix_pci_board_id ! n) = VENID_MATRIX
    \<and> id_device (sunix_pci_board_id ! n) = DEVID_M_SERIAL) [20..<30]"
  by code_simp

lemma family_sun1999: "list_all (\<lambda>n. id_vendor (sunix_pci_board_id ! n) = VENID_SUN1999
    \<and> id_device (sunix_pci_board_id ! n) = DEVID_S_SERIAL) [30..<50]"
  by code_simp

lemma search_golden_one:
  assumes n: "n < 30" and d: "pd_subdev d \<noteq> 0" "pd_enable d = 0"
    and sub: "ucast (pd_subdev d) = id_subdevice (sunix_pci_board_id ! n)"
  shows "\<exists>m'. search probe_golden_serial [d] (probe_init m) = Inr (with_board n d m')"
proof -
  have fs: "first_of_subdev n" and pn: "pb_part_number (snx_pci_board_conf ! n) = 0"
    using list_all_uptD [OF golden_matrix_rows _ n] list_all_uptD [OF golden_matrix_part _ n] by simp_all
  have "\<exists>m'. search probe_golden_serial [d] (probe_init m) = Inr ((with_board n d m)\<lparr>pr_mach := m'\<rparr>)"
    by (rule search_one [where n = n and Q = "\<lambda>_. True"])
      (use n d sub fs pn with_board_one [of n d] in
        \<open>auto simp: probe_golden_serial_def add_board_init one_board_def dest: first_of_subdevD\<close>)
  then show ?thesis by simp
qed

lemma search_matrix_one:
  assumes n: "n < 30" and d: "pd_subdev d \<noteq> 0" "pd_enable d = 0"
    and sub: "ucast (pd_subdev d) = id_subdevice (sunix_pci_board_id ! n)"
  shows "\<exists>m'. search probe_matrix [d] (probe_init m) = Inr (with_board n d m')"
proof -
  have fs: "first_of_subdev n"
    using list_all_uptD [OF golden_matrix_rows _ n] by simp
  have "\<exists>m'. search probe_matrix [d] (probe_init m) = Inr ((with_board n d m)\<lparr>pr_mach := m'\<rparr>)"
    by (rule search_one [where n = n and Q = "\<lambda>_. True"])
      (use n d sub fs with_board_one [of n d] in
        \<open>auto simp: probe_matrix_def add_board_init one_board_def dest: first_of_subdevD\<close>)
  then show ?thesis by simp
qed

lemma probe_golden_matrix:
  assumes n: "n < 30" and d: "pd_subdev d \<noteq> 0" "pd_enable d = 0"
    and sub: "ucast (pd_subdev d) = id_subdevice (sunix_pci_board_id ! n)"
  shows "\<exists>st. sunix_pci_board_probe (lone_scan n d) m = Inr st \<and> one_board n d st"
proof (cases "n < 20")
  case True
  then have "id_vendor (sunix_pci_board_id ! n) = VENID_GOLDEN" "id_device (sunix_pci_board_id ! n) = DEVID_G_SERIAL"
    using list_all_uptD [OF family_golden] by simp_all
  moreover obtain m' where "search probe_golden_serial [d] (probe_init m) = Inr (with_board n d m')"
    using search_golden_one [OF n d sub] by blast
  ultimately show ?thesis
    using with_board_one [of n d m'] by (simp add: sunix_pci_board_probe_def lone_scan_def one_board_def)
next
  case False
  then have "id_vendor (sunix_pci_board_id ! n) = VENID_MATRIX" "id_device (sunix_pci_board_id ! n) = DEVID_M_SERIAL"
    using list_all_uptD [OF family_matrix] n by simp_all
  moreover obtain m' where "search probe_matrix [d] (probe_init m) = Inr (with_board n d m')"
    using search_matrix_one [OF n d sub] by blast
  ultimately show ?thesis
    using with_board_one [of n d m'] by (simp add: sunix_pci_board_probe_def lone_scan_def one_board_def)
qed

subsection \<open>A SUN1999 board on its own\<close>

text \<open>What identifies a SUN1999 board: subdevice id, part number, card type and GPIO channels.\<close>

definition row_key :: "nat \<Rightarrow> u32 \<times> u32 \<times> u32 \<times> int" where
  "row_key t = (let row = snx_pci_board_conf ! t in
     (id_subdevice (sunix_pci_board_id ! t), pb_part_number row, pb_card_type row, pb_gpio_ch_cnt row))"

definition bar3_key :: "pci_dev \<Rightarrow> u8 \<Rightarrow> u8 \<Rightarrow> u32 \<times> u32 \<times> u32 \<times> int" where
  "bar3_key d b5 b7 = (ucast (pd_subdev d), ucast b5, ucast (drop_bit 3 (b7 AND 0x18)),
     gpio_channels (uint (drop_bit 5 (b7 AND 0x60))) (drop_bit 3 (b7 AND 0x18)))"

definition bar3_reads :: "pci_dev \<Rightarrow> u8 \<Rightarrow> u8 \<Rightarrow> u8 \<Rightarrow> machine \<Rightarrow> bool" where
  "bar3_reads d b5 b6 b7 m \<longleftrightarrow> (\<forall>tr. m_in m tr (ucast (pd_resource d ! 3 + 5)) = b5
     \<and> m_in m tr (ucast (pd_resource d ! 3 + 6)) = b6
     \<and> m_in m tr (ucast (pd_resource d ! 3 + 7)) = b7)"

definition row_keys :: "(u32 \<times> u32 \<times> u32 \<times> int) list" where
  "row_keys = map2 (\<lambda>i row. (id_subdevice i, pb_part_number row, pb_card_type row, pb_gpio_ch_cnt row))
     sunix_pci_board_id snx_pci_board_conf"

lemma distinct_row_keys: "distinct row_keys"
  by code_simp

lemma row_key_nth: "t < 50 \<Longrightarrow> row_key t = row_keys ! t"
  by (simp add: row_key_def row_keys_def Let_def length_sunix_pci_board_id length_snx_pci_board_conf)

lemma length_row_keys: "length row_keys = 50"
  by (simp add: row_keys_def length_sunix_pci_board_id length_snx_pci_board_conf)

lemma row_key_inj: "s < 50 \<Longrightarrow> t < 50 \<Longrightarrow> row_key s = row_key t \<longleftrightarrow> s = t"
  using nth_eq_iff_index_eq [OF distinct_row_keys, of s t] by (simp add: row_key_nth length_row_keys)

lemma read_bar3_reads:
  assumes "bar3_reads d b5 b6 b7 m"
  obtains m' where "read_bar3 d m = (b5, b6, b7, m')" and "bar3_reads d b5 b6 b7 m'"
  using assms by (auto simp: read_bar3_def inb_def Let_def bar3_reads_def)

lemma probe_sun1999_miss:
  assumes "bar3_reads d b5 b6 b7 m" and "row_key t \<noteq> bar3_key d b5 b7"
    and "pd_subdev d \<noteq> 0" "pd_enable d = 0" and "\<not> pdev_known d st"
  shows "\<exists>m'. bar3_reads d b5 b6 b7 m' \<and> probe_sun1999 t d (st\<lparr>pr_mach := m\<rparr>) = Inr (st\<lparr>pr_mach := m'\<rparr>)"
proof -
  from assms(1) obtain m' where "read_bar3 d m = (b5, b6, b7, m')" "bar3_reads d b5 b6 b7 m'"
    by (rule read_bar3_reads)
  then show ?thesis
    using assms by (auto simp: probe_sun1999_def Let_def row_key_def bar3_key_def)
qed

definition with_sun1999 :: "nat \<Rightarrow> pci_dev \<Rightarrow> u8 \<Rightarrow> u8 \<Rightarrow> u8 \<Rightarrow> machine \<Rightarrow> probe" where
  "with_sun1999 n d b5 b6 b7 m = (let st = with_board n d m in
     st\<lparr>pr_boards := (pr_boards st)[0 := sun1999_fields b5 b6 b7 (pr_boards st ! 0)]\<rparr>)"

lemma with_sun1999_mach [simp]: "(with_sun1999 n d b5 b6 b7 m0)\<lparr>pr_mach := m\<rparr> = with_sun1999 n d b5 b6 b7 m"
  by (simp add: with_sun1999_def with_board_def Let_def probe_init_def)

lemma with_sun1999_one: "one_board n d (with_sun1999 n d b5 b6 b7 m)"
  by (simp add: one_board_def with_sun1999_def with_board_def Let_def new_entry_def
      sun1999_fields_def pdev_known_def probe_init_def eval_nat_numeral)

lemma probe_sun1999_hit:
  assumes "read_bar3 d m = (b5, b6, b7, m')" and "row_key n = bar3_key d b5 b7" and n: "n < 50"
    and "pd_subdev d \<noteq> 0" "pd_enable d = 0"
  shows "probe_sun1999 n d (probe_init m) = Inr (with_sun1999 n d b5 b6 b7 m')"
proof -
  have "pr_mach (probe_init m) = m" "pr_boardcnt (with_board n d m') = 1"
    by (simp_all add: probe_init_def with_board_def Let_def)
  then show ?thesis
    using assms by (simp add: probe_sun1999_def row_key_def bar3_key_def Let_def
        add_board_init with_sun1999_def)
qed

lemma search_sun1999_one:
  assumes n: "30 \<le> n" "n < 50" and d: "pd_subdev d \<noteq> 0" "pd_enable d = 0"
    and reads: "bar3_reads d b5 b6 b7 m" and key: "bar3_key d b5 b7 = row_key n"
  shows "\<exists>m'. search probe_sun1999 [d] (probe_init m) = Inr (with_sun1999 n d b5 b6 b7 m')"
proof -
  have fk: "row_key t \<noteq> bar3_key d b5 b7" if "t < n" for t
    using row_key_inj [of t n] that n key by auto
  have "\<exists>m'. search probe_sun1999 [d] (probe_init m) = Inr ((with_sun1999 n d b5 b6 b7 m)\<lparr>pr_mach := m'\<rparr>)"
  proof (rule search_one [where n = n and Q = "bar3_reads d b5 b6 b7"])
    show "n < 50" by fact
    show "bar3_reads d b5 b6 b7 (pr_mach (probe_init m))" using reads by (simp add: probe_init_def)
    show "\<exists>m'. bar3_reads d b5 b6 b7 m' \<and> probe_sun1999 t d ((probe_init m)\<lparr>pr_mach := m1\<rparr>)
        = Inr ((probe_init m)\<lparr>pr_mach := m'\<rparr>)" if "t < n" "bar3_reads d b5 b6 b7 m1" for t m1
      by (rule probe_sun1999_miss) (use that fk d in simp_all)
    show "\<exists>m'. bar3_reads d b5 b6 b7 m' \<and> probe_sun1999 n d ((probe_init m)\<lparr>pr_mach := m1\<rparr>)
        = Inr ((with_sun1999 n d b5 b6 b7 m)\<lparr>pr_mach := m'\<rparr>)" if "bar3_reads d b5 b6 b7 m1" for m1
      using read_bar3_reads [OF that] probe_sun1999_hit [OF _ key [symmetric] n(2) d]
      by (metis probe_init_mach with_sun1999_mach)
    show "probe_sun1999 t d ((with_sun1999 n d b5 b6 b7 m)\<lparr>pr_mach := m1\<rparr>)
        = Inr ((with_sun1999 n d b5 b6 b7 m)\<lparr>pr_mach := m1\<rparr>)" if "n < t" for t m1
      using that with_sun1999_one [of n d b5 b6 b7 m1] by (simp add: probe_sun1999_def one_board_def)
  qed
  then show ?thesis by simp
qed

lemma search_known_skips:
  assumes "pdev_known d st" and "pd_subdev d \<noteq> 0x9999" and "pd_subdev d \<noteq> 0"
  shows "search probe_sun1999_parallel [d] st = Inr st"
proof -
  have "ucast (pd_subdev d) \<noteq> id_subdevice (sunix_pci_board_id ! 0)"
  proof
    assume "ucast (pd_subdev d) = id_subdevice (sunix_pci_board_id ! 0)"
    then have "ucast (ucast (pd_subdev d) :: u32) = (ucast (0x9999 :: u32) :: u16)"
      by (simp only: subdev_row0)
    then show False using assms(2) by simp
  qed
  then have "probe_sun1999_parallel t d st = Inr st" for t
    using assms by (simp add: probe_sun1999_parallel_def)
  then have "fold_err (\<lambda>t. fold_err (probe_sun1999_parallel t) [d]) ts st = Inr st" for ts
    by (induction ts) simp_all
  then show ?thesis by (simp add: search_def)
qed

lemma probe_sun1999_board:
  assumes n: "30 \<le> n" "n < 50" and d: "pd_subdev d \<noteq> 0" "pd_enable d = 0" "pd_subdev d \<noteq> 0x9999"
    and reads: "bar3_reads d b5 b6 b7 m" and key: "bar3_key d b5 b7 = row_key n"
  shows "\<exists>st. sunix_pci_board_probe (lone_scan n d) m = Inr st \<and> one_board n d st"
proof -
  have fam: "id_vendor (sunix_pci_board_id ! n) = VENID_SUN1999" "id_device (sunix_pci_board_id ! n) = DEVID_S_SERIAL"
    using list_all_uptD [OF family_sun1999 n] by simp_all
  obtain m' where "search probe_sun1999 [d] (probe_init m) = Inr (with_sun1999 n d b5 b6 b7 m')"
    using search_sun1999_one [OF n d(1,2) reads key] by blast
  moreover have one: "one_board n d (with_sun1999 n d b5 b6 b7 m')" by (rule with_sun1999_one)
  moreover have "search probe_sun1999_parallel [d] (with_sun1999 n d b5 b6 b7 m') = Inr (with_sun1999 n d b5 b6 b7 m')"
    by (rule search_known_skips) (use one d in \<open>simp_all add: one_board_def\<close>)
  ultimately show ?thesis using fam
    by (simp add: sunix_pci_board_probe_def lone_scan_def one_board_def)
qed

subsection \<open>Properties\<close>

text \<open>One GOLDEN board, as the bus shows it, for the examples.\<close>

definition golden_dev :: pci_dev where
  "golden_dev = \<lparr>pd_ident = 7, pd_bus = 3, pd_slot = 1, pd_subdev = ucast (id_subdevice (sunix_pci_board_id ! 1)),
     pd_resource = [0xd000, 0xd100, 0xd200, 0xd300, 0, 0], pd_irq = 17, pd_enable = 0\<rparr>"

lemma golden_dev_subdev: "ucast (pd_subdev golden_dev) = id_subdevice (sunix_pci_board_id ! 1)"
  "pd_subdev golden_dev \<noteq> 0" "pd_subdev golden_dev \<noteq> 0x9999" "pd_enable golden_dev = 0"
  by code_simp+


lemma golden_probe: "\<exists>st. sunix_pci_board_probe (lone_scan 1 golden_dev) idle_machine = Inr st \<and> one_board 1 golden_dev st"
  by (rule probe_golden_matrix) (simp_all add: golden_dev_subdev)


text \<open>
  A single GOLDEN or MATRIX board on the bus (rows 0 to 29) is found, and registered under its
  own row, whatever it answers to port reads.
\<close>

theorem lone_golden_matrix_identified:
  assumes "n < 30" and "pd_subdev d \<noteq> 0" and "pd_enable d = 0"
    and "ucast (pd_subdev d) = id_subdevice (sunix_pci_board_id ! n)"
  shows "\<exists>st. sunix_pci_board_probe (lone_scan n d) m = Inr st \<and> one_board n d st"
  using probe_golden_matrix [OF assms] .

theorem lone_golden_matrix_identified_witness:
  "\<exists>st. sunix_pci_board_probe (lone_scan 1 golden_dev) idle_machine = Inr st \<and> one_board 1 golden_dev st"
  by (rule lone_golden_matrix_identified) (simp_all add: golden_dev_subdev)

text \<open>
  C20. A single SUN1999 board (rows 30 to 49), several of which share a subdevice id, is registered
  under the one row whose part number, card type and GPIO channel count its BAR 3 reports.
\<close>

theorem lone_sun1999_identified:
  assumes "30 \<le> n" and "n < 50" and "pd_subdev d \<noteq> 0" and "pd_enable d = 0" and "pd_subdev d \<noteq> 0x9999"
    and "bar3_reads d b5 b6 b7 m" and "bar3_key d b5 b7 = row_key n"
  shows "\<exists>st. sunix_pci_board_probe (lone_scan n d) m = Inr st \<and> one_board n d st"
  using probe_sun1999_board [OF assms] .

definition sun1999_dev :: pci_dev where
  "sun1999_dev = golden_dev\<lparr>pd_subdev := ucast (id_subdevice (sunix_pci_board_id ! 31))\<rparr>"

theorem lone_sun1999_identified_witness:
  "\<exists>st. sunix_pci_board_probe (lone_scan 31 sun1999_dev)
          (idle_machine\<lparr>m_in := (\<lambda>tr a. if a = 0xd305 then 2 else 0)\<rparr>) = Inr st \<and> one_board 31 sun1999_dev st"
proof (rule lone_sun1999_identified [of 31 sun1999_dev 2 0 0])
  show "pd_subdev sun1999_dev \<noteq> 0" "pd_enable sun1999_dev = 0" "pd_subdev sun1999_dev \<noteq> 0x9999"
    "bar3_key sun1999_dev 2 0 = row_key 31"
    by code_simp+
  show "bar3_reads sun1999_dev 2 0 0 (idle_machine\<lparr>m_in := (\<lambda>tr a. if a = 0xd305 then 2 else 0)\<rparr>)"
    by (simp add: bar3_reads_def sun1999_dev_def golden_dev_def)
qed simp_all

end
