(* ===== verification/Snx_Resources.thy ===== *)
theory Snx_Resources
  imports Snx_Boards
begin

text \<open>
  From the board table to the port tables: \<open>sunix_get_pci_board_conf\<close>,
  \<open>sunix_assign_resource\<close>, \<open>sunix_ser_port_table_init\<close>, \<open>sunix_par_port_table_init\<close> and the
  irq functions of driver/snx_main.c. A loop over the boards is a fold that carries the
  tables; a \<^verbatim>\<open>return\<close> from inside it is \<open>Inl\<close>. The board entries are visited in the order
  of the table, and the boards a loop changes are written back where they stand.
\<close>

section \<open>Resources of the boards\<close>

subsection \<open>Reading the configuration of every board\<close>

record conf =
  cf_boards :: "sunix_board list"
  cf_ser_total :: int
  cf_par_total :: int

abbreviation (input) board_used :: "sunix_board \<Rightarrow> bool" where
  "board_used sb \<equiv> sb_board_enum sb > 0"

text \<open>
  How a set-up step fails: with a status it returns, or by an access the C code must not make
  (through NULL or outside an array).
\<close>

datatype res_error = Status int | Fault

definition conf_board :: "nat \<Rightarrow> conf \<Rightarrow> res_error + conf" where
  "conf_board i st =
    (let sb = cf_boards st ! i in
     if \<not> board_used sb then Inr st
     else
      (let pb = sb_pb_info sb;
           sb1 = sb\<lparr>sb_ports := pb_num_serport pb + pb_num_parport pb,
                    sb_ser_port := pb_num_serport pb, sb_par_port := pb_num_parport pb\<rparr>;
           ser = cf_ser_total st + uint (pb_num_serport pb);
           par = cf_par_total st + uint (pb_num_parport pb)
       in
        if ser > int SNX_SER_TOTAL_MAX then Inl (Status (- EIO))
        else if par > int SNX_PAR_SUPPORT_MAX then Inl (Status (- EIO))
        else
         (case sb_pdev sb of
            None \<Rightarrow> Inl Fault
          | Some pdev \<Rightarrow>
             (let sb2 = sb1\<lparr>sb_bar_addr := map (\<lambda>j. pd_resource pdev ! j) [0..<SNX_PCICFG_BAR_TOTAL],
                            sb_irq := pd_irq pdev\<rparr>
              in if sb_irq sb2 = 0 then Inl (Status (- EIO))
                 else Inr \<lparr>cf_boards = (cf_boards st)[i := sb2],
                           cf_ser_total = ser, cf_par_total = par\<rparr>))))"

definition sunix_get_pci_board_conf :: "conf \<Rightarrow> res_error + conf" where
  "sunix_get_pci_board_conf st = fold_err conf_board [0..<SNX_BOARDS_MAX] st"

subsection \<open>Assigning addresses to the ports\<close>

text \<open>
  \<open>bar_at\<close> is the array access \<^verbatim>\<open>sb->bar_addr[i]\<close> with the \<^verbatim>\<open>int\<close> index of the device table;
  an index outside the array is a read the model refuses (\<open>None\<close>).
\<close>

definition bar_at :: "sunix_board \<Rightarrow> int \<Rightarrow> u32 option" where
  "bar_at sb i = (if 0 \<le> i \<and> nat i < length (sb_bar_addr sb) then Some (sb_bar_addr sb ! nat i) else None)"

record tables =
  tb_boards :: "sunix_board list"
  tb_ser :: "sunix_ser_port list"
  tb_par :: "sunix_par_port list"
  tb_index :: nat

text \<open>The loop over the serial ports of one board; \<open>n\<close> is the table index of port \<open>j\<close>.\<close>

fun assign_serial :: "nat \<Rightarrow> nat \<Rightarrow> nat \<Rightarrow> sunix_board \<Rightarrow> sunix_ser_port list
    \<Rightarrow> res_error + (sunix_board \<times> sunix_ser_port list)" where
  "assign_serial 0 j n sb ser = Inr (sb, ser)"
| "assign_serial (Suc k) j n sb ser =
    (let p = pb_port_at (sb_pb_info sb) j in
     if n \<ge> length ser then Inl Fault
     else
      (case bar_at sb (p_bar1 p) of
         None \<Rightarrow> Inl Fault
       | Some bar \<Rightarrow>
          (let sp = (ser ! n)\<lparr>sp_chip_flag := ucast (p_chip_flag p),
                              sp_iobase := bar + ucast (p_offset1 p)\<rparr>
           in
            if sb_board_flag sb AND BOARDFLAG_REMAP = BOARDFLAG_REMAP then
              assign_serial k (Suc j) (Suc n) (sb\<lparr>sb_vector_mask := 0\<rparr>)
                (ser[n := sp\<lparr>sp_vector := 0\<rparr>])
            else
             (case bar_at sb (uint (pb_intr_vector_bar (sb_pb_info sb))) of
                None \<Rightarrow> Inl Fault
              | Some ivb \<Rightarrow>
                 assign_serial k (Suc j) (Suc n)
                   (sb\<lparr>sb_vector_mask := sb_vector_mask sb OR push_bit j 1\<rparr>)
                   (ser[n := sp\<lparr>sp_vector := ivb + ucast (pb_intr_vector_offset (sb_pb_info sb))\<rparr>])))))"

text \<open>
  The loop over the parallel table looks for free entries; \<open>k\<close> counts the ports of the
  board placed so far. When the table has no more free entry the loop just ends.
\<close>

fun assign_parallel :: "nat list \<Rightarrow> nat \<Rightarrow> sunix_board \<Rightarrow> sunix_par_port list
    \<Rightarrow> res_error + sunix_par_port list" where
  "assign_parallel [] k sb par = Inr par"
| "assign_parallel (j # js) k sb par =
    (if k + 1 > unat (sb_par_port sb) then Inr par
     else if pp_chip_flag (par ! j) \<noteq> ucast SUNNONE_HWID then assign_parallel js k sb par
     else
      (let p = pb_port_at (sb_pb_info sb) (k + unat (sb_ser_port sb)) in
       case (bar_at sb (p_bar1 p), bar_at sb (p_bar2 p)) of
         (Some b1, Some b2) \<Rightarrow>
           assign_parallel js (Suc k) sb
             (par[j := (par ! j)\<lparr>pp_chip_flag := ucast (p_chip_flag p),
                pp_base := ucast (b1 + ucast (p_offset1 p)),
                pp_base_hi := ucast (b2 + ucast (p_offset2 p)),
                pp_bus_number := sb_bus_number sb, pp_dev_number := sb_dev_number sb,
                pp_board_enum := sb_board_enum sb\<rparr>])
       | _ \<Rightarrow> Inl Fault))"

definition assign_board :: "nat \<Rightarrow> tables \<Rightarrow> res_error + tables" where
  "assign_board i st =
    (let sb = tb_boards st ! i in
     if \<not> board_used sb then Inr st
     else
      (case (if sb_ser_port sb > 0 then
               assign_serial (unat (sb_ser_port sb)) 0 (tb_index st)
                 (sb\<lparr>sb_vector_mask := 0, sb_ser_port_index := of_nat (tb_index st)\<rparr>) (tb_ser st)
             else Inr (sb, tb_ser st)) of
         Inl e \<Rightarrow> Inl e
       | Inr (sb1, ser) \<Rightarrow>
          (case (if sb_par_port sb1 > 0 then assign_parallel [0..<SNX_PAR_TOTAL_MAX] 0 sb1 (tb_par st)
                 else Inr (tb_par st)) of
             Inl e \<Rightarrow> Inl e
           | Inr par \<Rightarrow>
              Inr \<lparr>tb_boards = (tb_boards st)[i := sb1], tb_ser = ser, tb_par = par,
                   tb_index = tb_index st + unat (sb_ser_port sb)\<rparr>)))"

definition sunix_assign_resource :: "sunix_board list \<Rightarrow> res_error + tables" where
  "sunix_assign_resource boards =
     fold_err assign_board [0..<SNX_BOARDS_MAX]
       \<lparr>tb_boards = boards, tb_ser = replicate (SNX_SER_TOTAL_MAX + 1) zero_ser_port,
        tb_par = replicate SNX_PAR_TOTAL_MAX zero_par_port, tb_index = 0\<rparr>"

subsection \<open>Serial port table\<close>

text \<open>Constants of driver/snx_common.h this part writes into a port.\<close>

abbreviation (input) SNX_SER_PORT_UNKNOWN :: u32 where "SNX_SER_PORT_UNKNOWN \<equiv> 0"
abbreviation (input) SNX_SER_PORT_SUN1889 :: u32 where "SNX_SER_PORT_SUN1889 \<equiv> 1"
abbreviation (input) SNX_SER_PORT_SUN1699 :: u32 where "SNX_SER_PORT_SUN1699 \<equiv> 2"
abbreviation (input) SNX_SER_PORT_SUNMATX :: u32 where "SNX_SER_PORT_SUNMATX \<equiv> 3"
abbreviation (input) SNX_SER_PORT_SUN1999 :: u32 where "SNX_SER_PORT_SUN1999 \<equiv> 4"
abbreviation (input) PORT_SER_16450 :: u32 where "PORT_SER_16450 \<equiv> 2"
abbreviation (input) PORT_SER_16650V2 :: u32 where "PORT_SER_16650V2 \<equiv> 7"
abbreviation (input) PORT_SER_16750 :: u32 where "PORT_SER_16750 \<equiv> 8"
abbreviation (input) PORTFLAG_NONE :: u32 where "PORTFLAG_NONE \<equiv> 0"
abbreviation (input) PORTFLAG_REMAP :: u32 where "PORTFLAG_REMAP \<equiv> 1"
abbreviation (input) PORTFLAG_16PORTS :: u32 where "PORTFLAG_16PORTS \<equiv> 2"
abbreviation (input) SNX_SER_BAUD_NOTSETSER :: u32 where "SNX_SER_BAUD_NOTSETSER \<equiv> 0"
abbreviation (input) SNX_SER_BAUD_SETSERIAL :: u32 where "SNX_SER_BAUD_SETSERIAL \<equiv> 1"
abbreviation (input) SNX_UPIO_PORT :: u8 where "SNX_UPIO_PORT \<equiv> 0"
abbreviation (input) UPF_SHARE_IRQ :: u32 where "UPF_SHARE_IRQ \<equiv> 0x1000000"

text \<open>The fields that depend on the chip: type, FIFO size and trigger level.\<close>

definition chip_setup :: "sunix_ser_port \<Rightarrow> sunix_ser_port" where
  "chip_setup sp =
    (if sp_chip_flag sp = ucast SUN1889_HWID then
       sp\<lparr>sp_snx_type := SNX_SER_PORT_SUN1889, sp_type := PORT_SER_16650V2, sp_fifosize := 32, sp_rx_trigger := 16\<rparr>
     else if sp_chip_flag sp = ucast SUN1699_HWID then
       sp\<lparr>sp_snx_type := SNX_SER_PORT_SUN1699, sp_type := PORT_SER_16650V2, sp_fifosize := 32, sp_rx_trigger := 16\<rparr>
     else if sp_chip_flag sp = ucast SUNMATX_HWID then
       sp\<lparr>sp_snx_type := SNX_SER_PORT_SUNMATX, sp_type := PORT_SER_16750, sp_fifosize := 64, sp_rx_trigger := 32\<rparr>
     else if sp_chip_flag sp = ucast SUN1999_HWID then
       sp\<lparr>sp_snx_type := SNX_SER_PORT_SUN1999, sp_type := PORT_SER_16750, sp_fifosize := 128, sp_rx_trigger := 64\<rparr>
     else
       sp\<lparr>sp_snx_type := SNX_SER_PORT_UNKNOWN, sp_type := PORT_SER_16450, sp_fifosize := 1, sp_rx_trigger := 1\<rparr>)"

text \<open>
  The mode bits of port \<open>j\<close>: two registers for the first four ports, two others for the next
  four; for a port from 8 on the code reads nothing and goes on with the values its two
  local variables have from the port before.
\<close>

definition mode_bits :: "sunix_board \<Rightarrow> nat \<Rightarrow> int \<times> int \<Rightarrow> machine \<Rightarrow> (int \<times> int) \<times> machine" where
  "mode_bits sb j st m =
    (if j < 4 then
      (let (a, m1) = inb (ucast (sb_bar_addr sb ! 3 + 2)) m;
           (r, m2) = inb (ucast (sb_bar_addr sb ! 3 + 3)) m1
       in ((uint a AND 0x0F AND push_bit (j mod 4) 0x01, uint r AND 0xF0 AND push_bit (j mod 4) 0x10), m2))
     else if j < 8 then
      (let (a, m1) = inb (ucast (sb_bar_addr sb ! 1 + 0x32)) m;
           (r, m2) = inb (ucast (sb_bar_addr sb ! 1 + 0x33)) m1
       in ((uint a AND 0x0F AND push_bit (j mod 4) 0x01, uint r AND 0xF0 AND push_bit (j mod 4) 0x10), m2))
     else (st, m))"

definition ser_port_init :: "sunix_board \<Rightarrow> nat \<Rightarrow> nat \<Rightarrow> int \<Rightarrow> int \<Rightarrow> sunix_ser_port \<Rightarrow> sunix_ser_port" where
  "ser_port_init sb j n ahdc rs422 sp0 =
    (let sp1 = chip_setup (sp0\<lparr>
           sp_AHDC_State := drop_bit (j mod 4) ahdc, sp_RS422_State := drop_bit (j mod 4) rs422,
           sp_board_enum := sb_board_enum sb, sp_bus_number := sb_bus_number sb,
           sp_dev_number := sb_dev_number sb, sp_baud_base := 921600,
           sp_pb_info := sb_pb_info sb, sp_irq := sb_irq sb, sp_line := of_nat n,
           sp_uartclk := 921600 * 16, sp_iotype := SNX_UPIO_PORT, sp_flags := UPF_SHARE_IRQ,
           sp_ldisc_stop_rx := 0\<rparr>);
         flag = pb_board_flag (sb_pb_info sb);
         sp2 = (if flag AND BOARDFLAG_REMAP = BOARDFLAG_REMAP
                then sp1\<lparr>sp_vector_mask := 0, sp_port_flag := PORTFLAG_REMAP\<rparr>
                else sp1\<lparr>sp_vector_mask := sb_vector_mask sb, sp_port_flag := PORTFLAG_NONE\<rparr>);
         sp3 = (if flag AND BOARDFLAG_16PORTS = BOARDFLAG_16PORTS
                then sp2\<lparr>sp_port_flag := sp_port_flag sp2 OR PORTFLAG_16PORTS\<rparr> else sp2)
     in sp3\<lparr>sp_setserial_flag := SNX_SER_BAUD_NOTSETSER\<rparr>)"

fun init_serial :: "nat \<Rightarrow> nat \<Rightarrow> nat \<Rightarrow> sunix_board \<Rightarrow> int \<times> int \<Rightarrow> sunix_ser_port list \<Rightarrow> machine
    \<Rightarrow> (int \<times> int) \<times> sunix_ser_port list \<times> machine" where
  "init_serial 0 j n sb modes ser m = (modes, ser, m)"
| "init_serial (Suc k) j n sb modes ser m =
    (let ((ahdc, rs422), m1) = mode_bits sb j modes m;
         rs422' = drop_bit 4 (rs422 AND 0xF0)
     in init_serial k (Suc j) (Suc n) sb (ahdc, rs422')
          (ser[n := ser_port_init sb j n ahdc rs422' (ser ! n)]) m1)"

definition init_board :: "nat \<Rightarrow> (int \<times> int) \<times> tables \<times> machine \<Rightarrow> (int \<times> int) \<times> tables \<times> machine" where
  "init_board i st =
    (case st of (modes, tb, m) \<Rightarrow>
      (let sb = tb_boards tb ! i in
       if board_used sb \<and> sb_ser_port sb > 0 then
        (let (modes', ser, m') = init_serial (unat (sb_ser_port sb)) 0 (unat (sb_ser_port_index sb)) sb
                                   modes (tb_ser tb) m
         in (modes', tb\<lparr>tb_ser := ser, tb_boards := (tb_boards tb)[i := sb\<lparr>sb_ser_isr := True\<rparr>]\<rparr>, m'))
       else (modes, tb\<lparr>tb_boards := (tb_boards tb)[i := sb\<lparr>sb_ser_isr := False\<rparr>]\<rparr>, m)))"

text \<open>
  The releases of I/O regions at the end give back regions this driver has not requested
  yet; they do not change the tables. The function has no failing path.
\<close>

definition sunix_ser_port_table_init :: "tables \<Rightarrow> machine \<Rightarrow> tables \<times> machine" where
  "sunix_ser_port_table_init tb m = snd (fold init_board [0..<SNX_BOARDS_MAX] ((0, 0), tb, m))"

subsection \<open>Parallel port table\<close>

abbreviation (input) SNX_PAR_PORT_UNKNOWN :: u32 where "SNX_PAR_PORT_UNKNOWN \<equiv> 0"
abbreviation (input) SNX_PAR_PORT_SUN1888 :: u32 where "SNX_PAR_PORT_SUN1888 \<equiv> 1"
abbreviation (input) SNX_PAR_PORT_SUN1689 :: u32 where "SNX_PAR_PORT_SUN1689 \<equiv> 2"
abbreviation (input) SNX_PAR_PORT_SUNMATX :: u32 where "SNX_PAR_PORT_SUNMATX \<equiv> 3"
abbreviation (input) SNX_PAR_PORT_SUN1999 :: u32 where "SNX_PAR_PORT_SUN1999 \<equiv> 4"
abbreviation (input) SUN1888_HWID :: u32 where "SUN1888_HWID \<equiv> 4"
abbreviation (input) PARPORT_IRQ_NONE :: int where "PARPORT_IRQ_NONE \<equiv> - 1"

definition par_port_init :: "sunix_board \<Rightarrow> nat \<Rightarrow> sunix_par_port \<Rightarrow> sunix_par_port" where
  "par_port_init sb j pp =
     pp\<lparr>pp_pb_info := sb_pb_info sb, pp_irq := PARPORT_IRQ_NONE, pp_portnum := int j,
        pp_snx_type :=
          (if pp_chip_flag pp = ucast SUN1888_HWID then SNX_PAR_PORT_SUN1888
           else if pp_chip_flag pp = ucast SUN1689_HWID then SNX_PAR_PORT_SUN1689
           else if pp_chip_flag pp = ucast SUNMATX_HWID then SNX_PAR_PORT_SUNMATX
           else if pp_chip_flag pp = ucast SUN1999_HWID then SNX_PAR_PORT_SUN1999
           else SNX_PAR_PORT_UNKNOWN),
        pp_port_flag :=
          (if pb_board_flag (sb_pb_info sb) AND BOARDFLAG_REMAP = BOARDFLAG_REMAP
           then PORTFLAG_REMAP else PORTFLAG_NONE)\<rparr>"

fun init_parallel :: "nat list \<Rightarrow> nat \<Rightarrow> sunix_board \<Rightarrow> sunix_par_port list \<Rightarrow> sunix_board \<times> sunix_par_port list" where
  "init_parallel [] k sb par = (sb, par)"
| "init_parallel (j # js) k sb par =
    (if k + 1 > unat (sb_par_port sb) then (sb, par)
     else if pp_bus_number (par ! j) = sb_bus_number sb \<and> pp_dev_number (par ! j) = sb_dev_number sb
             \<and> pp_board_enum (par ! j) = sb_board_enum sb
     then init_parallel js (Suc k) (sb\<lparr>sb_par_isr := False\<rparr>) (par[j := par_port_init sb j (par ! j)])
     else init_parallel js k sb par)"

definition par_init_board :: "nat \<Rightarrow> tables \<Rightarrow> tables" where
  "par_init_board i tb =
    (let sb = tb_boards tb ! i in
     if board_used sb \<and> sb_par_port sb > 0 then
      (let (sb', par) = init_parallel [0..<SNX_PAR_TOTAL_MAX] 0 sb (tb_par tb)
       in tb\<lparr>tb_boards := (tb_boards tb)[i := sb'], tb_par := par\<rparr>)
     else tb)"

definition sunix_par_port_table_init :: "tables \<Rightarrow> tables" where
  "sunix_par_port_table_init tb = fold par_init_board [0..<SNX_BOARDS_MAX] tb"

subsection \<open>Interrupt lines\<close>

text \<open>
  \<^verbatim>\<open>request_irq\<close> is the kernel's; \<open>req sb\<close> is the status it answers for a board. The result is
  the status and the table indices of the boards whose handler is now installed.
\<close>

fun register_irqs :: "(sunix_board \<Rightarrow> int) \<Rightarrow> sunix_board list \<Rightarrow> nat list \<Rightarrow> nat list \<Rightarrow> int \<times> nat list" where
  "register_irqs req boards [] held = (0, held)"
| "register_irqs req boards (i # is) held =
    (if board_used (boards ! i) then
       (if req (boards ! i) \<noteq> 0 then (req (boards ! i), held)
        else register_irqs req boards is (held @ [i]))
     else register_irqs req boards is held)"

definition sunix_register_irq :: "(sunix_board \<Rightarrow> int) \<Rightarrow> sunix_board list \<Rightarrow> int \<times> nat list" where
  "sunix_register_irq req boards = register_irqs req boards [0..<SNX_BOARDS_MAX] []"

text \<open>The boards whose line \<open>sunix_release_irq\<close> frees.\<close>

definition sunix_release_irq :: "sunix_board list \<Rightarrow> nat list" where
  "sunix_release_irq boards = filter (\<lambda>i. board_used (boards ! i)) [0..<SNX_BOARDS_MAX]"

subsection \<open>Assigning stays inside the tables\<close>

lemma board_wf_row: "0 < n \<Longrightarrow> n < 50 \<Longrightarrow> board_wf (snx_pci_board_conf ! n)"
  using board_conf_wf length_snx_pci_board_conf
  by (cases n) (auto simp: list_all_length nth_tl)

text \<open>What assigning needs of a used board, and what it may change in a board.\<close>

definition board_ready :: "sunix_board \<Rightarrow> bool" where
  "board_ready sb \<longleftrightarrow> board_wf (sb_pb_info sb) \<and> length (sb_bar_addr sb) = 6
     \<and> sb_ser_port sb = pb_num_serport (sb_pb_info sb) \<and> sb_par_port sb = pb_num_parport (sb_pb_info sb)"

definition same_board :: "sunix_board \<Rightarrow> sunix_board \<Rightarrow> bool" where
  "same_board sb sb' \<longleftrightarrow> sb_pb_info sb' = sb_pb_info sb \<and> sb_bar_addr sb' = sb_bar_addr sb
     \<and> sb_ser_port sb' = sb_ser_port sb \<and> sb_par_port sb' = sb_par_port sb
     \<and> sb_board_enum sb' = sb_board_enum sb \<and> sb_board_flag sb' = sb_board_flag sb
     \<and> sb_bus_number sb' = sb_bus_number sb \<and> sb_dev_number sb' = sb_dev_number sb
     \<and> sb_irq sb' = sb_irq sb \<and> sb_pdev sb' = sb_pdev sb"

lemma same_board_refl [simp]: "same_board sb sb"
  by (simp add: same_board_def)

lemma same_board_upd:
  "same_board (sb\<lparr>sb_vector_mask := vm\<rparr>) sb' \<longleftrightarrow> same_board sb sb'"
  "same_board (sb\<lparr>sb_vector_mask := vm, sb_ser_port_index := ix\<rparr>) sb' \<longleftrightarrow> same_board sb sb'"
  by (simp_all add: same_board_def)

text \<open>The serial ports the used boards before board \<open>i\<close> have.\<close>

fun ser_before :: "sunix_board list \<Rightarrow> nat \<Rightarrow> nat" where
  "ser_before boards 0 = 0"
| "ser_before boards (Suc i) = ser_before boards i
     + (if board_used (boards ! i) then unat (sb_ser_port (boards ! i)) else 0)"

lemma ser_before_mono: "i \<le> i' \<Longrightarrow> ser_before boards i \<le> ser_before boards i'"
  by (induction i' rule: dec_induct) auto

text \<open>Serial port \<open>j\<close> of the board has the address and chip the device table gives it.\<close>

definition placed :: "sunix_board \<Rightarrow> nat \<Rightarrow> sunix_ser_port \<Rightarrow> bool" where
  "placed sb j sp \<longleftrightarrow> (let p = pb_port_at (sb_pb_info sb) j in
     sp_iobase sp = sb_bar_addr sb ! nat (p_bar1 p) + ucast (p_offset1 p)
     \<and> sp_chip_flag sp = ucast (p_chip_flag p))"

lemma bar_at_ok: "0 \<le> i \<Longrightarrow> i < int (length (sb_bar_addr sb)) \<Longrightarrow> bar_at sb i = Some (sb_bar_addr sb ! nat i)"
  by (simp add: bar_at_def nat_less_iff)

lemma same_board_fields:
  assumes "same_board sb sb'"
  shows "sb_pb_info sb' = sb_pb_info sb" "sb_bar_addr sb' = sb_bar_addr sb"
    "sb_ser_port sb' = sb_ser_port sb" "sb_par_port sb' = sb_par_port sb"
    "sb_board_enum sb' = sb_board_enum sb" "sb_board_flag sb' = sb_board_flag sb"
  using assms unfolding same_board_def by blast+

lemma assign_serial_ok:
  assumes "n + k \<le> length ser" and "length (sb_bar_addr sb) = 6"
    and "unat (pb_intr_vector_bar (sb_pb_info sb)) < 6"
    and "\<And>i. i < k \<Longrightarrow> 0 \<le> p_bar1 (pb_port_at (sb_pb_info sb) (j + i)) \<and> p_bar1 (pb_port_at (sb_pb_info sb) (j + i)) < 6"
  shows "\<exists>sb' ser'. assign_serial k j n sb ser = Inr (sb', ser') \<and> same_board sb sb'
     \<and> sb_ser_port_index sb' = sb_ser_port_index sb \<and> length ser' = length ser
     \<and> (\<forall>i. i < n \<or> n + k \<le> i \<longrightarrow> ser' ! i = ser ! i)
     \<and> (\<forall>i<k. placed sb (j + i) (ser' ! (n + i)))"
  using assms
proof (induction k arbitrary: j n sb ser)
  case 0
  then show ?case by auto
next
  case (Suc k)
  let ?p = "pb_port_at (sb_pb_info sb) j"
  let ?sp = "(ser ! n)\<lparr>sp_chip_flag := ucast (p_chip_flag ?p),
      sp_iobase := sb_bar_addr sb ! nat (p_bar1 ?p) + ucast (p_offset1 ?p)\<rparr>"
  have bar: "bar_at sb (p_bar1 ?p) = Some (sb_bar_addr sb ! nat (p_bar1 ?p))"
    using Suc.prems(4) [of 0] Suc.prems(2) by (intro bar_at_ok) auto
  have ivb: "bar_at sb (uint (pb_intr_vector_bar (sb_pb_info sb)))
      = Some (sb_bar_addr sb ! unat (pb_intr_vector_bar (sb_pb_info sb)))"
    using Suc.prems(2,3) by (simp add: bar_at_def)
  obtain vm vec where step: "assign_serial (Suc k) j n sb ser
      = assign_serial k (Suc j) (Suc n) (sb\<lparr>sb_vector_mask := vm\<rparr>) (ser[n := ?sp\<lparr>sp_vector := vec\<rparr>])"
    using Suc.prems(1) by (cases "sb_board_flag sb AND BOARDFLAG_REMAP = BOARDFLAG_REMAP")
      (auto simp: Let_def bar ivb)
  let ?sby = "sb\<lparr>sb_vector_mask := vm\<rparr>" and ?sery = "ser[n := ?sp\<lparr>sp_vector := vec\<rparr>]"
  from Suc.IH [of "Suc n" ?sery ?sby "Suc j"] Suc.prems(1-3) Suc.prems(4) [of "Suc i" for i]
  obtain sb' ser' where r: "assign_serial k (Suc j) (Suc n) ?sby ?sery = Inr (sb', ser')"
    "same_board ?sby sb'" "sb_ser_port_index sb' = sb_ser_port_index sb" "length ser' = length ser"
    "\<forall>i. i < Suc n \<or> Suc n + k \<le> i \<longrightarrow> ser' ! i = ?sery ! i"
    "\<forall>i<k. placed ?sby (Suc j + i) (ser' ! (Suc n + i))"
    by auto
  have "same_board sb sb'" using r(2) by (simp add: same_board_upd)
  moreover have "placed sb (j + i) (ser' ! (n + i))" if "i < Suc k" for i
  proof (cases i)
    case 0
    then show ?thesis using r(5) Suc.prems(1) by (auto simp: placed_def Let_def)
  next
    case (Suc i')
    then show ?thesis using r(6) that by (auto simp: placed_def)
  qed
  moreover have "ser' ! i = ser ! i" if "i < n \<or> n + Suc k \<le> i" for i
    using r(5) that by (auto simp: nth_list_update)
  ultimately show ?case using r step by auto
qed

lemma assign_parallel_ok:
  assumes "board_ready sb"
  shows "\<exists>par'. assign_parallel js k sb par = Inr par'"
proof (induction js arbitrary: k par)
  case Nil
  then show ?case by simp
next
  case (Cons j js)
  show ?case
  proof (cases "k + 1 > unat (sb_par_port sb) \<or> pp_chip_flag (par ! j) \<noteq> ucast SUNNONE_HWID")
    case True
    then show ?thesis using Cons.IH by auto
  next
    case False
    let ?pb = "sb_pb_info sb"
    let ?i = "k + unat (sb_ser_port sb)"
    have len: "?i < length (pb_port ?pb)"
      using False assms by (auto simp: board_ready_def board_wf_def)
    have "unat (pb_num_serport ?pb) + k < length (pb_port ?pb)"
      using len assms by (simp add: board_ready_def add.commute)
    then have "drop (unat (pb_num_serport ?pb)) (pb_port ?pb) ! k \<in> set (drop (unat (pb_num_serport ?pb)) (pb_port ?pb))"
      by (intro nth_mem) simp
    with len have "pb_port ?pb ! ?i \<in> set (pb_port ?pb)"
      "pb_port ?pb ! ?i \<in> set (drop (unat (pb_num_serport ?pb)) (pb_port ?pb))"
      using assms by (auto simp: board_ready_def add.commute)
    then have "port_wf (pb_port_at ?pb ?i)" "p_type (pb_port_at ?pb ?i) = CHR ''p''"
      using assms len by (auto simp: board_ready_def board_wf_def list_all_iff pb_port_at_def)
    then have "\<exists>b1 b2. bar_at sb (p_bar1 (pb_port_at ?pb ?i)) = Some b1
        \<and> bar_at sb (p_bar2 (pb_port_at ?pb ?i)) = Some b2"
      using assms by (auto simp: port_wf_def bar_at_ok board_ready_def)
    then show ?thesis using False Cons.IH by (auto simp: Let_def)
  qed
qed

lemma assign_board_ok:
  assumes ready: "board_used (tb_boards st ! i) \<Longrightarrow> board_ready (tb_boards st ! i)"
    and len: "length (tb_ser st) = 33" "length (tb_boards st) = 4" "i < 4"
    and room: "board_used (tb_boards st ! i) \<Longrightarrow> tb_index st + unat (sb_ser_port (tb_boards st ! i)) \<le> 32"
  shows "\<exists>st' sb'. assign_board i st = Inr st' \<and> length (tb_ser st') = 33
     \<and> tb_boards st' = (tb_boards st)[i := sb'] \<and> same_board (tb_boards st ! i) sb'
     \<and> tb_index st' = tb_index st + (if board_used (tb_boards st ! i) then unat (sb_ser_port (tb_boards st ! i)) else 0)
     \<and> (\<forall>n. n < tb_index st \<or> tb_index st' \<le> n \<longrightarrow> tb_ser st' ! n = tb_ser st ! n)
     \<and> (board_used (tb_boards st ! i) \<longrightarrow> (\<forall>j<unat (sb_ser_port (tb_boards st ! i)).
           placed (tb_boards st ! i) j (tb_ser st' ! (tb_index st + j)) \<and> sb_ser_port_index sb' = of_nat (tb_index st)))"
proof (cases "board_used (tb_boards st ! i)")
  case False
  then show ?thesis using len by (intro exI [of _ st] exI [of _ "tb_boards st ! i"]) (auto simp: assign_board_def)
next
  case True
  let ?sb = "tb_boards st ! i" and ?n = "tb_index st"
  let ?sbz = "?sb\<lparr>sb_vector_mask := 0, sb_ser_port_index := of_nat ?n\<rparr>"
  note r = ready [OF True] and rm = room [OF True]
  have ports: "0 \<le> p_bar1 (pb_port_at (sb_pb_info ?sb) j) \<and> p_bar1 (pb_port_at (sb_pb_info ?sb) j) < 6"
    if "j < unat (sb_ser_port ?sb)" for j
  proof -
    from that r have "j < length (pb_port (sb_pb_info ?sb))" by (auto simp: board_ready_def board_wf_def)
    moreover from this r have "port_wf (pb_port (sb_pb_info ?sb) ! j)"
      by (auto simp: board_ready_def board_wf_def list_all_length)
    ultimately show ?thesis by (auto simp: pb_port_at_def port_wf_def)
  qed
  have "\<exists>sb1 ser. (if sb_ser_port ?sb > 0 then assign_serial (unat (sb_ser_port ?sb)) 0 ?n ?sbz (tb_ser st)
        else Inr (?sb, tb_ser st)) = Inr (sb1, ser) \<and> same_board ?sb sb1 \<and> length ser = 33
     \<and> (\<forall>n. n < ?n \<or> ?n + unat (sb_ser_port ?sb) \<le> n \<longrightarrow> ser ! n = tb_ser st ! n)
     \<and> (\<forall>j<unat (sb_ser_port ?sb). placed ?sb j (ser ! (?n + j)) \<and> sb_ser_port_index sb1 = of_nat ?n)"
    (is "\<exists>sb1 ser. ?P sb1 ser")
  proof (cases "sb_ser_port ?sb > 0")
    case False
    then have "sb_ser_port ?sb = 0" by (simp add: word_gt_0)
    then show ?thesis using len by auto
  next
    case pos: True
    have "?n + unat (sb_ser_port ?sb) \<le> length (tb_ser st)" using rm len by simp
    from assign_serial_ok [OF this, of ?sbz 0] r ports obtain sb1 ser where
      "assign_serial (unat (sb_ser_port ?sb)) 0 ?n ?sbz (tb_ser st) = Inr (sb1, ser)"
      "same_board ?sbz sb1" "sb_ser_port_index sb1 = of_nat ?n" "length ser = length (tb_ser st)"
      "\<forall>n. n < ?n \<or> ?n + unat (sb_ser_port ?sb) \<le> n \<longrightarrow> ser ! n = tb_ser st ! n"
      "\<forall>j<unat (sb_ser_port ?sb). placed ?sbz j (ser ! (?n + j))"
      by (auto simp: board_ready_def board_wf_def)
    then show ?thesis using pos len by (auto simp: same_board_upd placed_def)
  qed
  then obtain sb1 ser where P: "?P sb1 ser" by blast
  then have "board_ready sb1" using r same_board_fields [of ?sb sb1] by (simp add: board_ready_def)
  from assign_parallel_ok [OF this] obtain par where par:
    "(if sb_par_port sb1 > 0 then assign_parallel [0..<SNX_PAR_TOTAL_MAX] 0 sb1 (tb_par st)
      else Inr (tb_par st)) = Inr par" by fastforce
  have "assign_board i st = Inr \<lparr>tb_boards = (tb_boards st)[i := sb1], tb_ser = ser, tb_par = par,
      tb_index = ?n + unat (sb_ser_port ?sb)\<rparr>"
    unfolding assign_board_def Let_def using True P
    by (simp only: par not_True_eq_False if_False sum.case prod.case)
  then show ?thesis using P True
    by (intro exI [of _ "\<lparr>tb_boards = (tb_boards st)[i := sb1], tb_ser = ser, tb_par = par,
      tb_index = ?n + unat (sb_ser_port ?sb)\<rparr>"] exI [of _ sb1]) simp
qed

text \<open>Every board's block of the serial table, and its own entry, after assigning.\<close>

definition assigned :: "sunix_board list \<Rightarrow> nat \<Rightarrow> tables \<Rightarrow> bool" where
  "assigned boards k tb \<longleftrightarrow> length (tb_ser tb) = 33 \<and> length (tb_boards tb) = 4
     \<and> tb_index tb = ser_before boards k
     \<and> (\<forall>i<4. same_board (boards ! i) (tb_boards tb ! i))
     \<and> (\<forall>i. k \<le> i \<longrightarrow> tb_boards tb ! i = boards ! i)
     \<and> (\<forall>i<k. board_used (boards ! i) \<longrightarrow>
          (\<forall>j<unat (sb_ser_port (boards ! i)). placed (boards ! i) j (tb_ser tb ! (ser_before boards i + j))
             \<and> sb_ser_port_index (tb_boards tb ! i) = of_nat (ser_before boards i)))"

lemma assign_prefix:
  assumes "length boards = 4" and "k \<le> 4"
    and ready: "\<And>i. i < 4 \<Longrightarrow> board_used (boards ! i) \<Longrightarrow> board_ready (boards ! i)"
    and room: "ser_before boards 4 \<le> 32"
  shows "\<exists>tb. fold_err assign_board [0..<k]
       \<lparr>tb_boards = boards, tb_ser = replicate (SNX_SER_TOTAL_MAX + 1) zero_ser_port,
        tb_par = replicate SNX_PAR_TOTAL_MAX zero_par_port, tb_index = 0\<rparr> = Inr tb \<and> assigned boards k tb"
  using assms(2)
proof (induction k)
  case 0
  then show ?case using assms(1) by (simp add: assigned_def)
next
  case (Suc k)
  then obtain tb where tb: "fold_err assign_board [0..<k]
       \<lparr>tb_boards = boards, tb_ser = replicate (SNX_SER_TOTAL_MAX + 1) zero_ser_port,
        tb_par = replicate SNX_PAR_TOTAL_MAX zero_par_port, tb_index = 0\<rparr> = Inr tb" "assigned boards k tb"
    by auto
  have k: "k < 4" and eq: "tb_boards tb ! k = boards ! k" "tb_index tb = ser_before boards k"
    "length (tb_ser tb) = 33" "length (tb_boards tb) = 4"
    using Suc.prems tb(2) by (auto simp: assigned_def)
  have le: "ser_before boards (Suc k) \<le> 32"
    using ser_before_mono [of "Suc k" 4 boards] room Suc.prems by linarith
  have p: "board_used (tb_boards tb ! k) \<Longrightarrow> board_ready (tb_boards tb ! k)"
    "board_used (tb_boards tb ! k) \<Longrightarrow> tb_index tb + unat (sb_ser_port (tb_boards tb ! k)) \<le> 32"
    using ready [OF k] le eq by simp_all
  obtain st' sb' where st': "assign_board k tb = Inr st'" "length (tb_ser st') = 33"
    "tb_boards st' = (tb_boards tb)[k := sb']" "same_board (boards ! k) sb'"
    "tb_index st' = ser_before boards (Suc k)"
    "\<forall>n. n < ser_before boards k \<or> tb_index st' \<le> n \<longrightarrow> tb_ser st' ! n = tb_ser tb ! n"
    "board_used (boards ! k) \<longrightarrow> (\<forall>j<unat (sb_ser_port (boards ! k)).
       placed (boards ! k) j (tb_ser st' ! (ser_before boards k + j)) \<and> sb_ser_port_index sb' = of_nat (ser_before boards k))"
    using assign_board_ok [OF p(1) eq(3,4) k p(2)] unfolding eq ser_before.simps by blast
  have old: "tb_ser st' ! (ser_before boards i + j) = tb_ser tb ! (ser_before boards i + j)"
    if "i < k" "board_used (boards ! i)" "j < unat (sb_ser_port (boards ! i))" for i j
    using st'(6) ser_before_mono [of "Suc i" k boards] that by simp
  have "assigned boards (Suc k) st'"
    unfolding assigned_def using tb(2) st' k old
    by (auto simp: assigned_def nth_list_update less_Suc_eq)
  then show ?case using tb(1) st'(1) by (simp add: fold_err_append)
qed

lemma assign_resource_ok:
  assumes "length boards = 4" and "\<And>i. i < 4 \<Longrightarrow> board_used (boards ! i) \<Longrightarrow> board_ready (boards ! i)"
    and "ser_before boards 4 \<le> 32"
  shows "\<exists>tb. sunix_assign_resource boards = Inr tb \<and> assigned boards 4 tb"
  using assign_prefix [OF assms(1) _ assms(2,3), of 4] by (simp add: sunix_assign_resource_def)

subsection \<open>What a successful configuration establishes\<close>

definition configured :: "sunix_board list \<Rightarrow> nat \<Rightarrow> conf \<Rightarrow> bool" where
  "configured boards k st \<longleftrightarrow> length (cf_boards st) = 4
     \<and> (\<forall>i<4. sb_board_enum (cf_boards st ! i) = sb_board_enum (boards ! i)
             \<and> sb_pb_info (cf_boards st ! i) = sb_pb_info (boards ! i))
     \<and> (\<forall>i<k. board_used (boards ! i) \<longrightarrow> board_ready (cf_boards st ! i) \<and> sb_irq (cf_boards st ! i) \<noteq> 0)
     \<and> cf_ser_total st = int (ser_before (cf_boards st) k) \<and> cf_ser_total st \<le> 32
     \<and> 0 \<le> cf_par_total st \<and> cf_par_total st \<le> 2"

lemma ser_before_cong:
  "(\<And>i. i < k \<Longrightarrow> boards ! i = boards' ! i) \<Longrightarrow> ser_before boards k = ser_before boards' k"
  by (induction k) auto

lemma conf_board_ok:
  assumes "configured boards k st" and "k < 4" and "length boards = 4"
    and wf: "board_used (boards ! k) \<Longrightarrow> board_wf (sb_pb_info (boards ! k))"
    and step: "conf_board k st = Inr st'"
  shows "configured boards (Suc k) st'"
proof (cases "board_used (boards ! k)")
  case False
  then show ?thesis using assms by (auto simp: configured_def conf_board_def less_Suc_eq)
next
  case True
  let ?sb = "cf_boards st ! k"
  from step True assms(1,2) obtain sb' where st':
    "st' = \<lparr>cf_boards = (cf_boards st)[k := sb'], cf_ser_total = cf_ser_total st + uint (pb_num_serport (sb_pb_info ?sb)),
       cf_par_total = cf_par_total st + uint (pb_num_parport (sb_pb_info ?sb))\<rparr>"
    "cf_ser_total st' \<le> 32" "cf_par_total st' \<le> 2"
    "sb_board_enum sb' = sb_board_enum ?sb" "sb_pb_info sb' = sb_pb_info ?sb" "sb_irq sb' \<noteq> 0"
    "length (sb_bar_addr sb') = 6" "sb_ser_port sb' = pb_num_serport (sb_pb_info ?sb)"
    "sb_par_port sb' = pb_num_parport (sb_pb_info ?sb)"
    by (auto simp: configured_def conf_board_def Let_def split: if_splits option.splits)
  have "ser_before ((cf_boards st)[k := sb']) k = ser_before (cf_boards st) k"
    by (rule ser_before_cong) simp
  then show ?thesis using st' True assms(1,2) wf
    by (auto simp: configured_def board_ready_def less_Suc_eq nth_list_update)
qed

lemma get_conf_ok:
  assumes "sunix_get_pci_board_conf \<lparr>cf_boards = boards, cf_ser_total = 0, cf_par_total = 0\<rparr> = Inr cf"
    and "length boards = 4"
    and wf: "\<And>i. i < 4 \<Longrightarrow> board_used (boards ! i) \<Longrightarrow> board_wf (sb_pb_info (boards ! i))"
  shows "configured boards 4 cf"
proof -
  have "fold_err conf_board [0..<k] \<lparr>cf_boards = boards, cf_ser_total = 0, cf_par_total = 0\<rparr> = Inr st
      \<Longrightarrow> k \<le> 4 \<Longrightarrow> configured boards k st" for k st
  proof (induction k arbitrary: st)
    case 0
    then show ?case using assms(2) by (auto simp: configured_def)
  next
    case (Suc k)
    then obtain s1 where "fold_err conf_board [0..<k] \<lparr>cf_boards = boards, cf_ser_total = 0, cf_par_total = 0\<rparr> = Inr s1"
      "conf_board k s1 = Inr st"
      by (auto simp: fold_err_append split: sum.splits)
    then show ?case using Suc assms(2) wf [of k] by (auto intro: conf_board_ok)
  qed
  then show ?thesis using assms(1) by (simp add: sunix_get_pci_board_conf_def)
qed

text \<open>So once the configuration is read, assigning cannot fail.\<close>

lemma conf_then_assign:
  assumes "sunix_get_pci_board_conf \<lparr>cf_boards = boards, cf_ser_total = 0, cf_par_total = 0\<rparr> = Inr cf"
    and "length boards = 4"
    and "\<And>i. i < 4 \<Longrightarrow> board_used (boards ! i) \<Longrightarrow> board_wf (sb_pb_info (boards ! i))"
  shows "\<exists>tb. sunix_assign_resource (cf_boards cf) = Inr tb \<and> assigned (cf_boards cf) 4 tb"
proof (rule assign_resource_ok)
  note c = get_conf_ok [OF assms]
  show "length (cf_boards cf) = 4" using c by (simp add: configured_def)
  show "board_ready (cf_boards cf ! i)" if "i < 4" "board_used (cf_boards cf ! i)" for i
    using c that by (auto simp: configured_def)
  show "ser_before (cf_boards cf) 4 \<le> 32" using c by (simp add: configured_def)
qed

text \<open>The boards the probe has found are rows of the device table.\<close>

lemma table_boards_wf:
  assumes "board_table_ok D st" and "i < 4" and "board_used (pr_boards st ! i)"
  shows "board_wf (sb_pb_info (pr_boards st ! i))"
proof -
  have "i < pr_boardcnt st" using assms by (cases "i < pr_boardcnt st") (auto simp: board_table_ok_def)
  with assms(1) obtain n where "n < 50" "sb_board_enum (pr_boards st ! i) = int n"
    "sb_pb_info (pr_boards st ! i) = snx_pci_board_conf ! n"
    unfolding board_table_ok_def entry_ok_def by blast
  with assms(3) show ?thesis using board_wf_row [of n] by simp
qed

subsection \<open>Property\<close>

text \<open>
  C21. Once reading the configuration has succeeded on the board table of a probe, assigning
  resources cannot fail and never leaves an array: every used board gets its own consecutive block of
  at most 32 entries of the serial table, blocks of different boards do not overlap, and port
  \<open>j\<close> of a board gets the address (bar plus offset) and chip that the device table says.
\<close>

theorem assigned_ports_placed:
  assumes "sunix_get_pci_board_conf \<lparr>cf_boards = pr_boards st, cf_ser_total = 0, cf_par_total = 0\<rparr> = Inr cf"
    and "board_table_ok D st"
  shows "\<exists>tb. sunix_assign_resource (cf_boards cf) = Inr tb \<and> ser_before (cf_boards cf) 4 \<le> 32
    \<and> (\<forall>i<4. board_used (cf_boards cf ! i) \<longrightarrow>
         (\<forall>i'<4. i < i' \<longrightarrow> ser_before (cf_boards cf) i + unat (sb_ser_port (cf_boards cf ! i)) \<le> ser_before (cf_boards cf) i')
       \<and> (\<forall>j<unat (sb_ser_port (cf_boards cf ! i)).
            placed (cf_boards cf ! i) j (tb_ser tb ! (ser_before (cf_boards cf) i + j))
          \<and> sb_ser_port_index (tb_boards tb ! i) = of_nat (ser_before (cf_boards cf) i)))"
proof -
  have len: "length (pr_boards st) = 4" using assms(2) by (simp add: board_table_ok_def)
  note wf = table_boards_wf [OF assms(2)]
  obtain tb where tb: "sunix_assign_resource (cf_boards cf) = Inr tb" "assigned (cf_boards cf) 4 tb"
    using conf_then_assign [OF assms(1) len wf] by blast
  have "ser_before (cf_boards cf) 4 \<le> 32" using get_conf_ok [OF assms(1) len wf] by (simp add: configured_def)
  moreover have "ser_before (cf_boards cf) i + unat (sb_ser_port (cf_boards cf ! i)) \<le> ser_before (cf_boards cf) i'"
    if "board_used (cf_boards cf ! i)" "i < i'" for i i'
    using ser_before_mono [of "Suc i" i' "cf_boards cf"] that by simp
  ultimately show ?thesis using tb by (auto simp: assigned_def)
qed

lemma golden_board_table: "board_table_ok {golden_dev} (with_board 1 golden_dev m)"
proof -
  have "board_table_ok {golden_dev} (with_board 1 golden_dev m) \<and> pr_boardcnt (with_board 1 golden_dev m) = Suc (pr_boardcnt (probe_init m))"
    by (rule add_board_ok [OF board_table_ok_init _ _ _ _ add_board_init]) (simp_all add: golden_dev_subdev)
  then show ?thesis ..
qed

definition golden_conf :: "res_error + conf" where
  "golden_conf = sunix_get_pci_board_conf
     \<lparr>cf_boards = pr_boards (with_board 1 golden_dev idle_machine), cf_ser_total = 0, cf_par_total = 0\<rparr>"

lemma golden_conf_ok: "case golden_conf of Inl e \<Rightarrow> False | Inr cf \<Rightarrow> cf_ser_total cf = 1"
  by code_simp

theorem assigned_ports_placed_witness:
  "\<exists>cf tb. golden_conf = Inr cf \<and> sunix_assign_resource (cf_boards cf) = Inr tb"
proof -
  obtain cf where "golden_conf = Inr cf" using golden_conf_ok by (auto split: sum.splits)
  then show ?thesis using assigned_ports_placed [OF _ golden_board_table] unfolding golden_conf_def by blast
qed

end
