(* ===== verification/Snx_Uart.thy ===== *)
theory Snx_Uart
  imports Snx_Resources
begin

text \<open>
  The register level of a serial port (driver/snx_serial.c): the \<open>READ_*\<close> and \<open>WRITE_*\<close>
  accessors, modem control, starting and stopping the transmitter, start-up and shut-down of the
  chip, and programming it from a termios. The register numbers and bits are those of the
  kernel's linux/serial_reg.h, the termios and TIOCM bits those of its asm-generic headers.
  A function that changes the port returns it; one that would divide by zero returns \<open>None\<close>.
\<close>

section \<open>The UART\<close>

subsection \<open>Registers and bits\<close>

abbreviation (input) UART_RX :: u32 where "UART_RX \<equiv> 0"
abbreviation (input) UART_TX :: u32 where "UART_TX \<equiv> 0"
abbreviation (input) UART_IER :: u32 where "UART_IER \<equiv> 1"
abbreviation (input) UART_IIR :: u32 where "UART_IIR \<equiv> 2"
abbreviation (input) UART_FCR :: u32 where "UART_FCR \<equiv> 2"
abbreviation (input) UART_LCR :: u32 where "UART_LCR \<equiv> 3"
abbreviation (input) UART_MCR :: u32 where "UART_MCR \<equiv> 4"
abbreviation (input) UART_LSR :: u32 where "UART_LSR \<equiv> 5"
abbreviation (input) UART_MSR :: u32 where "UART_MSR \<equiv> 6"
abbreviation (input) UART_DLL :: u32 where "UART_DLL \<equiv> 0"
abbreviation (input) UART_DLM :: u32 where "UART_DLM \<equiv> 1"

abbreviation (input) UART_IER_MSI :: u8 where "UART_IER_MSI \<equiv> 0x08"
abbreviation (input) UART_IER_RLSI :: u8 where "UART_IER_RLSI \<equiv> 0x04"
abbreviation (input) UART_IER_THRI :: u8 where "UART_IER_THRI \<equiv> 0x02"
abbreviation (input) UART_IER_RDI :: u8 where "UART_IER_RDI \<equiv> 0x01"
abbreviation (input) SUN1699_CLK_DIVIDER_DISABLE :: u8 where "SUN1699_CLK_DIVIDER_DISABLE \<equiv> 0x10"

abbreviation (input) UART_IIR_NO_INT :: u8 where "UART_IIR_NO_INT \<equiv> 0x01"
abbreviation (input) UART_IIR_THRI :: u8 where "UART_IIR_THRI \<equiv> 0x02"
abbreviation (input) UART_IIR_RDI :: u8 where "UART_IIR_RDI \<equiv> 0x04"
abbreviation (input) UART_IIR_RLSI :: u8 where "UART_IIR_RLSI \<equiv> 0x06"
abbreviation (input) UART_IIR_CTO :: u8 where "UART_IIR_CTO \<equiv> 0x0C"

abbreviation (input) UART_FCR_ENABLE_FIFO :: u8 where "UART_FCR_ENABLE_FIFO \<equiv> 0x01"
abbreviation (input) UART_FCR_CLEAR_RCVR :: u8 where "UART_FCR_CLEAR_RCVR \<equiv> 0x02"
abbreviation (input) UART_FCR_CLEAR_XMIT :: u8 where "UART_FCR_CLEAR_XMIT \<equiv> 0x04"
abbreviation (input) UART_FCR_TRIGGER_1 :: u8 where "UART_FCR_TRIGGER_1 \<equiv> 0x00"
abbreviation (input) UART_FCR_TRIGGER_8 :: u8 where "UART_FCR_TRIGGER_8 \<equiv> 0x80"
abbreviation (input) UART_SUN1889_FCR_32BYTE :: u8 where "UART_SUN1889_FCR_32BYTE \<equiv> 0x20"
abbreviation (input) UART_SUN1699_FCR_32BYTE :: u8 where "UART_SUN1699_FCR_32BYTE \<equiv> 0x20"
abbreviation (input) UART_SUNMATX_FCR_64BYTE :: u8 where "UART_SUNMATX_FCR_64BYTE \<equiv> 0x20"
abbreviation (input) UART_SUN1999_FCR_128BYTE :: u8 where "UART_SUN1999_FCR_128BYTE \<equiv> 0x20"
abbreviation (input) UART_DEFAULT_FCR :: u8 where "UART_DEFAULT_FCR \<equiv> 0x00"

abbreviation (input) UART_LCR_DLAB :: u8 where "UART_LCR_DLAB \<equiv> 0x80"
abbreviation (input) UART_LCR_SBC :: u8 where "UART_LCR_SBC \<equiv> 0x40"
abbreviation (input) UART_LCR_SPAR :: u8 where "UART_LCR_SPAR \<equiv> 0x20"
abbreviation (input) UART_LCR_EPAR :: u8 where "UART_LCR_EPAR \<equiv> 0x10"
abbreviation (input) UART_LCR_PARITY :: u8 where "UART_LCR_PARITY \<equiv> 0x08"
abbreviation (input) UART_LCR_WLEN8 :: u8 where "UART_LCR_WLEN8 \<equiv> 0x03"

abbreviation (input) UART_MCR_DTR :: u8 where "UART_MCR_DTR \<equiv> 0x01"
abbreviation (input) UART_MCR_RTS :: u8 where "UART_MCR_RTS \<equiv> 0x02"
abbreviation (input) UART_MCR_OUT1 :: u8 where "UART_MCR_OUT1 \<equiv> 0x04"
abbreviation (input) UART_MCR_OUT2 :: u8 where "UART_MCR_OUT2 \<equiv> 0x08"
abbreviation (input) UART_MCR_LOOP :: u8 where "UART_MCR_LOOP \<equiv> 0x10"
abbreviation (input) UART_MCR_AFE :: u8 where "UART_MCR_AFE \<equiv> 0x20"

abbreviation (input) UART_LSR_TEMT :: u8 where "UART_LSR_TEMT \<equiv> 0x40"
abbreviation (input) UART_LSR_THRE :: u8 where "UART_LSR_THRE \<equiv> 0x20"
abbreviation (input) UART_LSR_BI :: u8 where "UART_LSR_BI \<equiv> 0x10"
abbreviation (input) UART_LSR_FE :: u8 where "UART_LSR_FE \<equiv> 0x08"
abbreviation (input) UART_LSR_PE :: u8 where "UART_LSR_PE \<equiv> 0x04"
abbreviation (input) UART_LSR_OE :: u8 where "UART_LSR_OE \<equiv> 0x02"
abbreviation (input) UART_LSR_DR :: u8 where "UART_LSR_DR \<equiv> 0x01"

abbreviation (input) UART_MSR_DCD :: u8 where "UART_MSR_DCD \<equiv> 0x80"
abbreviation (input) UART_MSR_RI :: u8 where "UART_MSR_RI \<equiv> 0x40"
abbreviation (input) UART_MSR_DSR :: u8 where "UART_MSR_DSR \<equiv> 0x20"
abbreviation (input) UART_MSR_CTS :: u8 where "UART_MSR_CTS \<equiv> 0x10"
abbreviation (input) UART_MSR_DDCD :: u8 where "UART_MSR_DDCD \<equiv> 0x08"
abbreviation (input) UART_MSR_TERI :: u8 where "UART_MSR_TERI \<equiv> 0x04"
abbreviation (input) UART_MSR_DDSR :: u8 where "UART_MSR_DDSR \<equiv> 0x02"
abbreviation (input) UART_MSR_DCTS :: u8 where "UART_MSR_DCTS \<equiv> 0x01"
abbreviation (input) UART_MSR_ANY_DELTA :: u8 where "UART_MSR_ANY_DELTA \<equiv> 0x0F"

abbreviation (input) TIOCM_DTR :: u32 where "TIOCM_DTR \<equiv> 0x002"
abbreviation (input) TIOCM_RTS :: u32 where "TIOCM_RTS \<equiv> 0x004"
abbreviation (input) TIOCM_CTS :: u32 where "TIOCM_CTS \<equiv> 0x020"
abbreviation (input) TIOCM_CAR :: u32 where "TIOCM_CAR \<equiv> 0x040"
abbreviation (input) TIOCM_RNG :: u32 where "TIOCM_RNG \<equiv> 0x080"
abbreviation (input) TIOCM_DSR :: u32 where "TIOCM_DSR \<equiv> 0x100"
abbreviation (input) TIOCM_OUT1 :: u32 where "TIOCM_OUT1 \<equiv> 0x2000"
abbreviation (input) TIOCM_OUT2 :: u32 where "TIOCM_OUT2 \<equiv> 0x4000"
abbreviation (input) TIOCM_LOOP :: u32 where "TIOCM_LOOP \<equiv> 0x8000"
abbreviation (input) TIOCSER_TEMT :: u32 where "TIOCSER_TEMT \<equiv> 0x01"

abbreviation (input) CBAUD :: u32 where "CBAUD \<equiv> 0x100f"
abbreviation (input) CBAUDEX :: u32 where "CBAUDEX \<equiv> 0x1000"
abbreviation (input) CSIZE :: u32 where "CSIZE \<equiv> 0x30"
abbreviation (input) CS5 :: u32 where "CS5 \<equiv> 0x00"
abbreviation (input) CS6 :: u32 where "CS6 \<equiv> 0x10"
abbreviation (input) CS7 :: u32 where "CS7 \<equiv> 0x20"
abbreviation (input) CSTOPB :: u32 where "CSTOPB \<equiv> 0x40"
abbreviation (input) CREAD :: u32 where "CREAD \<equiv> 0x80"
abbreviation (input) PARENB :: u32 where "PARENB \<equiv> 0x100"
abbreviation (input) PARODD :: u32 where "PARODD \<equiv> 0x200"
abbreviation (input) HUPCL :: u32 where "HUPCL \<equiv> 0x400"
abbreviation (input) CLOCAL :: u32 where "CLOCAL \<equiv> 0x800"
abbreviation (input) CMSPAR :: u32 where "CMSPAR \<equiv> 0x40000000"
abbreviation (input) CRTSCTS :: u32 where "CRTSCTS \<equiv> 0x80000000"
abbreviation (input) B9600 :: u32 where "B9600 \<equiv> 0x0d"
abbreviation (input) IGNBRK :: u32 where "IGNBRK \<equiv> 0x01"
abbreviation (input) BRKINT :: u32 where "BRKINT \<equiv> 0x02"
abbreviation (input) IGNPAR :: u32 where "IGNPAR \<equiv> 0x04"
abbreviation (input) PARMRK :: u32 where "PARMRK \<equiv> 0x08"
abbreviation (input) INPCK :: u32 where "INPCK \<equiv> 0x10"
abbreviation (input) IXON :: u32 where "IXON \<equiv> 0x400"
abbreviation (input) IXOFF :: u32 where "IXOFF \<equiv> 0x1000"

abbreviation (input) UART_CLEAR_FIFO :: u32 where "UART_CLEAR_FIFO \<equiv> 0x01"
abbreviation (input) UART_USE_FIFO :: u32 where "UART_USE_FIFO \<equiv> 0x02"
abbreviation (input) PORT_UNKNOWN :: u32 where "PORT_UNKNOWN \<equiv> 0"

abbreviation (input) SNX_UPF_SAK :: u32 where "SNX_UPF_SAK \<equiv> 0x4"
abbreviation (input) SNX_UPF_SPD_MASK :: u32 where "SNX_UPF_SPD_MASK \<equiv> 0x1030"
abbreviation (input) SNX_UPF_SPD_HI :: u32 where "SNX_UPF_SPD_HI \<equiv> 0x0010"
abbreviation (input) SNX_UPF_SPD_VHI :: u32 where "SNX_UPF_SPD_VHI \<equiv> 0x0020"
abbreviation (input) SNX_UPF_SPD_CUST :: u32 where "SNX_UPF_SPD_CUST \<equiv> 0x0030"
abbreviation (input) SNX_UPF_SPD_SHI :: u32 where "SNX_UPF_SPD_SHI \<equiv> 0x1000"
abbreviation (input) SNX_UPF_SPD_WARP :: u32 where "SNX_UPF_SPD_WARP \<equiv> 0x1010"
abbreviation (input) SNX_UPF_HARDPPS_CD :: u32 where "SNX_UPF_HARDPPS_CD \<equiv> 0x800"
abbreviation (input) SNX_UPF_LOW_LATENCY :: u32 where "SNX_UPF_LOW_LATENCY \<equiv> 0x2000"
abbreviation (input) SNX_UPF_BUGGY_UART :: u32 where "SNX_UPF_BUGGY_UART \<equiv> 0x4000"
abbreviation (input) SNX_UPF_MAGIC_MULTIPLIER :: u32 where "SNX_UPF_MAGIC_MULTIPLIER \<equiv> 0x10000"
abbreviation (input) SNX_UPF_CHANGE_MASK :: u32 where "SNX_UPF_CHANGE_MASK \<equiv> 0x17fff"
abbreviation (input) SNX_UPF_USR_MASK :: u32 where "SNX_UPF_USR_MASK \<equiv> 0x3030"
abbreviation (input) SNX_UIF_CHECK_CD :: u32 where "SNX_UIF_CHECK_CD \<equiv> 0x2000000"
abbreviation (input) SNX_UIF_CTS_FLOW :: u32 where "SNX_UIF_CTS_FLOW \<equiv> 0x4000000"
abbreviation (input) SNX_UIF_NORMAL_ACTIVE :: u32 where "SNX_UIF_NORMAL_ACTIVE \<equiv> 0x20000000"
abbreviation (input) SNX_UIF_INITIALIZED :: u32 where "SNX_UIF_INITIALIZED \<equiv> 0x80000000"

text \<open>C's test of a masked value.\<close>

abbreviation (input) has :: "'a::len word \<Rightarrow> 'a word \<Rightarrow> bool" where
  "has x m \<equiv> x AND m \<noteq> 0"

subsection \<open>Register access\<close>

definition uart_addr :: "sunix_ser_port \<Rightarrow> u32 \<Rightarrow> ioaddr" where
  "uart_addr sp r = ucast (sp_iobase sp + r)"

definition uart_read :: "u32 \<Rightarrow> sunix_ser_port \<Rightarrow> machine \<Rightarrow> u8 \<times> machine" where
  "uart_read r sp m = (if sp_iobase sp \<noteq> 0 then inb (uart_addr sp r) m else (0, m))"

definition uart_write :: "u32 \<Rightarrow> sunix_ser_port \<Rightarrow> u8 \<Rightarrow> machine \<Rightarrow> machine" where
  "uart_write r sp v m = (if sp_iobase sp \<noteq> 0 then outb v (uart_addr sp r) m else m)"

definition READ_UART_RX :: "sunix_ser_port \<Rightarrow> machine \<Rightarrow> u8 \<times> machine" where
  "READ_UART_RX sp m = uart_read UART_RX sp m"

definition WRITE_UART_TX :: "sunix_ser_port \<Rightarrow> u8 \<Rightarrow> machine \<Rightarrow> machine" where
  "WRITE_UART_TX sp v m = uart_write UART_TX sp v m"

definition WRITE_UART_IER :: "sunix_ser_port \<Rightarrow> u8 \<Rightarrow> machine \<Rightarrow> machine" where
  "WRITE_UART_IER sp v m = uart_write UART_IER sp v m"

definition READ_UART_IIR :: "sunix_ser_port \<Rightarrow> machine \<Rightarrow> u8 \<times> machine" where
  "READ_UART_IIR sp m = uart_read UART_IIR sp m"

definition WRITE_UART_FCR :: "sunix_ser_port \<Rightarrow> u8 \<Rightarrow> machine \<Rightarrow> machine" where
  "WRITE_UART_FCR sp v m = uart_write UART_FCR sp v m"

definition READ_UART_LCR :: "sunix_ser_port \<Rightarrow> machine \<Rightarrow> u8 \<times> machine" where
  "READ_UART_LCR sp m = uart_read UART_LCR sp m"

definition WRITE_UART_LCR :: "sunix_ser_port \<Rightarrow> u8 \<Rightarrow> machine \<Rightarrow> machine" where
  "WRITE_UART_LCR sp v m = uart_write UART_LCR sp v m"

definition WRITE_UART_MCR :: "sunix_ser_port \<Rightarrow> u8 \<Rightarrow> machine \<Rightarrow> machine" where
  "WRITE_UART_MCR sp v m = uart_write UART_MCR sp v m"

definition READ_UART_LSR :: "sunix_ser_port \<Rightarrow> machine \<Rightarrow> u8 \<times> machine" where
  "READ_UART_LSR sp m = uart_read UART_LSR sp m"

definition READ_UART_MSR :: "sunix_ser_port \<Rightarrow> machine \<Rightarrow> u8 \<times> machine" where
  "READ_UART_MSR sp m = uart_read UART_MSR sp m"

text \<open>The divisor latch takes an \<^verbatim>\<open>int\<close>; \<^verbatim>\<open>outb\<close> writes its low byte.\<close>

definition WRITE_UART_DLL :: "sunix_ser_port \<Rightarrow> u32 \<Rightarrow> machine \<Rightarrow> machine" where
  "WRITE_UART_DLL sp v m = uart_write UART_DLL sp (ucast v) m"

definition WRITE_UART_DLM :: "sunix_ser_port \<Rightarrow> u32 \<Rightarrow> machine \<Rightarrow> machine" where
  "WRITE_UART_DLM sp v m = uart_write UART_DLM sp (ucast v) m"

definition READ_INTERRUPT_VECTOR_BYTE :: "sunix_ser_port \<Rightarrow> machine \<Rightarrow> u8 \<times> machine" where
  "READ_INTERRUPT_VECTOR_BYTE sp m = (if sp_vector sp \<noteq> 0 then inb (ucast (sp_vector sp)) m else (0, m))"

definition READ_INTERRUPT_VECTOR_WORD :: "sunix_ser_port \<Rightarrow> machine \<Rightarrow> u32 \<times> machine" where
  "READ_INTERRUPT_VECTOR_WORD sp m =
    (if sp_vector sp \<noteq> 0 then
      (let (vet1, m1) = inb (ucast (sp_vector sp)) m;
           (vet2, m2) = inb (ucast (sp_vector sp + 1)) m1
       in (ucast vet1 OR push_bit 8 (ucast vet2), m2))
     else (0, m))"

text \<open>A read that only happens when a bit of \<open>var\<close> is set.\<close>

definition inb_if :: "bool \<Rightarrow> ioaddr \<Rightarrow> machine \<Rightarrow> u8 \<times> machine" where
  "inb_if b a m = (if b then inb a m else (0, m))"

definition READ_1999_INTERRUPT_VECTOR_WORD :: "sunix_board \<Rightarrow> sunix_ser_port \<Rightarrow> machine \<Rightarrow> u32 \<times> machine" where
  "READ_1999_INTERRUPT_VECTOR_WORD sb sp m =
    (if sp_vector sp \<noteq> 0 then
      (let (vet1, m1) = inb (ucast (sp_vector sp)) m;
           (var, m2) = inb (ucast (sp_vector sp + 1)) m1;
           local_vector = sb_bar_addr sb ! 1;
           (vet2, m3) = inb_if (has var 0x01) (ucast (local_vector + 0x30)) m2;
           (vet3, m4) = inb_if (has var 0x02) (ucast (local_vector + 0x70)) m3;
           (vet4, m5) = inb_if (has var 0x04) (ucast (local_vector + 0xb0)) m4
       in (ucast vet1 OR push_bit 4 (ucast vet2) OR push_bit 8 (ucast vet3) OR push_bit 12 (ucast vet4), m5))
     else (0, m))"

subsection \<open>Modem control\<close>

definition mcr_if :: "bool \<Rightarrow> u8 \<Rightarrow> u8 \<Rightarrow> u8" where
  "mcr_if b v mcr = (if b then mcr OR v else mcr)"

text \<open>
  A SUN1999 port in RS-422 mode (AHDC 0, RS422 1) or RS-485 mode (AHDC 1, RS422 0) has no
  handshake lines; both are decided by the two mode bits read at start.
\<close>

definition rs422_485 :: "sunix_ser_port \<Rightarrow> bool" where
  "rs422_485 sp \<longleftrightarrow> pb_sub_vendor_id (sp_pb_info sp) = SUBVENID_SUN1999
     \<and> (sp_AHDC_State sp = 0 \<and> sp_RS422_State sp = 1 \<or> sp_AHDC_State sp = 1 \<and> sp_RS422_State sp = 0)"

definition mctrl_bits :: "sunix_ser_port \<Rightarrow> u32 \<Rightarrow> u8" where
  "mctrl_bits sp mctrl =
    (let lines = (if rs422_485 sp then 0
                  else mcr_if (has mctrl TIOCM_DTR) UART_MCR_DTR (mcr_if (has mctrl TIOCM_RTS) UART_MCR_RTS 0));
         mcr = mcr_if (has mctrl TIOCM_LOOP) UART_MCR_LOOP
                 (mcr_if (has mctrl TIOCM_OUT2) UART_MCR_OUT2
                   (mcr_if (has mctrl TIOCM_OUT1) UART_MCR_OUT1 lines))
     in (mcr AND sp_mcr_mask sp) OR sp_mcr_force sp OR sp_mcr sp)"

definition sunix_ser_set_mctrl :: "sunix_ser_port \<Rightarrow> u32 \<Rightarrow> machine \<Rightarrow> machine" where
  "sunix_ser_set_mctrl sp mctrl m = WRITE_UART_MCR sp (mctrl_bits sp mctrl) m"

definition sunix_ser_tx_empty :: "sunix_ser_port \<Rightarrow> machine \<Rightarrow> u32 \<times> machine" where
  "sunix_ser_tx_empty sp m =
    (let (lsr, m1) = READ_UART_LSR sp m in (if has lsr UART_LSR_TEMT then TIOCSER_TEMT else 0, m1))"

definition msr_lines :: "u8 \<Rightarrow> u32" where
  "msr_lines status =
     (if has status UART_MSR_DCD then TIOCM_CAR else 0) OR (if has status UART_MSR_RI then TIOCM_RNG else 0)
     OR (if has status UART_MSR_DSR then TIOCM_DSR else 0) OR (if has status UART_MSR_CTS then TIOCM_CTS else 0)"

definition sunix_ser_get_mctrl :: "sunix_ser_port \<Rightarrow> machine \<Rightarrow> u32 \<times> machine" where
  "sunix_ser_get_mctrl sp m =
    (let (status, m1) = READ_UART_MSR sp m in (if rs422_485 sp then 0 else msr_lines status, m1))"

definition snx_ser_update_mctrl :: "sunix_ser_port \<Rightarrow> u32 \<Rightarrow> u32 \<Rightarrow> machine \<Rightarrow> sunix_ser_port \<times> machine" where
  "snx_ser_update_mctrl sp sets clear m =
    (let old = sp_mctrl sp; sp1 = sp\<lparr>sp_mctrl := (old AND NOT clear) OR sets\<rparr>
     in (sp1, if old \<noteq> sp_mctrl sp1 then sunix_ser_set_mctrl sp1 (sp_mctrl sp1) m else m))"

subsection \<open>Interrupt enables\<close>

definition sunix_ser_stop_tx :: "sunix_ser_port \<Rightarrow> machine \<Rightarrow> sunix_ser_port \<times> machine" where
  "sunix_ser_stop_tx sp m =
    (if has (sp_ier sp) UART_IER_THRI then
      (let sp1 = sp\<lparr>sp_ier := sp_ier sp AND NOT UART_IER_THRI\<rparr> in (sp1, WRITE_UART_IER sp1 (sp_ier sp1) m))
     else (sp, m))"

definition sunix_ser_start_tx :: "sunix_ser_port \<Rightarrow> machine \<Rightarrow> sunix_ser_port \<times> machine" where
  "sunix_ser_start_tx sp m =
    (if \<not> has (sp_ier sp) UART_IER_THRI then
      (let sp1 = sp\<lparr>sp_ier := sp_ier sp OR UART_IER_THRI\<rparr> in (sp1, WRITE_UART_IER sp1 (sp_ier sp1) m))
     else (sp, m))"

definition sunix_ser_stop_rx :: "sunix_ser_port \<Rightarrow> machine \<Rightarrow> sunix_ser_port \<times> machine" where
  "sunix_ser_stop_rx sp m =
    (let sp1 = sp\<lparr>sp_ier := sp_ier sp AND NOT UART_IER_RLSI,
                  sp_read_status_mask := sp_read_status_mask sp AND NOT (ucast UART_LSR_DR)\<rparr>
     in (sp1, WRITE_UART_IER sp1 (sp_ier sp1) m))"

definition sunix_ser_enable_ms :: "sunix_ser_port \<Rightarrow> machine \<Rightarrow> sunix_ser_port \<times> machine" where
  "sunix_ser_enable_ms sp m =
    (let sp1 = sp\<lparr>sp_ier := sp_ier sp OR UART_IER_MSI\<rparr> in (sp1, WRITE_UART_IER sp1 (sp_ier sp1) m))"

definition sunix_ser_break_ctl :: "sunix_ser_port \<Rightarrow> int \<Rightarrow> machine \<Rightarrow> sunix_ser_port \<times> machine" where
  "sunix_ser_break_ctl sp break_state m =
    (let sp1 = sp\<lparr>sp_lcr := (if break_state = -1 then sp_lcr sp OR UART_LCR_SBC
                             else sp_lcr sp AND NOT UART_LCR_SBC)\<rparr>
     in (sp1, WRITE_UART_LCR sp1 (sp_lcr sp1) m))"

subsection \<open>Start-up and shut-down of the chip\<close>

text \<open>The capability flags of \<open>snx_uart_config\<close>, by port type 0 to 8.\<close>

definition snx_uart_config :: "u32 list" where
  "snx_uart_config = [0, 0, 0, 0, UART_CLEAR_FIFO OR UART_USE_FIFO, 0, 0,
     UART_CLEAR_FIFO OR UART_USE_FIFO, UART_CLEAR_FIFO OR UART_USE_FIFO]"

definition clear_fifos :: "sunix_ser_port \<Rightarrow> machine \<Rightarrow> machine" where
  "clear_fifos sp m =
    (if has (sp_capabilities sp) UART_CLEAR_FIFO then
      WRITE_UART_FCR sp 0
       (WRITE_UART_FCR sp (UART_FCR_ENABLE_FIFO OR UART_FCR_CLEAR_RCVR OR UART_FCR_CLEAR_XMIT)
         (WRITE_UART_FCR sp UART_FCR_ENABLE_FIFO m))
     else m)"

definition drain :: "sunix_ser_port \<Rightarrow> machine \<Rightarrow> machine" where
  "drain sp m = snd (READ_UART_MSR sp (snd (READ_UART_IIR sp (snd (READ_UART_RX sp (snd (READ_UART_LSR sp m)))))))"

text \<open>\<open>None\<close> is the read of \<open>snx_uart_config\<close> past its end, for a port type above 8.\<close>

definition sunix_ser_startup :: "sunix_ser_port \<Rightarrow> machine \<Rightarrow> (int \<times> sunix_ser_port \<times> machine) option" where
  "sunix_ser_startup sp m =
    (if unat (sp_type sp) \<ge> length snx_uart_config then None
     else
      (let sp1 = sp\<lparr>sp_capabilities := snx_uart_config ! unat (sp_type sp), sp_mcr := 0\<rparr>;
           m1 = drain sp1 (clear_fifos sp1 m);
           (dead, m2) = (if \<not> has (sp_flags sp1) SNX_UPF_BUGGY_UART
                         then let (lsr, m2) = READ_UART_LSR sp1 m1 in (lsr = 0xff, m2) else (False, m1))
       in
        if dead then Some (- ENODEV, sp1, m2)
        else
         (let m3 = WRITE_UART_LCR sp1 UART_LCR_WLEN8 m2;
              sp2 = sp1\<lparr>sp_ier := (if sp_snx_type sp1 = SNX_SER_PORT_SUN1699
                                   then UART_IER_RLSI OR UART_IER_RDI OR SUN1699_CLK_DIVIDER_DISABLE
                                   else UART_IER_RLSI OR UART_IER_RDI)\<rparr>;
              m4 = WRITE_UART_IER sp2 (sp_ier sp2) m3
          in Some (0, sp2, drain sp2 m4))))"

definition sunix_ser_shutdown :: "sunix_ser_port \<Rightarrow> machine \<Rightarrow> sunix_ser_port \<times> machine" where
  "sunix_ser_shutdown sp m =
    (let sp1 = sp\<lparr>sp_ier := 0\<rparr>;
         m1 = WRITE_UART_IER sp1 0 m;
         (lcr, m2) = READ_UART_LCR sp1 m1;
         m3 = WRITE_UART_LCR sp1 (lcr AND NOT UART_LCR_SBC) m2;
         m4 = WRITE_UART_FCR sp1 (UART_FCR_ENABLE_FIFO OR UART_FCR_CLEAR_RCVR OR UART_FCR_CLEAR_XMIT) m3;
         m5 = WRITE_UART_FCR sp1 0 m4
     in (sp1, snd (READ_UART_RX sp1 m5)))"

subsection \<open>Speed\<close>

text \<open>
  The two fields of a termios the driver reads; \<open>snx_ser_get_baud_rate\<close> writes the first one back.
  \<open>HZ\<close>, the kernel's tick rate, is a parameter.
\<close>

record ktermios =
  tm_cflag :: u32
  tm_iflag :: u32

definition snx_ser_get_divisor :: "sunix_ser_port \<Rightarrow> u32 \<Rightarrow> u32 option" where
  "snx_ser_get_divisor sp baud =
    (if baud = 38400 \<and> sp_flags sp AND SNX_UPF_SPD_MASK = SNX_UPF_SPD_CUST then Some (sp_custom_divisor sp)
     else if 16 * baud = 0 then None
     else Some (sp_uartclk sp div (16 * baud)))"

text \<open>The rate a \<^verbatim>\<open>setserial\<close> speed flag stands for.\<close>

definition spd_baud :: "u32 \<Rightarrow> u32" where
  "spd_baud flags =
    (if flags = SNX_UPF_SPD_WARP then 460800
     else if flags = SNX_UPF_SPD_SHI then 230400
     else if flags = SNX_UPF_SPD_VHI then 115200
     else if flags = SNX_UPF_SPD_HI then 57600
     else 38400)"

text \<open>The rate the speed bits of a termios stand for; one the switch does not list is 9600.\<close>

definition baud_table :: "(u32 \<times> u32) list" where
  "baud_table = [(0x1007, 921600), (0x1004, 460800), (0x1003, 230400), (0x1002, 115200), (0x1001, 57600),
     (0x0f, 38400), (0x0e, 19200), (0x0d, 9600), (0x0c, 4800), (0x0b, 2400), (0x0a, 1800), (0x09, 1200),
     (0x08, 600), (0x07, 300), (0x06, 200), (0x05, 150), (0x04, 134), (0x03, 110), (0x02, 75), (0x01, 50)]"

definition cflag_baud :: "u32 \<Rightarrow> u32" where
  "cflag_baud cflag = (case map_of baud_table (cflag AND (CBAUD OR CBAUDEX)) of None \<Rightarrow> 9600 | Some b \<Rightarrow> b)"

definition try_baud :: "sunix_ser_port \<Rightarrow> u32 \<Rightarrow> u32" where
  "try_baud sp cflag =
    (let flags = sp_flags sp AND SNX_UPF_SPD_MASK;
         baud = (if sp_setserial_flag sp = SNX_SER_BAUD_SETSERIAL \<or> flags \<noteq> 0 then spd_baud flags else cflag_baud cflag)
     in if baud = 0 then 9600 else baud)"

text \<open>\<open>n\<close> is the number of tries left; the result is the rate and the termios as it is left.\<close>

fun baud_tries :: "nat \<Rightarrow> sunix_ser_port \<Rightarrow> ktermios \<Rightarrow> ktermios option \<Rightarrow> u32 \<Rightarrow> u32 \<Rightarrow> u32 \<times> ktermios" where
  "baud_tries 0 sp tm old mn mx = (0, tm)"
| "baud_tries (Suc n) sp tm old mn mx =
    (let baud = try_baud sp (tm_cflag tm) in
     if mn \<le> baud \<and> baud \<le> mx then (baud, tm)
     else
      (let cflag = tm_cflag tm AND NOT CBAUD in
       case old of
         Some o' \<Rightarrow> baud_tries n sp (tm\<lparr>tm_cflag := cflag OR (tm_cflag o' AND CBAUD)\<rparr>) None mn mx
       | None \<Rightarrow> baud_tries n sp (tm\<lparr>tm_cflag := cflag OR B9600\<rparr>) None mn mx))"

definition snx_ser_get_baud_rate :: "sunix_ser_port \<Rightarrow> ktermios \<Rightarrow> ktermios option \<Rightarrow> u32 \<Rightarrow> u32 \<Rightarrow> u32 \<times> ktermios" where
  "snx_ser_get_baud_rate sp tm old mn mx = baud_tries 2 sp tm old mn mx"

definition sunix_ser_get_divisor :: "sunix_ser_port \<Rightarrow> u32 \<Rightarrow> u32 option" where
  "sunix_ser_get_divisor sp baud =
    (if has (sp_flags sp) SNX_UPF_MAGIC_MULTIPLIER \<and> baud = sp_uartclk sp div 4 then Some 0x8001
     else if has (sp_flags sp) SNX_UPF_MAGIC_MULTIPLIER \<and> baud = sp_uartclk sp div 8 then Some 0x8002
     else snx_ser_get_divisor sp baud)"

definition frame_bits :: "u32 \<Rightarrow> u32" where
  "frame_bits cflag =
    (let size = cflag AND CSIZE;
         bits = (if size = CS5 then 7 else if size = CS6 then 8 else if size = CS7 then 9 else 10)
     in bits + (if has cflag CSTOPB then 1 else 0) + (if has cflag PARENB then 1 else 0))"

definition snx_ser_update_timeout :: "u32 \<Rightarrow> sunix_ser_port \<Rightarrow> u32 \<Rightarrow> u32 \<Rightarrow> sunix_ser_port option" where
  "snx_ser_update_timeout HZ sp cflag baud =
    (if baud = 0 then None
     else Some (sp\<lparr>sp_timeout := (HZ * (frame_bits cflag * ucast (sp_fifosize sp))) div baud + HZ div 50\<rparr>))"

subsection \<open>Programming the chip from a termios\<close>

definition or_if :: "bool \<Rightarrow> 'a::len word \<Rightarrow> 'a word \<Rightarrow> 'a word" where
  "or_if b v x = (if b then x OR v else x)"

definition termios_lcr :: "u32 \<Rightarrow> u8" where
  "termios_lcr cflag =
    (let size = cflag AND CSIZE;
         cval = (if size = CS5 then 0x00 else if size = CS6 then 0x01 else if size = CS7 then 0x02 else 0x03)
     in or_if (has cflag CMSPAR) UART_LCR_SPAR
         (or_if (\<not> has cflag PARODD) UART_LCR_EPAR
           (or_if (has cflag PARENB) UART_LCR_PARITY
             (or_if (has cflag CSTOPB) 0x04 cval))))"

definition termios_fcr :: "sunix_ser_port \<Rightarrow> u32 \<Rightarrow> u8" where
  "termios_fcr sp baud =
    (let fcr = (if has (sp_capabilities sp) UART_USE_FIFO
                then if baud < 2400 then UART_FCR_ENABLE_FIFO OR UART_FCR_TRIGGER_1
                     else UART_FCR_ENABLE_FIFO OR UART_FCR_TRIGGER_8
                else 0)
     in fcr OR
        (if sp_snx_type sp = SNX_SER_PORT_SUN1889 then UART_SUN1889_FCR_32BYTE
         else if sp_snx_type sp = SNX_SER_PORT_SUN1699 then UART_SUN1699_FCR_32BYTE
         else if sp_snx_type sp = SNX_SER_PORT_SUNMATX then UART_SUNMATX_FCR_64BYTE
         else if sp_snx_type sp = SNX_SER_PORT_SUN1999 then UART_SUN1999_FCR_128BYTE
         else UART_DEFAULT_FCR))"

definition termios_read_mask :: "u32 \<Rightarrow> u32" where
  "termios_read_mask iflag =
     or_if (has iflag (BRKINT OR PARMRK)) (ucast UART_LSR_BI)
      (or_if (has iflag INPCK) (ucast (UART_LSR_FE OR UART_LSR_PE))
        (ucast (UART_LSR_OE OR UART_LSR_THRE OR UART_LSR_DR)))"

definition termios_ignore_mask :: "u32 \<Rightarrow> u32 \<Rightarrow> u32" where
  "termios_ignore_mask cflag iflag =
     or_if (\<not> has cflag CREAD) (ucast UART_LSR_DR)
      (or_if (has iflag IGNBRK \<and> has iflag IGNPAR) (ucast UART_LSR_OE)
        (or_if (has iflag IGNBRK) (ucast UART_LSR_BI)
          (or_if (has iflag IGNPAR) (ucast (UART_LSR_PE OR UART_LSR_FE)) 0)))"

definition SNX_ENABLE_MS :: "sunix_ser_port \<Rightarrow> u32 \<Rightarrow> bool" where
  "SNX_ENABLE_MS sp cflag \<longleftrightarrow> has (sp_flags sp) SNX_UPF_HARDPPS_CD \<or> has cflag CRTSCTS \<or> \<not> has cflag CLOCAL"

definition sunix_ser_set_termios :: "u32 \<Rightarrow> sunix_ser_port \<Rightarrow> ktermios \<Rightarrow> ktermios option \<Rightarrow> machine
    \<Rightarrow> (ktermios \<times> sunix_ser_port \<times> machine) option" where
  "sunix_ser_set_termios HZ sp tm old m =
    (let cval = termios_lcr (tm_cflag tm);
         (baud, tm1) = snx_ser_get_baud_rate sp tm old 0 (sp_uartclk sp div 16)
     in
      case sunix_ser_get_divisor sp baud of
        None \<Rightarrow> None
      | Some quot \<Rightarrow>
         (let fcr = termios_fcr sp baud;
              sp1 = sp\<lparr>sp_mcr := or_if (has (tm_cflag tm1) CRTSCTS) UART_MCR_AFE (sp_mcr sp AND NOT UART_MCR_AFE)\<rparr>
          in
           case snx_ser_update_timeout HZ sp1 (tm_cflag tm1) baud of
             None \<Rightarrow> None
           | Some sp2 \<Rightarrow>
              (let sp3 = sp2\<lparr>sp_read_status_mask := termios_read_mask (tm_iflag tm1),
                             sp_ignore_status_mask := termios_ignore_mask (tm_cflag tm1) (tm_iflag tm1),
                             sp_ier := or_if (SNX_ENABLE_MS sp2 (tm_cflag tm1)) UART_IER_MSI
                                         (sp_ier sp2 AND NOT UART_IER_MSI)\<rparr>;
                   m1 = WRITE_UART_LCR sp3 (cval OR UART_LCR_DLAB) m;
                   m2 = WRITE_UART_DLL sp3 (quot AND 0xff) m1;
                   m3 = WRITE_UART_DLM sp3 (drop_bit 8 quot) m2;
                   m4 = WRITE_UART_FCR sp3 fcr m3;
                   m5 = WRITE_UART_LCR sp3 cval m4;
                   sp4 = sp3\<lparr>sp_lcr := cval\<rparr>;
                   m6 = sunix_ser_set_mctrl sp4 (sp_mctrl sp4) m5;
                   m7 = WRITE_UART_IER sp4 (sp_ier sp4) m6
               in Some (tm1, sp4, m7))))"

subsection \<open>The registers of one port are different addresses\<close>

lemma ucast_u32_u64_inj: "(ucast (x :: u32) :: u64) = ucast y \<longleftrightarrow> x = y"
  by (metis ucast_ucast_up(3))

lemma uart_addr_inj [simp]: "uart_addr sp r = uart_addr sp s \<longleftrightarrow> r = s"
  by (simp add: uart_addr_def ucast_u32_u64_inj)

lemma uart_addr_cong: "sp_iobase sp' = sp_iobase sp \<Longrightarrow> uart_addr sp' r = uart_addr sp r"
  by (simp add: uart_addr_def)

lemmas uart_access = READ_UART_RX_def WRITE_UART_TX_def WRITE_UART_IER_def READ_UART_IIR_def
  WRITE_UART_FCR_def READ_UART_LCR_def WRITE_UART_LCR_def WRITE_UART_MCR_def READ_UART_LSR_def
  READ_UART_MSR_def WRITE_UART_DLL_def WRITE_UART_DLM_def

lemma outs_at_uart_write [simp]:
  "sp_iobase sp' = sp_iobase sp \<Longrightarrow> outs_at (uart_addr sp r) (trace (uart_write s sp' v m))
     = outs_at (uart_addr sp r) (trace m) @ (if sp_iobase sp \<noteq> 0 \<and> r = s then [v] else [])"
  using uart_addr_cong [of sp' sp] by (simp add: uart_write_def)

lemma outs_at_uart_read [simp]: "outs_at a (trace (snd (uart_read s sp m))) = outs_at a (trace m)"
  by (simp add: uart_read_def)

lemma uart_write_trace:
  "sp_iobase sp \<noteq> 0 \<Longrightarrow> trace (uart_write s sp v m) = trace m @ [Out (uart_addr sp s) v]"
  by (simp add: uart_write_def)

subsection \<open>The rate is sane\<close>

lemma map_of_baud_range: "map_of baud_table k = Some b \<Longrightarrow> 50 \<le> b \<and> b \<le> 921600"
  by (drule map_of_SomeD) (auto simp: baud_table_def)

lemma try_baud_range: "50 \<le> try_baud sp cflag \<and> try_baud sp cflag \<le> 921600"
  using map_of_baud_range [of "cflag AND (CBAUD OR CBAUDEX)"]
  by (auto simp: try_baud_def cflag_baud_def spd_baud_def Let_def split: option.split)

text \<open>With the driver's clock the first try succeeds and the termios is left alone.\<close>

lemma get_baud_rate_first:
  assumes "921600 * 16 \<le> sp_uartclk sp"
  shows "snx_ser_get_baud_rate sp tm old 0 (sp_uartclk sp div 16) = (try_baud sp (tm_cflag tm), tm)"
proof -
  have "921600 \<le> sp_uartclk sp div 16"
    using assms by (simp add: word_le_nat_alt unat_div)
  then have "try_baud sp (tm_cflag tm) \<le> sp_uartclk sp div 16"
    using try_baud_range [of sp "tm_cflag tm"] by (meson order.trans)
  then show ?thesis by (simp add: snx_ser_get_baud_rate_def numeral_2_eq_2)
qed

lemma nat_of_baud:
  "50 \<le> unat (try_baud sp cflag)" "unat (try_baud sp cflag) \<le> 921600"
  using try_baud_range [of sp cflag] by (simp_all add: word_le_nat_alt)

lemma unat_16_baud: "unat (16 * try_baud sp cflag) = 16 * unat (try_baud sp cflag)"
  using nat_of_baud [of sp cflag] by (simp add: unat_word_ariths)

lemma div_16_baud_ok: "16 * try_baud sp cflag \<noteq> 0" "try_baud sp cflag \<noteq> 0"
  using unat_16_baud [of sp cflag] nat_of_baud [of sp cflag] by (auto simp: unat_eq_0 [symmetric] simp del: unat_eq_0)

text \<open>The two latch bytes are the divisor.\<close>

lemma latch_bytes:
  assumes "unat (q :: u32) < 65536"
  shows "unat (ucast (q AND 0xff) :: u8) + 256 * unat (ucast (drop_bit 8 q) :: u8) = unat q"
proof -
  have "take_bit 8 (unat q AND 255) = unat q mod 256"
    using take_bit_eq_mask [of 8 "unat q"] by (simp add: take_bit_eq_mod mask_eq_exp_minus_1)
  then have "unat (ucast (q AND 0xff) :: u8) = unat q mod 256"
    by (simp add: unsigned_ucast_eq unsigned_and_eq)
  moreover have "unat (ucast (drop_bit 8 q) :: u8) = unat q div 256"
  proof -
    have "unat q div 256 < 256" using assms by (simp add: div_less_iff_less_mult)
    then show ?thesis by (simp add: unsigned_ucast_eq take_bit_eq_mod drop_bit_eq_div unat_div)
  qed
  ultimately show ?thesis by simp
qed

text \<open>The frame byte is a proper line control value: divisor latch closed, no break.\<close>

lemma termios_lcr_frame: "termios_lcr cflag AND (UART_LCR_DLAB OR UART_LCR_SBC) = 0"
  by (simp add: termios_lcr_def or_if_def Let_def bit.conj_disj_distrib2)

lemma set_termios_result:
  fixes sp :: sunix_ser_port and tm :: ktermios
  assumes clk: "sp_uartclk sp = 921600 * 16" and io: "sp_iobase sp \<noteq> 0"
    and magic: "\<not> has (sp_flags sp) SNX_UPF_MAGIC_MULTIPLIER" and spd: "sp_flags sp AND SNX_UPF_SPD_MASK = 0"
  defines "baud \<equiv> try_baud sp (tm_cflag tm)" and "cval \<equiv> termios_lcr (tm_cflag tm)"
  shows "\<exists>sp' m' quot. sunix_ser_set_termios HZ sp tm old m = Some (tm, sp', m')
     \<and> trace m' = trace m @ [Out (uart_addr sp UART_LCR) (cval OR UART_LCR_DLAB),
          Out (uart_addr sp UART_DLL) (ucast (quot AND 0xff)), Out (uart_addr sp UART_DLM) (ucast (drop_bit 8 quot)),
          Out (uart_addr sp UART_FCR) (termios_fcr sp baud), Out (uart_addr sp UART_LCR) cval,
          Out (uart_addr sp UART_MCR) (mctrl_bits sp' (sp_mctrl sp)), Out (uart_addr sp UART_IER) (sp_ier sp')]
     \<and> quot = 14745600 div (16 * baud) \<and> sp_lcr sp' = cval \<and> sp_iobase sp' = sp_iobase sp"
proof -
  have r: "snx_ser_get_baud_rate sp tm old 0 (sp_uartclk sp div 16) = (baud, tm)"
    unfolding baud_def using clk by (intro get_baud_rate_first) simp
  have q: "sunix_ser_get_divisor sp baud = Some (14745600 div (16 * baud))"
    using magic spd div_16_baud_ok [of sp "tm_cflag tm"] clk
    by (simp add: sunix_ser_get_divisor_def snx_ser_get_divisor_def baud_def)
  note nz = div_16_baud_ok(2) [of sp "tm_cflag tm", folded baud_def]
  show ?thesis
    using nz io
    by (simp add: sunix_ser_set_termios_def r q snx_ser_update_timeout_def Let_def uart_access uart_write_trace
        sunix_ser_set_mctrl_def uart_addr_def cval_def)
qed

lemma divisor_range:
  "unat (14745600 div (16 * try_baud sp cflag)) = 14745600 div (16 * unat (try_baud sp cflag))"
  "1 \<le> 14745600 div (16 * unat (try_baud sp cflag))" "14745600 div (16 * unat (try_baud sp cflag)) < 65536"
proof -
  let ?b = "unat (try_baud sp cflag)"
  show "unat (14745600 div (16 * try_baud sp cflag)) = 14745600 div (16 * ?b)"
    by (simp add: unat_div unat_16_baud)
  have b: "50 \<le> ?b" "?b \<le> 921600" by (rule nat_of_baud)+
  then have "16 * ?b * 1 \<le> 14745600" by simp
  then show "1 \<le> 14745600 div (16 * ?b)" using b by (simp add: less_eq_div_iff_mult_less_eq)
  show "14745600 div (16 * ?b) < 65536" using b by (simp add: div_less_iff_less_mult)
qed

lemma set_termios_total:
  assumes "921600 * 16 \<le> sp_uartclk sp"
  shows "\<exists>r. sunix_ser_set_termios HZ sp tm old m = Some r"
  using div_16_baud_ok [of sp "tm_cflag tm"]
  by (simp add: sunix_ser_set_termios_def get_baud_rate_first [OF assms] sunix_ser_get_divisor_def
      snx_ser_get_divisor_def snx_ser_update_timeout_def Let_def)

subsection \<open>The driver's copies of the write-only registers\<close>

text \<open>
  IER cannot be read back, so the driver keeps a copy. The copy is the last value written, and
  LCR was last written with the divisor latch closed (with it open, IER would not be
  reachable).
\<close>

definition shadow :: "sunix_ser_port \<Rightarrow> machine \<Rightarrow> bool" where
  "shadow sp m \<longleftrightarrow> sp_iobase sp \<noteq> 0 \<and> sp_lcr sp AND UART_LCR_DLAB = 0
     \<and> (\<exists>ws. outs_at (uart_addr sp UART_IER) (trace m) = ws @ [sp_ier sp])
     \<and> (\<exists>ls l. outs_at (uart_addr sp UART_LCR) (trace m) = ls @ [l] \<and> l AND UART_LCR_DLAB = 0)"

named_theorems shadow_intros "operations that keep the register copies"

lemma shadow_same:
  assumes "sp_iobase sp' = sp_iobase sp" "sp_ier sp' = sp_ier sp" "sp_lcr sp' = sp_lcr sp"
  shows "shadow sp' m \<longleftrightarrow> shadow sp m"
  using assms uart_addr_cong [of sp' sp] by (simp add: shadow_def)

lemma shadow_uart_read [shadow_intros]: "shadow sp m \<Longrightarrow> shadow sp (snd (uart_read r sp' m))"
  by (simp add: shadow_def)

lemma shadow_uart_write [shadow_intros]:
  "r \<noteq> UART_IER \<Longrightarrow> r \<noteq> UART_LCR \<Longrightarrow> shadow sp m \<Longrightarrow> shadow sp (uart_write r sp v m)"
  by (auto simp: shadow_def)

text \<open>Writing IER after changing the copy.\<close>

lemma shadow_write_ier:
  assumes "shadow sp m" "sp_iobase sp' = sp_iobase sp" "sp_lcr sp' = sp_lcr sp" "v = sp_ier sp'"
  shows "shadow sp' (WRITE_UART_IER sp' v m)"
  using assms uart_addr_cong [of sp' sp] by (auto simp: shadow_def uart_access)

lemma shadow_write_lcr:
  assumes "shadow sp m" "sp_iobase sp' = sp_iobase sp" "sp_ier sp' = sp_ier sp"
    and "sp_lcr sp' AND UART_LCR_DLAB = 0" "v = sp_lcr sp'"
  shows "shadow sp' (WRITE_UART_LCR sp' v m)"
  using assms uart_addr_cong [of sp' sp] by (auto simp: shadow_def uart_access)

lemma shadow_stop_tx [shadow_intros]:
  "shadow sp m \<Longrightarrow> shadow (fst (sunix_ser_stop_tx sp m)) (snd (sunix_ser_stop_tx sp m))"
  by (auto simp: sunix_ser_stop_tx_def Let_def intro: shadow_write_ier [of sp])

lemma shadow_start_tx [shadow_intros]:
  "shadow sp m \<Longrightarrow> shadow (fst (sunix_ser_start_tx sp m)) (snd (sunix_ser_start_tx sp m))"
  by (auto simp: sunix_ser_start_tx_def Let_def intro: shadow_write_ier [of sp])

lemma shadow_stop_rx [shadow_intros]:
  "shadow sp m \<Longrightarrow> shadow (fst (sunix_ser_stop_rx sp m)) (snd (sunix_ser_stop_rx sp m))"
  by (auto simp: sunix_ser_stop_rx_def Let_def intro: shadow_write_ier [of sp])

lemma shadow_enable_ms [shadow_intros]:
  "shadow sp m \<Longrightarrow> shadow (fst (sunix_ser_enable_ms sp m)) (snd (sunix_ser_enable_ms sp m))"
  by (auto simp: sunix_ser_enable_ms_def Let_def intro: shadow_write_ier [of sp])

lemma dlab_or_sbc: "x AND UART_LCR_DLAB = 0 \<Longrightarrow> (x OR UART_LCR_SBC) AND UART_LCR_DLAB = (0 :: u8)"
  by (simp add: bit.conj_disj_distrib2)

lemma dlab_and: "x AND UART_LCR_DLAB = 0 \<Longrightarrow> (x AND y) AND UART_LCR_DLAB = (0 :: u8)"
  by (rule and_disjoint)

lemma shadow_break_ctl [shadow_intros]:
  assumes "shadow sp m"
  shows "shadow (fst (sunix_ser_break_ctl sp b m)) (snd (sunix_ser_break_ctl sp b m))"
proof -
  have "sp_lcr sp AND UART_LCR_DLAB = 0" using assms by (simp add: shadow_def)
  then show ?thesis using dlab_or_sbc dlab_and
    by (auto simp: sunix_ser_break_ctl_def Let_def intro!: shadow_write_lcr [OF assms])
qed

lemma shadow_update_mctrl [shadow_intros]:
  assumes "shadow sp m"
  shows "shadow (fst (snx_ser_update_mctrl sp s c m)) (snd (snx_ser_update_mctrl sp s c m))"
proof -
  have "shadow (sp\<lparr>sp_mctrl := v\<rparr>) m" for v using assms by (subst shadow_same) auto
  then show ?thesis using assms
    by (auto simp: snx_ser_update_mctrl_def Let_def sunix_ser_set_mctrl_def uart_access intro: shadow_intros)
qed

text \<open>
  Programming a termios establishes both copies again, whatever the port was.
\<close>

lemma shadow_set_termios:
  assumes "sunix_ser_set_termios HZ sp tm old m = Some (tm', sp', m')" and "sp_iobase sp \<noteq> 0"
  shows "shadow sp' m'"
proof -
  have lcr: "termios_lcr c AND UART_LCR_DLAB = 0" for c
    using termios_lcr_frame [of c] by (simp add: termios_lcr_def or_if_def Let_def bit.conj_disj_distrib2)
  show ?thesis
    using assms lcr
    by (auto simp: sunix_ser_set_termios_def snx_ser_update_timeout_def Let_def shadow_def uart_access uart_addr_def
        uart_write_def sunix_ser_set_mctrl_def ucast_u32_u64_inj split: option.splits prod.splits if_splits)
qed

lemma shadow_startup:
  assumes "sunix_ser_startup sp m = Some (0, sp', m')" and "sp_iobase sp \<noteq> 0" and "sp_lcr sp AND UART_LCR_DLAB = 0"
  shows "shadow sp' m'"
  using assms
  by (auto simp: sunix_ser_startup_def Let_def shadow_def drain_def uart_access split: if_splits prod.splits)

subsection \<open>Properties\<close>

text \<open>A port of the examples: one of a SUN1889 board, with the clock the driver sets.\<close>

definition example_uart :: sunix_ser_port where
  "example_uart = zero_ser_port\<lparr>sp_iobase := 0xd000, sp_uartclk := 921600 * 16, sp_type := 7, sp_snx_type := 1,
     sp_fifosize := 32, sp_mcr_mask := 0xff, sp_capabilities := 3\<rparr>"

text \<open>
  C26. Programming a termios on a port with the driver's clock, without setserial overrides: exactly
  seven register writes, in an order that opens the divisor latch, writes the divisor low byte first,
  and closes the latch before the interrupt enables are written (they share an address with the
  latch's high byte); the two latch bytes together are the clock divided by 16 times the rate,
  never 0; the line control byte is the termios frame, with neither latch nor break bit.
\<close>

theorem set_termios_programs_divisor:
  assumes "sp_uartclk sp = 921600 * 16" and "sp_iobase sp \<noteq> 0"
    and "\<not> has (sp_flags sp) SNX_UPF_MAGIC_MULTIPLIER" and "sp_flags sp AND SNX_UPF_SPD_MASK = 0"
  shows "\<exists>sp' m' lo hi. sunix_ser_set_termios HZ sp tm old m = Some (tm, sp', m')
     \<and> trace m' = trace m @ [Out (uart_addr sp UART_LCR) (termios_lcr (tm_cflag tm) OR UART_LCR_DLAB),
          Out (uart_addr sp UART_DLL) lo, Out (uart_addr sp UART_DLM) hi,
          Out (uart_addr sp UART_FCR) (termios_fcr sp (try_baud sp (tm_cflag tm))),
          Out (uart_addr sp UART_LCR) (termios_lcr (tm_cflag tm)),
          Out (uart_addr sp UART_MCR) (mctrl_bits sp' (sp_mctrl sp)), Out (uart_addr sp UART_IER) (sp_ier sp')]
     \<and> unat lo + 256 * unat hi = 14745600 div (16 * unat (try_baud sp (tm_cflag tm)))
     \<and> 0 < unat lo + 256 * unat hi
     \<and> termios_lcr (tm_cflag tm) AND (UART_LCR_DLAB OR UART_LCR_SBC) = 0"
proof -
  obtain sp' m' quot where r: "sunix_ser_set_termios HZ sp tm old m = Some (tm, sp', m')"
    "trace m' = trace m @ [Out (uart_addr sp UART_LCR) (termios_lcr (tm_cflag tm) OR UART_LCR_DLAB),
          Out (uart_addr sp UART_DLL) (ucast (quot AND 0xff)), Out (uart_addr sp UART_DLM) (ucast (drop_bit 8 quot)),
          Out (uart_addr sp UART_FCR) (termios_fcr sp (try_baud sp (tm_cflag tm))),
          Out (uart_addr sp UART_LCR) (termios_lcr (tm_cflag tm)),
          Out (uart_addr sp UART_MCR) (mctrl_bits sp' (sp_mctrl sp)), Out (uart_addr sp UART_IER) (sp_ier sp')]"
    "quot = 14745600 div (16 * try_baud sp (tm_cflag tm))"
    using set_termios_result [OF assms] by blast
  have "unat quot < 65536" "1 \<le> unat quot" "unat quot = 14745600 div (16 * unat (try_baud sp (tm_cflag tm)))"
    using divisor_range [of sp "tm_cflag tm"] r(3) by simp_all
  then show ?thesis using r(1,2) latch_bytes [of quot] termios_lcr_frame [of "tm_cflag tm"]
    by (intro exI [of _ sp'] exI [of _ m'] exI [of _ "ucast (quot AND 0xff)"] exI [of _ "ucast (drop_bit 8 quot)"]) simp
qed

theorem set_termios_programs_divisor_witness:
  "\<exists>sp' m' lo hi. sunix_ser_set_termios 250 example_uart \<lparr>tm_cflag = 0x8bd, tm_iflag = 0\<rparr> None idle_machine
       = Some (\<lparr>tm_cflag = 0x8bd, tm_iflag = 0\<rparr>, sp', m')
     \<and> unat (lo :: u8) + 256 * unat (hi :: u8) = 14745600 div (16 * unat (try_baud example_uart 0x8bd))"
  using set_termios_programs_divisor [of example_uart 250 "\<lparr>tm_cflag = 0x8bd, tm_iflag = 0\<rparr>" None idle_machine]
  by (auto simp: example_uart_def zero_ser_port_def)

text \<open>
  C30. With a clock of at least 921600 * 16, the rate a port computes lies between 50 and 921600 and
  within its own limit, on the first try, and programming a termios never divides by zero, whatever the
  termios, the previous termios and the setserial flags are.
\<close>

theorem baud_rate_in_range:
  assumes "921600 * 16 \<le> sp_uartclk sp"
  shows "(\<exists>baud. snx_ser_get_baud_rate sp tm old 0 (sp_uartclk sp div 16) = (baud, tm)
      \<and> 50 \<le> baud \<and> baud \<le> 921600 \<and> baud \<le> sp_uartclk sp div 16)
    \<and> (\<exists>r. sunix_ser_set_termios HZ sp tm old m = Some r)"
proof -
  have "921600 \<le> sp_uartclk sp div 16" using assms by (simp add: word_le_nat_alt unat_div)
  then have "try_baud sp (tm_cflag tm) \<le> sp_uartclk sp div 16"
    using try_baud_range [of sp "tm_cflag tm"] by (meson order.trans)
  then show ?thesis
    using get_baud_rate_first [OF assms, of tm old] try_baud_range [of sp "tm_cflag tm"]
      set_termios_total [OF assms] by simp
qed

theorem baud_rate_in_range_witness:
  "(\<exists>baud. snx_ser_get_baud_rate example_uart \<lparr>tm_cflag = 0x8bd, tm_iflag = 0\<rparr> None 0 921600
      = (baud, \<lparr>tm_cflag = 0x8bd, tm_iflag = 0\<rparr>) \<and> 50 \<le> baud)
   \<and> (\<exists>r. sunix_ser_set_termios 250 example_uart \<lparr>tm_cflag = 0x8bd, tm_iflag = 0\<rparr> None idle_machine = Some r)"
  using baud_rate_in_range [of example_uart "\<lparr>tm_cflag = 0x8bd, tm_iflag = 0\<rparr>" None 250 idle_machine]
  by (auto simp: example_uart_def)

text \<open>
  C31. A clock below 16 * 50, which setserial may store, makes the limit smaller than every rate: the
  function falls back to 0, and unless a custom or magic divisor applies the next step divides by it.
\<close>

theorem low_clock_divides_by_zero:
  assumes "sp_uartclk sp < 16 * 50" and "\<not> has (sp_flags sp) SNX_UPF_MAGIC_MULTIPLIER"
  shows "fst (snx_ser_get_baud_rate sp tm old 0 (sp_uartclk sp div 16)) = 0
    \<and> sunix_ser_set_termios HZ sp tm old m = None"
proof -
  have "sp_uartclk sp div 16 < 50" using assms(1) by (simp add: word_less_nat_alt unat_div div_less_iff_less_mult)
  then have small: "\<not> try_baud sp c \<le> sp_uartclk sp div 16" for c
    using try_baud_range [of sp c] by (meson leD order.trans)
  have zero: "fst (snx_ser_get_baud_rate sp tm old 0 (sp_uartclk sp div 16)) = 0"
    by (simp add: snx_ser_get_baud_rate_def numeral_2_eq_2 small Let_def split: option.split)
  moreover have "sunix_ser_get_divisor sp 0 = None"
    using assms(2) by (simp add: sunix_ser_get_divisor_def snx_ser_get_divisor_def)
  ultimately show ?thesis
    by (cases "snx_ser_get_baud_rate sp tm old 0 (sp_uartclk sp div 16)") (simp add: sunix_ser_set_termios_def)
qed

theorem low_clock_divides_by_zero_witness:
  "sunix_ser_set_termios 250 (example_uart\<lparr>sp_uartclk := 16\<rparr>) \<lparr>tm_cflag = 0x8bd, tm_iflag = 0\<rparr> None idle_machine = None"
  using low_clock_divides_by_zero [of "example_uart\<lparr>sp_uartclk := 16\<rparr>"]
  by (simp add: example_uart_def zero_ser_port_def)

text \<open>
  Modem control: on a port with handshake lines the DTR and RTS bits written to the chip are
  exactly those asked for; a SUN1999 port in RS-422 or RS-485 mode never drives either and
  reports no input line at all.
\<close>

theorem modem_lines_by_mode:
  assumes "sp_mcr_mask sp = 0xff" and "sp_mcr_force sp = 0" and "sp_mcr sp AND (UART_MCR_DTR OR UART_MCR_RTS) = 0"
  shows "(if rs422_485 sp
      then mctrl_bits sp mctrl AND (UART_MCR_DTR OR UART_MCR_RTS) = 0 \<and> fst (sunix_ser_get_mctrl sp m) = 0
      else (has (mctrl_bits sp mctrl) UART_MCR_DTR \<longleftrightarrow> has mctrl TIOCM_DTR)
         \<and> (has (mctrl_bits sp mctrl) UART_MCR_RTS \<longleftrightarrow> has mctrl TIOCM_RTS))"
proof -
  have x: "sp_mcr sp AND 3 = 0" using assms(3) by simp
  have "sp_mcr sp AND 1 = (sp_mcr sp AND 3) AND 1" "sp_mcr sp AND 2 = (sp_mcr sp AND 3) AND 2"
    by (simp_all add: and.assoc)
  with x have y: "sp_mcr sp AND 1 = 0" "sp_mcr sp AND 2 = 0" by simp_all
  show ?thesis
    using assms(1,2) x y
    by (simp add: mctrl_bits_def mcr_if_def Let_def bit.conj_disj_distrib2 sunix_ser_get_mctrl_def split_beta)
qed

text \<open>A SUN1999 port in RS-485 mode.\<close>

theorem modem_lines_by_mode_witness:
  "mctrl_bits (example_uart\<lparr>sp_pb_info := snx_pci_board_conf ! 30, sp_AHDC_State := 1\<rparr>) (TIOCM_DTR OR TIOCM_RTS)
     AND (UART_MCR_DTR OR UART_MCR_RTS) = 0
   \<and> has (mctrl_bits example_uart TIOCM_DTR) UART_MCR_DTR"
proof -
  have "pb_sub_vendor_id (snx_pci_board_conf ! 30) = SUBVENID_SUN1999" by code_simp
  then have "rs422_485 (example_uart\<lparr>sp_pb_info := snx_pci_board_conf ! 30, sp_AHDC_State := 1\<rparr>)" "\<not> rs422_485 example_uart"
    by (simp_all add: rs422_485_def example_uart_def zero_ser_port_def)
  then show ?thesis
    using modem_lines_by_mode [of "example_uart\<lparr>sp_pb_info := snx_pci_board_conf ! 30, sp_AHDC_State := 1\<rparr>" "TIOCM_DTR OR TIOCM_RTS"]
      modem_lines_by_mode [of example_uart TIOCM_DTR]
    by (simp add: example_uart_def zero_ser_port_def)
qed

end
