(* ===== verification/Snx_Circ.thy ===== *)
theory Snx_Circ
  imports Snx_Ports
begin

text \<open>
  The transmit ring buffer of a serial port: the \<^verbatim>\<open>CIRC_*\<close> macros of the kernel's
  linux/circ_buf.h as driver/snx_common.h uses them (one page, 4096 bytes), \<open>__snx_ser_put_char\<close>,
  the copy loop of \<open>snx_ser_write\<close>, and the tail step of \<open>sunix_ser_transmit_chars\<close>
  (driver/snx_serial.c). What a client may rely on is the locale \<open>byte_fifo\<close>: a bounded queue
  of bytes. The ring buffer is an instance of it.
\<close>

section \<open>The transmit ring buffer\<close>

subsection \<open>Head and tail arithmetic\<close>

abbreviation (input) SNX_UART_XMIT_SIZE :: int where "SNX_UART_XMIT_SIZE \<equiv> 4096"

definition CIRC_CNT :: "int \<Rightarrow> int \<Rightarrow> int \<Rightarrow> int" where
  "CIRC_CNT head tail sz = (head - tail) AND (sz - 1)"

definition CIRC_SPACE :: "int \<Rightarrow> int \<Rightarrow> int \<Rightarrow> int" where
  "CIRC_SPACE head tail sz = CIRC_CNT tail (head + 1) sz"

definition CIRC_SPACE_TO_END :: "int \<Rightarrow> int \<Rightarrow> int \<Rightarrow> int" where
  "CIRC_SPACE_TO_END head tail sz =
    (let e = sz - 1 - head; n = (e + tail) AND (sz - 1) in if n \<le> e then n else e + 1)"

definition snx_ser_circ_empty :: "circ_buf \<Rightarrow> bool" where
  "snx_ser_circ_empty circ \<longleftrightarrow> cb_head circ = cb_tail circ"

definition snx_ser_circ_clear :: "circ_buf \<Rightarrow> circ_buf" where
  "snx_ser_circ_clear circ = circ\<lparr>cb_head := 0, cb_tail := 0\<rparr>"

definition snx_ser_circ_chars_pending :: "circ_buf \<Rightarrow> int" where
  "snx_ser_circ_chars_pending circ = CIRC_CNT (cb_head circ) (cb_tail circ) SNX_UART_XMIT_SIZE"

definition snx_ser_circ_chars_free :: "circ_buf \<Rightarrow> int" where
  "snx_ser_circ_chars_free circ = CIRC_SPACE (cb_head circ) (cb_tail circ) SNX_UART_XMIT_SIZE"

subsection \<open>The operations\<close>

definition circ_put_char :: "u8 \<Rightarrow> circ_buf \<Rightarrow> circ_buf" where
  "circ_put_char c circ =
    (case cb_buf circ of
       None \<Rightarrow> circ
     | Some b \<Rightarrow>
        (if snx_ser_circ_chars_free circ \<noteq> 0 then
           circ\<lparr>cb_buf := Some (b[nat (cb_head circ) := c]),
                cb_head := (cb_head circ + 1) AND (SNX_UART_XMIT_SIZE - 1)\<rparr>
         else circ))"

text \<open>\<^verbatim>\<open>memcpy(b + h, src, n)\<close> for \<open>n = length src\<close>.\<close>

definition copy_at :: "nat \<Rightarrow> u8 list \<Rightarrow> u8 list \<Rightarrow> u8 list" where
  "copy_at h src b = take h b @ src @ drop (h + length src) b"

function circ_write :: "u8 list \<Rightarrow> circ_buf \<Rightarrow> int \<Rightarrow> circ_buf \<times> int" where
  "circ_write buf circ ret =
    (let space = CIRC_SPACE_TO_END (cb_head circ) (cb_tail circ) SNX_UART_XMIT_SIZE;
         c = (if int (length buf) < space then int (length buf) else space)
     in
      if c \<le> 0 then (circ, ret)
      else circ_write (drop (nat c) buf)
             (circ\<lparr>cb_buf := map_option (copy_at (nat (cb_head circ)) (take (nat c) buf)) (cb_buf circ),
                   cb_head := (cb_head circ + c) AND (SNX_UART_XMIT_SIZE - 1)\<rparr>)
             (ret + c))"
  by pat_completeness auto

termination circ_write
  by (relation "measure (\<lambda>(buf, circ, ret). length buf)") (auto simp: Let_def split: if_splits)

declare circ_write.simps [simp del]

text \<open>The byte at the tail and the buffer after taking it out.\<close>

definition circ_get_char :: "circ_buf \<Rightarrow> u8 \<times> circ_buf" where
  "circ_get_char circ =
    (case cb_buf circ of
       None \<Rightarrow> (0, circ)
     | Some b \<Rightarrow> (b ! nat (cb_tail circ),
                   circ\<lparr>cb_tail := (cb_tail circ + 1) AND (SNX_UART_XMIT_SIZE - 1)\<rparr>))"

subsection \<open>A bounded queue of bytes\<close>

text \<open>
  The contract: \<open>content\<close> lists what is queued, oldest first; \<open>put\<close> appends while there is
  room and otherwise drops the element; \<open>get\<close> takes the oldest.
\<close>

locale byte_fifo =
  fixes good :: "'s \<Rightarrow> bool" and content :: "'s \<Rightarrow> 'a list" and room :: "'s \<Rightarrow> nat"
    and put :: "'a \<Rightarrow> 's \<Rightarrow> 's" and get :: "'s \<Rightarrow> 'a \<times> 's"
  assumes put_good: "good s \<Longrightarrow> good (put x s)"
    and put_room: "good s \<Longrightarrow> room (put x s) = room s - 1"
    and put_content: "good s \<Longrightarrow> content (put x s) = (if room s = 0 then content s else content s @ [x])"
    and get_good: "good s \<Longrightarrow> content s \<noteq> [] \<Longrightarrow> good (snd (get s))"
    and get_content: "good s \<Longrightarrow> content s \<noteq> [] \<Longrightarrow> content s = fst (get s) # content (snd (get s))"
    and get_room: "good s \<Longrightarrow> content s \<noteq> [] \<Longrightarrow> room (snd (get s)) = Suc (room s)"
begin

primrec puts :: "'a list \<Rightarrow> 's \<Rightarrow> 's" where
  "puts [] s = s"
| "puts (x # xs) s = puts xs (put x s)"

lemma puts_good: "good s \<Longrightarrow> good (puts xs s)"
  by (induction xs arbitrary: s) (auto intro: put_good)

lemma puts_content: "good s \<Longrightarrow> content (puts xs s) = content s @ take (room s) xs"
  by (induction xs arbitrary: s) (auto simp: put_content put_room put_good take_Cons split: nat.splits)

lemma puts_room: "good s \<Longrightarrow> room (puts xs s) = room s - length xs"
  by (induction xs arbitrary: s) (auto simp: put_room put_good)

primrec gets :: "nat \<Rightarrow> 's \<Rightarrow> 'a list \<times> 's" where
  "gets 0 s = ([], s)"
| "gets (Suc n) s = (let (x, s1) = get s; (xs, s2) = gets n s1 in (x # xs, s2))"

lemma gets_content:
  "good s \<Longrightarrow> n \<le> length (content s) \<Longrightarrow> fst (gets n s) = take n (content s)
     \<and> content (snd (gets n s)) = drop n (content s) \<and> good (snd (gets n s))"
proof (induction n arbitrary: s)
  case 0
  then show ?case by simp
next
  case (Suc n)
  then have ne: "content s \<noteq> []" by auto
  obtain x s1 where g: "get s = (x, s1)" by fastforce
  with Suc.prems(1) ne get_good get_content have "good s1" "content s = x # content s1" by fastforce+
  with Suc.IH [of s1] Suc.prems(2) g show ?case by (auto simp: split_beta)
qed

end

subsection \<open>The ring buffer is such a queue\<close>

lemma and_4095 [simp]: "(x::int) AND 4095 = x mod 4096"
proof -
  have "x AND mask 12 = x mod 2 ^ 12" by (simp only: take_bit_eq_mask [symmetric] take_bit_eq_mod)
  then show ?thesis by (simp add: mask_eq_exp_minus_1)
qed

lemma mod_4096: "0 \<le> x \<Longrightarrow> x < 8192 \<Longrightarrow> (x::int) mod 4096 = (if x < 4096 then x else x - 4096)"
  using mod_pos_pos_trivial [of x 4096] mod_pos_pos_trivial [of "x - 4096" 4096]
  by (simp add: mod_diff_eq [symmetric])

lemma mod_4096_neg: "- 4096 \<le> x \<Longrightarrow> x < 4096 \<Longrightarrow> (x::int) mod 4096 = (if 0 \<le> x then x else x + 4096)"
  using mod_4096 [of "x + 4096"] by (simp split: if_splits)

definition circ_ok :: "circ_buf \<Rightarrow> bool" where
  "circ_ok circ \<longleftrightarrow> (\<exists>b. cb_buf circ = Some b \<and> length b = 4096)
     \<and> 0 \<le> cb_head circ \<and> cb_head circ < 4096 \<and> 0 \<le> cb_tail circ \<and> cb_tail circ < 4096"

definition circ_content :: "circ_buf \<Rightarrow> u8 list" where
  "circ_content circ = (case cb_buf circ of None \<Rightarrow> []
     | Some b \<Rightarrow> map (\<lambda>i. b ! nat ((cb_tail circ + int i) mod 4096)) [0..<nat (snx_ser_circ_chars_pending circ)])"

definition circ_room :: "circ_buf \<Rightarrow> nat" where
  "circ_room circ = nat (snx_ser_circ_chars_free circ)"

lemma pending_eq:
  assumes "circ_ok circ"
  shows "snx_ser_circ_chars_pending circ =
    (if cb_tail circ \<le> cb_head circ then cb_head circ - cb_tail circ else cb_head circ - cb_tail circ + 4096)"
  using assms by (simp add: snx_ser_circ_chars_pending_def CIRC_CNT_def circ_ok_def mod_4096_neg)

lemma free_eq:
  assumes "circ_ok circ"
  shows "snx_ser_circ_chars_free circ = 4095 - snx_ser_circ_chars_pending circ"
  using assms pending_eq [OF assms]
  by (simp add: snx_ser_circ_chars_free_def CIRC_SPACE_def CIRC_CNT_def circ_ok_def mod_4096_neg)

lemma pending_bounds: "circ_ok circ \<Longrightarrow> 0 \<le> snx_ser_circ_chars_pending circ \<and> snx_ser_circ_chars_pending circ \<le> 4095"
  by (simp add: pending_eq circ_ok_def)

lemma length_content: "circ_ok circ \<Longrightarrow> int (length (circ_content circ)) = snx_ser_circ_chars_pending circ"
  using pending_bounds [of circ] by (auto simp: circ_content_def circ_ok_def split: option.splits)

lemma room_content: "circ_ok circ \<Longrightarrow> circ_room circ + length (circ_content circ) = 4095"
  using length_content [of circ] free_eq [of circ] pending_bounds [of circ] by (simp add: circ_room_def)

lemma space_to_end_eq:
  assumes "circ_ok circ"
  shows "CIRC_SPACE_TO_END (cb_head circ) (cb_tail circ) 4096
    = min (snx_ser_circ_chars_free circ) (4096 - cb_head circ)"
proof -
  let ?h = "cb_head circ" and ?t = "cb_tail circ"
  have "(4095 - ?h + ?t) mod 4096 = (if ?t \<le> ?h then 4095 - ?h + ?t else ?t - ?h - 1)"
    using assms mod_4096 [of "4095 - ?h + ?t"] by (auto simp: circ_ok_def)
  then show ?thesis
    using assms free_eq [OF assms] pending_eq [OF assms]
    by (auto simp: CIRC_SPACE_TO_END_def Let_def circ_ok_def)
qed

text \<open>Copying a chunk that fits before the end of the page appends it to the content.\<close>

definition circ_chunk :: "u8 list \<Rightarrow> circ_buf \<Rightarrow> circ_buf" where
  "circ_chunk src circ = circ\<lparr>cb_buf := map_option (copy_at (nat (cb_head circ)) src) (cb_buf circ),
     cb_head := (cb_head circ + int (length src)) AND (SNX_UART_XMIT_SIZE - 1)\<rparr>"

lemma length_copy_at: "h + length src \<le> length b \<Longrightarrow> length (copy_at h src b) = length b"
  by (simp add: copy_at_def)

lemma nth_copy_at:
  "h + length src \<le> length b \<Longrightarrow> copy_at h src b ! i = (if h \<le> i \<and> i < h + length src then src ! (i - h) else b ! i)"
  by (auto simp: copy_at_def nth_append)

lemma chunk_ok:
  assumes ok: "circ_ok circ" and len: "int (length src) \<le> CIRC_SPACE_TO_END (cb_head circ) (cb_tail circ) 4096"
  shows "circ_ok (circ_chunk src circ)"
    and "snx_ser_circ_chars_pending (circ_chunk src circ) = snx_ser_circ_chars_pending circ + int (length src)"
proof -
  obtain b where b: "cb_buf circ = Some b" "length b = 4096" using ok by (auto simp: circ_ok_def)
  let ?h = "cb_head circ" and ?t = "cb_tail circ" and ?n = "int (length src)"
  have fit: "?n \<le> 4096 - ?h" "?n \<le> snx_ser_circ_chars_free circ" using len space_to_end_eq [OF ok] by auto
  have r: "0 \<le> ?h" "?h < 4096" "0 \<le> ?t" "?t < 4096" using ok by (auto simp: circ_ok_def)
  have h': "cb_head (circ_chunk src circ) = (if ?h + ?n < 4096 then ?h + ?n else 0)"
    using fit r mod_4096 [of "?h + ?n"] by (auto simp: circ_chunk_def)
  have t': "cb_tail (circ_chunk src circ) = ?t" by (simp add: circ_chunk_def)
  have "length (copy_at (nat ?h) src b) = 4096" using b fit r by (subst length_copy_at) auto
  then show ok': "circ_ok (circ_chunk src circ)"
    using b r h' t' fit by (auto simp: circ_ok_def circ_chunk_def)
  show "snx_ser_circ_chars_pending (circ_chunk src circ) = snx_ser_circ_chars_pending circ + ?n"
    using pending_eq [OF ok'] pending_eq [OF ok] free_eq [OF ok] fit r h' t' by (auto split: if_splits)
qed

lemma chunk_content:
  assumes ok: "circ_ok circ" and len: "int (length src) \<le> CIRC_SPACE_TO_END (cb_head circ) (cb_tail circ) 4096"
  shows "circ_content (circ_chunk src circ) = circ_content circ @ src"
proof (rule nth_equalityI)
  note c = chunk_ok [OF ok len]
  show "length (circ_content (circ_chunk src circ)) = length (circ_content circ @ src)"
    using length_content [OF c(1)] length_content [OF ok] c(2) by simp
  obtain b where b: "cb_buf circ = Some b" "length b = 4096" using ok by (auto simp: circ_ok_def)
  let ?h = "cb_head circ" and ?t = "cb_tail circ" and ?n = "int (length src)"
  have fit: "?n \<le> 4096 - ?h" "?n \<le> snx_ser_circ_chars_free circ" using len space_to_end_eq [OF ok] by auto
  have r: "0 \<le> ?h" "?h < 4096" "0 \<le> ?t" "?t < 4096" using ok by (auto simp: circ_ok_def)
  fix i
  assume i: "i < length (circ_content (circ_chunk src circ))"
  then have i': "int i < snx_ser_circ_chars_pending circ + ?n" using length_content [OF c(1)] c(2) by simp
  let ?p = "(?t + int i) mod 4096"
  have p: "?p = (if ?t + int i < 4096 then ?t + int i else ?t + int i - 4096)"
    using r i' fit pending_bounds [OF ok] free_eq [OF ok] by (intro mod_4096) auto
  have new: "circ_content (circ_chunk src circ) ! i = copy_at (nat ?h) src b ! nat ?p"
    using i b by (simp add: circ_content_def circ_chunk_def)
  have at: "copy_at (nat ?h) src b ! nat ?p
      = (if ?h \<le> ?p \<and> ?p < ?h + ?n then src ! (nat ?p - nat ?h) else b ! nat ?p)"
    using b fit r p by (subst nth_copy_at) auto
  show "circ_content (circ_chunk src circ) ! i = (circ_content circ @ src) ! i"
  proof (cases "int i < snx_ser_circ_chars_pending circ")
    case True
    then have "\<not> (?h \<le> ?p \<and> ?p < ?h + ?n)"
      using p r fit pending_eq [OF ok] free_eq [OF ok] by (auto split: if_splits)
    moreover have "(circ_content circ @ src) ! i = b ! nat ?p"
    proof -
      from True have "i < nat (snx_ser_circ_chars_pending circ)" by linarith
      then show ?thesis using b by (simp add: nth_append circ_content_def)
    qed
    ultimately show ?thesis by (simp only: new at if_False)
  next
    case False
    then have "?h \<le> ?p \<and> ?p < ?h + ?n" and q: "nat ?p - nat ?h = i - nat (snx_ser_circ_chars_pending circ)"
      using p r fit i' pending_eq [OF ok] free_eq [OF ok] by (auto split: if_splits)
    moreover have "(circ_content circ @ src) ! i = src ! (i - nat (snx_ser_circ_chars_pending circ))"
    proof -
      have "length (circ_content circ) = nat (snx_ser_circ_chars_pending circ)" using length_content [OF ok] by linarith
      moreover have "\<not> i < nat (snx_ser_circ_chars_pending circ)" using False by linarith
      ultimately show ?thesis by (simp add: nth_append)
    qed
    ultimately show ?thesis using new at by simp
  qed
qed

lemma put_char_chunk:
  assumes "circ_ok circ"
  shows "circ_put_char c circ = (if circ_room circ = 0 then circ else circ_chunk [c] circ)"
proof -
  obtain b where b: "cb_buf circ = Some b" "length b = 4096" using assms by (auto simp: circ_ok_def)
  have "b[nat (cb_head circ) := c] = copy_at (nat (cb_head circ)) [c] b"
  proof -
    have "nat (cb_head circ) < length b" using assms b by (auto simp: circ_ok_def)
    then show ?thesis by (simp add: upd_conv_take_nth_drop copy_at_def)
  qed
  then show ?thesis
    using b free_eq [OF assms] pending_bounds [OF assms]
    by (auto simp: circ_put_char_def circ_chunk_def circ_room_def)
qed

lemma room_to_end: "circ_ok circ \<Longrightarrow> 0 < circ_room circ \<Longrightarrow> 0 < CIRC_SPACE_TO_END (cb_head circ) (cb_tail circ) 4096"
  by (simp add: space_to_end_eq circ_room_def circ_ok_def)

lemma get_char_content:
  assumes ok: "circ_ok circ" and ne: "circ_content circ \<noteq> []"
  shows "circ_ok (snd (circ_get_char circ))"
    and "circ_content circ = fst (circ_get_char circ) # circ_content (snd (circ_get_char circ))"
proof -
  obtain b where b: "cb_buf circ = Some b" "length b = 4096" using ok by (auto simp: circ_ok_def)
  let ?h = "cb_head circ" and ?t = "cb_tail circ" and ?c' = "snd (circ_get_char circ)"
  have r: "0 \<le> ?h" "?h < 4096" "0 \<le> ?t" "?t < 4096" using ok by (auto simp: circ_ok_def)
  have pos: "0 < snx_ser_circ_chars_pending circ" using ne length_content [OF ok] by (metis length_greater_0_conv of_nat_0_less_iff)
  have t': "cb_tail ?c' = (if ?t + 1 < 4096 then ?t + 1 else 0)" "cb_head ?c' = ?h" "cb_buf ?c' = Some b"
    using b r mod_4096 [of "?t + 1"] by (auto simp: circ_get_char_def)
  show ok': "circ_ok ?c'" using b r t' by (auto simp: circ_ok_def)
  have n': "snx_ser_circ_chars_pending circ = 1 + snx_ser_circ_chars_pending ?c'"
    using pending_eq [OF ok] pending_eq [OF ok'] pos t' r by (auto split: if_splits)
  then have "nat (snx_ser_circ_chars_pending circ) = Suc (nat (snx_ser_circ_chars_pending ?c'))"
    using pending_bounds [OF ok'] by linarith
  moreover have "(?t + int (Suc i)) mod 4096 = (cb_tail ?c' + int i) mod 4096" for i
  proof (cases "?t + 1 < 4096")
    case False
    then have "?t + int (Suc i) = int i + 4096" using r by simp
    then show ?thesis using t'(1) False by simp
  qed (use t'(1) in \<open>simp add: add.commute add.left_commute\<close>)
  moreover have "circ_content circ = b ! nat ?t # map (\<lambda>i. b ! nat ((?t + int (Suc i)) mod 4096)) [0..<n]"
    if "nat (snx_ser_circ_chars_pending circ) = Suc n" for n
    using b(1) r by (simp add: circ_content_def that map_upt_Suc del: upt_Suc of_nat_Suc)
  moreover have "circ_content ?c' = map (\<lambda>i. b ! nat ((cb_tail ?c' + int i) mod 4096)) [0..<nat (snx_ser_circ_chars_pending ?c')]"
    using t'(3) by (simp add: circ_content_def)
  moreover have "fst (circ_get_char circ) = b ! nat ?t" using b(1) by (simp add: circ_get_char_def)
  ultimately show "circ_content circ = fst (circ_get_char circ) # circ_content ?c'" by simp
qed

interpretation ring: byte_fifo circ_ok circ_content circ_room circ_put_char circ_get_char
proof
  fix circ :: circ_buf and c :: u8
  assume ok: "circ_ok circ"
  have fit: "circ_room circ \<noteq> 0 \<Longrightarrow> int (length [c]) \<le> CIRC_SPACE_TO_END (cb_head circ) (cb_tail circ) 4096"
    using room_to_end [OF ok] by simp
  show ok': "circ_ok (circ_put_char c circ)"
    using ok chunk_ok(1) [OF ok fit] by (simp add: put_char_chunk)
  show content: "circ_content (circ_put_char c circ) = (if circ_room circ = 0 then circ_content circ else circ_content circ @ [c])"
    using ok chunk_content [OF ok fit] by (simp add: put_char_chunk)
  show "circ_room (circ_put_char c circ) = circ_room circ - 1"
    using room_content [OF ok'] room_content [OF ok] content by (auto split: if_splits)
next
  fix circ
  assume ok: "circ_ok circ" and ne: "circ_content circ \<noteq> []"
  note g = get_char_content [OF ok ne]
  show "circ_ok (snd (circ_get_char circ))" by (rule g)
  show "circ_content circ = fst (circ_get_char circ) # circ_content (snd (circ_get_char circ))" by (rule g)
  then show "circ_room (snd (circ_get_char circ)) = Suc (circ_room circ)"
    using room_content [OF ok] room_content [OF g(1)] by simp
qed

subsection \<open>The copy loop of write\<close>

text \<open>It appends the longest prefix there is room for, and says how long that is.\<close>

lemma circ_write_content:
  "circ_ok circ \<Longrightarrow> circ_ok (fst (circ_write buf circ ret))
     \<and> circ_content (fst (circ_write buf circ ret)) = circ_content circ @ take (circ_room circ) buf
     \<and> snd (circ_write buf circ ret) = ret + int (min (length buf) (circ_room circ))"
proof (induction buf circ ret rule: circ_write.induct)
  case (1 buf circ ret)
  let ?sp = "CIRC_SPACE_TO_END (cb_head circ) (cb_tail circ) 4096"
  let ?c = "if int (length buf) < ?sp then int (length buf) else ?sp"
  note ok = \<open>circ_ok circ\<close>
  show ?case
  proof (cases "?c \<le> 0")
    case True
    then have "buf = [] \<or> circ_room circ = 0"
      using room_to_end [OF ok] by (auto split: if_splits)
    with True ok show ?thesis by (subst (1 2 3) circ_write.simps) (auto simp: Let_def)
  next
    case False
    obtain k where k: "?c = int k" "nat ?c = k" "k \<le> length buf" "int k \<le> ?sp"
      using False that [of "nat ?c"] by (simp split: if_splits)
    let ?src = "take k buf" and ?cc = "circ_chunk (take k buf) circ"
    have len: "length ?src = k" and fit: "int (length ?src) \<le> ?sp" using k by simp_all
    note ok' = chunk_ok(1) [OF ok fit]
    have step: "circ_write buf circ ret = circ_write (drop k buf) ?cc (ret + int k)"
      using False len by (subst circ_write.simps) (simp only: Let_def k circ_chunk_def if_False nat_int)
    have room: "circ_room circ = k + circ_room ?cc"
      using room_content [OF ok] room_content [OF ok'] chunk_content [OF ok fit] len by simp
    have "circ_ok (fst (circ_write (drop k buf) ?cc (ret + int k)))
      \<and> circ_content (fst (circ_write (drop k buf) ?cc (ret + int k))) = circ_content ?cc @ take (circ_room ?cc) (drop k buf)
      \<and> snd (circ_write (drop k buf) ?cc (ret + int k)) = (ret + int k) + int (min (length (drop k buf)) (circ_room ?cc))"
      using "1.IH" [OF refl refl, unfolded k, folded circ_chunk_def] False ok' len
      by (simp add: circ_chunk_def k)
    then show ?thesis using chunk_content [OF ok fit] room k(3) by (auto simp: step take_add min_def)
  qed
qed

lemma copy_at_Cons:
  assumes "h + Suc (length cs) \<le> length b"
  shows "copy_at h (c # cs) b = copy_at (Suc h) cs (copy_at h [c] b)"
  using assms by (auto simp: copy_at_def min_def add.commute)

text \<open>A chunk that fits before the end of the page is its characters put one by one.\<close>

lemma chunk_puts:
  "circ_ok circ \<Longrightarrow> int (length src) \<le> CIRC_SPACE_TO_END (cb_head circ) (cb_tail circ) 4096
    \<Longrightarrow> src \<noteq> [] \<Longrightarrow> circ_chunk src circ = ring.puts src circ"
proof (induction src arbitrary: circ)
  case (Cons c cs)
  note ok = Cons.prems(1)
  have fit: "int (length [c]) \<le> CIRC_SPACE_TO_END (cb_head circ) (cb_tail circ) 4096" using Cons.prems(2) by simp
  have room: "circ_room circ \<noteq> 0" using Cons.prems(2) by (simp add: space_to_end_eq [OF ok] circ_room_def)
  let ?c1 = "circ_chunk [c] circ"
  show ?case
  proof (cases "cs = []")
    case True
    then show ?thesis using ok room by (simp add: put_char_chunk)
  next
    case False
    obtain b where b: "cb_buf circ = Some b" "length b = 4096" using ok by (auto simp: circ_ok_def)
    have h: "0 \<le> cb_head circ" "cb_head circ + 1 + int (length cs) \<le> 4096"
      using Cons.prems(2) ok by (auto simp: space_to_end_eq [OF ok] circ_ok_def)
    then have h1: "cb_head ?c1 = cb_head circ + 1" using False by (cases cs) (auto simp: circ_chunk_def)
    note ok1 = chunk_ok [OF ok fit]
    have "int (length cs) \<le> CIRC_SPACE_TO_END (cb_head ?c1) (cb_tail ?c1) 4096"
      using Cons.prems(2) h1 ok1(2) free_eq [OF ok] free_eq [OF ok1(1)]
      unfolding space_to_end_eq [OF ok] space_to_end_eq [OF ok1(1)] by simp
    then have "circ_chunk cs ?c1 = ring.puts cs ?c1" using Cons.IH [OF ok1(1)] False by blast
    moreover have "circ_chunk (c # cs) circ = circ_chunk cs ?c1"
      using h h1 b copy_at_Cons [of "nat (cb_head circ)" cs b c]
      by (simp add: circ_chunk_def nat_add_distrib add.assoc)
    ultimately show ?thesis using ok room by (simp add: put_char_chunk)
  qed
qed simp

lemma puts_full: "circ_ok circ \<Longrightarrow> circ_room circ = 0 \<Longrightarrow> ring.puts xs circ = circ"
  by (induction xs) (simp_all add: put_char_chunk)

lemma puts_append: "ring.puts (xs @ ys) circ = ring.puts ys (ring.puts xs circ)"
  by (induction xs arbitrary: circ) simp_all

text \<open>So writing a buffer is putting its characters one by one.\<close>

lemma circ_write_puts: "circ_ok circ \<Longrightarrow> fst (circ_write buf circ ret) = ring.puts buf circ"
proof (induction buf circ ret rule: circ_write.induct)
  case (1 buf circ ret)
  let ?sp = "CIRC_SPACE_TO_END (cb_head circ) (cb_tail circ) 4096"
  let ?c = "if int (length buf) < ?sp then int (length buf) else ?sp"
  note ok = \<open>circ_ok circ\<close>
  show ?case
  proof (cases "?c \<le> 0")
    case True
    then have "buf = [] \<or> circ_room circ = 0"
      using room_to_end [OF ok] by (auto split: if_splits)
    moreover have "fst (circ_write buf circ ret) = circ" using True by (subst circ_write.simps) (auto simp: Let_def)
    ultimately show ?thesis using puts_full [OF ok] by auto
  next
    case False
    obtain k where k: "?c = int k" "nat ?c = k" "k \<le> length buf" "int k \<le> ?sp"
      using False that [of "nat ?c"] by (simp split: if_splits)
    let ?src = "take k buf" and ?cc = "circ_chunk (take k buf) circ"
    have len: "length ?src = k" and fit: "int (length ?src) \<le> ?sp" and ne: "?src \<noteq> []" using k False by auto
    have step: "circ_write buf circ ret = circ_write (drop k buf) ?cc (ret + int k)"
      using False len by (subst circ_write.simps) (simp only: Let_def k circ_chunk_def if_False nat_int)
    have "fst (circ_write (drop k buf) ?cc (ret + int k)) = ring.puts (drop k buf) ?cc"
      using "1.IH" [OF refl refl, unfolded k, folded circ_chunk_def] False chunk_ok(1) [OF ok fit] len
      by (simp add: circ_chunk_def k)
    then show ?thesis using chunk_puts [OF ok fit ne] puts_append [of ?src "drop k buf" circ] by (simp add: step)
  qed
qed

end
