(* ===== verification/Snx_Tty.thy ===== *)
theory Snx_Tty
  imports Snx_Uart Snx_Circ
begin

text \<open>
  The tty operations of a serial port that do not sleep (driver/snx_serial.c): writing and
  flushing, flow control, start-up and shut-down of the line, termios changes, modem lines and
  the setserial interface. The tty layer calls an operation for the tty that is
  \<^verbatim>\<open>state->info->tty\<close> from open to close, so an operation takes it from there; a NULL
  \<^verbatim>\<open>info\<close> or \<^verbatim>\<open>tty\<close> that the code dereferences makes the result \<open>None\<close>.
\<close>

section \<open>The tty operations\<close>

subsection \<open>Access to the line's info and tty\<close>

definition port_tty :: "sunix_ser_port \<Rightarrow> tty option" where
  "port_tty sp = (case sp_info sp of None \<Rightarrow> None | Some info \<Rightarrow> si_tty info)"

definition upd_info :: "(snx_ser_info \<Rightarrow> snx_ser_info) \<Rightarrow> sunix_ser_port \<Rightarrow> sunix_ser_port" where
  "upd_info f sp = sp\<lparr>sp_info := map_option f (sp_info sp)\<rparr>"

definition upd_tty :: "(tty \<Rightarrow> tty) \<Rightarrow> sunix_ser_port \<Rightarrow> sunix_ser_port" where
  "upd_tty f = upd_info (\<lambda>info. info\<lparr>si_tty := map_option f (si_tty info)\<rparr>)"

definition set_xmit :: "circ_buf \<Rightarrow> sunix_ser_port \<Rightarrow> sunix_ser_port" where
  "set_xmit circ = upd_info (\<lambda>info. info\<lparr>si_xmit := circ\<rparr>)"

definition line_ok :: "sunix_ser_port \<Rightarrow> bool" where
  "line_ok sp \<longleftrightarrow> unat (sp_line sp) < SNX_SER_TOTAL_MAX"

subsection \<open>Output\<close>

definition snx_ser_start_locked :: "sunix_ser_port \<Rightarrow> machine \<Rightarrow> (sunix_ser_port \<times> machine) option" where
  "snx_ser_start_locked sp m =
    (case sp_info sp of
       None \<Rightarrow> None
     | Some info \<Rightarrow>
        (case si_tty info of
           None \<Rightarrow> None
         | Some t \<Rightarrow>
            Some (if \<not> snx_ser_circ_empty (si_xmit info) \<and> cb_buf (si_xmit info) \<noteq> None
                     \<and> \<not> tty_stopped t \<and> \<not> tty_hw_stopped t
                  then sunix_ser_start_tx sp m else (sp, m))))"

definition snx_ser_start :: "sunix_ser_port \<Rightarrow> machine \<Rightarrow> (sunix_ser_port \<times> machine) option" where
  "snx_ser_start sp m = (if line_ok sp then snx_ser_start_locked sp m else Some (sp, m))"

definition snx_ser_stop :: "sunix_ser_port \<Rightarrow> machine \<Rightarrow> sunix_ser_port \<times> machine" where
  "snx_ser_stop sp m = (if line_ok sp then sunix_ser_stop_tx sp m else (sp, m))"

definition snx_ser_put_char :: "u8 \<Rightarrow> sunix_ser_port \<Rightarrow> sunix_ser_port option" where
  "snx_ser_put_char c sp =
    (if \<not> line_ok sp then Some sp
     else case sp_info sp of None \<Rightarrow> None | Some info \<Rightarrow> Some (set_xmit (circ_put_char c (si_xmit info)) sp))"

definition snx_ser_flush_chars :: "sunix_ser_port \<Rightarrow> machine \<Rightarrow> (sunix_ser_port \<times> machine) option" where
  "snx_ser_flush_chars sp m = (if line_ok sp then snx_ser_start sp m else Some (sp, m))"

definition snx_ser_chars_in_buffer :: "sunix_ser_port \<Rightarrow> int option" where
  "snx_ser_chars_in_buffer sp =
    (if \<not> line_ok sp then Some 0
     else case sp_info sp of None \<Rightarrow> None | Some info \<Rightarrow> Some (snx_ser_circ_chars_pending (si_xmit info)))"

definition snx_ser_write_room :: "sunix_ser_port \<Rightarrow> int option" where
  "snx_ser_write_room sp =
    (if \<not> line_ok sp then Some 0
     else case sp_info sp of None \<Rightarrow> None | Some info \<Rightarrow> Some (snx_ser_circ_chars_free (si_xmit info)))"

text \<open>The wake-up of the writers includes the line discipline's own, when it asked for one.\<close>

definition snx_ser_flush_buffer :: "sunix_ser_port \<Rightarrow> machine \<Rightarrow> sunix_ser_port \<times> machine" where
  "snx_ser_flush_buffer sp m =
    (if \<not> line_ok sp then (sp, m)
     else case sp_info sp of
       None \<Rightarrow> (sp, m)
     | Some info \<Rightarrow> (set_xmit (snx_ser_circ_clear (si_xmit info)) sp, emit WakeWrite m))"

definition snx_ser_write :: "u8 list \<Rightarrow> sunix_ser_port \<Rightarrow> machine \<Rightarrow> (int \<times> sunix_ser_port \<times> machine) option" where
  "snx_ser_write buf sp m =
    (case sp_info sp of
       None \<Rightarrow> Some (- EL3HLT, sp, m)
     | Some info \<Rightarrow>
        (if cb_buf (si_xmit info) = None then Some (0, sp, m)
         else
          (let (circ, ret) = circ_write buf (si_xmit info) 0 in
           case snx_ser_start (set_xmit circ sp) m of
             None \<Rightarrow> None
           | Some (sp1, m1) \<Rightarrow> Some (ret, sp1, m1))))"

definition snx_ser_write_wakeup :: "machine \<Rightarrow> machine" where
  "snx_ser_write_wakeup m = emit TaskletSchedule m"

definition snx_ser_tasklet_action :: "sunix_ser_port \<Rightarrow> machine \<Rightarrow> machine option" where
  "snx_ser_tasklet_action sp m =
    (case sp_info sp of
       None \<Rightarrow> None
     | Some info \<Rightarrow> Some (if si_tty info \<noteq> None then emit WakeWrite m else m))"

subsection \<open>Flow control\<close>

definition snx_ser_send_xchar :: "u8 \<Rightarrow> sunix_ser_port \<Rightarrow> machine \<Rightarrow> sunix_ser_port \<times> machine" where
  "snx_ser_send_xchar ch sp m =
    (if \<not> line_ok sp then (sp, m)
     else
      (let sp1 = sp\<lparr>sp_x_char := ch\<rparr> in if ch \<noteq> 0 then sunix_ser_start_tx sp1 m else (sp1, m)))"

definition snx_ser_throttle :: "sunix_ser_port \<Rightarrow> machine \<Rightarrow> (sunix_ser_port \<times> machine) option" where
  "snx_ser_throttle sp m =
    (if \<not> line_ok sp then Some (sp, m)
     else case port_tty sp of
       None \<Rightarrow> None
     | Some t \<Rightarrow>
        (let sp1 = sp\<lparr>sp_ldisc_stop_rx := 1\<rparr>;
             (sp2, m2) = (if has (tty_c_iflag t) IXOFF then snx_ser_send_xchar (tty_stop_char t) sp1 m else (sp1, m))
         in Some (if has (tty_c_cflag t) CRTSCTS then snx_ser_update_mctrl sp2 0 TIOCM_RTS m2 else (sp2, m2))))"

definition snx_ser_unthrottle :: "sunix_ser_port \<Rightarrow> machine \<Rightarrow> (sunix_ser_port \<times> machine) option" where
  "snx_ser_unthrottle sp m =
    (if \<not> line_ok sp then Some (sp, m)
     else case port_tty sp of
       None \<Rightarrow> None
     | Some t \<Rightarrow>
        (let sp1 = sp\<lparr>sp_ldisc_stop_rx := 0\<rparr>;
             (sp2, m2) = (if has (tty_c_iflag t) IXOFF then
                            if sp_x_char sp1 \<noteq> 0 then (sp1\<lparr>sp_x_char := 0\<rparr>, m)
                            else snx_ser_send_xchar (tty_start_char t) sp1 m
                          else (sp1, m))
         in Some (if has (tty_c_cflag t) CRTSCTS then snx_ser_update_mctrl sp2 TIOCM_RTS 0 m2 else (sp2, m2))))"

subsection \<open>Termios\<close>

definition or_flag :: "bool \<Rightarrow> u32 \<Rightarrow> u32 \<Rightarrow> u32" where
  "or_flag b f x = (if b then x OR f else x AND NOT f)"

definition snx_ser_change_speed :: "u32 \<Rightarrow> sunix_ser_port \<Rightarrow> ktermios option \<Rightarrow> machine \<Rightarrow> (sunix_ser_port \<times> machine) option" where
  "snx_ser_change_speed HZ sp old m =
    (case sp_info sp of
       None \<Rightarrow> None
     | Some info \<Rightarrow>
        (case si_tty info of
           None \<Rightarrow> Some (sp, m)
         | Some t \<Rightarrow>
            (if sp_type sp = PORT_UNKNOWN then Some (sp, m)
             else
              (let cflag = tty_c_cflag t;
                   flags = or_flag (\<not> has cflag CLOCAL) SNX_UIF_CHECK_CD
                             (or_flag (has cflag CRTSCTS) SNX_UIF_CTS_FLOW (si_flags info));
                   sp1 = upd_info (\<lambda>i. i\<lparr>si_flags := flags\<rparr>) sp
               in
                case sunix_ser_set_termios HZ sp1 \<lparr>tm_cflag = cflag, tm_iflag = tty_c_iflag t\<rparr> old m of
                  None \<Rightarrow> None
                | Some (tm, sp2, m2) \<Rightarrow> Some (upd_tty (\<lambda>t. t\<lparr>tty_c_cflag := tm_cflag tm\<rparr>) sp2, m2)))))"

definition RELEVANT_IFLAG :: "u32 \<Rightarrow> u32" where
  "RELEVANT_IFLAG iflag = iflag AND (IGNBRK OR BRKINT OR IGNPAR OR PARMRK OR INPCK)"

text \<open>\<open>cflag\<close> is read once, before the speed is changed, and used for all the tests.\<close>

definition snx_ser_set_termios :: "u32 \<Rightarrow> sunix_ser_port \<Rightarrow> ktermios \<Rightarrow> machine \<Rightarrow> (sunix_ser_port \<times> machine) option" where
  "snx_ser_set_termios HZ sp old m =
    (case port_tty sp of
       None \<Rightarrow> None
     | Some t \<Rightarrow>
        (let cflag = tty_c_cflag t in
         if \<not> line_ok sp then Some (sp, m)
         else if cflag XOR tm_cflag old = 0 \<and> RELEVANT_IFLAG (tty_c_iflag t XOR tm_iflag old) = 0 then Some (sp, m)
         else
          (case snx_ser_change_speed HZ sp (Some old) m of
             None \<Rightarrow> None
           | Some (sp1, m1) \<Rightarrow>
              (let (sp2, m2) = (if has (tm_cflag old) CBAUD \<and> \<not> has cflag CBAUD
                                then snx_ser_update_mctrl sp1 0 (TIOCM_RTS OR TIOCM_DTR) m1 else (sp1, m1));
                   (sp3, m3) = (if \<not> has (tm_cflag old) CBAUD \<and> has cflag CBAUD
                                then snx_ser_update_mctrl sp2
                                       (if \<not> has cflag CRTSCTS \<or> \<not> tty_throttled t then TIOCM_DTR OR TIOCM_RTS else TIOCM_DTR)
                                       0 m2
                                else (sp2, m2))
               in
                if has (tm_cflag old) CRTSCTS \<and> \<not> has cflag CRTSCTS
                then snx_ser_start_locked (upd_tty (\<lambda>t. t\<lparr>tty_hw_stopped := False\<rparr>) sp3) m3
                else Some (sp3, m3)))))"

definition snx_ser_update_termios :: "u32 \<Rightarrow> sunix_ser_port \<Rightarrow> machine \<Rightarrow> (sunix_ser_port \<times> machine) option" where
  "snx_ser_update_termios HZ sp m =
    (case port_tty sp of
       None \<Rightarrow> None
     | Some t \<Rightarrow>
        (if tty_io_error t then Some (sp, m)
         else case snx_ser_change_speed HZ sp None m of
           None \<Rightarrow> None
         | Some (sp1, m1) \<Rightarrow>
            (case port_tty sp1 of
               None \<Rightarrow> None
             | Some t1 \<Rightarrow> Some (if has (tty_c_cflag t1) CBAUD
                                then snx_ser_update_mctrl sp1 (TIOCM_DTR OR TIOCM_RTS) 0 m1 else (sp1, m1)))))"

subsection \<open>Starting and stopping the line\<close>

text \<open>
  \<open>alloc\<close>: does \<^verbatim>\<open>get_zeroed_page\<close> give a page; \<open>admin\<close>: has the caller \<^verbatim>\<open>CAP_SYS_ADMIN\<close>.
\<close>

definition snx_ser_startup :: "u32 \<Rightarrow> bool \<Rightarrow> bool \<Rightarrow> sunix_ser_port \<Rightarrow> bool \<Rightarrow> machine
    \<Rightarrow> (int \<times> sunix_ser_port \<times> machine) option" where
  "snx_ser_startup HZ alloc admin sp init_hw m =
    (case sp_info sp of
       None \<Rightarrow> None
     | Some info \<Rightarrow>
        (if has (si_flags info) SNX_UIF_INITIALIZED then Some (0, sp, m)
         else
          (let sp1 = upd_tty (\<lambda>t. t\<lparr>tty_io_error := True\<rparr>) sp in
           if sp_type sp1 = PORT_UNKNOWN then Some (0, sp1, m)
           else if cb_buf (si_xmit info) = None \<and> \<not> alloc then Some (- ENOMEM, sp1, m)
           else
            (let sp2 = (if cb_buf (si_xmit info) = None
                        then set_xmit \<lparr>cb_buf = Some (replicate 4096 0), cb_head = 0, cb_tail = 0\<rparr> sp1 else sp1) in
             case sunix_ser_startup sp2 m of
               None \<Rightarrow> None
             | Some (retval, sp3, m3) \<Rightarrow>
                (if retval \<noteq> 0 then Some (if admin then 0 else retval, sp3, m3)
                 else
                  (case (if init_hw then
                           (case snx_ser_change_speed HZ sp3 None m3 of
                              None \<Rightarrow> None
                            | Some (sp4, m4) \<Rightarrow>
                               (case port_tty sp4 of
                                  None \<Rightarrow> None
                                | Some t \<Rightarrow> Some (if has (tty_c_cflag t) CBAUD
                                    then snx_ser_update_mctrl sp4 (TIOCM_RTS OR TIOCM_DTR) 0 m4 else (sp4, m4))))
                         else Some (sp3, m3)) of
                     None \<Rightarrow> None
                   | Some (sp5, m5) \<Rightarrow>
                      (if port_tty sp5 = None then None
                       else Some (0, upd_tty (\<lambda>t. t\<lparr>tty_io_error := False\<rparr>)
                              (upd_info (\<lambda>i. i\<lparr>si_flags := si_flags i OR SNX_UIF_INITIALIZED\<rparr>) sp5), m5))))))))"

definition snx_ser_shutdown :: "sunix_ser_port \<Rightarrow> machine \<Rightarrow> (sunix_ser_port \<times> machine) option" where
  "snx_ser_shutdown sp m =
    (case sp_info sp of
       None \<Rightarrow> None
     | Some info \<Rightarrow>
        (if \<not> has (si_flags info) SNX_UIF_INITIALIZED then Some (sp, m)
         else
          (let hup = (case si_tty info of None \<Rightarrow> True | Some t \<Rightarrow> has (tty_c_cflag t) HUPCL);
               (sp1, m1) = (if hup then snx_ser_update_mctrl sp 0 (TIOCM_DTR OR TIOCM_RTS) m else (sp, m));
               (sp2, m2) = sunix_ser_shutdown sp1 (emit WakeDelta m1)
           in Some (upd_info (\<lambda>i. i\<lparr>si_xmit := (si_xmit i)\<lparr>cb_buf := None\<rparr>,
                                   si_tty := map_option (\<lambda>t. t\<lparr>tty_io_error := True\<rparr>) (si_tty i),
                                   si_flags := si_flags i AND NOT SNX_UIF_INITIALIZED\<rparr>) sp2, m2))))"

subsection \<open>Modem lines, break and line status\<close>

definition snx_ser_tiocmget :: "sunix_ser_port \<Rightarrow> machine \<Rightarrow> (int \<times> machine) option" where
  "snx_ser_tiocmget sp m =
    (if \<not> line_ok sp then Some (0, m)
     else case port_tty sp of
       None \<Rightarrow> None
     | Some t \<Rightarrow>
        (if tty_io_error t then Some (- EIO, m)
         else (let (lines, m1) = sunix_ser_get_mctrl sp m in Some (sint (sp_mctrl sp OR lines), m1))))"

definition snx_ser_tiocmset :: "u32 \<Rightarrow> u32 \<Rightarrow> sunix_ser_port \<Rightarrow> machine \<Rightarrow> (int \<times> sunix_ser_port \<times> machine) option" where
  "snx_ser_tiocmset sets clear sp m =
    (if \<not> line_ok sp then Some (0, sp, m)
     else case port_tty sp of
       None \<Rightarrow> None
     | Some t \<Rightarrow>
        (if tty_io_error t then Some (- EIO, sp, m)
         else (let (sp1, m1) = snx_ser_update_mctrl sp sets clear m in Some (0, sp1, m1))))"

definition snx_ser_break_ctl :: "int \<Rightarrow> sunix_ser_port \<Rightarrow> machine \<Rightarrow> sunix_ser_port \<times> machine" where
  "snx_ser_break_ctl break_state sp m =
    (if line_ok sp \<and> sp_type sp \<noteq> PORT_UNKNOWN then sunix_ser_break_ctl sp break_state m else (sp, m))"

definition snx_ser_get_lsr_info :: "sunix_ser_port \<Rightarrow> machine \<Rightarrow> (u32 \<times> machine) option" where
  "snx_ser_get_lsr_info sp m =
    (let (result, m1) = sunix_ser_tx_empty sp m in
     if sp_x_char sp \<noteq> 0 then Some (result AND NOT TIOCSER_TEMT, m1)
     else case sp_info sp of
       None \<Rightarrow> None
     | Some info \<Rightarrow>
        (if snx_ser_circ_chars_pending (si_xmit info) > 0 then
           (case si_tty info of
              None \<Rightarrow> None
            | Some t \<Rightarrow> Some (if \<not> tty_stopped t \<and> \<not> tty_hw_stopped t then result AND NOT TIOCSER_TEMT else result, m1))
         else Some (result, m1)))"

subsection \<open>A line for examples\<close>

definition example_tty :: tty where
  "example_tty = \<lparr>tty_stopped = False, tty_hw_stopped = False, tty_c_cflag = 0x8bd, tty_c_iflag = 0,
     tty_start_char = 17, tty_stop_char = 19, tty_io_error = False, tty_throttled = False\<rparr>"

definition example_info :: snx_ser_info where
  "example_info = \<lparr>si_tty = Some example_tty, si_xmit = \<lparr>cb_buf = Some (replicate 4096 0), cb_head = 0, cb_tail = 0\<rparr>,
     si_flags = SNX_UIF_INITIALIZED, si_blocked_open = 0\<rparr>"

definition example_line :: sunix_ser_port where
  "example_line = example_uart\<lparr>sp_info := Some example_info\<rparr>"

text \<open>The same line before it is started: no buffer yet.\<close>

definition closed_line :: sunix_ser_port where
  "closed_line = example_uart\<lparr>sp_info := Some (example_info\<lparr>si_xmit := \<lparr>cb_buf = None, cb_head = 0, cb_tail = 0\<rparr>, si_flags := 0\<rparr>)\<rparr>"

lemma example_xmit_ok: "circ_ok (si_xmit example_info)"
  by (simp add: example_info_def circ_ok_def)

subsection \<open>Writing is putting characters\<close>

primrec put_chars :: "u8 list \<Rightarrow> sunix_ser_port \<Rightarrow> sunix_ser_port option" where
  "put_chars [] sp = Some sp"
| "put_chars (c # cs) sp = (case snx_ser_put_char c sp of None \<Rightarrow> None | Some sp1 \<Rightarrow> put_chars cs sp1)"

lemma put_chars_ring:
  "line_ok sp \<Longrightarrow> sp_info sp = Some info \<Longrightarrow> put_chars cs sp = Some (set_xmit (ring.puts cs (si_xmit info)) sp)"
proof (induction cs arbitrary: sp info)
  case Nil
  then show ?case by (simp add: set_xmit_def upd_info_def)
next
  case (Cons c cs)
  let ?sp = "set_xmit (circ_put_char c (si_xmit info)) sp"
  have "line_ok ?sp" "sp_info ?sp = Some (info\<lparr>si_xmit := circ_put_char c (si_xmit info)\<rparr>)"
    using Cons.prems by (simp_all add: line_ok_def set_xmit_def upd_info_def)
  from Cons.IH [OF this] show ?case using Cons.prems by (simp add: snx_ser_put_char_def set_xmit_def upd_info_def)
qed

text \<open>
  C10. \<open>write\<close>, which copies at most twice into the page, is equivalent to the tty layer's other way to send:
  \<open>put_char\<close> for every byte, the ones without room dropped, then \<open>flush_chars\<close>. The line, its ring buffer
  byte for byte, the chip and the trace end up the same. The result says how many bytes had room.
\<close>

theorem write_is_put_chars:
  assumes "line_ok sp" and "sp_info sp = Some info" and "circ_ok (si_xmit info)"
  shows "snx_ser_write buf sp m = map_option (\<lambda>(sp', m'). (int (min (length buf) (circ_room (si_xmit info))), sp', m'))
    (case put_chars buf sp of None \<Rightarrow> None | Some sp1 \<Rightarrow> snx_ser_flush_chars sp1 m)"
proof -
  obtain circ r where w: "circ_write buf (si_xmit info) 0 = (circ, r)" by fastforce
  have circ: "circ = ring.puts buf (si_xmit info)" "r = int (min (length buf) (circ_room (si_xmit info)))"
    using circ_write_puts [OF assms(3), of buf 0] circ_write_content [OF assms(3), of buf 0] w by simp_all
  have "line_ok (set_xmit circ sp)" using assms(1) by (simp add: line_ok_def set_xmit_def upd_info_def)
  moreover have "cb_buf (si_xmit info) \<noteq> None" using assms(3) by (auto simp: circ_ok_def)
  ultimately show ?thesis using assms(2) w circ put_chars_ring [OF assms(1,2), of buf]
    by (auto simp: snx_ser_write_def snx_ser_flush_chars_def map_option_case split: option.split)
qed

theorem write_is_put_chars_witness:
  "snx_ser_write [1, 2] example_line idle_machine
    = map_option (\<lambda>(sp', m'). (2, sp', m')) (snx_ser_flush_chars (set_xmit (circ_put_char 2 (circ_put_char 1 (si_xmit example_info))) example_line) idle_machine)"
proof -
  have ok: "line_ok example_line" and i: "sp_info example_line = Some example_info"
    by (simp_all add: example_line_def example_uart_def zero_ser_port_def line_ok_def)
  have "circ_room (si_xmit example_info) = 4095"
    by (simp add: circ_room_def snx_ser_circ_chars_free_def CIRC_SPACE_def CIRC_CNT_def example_info_def)
  then show ?thesis using write_is_put_chars [OF ok i example_xmit_ok, of "[1, 2]" idle_machine] put_chars_ring [OF ok i, of "[1, 2]"] by simp
qed

end
