(* ===== verification/Snx_Open.thy ===== *)
theory Snx_Open
  imports Snx_Tty
begin

text \<open>
  Opening, closing and hanging up a serial line (driver/snx_serial.c), with the waits for the
  carrier and for the transmitter. A function that sleeps hands the line and the machine to
  \<open>se_sleep\<close>, which stands for whatever runs meanwhile. \<open>None\<close> is a NULL \<^verbatim>\<open>info\<close> or \<^verbatim>\<open>tty\<close> that the code
  follows, or a wait that never ends.
\<close>

section \<open>Opening and closing a line\<close>

subsection \<open>The kernel around a line\<close>

abbreviation (input) SNX_USF_CLOSING_WAIT_NONE :: u32 where "SNX_USF_CLOSING_WAIT_NONE \<equiv> 65535"

text \<open>
  The kernel's answers: is the file hung up, at a point of the history; was the semaphore taken
  without a signal; do the allocations of \<^verbatim>\<open>info\<close> and of the page succeed; \<^verbatim>\<open>O_NONBLOCK\<close>;
  \<^verbatim>\<open>CAP_SYS_ADMIN\<close>; the tty of the open and its count.
\<close>

record ser_env =
  se_sleep :: "snx_ser_state \<Rightarrow> machine \<Rightarrow> snx_ser_state \<times> machine"
  se_hung_up :: "event list \<Rightarrow> bool"
  se_HZ :: u32
  se_sem :: bool
  se_alloc_info :: bool
  se_alloc_page :: bool
  se_nonblock :: bool
  se_admin :: bool
  se_tty :: tty
  se_tty_count :: int

definition upd_line :: "(sunix_ser_port \<Rightarrow> sunix_ser_port) \<Rightarrow> snx_ser_state \<Rightarrow> snx_ser_state" where
  "upd_line f st = st\<lparr>ss_port := f (ss_port st)\<rparr>"

definition zero_info :: snx_ser_info where
  "zero_info = \<lparr>si_tty = None, si_xmit = \<lparr>cb_buf = None, cb_head = 0, cb_tail = 0\<rparr>, si_flags = 0, si_blocked_open = 0\<rparr>"

text \<open>On success the count is one higher, and the line's semaphore is held.\<close>

definition snx_ser_get :: "ser_env \<Rightarrow> snx_ser_state \<Rightarrow> int \<times> snx_ser_state" where
  "snx_ser_get env st =
    (if \<not> se_sem env then (- ERESTARTSYS, st)
     else
      (let st1 = st\<lparr>ss_count := ss_count st + 1\<rparr> in
       if sp_iobase (ss_port st1) = 0 then (- ENXIO, st1\<lparr>ss_count := ss_count st1 - 1\<rparr>)
       else if sp_info (ss_port st1) = None then
        (if se_alloc_info env then (0, upd_line (\<lambda>sp. sp\<lparr>sp_info := Some zero_info\<rparr>) st1)
         else (- ENOMEM, st1\<lparr>ss_count := ss_count st1 - 1\<rparr>))
       else (0, st1)))"

subsection \<open>Waiting for the carrier\<close>

partial_function (option) ready_loop :: "ser_env \<Rightarrow> snx_ser_state \<Rightarrow> machine \<Rightarrow> (snx_ser_state \<times> machine) option" where
  "ready_loop env st m =
    (case sp_info (ss_port st) of
       None \<Rightarrow> None
     | Some info \<Rightarrow>
        (case si_tty info of
           None \<Rightarrow> Some (st, m)
         | Some t \<Rightarrow>
            if se_hung_up env (trace m) then Some (st, m)
            else if \<not> has (si_flags info) SNX_UIF_INITIALIZED then Some (st, m)
            else if se_nonblock env \<or> has (tty_c_cflag t) CLOCAL \<or> tty_io_error t then Some (st, m)
            else
             (case (if has (tty_c_cflag t) CBAUD then snx_ser_update_mctrl (ss_port st) TIOCM_DTR 0 m else (ss_port st, m)) of
                (sp1, m1) \<Rightarrow>
              case sunix_ser_get_mctrl sp1 m1 of (lines, m2) \<Rightarrow>
                if has lines TIOCM_CAR then Some (st\<lparr>ss_port := sp1\<rparr>, m2)
                else
                 (case se_sleep env (st\<lparr>ss_port := sp1\<rparr>) (emit Schedule m2) of (st2, m3) \<Rightarrow>
                  case signal_pending m3 of (sig, m4) \<Rightarrow>
                    if sig then Some (st2, m4) else ready_loop env st2 m4))))"

definition snx_ser_block_til_ready :: "ser_env \<Rightarrow> snx_ser_state \<Rightarrow> machine \<Rightarrow> (int \<times> snx_ser_state \<times> machine) option" where
  "snx_ser_block_til_ready env st m =
    (if sp_info (ss_port st) = None then None
     else
      (case ready_loop env (upd_line (upd_info (\<lambda>i. i\<lparr>si_blocked_open := si_blocked_open i + 1\<rparr>))
                              (st\<lparr>ss_count := ss_count st - 1\<rparr>)) m of
         None \<Rightarrow> None
       | Some (st1, m1) \<Rightarrow>
          (let st2 = upd_line (upd_info (\<lambda>i. i\<lparr>si_blocked_open := si_blocked_open i - 1\<rparr>)) (st1\<lparr>ss_count := ss_count st1 + 1\<rparr>);
               (sig, m2) = signal_pending m1
           in if sp_info (ss_port st2) = None then None
              else if sig then Some (- ERESTARTSYS, st2, m2)
              else if port_tty (ss_port st2) = None \<or> se_hung_up env (trace m2) then Some (- EAGAIN, st2, m2)
              else Some (0, st2, m2))))"

subsection \<open>Waiting for the transmitter\<close>

text \<open>A tick count of 32 bits; \<^verbatim>\<open>timeout\<close> is an \<^verbatim>\<open>int\<close>, and the comparison with \<^verbatim>\<open>char_time\<close> is unsigned.\<close>

partial_function (option) sent_loop :: "ser_env \<Rightarrow> u64 \<Rightarrow> u64 \<Rightarrow> snx_ser_state \<Rightarrow> machine \<Rightarrow> (snx_ser_state \<times> machine) option" where
  "sent_loop env char_time expire st m =
    (case sunix_ser_tx_empty (ss_port st) m of (temt, m1) \<Rightarrow>
      if temt \<noteq> 0 then Some (st, m1)
      else
       (case se_sleep env st (emit (Sleep char_time) m1) of (st1, m2) \<Rightarrow>
        case signal_pending m2 of (sig, m3) \<Rightarrow>
          if sig then Some (st1, m3)
          else
           (case jiffies m3 of (now, m4) \<Rightarrow>
             if time_before expire now then Some (st1, m4) else sent_loop env char_time expire st1 m4)))"

definition sent_char_time :: "u32 \<Rightarrow> u32 \<Rightarrow> sunix_ser_port \<Rightarrow> u64" where
  "sent_char_time HZ timeout sp =
    (let t = (sp_timeout sp - HZ div 50) div ucast (sp_fifosize sp) div 5;
         char_time = (if t = 0 then 1 else ucast t)
     in if timeout \<noteq> 0 \<and> scast timeout < char_time then scast timeout else char_time)"

definition sent_limit :: "u32 \<Rightarrow> sunix_ser_port \<Rightarrow> u64" where
  "sent_limit timeout sp =
    scast (if timeout = 0 \<or> timeout > 2 * sp_timeout sp then 2 * sp_timeout sp else timeout)"

definition snx_ser_wait_until_sent :: "ser_env \<Rightarrow> u32 \<Rightarrow> snx_ser_state \<Rightarrow> machine \<Rightarrow> (snx_ser_state \<times> machine) option" where
  "snx_ser_wait_until_sent env timeout st m =
    (let sp = ss_port st in
     if \<not> line_ok sp then Some (st, m)
     else if sp_type sp = PORT_UNKNOWN \<or> sp_fifosize sp = 0 then Some (st, m)
     else
      (let (now, m1) = jiffies m
       in sent_loop env (sent_char_time (se_HZ env) timeout sp) (now + sent_limit timeout sp) st m1))"

subsection \<open>Open, close and hangup\<close>

definition snx_ser_open :: "ser_env \<Rightarrow> snx_ser_state \<Rightarrow> machine \<Rightarrow> (int \<times> snx_ser_state \<times> machine) option" where
  "snx_ser_open env st m =
    (if \<not> line_ok (ss_port st) then Some (0, st, m)
     else
      (case snx_ser_get env st of (r, st1) \<Rightarrow>
        if r \<noteq> 0 then Some (r, st1, m)
        else
         (let st2 = upd_line (\<lambda>sp. upd_info (\<lambda>i. i\<lparr>si_tty := Some (se_tty env)\<rparr>) (sp\<lparr>sp_suspended := 1\<rparr>)) st1 in
          if se_hung_up env (trace m) then Some (- EAGAIN, st2\<lparr>ss_count := ss_count st2 - 1\<rparr>, m)
          else
           (case snx_ser_startup (se_HZ env) (se_alloc_page env) (se_admin env) (ss_port st2) False m of
              None \<Rightarrow> None
            | Some (r1, sp3, m3) \<Rightarrow>
               (case (if r1 = 0 then snx_ser_block_til_ready env (st2\<lparr>ss_port := sp3\<rparr>) m3
                      else Some (r1, st2\<lparr>ss_port := sp3\<rparr>, m3)) of
                  None \<Rightarrow> None
                | Some (r2, st4, m4) \<Rightarrow>
                   (case sp_info (ss_port st4) of
                      None \<Rightarrow> None
                    | Some info \<Rightarrow>
                       (if r2 = 0 \<and> \<not> has (si_flags info) SNX_UIF_NORMAL_ACTIVE then
                          (case snx_ser_update_termios (se_HZ env)
                                  (upd_info (\<lambda>i. i\<lparr>si_flags := si_flags i OR SNX_UIF_NORMAL_ACTIVE\<rparr>) (ss_port st4)) m4 of
                             None \<Rightarrow> None
                           | Some (sp5, m5) \<Rightarrow> Some (r2, st4\<lparr>ss_port := sp5\<rparr>, m5))
                        else Some (r2, st4, m4))))))))"

text \<open>What the last close does: \<open>Sleep\<close> within \<open>WaitSent\<close> is the kernel's business.\<close>

definition close_wait :: "ser_env \<Rightarrow> snx_ser_state \<Rightarrow> machine \<Rightarrow> snx_ser_state \<times> machine" where
  "close_wait env st m =
    (if ss_closing_wait st \<noteq> SNX_USF_CLOSING_WAIT_NONE then se_sleep env st (emit (WaitSent (ucast (ss_closing_wait st))) m)
     else (st, m))"

definition close_drain :: "ser_env \<Rightarrow> snx_ser_state \<Rightarrow> machine \<Rightarrow> (snx_ser_state \<times> machine) option" where
  "close_drain env st m =
    (case sp_info (ss_port st) of
       None \<Rightarrow> None
     | Some info \<Rightarrow>
        (if has (si_flags info) SNX_UIF_INITIALIZED then
          (case sunix_ser_stop_rx (ss_port st) m of
             (sp, m1) \<Rightarrow> snx_ser_wait_until_sent env (sp_timeout sp) (st\<lparr>ss_port := sp\<rparr>) m1)
         else Some (st, m)))"

definition close_delay :: "ser_env \<Rightarrow> snx_ser_state \<Rightarrow> machine \<Rightarrow> (snx_ser_state \<times> machine) option" where
  "close_delay env st m =
    (case sp_info (ss_port st) of
       None \<Rightarrow> None
     | Some info \<Rightarrow>
        Some (if si_blocked_open info \<noteq> 0 \<and> ss_close_delay st \<noteq> 0
              then se_sleep env st (emit (Sleep (ucast (ss_close_delay st))) m) else (st, m)))"

definition close_last :: "ser_env \<Rightarrow> snx_ser_state \<Rightarrow> machine \<Rightarrow> (snx_ser_state \<times> machine) option" where
  "close_last env st m =
    (case close_wait env (upd_line (\<lambda>sp. sp\<lparr>sp_suspended := 0\<rparr>) st) m of (st1, m1) \<Rightarrow>
     case close_drain env st1 m1 of
       None \<Rightarrow> None
     | Some (st2, m2) \<Rightarrow>
        (case snx_ser_shutdown (ss_port st2) m2 of
           None \<Rightarrow> None
         | Some (sp3, m3) \<Rightarrow>
            (case snx_ser_flush_buffer sp3 m3 of (sp4, m4) \<Rightarrow>
             case close_delay env (st2\<lparr>ss_port := upd_info (\<lambda>i. i\<lparr>si_tty := None\<rparr>) sp4\<rparr>) (emit LdiscFlush m4) of
               None \<Rightarrow> None
             | Some (st5, m5) \<Rightarrow>
                (if sp_info (ss_port st5) = None then None
                 else Some (upd_line (upd_info (\<lambda>i. i\<lparr>si_flags := si_flags i AND NOT SNX_UIF_NORMAL_ACTIVE\<rparr>)) st5,
                            emit WakeOpen m5)))))"

definition snx_ser_close :: "ser_env \<Rightarrow> snx_ser_state \<Rightarrow> machine \<Rightarrow> (snx_ser_state \<times> machine) option" where
  "snx_ser_close env st m =
    (if \<not> line_ok (ss_port st) then Some (st, m)
     else if se_hung_up env (trace m) then Some (st, m)
     else
      (let st1 = (if se_tty_count env = 1 \<and> ss_count st \<noteq> 1 then st\<lparr>ss_count := 1\<rparr> else st);
           st2 = st1\<lparr>ss_count := ss_count st1 - 1\<rparr>;
           st3 = (if ss_count st2 < 0 then st2\<lparr>ss_count := 0\<rparr> else st2)
       in if ss_count st3 \<noteq> 0 then Some (st3, m) else close_last env st3 m))"

definition snx_ser_hangup :: "snx_ser_state \<Rightarrow> machine \<Rightarrow> (snx_ser_state \<times> machine) option" where
  "snx_ser_hangup st m =
    (if \<not> line_ok (ss_port st) then Some (st, m)
     else case sp_info (ss_port st) of
       None \<Rightarrow> Some (st, m)
     | Some info \<Rightarrow>
        (if \<not> has (si_flags info) SNX_UIF_NORMAL_ACTIVE then Some (st, m)
         else
          (case snx_ser_flush_buffer (ss_port st) m of (sp1, m1) \<Rightarrow>
           case snx_ser_shutdown sp1 m1 of
             None \<Rightarrow> None
           | Some (sp2, m2) \<Rightarrow>
              Some (st\<lparr>ss_count := 0,
                       ss_port := upd_info (\<lambda>i. i\<lparr>si_flags := si_flags i AND NOT SNX_UIF_NORMAL_ACTIVE, si_tty := None\<rparr>) sp2\<rparr>,
                    emit WakeDelta (emit WakeOpen m2)))))"

section \<open>The last close releases the line\<close>

text \<open>
  What may happen to a line while its close sleeps with the semaphore held: interrupts and the ring
  buffer's users go on, but nobody opens, closes, configures or restarts it.
\<close>

definition undisturbed :: "snx_ser_state \<Rightarrow> snx_ser_state \<Rightarrow> bool" where
  "undisturbed st st' \<longleftrightarrow> ss_count st' = ss_count st \<and> ss_close_delay st' = ss_close_delay st
     \<and> sp_line (ss_port st') = sp_line (ss_port st) \<and> sp_timeout (ss_port st') = sp_timeout (ss_port st)
     \<and> sp_suspended (ss_port st') = sp_suspended (ss_port st) \<and> (sp_ier (ss_port st) = 0 \<longrightarrow> sp_ier (ss_port st') = 0)
     \<and> rel_option (\<lambda>i i'. si_flags i' = si_flags i \<and> (si_tty i' = None \<longleftrightarrow> si_tty i = None)
          \<and> (cb_buf (si_xmit i') = None \<longleftrightarrow> cb_buf (si_xmit i) = None) \<and> si_blocked_open i' = si_blocked_open i)
        (sp_info (ss_port st)) (sp_info (ss_port st'))"

definition patient :: "ser_env \<Rightarrow> bool" where
  "patient env \<longleftrightarrow> (\<forall>st m. undisturbed st (fst (se_sleep env st m))
     \<and> (\<exists>us. ran m us (snd (se_sleep env st m)) \<and> looks us = 0))"

lemma undisturbed_refl [simp]: "undisturbed st st"
  by (auto simp: undisturbed_def option.rel_refl)

lemma undisturbed_trans:
  assumes "undisturbed st st1" and "undisturbed st1 st2"
  shows "undisturbed st st2"
  using assms by (cases "sp_info (ss_port st)"; cases "sp_info (ss_port st1)"; cases "sp_info (ss_port st2)") (auto simp: undisturbed_def)

lemma undisturbed_info:
  assumes "undisturbed st st'" and "sp_info (ss_port st) = Some i"
  obtains i' where "sp_info (ss_port st') = Some i'" "si_flags i' = si_flags i" "si_tty i' = None \<longleftrightarrow> si_tty i = None"
    "cb_buf (si_xmit i') = None \<longleftrightarrow> cb_buf (si_xmit i) = None" "si_blocked_open i' = si_blocked_open i"
  using assms by (cases "sp_info (ss_port st')") (auto simp: undisturbed_def)

lemma undisturbed_fields:
  assumes "undisturbed st st'"
  shows "ss_count st' = ss_count st" "ss_close_delay st' = ss_close_delay st" "sp_timeout (ss_port st') = sp_timeout (ss_port st)"
    "line_ok (ss_port st') = line_ok (ss_port st)" "sp_suspended (ss_port st') = sp_suspended (ss_port st)"
    "sp_ier (ss_port st) = 0 \<Longrightarrow> sp_ier (ss_port st') = 0"
  using assms by (simp_all add: undisturbed_def line_ok_def)

lemma patientD:
  assumes "patient env" and "se_sleep env st m = (st', m')"
  shows "undisturbed st st'" "\<exists>us. ran m us m' \<and> looks us = 0"
  using assms unfolding patient_def by (metis fst_conv snd_conv)+

lemma tx_empty_ran: "sunix_ser_tx_empty sp m = (v, m') \<Longrightarrow> \<exists>us. ran m us m' \<and> looks us = 0"
  by (intro exI [of _ "if sp_iobase sp = 0 then [] else [In (uart_addr sp UART_LSR) (m_in m (trace m) (uart_addr sp UART_LSR))]"])
    (auto simp: sunix_ser_tx_empty_def READ_UART_LSR_def uart_read_def inb_def Let_def ran_def emit_def split: if_splits)

text \<open>After the deadline plus one tick the deadline has passed.\<close>

lemma late_after: "\<not> time_before x (e + 1) \<Longrightarrow> time_before e x"
proof -
  have sign: "sint (w :: u64) < 0 \<longleftrightarrow> bit w 63" for w using bit_last_iff [of w] by simp
  assume "\<not> time_before x (e + 1)"
  then have "\<not> bit (x - e - 1) 63" by (simp add: time_before_def algebra_simps sign)
  moreover have "e - x = NOT (x - e - 1)" by (simp add: not_eq_complement)
  ultimately show "time_before e x" by (simp add: time_before_def sign bit_not_iff del: minus_diff_eq)
qed

text \<open>One round: it ends here, or it goes on with the time read before the deadline.\<close>

lemma sent_round:
  assumes p: "patient env"
    and go: "\<And>st1 m4 vs now. undisturbed st st1 \<Longrightarrow> ran m (vs @ [Jiffies now]) m4 \<Longrightarrow> looks vs = 0
      \<Longrightarrow> now = m_jiffies m (trace m @ vs) \<Longrightarrow> \<not> time_before expire now
      \<Longrightarrow> sent_loop env ct expire st m = sent_loop env ct expire st1 m4 \<Longrightarrow> P"
    and stop: "\<exists>st' m' vs. sent_loop env ct expire st m = Some (st', m') \<and> undisturbed st st' \<and> ran m vs m' \<Longrightarrow> P"
  shows P
proof -
  obtain e m1 where e: "sunix_ser_tx_empty (ss_port st) m = (e, m1)" by fastforce
  obtain us1 where us1: "ran m us1 m1" "looks us1 = 0" using tx_empty_ran [OF e] by blast
  obtain st1 m2 where sl: "se_sleep env st (emit (Sleep ct) m1) = (st1, m2)" by fastforce
  obtain us2 where us2: "ran (emit (Sleep ct) m1) us2 m2" "looks us2 = 0" using patientD(2) [OF p sl] by blast
  obtain sig m3 where sg: "signal_pending m2 = (sig, m3)" by fastforce
  obtain now m4 where j: "jiffies m3 = (now, m4)" by fastforce
  define vs where "vs = us1 @ [Sleep ct] @ us2 @ [SignalPending sig]"
  have r3: "ran m vs m3"
    using ran_trans [OF us1(1) ran_trans [OF ran_kernel(1) ran_trans [OF us2(1) ran_kernel(4) [OF sg]]]] by (simp add: vs_def)
  have r4: "ran m (vs @ [Jiffies now]) m4" using ran_trans [OF r3 ran_kernel(6) [OF j]] .
  have l: "looks vs = 0" using us1(2) us2(2) by (simp add: vs_def)
  have now: "now = m_jiffies m (trace m @ vs)" using j ran_oracles [OF r3] by (auto simp: jiffies_def Let_def)
  note u = patientD(1) [OF p sl]
  have loop: "sent_loop env ct expire st m = (if e \<noteq> 0 then Some (st, m1) else if sig then Some (st1, m3)
      else if time_before expire now then Some (st1, m4) else sent_loop env ct expire st1 m4)"
    using e sl sg j by (subst sent_loop.simps) simp
  show P
  proof (cases "e \<noteq> 0 \<or> sig \<or> time_before expire now")
    case True
    then show P using loop u us1(1) r3 r4 by (intro stop) (auto split: if_splits)
  next
    case False
    then show P using go [OF u r4 l now] loop by simp
  qed
qed

lemma sent_loop_ends:
  assumes p: "patient env" and late: "\<And>us. looks us = N \<Longrightarrow> time_before expire (m_jiffies m (ts @ us))"
    and "trace m = ts @ us" "looks us + k = N"
  shows "\<exists>st' m' vs. sent_loop env ct expire st m = Some (st', m') \<and> undisturbed st st' \<and> ran m vs m'"
  using assms
proof (induction k arbitrary: st m us)
  case (0 st m us)
  show ?case by (rule sent_round [OF p, where st = st and m = m and ct = ct and expire = expire]) (use 0 in \<open>auto simp: ran_oracles\<close>)
next
  case (Suc k st m us)
  show ?case
  proof (rule sent_round [OF p, where st = st and m = m and ct = ct and expire = expire])
    fix st1 m4 vs now
    assume r: "undisturbed st st1" "ran m (vs @ [Jiffies now]) m4" "looks vs = 0"
      "sent_loop env ct expire st m = sent_loop env ct expire st1 m4"
    have "trace m4 = ts @ (us @ vs @ [Jiffies now])" "looks (us @ vs @ [Jiffies now]) + k = N" "m_jiffies m4 = m_jiffies m"
      using r(2,3) Suc.prems(3,4) by (simp_all add: ran_oracles)
    then obtain st' m' ws where "sent_loop env ct expire st1 m4 = Some (st', m')" "undisturbed st1 st'" "ran m4 ws m'"
      using Suc.IH [of m4 "us @ vs @ [Jiffies now]" st1] Suc.prems(2) p by auto
    then show ?case using r(4) undisturbed_trans [OF r(1)] ran_trans [OF r(2)] by metis
  qed blast
qed

lemma wait_until_sent_ends:
  assumes p: "patient env" and clock: "clock_ok (sent_limit timeout (ss_port st) + 1) N m"
  shows "\<exists>st' m' vs. snx_ser_wait_until_sent env timeout st m = Some (st', m') \<and> undisturbed st st' \<and> ran m vs m'"
proof -
  obtain now m1 where j: "jiffies m = (now, m1)" by fastforce
  let ?limit = "sent_limit timeout (ss_port st)"
  have m1: "ran m [Jiffies now] m1" "now = m_jiffies m (trace m)" using ran_kernel(6) [OF j] j by (auto simp: jiffies_def Let_def)
  have "time_before (now + ?limit) (m_jiffies m1 (trace m @ us))" if "looks us = N" for us
  proof (rule late_after)
    have "\<not> time_before (m_jiffies m (trace m @ us)) (m_jiffies m (trace m) + (?limit + 1))"
      using clock that by (simp add: clock_ok_def)
    then show "\<not> time_before (m_jiffies m1 (trace m @ us)) (now + ?limit + 1)" using m1 by (simp add: ran_oracles add.assoc)
  qed
  moreover have "trace m1 = trace m @ [Jiffies now]" "looks [Jiffies now] + (N - 1) = N" using m1 clock by (simp_all add: ran_oracles clock_ok_def)
  ultimately obtain st' m' vs where
    "sent_loop env (sent_char_time (se_HZ env) timeout (ss_port st)) (now + ?limit) st m1 = Some (st', m')" "undisturbed st st'" "ran m1 vs m'"
    using sent_loop_ends [OF p] by blast
  then show ?thesis using j ran_trans [OF m1(1)] by (fastforce simp: snx_ser_wait_until_sent_def Let_def intro: exI [of _ "[]"])
qed

lemma stop_rx_undisturbed: "sunix_ser_stop_rx (ss_port st) m = (sp, m') \<Longrightarrow> undisturbed st (st\<lparr>ss_port := sp\<rparr>)"
  by (auto simp: sunix_ser_stop_rx_def undisturbed_def Let_def option.rel_refl)

lemma stop_rx_ran: "sunix_ser_stop_rx sp m = (sp', m') \<Longrightarrow> (\<exists>us. ran m us m') \<and> sp_timeout sp' = sp_timeout sp"
  by (auto simp: sunix_ser_stop_rx_def Let_def uart_access uart_write_def outb_def ran_def emit_def
      intro: exI [of _ "[]"] split: if_splits)

lemma absent_flag: "(f :: 'a::len word) AND x = 0 \<Longrightarrow> f AND NOT x = f"
  using bit.conj_disj_distrib [of f x "NOT x"] by simp

text \<open>Shutting the line down, with the chip's interrupts off and the page freed.\<close>

lemma shutdown_result:
  assumes i: "sp_info sp = Some i"
  shows "\<exists>sp' m' i'. snx_ser_shutdown sp m = Some (sp', m') \<and> sp_info sp' = Some i'
    \<and> si_flags i' = si_flags i AND NOT SNX_UIF_INITIALIZED \<and> si_blocked_open i' = si_blocked_open i
    \<and> sp_line sp' = sp_line sp \<and> sp_suspended sp' = sp_suspended sp
    \<and> (has (si_flags i) SNX_UIF_INITIALIZED \<longrightarrow> cb_buf (si_xmit i') = None \<and> sp_ier sp' = 0)"
proof (cases "has (si_flags i) SNX_UIF_INITIALIZED")
  case False
  then have "si_flags i AND NOT SNX_UIF_INITIALIZED = si_flags i"
    by (intro absent_flag) simp
  then show ?thesis using False i by (simp add: snx_ser_shutdown_def)
next
  case True
  then show ?thesis using i
    by (auto simp: snx_ser_shutdown_def snx_ser_update_mctrl_def sunix_ser_shutdown_def upd_info_def Let_def split: prod.splits)
qed

lemma close_last_releases:
  assumes p: "patient env" and ok: "line_ok (ss_port st)" and i: "sp_info (ss_port st) = Some i"
    and clock: "clock_ok (sent_limit (sp_timeout (ss_port st)) (ss_port st) + 1) N m"
  shows "\<exists>st' m' i'. close_last env st m = Some (st', m') \<and> ss_count st' = ss_count st \<and> sp_suspended (ss_port st') = 0
    \<and> sp_info (ss_port st') = Some i' \<and> si_tty i' = None
    \<and> si_flags i' = si_flags i AND NOT SNX_UIF_INITIALIZED AND NOT SNX_UIF_NORMAL_ACTIVE
    \<and> (has (si_flags i) SNX_UIF_INITIALIZED \<longrightarrow> cb_buf (si_xmit i') = None \<and> sp_ier (ss_port st') = 0)"
proof -
  define st1 where "st1 = upd_line (\<lambda>sp. sp\<lparr>sp_suspended := 0\<rparr>) st"
  obtain st2 m2 where 2: "close_wait env st1 m = (st2, m2)" by fastforce
  have u2: "undisturbed st1 st2" "\<exists>us. ran m us m2"
    using 2 patientD [OF p] ran_trans [OF ran_kernel(1)] unfolding close_wait_def
    by (auto intro: exI [of _ "[]"] split: if_splits) metis
  have "sp_info (ss_port st1) = Some i" using i by (simp add: st1_def upd_line_def)
  then obtain i2 where i2: "sp_info (ss_port st2) = Some i2" "si_flags i2 = si_flags i" using undisturbed_info [OF u2(1)] by metis
  have clock2: "clock_ok (sent_limit (sp_timeout (ss_port st2)) (ss_port st2) + 1) N m2"
    using u2 clock undisturbed_fields(3) [OF u2(1)] by (auto simp: clock_ok_def ran_oracles sent_limit_def st1_def upd_line_def)
  obtain st4 m4 where 4: "close_drain env st2 m2 = Some (st4, m4)" "undisturbed st2 st4"
  proof (cases "has (si_flags i2) SNX_UIF_INITIALIZED")
    case True
    obtain sp3 m3 where 3: "sunix_ser_stop_rx (ss_port st2) m2 = (sp3, m3)" by fastforce
    note r = stop_rx_ran [OF 3] and u = stop_rx_undisturbed [OF 3]
    have "clock_ok (sent_limit (sp_timeout sp3) (ss_port (st2\<lparr>ss_port := sp3\<rparr>)) + 1) N m3"
      using clock2 r by (auto simp: clock_ok_def ran_oracles sent_limit_def)
    from wait_until_sent_ends [OF p this] obtain st4 m4 where
      "snx_ser_wait_until_sent env (sp_timeout sp3) (st2\<lparr>ss_port := sp3\<rparr>) m3 = Some (st4, m4)" "undisturbed (st2\<lparr>ss_port := sp3\<rparr>) st4" by blast
    then show thesis using that 3 True undisturbed_trans [OF u] i2(1) by (simp add: close_drain_def)
  qed (use that i2(1) in \<open>simp add: close_drain_def\<close>)
  obtain i4 where i4: "sp_info (ss_port st4) = Some i4" "si_flags i4 = si_flags i" using undisturbed_info [OF 4(2) i2(1)] i2(2) by metis
  obtain sp5 m5 i5 where 5: "snx_ser_shutdown (ss_port st4) m4 = Some (sp5, m5)" "sp_info sp5 = Some i5"
    "si_flags i5 = si_flags i AND NOT SNX_UIF_INITIALIZED" "sp_line sp5 = sp_line (ss_port st4)" "sp_suspended sp5 = sp_suspended (ss_port st4)"
    "has (si_flags i) SNX_UIF_INITIALIZED \<longrightarrow> cb_buf (si_xmit i5) = None \<and> sp_ier sp5 = 0"
    using shutdown_result [OF i4(1), of m4] i4(2) by metis
  have ok5: "line_ok sp5" using ok 5(4) u2(1) 4(2) by (simp add: line_ok_def undisturbed_def st1_def upd_line_def)
  define sp6 where "sp6 = sp5\<lparr>sp_info := Some (i5\<lparr>si_xmit := snx_ser_circ_clear (si_xmit i5)\<rparr>)\<rparr>"
  have 6: "snx_ser_flush_buffer sp5 m5 = (sp6, emit WakeWrite m5)"
    using ok5 5(2) by (simp add: snx_ser_flush_buffer_def set_xmit_def upd_info_def sp6_def)
  define st7 where "st7 = st4\<lparr>ss_port := upd_info (\<lambda>i. i\<lparr>si_tty := None\<rparr>) sp6\<rparr>"
  define i7 where "i7 = i5\<lparr>si_xmit := snx_ser_circ_clear (si_xmit i5), si_tty := None\<rparr>"
  have i7: "sp_info (ss_port st7) = Some i7" by (simp add: st7_def sp6_def i7_def upd_info_def)
  obtain st8 m8 where 8: "close_delay env st7 (emit LdiscFlush (emit WakeWrite m5)) = Some (st8, m8)"
    using i7 by (auto simp: close_delay_def) (metis surj_pair)
  have u8: "undisturbed st7 st8" using 8 i7 patientD(1) [OF p] by (auto simp: close_delay_def split: if_splits)
  from undisturbed_info [OF u8 i7] obtain i8 where i8: "sp_info (ss_port st8) = Some i8" "si_flags i8 = si_flags i7"
    "si_tty i8 = None \<longleftrightarrow> si_tty i7 = None" "cb_buf (si_xmit i8) = None \<longleftrightarrow> cb_buf (si_xmit i7) = None" by metis
  let ?st = "upd_line (upd_info (\<lambda>i. i\<lparr>si_flags := si_flags i AND NOT SNX_UIF_NORMAL_ACTIVE\<rparr>)) st8"
  define i9 where "i9 = i8\<lparr>si_flags := si_flags i8 AND NOT SNX_UIF_NORMAL_ACTIVE\<rparr>"
  have "close_last env st m = Some (?st, emit WakeOpen m8)"
    unfolding close_last_def st1_def [symmetric] 2 prod.case 4(1) option.case 5(1) 6 st7_def [symmetric] 8
    using i8(1) by simp
  moreover have "ss_count ?st = ss_count st" "sp_suspended (ss_port ?st) = 0"
    using u2(1) 4(2) u8 5(5) by (auto simp: undisturbed_def st7_def sp6_def st1_def upd_line_def upd_info_def)
  moreover have "sp_info (ss_port ?st) = Some i9" using i8(1) by (simp add: i9_def upd_line_def upd_info_def)
  moreover have "si_tty i9 = None" using i8(3) by (simp add: i9_def i7_def)
  moreover have "si_flags i9 = si_flags i AND NOT SNX_UIF_INITIALIZED AND NOT SNX_UIF_NORMAL_ACTIVE"
  proof -
    have "si_flags i9 = si_flags i8 AND NOT SNX_UIF_NORMAL_ACTIVE" by (simp add: i9_def)
    moreover have "si_flags i8 = si_flags i5" using i8(2) by (simp add: i7_def)
    ultimately show ?thesis using 5(3) by (simp only: and.assoc)
  qed
  moreover have "has (si_flags i) SNX_UIF_INITIALIZED \<longrightarrow> cb_buf (si_xmit i9) = None \<and> sp_ier (ss_port ?st) = 0"
    using 5(6) i8(4) u8
    by (auto simp: i9_def i7_def snx_ser_circ_clear_def undisturbed_def st7_def sp6_def upd_line_def upd_info_def)
  ultimately show ?thesis by blast
qed

text \<open>
  C11. The last close of a line (the tty's count is 1, or the line's own count drops to 0 or below)
  returns, however the transmitter behaves, because the wait for it has a deadline. It leaves the
  line with no tty, not started and not active, and if it was started the ring buffer is freed and
  the chip's interrupts are off. Any other close only counts down.
\<close>

theorem last_close_releases_line:
  assumes "patient env" and "line_ok (ss_port st)" and "sp_info (ss_port st) = Some i" and "\<not> se_hung_up env (trace m)"
    and "clock_ok (sent_limit (sp_timeout (ss_port st)) (ss_port st) + 1) N m"
    and c: "c = (if se_tty_count env = 1 then 0 else max 0 (ss_count st - 1))"
  shows "\<exists>st' m'. snx_ser_close env st m = Some (st', m') \<and> ss_count st' = c
    \<and> (if c \<noteq> 0 then st' = st\<lparr>ss_count := c\<rparr> \<and> m' = m
       else sp_suspended (ss_port st') = 0 \<and> (\<exists>i'. sp_info (ss_port st') = Some i' \<and> si_tty i' = None
         \<and> si_flags i' = si_flags i AND NOT SNX_UIF_INITIALIZED AND NOT SNX_UIF_NORMAL_ACTIVE
         \<and> (has (si_flags i) SNX_UIF_INITIALIZED \<longrightarrow> cb_buf (si_xmit i') = None \<and> sp_ier (ss_port st') = 0)))"
proof (cases "c = 0")
  case False
  then show ?thesis using assms(2,4) c by (auto simp: snx_ser_close_def Let_def max_def split: if_splits)
next
  case True
  define st0 where "st0 = st\<lparr>ss_count := 0\<rparr>"
  have "snx_ser_close env st m = close_last env st0 m"
    using True assms(2,4) c by (auto simp: snx_ser_close_def Let_def st0_def max_def split: if_splits)
  moreover obtain st' m' i' where "close_last env st0 m = Some (st', m')" "ss_count st' = ss_count st0" "sp_suspended (ss_port st') = 0"
    "sp_info (ss_port st') = Some i'" "si_tty i' = None"
    "si_flags i' = si_flags i AND NOT SNX_UIF_INITIALIZED AND NOT SNX_UIF_NORMAL_ACTIVE"
    "has (si_flags i) SNX_UIF_INITIALIZED \<longrightarrow> cb_buf (si_xmit i') = None \<and> sp_ier (ss_port st') = 0"
    using close_last_releases [of env st0 i N m] assms(1,2,3,5) by (auto simp: st0_def)
  ultimately show ?thesis using True by (intro exI [of _ st'] exI [of _ m']) (simp add: st0_def)
qed

definition patient_env :: ser_env where
  "patient_env = \<lparr>se_sleep = (\<lambda>st m. (st, m)), se_hung_up = (\<lambda>_. False), se_HZ = 250, se_sem = True, se_alloc_info = True,
     se_alloc_page = True, se_nonblock = False, se_admin = False, se_tty = example_tty, se_tty_count = 1\<rparr>"

definition open_state :: snx_ser_state where
  "open_state = \<lparr>ss_close_delay = 125, ss_closing_wait = 7500, ss_count = 1, ss_port = example_line\<lparr>sp_timeout := 10\<rparr>\<rparr>"

lemma patient_env: "patient patient_env"
  by (auto simp: patient_def patient_env_def intro: exI [of _ "[]"])

theorem last_close_releases_line_witness:
  "\<exists>st' m'. snx_ser_close patient_env open_state counting_machine = Some (st', m') \<and> ss_count st' = 0
    \<and> (\<exists>i'. sp_info (ss_port st') = Some i' \<and> si_tty i' = None \<and> cb_buf (si_xmit i') = None)"
proof -
  have clock: "clock_ok (sent_limit (sp_timeout (ss_port open_state)) (ss_port open_state) + 1) 21 counting_machine"
    using counting_clock [of 11 21] by (simp add: open_state_def sent_limit_def)
  have ok: "line_ok (ss_port open_state)" and i: "sp_info (ss_port open_state) = Some example_info"
    and h: "\<not> se_hung_up patient_env (trace counting_machine)"
    by (simp_all add: open_state_def example_line_def example_uart_def zero_ser_port_def line_ok_def patient_env_def)
  have "(0 :: int) = (if se_tty_count patient_env = 1 then 0 else max 0 (ss_count open_state - 1))" by (simp add: patient_env_def)
  from last_close_releases_line [OF patient_env ok i h clock this] show ?thesis by (auto simp: example_info_def)
qed

end
