(* ===== verification/Snx_Gpio.thy ===== *)
theory Snx_Gpio
  imports Snx_Uart "HOL-Library.Monad_Syntax" "HOL-Library.Signed_Division"
begin

text \<open>
  The ioctls of driver/snx_serial.c that a SUNIX configuration tool uses: board information, the
  GPIO banks, the EEPROM that keeps their defaults, and the RS-232/422/485 and ACS switches of a
  port. \<open>None\<close> is a NULL pointer, an access outside a table, a shift by a negative count, or an
  EEPROM that reports an error for ever. Addresses are 32 bits wide, as the BARs are.
\<close>

section \<open>The configuration ioctls\<close>

subsection \<open>Arguments\<close>

abbreviation (input) EEPROM_ACCESS_DELAY_COUNT :: nat where "EEPROM_ACCESS_DELAY_COUNT \<equiv> 100000"
abbreviation (input) SNX_GPIO_TYPE_STANDARD :: u8 where "SNX_GPIO_TYPE_STANDARD \<equiv> 0"

text \<open>The six GPIO structs have the same members: directions, signals or inversions of four banks.\<close>

record snx_gpio =
  gb_board_id :: int
  gb_bank1 :: u8
  gb_bank2 :: u8
  gb_bank3 :: u8
  gb_bank4 :: u8

record snx_uart_cfg =
  ug_board_id :: int
  ug_uart_num :: int
  ug_value :: int

record snx_board_info =
  bi_board_id :: int
  bi_subvender_id :: u32
  bi_subsystem_id :: u32
  bi_oem_id :: u32
  bi_uart_cnt :: int
  bi_gpio_chl_cnt :: int
  bi_board_uart_type :: u8
  bi_board_gpio_type :: u8

text \<open>
  A struct argument is what \<^verbatim>\<open>copy_from_user\<close> left in the zeroed struct, and \<open>cf\<close> whether it copied
  all; the code goes on either way. \<open>ct\<close> is whether \<^verbatim>\<open>copy_to_user\<close> will succeed. The result is the
  status, the struct as it is copied back, and the machine.
\<close>

definition copied :: "bool \<Rightarrow> int" where
  "copied c = (if c then 0 else - EFAULT)"

definition board_at :: "int \<Rightarrow> sunix_board list \<Rightarrow> sunix_board option" where
  "board_at board_id tab = (let i = board_id - 1 in if 0 \<le> i \<and> nat i < length tab then Some (tab ! nat i) else None)"

definition resource_start :: "sunix_board \<Rightarrow> nat \<Rightarrow> u32 option" where
  "resource_start sb i = map_option (\<lambda>d. pd_resource d ! i) (sb_pdev sb)"

definition in8 :: "u32 \<Rightarrow> machine \<Rightarrow> u8 \<times> machine" where
  "in8 a = inb (ucast a)"

definition out8 :: "u8 \<Rightarrow> u32 \<Rightarrow> machine \<Rightarrow> machine" where
  "out8 v a = outb v (ucast a)"

text \<open>The registers of the banks, by the channel count: \<open>o3\<close> is an offset in BAR 3, \<open>o1\<close> one in BAR 1.\<close>

definition gpio_regs :: "u32 \<Rightarrow> u32 \<Rightarrow> sunix_board \<Rightarrow> u32 list option" where
  "gpio_regs o3 o1 sb =
    do {
      bar3 \<leftarrow> resource_start sb 3;
      bar1 \<leftarrow> resource_start sb 1;
      Some (if sb_gpio_chl_cnt sb = 6 then [bar3 + o3]
            else if sb_gpio_chl_cnt sb = 8 then [bar1 + o1]
            else if sb_gpio_chl_cnt sb = 16 then [bar1 + o1, bar1 + o1 + 1]
            else if sb_gpio_chl_cnt sb = 32 then [bar1 + o1, bar1 + o1 + 1, bar1 + o1 + 2, bar1 + o1 + 3]
            else [])
    }"

fun read_regs :: "u32 list \<Rightarrow> machine \<Rightarrow> u8 list \<times> machine" where
  "read_regs [] m = ([], m)"
| "read_regs (a # as) m = (case in8 a m of (v, m1) \<Rightarrow> case read_regs as m1 of (vs, m2) \<Rightarrow> (v # vs, m2))"

fun write_regs :: "u32 list \<Rightarrow> u8 list \<Rightarrow> machine \<Rightarrow> machine" where
  "write_regs (a # as) (v # vs) m = write_regs as vs (out8 v a m)"
| "write_regs _ _ m = m"

definition banks :: "snx_gpio \<Rightarrow> u8 list" where
  "banks gb = [gb_bank1 gb, gb_bank2 gb, gb_bank3 gb, gb_bank4 gb]"

text \<open>The banks a board does not have are 0.\<close>

definition set_banks :: "u8 list \<Rightarrow> snx_gpio \<Rightarrow> snx_gpio" where
  "set_banks vs gb = (let ws = vs @ replicate (4 - length vs) 0
    in gb\<lparr>gb_bank1 := ws ! 0, gb_bank2 := ws ! 1, gb_bank3 := ws ! 2, gb_bank4 := ws ! 3\<rparr>)"

subsection \<open>Boards and GPIO banks\<close>

definition snx_get_board_info :: "bool \<Rightarrow> snx_board_info \<Rightarrow> sunix_board list \<Rightarrow> (int \<times> snx_board_info) option" where
  "snx_get_board_info ct bi tab =
    do {
      sb \<leftarrow> board_at (bi_board_id bi) tab;
      Some (copied ct, bi\<lparr>bi_subvender_id := pb_sub_vendor_id (sb_pb_info sb), bi_subsystem_id := pb_sub_device_id (sb_pb_info sb),
        bi_oem_id := sb_oem_id sb, bi_uart_cnt := sb_uart_cnt sb, bi_gpio_chl_cnt := sb_gpio_chl_cnt sb,
        bi_board_uart_type := sb_board_uart_type sb, bi_board_gpio_type := sb_board_gpio_type sb\<rparr>)
    }"

definition snx_gpio_get :: "bool \<Rightarrow> snx_gpio \<Rightarrow> sunix_board list \<Rightarrow> machine \<Rightarrow> (int \<times> snx_gpio \<times> machine) option" where
  "snx_gpio_get ct gb tab m =
    do {
      sb \<leftarrow> board_at (gb_board_id gb) tab;
      regs \<leftarrow> gpio_regs 0x0D 0xC4 sb;
      (let (vs, m1) = read_regs regs m in Some (copied ct, if regs = [] then gb else set_banks vs gb, m1))
    }"

definition snx_gpio_set :: "bool \<Rightarrow> snx_gpio \<Rightarrow> sunix_board list \<Rightarrow> machine \<Rightarrow> (int \<times> snx_gpio \<times> machine) option" where
  "snx_gpio_set cf gb tab m =
    do {
      sb \<leftarrow> board_at (gb_board_id gb) tab;
      regs \<leftarrow> gpio_regs 0x0D 0xC4 sb;
      Some (copied cf, gb, if sb_board_gpio_type sb = SNX_GPIO_TYPE_STANDARD then write_regs regs (banks gb) m else m)
    }"

definition snx_gpio_read :: "bool \<Rightarrow> snx_gpio \<Rightarrow> sunix_board list \<Rightarrow> machine \<Rightarrow> (int \<times> snx_gpio \<times> machine) option" where
  "snx_gpio_read ct gb tab m =
    do {
      sb \<leftarrow> board_at (gb_board_id gb) tab;
      regs \<leftarrow> gpio_regs 0x0C 0xC0 sb;
      (let (vs, m1) = read_regs regs m in Some (copied ct, set_banks vs gb, m1))
    }"

definition snx_gpio_write :: "bool \<Rightarrow> snx_gpio \<Rightarrow> sunix_board list \<Rightarrow> machine \<Rightarrow> (int \<times> snx_gpio \<times> machine) option" where
  "snx_gpio_write cf gb tab m =
    do {
      sb \<leftarrow> board_at (gb_board_id gb) tab;
      regs \<leftarrow> gpio_regs 0x0C 0xC0 sb;
      Some (copied cf, gb, write_regs regs (banks gb) m)
    }"

definition snx_gpio_get_input_invert :: "bool \<Rightarrow> snx_gpio \<Rightarrow> sunix_board list \<Rightarrow> machine \<Rightarrow> (int \<times> snx_gpio \<times> machine) option" where
  "snx_gpio_get_input_invert ct gb tab m =
    do {
      sb \<leftarrow> board_at (gb_board_id gb) tab;
      regs \<leftarrow> gpio_regs 0x0F 0xD0 sb;
      (let (vs, m1) = read_regs regs m in Some (copied ct, if regs = [] then gb else set_banks vs gb, m1))
    }"

definition snx_gpio_set_input_invert :: "bool \<Rightarrow> snx_gpio \<Rightarrow> sunix_board list \<Rightarrow> machine \<Rightarrow> (int \<times> snx_gpio \<times> machine) option" where
  "snx_gpio_set_input_invert cf gb tab m =
    do {
      sb \<leftarrow> board_at (gb_board_id gb) tab;
      regs \<leftarrow> gpio_regs 0x0F 0xD0 sb;
      Some (copied cf, gb, write_regs regs (banks gb) m)
    }"

subsection \<open>The EEPROM\<close>

text \<open>
  Polling the busy bit: \<open>d\<close> is \<^verbatim>\<open>delayCount\<close>, the answer the new count, or nothing when it has passed
  \<open>N\<close>. The GPIO code tests the count after the increment (\<open>N\<close> = \<open>EEPROM_ACCESS_DELAY_COUNT\<close>),
  \<^verbatim>\<open>EEPROMWriteData\<close> before it (\<open>N\<close> one more).
\<close>

function poll_busy :: "nat \<Rightarrow> u32 \<Rightarrow> nat \<Rightarrow> machine \<Rightarrow> nat option \<times> machine" where
  "poll_busy N a d m =
    (case in8 a m of (v, m1) \<Rightarrow>
      if Suc d > N then (None, m1)
      else if v AND 0x01 \<noteq> 0 then poll_busy N a (Suc d) m1
      else (Some (Suc d), m1))"
  by pat_completeness auto
termination
  by (relation "measure (\<lambda>(N, a, d, m). N - d)") auto

declare poll_busy.simps [simp del]

lemma poll_busy_count: "poll_busy N a d m = (Some d', m') \<Longrightarrow> d < d' \<and> d' \<le> N"
proof (induction N a d m rule: poll_busy.induct)
  case (1 N a d m)
  obtain v m1 where i: "in8 a m = (v, m1)" by fastforce
  show ?case
  proof (cases "Suc d > N \<or> v AND 1 = 0")
    case True
    then show ?thesis using 1(2) i by (subst (asm) poll_busy.simps) (auto split: if_splits)
  next
    case False
    then have "poll_busy N a (Suc d) m1 = (Some d', m')" using 1(2) i by (subst (asm) poll_busy.simps) simp
    then show ?thesis using 1(1) [OF i [symmetric]] False by simp
  qed
qed

text \<open>\<^verbatim>\<open>EEPROMWriteData\<close> tries for as long as the EEPROM reports an error.\<close>

partial_function (option) eeprom_try :: "u32 \<Rightarrow> u8 \<Rightarrow> u8 \<Rightarrow> nat \<Rightarrow> machine \<Rightarrow> (int \<times> machine) option" where
  "eeprom_try a addr dat d m =
    (case poll_busy (Suc EEPROM_ACCESS_DELAY_COUNT) (a + 0x08) d m of
       (None, m1) \<Rightarrow> Some (- 1, m1)
     | (Some _, m1) \<Rightarrow>
        (case poll_busy (Suc EEPROM_ACCESS_DELAY_COUNT) (a + 0x08) 0
                (out8 0x03 (a + 0x08) (out8 dat (a + 0x0A) (out8 addr (a + 0x09) m1))) of
           (None, m2) \<Rightarrow> Some (- 1, m2)
         | (Some d2, m2) \<Rightarrow>
            (case in8 (a + 0x08) m2 of (e, m3) \<Rightarrow>
              if e AND 0x04 \<noteq> 0 then eeprom_try a addr dat d2 m3 else Some (0, m3))))"

definition EEPROMWriteData :: "u32 \<Rightarrow> u8 \<Rightarrow> u8 \<Rightarrow> machine \<Rightarrow> (int \<times> machine) option" where
  "EEPROMWriteData a addr dat m = eeprom_try a addr dat 0 m"

text \<open>
  A board with six channels writes one cell, with one count for all tries: it ends. A larger one reads
  the 19 cells of the flash, changes those of the banks, erases the flash and writes them back.
\<close>

function cell_write :: "u32 \<Rightarrow> u8 \<Rightarrow> u8 \<Rightarrow> nat \<Rightarrow> machine \<Rightarrow> bool \<times> machine" where
  "cell_write a addr dat d m =
    (case poll_busy EEPROM_ACCESS_DELAY_COUNT (a + 0x08) d m of
       (None, m1) \<Rightarrow> (False, m1)
     | (Some d1, m1) \<Rightarrow>
        (case poll_busy EEPROM_ACCESS_DELAY_COUNT (a + 0x08) d1
                (out8 0x03 (a + 0x08) (out8 dat (a + 0x0A) (out8 addr (a + 0x09) m1))) of
           (None, m2) \<Rightarrow> (False, m2)
         | (Some d2, m2) \<Rightarrow>
            (case in8 (a + 0x08) m2 of (e, m3) \<Rightarrow>
              if e AND 0x04 \<noteq> 0 then cell_write a addr dat d2 m3 else (True, m3))))"
  by pat_completeness auto
termination
  by (relation "measure (\<lambda>(a, addr, dat, d, m). EEPROM_ACCESS_DELAY_COUNT - d)")
    (auto dest!: poll_busy_count [OF sym])

declare cell_write.simps [simp del]

text \<open>
  \<open>reset\<close>: whether \<^verbatim>\<open>delayCount\<close> starts again after the command. SET_DEFAULT resets it when it reads the
  cells, WRITE_DEFAULT when it writes them; elsewhere the count runs on.
\<close>

definition flash_read_cell :: "bool \<Rightarrow> u32 \<Rightarrow> nat \<Rightarrow> nat \<times> u8 list \<times> machine \<Rightarrow> machine + (nat \<times> u8 list \<times> machine)" where
  "flash_read_cell reset bar1 i = (\<lambda>(d, flash, m).
    case poll_busy EEPROM_ACCESS_DELAY_COUNT (bar1 + 0xE0) d m of
      (None, m1) \<Rightarrow> Inl m1
    | (Some d1, m1) \<Rightarrow>
       (case poll_busy EEPROM_ACCESS_DELAY_COUNT (bar1 + 0xE0) (if reset then 0 else d1)
               (out8 0x01 (bar1 + 0xE0) (out8 (of_nat i) (bar1 + 0xE1) m1)) of
          (None, m2) \<Rightarrow> Inl m2
        | (Some d2, m2) \<Rightarrow> (case in8 (bar1 + 0xE2) m2 of (v, m3) \<Rightarrow> Inr (d2, flash @ [v], m3))))"

definition flash_write_cell :: "bool \<Rightarrow> u32 \<Rightarrow> u8 list \<Rightarrow> nat \<Rightarrow> nat \<times> machine \<Rightarrow> machine + (nat \<times> machine)" where
  "flash_write_cell reset bar1 flash i = (\<lambda>(d, m).
    case poll_busy EEPROM_ACCESS_DELAY_COUNT (bar1 + 0xE0) d m of
      (None, m1) \<Rightarrow> Inl m1
    | (Some d1, m1) \<Rightarrow>
       (case poll_busy EEPROM_ACCESS_DELAY_COUNT (bar1 + 0xE0) (if reset then 0 else d1)
               (out8 0x03 (bar1 + 0xE0) (out8 (flash ! i) (bar1 + 0xE2) (out8 (of_nat i) (bar1 + 0xE1) m1))) of
          (None, m2) \<Rightarrow> Inl m2
        | (Some d2, m2) \<Rightarrow> Inr (d2, m2)))"

definition flash_put :: "int \<Rightarrow> nat \<Rightarrow> u8 list \<Rightarrow> u8 list \<Rightarrow> u8 list" where
  "flash_put cnt i vs flash =
    (if cnt = 32 then flash[i := vs ! 0, i + 1 := vs ! 1, i + 2 := vs ! 2, i + 3 := vs ! 3]
     else if cnt = 16 then flash[i := vs ! 0, i + 1 := vs ! 1]
     else if cnt = 8 then flash[i := vs ! 0]
     else flash)"

text \<open>\<open>Inl\<close> is the early \<^verbatim>\<open>return -EFAULT\<close>. SET_DEFAULT waits once more after the erase command.\<close>

definition flash_update :: "bool \<Rightarrow> u32 \<Rightarrow> int \<Rightarrow> nat \<Rightarrow> u8 list \<Rightarrow> machine \<Rightarrow> machine + machine" where
  "flash_update set_default bar1 cnt i vs m =
    (case fold_err (flash_read_cell set_default bar1) [0..<19] (0, [], m) of
       Inl m1 \<Rightarrow> Inl m1
     | Inr (d, flash, m1) \<Rightarrow>
        (case poll_busy EEPROM_ACCESS_DELAY_COUNT (bar1 + 0xE0) d m1 of
           (None, m2) \<Rightarrow> Inl m2
         | (Some d2, m2) \<Rightarrow>
            (case (if set_default then poll_busy EEPROM_ACCESS_DELAY_COUNT (bar1 + 0xE0) d2 (out8 0x09 (bar1 + 0xE0) m2)
                   else (Some d2, out8 0x09 (bar1 + 0xE0) m2)) of
               (None, m3) \<Rightarrow> Inl m3
             | (Some d3, m3) \<Rightarrow>
                (case fold_err (flash_write_cell (\<not> set_default) bar1 (flash_put cnt i vs flash)) [0..<19] (d3, m3) of
                   Inl m4 \<Rightarrow> Inl m4
                 | Inr (_, m4) \<Rightarrow> Inr m4))))"

definition gpio_default :: "bool \<Rightarrow> bool \<Rightarrow> u8 \<Rightarrow> nat \<Rightarrow> u8 list \<Rightarrow> snx_gpio \<Rightarrow> sunix_board list \<Rightarrow> machine
    \<Rightarrow> (int \<times> snx_gpio \<times> machine) option" where
  "gpio_default set_default cf cell i vs gb tab m =
    do {
      sb \<leftarrow> board_at (gb_board_id gb) tab;
      bar3 \<leftarrow> resource_start sb 3;
      bar1 \<leftarrow> resource_start sb 1;
      Some (if sb_gpio_chl_cnt sb = 6 then
              (case cell_write bar3 cell (vs ! 0) 0 m of (ok, m1) \<Rightarrow> (if ok then copied cf else - EFAULT, gb, m1))
            else if sb_gpio_chl_cnt sb \<in> {8, 16, 32} then
              (case flash_update set_default bar1 (sb_gpio_chl_cnt sb) i vs m of
                 Inl m1 \<Rightarrow> (- EFAULT, gb, m1) | Inr m1 \<Rightarrow> (copied cf, gb, m1))
            else (copied cf, gb, m))
    }"

definition snx_gpio_set_default :: "bool \<Rightarrow> snx_gpio \<Rightarrow> sunix_board list \<Rightarrow> machine \<Rightarrow> (int \<times> snx_gpio \<times> machine) option" where
  "snx_gpio_set_default cf gb = gpio_default True cf 0x19 0x07 (map (\<lambda>b. b XOR 0xFF) (banks gb)) gb"

definition snx_gpio_write_default :: "bool \<Rightarrow> snx_gpio \<Rightarrow> sunix_board list \<Rightarrow> machine \<Rightarrow> (int \<times> snx_gpio \<times> machine) option" where
  "snx_gpio_write_default cf gb = gpio_default False cf 0x1A 0x0B (banks gb) gb"

subsection \<open>RS-232/422/485 and ACS\<close>

text \<open>
  The configuration registers of four ports lie together; \<open>0\<close> is where the code ends up for a port
  number above 16. \<open>uart_bit\<close> is a shift by \<^verbatim>\<open>(uart_num - 1) % 4\<close>, which C takes with the sign of the
  dividend.
\<close>

definition uart_cfg_base :: "u32 \<Rightarrow> u32 \<Rightarrow> int \<Rightarrow> u32" where
  "uart_cfg_base bar3 bar1 num =
    (if num \<le> 4 then bar3 else if num \<le> 8 then bar1 + 0x30 else if num \<le> 12 then bar1 + 0x30 + 0x40
     else if num \<le> 16 then bar1 + 0x30 + 0x80 else 0)"

definition uart_bit :: "int \<Rightarrow> u8 \<Rightarrow> u8 option" where
  "uart_bit num x = (let k = (num - 1) smod 4 in if k < 0 then None else Some (push_bit (nat k) x))"

definition uart_mode :: "u8 \<Rightarrow> bool \<Rightarrow> bool \<Rightarrow> int \<Rightarrow> int" where
  "uart_mode uart_type ahdc rs422 old =
    (if uart_type = 0 then 0
     else if uart_type = 1 then
       (if ahdc \<and> rs422 then 3 else if ahdc then 2 else if rs422 then 1 else - 1)
     else if uart_type = 2 then
       (if ahdc \<and> rs422 then 3 else if ahdc then 2 else if rs422 then 1 else 0)
     else old)"

definition snx_uart_get_type :: "bool \<Rightarrow> bool \<Rightarrow> snx_uart_cfg \<Rightarrow> sunix_board list \<Rightarrow> machine
    \<Rightarrow> (int \<times> snx_uart_cfg \<times> machine) option" where
  "snx_uart_get_type cf ct ug tab m =
    do {
      sb \<leftarrow> board_at (ug_board_id ug) tab;
      bar3 \<leftarrow> resource_start sb 3;
      bar1 \<leftarrow> resource_start sb 1;
      (let (byte5, m1) = in8 (bar3 + 5) m; uart_type = drop_bit 6 (byte5 AND 0xC0); num = ug_uart_num ug;
           base = uart_cfg_base bar3 bar1 num
       in if num > 16 then Some (copied cf, ug, m1)
          else
           do {
             one \<leftarrow> uart_bit num 0x01;
             ten \<leftarrow> uart_bit num 0x10;
             (let (a, m2) = in8 (base + 2) m1; (r, m3) = in8 (base + 3) m2
              in Some (copied ct,
                   ug\<lparr>ug_value := uart_mode uart_type (a AND 0x0F AND one \<noteq> 0) (r AND 0xF0 AND ten \<noteq> 0) (ug_value ug)\<rparr>, m3))
           })
    }"

text \<open>
  The registers AHDC, RS422, GPIO state and GPIO control with the bits of the port cleared, and what
  the requested type sets; then whether DTR and RTS are raised, and the new state of the port.
\<close>

type_synonym uart_regs = "u8 \<times> u8 \<times> u8 \<times> u8"

definition clear_uart_bits :: "u8 \<Rightarrow> u8 \<Rightarrow> uart_regs \<Rightarrow> uart_regs" where
  "clear_uart_bits one ten = (\<lambda>(a, r, g, c). (a AND NOT one, r AND NOT ten, g AND NOT one AND NOT ten, c AND NOT one))"

definition set_uart_bits :: "u8 \<Rightarrow> int \<Rightarrow> u8 \<Rightarrow> u8 \<Rightarrow> uart_regs \<Rightarrow> uart_regs \<times> bool \<times> (int \<times> int) option" where
  "set_uart_bits uart_type req one ten = (\<lambda>(a, r, g, c).
    if uart_type = 0 then
     (if req = 0 then ((a AND NOT one, r AND NOT ten AND NOT one, g OR one, c OR one), False, Some (0, 0))
      else ((a, r, g, c), False, None))
    else if uart_type = 1 then
     (if req = 3 then ((a OR one OR ten, r OR ten, g AND NOT one, c OR one), False, Some (1, 1))
      else if req = 2 then ((a OR one OR ten, r AND NOT ten, g AND NOT one, c OR one), True, Some (1, 0))
      else if req = 1 then (((a OR ten) AND NOT one, (r OR ten) AND NOT one, g AND NOT one, c OR one), True, Some (0, 1))
      else ((a, r, g, c), False, None))
    else if uart_type = 2 then
     (if req = 3 then ((a OR one, r OR ten, g AND NOT one, c OR one), False, Some (1, 1))
      else if req = 2 then ((a OR one, r AND NOT ten, g AND NOT one, c OR one), True, Some (1, 0))
      else if req = 1 then ((a AND NOT one, (r OR ten) AND NOT one, g AND NOT one, c OR one), True, Some (0, 1))
      else if req = 0 then ((a AND NOT one, r AND NOT ten AND NOT one, g OR one, c OR one), False, Some (0, 0))
      else ((a, r, g, c), False, None))
    else ((a, r, g, c), False, None))"

definition snx_uart_set_type :: "bool \<Rightarrow> snx_uart_cfg \<Rightarrow> sunix_board list \<Rightarrow> sunix_ser_port list \<Rightarrow> machine
    \<Rightarrow> (int \<times> sunix_ser_port list \<times> machine) option" where
  "snx_uart_set_type cf ug tab ser m =
    do {
      sb \<leftarrow> board_at (ug_board_id ug) tab;
      (let num = ug_uart_num ug;
           n = sint (sb_ser_port_index sb - 1 + word_of_int num);
           base = uart_cfg_base (sb_bar_addr sb ! 3) (sb_bar_addr sb ! 1) num;
           (byte5, m1) = in8 (sb_bar_addr sb ! 3 + 5) m; uart_type = drop_bit 6 (byte5 AND 0xC0);
           (a, m2) = in8 (base + 0x02) m1; (r, m3) = in8 (base + 0x03) m2;
           (g, m4) = in8 (base + 0x0C) m3; (c, m5) = in8 (base + 0x0D) m4
       in if n < 0 \<or> nat n \<ge> length ser then None
          else
           do {
             one \<leftarrow> uart_bit num 0x01;
             ten \<leftarrow> uart_bit num 0x10;
             (let sp = ser ! nat n;
                  (mcr, m6) = in8 (sp_iobase sp + UART_MCR) m5;
                  ((a', r', g', c'), raise_lines, state) =
                    set_uart_bits uart_type (ug_value ug) one ten (clear_uart_bits one ten (a, r, g, c));
                  m7 = (if raise_lines then out8 (mcr AND 0xFC OR 0x03) (sp_iobase sp + UART_MCR) m6 else m6);
                  sp' = (case state of None \<Rightarrow> sp | Some (s1, s2) \<Rightarrow> sp\<lparr>sp_AHDC_State := s1, sp_RS422_State := s2\<rparr>);
                  m8 = out8 c' (base + 0x0D) (out8 g' (base + 0x0C) (out8 r' (base + 0x03) (out8 a' (base + 0x02) m7)))
              in do {
                (_, m9) \<leftarrow> EEPROMWriteData base 0x13 a' m8;
                (_, m10) \<leftarrow> EEPROMWriteData base 0x14 r' m9;
                (_, m11) \<leftarrow> EEPROMWriteData base 0x19 (NOT c') m10;
                (_, m12) \<leftarrow> EEPROMWriteData base 0x1A g' m11;
                Some (copied cf, ser[nat n := sp'], m12)
              })
           })
    }"

definition snx_uart_get_acs :: "bool \<Rightarrow> snx_uart_cfg \<Rightarrow> sunix_board list \<Rightarrow> machine \<Rightarrow> (int \<times> snx_uart_cfg \<times> machine) option" where
  "snx_uart_get_acs ct ug tab m =
    do {
      sb \<leftarrow> board_at (ug_board_id ug) tab;
      (let num = ug_uart_num ug; base = uart_cfg_base (sb_bar_addr sb ! 3) (sb_bar_addr sb ! 1) num
       in if num > 16 then Some (copied ct, ug\<lparr>ug_value := 0\<rparr>, m)
          else
           do {
             one \<leftarrow> uart_bit num 0x01;
             (let (v, m1) = in8 (base + 3) m
              in Some (copied ct, ug\<lparr>ug_value := if v AND 0x0F AND one \<noteq> 0 then 1 else 0\<rparr>, m1))
           })
    }"

definition snx_uart_set_acs :: "bool \<Rightarrow> snx_uart_cfg \<Rightarrow> sunix_board list \<Rightarrow> machine \<Rightarrow> (int \<times> machine) option" where
  "snx_uart_set_acs cf ug tab m =
    do {
      sb \<leftarrow> board_at (ug_board_id ug) tab;
      (let num = ug_uart_num ug; base = uart_cfg_base (sb_bar_addr sb ! 3) (sb_bar_addr sb ! 1) num;
           (v, m1) = in8 (base + 0x03) m
       in do {
         one \<leftarrow> uart_bit num 0x01;
         (let v' = (if ug_value ug = 1 then v AND NOT one OR one else v AND NOT one)
          in do {
            (_, m2) \<leftarrow> EEPROMWriteData base 0x14 v' (out8 v' (base + 0x03) m1);
            Some (copied cf, m2)
          })
       })
    }"

section \<open>What the ioctls do to the hardware\<close>

subsection \<open>Registers that hold what was written\<close>

definition regfile :: "(u32 \<Rightarrow> u8) \<Rightarrow> machine \<Rightarrow> u32 set \<Rightarrow> bool" where
  "regfile ini m A \<longleftrightarrow> (\<forall>a\<in>A. \<forall>h. m_in m h (ucast a) = last (ini a # outs_at (ucast a) h))"

lemma in8_eq: "in8 a m = (m_in m (trace m) (ucast a), emit (In (ucast a) (m_in m (trace m) (ucast a))) m)"
  by (simp add: in8_def inb_def Let_def)

lemma out8_frame [simp]: "trace (out8 v a m) = trace m @ [Out (ucast a) v]" "m_in (out8 v a m) = m_in m"
  by (simp_all add: out8_def)

lemma outs_at_Out8 [simp]: "outs_at (ucast (a :: u32)) (Out (ucast b) v # h) = (if b = a then v # outs_at (ucast a) h else outs_at (ucast a) h)"
  by (simp add: ucast_u32_u64_inj)

lemma ran_out8 [simp]: "ran m [Out (ucast a) v] (out8 v a m)"
  by (simp add: out8_def ran_kernel)

lemma out8_upd: "out8 v a m = m\<lparr>trace := trace m @ [Out (ucast a) v]\<rparr>"
  by (simp add: out8_def outb_def emit_def)

lemma ran_in8: "in8 a m = (v, m1) \<Longrightarrow> ran m [In (ucast a) v] m1"
  by (simp add: in8_def ran_kernel)

lemma poll_busy_ran: "poll_busy N a d m = (r, m') \<Longrightarrow> \<exists>vs. ran m (map (In (ucast a)) vs) m'"
proof (induction N a d m rule: poll_busy.induct)
  case (1 N a d m)
  obtain v m1 where i: "in8 a m = (v, m1)" by fastforce
  then have r1: "ran m (map (In (ucast a)) [v]) m1" using ran_in8 [OF i] by simp
  show ?case
  proof (cases "Suc d > N \<or> v AND 1 = 0")
    case True
    then have "m' = m1" using 1(2) i by (subst (asm) poll_busy.simps) (auto split: if_splits)
    then show ?thesis using r1 by blast
  next
    case False
    then have "poll_busy N a (Suc d) m1 = (r, m')" using 1(2) i by (subst (asm) poll_busy.simps) simp
    then obtain vs where "ran m1 (map (In (ucast a)) vs) m'" using 1(1) [OF i [symmetric]] False by auto
    then show ?thesis using ran_trans [OF r1] by (metis map_append)
  qed
qed

lemma outs_at_ins [simp]: "outs_at b (map (In a) vs) = []"
  by (induction vs) simp_all

text \<open>An EEPROM that never reports an error: one try, which touches its own three registers only.\<close>

lemma eeprom_write_returns:
  assumes ok: "\<And>h. m_in m h (ucast (a + 8)) AND 4 = 0"
  shows "\<exists>r m' ts. EEPROMWriteData a addr dat m = Some (r, m') \<and> ran m ts m'
    \<and> (\<forall>b. b \<notin> {a + 8, a + 9, a + 0xA} \<longrightarrow> outs_at (ucast b) ts = [])"
proof -
  obtain r1 m1 where p1: "poll_busy (Suc EEPROM_ACCESS_DELAY_COUNT) (a + 0x08) 0 m = (r1, m1)" by fastforce
  obtain vs where v1: "ran m (map (In (ucast (a + 8))) vs) m1" using poll_busy_ran [OF p1] by blast
  show ?thesis
  proof (cases r1)
    case None
    then have "EEPROMWriteData a addr dat m = Some (- 1, m1)" using p1 by (simp add: EEPROMWriteData_def eeprom_try.simps)
    then show ?thesis using v1 by fastforce
  next
    case (Some d1)
    let ?m2 = "out8 0x03 (a + 0x08) (out8 dat (a + 0x0A) (out8 addr (a + 0x09) m1))"
    obtain r3 m3 where p3: "poll_busy (Suc EEPROM_ACCESS_DELAY_COUNT) (a + 0x08) 0 ?m2 = (r3, m3)" by fastforce
    obtain us where v3: "ran ?m2 (map (In (ucast (a + 8))) us) m3" using poll_busy_ran [OF p3] by blast
    let ?ts = "map (In (ucast (a + 8))) vs @ [Out (ucast (a + 9)) addr, Out (ucast (a + 0xA)) dat, Out (ucast (a + 8)) 3] @ map (In (ucast (a + 8))) us"
    have r: "ran m ?ts m3" using v1 v3 by (simp add: ran_def out8_upd)
    have q: "outs_at (ucast b) ?ts = []" if "b \<notin> {a + 8, a + 9, a + 0xA}" for b using that
      by (auto simp: ucast_u32_u64_inj)
    show ?thesis
    proof (cases r3)
      case None
      then have "EEPROMWriteData a addr dat m = Some (- 1, m3)" using p1 p3 Some by (simp add: EEPROMWriteData_def eeprom_try.simps)
      then show ?thesis using r q by blast
    next
      case (Some d3)
      obtain e m4 where i: "in8 (a + 8) m3 = (e, m4)" by fastforce
      then have "e AND 4 = 0" using ok r by (auto simp: in8_eq ran_def)
      then have w: "EEPROMWriteData a addr dat m = Some (0, m4)"
        using p1 p3 i Some \<open>r1 = Some d1\<close> by (subst EEPROMWriteData_def, subst eeprom_try.simps) simp
      have "ran m (?ts @ [In (ucast (a + 8)) e]) m4" using ran_trans [OF r ran_in8 [OF i]] by simp
      moreover have "outs_at (ucast b) (?ts @ [In (ucast (a + 8)) e]) = []" if "b \<notin> {a + 8, a + 9, a + 0xA}" for b
        using that by (auto simp: ucast_u32_u64_inj)
      ultimately show ?thesis using w by blast
    qed
  qed
qed

subsection \<open>The type of a port\<close>

lemma uart_bit_eq:
  assumes "1 \<le> num"
  shows "uart_bit num x = Some (push_bit (nat ((num - 1) mod 4)) x)"
proof (cases "num = 1")
  case False
  then show ?thesis using assms by (simp add: uart_bit_def signed_modulo_int_def Let_def not_less pos_mod_sign)
qed (simp add: uart_bit_def signed_modulo_int_def)

lemma ten_eq: "push_bit k (0x10 :: u8) = push_bit (k + 4) 1"
  by (simp add: push_bit_add [symmetric] del: push_bit_push_bit) (simp add: push_bit_eq_mult power_add)

lemma one_bit: "k < 8 \<Longrightarrow> bit (push_bit k (1 :: u8)) i \<longleftrightarrow> i = k"
  by (auto simp: bit_exp_iff)

lemma test_bit: "(x :: u8) AND push_bit k 1 \<noteq> 0 \<longleftrightarrow> bit x k"
  by (simp add: bit_iff_and_push_bit_not_eq_0)

lemma test_one: "k < 4 \<Longrightarrow> (x :: u8) AND 0x0F AND push_bit k 1 \<noteq> 0 \<longleftrightarrow> bit x k"
  and test_ten: "k < 4 \<Longrightarrow> (x :: u8) AND 0xF0 AND push_bit k 0x10 \<noteq> 0 \<longleftrightarrow> bit x (k + 4)"
proof -
  assume "k < 4"
  then have "0x0F AND push_bit k (1 :: u8) = push_bit k 1" "0xF0 AND push_bit (k + 4) (1 :: u8) = push_bit (k + 4) 1"
    by (auto simp: numeral_eq_Suc less_Suc_eq)
  then show "(x :: u8) AND 0x0F AND push_bit k 1 \<noteq> 0 \<longleftrightarrow> bit x k" "(x :: u8) AND 0xF0 AND push_bit k 0x10 \<noteq> 0 \<longleftrightarrow> bit x (k + 4)"
    using test_bit by (simp_all add: and.assoc ten_eq)
qed

text \<open>The types a board of the given kind can be switched to: RS-422/485 only, or all three.\<close>

definition uart_types :: "u8 \<Rightarrow> int set" where
  "uart_types t = (if t = 0 then {0} else if t = 1 then {1, 2, 3} else if t = 2 then {0, 1, 2, 3} else {})"

lemma uart_types_iff: "req \<in> uart_types t \<longleftrightarrow> t = 0 \<and> req = 0 \<or> t = 1 \<and> (req = 1 \<or> req = 2 \<or> req = 3)
    \<or> t = 2 \<and> (req = 0 \<or> req = 1 \<or> req = 2 \<or> req = 3)"
  by (auto simp: uart_types_def)

lemma set_uart_bits_ok:
  assumes k: "k < 4" and v: "req \<in> uart_types t"
    and e: "set_uart_bits t req (push_bit k 1) (push_bit k 0x10) (clear_uart_bits (push_bit k 1) (push_bit k 0x10) (a, r, g, c))
      = ((a', r', g', c'), raise_lines, state)"
  shows "bit a' k \<longleftrightarrow> req = 2 \<or> req = 3" "bit r' (k + 4) \<longleftrightarrow> req = 1 \<or> req = 3"
    "state = Some (of_bool (req = 2 \<or> req = 3), of_bool (req = 1 \<or> req = 3))"
    "j < 4 \<Longrightarrow> j \<noteq> k \<Longrightarrow> bit a' j = bit a j \<and> bit r' (j + 4) = bit r (j + 4)"
proof -
  have f: "bit a' k \<longleftrightarrow> req = 2 \<or> req = 3" "bit r' (k + 4) \<longleftrightarrow> req = 1 \<or> req = 3"
    "state = Some (of_bool (req = 2 \<or> req = 3), of_bool (req = 1 \<or> req = 3))"
    "\<And>j. j < 4 \<Longrightarrow> j \<noteq> k \<Longrightarrow> bit a' j = bit a j \<and> bit r' (j + 4) = bit r (j + 4)"
    using v e [symmetric] k unfolding uart_types_iff
    by (elim disjE conjE; simp add: set_uart_bits_def clear_uart_bits_def ten_eq bit_and_iff bit_or_iff bit_not_iff one_bit del: push_bit_of_1)+
  show "bit a' k \<longleftrightarrow> req = 2 \<or> req = 3" "bit r' (k + 4) \<longleftrightarrow> req = 1 \<or> req = 3"
    "state = Some (of_bool (req = 2 \<or> req = 3), of_bool (req = 1 \<or> req = 3))"
    "j < 4 \<Longrightarrow> j \<noteq> k \<Longrightarrow> bit a' j = bit a j \<and> bit r' (j + 4) = bit r (j + 4)" using f by blast+
qed

text \<open>What SNX_UART_GET_TYPE answers.\<close>

definition reported_type :: "int \<Rightarrow> int \<Rightarrow> sunix_board list \<Rightarrow> machine \<Rightarrow> int option" where
  "reported_type b num tab m =
    map_option (\<lambda>(_, ug, _). ug_value ug) (snx_uart_get_type True True \<lparr>ug_board_id = b, ug_uart_num = num, ug_value = 0\<rparr> tab m)"

text \<open>A board of the table whose BARs are those of its device, and one of its ports.\<close>

definition board_uart :: "sunix_board list \<Rightarrow> int \<Rightarrow> int \<Rightarrow> u32 \<Rightarrow> u32 \<Rightarrow> bool" where
  "board_uart tab b num bar3 bar1 \<longleftrightarrow> 1 \<le> num \<and> num \<le> 16 \<and> (\<exists>sb dev. board_at b tab = Some sb \<and> sb_pdev sb = Some dev
     \<and> pd_resource dev ! 3 = bar3 \<and> pd_resource dev ! 1 = bar1 \<and> sb_bar_addr sb ! 3 = bar3 \<and> sb_bar_addr sb ! 1 = bar1)"

lemma reported_eq:
  assumes b: "board_uart tab b num bar3 bar1" and t: "\<And>h. m_in m h (ucast (bar3 + 5)) = byte5"
    and r: "regfile ini m {base + 2, base + 3}" and base: "base = uart_cfg_base bar3 bar1 num"
  defines "k \<equiv> nat ((num - 1) mod 4)"
  shows "reported_type b num tab m = Some (uart_mode (drop_bit 6 (byte5 AND 0xC0))
    (bit (last (ini (base + 2) # outs_at (ucast (base + 2)) (trace m))) k)
    (bit (last (ini (base + 3) # outs_at (ucast (base + 3)) (trace m))) (k + 4)) 0)"
proof -
  obtain sb dev where B: "board_at b tab = Some sb" "sb_pdev sb = Some dev" "pd_resource dev ! 3 = bar3" "pd_resource dev ! 1 = bar1"
    "1 \<le> num" "num \<le> 16" using b by (auto simp: board_uart_def)
  have k: "k < 4" by (simp add: k_def nat_less_iff)
  have i: "m_in m h (ucast (base + 2)) = last (ini (base + 2) # outs_at (ucast (base + 2)) h)"
    "m_in m h (ucast (base + 3)) = last (ini (base + 3) # outs_at (ucast (base + 3)) h)" for h
    using r by (simp_all add: regfile_def)
  show ?thesis
    using B t i test_one [OF k] test_ten [OF k] base [symmetric]
    by (simp add: reported_type_def snx_uart_get_type_def resource_start_def in8_eq Let_def uart_bit_eq k_def [symmetric] copied_def
        del: last.simps push_bit_of_1)
qed

lemma uart_mode_req: "req \<in> uart_types t \<Longrightarrow> uart_mode t (req = 2 \<or> req = 3) (req = 1 \<or> req = 3) old = req"
  by (auto simp: uart_types_iff uart_mode_def)

lemma group_base: "(num' - 1) div 4 = (num - 1) div 4 \<Longrightarrow> uart_cfg_base bar3 bar1 num' = uart_cfg_base bar3 bar1 num"
proof -
  assume g: "(num' - 1) div 4 = (num - 1) div 4"
  have "num' \<le> 4 * j \<longleftrightarrow> num \<le> 4 * j" for j using g by presburger
  from this [of 1] this [of 2] this [of 3] this [of 4] show ?thesis by (simp add: uart_cfg_base_def)
qed

text \<open>The four writes to the EEPROM leave the configuration registers alone.\<close>

lemma eeprom_writes_return:
  assumes ok: "\<And>h. m_in m h (ucast (a + 8)) AND 4 = 0"
  shows "\<exists>m' ts. Option.bind (EEPROMWriteData a a1 d1 m) (\<lambda>(_, m9). Option.bind (EEPROMWriteData a a2 d2 m9) (\<lambda>(_, m10).
      Option.bind (EEPROMWriteData a a3 d3 m10) (\<lambda>(_, m11). Option.bind (EEPROMWriteData a a4 d4 m11) (\<lambda>(_, m12). k m12)))) = k m'
    \<and> ran m ts m' \<and> (\<forall>b. b \<notin> {a + 8, a + 9, a + 0xA} \<longrightarrow> outs_at (ucast b) ts = [])"
proof -
  obtain r1 m1 t1 where 1: "EEPROMWriteData a a1 d1 m = Some (r1, m1)" "ran m t1 m1"
    "\<forall>b. b \<notin> {a + 8, a + 9, a + 0xA} \<longrightarrow> outs_at (ucast b) t1 = []" using eeprom_write_returns [OF ok] by blast
  have ok1: "m_in m1 h (ucast (a + 8)) AND 4 = 0" for h using ok 1(2) by (simp add: ran_def)
  obtain r2 m2 t2 where 2: "EEPROMWriteData a a2 d2 m1 = Some (r2, m2)" "ran m1 t2 m2"
    "\<forall>b. b \<notin> {a + 8, a + 9, a + 0xA} \<longrightarrow> outs_at (ucast b) t2 = []" using eeprom_write_returns [OF ok1] by blast
  have ok2: "m_in m2 h (ucast (a + 8)) AND 4 = 0" for h using ok1 2(2) by (simp add: ran_def)
  obtain r3 m3 t3 where 3: "EEPROMWriteData a a3 d3 m2 = Some (r3, m3)" "ran m2 t3 m3"
    "\<forall>b. b \<notin> {a + 8, a + 9, a + 0xA} \<longrightarrow> outs_at (ucast b) t3 = []" using eeprom_write_returns [OF ok2] by blast
  have ok3: "m_in m3 h (ucast (a + 8)) AND 4 = 0" for h using ok2 3(2) by (simp add: ran_def)
  obtain r4 m4 t4 where 4: "EEPROMWriteData a a4 d4 m3 = Some (r4, m4)" "ran m3 t4 m4"
    "\<forall>b. b \<notin> {a + 8, a + 9, a + 0xA} \<longrightarrow> outs_at (ucast b) t4 = []" using eeprom_write_returns [OF ok3] by blast
  have "ran m (t1 @ t2 @ t3 @ t4) m4" using 1(2) 2(2) 3(2) 4(2) by (simp add: ran_def)
  moreover have "outs_at (ucast b) (t1 @ t2 @ t3 @ t4) = []" if "b \<notin> {a + 8, a + 9, a + 0xA}" for b
    using that 1(3) 2(3) 3(3) 4(3) by simp
  ultimately show ?thesis using 1(1) 2(1) 3(1) 4(1) by (intro exI [of _ m4] exI [of _ "t1 @ t2 @ t3 @ t4"]) simp
qed

lemma cfg_distinct [simp]: "(a :: u32) + 2 \<noteq> a + 8" "a + 2 \<noteq> a + 9" "a + 2 \<noteq> a + 0xA" "a + 3 \<noteq> a + 8" "a + 3 \<noteq> a + 9"
    "a + 3 \<noteq> a + 0xA" "a + 0xC \<noteq> a + 2" "a + 0xD \<noteq> a + 2" "a + 0xC \<noteq> a + 3" "a + 0xD \<noteq> a + 3" "a + 3 \<noteq> a + 2" "a + 2 \<noteq> a + 3"
  by (simp_all only: add_left_cancel) simp_all

text \<open>The ioctl is six reads, four writes and the flash.\<close>

lemma set_type_eq:
  assumes B: "board_at b tab = Some sb" "sb_bar_addr sb ! 3 = bar3" "sb_bar_addr sb ! 1 = bar1" "1 \<le> num" "num \<le> 16"
    and base: "base = uart_cfg_base bar3 bar1 num" and k: "k = nat ((num - 1) mod 4)"
    and n: "n = sint (sb_ser_port_index sb - 1 + word_of_int num)" "0 \<le> n" "nat n < length ser" and sp: "sp = ser ! nat n"
    and i: "in8 (bar3 + 5) m = (byte, m1)" "in8 (base + 2) m1 = (a, m2)" "in8 (base + 3) m2 = (r, m3)" "in8 (base + 0xC) m3 = (g, m4)"
      "in8 (base + 0xD) m4 = (c, m5)" "in8 (sp_iobase sp + UART_MCR) m5 = (mcr, m6)"
    and e: "set_uart_bits (drop_bit 6 (byte AND 0xC0)) req (push_bit k 1) (push_bit k 0x10)
      (clear_uart_bits (push_bit k 1) (push_bit k 0x10) (a, r, g, c)) = ((a', r', g', c'), up, Some (v1, v2))"
    and m7: "m7 = (if up then out8 (mcr AND 0xFC OR 0x03) (sp_iobase sp + UART_MCR) m6 else m6)"
    and m8: "m8 = out8 c' (base + 0x0D) (out8 g' (base + 0x0C) (out8 r' (base + 0x03) (out8 a' (base + 0x02) m7)))"
  shows "snx_uart_set_type True \<lparr>ug_board_id = b, ug_uart_num = num, ug_value = req\<rparr> tab ser m
     = Option.bind (EEPROMWriteData base 0x13 a' m8) (\<lambda>(_, m9). Option.bind (EEPROMWriteData base 0x14 r' m9) (\<lambda>(_, m10).
       Option.bind (EEPROMWriteData base 0x19 (NOT c') m10) (\<lambda>(_, m11). Option.bind (EEPROMWriteData base 0x1A g' m11)
         (\<lambda>(_, m12). Some (0 :: int, ser[nat n := sp\<lparr>sp_AHDC_State := v1, sp_RS422_State := v2\<rparr>], m12)))))"
  using i e n(2,3) B
  by (simp add: snx_uart_set_type_def base [symmetric] uart_bit_eq k [symmetric] copied_def sp m7 m8 Let_def n(1) [symmetric]
      del: push_bit_of_1)

text \<open>The registers the switch writes: those of the group, its EEPROM's, and the port's modem control.\<close>

definition set_type_regs :: "u32 \<Rightarrow> u32 \<Rightarrow> u32 set" where
  "set_type_regs base mcr = {base + 2, base + 3, base + 8, base + 9, base + 0xA, base + 0xC, base + 0xD, mcr}"

text \<open>Run: it returns, and the two registers read back hold what was computed from what they held.\<close>

lemma set_type_runs:
  assumes b: "board_uart tab b num bar3 bar1" and base: "base = uart_cfg_base bar3 bar1 num" and k: "k = nat ((num - 1) mod 4)"
    and n: "n = sint (sb_ser_port_index (tab ! nat (b - 1)) - 1 + word_of_int num)" "0 \<le> n" "nat n < length ser"
    and t: "\<And>h. m_in m h (ucast (bar3 + 5)) = byte5" and req: "req \<in> uart_types (drop_bit 6 (byte5 AND 0xC0))"
    and regs: "regfile ini m {base + 2, base + 3}" and ok: "\<And>h. m_in m h (ucast (base + 8)) AND 4 = 0"
  obtains m' a r g c a' r' g' c' up v1 v2
  where "snx_uart_set_type True \<lparr>ug_board_id = b, ug_uart_num = num, ug_value = req\<rparr> tab ser m
      = Some (0, ser[nat n := (ser ! nat n)\<lparr>sp_AHDC_State := v1, sp_RS422_State := v2\<rparr>], m')"
    "set_uart_bits (drop_bit 6 (byte5 AND 0xC0)) req (push_bit k 1) (push_bit k 0x10)
      (clear_uart_bits (push_bit k 1) (push_bit k 0x10) (a, r, g, c)) = ((a', r', g', c'), up, Some (v1, v2))"
    "a = last (ini (base + 2) # outs_at (ucast (base + 2)) (trace m))" "r = last (ini (base + 3) # outs_at (ucast (base + 3)) (trace m))"
    "m_in m' = m_in m" "last (ini (base + 2) # outs_at (ucast (base + 2)) (trace m')) = a'"
    "last (ini (base + 3) # outs_at (ucast (base + 3)) (trace m')) = r'"
    "\<forall>x. x \<notin> set_type_regs base (sp_iobase (ser ! nat n) + UART_MCR) \<longrightarrow> outs_at (ucast x) (trace m') = outs_at (ucast x) (trace m)"
proof -
  obtain sb where B: "board_at b tab = Some sb" "sb = tab ! nat (b - 1)" "sb_bar_addr sb ! 3 = bar3" "sb_bar_addr sb ! 1 = bar1"
    "1 \<le> num" "num \<le> 16" using b by (auto simp: board_uart_def board_at_def Let_def split: if_splits)
  define sp where "sp = ser ! nat n"
  obtain byte m1 a m2 r m3 where i1: "in8 (bar3 + 5) m = (byte, m1)" "in8 (base + 2) m1 = (a, m2)" "in8 (base + 3) m2 = (r, m3)"
    by (metis surj_pair)
  obtain g m4 c m5 mcr m6 where i2: "in8 (base + 0xC) m3 = (g, m4)" "in8 (base + 0xD) m4 = (c, m5)"
    "in8 (sp_iobase sp + UART_MCR) m5 = (mcr, m6)" by (metis surj_pair)
  have byte: "byte = byte5" using i1 t by (simp add: in8_eq)
  obtain a' r' g' c' up state where e: "set_uart_bits (drop_bit 6 (byte AND 0xC0)) req (push_bit k 1) (push_bit k 0x10)
      (clear_uart_bits (push_bit k 1) (push_bit k 0x10) (a, r, g, c)) = ((a', r', g', c'), up, state)"
    by (metis prod_cases3 prod_cases4)
  have "k < 4" by (simp add: k nat_less_iff)
  then obtain v1 v2 where st: "state = Some (v1, v2)" using set_uart_bits_ok(3) [OF _ req e [unfolded byte]] by blast
  define m7 where "m7 = (if up then out8 (mcr AND 0xFC OR 0x03) (sp_iobase sp + UART_MCR) m6 else m6)"
  define m8 where "m8 = out8 c' (base + 0x0D) (out8 g' (base + 0x0C) (out8 r' (base + 0x03) (out8 a' (base + 0x02) m7)))"
  let ?ins = "[In (ucast (bar3 + 5)) byte] @ [In (ucast (base + 2)) a] @ [In (ucast (base + 3)) r] @ [In (ucast (base + 0xC)) g]
    @ [In (ucast (base + 0xD)) c] @ [In (ucast (sp_iobase sp + UART_MCR)) mcr]"
  have "ran m ?ins m6"
    by (rule ran_trans [OF ran_in8 [OF i1(1)] ran_trans [OF ran_in8 [OF i1(2)] ran_trans [OF ran_in8 [OF i1(3)]
      ran_trans [OF ran_in8 [OF i2(1)] ran_trans [OF ran_in8 [OF i2(2)] ran_in8 [OF i2(3)]]]]]])
  then have m6: "trace m6 = trace m @ ?ins" "m_in m6 = m_in m" by (simp_all add: ran_def)
  then have m8: "m_in m8 = m_in m" by (simp add: m8_def m7_def)
  define vs where "vs = ?ins @ (if up then [Out (ucast (sp_iobase sp + UART_MCR)) (mcr AND 0xFC OR 0x03)] else [])"
  have vs: "trace m8 = trace m @ vs @ [Out (ucast (base + 2)) a', Out (ucast (base + 3)) r', Out (ucast (base + 0xC)) g',
      Out (ucast (base + 0xD)) c']" "\<And>x. x \<noteq> sp_iobase sp + UART_MCR \<Longrightarrow> outs_at (ucast x) vs = []"
    using m6(1) by (auto simp: m8_def m7_def vs_def ucast_u32_u64_inj)
  have ok8: "m_in m8 h (ucast (base + 8)) AND 4 = 0" for h using ok m8 by simp
  let ?r = "\<lambda>m12. Some (0, ser[nat n := sp\<lparr>sp_AHDC_State := v1, sp_RS422_State := v2\<rparr>], m12)"
  obtain m' ts where w: "snx_uart_set_type True \<lparr>ug_board_id = b, ug_uart_num = num, ug_value = req\<rparr> tab ser m = ?r m'"
    and r: "ran m8 ts m'" "\<forall>b. b \<notin> {base + 8, base + 9, base + 0xA} \<longrightarrow> outs_at (ucast b) ts = []"
    using eeprom_writes_return [OF ok8, of "0x13" a' "0x14" r' "0x19" "NOT c'" "0x1A" g' ?r]
      set_type_eq [OF B(1,3-6) base k n [folded B(2)] sp_def i1 i2 e [unfolded st] m7_def m8_def] by metis
  show ?thesis
  proof (rule that [OF w [unfolded sp_def] e [unfolded st byte]])
    show "a = last (ini (base + 2) # outs_at (ucast (base + 2)) (trace m))" "r = last (ini (base + 3) # outs_at (ucast (base + 3)) (trace m))"
      using i1 regs by (auto simp: in8_eq regfile_def)
    show "m_in m' = m_in m" "last (ini (base + 2) # outs_at (ucast (base + 2)) (trace m')) = a'"
      "last (ini (base + 3) # outs_at (ucast (base + 3)) (trace m')) = r'"
      using r m8 by (auto simp: ran_def vs(1) ucast_u32_u64_inj)
    show "\<forall>x. x \<notin> set_type_regs base (sp_iobase (ser ! nat n) + UART_MCR) \<longrightarrow> outs_at (ucast x) (trace m') = outs_at (ucast x) (trace m)"
      using r vs(2) by (auto simp: ran_def vs(1) ucast_u32_u64_inj set_type_regs_def sp_def)
  qed
qed

text \<open>The register groups in BAR 1 are 64 bytes apart, so switching a port of one writes to none of the others.\<close>

lemma groups_apart:
  assumes "4 < num" "4 < num'" "num \<le> 16" "num' \<le> 16" "(num' - 1) div 4 \<noteq> (num - 1) div 4" "x = 2 \<or> x = 3"
  shows "uart_cfg_base bar3 bar1 num' + x \<notin> set_type_regs (uart_cfg_base bar3 bar1 num) mcr \<or> uart_cfg_base bar3 bar1 num' + x = mcr"
proof -
  define h where "h = (\<lambda>n :: int. if n \<le> 8 then 0x30 else if n \<le> 12 then 0x70 else 0xB0 :: u32)"
  have b: "uart_cfg_base bar3 bar1 num = bar1 + h num" "uart_cfg_base bar3 bar1 num' = bar1 + h num'"
    using assms(1-4) by (simp_all add: uart_cfg_base_def h_def)
  have "(num \<le> 8) \<noteq> (num' \<le> 8) \<or> (num \<le> 12) \<noteq> (num' \<le> 12)"
  proof -
    have "(n - 1) div 4 = (if n \<le> 8 then 1 else if n \<le> 12 then 2 else 3)" if "4 < n" "n \<le> 16" for n :: int
      using that by presburger
    from this [OF assms(1,3)] this [OF assms(2,4)] show ?thesis using assms(5) by (auto split: if_splits)
  qed
  then have "h num' + x \<noteq> h num + y" if "y \<in> {2, 3, 8, 9, 0xA, 0xC, 0xD}" for y
    using that assms(6) by (auto simp: h_def)
  then show ?thesis by (auto simp: set_type_regs_def b add.assoc)
qed

text \<open>
  C15. Switching a port's type takes effect. For each of the sixteen ports of a board and each type the
  board offers, SNX_UART_SET_TYPE returns 0 on hardware whose configuration registers hold what is
  written and whose EEPROM reports no error; from then on SNX_UART_GET_TYPE answers that type, the
  driver's record of the port says the same, and no other record is touched. The answers for the other ports of
  the board are what they were: for the other three of its group always, for those of another group if the two
  registers of that group hold what is written and are none of those the switch writes, which groups of BAR 1 are
  not for each other.
\<close>

theorem uart_type_roundtrip:
  assumes b: "board_uart tab b num bar3 bar1" and base: "base = uart_cfg_base bar3 bar1 num"
    and n: "n = sint (sb_ser_port_index (tab ! nat (b - 1)) - 1 + word_of_int num)" "0 \<le> n" "nat n < length ser"
    and t: "\<And>h. m_in m h (ucast (bar3 + 5)) = byte5" and req: "req \<in> uart_types (drop_bit 6 (byte5 AND 0xC0))"
    and regs: "regfile ini m {base + 2, base + 3}" and ok: "\<And>h. m_in m h (ucast (base + 8)) AND 4 = 0"
  shows "\<exists>m'. snx_uart_set_type True \<lparr>ug_board_id = b, ug_uart_num = num, ug_value = req\<rparr> tab ser m
      = Some (0, ser[nat n := (ser ! nat n)\<lparr>sp_AHDC_State := of_bool (req = 2 \<or> req = 3), sp_RS422_State := of_bool (req = 1 \<or> req = 3)\<rparr>], m')
    \<and> reported_type b num tab m' = Some req
    \<and> (\<forall>num' \<in> {1..16}. (num' - 1) div 4 = (num - 1) div 4 \<and> num' \<noteq> num \<longrightarrow>
         reported_type b num' tab m' = reported_type b num' tab m)
    \<and> (\<forall>num' \<in> {1..16}. \<forall>base'. base' = uart_cfg_base bar3 bar1 num' \<and> regfile ini m {base' + 2, base' + 3}
         \<and> {base' + 2, base' + 3} \<inter> set_type_regs base (sp_iobase (ser ! nat n) + UART_MCR) = {} \<longrightarrow>
         reported_type b num' tab m' = reported_type b num' tab m)"
proof -
  define k where "k = nat ((num - 1) mod 4)"
  have k: "k < 4" by (simp add: k_def nat_less_iff)
  obtain m' a r g c a' r' g' c' up v1 v2 where
    set: "snx_uart_set_type True \<lparr>ug_board_id = b, ug_uart_num = num, ug_value = req\<rparr> tab ser m
      = Some (0, ser[nat n := (ser ! nat n)\<lparr>sp_AHDC_State := v1, sp_RS422_State := v2\<rparr>], m')"
    and e: "set_uart_bits (drop_bit 6 (byte5 AND 0xC0)) req (push_bit k 1) (push_bit k 0x10)
      (clear_uart_bits (push_bit k 1) (push_bit k 0x10) (a, r, g, c)) = ((a', r', g', c'), up, Some (v1, v2))"
    and old: "a = last (ini (base + 2) # outs_at (ucast (base + 2)) (trace m))" "r = last (ini (base + 3) # outs_at (ucast (base + 3)) (trace m))"
    and m': "m_in m' = m_in m" "last (ini (base + 2) # outs_at (ucast (base + 2)) (trace m')) = a'"
      "last (ini (base + 3) # outs_at (ucast (base + 3)) (trace m')) = r'"
    and far: "\<forall>x. x \<notin> set_type_regs base (sp_iobase (ser ! nat n) + UART_MCR) \<longrightarrow> outs_at (ucast x) (trace m') = outs_at (ucast x) (trace m)"
    by (rule set_type_runs [OF b base k_def n t req regs ok])
  note S = set_uart_bits_ok [OF k req e]
  have regs': "regfile ini m' {base + 2, base + 3}" and t': "\<And>h. m_in m' h (ucast (bar3 + 5)) = byte5"
    using regs t m'(1) by (simp_all add: regfile_def)
  have new: "reported_type b num tab m' = Some req"
    using reported_eq [OF b t' regs' base] m' S(1,2) uart_mode_req [OF req] by (simp add: k_def [symmetric] del: last.simps)
  have other: "reported_type b num' tab m' = reported_type b num' tab m"
    if g: "num' \<in> {1..16}" "(num' - 1) div 4 = (num - 1) div 4" "num' \<noteq> num" for num'
  proof -
    have b': "board_uart tab b num' bar3 bar1" "base = uart_cfg_base bar3 bar1 num'"
      using b g(1) group_base [OF g(2)] base by (simp_all add: board_uart_def)
    define j where "j = nat ((num' - 1) mod 4)"
    have "(num' - 1) mod 4 \<noteq> (num - 1) mod 4" using g(2,3) by presburger
    then have j: "j < 4" "j \<noteq> k" by (simp_all add: j_def k_def nat_less_iff)
    show ?thesis
      using reported_eq [OF b'(1) t' regs' b'(2)] reported_eq [OF b'(1) t regs b'(2)] m' S(4) [OF j] old
      by (simp add: j_def [symmetric] del: last.simps)
  qed
  have outside: "reported_type b num' tab m' = reported_type b num' tab m"
    if g: "num' \<in> {1..16}" "base' = uart_cfg_base bar3 bar1 num'" "regfile ini m {base' + 2, base' + 3}"
      "{base' + 2, base' + 3} \<inter> set_type_regs base (sp_iobase (ser ! nat n) + UART_MCR) = {}" for num' base'
  proof -
    have b': "board_uart tab b num' bar3 bar1" using b g(1) by (simp add: board_uart_def)
    have "regfile ini m' {base' + 2, base' + 3}" using g(3) m'(1) by (simp add: regfile_def)
    from reported_eq [OF b' t' this g(2)] reported_eq [OF b' t g(3,2)] far [rule_format, of "base' + 2"] far [rule_format, of "base' + 3"] g(4)
    show ?thesis by (simp del: last.simps)
  qed
  show ?thesis using set new other outside S(3) by (intro exI [of _ m']) auto
qed

definition config_board :: sunix_board where
  "config_board = zero_board\<lparr>sb_gpio_chl_cnt := 16, sb_bar_addr := [0, 0x2000, 0, 0x1000, 0, 0],
     sb_pdev := Some \<lparr>pd_ident = 0, pd_bus = 0, pd_slot = 0, pd_subdev = 0, pd_resource = [0, 0x2000, 0, 0x1000, 0, 0],
       pd_irq = 0, pd_enable = 0\<rparr>\<rparr>"

definition config_machine :: machine where
  "config_machine = idle_machine\<lparr>m_in := \<lambda>h a.
     if a = 0x1002 \<or> a = 0x1003 then last (0 # outs_at a h) else if a = 0x1005 then 0x80 else 0\<rparr>"

theorem uart_type_roundtrip_witness:
  "\<exists>m'. snx_uart_set_type True \<lparr>ug_board_id = 1, ug_uart_num = 2, ug_value = 3\<rparr> [config_board] (replicate 4 zero_ser_port) config_machine
      = Some (0, (replicate 4 zero_ser_port)[1 := zero_ser_port\<lparr>sp_AHDC_State := 1, sp_RS422_State := 1\<rparr>], m')
    \<and> reported_type 1 2 [config_board] m' = Some 3 \<and> reported_type 1 1 [config_board] m' = reported_type 1 1 [config_board] config_machine"
proof -
  have "board_uart [config_board] 1 2 0x1000 0x2000"
    by (simp add: board_uart_def board_at_def config_board_def)
  moreover have "regfile (\<lambda>_. 0) config_machine {0x1002, 0x1003}" by (simp add: regfile_def config_machine_def)
  moreover have "m_in config_machine h 0x1005 = 0x80" "m_in config_machine h 0x1008 = 0" for h
    by (simp_all add: config_machine_def)
  ultimately show ?thesis
    using uart_type_roundtrip [of "[config_board]" 1 2 "0x1000" "0x2000" "0x1000" 1 "replicate 4 zero_ser_port" config_machine "0x80" 3 "\<lambda>_. 0"]
    by (fastforce simp: uart_cfg_base_def uart_types_def config_board_def zero_board_def)
qed

subsection \<open>The flash behind the larger boards\<close>

text \<open>
  The protocol the code speaks with the flash: an address and a data register, and a command register
  whose commands are read a cell (1), write a cell (3) and erase (9), after which the cells hold
  whatever \<open>er\<close> says. \<open>flash_at\<close> is its state after a history.
\<close>

record flash =
  fl_addr :: u8
  fl_data :: u8
  fl_cells :: "u8 \<Rightarrow> u8"

fun flash_step :: "u32 \<Rightarrow> ((u8 \<Rightarrow> u8) \<Rightarrow> u8 \<Rightarrow> u8) \<Rightarrow> event \<Rightarrow> flash \<Rightarrow> flash" where
  "flash_step bar1 er (Out a v) f =
    (if a = ucast (bar1 + 0xE1) then f\<lparr>fl_addr := v\<rparr>
     else if a = ucast (bar1 + 0xE2) then f\<lparr>fl_data := v\<rparr>
     else if a = ucast (bar1 + 0xE0) then
       (if v = 1 then f\<lparr>fl_data := fl_cells f (fl_addr f)\<rparr>
        else if v = 3 then f\<lparr>fl_cells := (fl_cells f)(fl_addr f := fl_data f)\<rparr>
        else if v = 9 then f\<lparr>fl_cells := er (fl_cells f)\<rparr>
        else f)
     else f)"
| "flash_step bar1 er _ f = f"

definition flash_at :: "u32 \<Rightarrow> ((u8 \<Rightarrow> u8) \<Rightarrow> u8 \<Rightarrow> u8) \<Rightarrow> flash \<Rightarrow> event list \<Rightarrow> flash" where
  "flash_at bar1 er f0 h = fold (flash_step bar1 er) h f0"

definition flash_device :: "u32 \<Rightarrow> ((u8 \<Rightarrow> u8) \<Rightarrow> u8 \<Rightarrow> u8) \<Rightarrow> flash \<Rightarrow> machine \<Rightarrow> bool" where
  "flash_device bar1 er f0 m \<longleftrightarrow> (\<forall>h. m_in m h (ucast (bar1 + 0xE2)) = fl_data (flash_at bar1 er f0 h))"

definition never_busy :: "u32 \<Rightarrow> machine \<Rightarrow> bool" where
  "never_busy bar1 m \<longleftrightarrow> (\<forall>h. m_in m h (ucast (bar1 + 0xE0)) AND 1 = 0)"

lemma flash_at_simps [simp]:
  "flash_at bar1 er f0 (h @ map (In a) vs) = flash_at bar1 er f0 h"
  "flash_at bar1 er f0 (h @ [In b v]) = flash_at bar1 er f0 h"
  "flash_at bar1 er f0 (h @ [Out a v]) = flash_step bar1 er (Out a v) (flash_at bar1 er f0 h)"
proof -
  show "flash_at bar1 er f0 (h @ map (In a) vs) = flash_at bar1 er f0 h"
    by (induction vs rule: rev_induct) (simp_all add: flash_at_def)
qed (simp_all add: flash_at_def)

lemma poll_busy_flash:
  assumes "poll_busy N a d m = (r, m')"
  shows "m_in m' = m_in m" "flash_at bar1 er f0 (trace m') = flash_at bar1 er f0 (trace m)"
  using poll_busy_ran [OF assms] by (auto simp: ran_def)

lemma never_busy_poll:
  assumes "never_busy bar1 m" and "d < N"
  shows "\<exists>m'. poll_busy N (bar1 + 0xE0) d m = (Some (Suc d), m')"
  using assms by (subst poll_busy.simps) (simp add: in8_eq never_busy_def)

lemma never_busy_step: "m_in m' = m_in m \<Longrightarrow> never_busy bar1 m' = never_busy bar1 m"
  by (simp add: never_busy_def)

text \<open>Reading one cell, and reading them all.\<close>

lemma flash_read_cell_Inr:
  assumes "flash_read_cell rst bar1 i (d, fl, m) = Inr (d', fl', m')" and "flash_device bar1 er f0 m"
  shows "fl' = fl @ [fl_cells (flash_at bar1 er f0 (trace m)) (of_nat i)]" "m_in m' = m_in m"
    "fl_cells (flash_at bar1 er f0 (trace m')) = fl_cells (flash_at bar1 er f0 (trace m))"
proof -
  obtain d1 m1 where p1: "poll_busy EEPROM_ACCESS_DELAY_COUNT (bar1 + 0xE0) d m = (Some d1, m1)"
    using assms(1) by (auto simp: flash_read_cell_def split: prod.splits option.splits)
  let ?m = "out8 0x01 (bar1 + 0xE0) (out8 (of_nat i) (bar1 + 0xE1) m1)"
  obtain d2 m2 where p2: "poll_busy EEPROM_ACCESS_DELAY_COUNT (bar1 + 0xE0) (if rst then 0 else d1) ?m = (Some d2, m2)"
    using assms(1) p1 by (auto simp: flash_read_cell_def split: prod.splits option.splits)
  note P1 = poll_busy_flash [OF p1] note P2 = poll_busy_flash [OF p2]
  have e: "(bar1 + 0xE0 :: u32) \<noteq> bar1 + 0xE1" "(bar1 + 0xE0 :: u32) \<noteq> bar1 + 0xE2" "(bar1 + 0xE1 :: u32) \<noteq> bar1 + 0xE2"
    by (simp_all only: add_left_cancel) simp_all
  have f: "flash_at bar1 er f0 (trace m2) = (flash_at bar1 er f0 (trace m))\<lparr>fl_addr := of_nat i,
      fl_data := fl_cells (flash_at bar1 er f0 (trace m)) (of_nat i)\<rparr>"
    using P1(2) [of bar1 er f0] P2(2) [of bar1 er f0] e flash_at_simps(3) [of bar1 er f0 "trace m1 @ [Out (ucast (bar1 + 0xE1)) (of_nat i)]"]
    by (simp add: ucast_u32_u64_inj)
  have "m_in m2 (trace m2) (ucast (bar1 + 0xE2)) = fl_data (flash_at bar1 er f0 (trace m2))"
    using assms(2) P1(1) P2(1) by (simp add: flash_device_def)
  then show "fl' = fl @ [fl_cells (flash_at bar1 er f0 (trace m)) (of_nat i)]" "m_in m' = m_in m"
    "fl_cells (flash_at bar1 er f0 (trace m')) = fl_cells (flash_at bar1 er f0 (trace m))"
    using assms(1) p1 p2 P1(1) P2(1) f by (auto simp: flash_read_cell_def in8_eq)
qed

lemma flash_device_step: "m_in m' = m_in m \<Longrightarrow> flash_device bar1 er f0 m' = flash_device bar1 er f0 m"
  by (simp add: flash_device_def)

lemma flash_read_all:
  assumes "fold_err (flash_read_cell rst bar1) [0..<n] (d, [], m) = Inr (d', fl, m')" and "flash_device bar1 er f0 m"
  shows "fl = map (\<lambda>i. fl_cells (flash_at bar1 er f0 (trace m)) (of_nat i)) [0..<n] \<and> m_in m' = m_in m
    \<and> fl_cells (flash_at bar1 er f0 (trace m')) = fl_cells (flash_at bar1 er f0 (trace m))"
  using assms
proof (induction n arbitrary: d' fl m')
  case (Suc n)
  obtain d1 fl1 m1 where 1: "fold_err (flash_read_cell rst bar1) [0..<n] (d, [], m) = Inr (d1, fl1, m1)"
    "flash_read_cell rst bar1 n (d1, fl1, m1) = Inr (d', fl, m')"
    using Suc.prems(1) by (auto simp: fold_err_append split: sum.splits)
  note I = Suc.IH [OF 1(1) assms(2)]
  then have "flash_device bar1 er f0 m1" using assms(2) flash_device_step by blast
  from flash_read_cell_Inr [OF 1(2) this] I show ?case by simp
qed simp

text \<open>Writing them back.\<close>

lemma flash_write_cell_Inr:
  assumes "flash_write_cell rst bar1 fl i (d, m) = Inr (d', m')"
  shows "m_in m' = m_in m"
    "fl_cells (flash_at bar1 er f0 (trace m')) = (fl_cells (flash_at bar1 er f0 (trace m)))(of_nat i := fl ! i)"
proof -
  obtain d1 m1 where p1: "poll_busy EEPROM_ACCESS_DELAY_COUNT (bar1 + 0xE0) d m = (Some d1, m1)"
    using assms(1) by (auto simp: flash_write_cell_def split: prod.splits option.splits)
  let ?m = "out8 0x03 (bar1 + 0xE0) (out8 (fl ! i) (bar1 + 0xE2) (out8 (of_nat i) (bar1 + 0xE1) m1))"
  obtain d2 where p2: "poll_busy EEPROM_ACCESS_DELAY_COUNT (bar1 + 0xE0) (if rst then 0 else d1) ?m = (Some d2, m')"
    using assms(1) p1 by (auto simp: flash_write_cell_def split: prod.splits option.splits)
  note P1 = poll_busy_flash [OF p1] note P2 = poll_busy_flash [OF p2]
  have e: "(bar1 + 0xE0 :: u32) \<noteq> bar1 + 0xE1" "(bar1 + 0xE0 :: u32) \<noteq> bar1 + 0xE2" "(bar1 + 0xE1 :: u32) \<noteq> bar1 + 0xE2"
    by (simp_all only: add_left_cancel) simp_all
  let ?h1 = "trace m1 @ [Out (ucast (bar1 + 0xE1)) (of_nat i)]" and ?h2 = "trace m1 @ [Out (ucast (bar1 + 0xE1)) (of_nat i)] @ [Out (ucast (bar1 + 0xE2)) (fl ! i)]"
  show "fl_cells (flash_at bar1 er f0 (trace m')) = (fl_cells (flash_at bar1 er f0 (trace m)))(of_nat i := fl ! i)"
    using P1(2) [of bar1 er f0] P2(2) [of bar1 er f0] e flash_at_simps(3) [of bar1 er f0 ?h1] flash_at_simps(3) [of bar1 er f0 ?h2]
    by (simp add: ucast_u32_u64_inj)
  show "m_in m' = m_in m" using P1(1) P2(1) by simp
qed

lemma flash_write_all:
  assumes "fold_err (flash_write_cell rst bar1 fl) [0..<n] (d, m) = Inr (d', m')" and "n \<le> 256"
  shows "m_in m' = m_in m \<and> fl_cells (flash_at bar1 er f0 (trace m'))
    = (\<lambda>x. if unat x < n then fl ! unat x else fl_cells (flash_at bar1 er f0 (trace m)) x)"
  using assms
proof (induction n arbitrary: d' m')
  case (Suc n)
  obtain d1 m1 where 1: "fold_err (flash_write_cell rst bar1 fl) [0..<n] (d, m) = Inr (d1, m1)"
    "flash_write_cell rst bar1 fl n (d1, m1) = Inr (d', m')"
    using Suc.prems(1) by (auto simp: fold_err_append split: sum.splits)
  have "unat (of_nat n :: u8) = n" using Suc.prems(2) by (simp add: unat_of_nat)
  then have "x = of_nat n \<longleftrightarrow> unat x = n" for x :: u8 by auto
  then show ?case using Suc.IH [OF 1(1)] Suc.prems(2) flash_write_cell_Inr(1) [OF 1(2)] flash_write_cell_Inr(2) [OF 1(2), of er f0] by (auto simp: less_Suc_eq)
qed simp

lemma flash_read_ready:
  assumes "never_busy bar1 m" and "d + 2 * n < EEPROM_ACCESS_DELAY_COUNT"
  shows "\<exists>d' fl m'. fold_err (flash_read_cell rst bar1) [0..<n] (d, [], m) = Inr (d', fl, m') \<and> d' \<le> d + 2 * n \<and> m_in m' = m_in m"
  using assms(2)
proof (induction n)
  case (Suc n)
  then obtain d1 fl m1 where 1: "fold_err (flash_read_cell rst bar1) [0..<n] (d, [], m) = Inr (d1, fl, m1)" "d1 \<le> d + 2 * n" "m_in m1 = m_in m"
    by auto
  have nb: "never_busy bar1 m1" using assms(1) never_busy_step [OF 1(3)] by simp
  obtain m2 where p1: "poll_busy EEPROM_ACCESS_DELAY_COUNT (bar1 + 0xE0) d1 m1 = (Some (Suc d1), m2)"
    using never_busy_poll [OF nb, of d1 EEPROM_ACCESS_DELAY_COUNT] 1(2) Suc.prems by auto
  let ?m = "out8 0x01 (bar1 + 0xE0) (out8 (of_nat n) (bar1 + 0xE1) m2)"
  let ?d = "if rst then 0 else Suc d1"
  have lt: "?d < EEPROM_ACCESS_DELAY_COUNT" using 1(2) Suc.prems by (cases rst) simp_all
  have "m_in m2 = m_in m1" using poll_busy_ran [OF p1] by (auto simp: ran_def)
  then have m: "m_in ?m = m_in m1" by simp
  obtain m3 where p2: "poll_busy EEPROM_ACCESS_DELAY_COUNT (bar1 + 0xE0) ?d ?m = (Some (Suc ?d), m3)"
    using never_busy_poll [OF _ lt, of bar1 ?m] nb never_busy_step [OF m] by blast
  have "m_in m3 = m_in m" using poll_busy_ran [OF p2] m 1(3) by (auto simp: ran_def)
  moreover obtain v m4 where i: "in8 (bar1 + 0xE2) m3 = (v, m4)" "m_in m4 = m_in m3" by (simp add: in8_eq)
  moreover have "flash_read_cell rst bar1 n (d1, fl, m1) = Inr (Suc ?d, fl @ [v], m4)" using p1 p2 i by (simp add: flash_read_cell_def)
  ultimately show ?case using 1 by (simp add: fold_err_append)
qed simp

lemma flash_write_ready:
  assumes "never_busy bar1 m" and "d + 2 * n < EEPROM_ACCESS_DELAY_COUNT"
  shows "\<exists>d' m'. fold_err (flash_write_cell rst bar1 fl) [0..<n] (d, m) = Inr (d', m') \<and> d' \<le> d + 2 * n \<and> m_in m' = m_in m"
  using assms(2)
proof (induction n)
  case (Suc n)
  then obtain d1 m1 where 1: "fold_err (flash_write_cell rst bar1 fl) [0..<n] (d, m) = Inr (d1, m1)" "d1 \<le> d + 2 * n" "m_in m1 = m_in m" by auto
  have nb: "never_busy bar1 m1" using assms(1) never_busy_step [OF 1(3)] by simp
  obtain m2 where p1: "poll_busy EEPROM_ACCESS_DELAY_COUNT (bar1 + 0xE0) d1 m1 = (Some (Suc d1), m2)"
    using never_busy_poll [OF nb, of d1 EEPROM_ACCESS_DELAY_COUNT] 1(2) Suc.prems by auto
  let ?m = "out8 0x03 (bar1 + 0xE0) (out8 (fl ! n) (bar1 + 0xE2) (out8 (of_nat n) (bar1 + 0xE1) m2))"
  let ?d = "if rst then 0 else Suc d1"
  have lt: "?d < EEPROM_ACCESS_DELAY_COUNT" using 1(2) Suc.prems by (cases rst) simp_all
  have "m_in m2 = m_in m1" using poll_busy_ran [OF p1] by (auto simp: ran_def)
  then have m: "m_in ?m = m_in m1" by simp
  obtain m3 where p2: "poll_busy EEPROM_ACCESS_DELAY_COUNT (bar1 + 0xE0) ?d ?m = (Some (Suc ?d), m3)"
    using never_busy_poll [OF _ lt, of bar1 ?m] nb never_busy_step [OF m] by blast
  have "m_in m3 = m_in m" using poll_busy_ran [OF p2] m 1(3) by (auto simp: ran_def)
  moreover have "flash_write_cell rst bar1 fl n (d1, m1) = Inr (Suc ?d, m3)" using p1 p2 by (simp add: flash_write_cell_def)
  ultimately show ?case using 1 by (simp add: fold_err_append)
qed simp

definition cells_of :: "u32 \<Rightarrow> ((u8 \<Rightarrow> u8) \<Rightarrow> u8 \<Rightarrow> u8) \<Rightarrow> flash \<Rightarrow> machine \<Rightarrow> u8 list" where
  "cells_of bar1 er f0 m = map (\<lambda>i. fl_cells (flash_at bar1 er f0 (trace m)) (of_nat i)) [0..<19]"

lemma flash_put_length [simp]: "length (flash_put cnt i vs fl) = length fl"
  by (simp add: flash_put_def)

lemma flash_update_Inr:
  assumes "flash_update sd bar1 cnt i vs m = Inr m'" and dev: "flash_device bar1 er f0 m"
  shows "cells_of bar1 er f0 m' = flash_put cnt i vs (cells_of bar1 er f0 m)"
proof -
  obtain d fl m1 where 1: "fold_err (flash_read_cell sd bar1) [0..<19] (0, [], m) = Inr (d, fl, m1)"
    using assms(1) by (cases "fold_err (flash_read_cell sd bar1) [0..<19] (0, [], m)") (auto simp: flash_update_def)
  have fl: "fl = cells_of bar1 er f0 m" using flash_read_all [OF 1 dev] by (simp add: cells_of_def)
  obtain d3 m3 d4 where w: "fold_err (flash_write_cell (\<not> sd) bar1 (flash_put cnt i vs fl)) [0..<19] (d3, m3) = Inr (d4, m')"
    using assms(1) 1 by (auto simp: flash_update_def split: prod.splits option.splits sum.splits)
  have len: "length (flash_put cnt i vs fl) = 19" using fl by (simp add: cells_of_def)
  have "fl_cells (flash_at bar1 er f0 (trace m')) (of_nat j) = flash_put cnt i vs fl ! j" if "j < 19" for j
    using flash_write_all [OF w, of er f0] that by (simp add: unat_of_nat)
  then have "cells_of bar1 er f0 m' = map ((!) (flash_put cnt i vs fl)) [0..<19]" by (simp add: cells_of_def)
  also have "\<dots> = flash_put cnt i vs fl" using map_nth [of "flash_put cnt i vs fl"] len by simp
  finally show ?thesis using fl by simp
qed

lemma flash_update_ready:
  assumes nb: "never_busy bar1 m"
  shows "\<exists>m'. flash_update sd bar1 cnt i vs m = Inr m'"
proof -
  obtain d fl m1 where 1: "fold_err (flash_read_cell sd bar1) [0..<19] (0, [], m) = Inr (d, fl, m1)" "d \<le> 38" "m_in m1 = m_in m"
    using flash_read_ready [OF nb, of 0 19 sd] by auto
  have nb1: "never_busy bar1 m1" using nb never_busy_step [OF 1(3)] by simp
  obtain m2 where p2: "poll_busy EEPROM_ACCESS_DELAY_COUNT (bar1 + 0xE0) d m1 = (Some (Suc d), m2)"
    using never_busy_poll [OF nb1, of d EEPROM_ACCESS_DELAY_COUNT] 1(2) by auto
  let ?m = "out8 0x09 (bar1 + 0xE0) m2"
  have "m_in m2 = m_in m1" using poll_busy_ran [OF p2] by (auto simp: ran_def)
  then have m: "m_in ?m = m_in m1" by simp
  have nb2: "never_busy bar1 ?m" using nb1 never_busy_step [OF m] by simp
  obtain d3 m3 where p3: "(if sd then poll_busy EEPROM_ACCESS_DELAY_COUNT (bar1 + 0xE0) (Suc d) ?m else (Some (Suc d), ?m)) = (Some d3, m3)"
    "d3 \<le> Suc (Suc d)" "m_in m3 = m_in ?m"
  proof (cases sd)
    case True
    obtain m3 where p3: "poll_busy EEPROM_ACCESS_DELAY_COUNT (bar1 + 0xE0) (Suc d) ?m = (Some (Suc (Suc d)), m3)"
      using never_busy_poll [OF nb2, of "Suc d" EEPROM_ACCESS_DELAY_COUNT] 1(2) by auto
    then show thesis using that [of "Suc (Suc d)" m3] True poll_busy_ran [OF p3] by (auto simp: ran_def)
  qed (use that [of "Suc d" ?m] in simp)
  have nb3: "never_busy bar1 m3" using nb2 never_busy_step [OF p3(3)] by simp
  obtain d4 m4 where w: "fold_err (flash_write_cell (\<not> sd) bar1 (flash_put cnt i vs fl)) [0..<19] (d3, m3) = Inr (d4, m4)"
    using flash_write_ready [OF nb3, of d3 19 "\<not> sd" "flash_put cnt i vs fl"] p3(2) 1(2) by auto
  show ?thesis using 1(1) p2 p3(1) w by (simp add: flash_update_def)
qed

text \<open>
  C16. Setting the power-on directions of a board's GPIO banks changes their cells of the flash and no
  other. SNX_GPIO_SET_DEFAULT on a board with 8, 16 or 32 channels always returns, with 0 or
  \<open>-EFAULT\<close>; when it returns 0, each of the 19 cells holds what it held before, whatever the erase
  command in between did to it, but for the cells from 7 on, one per bank, which hold the inverted
  directions. It does return 0 when the flash is never busy.
\<close>

theorem gpio_default_keeps_other_cells:
  assumes b: "board_at (gb_board_id gb) tab = Some sb" "sb_pdev sb = Some dev" "sb_gpio_chl_cnt sb \<in> {8, 16, 32}"
    and dev: "flash_device (pd_resource dev ! 1) er f0 m"
  shows "\<exists>r m'. snx_gpio_set_default True gb tab m = Some (r, gb, m') \<and> (r = 0 \<or> r = - EFAULT)
    \<and> (r = 0 \<longrightarrow> (\<forall>i < 19. cells_of (pd_resource dev ! 1) er f0 m' ! i =
         (if 7 \<le> i \<and> int i < 7 + sb_gpio_chl_cnt sb div 8 then banks gb ! (i - 7) XOR 0xFF
          else cells_of (pd_resource dev ! 1) er f0 m ! i)))
    \<and> (never_busy (pd_resource dev ! 1) m \<longrightarrow> r = 0)"
proof -
  let ?bar = "pd_resource dev ! 1" and ?vs = "map (\<lambda>b. b XOR 0xFF) (banks gb)"
  have c: "sb_gpio_chl_cnt sb \<noteq> 6" using b(3) by auto
  have len: "length (cells_of ?bar er f0 m) = 19" by (simp add: cells_of_def)
  have put: "flash_put (sb_gpio_chl_cnt sb) 7 ?vs (cells_of ?bar er f0 m) ! i =
      (if 7 \<le> i \<and> int i < 7 + sb_gpio_chl_cnt sb div 8 then banks gb ! (i - 7) XOR 0xFF else cells_of ?bar er f0 m ! i)" if "i < 19" for i
    using b(3) that len by (auto simp: flash_put_def banks_def nth_list_update numeral_eq_Suc less_Suc_eq)
  show ?thesis
  proof (cases "flash_update True ?bar (sb_gpio_chl_cnt sb) 7 ?vs m")
    case (Inl m')
    then have "\<not> never_busy ?bar m" using flash_update_ready by (metis Inl_Inr_False)
    then show ?thesis using b c Inl by (simp add: snx_gpio_set_default_def gpio_default_def resource_start_def)
  next
    case (Inr m')
    then show ?thesis using b c put flash_update_Inr [OF Inr dev]
      by (simp add: snx_gpio_set_default_def gpio_default_def resource_start_def copied_def)
  qed
qed

definition full_flash :: flash where
  "full_flash = \<lparr>fl_addr = 0, fl_data = 0, fl_cells = \<lambda>x. x + 1\<rparr>"

definition flash_machine :: machine where
  "flash_machine = idle_machine\<lparr>m_in := \<lambda>h a. if a = 0x20E2 then fl_data (flash_at 0x2000 (\<lambda>_ _. 0xFF) full_flash h) else 0\<rparr>"

theorem gpio_default_keeps_other_cells_witness:
  "\<exists>m'. snx_gpio_set_default True \<lparr>gb_board_id = 1, gb_bank1 = 0x0F, gb_bank2 = 0, gb_bank3 = 0, gb_bank4 = 0\<rparr> [config_board] flash_machine
      = Some (0, \<lparr>gb_board_id = 1, gb_bank1 = 0x0F, gb_bank2 = 0, gb_bank3 = 0, gb_bank4 = 0\<rparr>, m')
    \<and> cells_of 0x2000 (\<lambda>_ _. 0xFF) full_flash m' ! 7 = 0xF0 \<and> cells_of 0x2000 (\<lambda>_ _. 0xFF) full_flash m' ! 9 = 10"
proof -
  obtain dev where dev: "sb_pdev config_board = Some dev" "pd_resource dev ! 1 = 0x2000" by (simp add: config_board_def)
  have "board_at 1 [config_board] = Some config_board" "sb_gpio_chl_cnt config_board = 16"
    by (simp_all add: board_at_def config_board_def)
  moreover have "flash_device 0x2000 (\<lambda>_ _. 0xFF) full_flash flash_machine" "never_busy 0x2000 flash_machine"
    by (simp_all add: flash_device_def never_busy_def flash_machine_def)
  moreover have "cells_of 0x2000 (\<lambda>_ _. 0xFF) full_flash flash_machine ! 9 = 10"
    by (simp add: cells_of_def flash_machine_def idle_machine_def flash_at_def full_flash_def)
  ultimately show ?thesis
    using gpio_default_keeps_other_cells [of "\<lparr>gb_board_id = 1, gb_bank1 = 0x0F, gb_bank2 = 0, gb_bank3 = 0, gb_bank4 = 0\<rparr>"
        "[config_board]" config_board dev "\<lambda>_ _. 0xFF" full_flash flash_machine] dev
    by (fastforce simp: banks_def)
qed

end
