(* ===== verification/Snx_Setserial.thy ===== *)
theory Snx_Setserial
  imports Snx_Open Snx_Gpio
begin

text \<open>
  The ioctls of a serial line (driver/snx_serial.c): setserial (\<open>snx_ser_get_info\<close>,
  \<open>snx_ser_set_info\<close>), the counters and the wait for a modem line, the reports on the driver, and the
  dispatcher \<open>snx_ser_ioctl\<close>, which also calls the configuration ioctls of \<open>Snx_Gpio\<close>.
\<close>

section \<open>The ioctls of a line\<close>

abbreviation (input) EPERM :: int where "EPERM \<equiv> 1"
abbreviation (input) ENOIOCTLCMD :: int where "ENOIOCTLCMD \<equiv> 515"

subsection \<open>setserial\<close>

text \<open>The kernel's \<^verbatim>\<open>serial_struct\<close>, an \<^verbatim>\<open>int\<close> as its 32 bits, \<^verbatim>\<open>io_type\<close> a signed \<^verbatim>\<open>char\<close>.\<close>

record serial_struct =
  ser_type :: u32
  ser_line :: u32
  ser_port :: u32
  ser_irq :: u32
  ser_flags :: u32
  ser_xmit_fifo_size :: u32
  ser_custom_divisor :: u32
  ser_baud_base :: u32
  ser_close_delay :: u16
  ser_io_type :: u8
  ser_closing_wait :: u16
  ser_port_high :: u32

definition SNX_HIGH_BITS_OFFSET :: nat where "SNX_HIGH_BITS_OFFSET = (8 - 4) * 8"

definition sunix_ser_users :: "snx_ser_state \<Rightarrow> int" where
  "sunix_ser_users st = ss_count st + (case sp_info (ss_port st) of None \<Rightarrow> 0 | Some info \<Rightarrow> si_blocked_open info)"

definition snx_ser_get_info :: "bool \<Rightarrow> snx_ser_state \<Rightarrow> int \<times> serial_struct" where
  "snx_ser_get_info ct st =
    (let port = ss_port st in
     (copied ct,
      \<lparr>ser_type = sp_type port, ser_line = sp_line port, ser_port = sp_iobase port, ser_irq = sp_irq port,
       ser_flags = sp_flags port, ser_xmit_fifo_size = ucast (sp_fifosize port),
       ser_custom_divisor = sp_custom_divisor port, ser_baud_base = sp_uartclk port div 16,
       ser_close_delay = ucast (ss_close_delay st), ser_io_type = sp_iotype port,
       ser_closing_wait = ucast (ss_closing_wait st),
       ser_port_high = ucast (drop_bit SNX_HIGH_BITS_OFFSET (ucast (sp_iobase port) :: u64))\<rparr>))"

definition sunix_ser_release_io :: "sunix_ser_port \<Rightarrow> machine \<Rightarrow> machine" where
  "sunix_ser_release_io sp m = (if sp_iotype sp = SNX_UPIO_PORT then emit (ReleaseRegion (ucast (sp_iobase sp))) m else m)"

definition new_port :: "serial_struct \<Rightarrow> u64" where
  "new_port ns = ucast (ser_port ns) + push_bit SNX_HIGH_BITS_OFFSET (ucast (ser_port_high ns))"

definition change_port :: "serial_struct \<Rightarrow> sunix_ser_port \<Rightarrow> bool" where
  "change_port ns sp \<longleftrightarrow> new_port ns \<noteq> ucast (sp_iobase sp) \<or> sint (ser_io_type ns) \<noteq> uint (sp_iotype sp)
     \<or> ser_type ns \<noteq> sp_type sp"

text \<open>What only \<^verbatim>\<open>CAP_SYS_ADMIN\<close> may ask for; \<open>irq\<close> is \<^verbatim>\<open>irq_canonicalize\<close> of the one asked for.\<close>

definition set_info_refused :: "serial_struct \<Rightarrow> u32 \<Rightarrow> u32 \<Rightarrow> snx_ser_state \<Rightarrow> bool" where
  "set_info_refused ns irq closing_wait st =
    (let port = ss_port st in
     irq \<noteq> sp_irq port \<or> change_port ns port \<or> ser_baud_base ns \<noteq> sp_uartclk port div 16
     \<or> ucast (ser_close_delay ns) \<noteq> ss_close_delay st \<or> closing_wait \<noteq> ss_closing_wait st
     \<or> ser_xmit_fifo_size ns \<noteq> ucast (sp_fifosize port)
     \<or> (ser_flags ns XOR sp_flags port) AND NOT SNX_UPF_USR_MASK \<noteq> 0)"

text \<open>\<open>check_and_exit\<close>: the line is programmed again when its speed changed, or started.\<close>

definition set_info_check :: "ser_env \<Rightarrow> u32 \<Rightarrow> u32 \<Rightarrow> snx_ser_state \<Rightarrow> machine \<Rightarrow> (int \<times> snx_ser_state \<times> machine) option" where
  "set_info_check env old_flags old_custom_divisor st m =
    (let port = ss_port st in
     if sp_type port = PORT_UNKNOWN then Some (0, st, m)
     else case sp_info port of
       None \<Rightarrow> None
     | Some info \<Rightarrow>
        (if has (si_flags info) SNX_UIF_INITIALIZED then
          (if (old_flags XOR sp_flags port) AND SNX_UPF_SPD_MASK \<noteq> 0 \<or> old_custom_divisor \<noteq> sp_custom_divisor port
           then map_option (\<lambda>(sp, m1). (0, st\<lparr>ss_port := sp\<rparr>, m1)) (snx_ser_change_speed (se_HZ env) port None m)
           else Some (0, st, m))
         else map_option (\<lambda>(r, sp, m1). (r, st\<lparr>ss_port := sp\<rparr>, m1))
                (snx_ser_startup (se_HZ env) (se_alloc_page env) (se_admin env) port True m)))"

text \<open>The privileged branch: move the port, then set everything.\<close>

definition set_info_move :: "serial_struct \<Rightarrow> sunix_ser_port \<Rightarrow> machine \<Rightarrow> sunix_ser_port \<times> machine" where
  "set_info_move ns sp m =
    (sp\<lparr>sp_iobase := ucast (new_port ns), sp_type := ser_type ns, sp_iotype := ser_io_type ns\<rparr>,
     if sp_type sp \<noteq> PORT_UNKNOWN then sunix_ser_release_io sp m else m)"

definition set_info_all :: "serial_struct \<Rightarrow> u32 \<Rightarrow> u32 \<Rightarrow> snx_ser_state \<Rightarrow> snx_ser_state" where
  "set_info_all ns irq closing_wait st =
    st\<lparr>ss_close_delay := ucast (ser_close_delay ns), ss_closing_wait := closing_wait,
       ss_port := (ss_port st)\<lparr>sp_irq := irq, sp_uartclk := ser_baud_base ns * 16,
         sp_flags := (sp_flags (ss_port st) AND NOT SNX_UPF_CHANGE_MASK) OR (ser_flags ns AND SNX_UPF_CHANGE_MASK),
         sp_custom_divisor := ser_custom_divisor ns, sp_fifosize := ucast (ser_xmit_fifo_size ns)\<rparr>\<rparr>"

definition set_info_user :: "serial_struct \<Rightarrow> snx_ser_state \<Rightarrow> snx_ser_state" where
  "set_info_user ns st =
    st\<lparr>ss_port := (ss_port st)\<lparr>sp_flags := (sp_flags (ss_port st) AND NOT SNX_UPF_USR_MASK) OR (ser_flags ns AND SNX_UPF_USR_MASK),
         sp_custom_divisor := ser_custom_divisor ns\<rparr>\<rparr>"

definition set_info_admin :: "serial_struct \<Rightarrow> u32 \<Rightarrow> u32 \<Rightarrow> snx_ser_state \<Rightarrow> machine
    \<Rightarrow> (int + snx_ser_state \<times> machine) option" where
  "set_info_admin ns irq closing_wait st m =
    (let port = ss_port st; cp = change_port ns port in
     if cp \<or> irq \<noteq> sp_irq port then
      (if sunix_ser_users st > 1 then Some (Inl (- EBUSY))
       else case snx_ser_shutdown port m of
         None \<Rightarrow> None
       | Some (sp1, m1) \<Rightarrow>
          (case (if cp then set_info_move ns sp1 m1 else (sp1, m1)) of
             (sp2, m2) \<Rightarrow> Some (Inr (set_info_all ns irq closing_wait (st\<lparr>ss_port := sp2\<rparr>), m2))))
     else Some (Inr (set_info_all ns irq closing_wait st, m)))"

definition snx_ser_set_info :: "ser_env \<Rightarrow> bool \<Rightarrow> (u32 \<Rightarrow> u32) \<Rightarrow> serial_struct \<Rightarrow> snx_ser_state \<Rightarrow> machine
    \<Rightarrow> (int \<times> snx_ser_state \<times> machine) option" where
  "snx_ser_set_info env cf irq_canonicalize ns st m =
    (if \<not> cf then Some (- EFAULT, st, m)
     else
      (let irq = irq_canonicalize (ser_irq ns);
           closing_wait = (if ser_closing_wait ns = 65535 then SNX_USF_CLOSING_WAIT_NONE else ucast (ser_closing_wait ns));
           old_flags = sp_flags (ss_port st); old_custom_divisor = sp_custom_divisor (ss_port st)
       in
        if \<not> se_admin env then
         (if set_info_refused ns irq closing_wait st then Some (- EPERM, st, m)
          else set_info_check env old_flags old_custom_divisor (set_info_user ns st) m)
        else case set_info_admin ns irq closing_wait st m of
          None \<Rightarrow> None
        | Some (Inl e) \<Rightarrow> Some (e, st, m)
        | Some (Inr (st1, m1)) \<Rightarrow> set_info_check env old_flags old_custom_divisor st1 m1))"

subsection \<open>Counters, and the wait for a modem line\<close>

definition snx_ser_get_count :: "bool \<Rightarrow> snx_ser_state \<Rightarrow> int \<times> snx_ser_icount" where
  "snx_ser_get_count ct st = (copied ct, sp_icount (ss_port st))"

definition lines_moved :: "u32 \<Rightarrow> snx_ser_icount \<Rightarrow> snx_ser_icount \<Rightarrow> bool" where
  "lines_moved arg cprev cnow \<longleftrightarrow> has arg TIOCM_RNG \<and> ic_rng cnow \<noteq> ic_rng cprev \<or> has arg TIOCM_DSR \<and> ic_dsr cnow \<noteq> ic_dsr cprev
     \<or> has arg TIOCM_CAR \<and> ic_dcd cnow \<noteq> ic_dcd cprev \<or> has arg TIOCM_CTS \<and> ic_cts cnow \<noteq> ic_cts cprev"

partial_function (option) modem_loop :: "ser_env \<Rightarrow> u32 \<Rightarrow> snx_ser_icount \<Rightarrow> snx_ser_state \<Rightarrow> machine
    \<Rightarrow> (int \<times> snx_ser_state \<times> machine) option" where
  "modem_loop env arg cprev st m =
    (let cnow = sp_icount (ss_port st) in
     if lines_moved arg cprev cnow then Some (0, st, m)
     else
      (case se_sleep env st (emit Schedule m) of (st1, m1) \<Rightarrow>
       case signal_pending m1 of (sig, m2) \<Rightarrow>
         if sig then Some (- ERESTARTSYS, st1, m2) else modem_loop env arg cnow st1 m2))"

definition snx_ser_wait_modem_status :: "ser_env \<Rightarrow> u32 \<Rightarrow> snx_ser_state \<Rightarrow> machine \<Rightarrow> (int \<times> snx_ser_state \<times> machine) option" where
  "snx_ser_wait_modem_status env arg st m =
    (if sp_info (ss_port st) = None then None
     else case sunix_ser_enable_ms (ss_port st) m of
       (sp, m1) \<Rightarrow> modem_loop env arg (sp_icount (ss_port st)) (st\<lparr>ss_port := sp\<rparr>) m1)"

subsection \<open>The dispatcher\<close>

datatype ser_ioctl =
    TIOCGSERIAL | TIOCSSERIAL serial_struct | TCSETS | TIOCSERGWILD | TIOCSERSWILD
  | SNX_SER_DUMP_PORT_INFO | SNX_SER_DUMP_DRIVER_VER | SNX_COMM_GET_BOARD_CNT
  | SNX_COMM_GET_BOARD_INFO snx_board_info
  | SNX_GPIO_GET snx_gpio | SNX_GPIO_SET snx_gpio | SNX_GPIO_READ snx_gpio | SNX_GPIO_WRITE snx_gpio
  | SNX_GPIO_SET_DEFAULT snx_gpio | SNX_GPIO_WRITE_DEFAULT snx_gpio
  | SNX_GPIO_GET_INPUT_INVERT snx_gpio | SNX_GPIO_SET_INPUT_INVERT snx_gpio
  | SNX_UART_GET_TYPE snx_uart_cfg | SNX_UART_SET_TYPE snx_uart_cfg | SNX_UART_GET_ACS snx_uart_cfg | SNX_UART_SET_ACS snx_uart_cfg
  | TIOCMIWAIT u32 | TIOCGICOUNT | TIOCSERGETLSR | OtherIoctl

record snx_ser_port_info =
  pi_board_name_info :: string
  pi_bus_number_info :: u32
  pi_dev_number_info :: u32
  pi_port_info :: u32
  pi_base_info :: u32
  pi_irq_info :: u32

text \<open>What is copied to the user, when \<^verbatim>\<open>copy_to_user\<close> copies.\<close>

datatype ser_reply =
    NoReply | Serial serial_struct | PortInfo "snx_ser_port_info list" | DriverVer string | BoardCnt int
  | BoardInfo snx_board_info | Gpio snx_gpio | Uart snx_uart_cfg | Icount snx_ser_icount | Lsr u32

text \<open>The lines (their ports are \<^verbatim>\<open>sunix_ser_table\<close>), \<^verbatim>\<open>sunix_board_table\<close> and \<^verbatim>\<open>snx_board_count\<close>.\<close>

record ser_drv =
  dv_lines :: "snx_ser_state list"
  dv_boards :: "sunix_board list"
  dv_board_cnt :: int

type_synonym ioctl_result = "(int \<times> ser_reply \<times> ser_drv \<times> machine) option"

definition on_line :: "nat \<Rightarrow> ser_drv \<Rightarrow> (snx_ser_state \<Rightarrow> (int \<times> ser_reply \<times> snx_ser_state \<times> machine) option)
    \<Rightarrow> machine \<Rightarrow> ioctl_result" where
  "on_line line d f m =
    (if line < length (dv_lines d)
     then map_option (\<lambda>(r, rep, st, m1). (r, rep, d\<lparr>dv_lines := (dv_lines d)[line := st]\<rparr>, m1)) (f (dv_lines d ! line))
     else Some (- ENOIOCTLCMD, NoReply, d, m))"

definition set_table :: "ser_drv \<Rightarrow> sunix_ser_port list \<Rightarrow> ser_drv" where
  "set_table d tab = d\<lparr>dv_lines := map2 (\<lambda>st sp. st\<lparr>ss_port := sp\<rparr>) (dv_lines d) tab\<rparr>"

definition port_info :: "snx_ser_state \<Rightarrow> snx_ser_port_info" where
  "port_info st =
    (let sdn = ss_port st in
     \<lparr>pi_board_name_info = take 15 (pb_board_name (sp_pb_info sdn)), pi_bus_number_info = sp_bus_number sdn,
      pi_dev_number_info = sp_dev_number sdn, pi_port_info = sp_line sdn, pi_base_info = sp_iobase sdn,
      pi_irq_info = sp_irq sdn\<rparr>)"

definition gpio_reply :: "ser_drv \<Rightarrow> int \<times> snx_gpio \<times> machine \<Rightarrow> int \<times> ser_reply \<times> ser_drv \<times> machine" where
  "gpio_reply d = (\<lambda>(r, gb, m). (r, Gpio gb, d, m))"

definition gpio_done :: "ser_drv \<Rightarrow> int \<times> snx_gpio \<times> machine \<Rightarrow> int \<times> ser_reply \<times> ser_drv \<times> machine" where
  "gpio_done d = (\<lambda>(r, gb, m). (r, NoReply, d, m))"

definition uart_reply :: "ser_drv \<Rightarrow> int \<times> snx_uart_cfg \<times> machine \<Rightarrow> int \<times> ser_reply \<times> ser_drv \<times> machine" where
  "uart_reply d = (\<lambda>(r, ug, m). (r, Uart ug, d, m))"

text \<open>\<open>TCSETS\<close> leaves the status alone, so that the kernel's own handler goes on with it.\<close>

definition ioctl_tcsets :: "ser_env \<Rightarrow> snx_ser_state \<Rightarrow> machine \<Rightarrow> (int \<times> ser_reply \<times> snx_ser_state \<times> machine) option" where
  "ioctl_tcsets env st m =
    map_option (\<lambda>(sp, m1). (- ENOIOCTLCMD, NoReply, st\<lparr>ss_port := sp\<rparr>, m1))
      (snx_ser_update_termios (se_HZ env)
        ((ss_port st)\<lparr>sp_flags := sp_flags (ss_port st) AND NOT (SNX_UPF_SPD_HI OR SNX_UPF_SPD_VHI OR SNX_UPF_SPD_SHI OR SNX_UPF_SPD_WARP),
                      sp_setserial_flag := SNX_SER_BAUD_NOTSETSER\<rparr>) m)"

definition ioctl_tiocsserial :: "ser_env \<Rightarrow> bool \<Rightarrow> (u32 \<Rightarrow> u32) \<Rightarrow> serial_struct \<Rightarrow> snx_ser_state \<Rightarrow> machine
    \<Rightarrow> (int \<times> ser_reply \<times> snx_ser_state \<times> machine) option" where
  "ioctl_tiocsserial env cf ic ns st m =
    map_option (\<lambda>(r, st1, m1). (r, NoReply, st1, m1))
      (snx_ser_set_info env cf ic ns (upd_line (\<lambda>sp. sp\<lparr>sp_setserial_flag := SNX_SER_BAUD_SETSERIAL\<rparr>) st) m)"

text \<open>The first \<^verbatim>\<open>switch\<close>.\<close>

fun ioctl_first :: "ser_env \<Rightarrow> bool \<Rightarrow> bool \<Rightarrow> (u32 \<Rightarrow> u32) \<Rightarrow> nat \<Rightarrow> ser_ioctl \<Rightarrow> ser_drv \<Rightarrow> machine \<Rightarrow> ioctl_result" where
  "ioctl_first env cf ct ic line TIOCGSERIAL d m =
    on_line line d (\<lambda>st. case snx_ser_get_info ct st of (r, s) \<Rightarrow> Some (r, Serial s, st, m)) m"
| "ioctl_first env cf ct ic line (TIOCSSERIAL ns) d m = on_line line d (\<lambda>st. ioctl_tiocsserial env cf ic ns st m) m"
| "ioctl_first env cf ct ic line TCSETS d m = on_line line d (\<lambda>st. ioctl_tcsets env st m) m"
| "ioctl_first env cf ct ic line TIOCSERGWILD d m = on_line line d (\<lambda>st. Some (0, NoReply, st, m)) m"
| "ioctl_first env cf ct ic line TIOCSERSWILD d m = on_line line d (\<lambda>st. Some (0, NoReply, st, m)) m"
| "ioctl_first env cf ct ic line SNX_SER_DUMP_PORT_INFO d m =
    Some (0, if line = 0 then PortInfo (map port_info (dv_lines d)) else NoReply, d, m)"
| "ioctl_first env cf ct ic line SNX_SER_DUMP_DRIVER_VER d m =
    Some (if line = 0 then (copied ct, DriverVer ''V2.0.6.0'', d, m) else (0, NoReply, d, m))"
| "ioctl_first env cf ct ic line SNX_COMM_GET_BOARD_CNT d m = Some (copied ct, BoardCnt (dv_board_cnt d), d, m)"
| "ioctl_first env cf ct ic line (SNX_COMM_GET_BOARD_INFO bi) d m =
    map_option (\<lambda>(r, bi). (r, BoardInfo bi, d, m)) (snx_get_board_info ct bi (dv_boards d))"
| "ioctl_first env cf ct ic line (SNX_GPIO_GET gb) d m = map_option (gpio_reply d) (snx_gpio_get ct gb (dv_boards d) m)"
| "ioctl_first env cf ct ic line (SNX_GPIO_SET gb) d m = map_option (gpio_done d) (snx_gpio_set cf gb (dv_boards d) m)"
| "ioctl_first env cf ct ic line (SNX_GPIO_READ gb) d m = map_option (gpio_reply d) (snx_gpio_read ct gb (dv_boards d) m)"
| "ioctl_first env cf ct ic line (SNX_GPIO_WRITE gb) d m = map_option (gpio_done d) (snx_gpio_write cf gb (dv_boards d) m)"
| "ioctl_first env cf ct ic line (SNX_GPIO_SET_DEFAULT gb) d m = map_option (gpio_done d) (snx_gpio_set_default cf gb (dv_boards d) m)"
| "ioctl_first env cf ct ic line (SNX_GPIO_WRITE_DEFAULT gb) d m = map_option (gpio_done d) (snx_gpio_write_default cf gb (dv_boards d) m)"
| "ioctl_first env cf ct ic line (SNX_GPIO_GET_INPUT_INVERT gb) d m =
    map_option (gpio_reply d) (snx_gpio_get_input_invert ct gb (dv_boards d) m)"
| "ioctl_first env cf ct ic line (SNX_GPIO_SET_INPUT_INVERT gb) d m =
    map_option (gpio_done d) (snx_gpio_set_input_invert cf gb (dv_boards d) m)"
| "ioctl_first env cf ct ic line (SNX_UART_GET_TYPE ug) d m = map_option (uart_reply d) (snx_uart_get_type cf ct ug (dv_boards d) m)"
| "ioctl_first env cf ct ic line (SNX_UART_SET_TYPE ug) d m =
    map_option (\<lambda>(r, tab, m1). (r, NoReply, set_table d tab, m1)) (snx_uart_set_type cf ug (dv_boards d) (map ss_port (dv_lines d)) m)"
| "ioctl_first env cf ct ic line (SNX_UART_GET_ACS ug) d m = map_option (uart_reply d) (snx_uart_get_acs ct ug (dv_boards d) m)"
| "ioctl_first env cf ct ic line (SNX_UART_SET_ACS ug) d m =
    map_option (\<lambda>(r, m1). (r, NoReply, d, m1)) (snx_uart_set_acs cf ug (dv_boards d) m)"
| "ioctl_first env cf ct ic line _ d m = Some (- ENOIOCTLCMD, NoReply, d, m)"

text \<open>The second one, refused on a tty with \<^verbatim>\<open>TTY_IO_ERROR\<close>.\<close>

definition ioctl_second :: "ser_env \<Rightarrow> bool \<Rightarrow> nat \<Rightarrow> ser_ioctl \<Rightarrow> ser_drv \<Rightarrow> machine \<Rightarrow> ioctl_result" where
  "ioctl_second env ct line cmd d m =
    (case cmd of
       TIOCMIWAIT arg \<Rightarrow> on_line line d (\<lambda>st. map_option (\<lambda>(r, st1, m1). (r, NoReply, st1, m1)) (snx_ser_wait_modem_status env arg st m)) m
     | TIOCGICOUNT \<Rightarrow> on_line line d (\<lambda>st. case snx_ser_get_count ct st of (r, ic) \<Rightarrow> Some (r, Icount ic, st, m)) m
     | _ \<Rightarrow> Some (- ENOIOCTLCMD, NoReply, d, m))"

text \<open>The last one, with the line's semaphore held.\<close>

definition ioctl_third :: "bool \<Rightarrow> nat \<Rightarrow> ser_ioctl \<Rightarrow> ser_drv \<Rightarrow> machine \<Rightarrow> ioctl_result" where
  "ioctl_third ct line cmd d m =
    (case cmd of
       TIOCSERGETLSR \<Rightarrow> on_line line d (\<lambda>st. map_option (\<lambda>(v, m1). (copied ct, Lsr v, st, m1)) (snx_ser_get_lsr_info (ss_port st) m)) m
     | _ \<Rightarrow> Some (- ENOIOCTLCMD, NoReply, d, m))"

text \<open>
  \<^verbatim>\<open>tty->flags\<close> is the flag of the line's tty; a tty of no line has the one the environment gives.
\<close>

definition ioctl_io_error :: "ser_env \<Rightarrow> nat \<Rightarrow> ser_drv \<Rightarrow> bool" where
  "ioctl_io_error env line d =
    (case (if line < length (dv_lines d) then port_tty (ss_port (dv_lines d ! line)) else None) of
       None \<Rightarrow> tty_io_error (se_tty env) | Some t \<Rightarrow> tty_io_error t)"

definition snx_ser_ioctl :: "ser_env \<Rightarrow> bool \<Rightarrow> bool \<Rightarrow> (u32 \<Rightarrow> u32) \<Rightarrow> nat \<Rightarrow> ser_ioctl \<Rightarrow> ser_drv \<Rightarrow> machine \<Rightarrow> ioctl_result" where
  "snx_ser_ioctl env cf ct ic line cmd d m =
    do {
      (r1, rep1, d1, m1) \<leftarrow> ioctl_first env cf ct ic line cmd d m;
      if r1 \<noteq> - ENOIOCTLCMD then Some (r1, rep1, d1, m1)
      else if ioctl_io_error env line d1 then Some (- EIO, NoReply, d1, m1)
      else
        do {
          (r2, rep2, d2, m2) \<leftarrow> ioctl_second env ct line cmd d1 m1;
          if r2 \<noteq> - ENOIOCTLCMD then Some (r2, rep2, d2, m2) else ioctl_third ct line cmd d2 m2
        }
    }"

section \<open>What setserial may change\<close>

text \<open>What identifies the line's hardware; only \<^verbatim>\<open>CAP_SYS_ADMIN\<close> may change it.\<close>

definition hw_setup :: "sunix_ser_port \<Rightarrow> u32 \<times> u32 \<times> u32 \<times> u32 \<times> u8 \<times> u8 \<times> u32" where
  "hw_setup sp = (sp_iobase sp, sp_irq sp, sp_uartclk sp, sp_type sp, sp_iotype sp, sp_fifosize sp, sp_line sp)"

definition same_setup :: "sunix_ser_port \<Rightarrow> sunix_ser_port \<Rightarrow> bool" where
  "same_setup sp sp' \<longleftrightarrow> hw_setup sp' = hw_setup sp \<and> sp_flags sp' = sp_flags sp \<and> sp_custom_divisor sp' = sp_custom_divisor sp"

lemma same_setup_refl [simp]: "same_setup sp sp"
  by (simp add: same_setup_def)

lemma same_setup_upd [simp]: "same_setup sp (upd_info f sp') = same_setup sp sp'" "same_setup sp (upd_tty g sp') = same_setup sp sp'"
  "same_setup (upd_info f sp) sp' = same_setup sp sp'" "same_setup (upd_tty g sp) sp' = same_setup sp sp'"
  by (auto simp: same_setup_def hw_setup_def upd_tty_def upd_info_def)

lemma same_setup_trans: "same_setup a b \<Longrightarrow> same_setup b c \<Longrightarrow> same_setup a c"
  by (auto simp: same_setup_def)

lemma same_setup_mctrl: "snx_ser_update_mctrl sp a b m = (sp', m') \<Longrightarrow> same_setup sp sp'"
  by (auto simp: snx_ser_update_mctrl_def same_setup_def hw_setup_def Let_def)

lemma same_setup_termios: "sunix_ser_set_termios HZ sp tm old m = Some (tm', sp', m') \<Longrightarrow> same_setup sp sp'"
  by (auto simp: sunix_ser_set_termios_def snx_ser_update_timeout_def same_setup_def hw_setup_def Let_def
      split: option.splits prod.splits if_splits)

lemma same_setup_change_speed:
  assumes "snx_ser_change_speed HZ sp old m = Some (sp', m')"
  shows "same_setup sp sp'"
  using assms by (auto simp: snx_ser_change_speed_def Let_def split: option.splits if_splits dest: same_setup_termios)

lemma same_setup_startup:
  assumes "sunix_ser_startup sp m = Some (r, sp', m')"
  shows "same_setup sp sp' \<and> r \<in> {0, - ENODEV}"
  using assms by (auto simp: sunix_ser_startup_def same_setup_def hw_setup_def Let_def split: if_splits prod.splits)

lemma same_setup_start:
  assumes "snx_ser_startup HZ alloc admin sp init_hw m = Some (r, sp', m')"
  shows "same_setup sp sp' \<and> r \<in> {0, - ENOMEM, - ENODEV}"
  using assms by (auto simp: snx_ser_startup_def Let_def set_xmit_def split: option.splits if_splits prod.splits dest!: same_setup_startup same_setup_change_speed same_setup_mctrl)
    (blast intro: same_setup_trans)+

lemma set_info_check_keeps:
  assumes "set_info_check env f c st m = Some (r, st', m')"
  shows "\<exists>sp. st' = st\<lparr>ss_port := sp\<rparr> \<and> same_setup (ss_port st) sp \<and> r \<in> {0, - ENOMEM, - ENODEV}"
proof -
  have "\<exists>sp. st = st\<lparr>ss_port := sp\<rparr> \<and> same_setup (ss_port st) sp" by (intro exI [of _ "ss_port st"]) simp
  then show ?thesis
    using assms by (auto simp: set_info_check_def Let_def split: option.splits if_splits dest: same_setup_change_speed same_setup_start)
qed

lemma merge_bits: "(((f AND NOT k) OR (g AND k)) XOR f) AND NOT k = 0" for f g k :: "'a::len word"
  by (rule bit_word_eqI) (auto simp: bit_simps)

lemma merge_same: "(f AND NOT k) OR (f AND k) = f" for f k :: "'a::len word"
  by (rule bit_word_eqI) (auto simp: bit_simps)

definition set_flagged :: "snx_ser_state \<Rightarrow> snx_ser_state" where
  "set_flagged = upd_line (\<lambda>sp. sp\<lparr>sp_setserial_flag := SNX_SER_BAUD_SETSERIAL\<rparr>)"

lemma ioctl_tiocsserial_result:
  assumes "line < length (dv_lines d)"
    and "snx_ser_ioctl env cf ct ic line (TIOCSSERIAL ns) d m = Some (r, rep, d', m')"
    and "\<And>r st' m'. snx_ser_set_info env cf ic ns (set_flagged (dv_lines d ! line)) m = Some (r, st', m') \<Longrightarrow> r \<noteq> - ENOIOCTLCMD"
  shows "\<exists>st'. d' = d\<lparr>dv_lines := (dv_lines d)[line := st']\<rparr> \<and> rep = NoReply
    \<and> snx_ser_set_info env cf ic ns (set_flagged (dv_lines d ! line)) m = Some (r, st', m')"
  using assms
  by (auto simp: snx_ser_ioctl_def on_line_def ioctl_tiocsserial_def set_flagged_def split: option.splits bind_splits if_splits)

lemma user_set_info:
  assumes "\<not> se_admin env" and "snx_ser_set_info env cf ic ns st m = Some (r, st', m')"
  shows "ss_count st' = ss_count st \<and> ss_close_delay st' = ss_close_delay st \<and> ss_closing_wait st' = ss_closing_wait st
    \<and> hw_setup (ss_port st') = hw_setup (ss_port st)
    \<and> (sp_flags (ss_port st') XOR sp_flags (ss_port st)) AND NOT SNX_UPF_USR_MASK = 0
    \<and> (if r \<in> {- EPERM, - EFAULT} then st' = st \<and> m' = m
       else sp_flags (ss_port st') = (sp_flags (ss_port st) AND NOT SNX_UPF_USR_MASK) OR (ser_flags ns AND SNX_UPF_USR_MASK)
         \<and> sp_custom_divisor (ss_port st') = ser_custom_divisor ns)
    \<and> r \<in> {0, - EPERM, - ENOMEM, - EFAULT, - ENODEV}"
proof -
  let ?cw = "if ser_closing_wait ns = 65535 then SNX_USF_CLOSING_WAIT_NONE else ucast (ser_closing_wait ns)"
  let ?sp = "ss_port st"
  consider "st' = st" "m' = m" "r \<in> {- EPERM, - EFAULT}"
    | "set_info_check env (sp_flags ?sp) (sp_custom_divisor ?sp) (set_info_user ns st) m = Some (r, st', m')"
    using assms by (auto simp: snx_ser_set_info_def Let_def split: if_splits)
  then show ?thesis
  proof cases
    case 2
    from set_info_check_keeps [OF 2] obtain sp where "st' = (set_info_user ns st)\<lparr>ss_port := sp\<rparr>"
      "same_setup (ss_port (set_info_user ns st)) sp" "r \<in> {0, - ENOMEM, - ENODEV}" by blast
    then show ?thesis using merge_bits [of "sp_flags ?sp" SNX_UPF_USR_MASK "ser_flags ns"]
      by (auto simp: set_info_user_def same_setup_def hw_setup_def)
  qed auto
qed

text \<open>
  C13. Without \<^verbatim>\<open>CAP_SYS_ADMIN\<close> the setserial ioctl touches one line only, and of that line neither
  address, interrupt, clock, type, access method, FIFO size, close delay, closing wait nor open count,
  and no flag outside the user mask. When it is refused, the line is as before except for the mark that
  the speed comes from setserial, and nothing was written to the chip; otherwise the user flags and the custom
  divisor are the caller's. (What else an accepted call may change are the fields that starting the line or
  programming its speed sets: the register copies, the time-out, the status masks and the info struct.)
\<close>

theorem unprivileged_setserial:
  assumes "\<not> se_admin env" and "line < length (dv_lines d)"
    and "snx_ser_ioctl env cf ct ic line (TIOCSSERIAL ns) d m = Some (r, rep, d', m')"
  shows "\<exists>st'. d' = d\<lparr>dv_lines := (dv_lines d)[line := st']\<rparr> \<and> (let st = dv_lines d ! line in
      ss_count st' = ss_count st \<and> ss_close_delay st' = ss_close_delay st \<and> ss_closing_wait st' = ss_closing_wait st
      \<and> hw_setup (ss_port st') = hw_setup (ss_port st)
      \<and> (sp_flags (ss_port st') XOR sp_flags (ss_port st)) AND NOT SNX_UPF_USR_MASK = 0
      \<and> (if r \<in> {- EPERM, - EFAULT} then m' = m \<and> st' = st\<lparr>ss_port := (ss_port st)\<lparr>sp_setserial_flag := SNX_SER_BAUD_SETSERIAL\<rparr>\<rparr>
         else sp_flags (ss_port st') = (sp_flags (ss_port st) AND NOT SNX_UPF_USR_MASK) OR (ser_flags ns AND SNX_UPF_USR_MASK)
           \<and> sp_custom_divisor (ss_port st') = ser_custom_divisor ns))"
proof -
  let ?st = "dv_lines d ! line"
  have "r \<noteq> - ENOIOCTLCMD" if "snx_ser_set_info env cf ic ns (set_flagged ?st) m = Some (r, st', m')" for r st' m'
    using user_set_info [OF assms(1) that] by auto
  then obtain st' where st': "d' = d\<lparr>dv_lines := (dv_lines d)[line := st']\<rparr>"
    "snx_ser_set_info env cf ic ns (set_flagged ?st) m = Some (r, st', m')"
    using ioctl_tiocsserial_result [OF assms(2,3)] by metis
  show ?thesis using user_set_info [OF assms(1) st'(2)] st'(1)
    by (intro exI [of _ st']) (simp add: set_flagged_def upd_line_def hw_setup_def Let_def)
qed

section \<open>Reading setserial back\<close>

lemma iobase_low: "ucast (new_port ns) = ser_port ns"
proof -
  have "new_port ns = ucast (ser_port ns) OR push_bit 32 (ucast (ser_port_high ns))"
    unfolding new_port_def SNX_HIGH_BITS_OFFSET_def
    by (subst disjunctive_add) (auto simp: bit_simps dest: bit_imp_le_length)
  then show ?thesis by (intro bit_word_eqI) (auto simp: bit_simps)
qed

lemma no_high_port: "drop_bit SNX_HIGH_BITS_OFFSET (ucast (x :: u32) :: u64) = 0"
  by (rule bit_word_eqI) (auto simp: SNX_HIGH_BITS_OFFSET_def bit_simps dest: bit_imp_le_length)

lemma same_char: "sint (x :: u8) = uint (y :: u8) \<Longrightarrow> x = y"
  by (metis scast_eq scast_id word_of_int_uint)

lemma same_port: "\<not> change_port ns sp \<Longrightarrow> sp_iobase sp = ser_port ns \<and> sp_type sp = ser_type ns \<and> sp_iotype sp = ser_io_type ns"
  using iobase_low [of ns] by (auto simp: change_port_def dest: same_char)

lemma shutdown_setup: "snx_ser_shutdown sp m = Some (sp', m') \<Longrightarrow> same_setup sp sp'"
  by (auto simp: snx_ser_shutdown_def sunix_ser_shutdown_def snx_ser_update_mctrl_def same_setup_def hw_setup_def upd_info_def Let_def
      split: option.splits if_splits prod.splits)

lemma set_info_admin_busy: "set_info_admin ns irq cw st m = Some (Inl r) \<Longrightarrow> r = - EBUSY"
  by (auto simp: set_info_admin_def Let_def split: option.splits if_splits prod.splits)

lemma set_info_admin_result:
  assumes "set_info_admin ns irq cw st m = Some (Inr (st1, m1))"
  shows "\<exists>sp. st1 = set_info_all ns irq cw (st\<lparr>ss_port := sp\<rparr>) \<and> sp_iobase sp = ser_port ns \<and> sp_type sp = ser_type ns
    \<and> sp_iotype sp = ser_io_type ns \<and> sp_line sp = sp_line (ss_port st) \<and> sp_flags sp = sp_flags (ss_port st)"
proof (cases "change_port ns (ss_port st) \<or> irq \<noteq> sp_irq (ss_port st)")
  case True
  then obtain sp1 m2 where 1: "snx_ser_shutdown (ss_port st) m = Some (sp1, m2)"
    "st1 = set_info_all ns irq cw (st\<lparr>ss_port := if change_port ns (ss_port st) then fst (set_info_move ns sp1 m2) else sp1\<rparr>)"
    using assms by (auto simp: set_info_admin_def Let_def split: if_splits option.splits prod.splits)
  show ?thesis using 1(2) shutdown_setup [OF 1(1)] same_port [of ns "ss_port st"] iobase_low [of ns]
    by (intro exI [of _ "if change_port ns (ss_port st) then fst (set_info_move ns sp1 m2) else sp1"])
      (auto simp: set_info_move_def same_setup_def hw_setup_def)
next
  case False
  then show ?thesis using assms same_port [of ns "ss_port st"] by (auto simp: set_info_admin_def Let_def intro!: exI [of _ "ss_port st"])
qed

text \<open>
  C14. What a privileged setserial set is what is read back: everything but the interrupt, which is the
  canonical one, the flags outside the change mask, the FIFO size beyond a byte, the clock beyond 32
  bits and the address beyond 32 bits.
\<close>

theorem setserial_reads_back:
  assumes "se_admin env" and "snx_ser_set_info env True ic ns st m = Some (r, st', m')" and "r \<noteq> - EBUSY"
  shows "snx_ser_get_info True st' = (0, ns\<lparr>ser_line := sp_line (ss_port st), ser_irq := ic (ser_irq ns),
      ser_flags := (sp_flags (ss_port st) AND NOT SNX_UPF_CHANGE_MASK) OR (ser_flags ns AND SNX_UPF_CHANGE_MASK),
      ser_xmit_fifo_size := ser_xmit_fifo_size ns AND 0xFF, ser_baud_base := ser_baud_base ns * 16 div 16, ser_port_high := 0\<rparr>)"
proof -
  let ?cw = "if ser_closing_wait ns = 65535 then SNX_USF_CLOSING_WAIT_NONE else ucast (ser_closing_wait ns)"
  have cw: "ucast ?cw = ser_closing_wait ns" by simp
  obtain st1 m1 where 1: "set_info_admin ns (ic (ser_irq ns)) ?cw st m = Some (Inr (st1, m1))"
    "set_info_check env (sp_flags (ss_port st)) (sp_custom_divisor (ss_port st)) st1 m1 = Some (r, st', m')"
    using assms by (auto simp: snx_ser_set_info_def Let_def split: option.splits sum.splits dest: set_info_admin_busy simp del: if_split)
  from set_info_admin_result [OF 1(1)] obtain sp where sp: "st1 = set_info_all ns (ic (ser_irq ns)) ?cw (st\<lparr>ss_port := sp\<rparr>)"
    "sp_iobase sp = ser_port ns" "sp_type sp = ser_type ns" "sp_iotype sp = ser_io_type ns"
    "sp_line sp = sp_line (ss_port st)" "sp_flags sp = sp_flags (ss_port st)" by blast
  from set_info_check_keeps [OF 1(2)] obtain sp' where sp': "st' = st1\<lparr>ss_port := sp'\<rparr>" "same_setup (ss_port st1) sp'" by blast
  have low: "ucast (ucast x :: u8) = x AND 0xFF" for x :: u32
  proof -
    have "ucast (ucast x :: u8) = x AND mask 8" by (rule bit_word_eqI) (auto simp: bit_simps)
    then show ?thesis by (simp add: mask_eq_exp_minus_1)
  qed
  show ?thesis
    using sp sp' cw by (simp add: snx_ser_get_info_def set_info_all_def same_setup_def hw_setup_def copied_def no_high_port low Let_def)
qed

lemma narrow16: "(x :: u32) < 0x10000 \<Longrightarrow> ucast (ucast x :: u16) = x"
  by (simp add: word_unat_eq_iff unsigned_ucast_eq take_bit_nat_eq_self word_less_nat_alt unsigned_take_bit_eq)

lemma small_char: "(x :: u8) < 0x80 \<Longrightarrow> sint x = uint x"
  using order_trans [OF _ uint_ge_0, of "- 128" x] by (simp add: sint_uint signed_take_bit_int_eq_self word_less_def)

text \<open>What is written back agrees with the line in everything that is compared.\<close>

definition agrees :: "serial_struct \<Rightarrow> u32 \<Rightarrow> snx_ser_state \<Rightarrow> bool" where
  "agrees s irq st \<longleftrightarrow> (let port = ss_port st in irq = sp_irq port \<and> \<not> change_port s port \<and> ser_baud_base s = sp_uartclk port div 16
     \<and> ser_baud_base s * 16 = sp_uartclk port \<and> ucast (ser_close_delay s) = ss_close_delay st
     \<and> (if ser_closing_wait s = 65535 then SNX_USF_CLOSING_WAIT_NONE else ucast (ser_closing_wait s)) = ss_closing_wait st
     \<and> ser_xmit_fifo_size s = ucast (sp_fifosize port) \<and> ser_flags s = sp_flags port \<and> ser_custom_divisor s = sp_custom_divisor port)"

lemma read_agrees:
  assumes "ic (sp_irq (ss_port st)) = sp_irq (ss_port st)" "sp_iotype (ss_port st) < 0x80"
    "sp_uartclk (ss_port st) mod 16 = 0" "ss_close_delay st < 0x10000" "ss_closing_wait st < 0x10000"
    and s: "s = snd (snx_ser_get_info ct st)"
  shows "agrees s (ic (ser_irq s)) st"
proof -
  have "sp_uartclk (ss_port st) div 16 * 16 = sp_uartclk (ss_port st)" using assms(3) div_mult_mod_eq [of "sp_uartclk (ss_port st)" 16] by simp
  moreover have "ss_closing_wait st = 65535" if "ucast (ss_closing_wait st) = (65535 :: u16)"
    using narrow16 [OF assms(5)] that by simp
  moreover have "\<not> change_port s (ss_port st)"
    using s small_char [OF assms(2)] by (simp add: snx_ser_get_info_def change_port_def new_port_def no_high_port Let_def)
  ultimately show ?thesis using s assms(1) narrow16 [OF assms(4)] narrow16 [OF assms(5)]
    by (simp add: agrees_def snx_ser_get_info_def Let_def)
qed

lemma write_back_set_info:
  assumes a: "agrees s (ic (ser_irq s)) st" and "sp_info (ss_port st) = Some i" and "has (si_flags i) SNX_UIF_INITIALIZED"
  shows "snx_ser_set_info env True ic s st m = Some (0, st, m)"
proof -
  let ?cw = "if ser_closing_wait s = 65535 then SNX_USF_CLOSING_WAIT_NONE else ucast (ser_closing_wait s)"
  let ?sp = "ss_port st"
  have check: "set_info_check env (sp_flags ?sp) (sp_custom_divisor ?sp) st m = Some (0, st, m)"
    using assms(2,3) by (simp add: set_info_check_def Let_def)
  have u: "set_info_user s st = st" and al: "set_info_all s (ic (ser_irq s)) ?cw st = st"
    using a merge_same [of "sp_flags ?sp" SNX_UPF_USR_MASK] merge_same [of "sp_flags ?sp" SNX_UPF_CHANGE_MASK]
    by (auto simp: agrees_def set_info_user_def set_info_all_def Let_def)
  have "\<not> set_info_refused s (ic (ser_irq s)) ?cw st" and "set_info_admin s (ic (ser_irq s)) ?cw st m = Some (Inr (st, m))"
    using a al by (simp_all add: agrees_def set_info_refused_def set_info_admin_def Let_def)
  then show ?thesis using check u by (simp add: snx_ser_set_info_def Let_def)
qed

text \<open>
  Writing back what was read changes nothing on a started line, for a privileged and an
  unprivileged caller: the chip is not touched, and the line only gets the mark of setserial.
\<close>

theorem setserial_write_back:
  assumes "line < length (dv_lines d)" and "sp_info (ss_port (dv_lines d ! line)) = Some i" and "has (si_flags i) SNX_UIF_INITIALIZED"
    and "ic (sp_irq (ss_port (dv_lines d ! line))) = sp_irq (ss_port (dv_lines d ! line))"
    and "sp_iotype (ss_port (dv_lines d ! line)) < 0x80" and "sp_uartclk (ss_port (dv_lines d ! line)) mod 16 = 0"
    and "ss_close_delay (dv_lines d ! line) < 0x10000" and "ss_closing_wait (dv_lines d ! line) < 0x10000"
    and "snx_ser_ioctl env cf True ic line TIOCGSERIAL d m = Some (r, Serial s, d1, m1)"
  shows "d1 = d \<and> m1 = m \<and> snx_ser_ioctl env True ct ic line (TIOCSSERIAL s) d m
    = Some (0, NoReply, d\<lparr>dv_lines := (dv_lines d)[line := set_flagged (dv_lines d ! line)]\<rparr>, m)"
proof -
  let ?st = "dv_lines d ! line"
  have s: "s = snd (snx_ser_get_info True ?st)" and d1: "d1 = d" "m1 = m"
    using assms(1,9) by (auto simp: snx_ser_ioctl_def on_line_def snx_ser_get_info_def copied_def Let_def)
  have "snx_ser_set_info env True ic s (set_flagged ?st) m = Some (0, set_flagged ?st, m)"
  proof (rule write_back_set_info)
    have "s = snd (snx_ser_get_info True (set_flagged ?st))"
      using s by (simp add: snx_ser_get_info_def set_flagged_def upd_line_def Let_def)
    then show "agrees s (ic (ser_irq s)) (set_flagged ?st)"
      using assms(4-8) by (intro read_agrees [where ct = True]) (simp_all add: set_flagged_def upd_line_def)
  qed (use assms(2,3) in \<open>simp_all add: set_flagged_def upd_line_def\<close>)
  then show ?thesis using assms(1) d1
    by (simp add: snx_ser_ioctl_def on_line_def ioctl_tiocsserial_def flip: set_flagged_def)
qed

text \<open>A started line of a driver, an unprivileged caller and a privileged one.\<close>

definition user_env :: ser_env where
  "user_env = patient_env\<lparr>se_admin := False\<rparr>"

definition admin_env :: ser_env where
  "admin_env = patient_env\<lparr>se_admin := True\<rparr>"

definition one_line :: ser_drv where
  "one_line = \<lparr>dv_lines = [open_state], dv_boards = [], dv_board_cnt = 0\<rparr>"

lemma open_state_info: "sp_info (ss_port open_state) = Some example_info" "has (si_flags example_info) SNX_UIF_INITIALIZED"
  by (simp_all add: open_state_def example_line_def example_info_def)

lemma open_state_small: "sp_iotype (ss_port open_state) < 0x80" "sp_uartclk (ss_port open_state) mod 16 = 0"
  "ss_close_delay open_state < 0x10000" "ss_closing_wait open_state < 0x10000"
  by (simp_all add: open_state_def example_line_def example_uart_def zero_ser_port_def)

theorem unprivileged_setserial_witness:
  "\<exists>st'. snx_ser_ioctl user_env True True id 0 (TIOCSSERIAL ((snd (snx_ser_get_info True open_state))\<lparr>ser_irq := 5\<rparr>)) one_line idle_machine
      = Some (- EPERM, NoReply, one_line\<lparr>dv_lines := [st']\<rparr>, idle_machine) \<and> sp_irq (ss_port st') = sp_irq (ss_port open_state)"
proof -
  let ?ns = "(snd (snx_ser_get_info True open_state))\<lparr>ser_irq := 5\<rparr>"
  have a: "\<not> se_admin user_env" and l: "0 < length (dv_lines one_line)" by (simp_all add: user_env_def one_line_def)
  have "sp_irq (ss_port open_state) = 0" by (simp add: open_state_def example_line_def example_uart_def zero_ser_port_def)
  then have "set_info_refused ?ns 5 cw (set_flagged open_state)" for cw
    by (simp add: set_info_refused_def set_flagged_def upd_line_def Let_def)
  then have run: "snx_ser_ioctl user_env True True id 0 (TIOCSSERIAL ?ns) one_line idle_machine
      = Some (- EPERM, NoReply, one_line\<lparr>dv_lines := [set_flagged open_state]\<rparr>, idle_machine)"
    using a by (simp add: snx_ser_ioctl_def on_line_def one_line_def ioctl_tiocsserial_def snx_ser_set_info_def Let_def
        flip: set_flagged_def)
  from unprivileged_setserial [OF a l this] show ?thesis
    using run by (auto simp: one_line_def hw_setup_def Let_def)
qed

theorem setserial_write_back_witness:
  "snx_ser_ioctl patient_env True True id 0 (TIOCSSERIAL (snd (snx_ser_get_info True open_state))) one_line idle_machine
    = Some (0, NoReply, one_line\<lparr>dv_lines := [set_flagged open_state]\<rparr>, idle_machine)"
proof -
  let ?s = "snd (snx_ser_get_info True open_state)"
  have get: "snx_ser_ioctl patient_env True True id 0 TIOCGSERIAL one_line idle_machine = Some (0, Serial ?s, one_line, idle_machine)"
    by (simp add: snx_ser_ioctl_def on_line_def one_line_def snx_ser_get_info_def copied_def Let_def)
  have st: "dv_lines one_line ! 0 = open_state" and l: "0 < length (dv_lines one_line)" by (simp_all add: one_line_def)
  show ?thesis
    using setserial_write_back [OF l _ _ _ _ _ _ _ get, unfolded st, OF open_state_info _ open_state_small] by (simp add: one_line_def)
qed

theorem setserial_reads_back_witness:
  "\<exists>st' m'. snx_ser_set_info admin_env True id (snd (snx_ser_get_info True open_state)) open_state idle_machine = Some (0, st', m')
    \<and> ser_irq (snd (snx_ser_get_info True st')) = sp_irq (ss_port open_state)"
proof -
  let ?s = "snd (snx_ser_get_info True open_state)"
  have run: "snx_ser_set_info admin_env True id ?s open_state idle_machine = Some (0, open_state, idle_machine)"
    by (rule write_back_set_info [where ic = id, OF read_agrees [where ct = True and ic = id, OF _ open_state_small] open_state_info]) simp_all
  have "se_admin admin_env" by (simp add: admin_env_def)
  from setserial_reads_back [OF this run] show ?thesis using run by (simp add: snx_ser_get_info_def Let_def)
qed

end
