(* ===== verification/Snx_Driver.thy ===== *)
theory Snx_Driver
  imports Snx_Setserial
begin

text \<open>
  Registering the tty driver and its ports, and unregistering them (driver/snx_serial.c). What the
  kernel is told is in the trace; what it answers is a parameter. The lines are \<^verbatim>\<open>drv->state\<close>, the ports
  \<^verbatim>\<open>sunix_ser_table\<close>: \<^verbatim>\<open>state->port\<close> is an index into the table.
\<close>

section \<open>Registration of the driver and its ports\<close>

subsection \<open>The driver\<close>

record drv_line =
  dl_port :: "nat option"
  dl_info :: "snx_ser_info option"
  dl_close_delay :: u32
  dl_closing_wait :: u32

text \<open>\<open>rg_state\<close> is \<open>None\<close> before \<^verbatim>\<open>kmalloc\<close> and after \<^verbatim>\<open>kfree\<close>, when the code keeps the stale pointer.\<close>

record ser_reg =
  rg_nr :: nat
  rg_state :: "drv_line list option"
  rg_tty :: bool
  rg_table :: "sunix_ser_port list"

text \<open>\<^verbatim>\<open>tty_alloc_driver\<close> answers a driver or, when it fails, an \<^verbatim>\<open>ERR_PTR\<close>, which is not NULL.\<close>

datatype tty_alloc = TtyDriver | ErrPtr | NullPtr

definition emits :: "event list \<Rightarrow> machine \<Rightarrow> machine" where
  "emits es m = fold emit es m"

definition init_line :: "u32 \<Rightarrow> drv_line" where
  "init_line HZ = \<lparr>dl_port = None, dl_info = None, dl_close_delay = 5 * HZ div 100, dl_closing_wait = 3 * HZ\<rparr>"

text \<open>
  \<open>mem\<close>: did \<^verbatim>\<open>kmalloc\<close> succeed; \<open>status\<close>: what \<^verbatim>\<open>tty_register_driver\<close> answers. \<open>None\<close> is a bad pointer
  followed: \<^verbatim>\<open>put_tty_driver(NULL)\<close> on the early failures, or the error pointer filled in as a driver.
\<close>

definition sunix_ser_register_driver :: "u32 \<Rightarrow> bool \<Rightarrow> tty_alloc \<Rightarrow> int \<Rightarrow> ser_reg \<Rightarrow> machine \<Rightarrow> (int \<times> ser_reg \<times> machine) option" where
  "sunix_ser_register_driver HZ mem alloc status drv m =
    (if \<not> mem then None
     else if alloc \<noteq> TtyDriver then None
     else
      (let m1 = emit (TtyRegister status) (emits (map TtyPortInit [0..<rg_nr drv]) m) in
       if status < 0 then Some (status, drv\<lparr>rg_state := None, rg_tty := True\<rparr>, emit PutTtyDriver m1)
       else Some (status, drv\<lparr>rg_state := Some (replicate (rg_nr drv) (init_line HZ)), rg_tty := True\<rparr>,
                  emits (map TtyPortDestroy [0..<rg_nr drv]) m1)))"

definition sunix_ser_unregister_driver :: "ser_reg \<Rightarrow> machine \<Rightarrow> ser_reg \<times> machine" where
  "sunix_ser_unregister_driver drv m =
    (if \<not> rg_tty drv then (drv, m)
     else (drv\<lparr>rg_tty := False, rg_state := None\<rparr>,
           emits ([TtyUnregister, PutTtyDriver] @ map TtyPortDestroy [0..<rg_nr drv]) m))"

subsection \<open>The ports\<close>

definition sunix_ser_request_io :: "sunix_ser_port \<Rightarrow> machine \<Rightarrow> machine" where
  "sunix_ser_request_io sp m = (if sp_iotype sp = SNX_UPIO_PORT then emit (RequestRegion (ucast (sp_iobase sp))) m else m)"

definition sunix_ser_configure_port :: "sunix_ser_port \<Rightarrow> machine \<Rightarrow> machine" where
  "sunix_ser_configure_port sp m =
    (if sp_iobase sp = 0 then m
     else if sp_type sp \<noteq> PORT_UNKNOWN then sunix_ser_set_mctrl sp 0 (sunix_ser_request_io sp m)
     else m)"

text \<open>\<open>None\<close>: the driver has no line table.\<close>

definition sunix_ser_add_one_port :: "nat \<Rightarrow> ser_reg \<Rightarrow> machine \<Rightarrow> (int \<times> ser_reg \<times> machine) option" where
  "sunix_ser_add_one_port i drv m =
    (let sp = rg_table drv ! i; line = unat (sp_line sp) in
     if line \<ge> rg_nr drv then Some (- EINVAL, drv, m)
     else case rg_state drv of
       None \<Rightarrow> None
     | Some lines \<Rightarrow>
        (if dl_port (lines ! line) \<noteq> None then Some (- EINVAL, drv, m)
         else
          (let sp1 = sp\<lparr>sp_info := dl_info (lines ! line)\<rparr> in
           Some (0, drv\<lparr>rg_state := Some (lines[line := (lines ! line)\<lparr>dl_port := Some i\<rparr>]), rg_table := (rg_table drv)[i := sp1]\<rparr>,
             emit (RegisterDevice line) (sunix_ser_configure_port sp1 m)))))"

definition register_step :: "nat \<Rightarrow> ser_reg \<times> machine \<Rightarrow> (int \<times> ser_reg \<times> machine) option + ser_reg \<times> machine" where
  "register_step i = (\<lambda>(drv, m).
    let sp = (rg_table drv ! i)\<lparr>sp_line := of_nat i\<rparr>; tab = rg_table drv in
    if sp_iobase sp = 0 then Inr (drv\<lparr>rg_table := tab[i := sp]\<rparr>, m)
    else case sunix_ser_add_one_port i (drv\<lparr>rg_table := tab[i := sp\<lparr>sp_mcr_mask := 0xFF, sp_mcr_force := 0\<rparr>]\<rparr>) m of
      None \<Rightarrow> Inl None
    | Some (r, drv1, m1) \<Rightarrow> if r \<noteq> 0 then Inl (Some (r, drv1, m1)) else Inr (drv1, m1))"

definition sunix_ser_register_ports :: "ser_reg \<Rightarrow> machine \<Rightarrow> (int \<times> ser_reg \<times> machine) option" where
  "sunix_ser_register_ports drv m =
    (case fold_err register_step [0..<SNX_SER_TOTAL_MAX + 1] (drv, m) of
       Inl r \<Rightarrow> r
     | Inr (drv1, m1) \<Rightarrow> Some (0, drv1, m1))"

text \<open>
  \<open>None\<close>: a line whose \<^verbatim>\<open>port\<close> is NULL. \<^verbatim>\<open>tty_hangup\<close> is deferred work; the port's own \<^verbatim>\<open>info\<close>, freed
  here but not cleared, is \<open>None\<close>.
\<close>

definition sunix_ser_unconfigure_port :: "nat \<Rightarrow> ser_reg \<Rightarrow> machine \<Rightarrow> (ser_reg \<times> machine) option" where
  "sunix_ser_unconfigure_port line drv m =
    do {
      lines \<leftarrow> rg_state drv;
      i \<leftarrow> dl_port (lines ! line);
      (let port = rg_table drv ! i; info = dl_info (lines ! line);
           m1 = (case info of Some nfo \<Rightarrow> if si_tty nfo \<noteq> None then emit TtyHangup m else m | None \<Rightarrow> m);
           m2 = emit (UnregisterDevice (unat (sp_line port))) m1;
           m3 = (if sp_type port \<noteq> PORT_UNKNOWN then sunix_ser_release_io port m2 else m2);
           m4 = (if info \<noteq> None then emit TaskletKill m3 else m3)
       in Some (drv\<lparr>rg_state := Some (lines[line := (lines ! line)\<lparr>dl_info := None\<rparr>]),
                    rg_table := (rg_table drv)[i := port\<lparr>sp_type := PORT_UNKNOWN, sp_info := None\<rparr>]\<rparr>, m4))
    }"

definition sunix_ser_remove_one_port :: "nat \<Rightarrow> ser_reg \<Rightarrow> machine \<Rightarrow> (ser_reg \<times> machine) option" where
  "sunix_ser_remove_one_port i drv m =
    (let line = unat (sp_line (rg_table drv ! i)) in
     map_option (\<lambda>(drv1, m1).
         (drv1\<lparr>rg_state := map_option (\<lambda>lines. lines[line := (lines ! line)\<lparr>dl_port := None\<rparr>]) (rg_state drv1)\<rparr>, m1))
       (sunix_ser_unconfigure_port line drv m))"

definition unregister_step :: "nat \<Rightarrow> ser_reg \<times> machine \<Rightarrow> unit + ser_reg \<times> machine" where
  "unregister_step i = (\<lambda>(drv, m).
    if sp_iobase (rg_table drv ! i) = 0 then Inr (drv, m)
    else case sunix_ser_remove_one_port i drv m of None \<Rightarrow> Inl () | Some s \<Rightarrow> Inr s)"

definition sunix_ser_unregister_ports :: "ser_reg \<Rightarrow> machine \<Rightarrow> (ser_reg \<times> machine) option" where
  "sunix_ser_unregister_ports drv m =
    (case fold_err unregister_step [0..<SNX_SER_TOTAL_MAX + 1] (drv, m) of Inl _ \<Rightarrow> None | Inr s \<Rightarrow> Some s)"

section \<open>Registering and unregistering the ports\<close>

lemma trace_emits [simp]: "trace (emits es m) = trace m @ es"
  by (induction es arbitrary: m) (simp_all add: emits_def)

text \<open>The I/O regions asked for and given back, in order.\<close>

definition requested :: "event list \<Rightarrow> ioaddr list" where
  "requested = List.map_filter (\<lambda>e. case e of RequestRegion a \<Rightarrow> Some a | _ \<Rightarrow> None)"

definition released :: "event list \<Rightarrow> ioaddr list" where
  "released = List.map_filter (\<lambda>e. case e of ReleaseRegion a \<Rightarrow> Some a | _ \<Rightarrow> None)"

definition devices_on :: "event list \<Rightarrow> nat list" where
  "devices_on = List.map_filter (\<lambda>e. case e of RegisterDevice i \<Rightarrow> Some i | _ \<Rightarrow> None)"

definition devices_off :: "event list \<Rightarrow> nat list" where
  "devices_off = List.map_filter (\<lambda>e. case e of UnregisterDevice i \<Rightarrow> Some i | _ \<Rightarrow> None)"

lemmas region_defs = requested_def released_def devices_on_def devices_off_def

lemma map_upt_update: "k < n \<Longrightarrow> (map f [0..<n])[k := x] = map (\<lambda>i. if i = k then x else f i) [0..<n]"
  by (rule nth_equalityI) (auto simp: nth_list_update)

lemma unat_small [simp]: "n \<le> SNX_SER_TOTAL_MAX \<Longrightarrow> unat (of_nat n :: u32) = n"
  by (simp add: unsigned_of_nat take_bit_nat_eq_self)

text \<open>A driver whose ports are not registered, and what registering and unregistering do to a port.\<close>

definition unregistered :: "ser_reg \<Rightarrow> drv_line list \<Rightarrow> bool" where
  "unregistered drv lines \<longleftrightarrow> rg_state drv = Some lines \<and> rg_nr drv = SNX_SER_TOTAL_MAX + 1 \<and> length lines = SNX_SER_TOTAL_MAX + 1
     \<and> length (rg_table drv) = SNX_SER_TOTAL_MAX + 1 \<and> (\<forall>l\<in>set lines. dl_port l = None \<and> dl_info l = None)"

definition ports_upto :: "nat \<Rightarrow> (nat \<Rightarrow> 'a \<Rightarrow> 'a) \<Rightarrow> 'a list \<Rightarrow> 'a list" where
  "ports_upto k f xs = map (\<lambda>i. if i < k then f i (xs ! i) else xs ! i) [0..<length xs]"

lemma ports_upto_simps [simp]:
  "length (ports_upto k f xs) = length xs" "ports_upto 0 f xs = xs"
  "i < length xs \<Longrightarrow> ports_upto k f xs ! i = (if i < k then f i (xs ! i) else xs ! i)"
  by (simp_all add: ports_upto_def map_nth)

lemma ports_upto_Suc: "k < length xs \<Longrightarrow> (ports_upto k f xs)[k := f k (xs ! k)] = ports_upto (Suc k) f xs"
  by (rule nth_equalityI) (auto simp: nth_list_update less_Suc_eq)

lemma ports_upto_id: "k < length xs \<Longrightarrow> (ports_upto k f xs)[k := xs ! k] = ports_upto k f xs"
  by (metis list_update_id ports_upto_simps(3) less_irrefl)

definition registered_port :: "nat \<Rightarrow> sunix_ser_port \<Rightarrow> sunix_ser_port" where
  "registered_port i sp = (if sp_iobase sp = 0 then sp\<lparr>sp_line := of_nat i\<rparr>
     else sp\<lparr>sp_line := of_nat i, sp_mcr_mask := 0xFF, sp_mcr_force := 0, sp_info := None\<rparr>)"

definition region_of :: "sunix_ser_port \<Rightarrow> ioaddr list" where
  "region_of sp = (if sp_type sp \<noteq> PORT_UNKNOWN \<and> sp_iotype sp = SNX_UPIO_PORT then [ucast (sp_iobase sp)] else [])"

definition register_events :: "nat \<Rightarrow> sunix_ser_port \<Rightarrow> event list" where
  "register_events i sp = (if sp_iobase sp = 0 then []
     else map RequestRegion (region_of sp)
       @ (if sp_type sp \<noteq> PORT_UNKNOWN then [Out (uart_addr sp UART_MCR) (mctrl_bits (registered_port i sp) 0)] else [])
       @ [RegisterDevice i])"

definition unregister_events :: "nat \<Rightarrow> sunix_ser_port \<Rightarrow> event list" where
  "unregister_events i sp = (if sp_iobase sp = 0 then [] else UnregisterDevice i # map ReleaseRegion (region_of sp))"

definition registered_line :: "ser_reg \<Rightarrow> nat \<Rightarrow> drv_line \<Rightarrow> drv_line" where
  "registered_line drv i l = (if sp_iobase (rg_table drv ! i) = 0 then l else l\<lparr>dl_port := Some i\<rparr>)"

definition registered_upto :: "nat \<Rightarrow> ser_reg \<Rightarrow> drv_line list \<Rightarrow> ser_reg" where
  "registered_upto k drv lines = drv\<lparr>rg_table := ports_upto k registered_port (rg_table drv),
     rg_state := Some (ports_upto k (registered_line drv) lines)\<rparr>"

lemma emits_append [simp]: "emits vs (emits us m) = emits (us @ vs) m" "emit e (emits us m) = emits (us @ [e]) m" "emits [] m = m"
  by (simp_all add: emits_def)

lemma configure_events:
  assumes "sp_iobase sp \<noteq> 0"
  shows "sunix_ser_configure_port sp m = emits (map RequestRegion (region_of sp)
     @ (if sp_type sp \<noteq> PORT_UNKNOWN then [Out (uart_addr sp UART_MCR) (mctrl_bits sp 0)] else [])) m"
  using assms by (simp add: sunix_ser_configure_port_def sunix_ser_request_io_def sunix_ser_set_mctrl_def uart_access uart_write_def
      outb_def emits_def region_of_def)

lemma register_step_result:
  assumes u: "unregistered drv lines" and k: "k \<le> SNX_SER_TOTAL_MAX"
  shows "register_step k (registered_upto k drv lines, emits us m)
    = Inr (registered_upto (Suc k) drv lines, emits (us @ register_events k (rg_table drv ! k)) m)"
proof -
  have len: "k < length (rg_table drv)" "k < length lines" "k < rg_nr drv" using u k by (simp_all add: unregistered_def)
  let ?sp = "rg_table drv ! k"
  have l: "dl_port (lines ! k) = None" "dl_info (lines ! k) = None" using u len(2) by (simp_all add: unregistered_def)
  show ?thesis
  proof (cases "sp_iobase ?sp = 0")
    case True
    then show ?thesis
      using len k ports_upto_Suc [OF len(1), of registered_port] ports_upto_Suc [OF len(2), of "registered_line drv"]
        ports_upto_id [OF len(2), of "registered_line drv"]
      by (simp add: register_step_def registered_upto_def registered_port_def registered_line_def register_events_def Let_def)
  next
    case False
    then show ?thesis
      using len k l ports_upto_Suc [OF len(1), of registered_port] ports_upto_Suc [OF len(2), of "registered_line drv"]
      by (simp add: register_step_def sunix_ser_add_one_port_def registered_upto_def registered_port_def registered_line_def
          register_events_def configure_events region_of_def uart_addr_def Let_def)
  qed
qed

lemma register_prefix:
  assumes "unregistered drv lines"
  shows "k \<le> SNX_SER_TOTAL_MAX + 1 \<Longrightarrow> fold_err register_step [0..<k] (drv, m)
    = Inr (registered_upto k drv lines, emits (concat (map (\<lambda>i. register_events i (rg_table drv ! i)) [0..<k])) m)"
proof (induction k)
  case 0
  then show ?case using assms by (simp add: registered_upto_def unregistered_def)
next
  case (Suc k)
  then show ?case using register_step_result [OF assms, of k] by (simp add: fold_err_append)
qed

text \<open>Registered ports, each with its line; the lines may have been opened and closed meanwhile.\<close>

definition registered :: "ser_reg \<Rightarrow> drv_line list \<Rightarrow> bool" where
  "registered drv lines \<longleftrightarrow> rg_state drv = Some lines \<and> length lines = SNX_SER_TOTAL_MAX + 1
     \<and> length (rg_table drv) = SNX_SER_TOTAL_MAX + 1
     \<and> (\<forall>i\<le>SNX_SER_TOTAL_MAX. sp_iobase (rg_table drv ! i) \<noteq> 0 \<longrightarrow>
          dl_port (lines ! i) = Some i \<and> sp_line (rg_table drv ! i) = of_nat i \<and> dl_info (lines ! i) = None)"

definition removed_port :: "nat \<Rightarrow> sunix_ser_port \<Rightarrow> sunix_ser_port" where
  "removed_port i sp = (if sp_iobase sp = 0 then sp else sp\<lparr>sp_type := PORT_UNKNOWN, sp_info := None\<rparr>)"

definition removed_line :: "ser_reg \<Rightarrow> nat \<Rightarrow> drv_line \<Rightarrow> drv_line" where
  "removed_line drv i l = (if sp_iobase (rg_table drv ! i) = 0 then l else l\<lparr>dl_info := None, dl_port := None\<rparr>)"

definition removed_upto :: "nat \<Rightarrow> ser_reg \<Rightarrow> drv_line list \<Rightarrow> ser_reg" where
  "removed_upto k drv lines = drv\<lparr>rg_table := ports_upto k removed_port (rg_table drv),
     rg_state := Some (ports_upto k (removed_line drv) lines)\<rparr>"

lemma unregister_step_result:
  assumes r: "registered drv lines" and k: "k \<le> SNX_SER_TOTAL_MAX"
  shows "unregister_step k (removed_upto k drv lines, emits us m)
    = Inr (removed_upto (Suc k) drv lines, emits (us @ unregister_events k (rg_table drv ! k)) m)"
proof -
  have len: "k < length (rg_table drv)" "k < length lines" using r k by (simp_all add: registered_def)
  let ?sp = "rg_table drv ! k"
  note up = ports_upto_Suc [OF len(1), of removed_port] ports_upto_Suc [OF len(2), of "removed_line drv"]
  show ?thesis
  proof (cases "sp_iobase ?sp = 0")
    case True
    then show ?thesis
      using len k up ports_upto_id [OF len(1), of removed_port] ports_upto_id [OF len(2), of "removed_line drv"]
      by (simp add: unregister_step_def removed_upto_def removed_port_def removed_line_def unregister_events_def)
  next
    case False
    have l: "dl_port (lines ! k) = Some k" "sp_line ?sp = of_nat k" "dl_info (lines ! k) = None"
      using r k False by (auto simp: registered_def)
    then show ?thesis
      using len k up False
      by (simp add: unregister_step_def sunix_ser_remove_one_port_def sunix_ser_unconfigure_port_def removed_upto_def removed_port_def
          removed_line_def unregister_events_def region_of_def sunix_ser_release_io_def Let_def)
  qed
qed

lemma unregister_prefix:
  assumes "registered drv lines"
  shows "k \<le> SNX_SER_TOTAL_MAX + 1 \<Longrightarrow> fold_err unregister_step [0..<k] (drv, m)
    = Inr (removed_upto k drv lines, emits (concat (map (\<lambda>i. unregister_events i (rg_table drv ! i)) [0..<k])) m)"
proof (induction k)
  case 0
  then show ?case using assms by (simp add: removed_upto_def registered_def)
next
  case (Suc k)
  then show ?case using unregister_step_result [OF assms, of k] by (simp add: fold_err_append)
qed

lemma registered_all: "unregistered drv lines \<Longrightarrow>
  registered (registered_upto (SNX_SER_TOTAL_MAX + 1) drv lines) (ports_upto (SNX_SER_TOTAL_MAX + 1) (registered_line drv) lines)"
  by (auto simp: registered_def registered_upto_def unregistered_def registered_port_def registered_line_def)

lemma region_simps [simp]:
  "requested (xs @ ys) = requested xs @ requested ys" "released (xs @ ys) = released xs @ released ys"
  "devices_on (xs @ ys) = devices_on xs @ devices_on ys" "devices_off (xs @ ys) = devices_off xs @ devices_off ys"
  "requested [] = []" "released [] = []" "devices_on [] = []" "devices_off [] = []"
  by (simp_all add: region_defs)

lemma region_Cons [simp]:
  "requested (e # es) = (case e of RequestRegion a \<Rightarrow> [a] | _ \<Rightarrow> []) @ requested es"
  "released (e # es) = (case e of ReleaseRegion a \<Rightarrow> [a] | _ \<Rightarrow> []) @ released es"
  by (simp_all add: requested_def released_def split: event.split)

lemma region_events:
  "requested (register_events i sp) = (if sp_iobase sp = 0 then [] else region_of sp)" "released (register_events i sp) = []"
  "requested (unregister_events i sp) = []" "released (unregister_events i sp) = (if sp_iobase sp = 0 then [] else region_of sp)"
  "devices_on (register_events i sp) = (if sp_iobase sp = 0 then [] else [i])" "devices_off (register_events i sp) = []"
  "devices_on (unregister_events i sp) = []" "devices_off (unregister_events i sp) = (if sp_iobase sp = 0 then [] else [i])"
  by (simp_all add: register_events_def unregister_events_def region_of_def region_defs)

lemma concat_regions:
  "requested (concat xss) = concat (map requested xss)" "released (concat xss) = concat (map released xss)"
  "devices_on (concat xss) = concat (map devices_on xss)" "devices_off (concat xss) = concat (map devices_off xss)"
  by (induction xss) simp_all

lemma concat_singles: "concat (map (\<lambda>x. if P x then [] else [x]) xs) = filter (\<lambda>x. \<not> P x) xs"
  by (induction xs) simp_all

text \<open>
  C24. Registering the ports of the table succeeds, and unregistering them undoes it: the regions released
  are the regions requested, the tty devices removed are those of the ports with an address, and every
  line is without a port again.
\<close>

theorem unregister_ports_undoes_register:
  assumes "unregistered drv lines"
  shows "\<exists>drv1 us drv2 vs. sunix_ser_register_ports drv m = Some (0, drv1, emits us m)
    \<and> sunix_ser_unregister_ports drv1 (emits us m) = Some (drv2, emits (us @ vs) m)
    \<and> released vs = requested us \<and> requested vs = [] \<and> released us = []
    \<and> devices_off vs = devices_on us \<and> devices_on us = filter (\<lambda>i. sp_iobase (rg_table drv ! i) \<noteq> 0) [0..<SNX_SER_TOTAL_MAX + 1]
    \<and> (\<exists>lines2. rg_state drv2 = Some lines2 \<and> (\<forall>l\<in>set lines2. dl_port l = None))"
proof -
  let ?n = "SNX_SER_TOTAL_MAX + 1" and ?tab = "rg_table drv"
  define us where "us = concat (map (\<lambda>i. register_events i (?tab ! i)) [0..<?n])"
  define drv1 where "drv1 = registered_upto ?n drv lines"
  define lines1 where "lines1 = ports_upto ?n (registered_line drv) lines"
  have reg: "sunix_ser_register_ports drv m = Some (0, drv1, emits us m)"
    unfolding sunix_ser_register_ports_def register_prefix [OF assms order_refl] by (simp add: us_def drv1_def)
  define vs where "vs = concat (map (\<lambda>i. unregister_events i (rg_table drv1 ! i)) [0..<?n])"
  have unreg: "sunix_ser_unregister_ports drv1 (emits us m) = Some (removed_upto ?n drv1 lines1, emits (us @ vs) m)"
    unfolding sunix_ser_unregister_ports_def unregister_prefix [OF registered_all [OF assms, folded drv1_def lines1_def] order_refl]
    by (simp add: vs_def)
  have len: "length ?tab = ?n" "length lines = ?n" using assms by (simp_all add: unregistered_def)
  have same: "sp_iobase (rg_table drv1 ! i) = sp_iobase (?tab ! i) \<and> region_of (rg_table drv1 ! i) = region_of (?tab ! i)" if "i < ?n" for i
    using that len by (simp add: drv1_def registered_upto_def registered_port_def region_of_def)
  have obs: "released vs = requested us" "devices_off vs = devices_on us"
    unfolding us_def vs_def concat_regions map_map comp_def region_events
    by (rule arg_cong [where f = concat], rule map_cong, simp, use same in simp)+
  moreover have "requested vs = []" "released us = []"
    unfolding us_def vs_def concat_regions map_map comp_def region_events by (simp_all add: concat_eq_Nil_conv)
  moreover have "devices_on us = filter (\<lambda>i. sp_iobase (?tab ! i) \<noteq> 0) [0..<?n]"
    unfolding us_def concat_regions map_map comp_def region_events by (rule concat_singles)
  moreover have "dl_port l = None" if "l \<in> set (ports_upto ?n (removed_line drv1) lines1)" for l
    using that same len assms
    by (auto simp: ports_upto_def lines1_def removed_line_def registered_line_def unregistered_def)
  ultimately show ?thesis using reg unreg
    by (intro exI [of _ drv1] exI [of _ us] exI [of _ "removed_upto ?n drv1 lines1"] exI [of _ vs]) (simp add: removed_upto_def)
qed

definition two_ports :: ser_reg where
  "two_ports = \<lparr>rg_nr = SNX_SER_TOTAL_MAX + 1, rg_state = Some (replicate (SNX_SER_TOTAL_MAX + 1) (init_line 250)), rg_tty = True,
     rg_table = [example_uart, example_uart\<lparr>sp_iobase := 0xd008\<rparr>] @ replicate (SNX_SER_TOTAL_MAX - 1) zero_ser_port\<rparr>"

theorem unregister_ports_undoes_register_witness:
  "\<exists>drv1 us drv2 vs. sunix_ser_register_ports two_ports idle_machine = Some (0, drv1, emits us idle_machine)
    \<and> sunix_ser_unregister_ports drv1 (emits us idle_machine) = Some (drv2, emits (us @ vs) idle_machine) \<and> released vs = requested us"
proof -
  have "unregistered two_ports (replicate (SNX_SER_TOTAL_MAX + 1) (init_line 250))"
    by (simp add: unregistered_def two_ports_def init_line_def)
  from unregister_ports_undoes_register [OF this] show ?thesis by blast
qed

section \<open>A port moved by setserial\<close>

definition quiet :: "machine \<Rightarrow> machine \<Rightarrow> bool" where
  "quiet m m' \<longleftrightarrow> requested (trace m') = requested (trace m) \<and> released (trace m') = released (trace m)"

lemma quiet_refl [simp]: "quiet m m"
  by (simp add: quiet_def)

lemma quiet_trans: "quiet m m1 \<Longrightarrow> quiet m1 m2 \<Longrightarrow> quiet m m2"
  by (simp add: quiet_def)

lemma quiet_regions [simp]:
  "requested (trace (uart_write r sp v m)) = requested (trace m)" "released (trace (uart_write r sp v m)) = released (trace m)"
  "requested (trace (snd (uart_read r sp m))) = requested (trace m)" "released (trace (snd (uart_read r sp m))) = released (trace m)"
  "requested (trace (emit WakeDelta m)) = requested (trace m)" "released (trace (emit WakeDelta m)) = released (trace m)"
  by (simp_all add: uart_write_def uart_read_def region_defs)

lemma quiet_uart [simp]: "quiet m (uart_write r sp v m') = quiet m m'" "quiet m (snd (uart_read r sp m')) = quiet m m'"
  "quiet m (emit WakeDelta m') = quiet m m'" "quiet (uart_write r sp v m) m' = quiet m m'"
  "quiet (snd (uart_read r sp m)) m' = quiet m m'" "quiet (emit WakeDelta m) m' = quiet m m'"
  by (simp_all add: quiet_def)

lemma quiet_read: "uart_read r sp m = (v, m') \<Longrightarrow> quiet m m'"
  using quiet_uart(2) [of m r sp m] by simp

lemma quiet_mctrl: "snx_ser_update_mctrl sp a b m = (sp', m') \<Longrightarrow> quiet m m'"
  by (auto simp: snx_ser_update_mctrl_def sunix_ser_set_mctrl_def uart_access Let_def)

lemma quiet_termios: "sunix_ser_set_termios HZ sp tm old m = Some (tm', sp', m') \<Longrightarrow> quiet m m'"
  by (auto simp: sunix_ser_set_termios_def sunix_ser_set_mctrl_def uart_access Let_def split: option.splits prod.splits)

lemma quiet_change_speed: "snx_ser_change_speed HZ sp old m = Some (sp', m') \<Longrightarrow> quiet m m'"
  by (auto simp: snx_ser_change_speed_def Let_def split: option.splits if_splits dest: quiet_termios)

lemma quiet_chip_startup: "sunix_ser_startup sp m = Some (r, sp', m') \<Longrightarrow> quiet m m'"
  by (auto simp: sunix_ser_startup_def drain_def clear_fifos_def uart_access Let_def split: if_splits prod.splits dest!: quiet_read)

lemma quiet_startup: "snx_ser_startup HZ alloc admin sp hw m = Some (r, sp', m') \<Longrightarrow> quiet m m'"
  by (auto simp: snx_ser_startup_def Let_def split: option.splits if_splits prod.splits
      dest!: quiet_chip_startup quiet_change_speed quiet_mctrl) (blast intro: quiet_trans)+

lemma quiet_shutdown: "snx_ser_shutdown sp m = Some (sp', m') \<Longrightarrow> quiet m m'"
  by (auto simp: snx_ser_shutdown_def sunix_ser_shutdown_def uart_access Let_def split: option.splits if_splits prod.splits
      dest!: quiet_mctrl quiet_read) (auto simp: quiet_def)

lemma quiet_check: "set_info_check env f c st m = Some (r, st', m') \<Longrightarrow> quiet m m'"
  by (auto simp: set_info_check_def Let_def split: option.splits if_splits dest: quiet_change_speed quiet_startup)

text \<open>
  C38. A privileged setserial that moves a port releases its old I/O region and requests none at the new
  address; taking the port away later releases the new region, which the driver never requested.
\<close>

theorem moved_port_releases_foreign_region:
  assumes "se_admin env" and "snx_ser_set_info env True ic ns st m = Some (r, st', m')" and "r \<noteq> - EBUSY"
    and "change_port ns (ss_port st)" and "sp_type (ss_port st) \<noteq> PORT_UNKNOWN" and "sp_iotype (ss_port st) = SNX_UPIO_PORT"
    and "ser_type ns \<noteq> PORT_UNKNOWN" and "ser_io_type ns = SNX_UPIO_PORT"
    and "rg_state drv = Some lines" and "line < length lines" and "dl_port (lines ! line) = Some i" and "i < length (rg_table drv)"
    and "rg_table drv ! i = ss_port st'"
  shows "\<exists>drv' m''. sunix_ser_unconfigure_port line drv m' = Some (drv', m'') \<and> requested (trace m'') = requested (trace m)
    \<and> released (trace m'') = released (trace m) @ [ucast (sp_iobase (ss_port st)), ucast (ser_port ns)]"
proof -
  let ?cw = "if ser_closing_wait ns = 65535 then SNX_USF_CLOSING_WAIT_NONE else ucast (ser_closing_wait ns)"
  obtain st1 m1 where 1: "set_info_admin ns (ic (ser_irq ns)) ?cw st m = Some (Inr (st1, m1))"
    "set_info_check env (sp_flags (ss_port st)) (sp_custom_divisor (ss_port st)) st1 m1 = Some (r, st', m')"
    using assms(1-3) by (auto simp: snx_ser_set_info_def Let_def split: option.splits sum.splits dest: set_info_admin_busy simp del: if_split)
  obtain sp2 m2 where 2: "snx_ser_shutdown (ss_port st) m = Some (sp2, m2)" "m1 = snd (set_info_move ns sp2 m2)"
    using 1(1) assms(4) by (auto simp: set_info_admin_def Let_def split: option.splits if_splits prod.splits)
  have q2: "quiet m m2" and s2: "same_setup (ss_port st) sp2" using quiet_shutdown [OF 2(1)] shutdown_setup [OF 2(1)] .
  have "requested (trace m1) = requested (trace m2)" "released (trace m1) = released (trace m2) @ [ucast (sp_iobase sp2)]"
    using assms(5,6) s2 2(2) by (simp_all add: set_info_move_def sunix_ser_release_io_def same_setup_def hw_setup_def)
  then have m': "requested (trace m') = requested (trace m)" "released (trace m') = released (trace m) @ [ucast (sp_iobase (ss_port st))]"
    using quiet_check [OF 1(2)] q2 s2 by (simp_all add: quiet_def same_setup_def hw_setup_def)
  from set_info_admin_result [OF 1(1)] obtain sp where sp: "st1 = set_info_all ns (ic (ser_irq ns)) ?cw (st\<lparr>ss_port := sp\<rparr>)"
    "sp_iobase sp = ser_port ns" "sp_type sp = ser_type ns" "sp_iotype sp = ser_io_type ns" by blast
  from set_info_check_keeps [OF 1(2)] obtain sp' where "st' = st1\<lparr>ss_port := sp'\<rparr>" "same_setup (ss_port st1) sp'" by blast
  then have port: "sp_iobase (ss_port st') = ser_port ns" "sp_type (ss_port st') = ser_type ns" "sp_iotype (ss_port st') = ser_io_type ns"
    using sp by (simp_all add: set_info_all_def same_setup_def hw_setup_def)
  show ?thesis
    using assms(7-13) port m'
    by (cases "dl_info (lines ! line)") (auto simp: sunix_ser_unconfigure_port_def sunix_ser_release_io_def Let_def)
qed

definition moving_env :: ser_env where
  "moving_env = admin_env\<lparr>se_alloc_page := False\<rparr>"

definition closed_state :: snx_ser_state where
  "closed_state = open_state\<lparr>ss_port := closed_line\<rparr>"

definition move_request :: serial_struct where
  "move_request = (snd (snx_ser_get_info True closed_state))\<lparr>ser_port := 0xe000\<rparr>"

lemmas closed_defs = closed_state_def open_state_def closed_line_def example_uart_def zero_ser_port_def

lemma move_request_change: "change_port move_request (ss_port closed_state)"
proof -
  have "ser_port move_request \<noteq> sp_iobase (ss_port closed_state)" by (simp add: move_request_def closed_defs)
  then show ?thesis using same_port by metis
qed

lemma move_runs: "\<exists>st' m'. snx_ser_set_info moving_env True id move_request closed_state idle_machine = Some (- ENOMEM, st', m')"
proof -
  let ?sp = "ss_port closed_state"
  let ?info = "example_info\<lparr>si_xmit := \<lparr>cb_buf = None, cb_head = 0, cb_tail = 0\<rparr>, si_flags := 0\<rparr>"
  have info: "sp_info ?sp = Some ?info" by (simp add: closed_defs)
  then have "snx_ser_shutdown ?sp m = Some (?sp, m)" for m by (simp add: snx_ser_shutdown_def)
  moreover have "sunix_ser_users closed_state = 1" by (simp add: sunix_ser_users_def info example_info_def) (simp add: closed_defs)
  moreover have "sp_type ?sp = 7" "ser_type move_request = 7" by (simp_all add: closed_defs move_request_def snx_ser_get_info_def Let_def)
  moreover have "se_admin moving_env" "\<not> se_alloc_page moving_env" by (simp_all add: moving_env_def admin_env_def)
  ultimately show ?thesis using move_request_change info
    by (simp add: snx_ser_set_info_def set_info_admin_def set_info_move_def set_info_all_def set_info_check_def snx_ser_startup_def
        upd_tty_def upd_info_def Let_def)
qed

theorem moved_port_releases_foreign_region_witness:
  "\<exists>st' m' drv' m''. snx_ser_set_info moving_env True id move_request closed_state idle_machine = Some (- ENOMEM, st', m')
    \<and> sunix_ser_unconfigure_port 0 \<lparr>rg_nr = 1, rg_state = Some [(init_line 250)\<lparr>dl_port := Some 0\<rparr>], rg_tty = True, rg_table = [ss_port st']\<rparr> m'
        = Some (drv', m'')
    \<and> requested (trace m'') = [] \<and> released (trace m'') = [0xd000, 0xe000]"
proof -
  obtain st' m' where run: "snx_ser_set_info moving_env True id move_request closed_state idle_machine = Some (- ENOMEM, st', m')"
    using move_runs by blast
  let ?drv = "\<lparr>rg_nr = 1, rg_state = Some [(init_line 250)\<lparr>dl_port := Some 0\<rparr>], rg_tty = True, rg_table = [ss_port st']\<rparr> :: ser_reg"
  have a: "se_admin moving_env" by (simp add: moving_env_def admin_env_def)
  have p: "sp_type (ss_port closed_state) = 7" "sp_iotype (ss_port closed_state) = 0" "sp_iobase (ss_port closed_state) = 0xd000"
    "ser_type move_request = 7" "ser_io_type move_request = 0" "ser_port move_request = 0xe000"
    by (simp_all add: closed_defs move_request_def snx_ser_get_info_def Let_def)
  from moved_port_releases_foreign_region [OF a run, where drv = ?drv and lines = "[(init_line 250)\<lparr>dl_port := Some 0\<rparr>]" and line = "0" and i = "0"]
  show ?thesis using run p move_request_change by (simp add: idle_machine_def region_defs)
qed

section \<open>The lines' tty ports\<close>

definition destroyed :: "nat \<Rightarrow> event list \<Rightarrow> nat" where
  "destroyed i es = length (filter (\<lambda>e. e = TtyPortDestroy i) es)"

text \<open>
  A driver that is registered has destroyed every line's tty port already, before a port is opened, and
  unregistering it destroys them again.
\<close>

lemma tty_ports_destroyed_twice:
  assumes "sunix_ser_register_driver HZ True TtyDriver 0 drv m = Some (0, drv1, m1)" and "i < rg_nr drv" and "trace m = []"
  shows "destroyed i (trace m1) = 1 \<and> destroyed i (trace (snd (sunix_ser_unregister_driver drv1 m1))) = 2"
proof -
  have one: "length (filter (\<lambda>e. e = TtyPortDestroy i) (map TtyPortDestroy [0..<n])) = (if i < n then 1 else 0)" for n
    by (induction n) auto
  have none: "filter (\<lambda>e. e = TtyPortDestroy i) (map TtyPortInit [0..<n]) = []" for n
    by (induction n) auto
  show ?thesis using assms one [of "rg_nr drv"] none [of "rg_nr drv"]
    by (auto simp: sunix_ser_register_driver_def sunix_ser_unregister_driver_def destroyed_def Let_def)
qed

end
