(* ===== verification/Snx_Parport.thy ===== *)
theory Snx_Parport
  imports Snx_Ports
begin

text \<open>
  The register level of a parallel port: the inline functions at the end of driver/snx_common.h
  and the static ones of driver/snx_parallel.c. The data, status and control registers
  (\<^verbatim>\<open>SNX_DATA\<close>, \<^verbatim>\<open>SNX_DSR\<close>, \<^verbatim>\<open>SNX_DCR\<close>) lie at \<^verbatim>\<open>base\<close>, the extended control register at
  \<^verbatim>\<open>base_hi + 2\<close>. The driver never reads the control register back in operation: it keeps a copy,
  \<open>pp_ctr\<close>, in the port's private data. \<open>ctr_shadow\<close> says the copy is what was last written, and
  every operation keeps it. The control bits are those of the kernel's linux/parport.h.
\<close>

section \<open>Parallel port registers\<close>

subsection \<open>The structs\<close>

abbreviation (input) PARPORT_CONTROL_STROBE :: u8 where "PARPORT_CONTROL_STROBE \<equiv> 0x1"
abbreviation (input) PARPORT_CONTROL_AUTOFD :: u8 where "PARPORT_CONTROL_AUTOFD \<equiv> 0x2"
abbreviation (input) PARPORT_CONTROL_INIT :: u8 where "PARPORT_CONTROL_INIT \<equiv> 0x4"
abbreviation (input) PARPORT_CONTROL_SELECT :: u8 where "PARPORT_CONTROL_SELECT \<equiv> 0x8"
abbreviation (input) PARPORT_STATUS_ERROR :: u8 where "PARPORT_STATUS_ERROR \<equiv> 0x8"
abbreviation (input) PARPORT_STATUS_SELECT :: u8 where "PARPORT_STATUS_SELECT \<equiv> 0x10"
abbreviation (input) PARPORT_STATUS_PAPEROUT :: u8 where "PARPORT_STATUS_PAPEROUT \<equiv> 0x20"
abbreviation (input) PARPORT_STATUS_BUSY :: u8 where "PARPORT_STATUS_BUSY \<equiv> 0x80"
abbreviation (input) PARPORT_IRQ_NONE :: int where "PARPORT_IRQ_NONE \<equiv> - 1"
abbreviation (input) PARPORT_MODE_PCSPP :: int where "PARPORT_MODE_PCSPP \<equiv> 1"

text \<open>
  A pointer to a \<^verbatim>\<open>snx_pardevice\<close> is a \<open>nat option\<close>, NULL being \<open>None\<close>. No code of the repository
  makes a port whose \<^verbatim>\<open>physport\<close> is another port, so \<^verbatim>\<open>p->physport\<close> is \<open>p\<close>. The operations table
  \<^verbatim>\<open>p->ops\<close> is the driver's own or, once the port is removed, \<^verbatim>\<open>sunix_dead_ops\<close>; a call through it
  is \<open>via_ops\<close>. The private data the port points to is part of it.
\<close>

datatype par_ops = Pc_ops | Dead_ops

record snx_parport_state =
  st_ctr :: u32
  st_ecr :: u32

record snx_parport =
  pt_base :: u64
  pt_base_hi :: u64
  pt_size :: u32
  pt_modes :: u32
  pt_irq :: int
  pt_number :: int
  pt_devices :: "nat option"
  pt_cad :: "nat option"
  pt_waithead :: "nat option"
  pt_waittail :: "nat option"
  pt_flags :: u32
  pt_mode :: int
  pt_phase :: int
  pt_ops :: par_ops
  pt_priv :: sunix_par_port
  pt_spintime :: int
  pt_ref_count :: int

definition SNX_DATA :: "snx_parport \<Rightarrow> ioaddr" where "SNX_DATA p = pt_base p + 0x0"
definition SNX_DSR :: "snx_parport \<Rightarrow> ioaddr" where "SNX_DSR p = pt_base p + 0x1"
definition SNX_DCR :: "snx_parport \<Rightarrow> ioaddr" where "SNX_DCR p = pt_base p + 0x2"
definition SNX_ECR :: "snx_parport \<Rightarrow> ioaddr" where "SNX_ECR p = pt_base_hi p + 0x2"

subsection \<open>Data, control and status\<close>

definition sunix_parport_pc_write_data :: "snx_parport \<Rightarrow> u8 \<Rightarrow> machine \<Rightarrow> machine" where
  "sunix_parport_pc_write_data p d m = outb d (SNX_DATA p) m"

definition sunix_parport_pc_read_data :: "snx_parport \<Rightarrow> machine \<Rightarrow> u8 \<times> machine" where
  "sunix_parport_pc_read_data p m = inb (SNX_DATA p) m"

definition sunix_parport_pc_read_status :: "snx_parport \<Rightarrow> machine \<Rightarrow> u8 \<times> machine" where
  "sunix_parport_pc_read_status p m = inb (SNX_DSR p) m"

text \<open>\<open>frob_ctr\<close> is \<^verbatim>\<open>__sunix_parport_pc_frob_control\<close>; its result is the new copy, \<open>pp_ctr\<close>.\<close>

definition frob_ctr :: "u8 \<Rightarrow> u8 \<Rightarrow> snx_parport \<times> machine \<Rightarrow> snx_parport \<times> machine" where
  "frob_ctr msk val s =
    (case s of (p, m) \<Rightarrow>
      let priv = pt_priv p; ctr = ((pp_ctr priv AND NOT msk) XOR val) AND pp_ctr_writable priv
      in (p\<lparr>pt_priv := priv\<lparr>pp_ctr := ctr\<rparr>\<rparr>, outb ctr (SNX_DCR p) m))"

definition sunix_parport_pc_data_reverse :: "snx_parport \<times> machine \<Rightarrow> snx_parport \<times> machine" where
  "sunix_parport_pc_data_reverse = frob_ctr 0x20 0x20"

definition sunix_parport_pc_data_forward :: "snx_parport \<times> machine \<Rightarrow> snx_parport \<times> machine" where
  "sunix_parport_pc_data_forward = frob_ctr 0x20 0x00"

definition control_lines :: u8 where
  "control_lines = PARPORT_CONTROL_STROBE OR PARPORT_CONTROL_AUTOFD OR PARPORT_CONTROL_INIT OR PARPORT_CONTROL_SELECT"

definition sunix_parport_pc_write_control :: "u8 \<Rightarrow> snx_parport \<times> machine \<Rightarrow> snx_parport \<times> machine" where
  "sunix_parport_pc_write_control d s =
    frob_ctr control_lines (d AND control_lines)
      (if d AND 0x20 \<noteq> 0 then sunix_parport_pc_data_reverse s else s)"

definition sunix_parport_pc_read_control :: "snx_parport \<Rightarrow> u8" where
  "sunix_parport_pc_read_control p = pp_ctr (pt_priv p) AND control_lines"

definition sunix_parport_pc_frob_control :: "u8 \<Rightarrow> u8 \<Rightarrow> snx_parport \<times> machine \<Rightarrow> snx_parport \<times> machine" where
  "sunix_parport_pc_frob_control msk val s =
    frob_ctr (msk AND control_lines) (val AND control_lines)
      (if msk AND 0x20 \<noteq> 0 then
         if val AND 0x20 \<noteq> 0 then sunix_parport_pc_data_reverse s else sunix_parport_pc_data_forward s
       else s)"

definition sunix_parport_pc_disable_irq :: "snx_parport \<times> machine \<Rightarrow> snx_parport \<times> machine" where
  "sunix_parport_pc_disable_irq = frob_ctr 0x10 0x00"

definition sunix_parport_pc_enable_irq :: "snx_parport \<times> machine \<Rightarrow> snx_parport \<times> machine" where
  "sunix_parport_pc_enable_irq = frob_ctr 0x10 0x10"

subsection \<open>The extended control register\<close>

abbreviation (input) ECR_MODE_MASK :: u8 where "ECR_MODE_MASK \<equiv> 0xe0"
abbreviation (input) ECR_SPP :: u8 where "ECR_SPP \<equiv> 0"

definition sunix_frob_econtrol :: "snx_parport \<Rightarrow> u8 \<Rightarrow> u8 \<Rightarrow> machine \<Rightarrow> machine" where
  "sunix_frob_econtrol p msk v m =
    (let (ectr, m1) = (if msk \<noteq> 0xff then inb (SNX_ECR p) m else (0, m))
     in outb ((ectr AND NOT msk) XOR v) (SNX_ECR p) m1)"

definition ECR_WRITE :: "snx_parport \<Rightarrow> u8 \<Rightarrow> machine \<Rightarrow> machine" where
  "ECR_WRITE p v m = sunix_frob_econtrol p 0xff v m"

definition sunix_frob_set_mode :: "snx_parport \<Rightarrow> u8 \<Rightarrow> machine \<Rightarrow> machine" where
  "sunix_frob_set_mode p mode m = sunix_frob_econtrol p ECR_MODE_MASK (push_bit 5 mode) m"

definition sunix_clear_epp_timeout :: "snx_parport \<Rightarrow> machine \<Rightarrow> bool \<times> machine" where
  "sunix_clear_epp_timeout p m =
    (let (dsr, m1) = sunix_parport_pc_read_status p m in
     if dsr AND 0x01 = 0 then (True, m1)
     else
      (let (_, m2) = sunix_parport_pc_read_status p m1;
           (dsr, m3) = sunix_parport_pc_read_status p m2;
           m4 = outb (dsr OR 0x01) (SNX_DSR p) m3;
           m5 = outb (dsr AND 0xfe) (SNX_DSR p) m4;
           (dsr, m6) = sunix_parport_pc_read_status p m5
       in (dsr AND 0x01 = 0, m6)))"

subsection \<open>The state a device keeps of the port\<close>

definition sunix_parport_pc_init_state :: "bool \<Rightarrow> snx_parport \<Rightarrow> snx_parport_state" where
  "sunix_parport_pc_init_state irq_func p =
    \<lparr>st_ctr = (if irq_func \<and> pt_irq p \<noteq> PARPORT_IRQ_NONE then 0xc OR 0x10 else 0xc), st_ecr = 0x34\<rparr>"

definition sunix_parport_pc_save_state :: "snx_parport \<Rightarrow> snx_parport_state \<Rightarrow> machine \<Rightarrow> snx_parport_state \<times> machine" where
  "sunix_parport_pc_save_state p s m =
    (let s1 = s\<lparr>st_ctr := ucast (pp_ctr (pt_priv p))\<rparr> in
     if pp_ecr (pt_priv p) \<noteq> 0
     then (let (v, m1) = inb (SNX_ECR p) m in (s1\<lparr>st_ecr := ucast v\<rparr>, m1))
     else (s1, m))"

definition sunix_parport_pc_restore_state :: "snx_parport_state \<Rightarrow> snx_parport \<times> machine \<Rightarrow> snx_parport \<times> machine" where
  "sunix_parport_pc_restore_state s pm =
    (case pm of (p, m) \<Rightarrow>
      let priv = pt_priv p;
          c = ucast (st_ctr s AND ucast (pp_ctr_writable priv));
          m1 = outb c (SNX_DCR p) m
      in (p\<lparr>pt_priv := priv\<lparr>pp_ctr := c\<rparr>\<rparr>,
          if pp_ecr priv \<noteq> 0 then ECR_WRITE p (ucast (st_ecr s)) m1 else m1))"

text \<open>The calls through \<^verbatim>\<open>port->ops\<close>: the dead operations do nothing.\<close>

definition ops_save_state :: "snx_parport \<Rightarrow> snx_parport_state \<Rightarrow> machine \<Rightarrow> snx_parport_state \<times> machine" where
  "ops_save_state p s m = (case pt_ops p of Pc_ops \<Rightarrow> sunix_parport_pc_save_state p s m | Dead_ops \<Rightarrow> (s, m))"

definition ops_restore_state :: "snx_parport_state \<Rightarrow> snx_parport \<times> machine \<Rightarrow> snx_parport \<times> machine" where
  "ops_restore_state s pm =
    (case pt_ops (fst pm) of Pc_ops \<Rightarrow> sunix_parport_pc_restore_state s pm | Dead_ops \<Rightarrow> pm)"

definition ops_call :: "(snx_parport \<times> machine \<Rightarrow> snx_parport \<times> machine) \<Rightarrow> snx_parport \<times> machine \<Rightarrow> snx_parport \<times> machine" where
  "ops_call f pm = (case pt_ops (fst pm) of Pc_ops \<Rightarrow> f pm | Dead_ops \<Rightarrow> pm)"

subsection \<open>Finding out what the port is\<close>

definition sunix_parport_SPP_supported :: "snx_parport \<Rightarrow> machine \<Rightarrow> int \<times> machine" where
  "sunix_parport_SPP_supported p m =
    (let (_, m1) = sunix_clear_epp_timeout p m;
         m2 = outb 0xc (SNX_DCR p) m1;
         (dcr, m3) = inb (SNX_DCR p) m2;
         (found, m4) =
           (if dcr AND 0xf = 0xc then
             (let m4 = outb 0xe (SNX_DCR p) m3; (dcr, m5) = inb (SNX_DCR p) m4; m6 = outb 0xc (SNX_DCR p) m5
              in (dcr AND 0xf = 0xe, m6))
            else (False, m3))
     in
      if found then (PARPORT_MODE_PCSPP, m4)
      else
       (let (d, m6) = sunix_parport_pc_read_data p (sunix_parport_pc_write_data p 0xaa m4) in
        if d = 0xaa then
         (let (d, m8) = sunix_parport_pc_read_data p (sunix_parport_pc_write_data p 0x55 m6)
          in (if d = 0x55 then PARPORT_MODE_PCSPP else 0, m8))
        else (0, m6)))"

text \<open>The second half of the check, once the first found two different registers.\<close>

definition ECR_check :: "snx_parport \<Rightarrow> machine \<Rightarrow> bool \<times> snx_parport \<times> machine" where
  "ECR_check p m =
    (let (e, m1) = inb (SNX_ECR p) m in
     if e AND 0x3 \<noteq> 0x1 then (False, p, outb 0xc (SNX_DCR p) m1)
     else
      (let (e, m2) = inb (SNX_ECR p) (ECR_WRITE p 0x34 m1) in
       if e \<noteq> 0x35 then (False, p, outb 0xc (SNX_DCR p) m2)
       else
        (True, p\<lparr>pt_priv := (pt_priv p)\<lparr>pp_ecr := 1\<rparr>\<rparr>,
         sunix_frob_set_mode p ECR_SPP (outb 0xc (SNX_DCR p) m2))))"

definition sunix_parport_ECR_present :: "snx_parport \<times> machine \<Rightarrow> bool \<times> snx_parport \<times> machine" where
  "sunix_parport_ECR_present pm =
    (case pm of (p, m) \<Rightarrow>
      let m1 = outb 0xc (SNX_DCR p) m;
          (e, m2) = inb (SNX_ECR p) m1;
          (same, m3) =
            (if e AND 0x3 = 0xc AND 0x3 then
              (let m3 = outb (0xc XOR 0x2) (SNX_DCR p) m2;
                   (r, m4) = inb (SNX_DCR p) m3;
                   (e, m5) = inb (SNX_ECR p) m4
               in (e AND 0x2 = r AND 0x2, m5))
             else (False, m2))
      in if same then (False, p, outb 0xc (SNX_DCR p) m3) else ECR_check p m3)"

section \<open>The copy of the control register\<close>

text \<open>\<open>same_port p p'\<close>: nothing but the copies of registers differs.\<close>

definition same_port :: "snx_parport \<Rightarrow> snx_parport \<Rightarrow> bool" where
  "same_port p p' \<longleftrightarrow>
     (\<exists>c. p' = p\<lparr>pt_priv := (pt_priv p)\<lparr>pp_ctr := c\<rparr>\<rparr>)"

definition ctr_shadow :: "snx_parport \<Rightarrow> machine \<Rightarrow> bool" where
  "ctr_shadow p m \<longleftrightarrow>
     (\<exists>os. outs_at (SNX_DCR p) (trace m) = os @ [pp_ctr (pt_priv p)])
     \<and> pp_ctr (pt_priv p) AND NOT (pp_ctr_writable (pt_priv p)) = 0"

lemma port_regs_distinct [simp]:
  "SNX_DATA p \<noteq> SNX_DCR p" "SNX_DCR p \<noteq> SNX_DATA p" "SNX_DSR p \<noteq> SNX_DCR p" "SNX_DCR p \<noteq> SNX_DSR p"
  "SNX_DATA p \<noteq> SNX_DSR p" "SNX_DSR p \<noteq> SNX_DATA p"
  by (simp_all add: SNX_DATA_def SNX_DCR_def SNX_DSR_def)

lemma regs_ctr [simp]:
  "SNX_DATA (p\<lparr>pt_priv := q\<rparr>) = SNX_DATA p" "SNX_DCR (p\<lparr>pt_priv := q\<rparr>) = SNX_DCR p"
  "SNX_DSR (p\<lparr>pt_priv := q\<rparr>) = SNX_DSR p" "SNX_ECR (p\<lparr>pt_priv := q\<rparr>) = SNX_ECR p"
  by (simp_all add: SNX_DATA_def SNX_DCR_def SNX_DSR_def SNX_ECR_def)

lemma same_port_refl [simp]: "same_port p p"
  unfolding same_port_def by (rule exI [of _ "pp_ctr (pt_priv p)"]) simp

lemma same_port_trans: "same_port p q \<Longrightarrow> same_port q r \<Longrightarrow> same_port p r"
  by (auto simp: same_port_def)

lemma same_portD:
  assumes "same_port p p'"
  shows "SNX_DATA p' = SNX_DATA p" "SNX_DCR p' = SNX_DCR p" "SNX_DSR p' = SNX_DSR p" "SNX_ECR p' = SNX_ECR p"
    "pp_ctr_writable (pt_priv p') = pp_ctr_writable (pt_priv p)" "pp_ecr (pt_priv p') = pp_ecr (pt_priv p)"
    "pt_cad p' = pt_cad p" "pt_waithead p' = pt_waithead p" "pt_waittail p' = pt_waittail p"
    "pt_ops p' = pt_ops p" "pt_irq p' = pt_irq p" "pt_devices p' = pt_devices p" "pt_phase p' = pt_phase p"
    "pt_mode p' = pt_mode p" "pt_spintime p' = pt_spintime p"
  using assms by (auto simp: same_port_def)

text \<open>What one write of the control register does.\<close>

definition frob_value :: "u8 \<Rightarrow> u8 \<Rightarrow> snx_parport \<Rightarrow> u8" where
  "frob_value msk val p = ((pp_ctr (pt_priv p) AND NOT msk) XOR val) AND pp_ctr_writable (pt_priv p)"

lemma frob_ctr_eq:
  "frob_ctr msk val (p, m) =
     (p\<lparr>pt_priv := (pt_priv p)\<lparr>pp_ctr := frob_value msk val p\<rparr>\<rparr>, outb (frob_value msk val p) (SNX_DCR p) m)"
  by (simp add: frob_ctr_def frob_value_def Let_def)

lemma same_port_frob: "same_port p (fst (frob_ctr msk val (p, m)))"
  by (auto simp: frob_ctr_eq same_port_def)

lemma and_and_not: "(x AND w) AND NOT w = (0 :: u8)"
  by (rule bit_word_eqI) (simp add: bit_simps)

lemma ctr_shadow_frob: "case frob_ctr msk val (p, m) of (p', m') \<Rightarrow> ctr_shadow p' m'"
  by (simp add: frob_ctr_eq ctr_shadow_def frob_value_def and_and_not)

text \<open>
  \<open>reg_step\<close>: an operation on the port keeps everything but the copy, keeps the copy true, adds to
  the history, and writes no bit of the control register that is not writable.
\<close>

definition writes_within :: "snx_parport \<Rightarrow> event list \<Rightarrow> bool" where
  "writes_within p ts \<longleftrightarrow> (\<forall>v\<in>set (outs_at (SNX_DCR p) ts). v AND NOT (pp_ctr_writable (pt_priv p)) = 0)"

lemma writes_within_append [simp]: "writes_within p (xs @ ys) \<longleftrightarrow> writes_within p xs \<and> writes_within p ys"
  by (auto simp: writes_within_def)

lemma writes_within_same: "same_port p p' \<Longrightarrow> writes_within p' ts = writes_within p ts"
  by (simp add: writes_within_def same_portD)

definition reg_step :: "(snx_parport \<times> machine \<Rightarrow> snx_parport \<times> machine) \<Rightarrow> bool" where
  "reg_step f \<longleftrightarrow>
     (\<forall>p m p' m'. f (p, m) = (p', m') \<longrightarrow> same_port p p' \<and> (ctr_shadow p m \<longrightarrow> ctr_shadow p' m')
       \<and> (\<exists>ts. trace m' = trace m @ ts \<and> writes_within p ts))"

lemma reg_stepI:
  assumes "\<And>p m p' m'. f (p, m) = (p', m') \<Longrightarrow> same_port p p'"
    and "\<And>p m p' m'. f (p, m) = (p', m') \<Longrightarrow> ctr_shadow p m \<Longrightarrow> ctr_shadow p' m'"
    and "\<And>p m p' m'. f (p, m) = (p', m') \<Longrightarrow> \<exists>ts. trace m' = trace m @ ts \<and> writes_within p ts"
  shows "reg_step f"
  using assms unfolding reg_step_def by blast

lemma reg_stepD:
  assumes "reg_step f" and "f (p, m) = (p', m')"
  shows "same_port p p'" "ctr_shadow p m \<Longrightarrow> ctr_shadow p' m'" "\<exists>ts. trace m' = trace m @ ts \<and> writes_within p ts"
  using assms unfolding reg_step_def by blast+

lemma reg_step_comp:
  assumes f: "reg_step f" and g: "reg_step g"
  shows "reg_step (\<lambda>s. g (f s))"
proof (rule reg_stepI)
  fix p m p' m' assume e: "g (f (p, m)) = (p', m')"
  obtain p1 m1 where 1: "f (p, m) = (p1, m1)" by (cases "f (p, m)")
  have 2: "g (p1, m1) = (p', m')" using e 1 by simp
  note D1 = reg_stepD [OF f 1] and D2 = reg_stepD [OF g 2]
  show "same_port p p'" using D1(1) D2(1) by (rule same_port_trans)
  show "ctr_shadow p' m'" if "ctr_shadow p m" using D1(2) [OF that] by (rule D2(2))
  show "\<exists>ts. trace m' = trace m @ ts \<and> writes_within p ts"
    using D1(3) D2(3) writes_within_same [OF D1(1)] by (metis append.assoc writes_within_append)
qed

lemma reg_step_id [simp]: "reg_step (\<lambda>s. s)"
  by (auto simp: reg_step_def writes_within_def)

lemma reg_step_if: "reg_step f \<Longrightarrow> reg_step g \<Longrightarrow> reg_step (\<lambda>s. if b then f s else g s)"
  by (cases b) simp_all

lemma reg_step_frob: "reg_step (frob_ctr msk val)"
proof (rule reg_stepI)
  fix p m p' m' assume e: "frob_ctr msk val (p, m) = (p', m')"
  show "same_port p p'" using same_port_frob [of p msk val m] e by simp
  show "ctr_shadow p' m'" using ctr_shadow_frob [of msk val p m] e by simp
  have "trace m' = trace m @ [Out (SNX_DCR p) (frob_value msk val p)]" using e by (auto simp: frob_ctr_eq)
  moreover have "writes_within p [Out (SNX_DCR p) (frob_value msk val p)]"
    by (simp add: writes_within_def frob_value_def and_and_not)
  ultimately show "\<exists>ts. trace m' = trace m @ ts \<and> writes_within p ts" by blast
qed

text \<open>An operation that does not touch the control register.\<close>

lemma reg_step_events:
  assumes "\<And>p m. \<exists>ts. trace (f p m) = trace m @ ts \<and> outs_at (SNX_DCR p) ts = []"
  shows "reg_step (\<lambda>s. (fst s, f (fst s) (snd s)))"
proof (rule reg_stepI)
  fix p m p' m' assume e: "(fst (p, m), f (fst (p, m)) (snd (p, m))) = (p', m')"
  obtain ts where ts: "trace (f p m) = trace m @ ts" "outs_at (SNX_DCR p) ts = []" using assms by blast
  show "same_port p p'" using e by auto
  show "ctr_shadow p' m'" if "ctr_shadow p m" using that e ts by (auto simp: ctr_shadow_def)
  show "\<exists>ts. trace m' = trace m @ ts \<and> writes_within p ts" using e ts by (auto simp: writes_within_def)
qed

lemma reg_step_control:
  "reg_step sunix_parport_pc_data_reverse" "reg_step sunix_parport_pc_data_forward"
  "reg_step (sunix_parport_pc_write_control d)" "reg_step (sunix_parport_pc_frob_control msk val)"
  "reg_step sunix_parport_pc_enable_irq" "reg_step sunix_parport_pc_disable_irq"
proof -
  show r: "reg_step sunix_parport_pc_data_reverse" and f: "reg_step sunix_parport_pc_data_forward"
    by (simp_all add: sunix_parport_pc_data_reverse_def sunix_parport_pc_data_forward_def reg_step_frob)
  show "reg_step sunix_parport_pc_enable_irq" "reg_step sunix_parport_pc_disable_irq"
    by (simp_all add: sunix_parport_pc_enable_irq_def sunix_parport_pc_disable_irq_def reg_step_frob)
  show "reg_step (sunix_parport_pc_write_control d)"
    unfolding sunix_parport_pc_write_control_def
    by (rule reg_step_comp [OF _ reg_step_frob]) (intro reg_step_if r reg_step_id)
  show "reg_step (sunix_parport_pc_frob_control msk val)"
    unfolding sunix_parport_pc_frob_control_def
    by (rule reg_step_comp [OF _ reg_step_frob]) (intro reg_step_if r f reg_step_id)
qed


subsection \<open>Any sequence of operations\<close>

datatype ctl_op =
    WriteData u8 | ReadData | ReadStatus | WriteControl u8 | FrobControl u8 u8
  | DataForward | DataReverse | EnableIrq | DisableIrq

fun ctl_step :: "ctl_op \<Rightarrow> snx_parport \<times> machine \<Rightarrow> snx_parport \<times> machine" where
  "ctl_step (WriteData d) = (\<lambda>s. (fst s, sunix_parport_pc_write_data (fst s) d (snd s)))"
| "ctl_step ReadData = (\<lambda>s. (fst s, snd (sunix_parport_pc_read_data (fst s) (snd s))))"
| "ctl_step ReadStatus = (\<lambda>s. (fst s, snd (sunix_parport_pc_read_status (fst s) (snd s))))"
| "ctl_step (WriteControl d) = sunix_parport_pc_write_control d"
| "ctl_step (FrobControl msk val) = sunix_parport_pc_frob_control msk val"
| "ctl_step DataForward = sunix_parport_pc_data_forward"
| "ctl_step DataReverse = sunix_parport_pc_data_reverse"
| "ctl_step EnableIrq = sunix_parport_pc_enable_irq"
| "ctl_step DisableIrq = sunix_parport_pc_disable_irq"

lemma reg_step_data:
  "reg_step (\<lambda>s. (fst s, sunix_parport_pc_write_data (fst s) d (snd s)))"
  "reg_step (\<lambda>s. (fst s, snd (sunix_parport_pc_read_data (fst s) (snd s))))"
  "reg_step (\<lambda>s. (fst s, snd (sunix_parport_pc_read_status (fst s) (snd s))))"
  by (rule reg_step_events;
      simp add: sunix_parport_pc_write_data_def sunix_parport_pc_read_data_def sunix_parport_pc_read_status_def)+

lemma reg_step_ctl: "reg_step (ctl_step op)"
  by (cases op) (simp_all add: reg_step_control reg_step_data)

lemma reg_step_fold: "reg_step (fold ctl_step ops)"
proof (induction ops)
  case Nil
  then show ?case using reg_step_id by (simp add: id_def)
next
  case (Cons op ops)
  show ?case using reg_step_comp [OF reg_step_ctl [of op] Cons] by (simp add: comp_def)
qed


subsection \<open>A port for examples\<close>

text \<open>An LPT1-like port after its control register was set, and hardware that remembers writes.\<close>

definition example_par :: snx_parport where
  "example_par = \<lparr>pt_base = 0x378, pt_base_hi = 0x778, pt_size = 3, pt_modes = 1, pt_irq = - 1, pt_number = 2,
     pt_devices = None, pt_cad = None, pt_waithead = None, pt_waittail = None, pt_flags = 0, pt_mode = 256,
     pt_phase = 1, pt_ops = Pc_ops, pt_priv = zero_par_port\<lparr>pp_ctr := 0xc, pp_ctr_writable := NOT 0x10\<rparr>,
     pt_spintime = 500, pt_ref_count = 1\<rparr>"

definition echo_machine :: machine where
  "echo_machine = idle_machine\<lparr>m_in := \<lambda>ts a. last (0 # outs_at a ts),
     trace := [Out (SNX_DCR example_par) 0xc]\<rparr>"

lemma example_par_shadow: "ctr_shadow example_par echo_machine"
  by (simp add: ctr_shadow_def echo_machine_def example_par_def zero_par_port_def SNX_DCR_def)

subsection \<open>The control lines\<close>

lemma bit4_within: "w AND 0x10 = 0 \<Longrightarrow> v AND NOT w = 0 \<Longrightarrow> v AND 0x10 = (0 :: u8)"
  by (auto simp: bit_eq_iff bit_simps)

text \<open>
  C32. Whatever sequence of register operations runs, the driver's copy of the control register is
  the value last written to it; and as long as the interrupt bit is not among the writable bits,
  which is how \<open>sunix_parport_pc_probe_port\<close> leaves it, no operation sets it: enabling the
  interrupt has no effect.
\<close>

theorem control_register_tracked:
  assumes "ctr_shadow p m" and "fold ctl_step ops (p, m) = (p', m')"
  shows "ctr_shadow p' m' \<and> (\<exists>ts. trace m' = trace m @ ts
     \<and> (pp_ctr_writable (pt_priv p) AND 0x10 = 0 \<longrightarrow> (\<forall>v\<in>set (outs_at (SNX_DCR p) ts). v AND 0x10 = 0)))"
proof -
  note D = reg_stepD [OF reg_step_fold assms(2)]
  obtain ts where ts: "trace m' = trace m @ ts" "writes_within p ts" using D(3) by blast
  then show ?thesis using D(2) [OF assms(1)] by (auto simp: writes_within_def intro: bit4_within)
qed

theorem control_register_tracked_witness:
  "case fold ctl_step [WriteControl 0x2c, EnableIrq, WriteData 7] (example_par, echo_machine) of (p', m') \<Rightarrow> ctr_shadow p' m'"
  using control_register_tracked [OF example_par_shadow, of "[WriteControl 0x2c, EnableIrq, WriteData 7]"]
  by (auto split: prod.splits)

lemma lines_word:
  assumes "c AND NOT w = 0"
  shows "(((c AND NOT control_lines) XOR (d AND control_lines)) AND w) AND control_lines = d AND control_lines AND w"
    "(((c AND NOT control_lines) XOR (d AND control_lines)) AND w) AND 0x10 = c AND (0x10 :: u8)"
    "(((c AND NOT control_lines) XOR (d AND control_lines)) AND w) AND 0x20 = c AND (0x20 :: u8)"
proof -
  have b: "bit c n \<Longrightarrow> n < 8 \<Longrightarrow> bit w n" for n
    using assms by (auto simp: bit_eq_iff bit_simps)
  show "(((c AND NOT control_lines) XOR (d AND control_lines)) AND w) AND control_lines = d AND control_lines AND w"
    by (rule bit_word_eqI) (auto simp: bit_simps)
  have cl: "control_lines = 0x0f" by (simp add: control_lines_def)
  have n: "\<not> bit (0x0f :: u8) n" if "bit (0x10 :: u8) n \<or> bit (0x20 :: u8) n" "n < 8" for n
    using that by (auto simp: less_Suc_eq numeral_nat bit_numeral_rec)
  show "(((c AND NOT control_lines) XOR (d AND control_lines)) AND w) AND 0x10 = c AND (0x10 :: u8)"
    unfolding cl by (rule bit_word_eqI) (use b n in \<open>auto simp: bit_simps\<close>)
  show "(((c AND NOT control_lines) XOR (d AND control_lines)) AND w) AND 0x20 = c AND (0x20 :: u8)"
    unfolding cl by (rule bit_word_eqI) (use b n in \<open>auto simp: bit_simps\<close>)
qed

lemma reverse_value:
  "(((c AND NOT 0x20) XOR 0x20) AND w) AND NOT w = (0 :: u8)"
  "c AND NOT w = 0 \<Longrightarrow> (((c AND NOT 0x20) XOR 0x20) AND w) AND 0x10 = c AND (0x10 :: u8)"
  "(((c AND NOT 0x20) XOR 0x20) AND w) AND 0x20 = w AND (0x20 :: u8)"
proof -
  show "(((c AND NOT 0x20) XOR 0x20) AND w) AND NOT w = 0" by (rule and_and_not)
  have n: "\<not> bit (0x20 :: u8) n" if "bit (0x10 :: u8) n" "n < 8" for n
    using that by (auto simp: less_Suc_eq numeral_nat bit_numeral_rec)
  show "(((c AND NOT 0x20) XOR 0x20) AND w) AND 0x10 = c AND (0x10 :: u8)" if "c AND NOT w = 0"
  proof -
    have b: "bit c n \<Longrightarrow> n < 8 \<Longrightarrow> bit w n" for n using that by (auto simp: bit_eq_iff bit_simps)
    show ?thesis by (rule bit_word_eqI) (use b n in \<open>auto simp: bit_simps\<close>)
  qed
  show "(((c AND NOT 0x20) XOR 0x20) AND w) AND 0x20 = w AND (0x20 :: u8)"
    by (rule bit_word_eqI) (auto simp: bit_simps)
qed

text \<open>
  Writing the control lines: the four lines take the values asked for (those that are
  writable), the interrupt bit stays, and the direction turns to reverse when bit 5 is set and
  stays otherwise.
\<close>

theorem write_control_drives_lines:
  assumes "ctr_shadow p m" and "sunix_parport_pc_write_control d (p, m) = (p', m')"
  shows "sunix_parport_pc_read_control p' = d AND control_lines AND pp_ctr_writable (pt_priv p)
    \<and> pp_ctr (pt_priv p') AND 0x10 = pp_ctr (pt_priv p) AND 0x10
    \<and> pp_ctr (pt_priv p') AND 0x20
        = (if d AND 0x20 \<noteq> 0 then pp_ctr_writable (pt_priv p) AND 0x20 else pp_ctr (pt_priv p) AND 0x20)
    \<and> last (outs_at (SNX_DCR p) (trace m')) = pp_ctr (pt_priv p')"
proof -
  have w: "pp_ctr (pt_priv p) AND NOT (pp_ctr_writable (pt_priv p)) = 0" using assms(1) by (simp add: ctr_shadow_def)
  have sh: "ctr_shadow p' m'" and same: "same_port p p'" using reg_stepD [OF reg_step_control(3) assms(2)] assms(1) by auto
  have l: "last (outs_at (SNX_DCR p) (trace m')) = pp_ctr (pt_priv p')"
    using sh same_portD(2) [OF same] by (auto simp: ctr_shadow_def)
  show ?thesis
  proof (cases "d AND 0x20 = 0")
    case True
    then have "p' = p\<lparr>pt_priv := (pt_priv p)\<lparr>pp_ctr := frob_value control_lines (d AND control_lines) p\<rparr>\<rparr>"
      using assms(2) by (simp add: sunix_parport_pc_write_control_def frob_ctr_eq)
    then show ?thesis
      using lines_word [OF w] l True by (simp add: sunix_parport_pc_read_control_def frob_value_def)
  next
    case False
    then have "p' = p\<lparr>pt_priv := (pt_priv p)\<lparr>pp_ctr := frob_value control_lines (d AND control_lines)
        (p\<lparr>pt_priv := (pt_priv p)\<lparr>pp_ctr := frob_value 0x20 0x20 p\<rparr>\<rparr>)\<rparr>\<rparr>"
      using assms(2) by (simp add: sunix_parport_pc_write_control_def sunix_parport_pc_data_reverse_def frob_ctr_eq)
    then show ?thesis
      using lines_word [OF reverse_value(1)] reverse_value(2) [OF w] reverse_value(3) l False
      by (simp add: sunix_parport_pc_read_control_def frob_value_def)
  qed
qed

theorem write_control_drives_lines_witness:
  "sunix_parport_pc_read_control (fst (sunix_parport_pc_write_control 0x2d (example_par, echo_machine))) = 0xd"
proof -
  obtain p' m' where e: "sunix_parport_pc_write_control 0x2d (example_par, echo_machine) = (p', m')" by fastforce
  have "pp_ctr_writable (pt_priv example_par) = NOT 0x10" by (simp add: example_par_def)
  then show ?thesis using write_control_drives_lines [OF example_par_shadow e] e by (simp add: control_lines_def)
qed

subsection \<open>Saving and restoring\<close>

lemma save_state_eq:
  "sunix_parport_pc_save_state p s m = (s', m') \<Longrightarrow>
     st_ctr s' = ucast (pp_ctr (pt_priv p))
     \<and> (if pp_ecr (pt_priv p) \<noteq> 0 then (\<exists>v. st_ecr s' = ucast v \<and> trace m' = trace m @ [In (SNX_ECR p) v])
        else st_ecr s' = st_ecr s \<and> m' = m)"
  by (auto simp: sunix_parport_pc_save_state_def inb_def Let_def split: if_splits)

lemma restored_ctr:
  "ucast (s AND ucast w :: u32) = (ucast s AND w :: u8)"
  by (rule bit_word_eqI) (simp add: bit_simps)

lemma within_and: "c AND NOT w = 0 \<Longrightarrow> c AND w = (c :: u8)"
proof (rule bit_word_eqI)
  fix n assume "c AND NOT w = 0" "n < LENGTH(8)"
  then show "bit (c AND w) n = bit c n" by (auto simp: bit_eq_iff bit_simps)
qed

lemma restore_state_eq:
  "sunix_parport_pc_restore_state s (p, m) = (p', m') \<Longrightarrow>
     p' = p\<lparr>pt_priv := (pt_priv p)\<lparr>pp_ctr := ucast (st_ctr s) AND pp_ctr_writable (pt_priv p)\<rparr>\<rparr>
     \<and> trace m' = trace m @ Out (SNX_DCR p) (ucast (st_ctr s) AND pp_ctr_writable (pt_priv p)) #
         (if pp_ecr (pt_priv p) \<noteq> 0 then [Out (SNX_ECR p) (ucast (st_ecr s))] else [])"
  by (auto simp: sunix_parport_pc_restore_state_def restored_ctr Let_def ECR_WRITE_def sunix_frob_econtrol_def
      split: if_splits)

text \<open>
  What one device saves, a later restore on the same port writes back, however the port was
  used in between: the control register and its copy get the value they had at the save, and
  the extended control register, where the port has one, the value read at the save.
\<close>

theorem restore_undoes_save:
  assumes "ctr_shadow p m" and "sunix_parport_pc_save_state p s m = (s', m')"
    and "same_port p q" and "sunix_parport_pc_restore_state s' (q, n) = (q', n')"
  shows "q' = p \<and> (\<exists>ts. trace n' = trace n @ ts \<and> outs_at (SNX_DCR p) (take 1 ts) = [pp_ctr (pt_priv p)]
     \<and> (if pp_ecr (pt_priv p) \<noteq> 0
        then \<exists>v. trace m' = trace m @ [In (SNX_ECR p) v] \<and> drop 1 ts = [Out (SNX_ECR p) v]
        else drop 1 ts = []))"
proof -
  note w = within_and [of "pp_ctr (pt_priv p)" "pp_ctr_writable (pt_priv p)"]
  have c: "ucast (st_ctr s') AND pp_ctr_writable (pt_priv q) = pp_ctr (pt_priv p)"
    using save_state_eq [OF assms(2)] w assms(1) same_portD(5) [OF assms(3)] by (simp add: ctr_shadow_def)
  have q: "q' = p" using restore_state_eq [OF assms(4)] c assms(3) by (auto simp: same_port_def)
  show ?thesis
    using restore_state_eq [OF assms(4)] save_state_eq [OF assms(2)] c same_portD(2,4,6) [OF assms(3)] q
    by (auto split: if_splits)
qed

theorem restore_undoes_save_witness:
  "\<exists>q'. fst (sunix_parport_pc_restore_state \<lparr>st_ctr = 0xc, st_ecr = 0\<rparr>
           (example_par\<lparr>pt_priv := (pt_priv example_par)\<lparr>pp_ctr := 1\<rparr>\<rparr>, idle_machine)) = q' \<and> q' = example_par"
proof -
  have s: "sunix_parport_pc_save_state example_par \<lparr>st_ctr = 0, st_ecr = 0\<rparr> echo_machine
      = (\<lparr>st_ctr = 0xc, st_ecr = 0\<rparr>, echo_machine)"
    by (simp add: sunix_parport_pc_save_state_def example_par_def zero_par_port_def)
  have "same_port example_par (example_par\<lparr>pt_priv := (pt_priv example_par)\<lparr>pp_ctr := 1\<rparr>\<rparr>)"
    unfolding same_port_def by (rule exI) (rule refl)
  then show ?thesis using restore_undoes_save [OF example_par_shadow s] by (metis prod.collapse)
qed

subsection \<open>Detecting a port\<close>

text \<open>
  Hardware whose control register reads back its low four bits, and a bus on which nothing
  answers (every read gives \<^verbatim>\<open>0xff\<close>).
\<close>

definition dcr_reads_back :: "snx_parport \<Rightarrow> machine \<Rightarrow> bool" where
  "dcr_reads_back p m \<longleftrightarrow>
     (\<forall>ts v. m_in m (ts @ [Out (SNX_DCR p) v]) (SNX_DCR p) AND 0xf = v AND 0xf)"

definition floating_bus :: "machine \<Rightarrow> bool" where
  "floating_bus m \<longleftrightarrow> (\<forall>ts a. m_in m ts a = 0xff)"

text \<open>The machine after some more events; the rules carry a straight run of I/O along.\<close>

definition after_events :: "machine \<Rightarrow> event list \<Rightarrow> machine" where
  "after_events m ts = m\<lparr>trace := trace m @ ts\<rparr>"

lemma after_nil: "after_events m [] = m"
  by (simp add: after_events_def)

lemma after_simps [simp]:
  "trace (after_events m ts) = trace m @ ts" "m_in (after_events m ts) = m_in m"
  "outb v a (after_events m ts) = after_events m (ts @ [Out a v])"
  "inb a (after_events m ts) = (m_in m (trace m @ ts) a, after_events m (ts @ [In a (m_in m (trace m @ ts) a)]))"
  by (simp_all add: after_events_def outb_def inb_def emit_def Let_def)

lemma after_inj [simp]: "after_events m ts = after_events m us \<longleftrightarrow> ts = us"
proof
  assume "after_events m ts = after_events m us"
  then have "trace (after_events m ts) = trace (after_events m us)" by simp
  then show "ts = us" by simp
qed simp

lemma clear_epp_after:
  "\<exists>b us. sunix_clear_epp_timeout p (after_events m ts) = (b, after_events m (ts @ us))
     \<and> outs_at (SNX_DCR p) us = [] \<and> outs_at (SNX_DATA p) us = []"
proof (cases "m_in m (trace m @ ts) (SNX_DSR p) AND 0x01 = 0")
  case True
  then show ?thesis
    by (auto simp: sunix_clear_epp_timeout_def sunix_parport_pc_read_status_def)
next
  case False
  then show ?thesis
    by (simp add: sunix_clear_epp_timeout_def sunix_parport_pc_read_status_def Let_def)
qed

lemma SPP_readback:
  assumes "dcr_reads_back p m"
  shows "\<exists>us. sunix_parport_SPP_supported p (after_events m ts) = (PARPORT_MODE_PCSPP, after_events m (ts @ us))
     \<and> outs_at (SNX_DCR p) us = [0xc, 0xe, 0xc] \<and> outs_at (SNX_DATA p) us = []"
proof -
  obtain b us where c: "sunix_clear_epp_timeout p (after_events m ts) = (b, after_events m (ts @ us))"
    "outs_at (SNX_DCR p) us = []" "outs_at (SNX_DATA p) us = []"
    using clear_epp_after by blast
  have r: "m_in m (ts' @ us' @ [Out (SNX_DCR p) v]) (SNX_DCR p) AND 0xf = v AND 0xf" for ts' us' v
    using assms [unfolded dcr_reads_back_def, rule_format, of "ts' @ us'" v] by simp
  have r2: "m_in m (ts' @ us' @ xs @ [Out (SNX_DCR p) v]) (SNX_DCR p) AND 0xf = v AND 0xf" for ts' us' xs v
    using r [of ts' "us' @ xs"] by simp
  have r3: "m_in m (ts' @ us' @ xs @ e # e' # [Out (SNX_DCR p) v]) (SNX_DCR p) AND 0xf = v AND 0xf" for ts' us' xs e e' v
    using r2 [of ts' us' "xs @ [e, e']"] by simp
  show ?thesis
    by (simp add: sunix_parport_SPP_supported_def c r r2 r3)
qed

lemma SPP_floating:
  assumes "floating_bus m"
  shows "\<exists>us. sunix_parport_SPP_supported p (after_events m ts) = (0, after_events m (ts @ us))"
proof -
  obtain b us where c: "sunix_clear_epp_timeout p (after_events m ts) = (b, after_events m (ts @ us))"
    using clear_epp_after by blast
  show ?thesis
    using assms [unfolded floating_bus_def, rule_format]
    by (simp add: sunix_parport_SPP_supported_def c sunix_parport_pc_read_data_def sunix_parport_pc_write_data_def)
qed

text \<open>
  The probe accepts a port whose control register reads back, using the control register
  alone and leaving it at its rest value, and rejects an address at which nothing answers.
\<close>

theorem SPP_supported_detects:
  assumes "sunix_parport_SPP_supported p m = (r, m')"
  shows "(dcr_reads_back p m \<longrightarrow> r = PARPORT_MODE_PCSPP \<and> (\<exists>us. trace m' = trace m @ us
       \<and> outs_at (SNX_DCR p) us = [0xc, 0xe, 0xc] \<and> outs_at (SNX_DATA p) us = []))
    \<and> (floating_bus m \<longrightarrow> r = 0)"
  using SPP_readback [of p m "[]"] SPP_floating [of m p "[]"] assms by (auto simp: after_nil)

theorem SPP_supported_detects_witness:
  "fst (sunix_parport_SPP_supported example_par echo_machine) = PARPORT_MODE_PCSPP
   \<and> fst (sunix_parport_SPP_supported example_par (idle_machine\<lparr>m_in := \<lambda>_ _. 0xff\<rparr>)) = 0"
proof -
  have "dcr_reads_back example_par echo_machine" by (simp add: dcr_reads_back_def echo_machine_def)
  moreover have "floating_bus (idle_machine\<lparr>m_in := \<lambda>_ _. 0xff\<rparr>)" by (simp add: floating_bus_def)
  ultimately show ?thesis
    using SPP_supported_detects [of example_par echo_machine, OF prod.collapse [symmetric]]
      SPP_supported_detects [of example_par "idle_machine\<lparr>m_in := \<lambda>_ _. 0xff\<rparr>", OF prod.collapse [symmetric]] by simp
qed

lemma ECR_check_after:
  assumes "SNX_ECR p \<noteq> SNX_DCR p"
  shows "\<exists>b us. ECR_check p (after_events m ts)
       = (b, if b then p\<lparr>pt_priv := (pt_priv p)\<lparr>pp_ecr := 1\<rparr>\<rparr> else p, after_events m (ts @ us))
     \<and> outs_at (SNX_DCR p) us = [0xc]
     \<and> (b \<longrightarrow> (\<exists>xs ys. us = xs @ [Out (SNX_ECR p) 0x34, In (SNX_ECR p) 0x35] @ ys) \<and> \<not> floating_bus m)"
proof -
  have e [simp]: "ECR_WRITE p v (after_events m us) = after_events m (us @ [Out (SNX_ECR p) v])" for v us
    by (simp add: ECR_WRITE_def sunix_frob_econtrol_def)
  obtain v where f [simp]: "sunix_frob_set_mode p 0 (after_events m us)
      = after_events m (us @ [In (SNX_ECR p) (v us), Out (SNX_ECR p) (v us AND NOT 0xe0)])" for us
    by (simp add: sunix_frob_set_mode_def sunix_frob_econtrol_def)
  let ?e1 = "m_in m (trace m @ ts) (SNX_ECR p)"
  let ?e2 = "m_in m (trace m @ ts @ [In (SNX_ECR p) ?e1, Out (SNX_ECR p) 0x34]) (SNX_ECR p)"
  consider "?e1 AND 0x3 \<noteq> 0x1" | "?e1 AND 0x3 = 0x1" "?e2 \<noteq> 0x35" | "?e1 AND 0x3 = 0x1" "?e2 = 0x35" by blast
  then show ?thesis
  proof cases
    case 3
    have "\<not> floating_bus m"
    proof
      assume "floating_bus m"
      then have "?e1 = 0xff" by (simp add: floating_bus_def)
      then show False using 3(1) by simp
    qed
    moreover have "\<exists>xs ys. In (SNX_ECR p) ?e1 # Out (SNX_ECR p) 0x34 # In (SNX_ECR p) 0x35 # zs
        = xs @ Out (SNX_ECR p) 0x34 # In (SNX_ECR p) 0x35 # ys" for zs
      by (rule exI [of _ "[In (SNX_ECR p) ?e1]"]) simp
    ultimately show ?thesis using 3 assms by (intro exI [of _ True]) (simp add: ECR_check_def)
  qed (use assms in \<open>simp_all add: ECR_check_def exI [of _ False]\<close>)
qed

text \<open>
  The check for an extended control register ends with the control register at its rest
  value, succeeds only after \<^verbatim>\<open>0x34\<close> written to the extended register read back as \<^verbatim>\<open>0x35\<close>, never
  succeeds where nothing answers, and changes the port only by recording the register.
\<close>

theorem ECR_present_sound:
  assumes "SNX_ECR p \<noteq> SNX_DCR p" and "sunix_parport_ECR_present (p, m) = (b, p', m')"
  shows "p' = (if b then p\<lparr>pt_priv := (pt_priv p)\<lparr>pp_ecr := 1\<rparr>\<rparr> else p)
    \<and> (\<exists>us. trace m' = trace m @ us \<and> last (outs_at (SNX_DCR p) us) = 0xc
        \<and> (b \<longrightarrow> (\<exists>xs ys. us = xs @ [Out (SNX_ECR p) 0x34, In (SNX_ECR p) 0x35] @ ys)))
    \<and> (floating_bus m \<longrightarrow> \<not> b)"
proof -
  have m: "m = after_events m []" by (simp add: after_nil)
  note c = ECR_check_after [OF assms(1), of m]
  obtain us b0 where p: "sunix_parport_ECR_present (p, after_events m [])
      = (if b0 then (False, p, outb 0xc (SNX_DCR p) (after_events m us)) else ECR_check p (after_events m us))"
  proof -
    let ?w = "Out (SNX_DCR p) 0xc"
    let ?e = "m_in m (trace m @ [?w]) (SNX_ECR p)"
    let ?us = "[?w, In (SNX_ECR p) ?e, Out (SNX_DCR p) 0xe]"
    let ?r = "m_in m (trace m @ ?us) (SNX_DCR p)"
    let ?e' = "m_in m (trace m @ ?us @ [In (SNX_DCR p) ?r]) (SNX_ECR p)"
    show ?thesis
    proof (cases "?e AND 0x3 = 0")
      case True
      have x: "0xc XOR 2 = (0xe :: u8)" by simp
      show ?thesis
        using True by (intro that [of "?e' AND 0x2 = ?r AND 0x2" "?us @ [In (SNX_DCR p) ?r, In (SNX_ECR p) ?e']"])
          (simp add: sunix_parport_ECR_present_def Let_def x)
    next
      case False
      then show ?thesis
        by (intro that [of False "[?w, In (SNX_ECR p) ?e]"]) (simp add: sunix_parport_ECR_present_def)
    qed
  qed
  obtain b1 vs where q: "ECR_check p (after_events m us)
       = (b1, if b1 then p\<lparr>pt_priv := (pt_priv p)\<lparr>pp_ecr := 1\<rparr>\<rparr> else p, after_events m (us @ vs))"
      "outs_at (SNX_DCR p) vs = [0xc]"
      "b1 \<longrightarrow> (\<exists>xs ys. vs = xs @ [Out (SNX_ECR p) 0x34, In (SNX_ECR p) 0x35] @ ys) \<and> \<not> floating_bus m"
    using c by blast
  show ?thesis
  proof (cases b0)
    case True
    then show ?thesis using p assms(2) by (simp add: after_nil)
  next
    case False
    then have e: "b = b1" "p' = (if b1 then p\<lparr>pt_priv := (pt_priv p)\<lparr>pp_ecr := 1\<rparr>\<rparr> else p)" "m' = after_events m (us @ vs)"
      using p q(1) assms(2) by (simp_all add: after_nil)
    have "\<exists>xs ys. us @ vs = xs @ [Out (SNX_ECR p) 0x34, In (SNX_ECR p) 0x35] @ ys" if b1
      using q(3) that by (metis append.assoc)
    then show ?thesis using q(2,3) by (auto simp: e)
  qed
qed

theorem ECR_present_sound_witness:
  "\<not> fst (sunix_parport_ECR_present (example_par, idle_machine\<lparr>m_in := \<lambda>_ _. 0xff\<rparr>))"
proof -
  obtain b p' m' where e: "sunix_parport_ECR_present (example_par, idle_machine\<lparr>m_in := \<lambda>_ _. 0xff\<rparr>) = (b, p', m')"
    by (metis prod.collapse)
  have "SNX_ECR example_par \<noteq> SNX_DCR example_par" by (simp add: SNX_ECR_def SNX_DCR_def example_par_def)
  moreover have "floating_bus (idle_machine\<lparr>m_in := \<lambda>_ _. 0xff\<rparr>)" by (simp add: floating_bus_def)
  ultimately show ?thesis using ECR_present_sound [OF _ e] e by simp
qed

end
