(* ===== verification/Snx_Portlist.thy ===== *)
theory Snx_Portlist
  imports Snx_Parport "HOL-Library.Multiset"
begin

text \<open>
  The parallel ports of the driver as a whole: the lists of driver/snx_share.c (all ports, announced
  ports, drivers) with their reference counts, and probing, announcing and unregistering a port
  (driver/snx_parallel.c). The kernel's circular lists are HOL lists. What the allocator and
  \<^verbatim>\<open>request_region\<close> answer is a parameter, and what has been acquired is recorded: releasing
  something that is not held is an error of the driver, \<open>None\<close>. The attach and detach
  functions of the drivers are parameters.
\<close>

section \<open>The list of parallel ports\<close>

subsection \<open>State\<close>

datatype par_res = Ops_mem nat | Port_mem nat | Name_mem nat | Region u64

record 'd par_world =
  wd_ports :: "nat \<Rightarrow> snx_parport option"
  wd_all :: "nat list"
  wd_list :: "nat list"
  wd_ports_list :: "nat list"
  wd_drivers :: "'d list"
  wd_held :: "par_res list"
  wd_mach :: machine

definition acquire :: "par_res \<Rightarrow> 'd par_world \<Rightarrow> 'd par_world" where
  "acquire r w = w\<lparr>wd_held := r # wd_held w\<rparr>"

definition give_back :: "par_res \<Rightarrow> 'd par_world \<Rightarrow> 'd par_world option" where
  "give_back r w = (if r \<in> set (wd_held w) then Some (w\<lparr>wd_held := remove1 r (wd_held w)\<rparr>) else None)"

type_synonym 'd hook = "'d \<Rightarrow> nat \<Rightarrow> 'd par_world \<Rightarrow> 'd par_world"

text \<open>The answers of the allocator and of \<^verbatim>\<open>request_region\<close> to one probe.\<close>

record par_answers =
  an_ops :: bool
  an_port :: bool
  an_name :: bool
  an_region :: bool
  an_region_hi :: bool

abbreviation (input) IEEE1284_MODE_COMPAT :: int where "IEEE1284_MODE_COMPAT \<equiv> 256"
abbreviation (input) IEEE1284_PH_FWD_DATA :: int where "IEEE1284_PH_FWD_DATA \<equiv> 0"
abbreviation (input) IEEE1284_PH_FWD_IDLE :: int where "IEEE1284_PH_FWD_IDLE \<equiv> 1"
abbreviation (input) DEFAULT_SPIN_TIME :: int where "DEFAULT_SPIN_TIME \<equiv> 500"
abbreviation (input) PARPORT_MODE_SAFEININT :: u32 where "PARPORT_MODE_SAFEININT \<equiv> 0x40"

subsection \<open>Numbering\<close>

text \<open>
  The walk along the list of all ports, which is kept in the order of their numbers, to the first
  gap; numbers start at 2.
\<close>

fun first_gap :: "int \<Rightarrow> int list \<Rightarrow> nat" where
  "first_gap num [] = 0"
| "first_gap num (n # ns) = (if n \<noteq> num then 0 else Suc (first_gap (num + 1) ns))"

definition number_of :: "(nat \<Rightarrow> snx_parport option) \<Rightarrow> nat \<Rightarrow> int" where
  "number_of ps r = (case ps r of None \<Rightarrow> 0 | Some p \<Rightarrow> pt_number p)"

definition port_numbers :: "'d par_world \<Rightarrow> int list" where
  "port_numbers w = map (number_of (wd_ports w)) (wd_all w)"

text \<open>\<open>d\<close> is the address the allocator gives.\<close>

definition sunix_parport_register_port ::
    "bool \<Rightarrow> bool \<Rightarrow> nat \<Rightarrow> sunix_par_port \<Rightarrow> 'd par_world \<Rightarrow> nat option \<times> 'd par_world" where
  "sunix_parport_register_port alloc_port alloc_name d priv w =
    (if \<not> alloc_port then (None, w)
     else
      (let w1 = acquire (Port_mem d) w in
       if \<not> alloc_name then (None, w1)
       else
        (let i = first_gap 2 (port_numbers w);
             num = 2 + int i;
             p = \<lparr>pt_base = pp_base priv, pt_base_hi = pp_base_hi priv, pt_size = 0, pt_modes = 0,
                  pt_irq = pp_irq priv, pt_number = num, pt_devices = None, pt_cad = None,
                  pt_waithead = None, pt_waittail = None, pt_flags = 0, pt_mode = IEEE1284_MODE_COMPAT,
                  pt_phase = IEEE1284_PH_FWD_IDLE, pt_ops = Pc_ops, pt_priv = priv,
                  pt_spintime = DEFAULT_SPIN_TIME, pt_ref_count = 1\<rparr>
         in (Some d, acquire (Name_mem d) (w1\<lparr>wd_ports := (wd_ports w1)(d \<mapsto> p),
                wd_all := take i (wd_all w1) @ d # drop i (wd_all w1)\<rparr>)))))"

subsection \<open>References\<close>

definition sunix_free_port :: "nat \<Rightarrow> 'd par_world \<Rightarrow> 'd par_world option" where
  "sunix_free_port d w =
    Option.bind (give_back (Name_mem d) (w\<lparr>wd_all := remove1 d (wd_all w)\<rparr>)) (\<lambda>w1.
    Option.bind (give_back (Port_mem d) w1) (\<lambda>w2.
    Some (w2\<lparr>wd_ports := (wd_ports w2)(d := None)\<rparr>)))"

definition port_get :: "nat \<Rightarrow> 'd par_world \<Rightarrow> 'd par_world option" where
  "port_get d w = map_option (\<lambda>p. w\<lparr>wd_ports := (wd_ports w)(d \<mapsto> p\<lparr>pt_ref_count := pt_ref_count p + 1\<rparr>)\<rparr>) (wd_ports w d)"

definition sunix_parport_put_port :: "nat \<Rightarrow> 'd par_world \<Rightarrow> 'd par_world option" where
  "sunix_parport_put_port d w =
    (case wd_ports w d of
       None \<Rightarrow> None
     | Some p \<Rightarrow>
        (let w1 = w\<lparr>wd_ports := (wd_ports w)(d \<mapsto> p\<lparr>pt_ref_count := pt_ref_count p - 1\<rparr>)\<rparr>
         in if pt_ref_count p - 1 = 0 then sunix_free_port d w1 else Some w1))"

definition find_port :: "(snx_parport \<Rightarrow> bool) \<Rightarrow> 'd par_world \<Rightarrow> nat option" where
  "find_port P w = List.find (\<lambda>d. case wd_ports w d of None \<Rightarrow> False | Some p \<Rightarrow> P p) (wd_list w)"

definition sunix_parport_find_number :: "int \<Rightarrow> 'd par_world \<Rightarrow> (nat option \<times> 'd par_world) option" where
  "sunix_parport_find_number number w =
    (case find_port (\<lambda>p. pt_number p = number) w of
       None \<Rightarrow> Some (None, w)
     | Some d \<Rightarrow> map_option (Pair (Some d)) (port_get d w))"

definition sunix_parport_find_base :: "u64 \<Rightarrow> 'd par_world \<Rightarrow> (nat option \<times> 'd par_world) option" where
  "sunix_parport_find_base base w =
    (case find_port (\<lambda>p. pt_base p = base) w of
       None \<Rightarrow> Some (None, w)
     | Some d \<Rightarrow> map_option (Pair (Some d)) (port_get d w))"

subsection \<open>Announcing\<close>

text \<open>No code sets a slave of a port, so the loops over \<^verbatim>\<open>slaves\<close> do nothing.\<close>

definition sunix_attach_driver_chain :: "'d hook \<Rightarrow> nat \<Rightarrow> 'd par_world \<Rightarrow> 'd par_world" where
  "sunix_attach_driver_chain attach d w = fold (\<lambda>drv. attach drv d) (wd_drivers w) w"

definition sunix_detach_driver_chain :: "'d hook \<Rightarrow> nat \<Rightarrow> 'd par_world \<Rightarrow> 'd par_world" where
  "sunix_detach_driver_chain detach d w = fold (\<lambda>drv. detach drv d) (wd_drivers w) w"

definition sunix_parport_register_driver :: "'d hook \<Rightarrow> 'd \<Rightarrow> 'd par_world \<Rightarrow> 'd par_world" where
  "sunix_parport_register_driver attach drv w =
    (let w1 = fold (\<lambda>d. attach drv d) (wd_list w) w in w1\<lparr>wd_drivers := drv # wd_drivers w1\<rparr>)"

definition sunix_parport_unregister_driver :: "'d hook \<Rightarrow> 'd \<Rightarrow> 'd par_world \<Rightarrow> 'd par_world" where
  "sunix_parport_unregister_driver detach drv w =
    (let w1 = w\<lparr>wd_drivers := remove1 drv (wd_drivers w)\<rparr> in fold (\<lambda>d. detach drv d) (wd_list w1) w1)"

definition sunix_parport_announce_port :: "'d hook \<Rightarrow> nat \<Rightarrow> 'd par_world \<Rightarrow> 'd par_world" where
  "sunix_parport_announce_port attach d w = sunix_attach_driver_chain attach d (w\<lparr>wd_list := wd_list w @ [d]\<rparr>)"

definition sunix_parport_remove_port :: "'d hook \<Rightarrow> nat \<Rightarrow> 'd par_world \<Rightarrow> 'd par_world option" where
  "sunix_parport_remove_port detach d w =
    (let w1 = sunix_detach_driver_chain detach d w in
     case wd_ports w1 d of
       None \<Rightarrow> None
     | Some p \<Rightarrow> Some (w1\<lparr>wd_ports := (wd_ports w1)(d \<mapsto> p\<lparr>pt_ops := Dead_ops\<rparr>), wd_list := remove1 d (wd_list w1)\<rparr>))"

subsection \<open>Probing a port\<close>

text \<open>The hardware part of the probe: detection, and the registers the port starts with.\<close>

definition probe_hardware :: "bool \<Rightarrow> snx_parport \<times> machine \<Rightarrow> bool \<times> snx_parport \<times> machine" where
  "probe_hardware hi_region pm =
    (case pm of (p, m) \<Rightarrow>
      let priv = (pt_priv p)\<lparr>pp_ctr := 0xc, pp_ctr_writable := NOT 0x10, pp_ecr := 0\<rparr>;
          p1 = p\<lparr>pt_priv := priv, pt_modes := 1 OR PARPORT_MODE_SAFEININT\<rparr>;
          (p2, m2) = (if pt_base_hi p1 \<noteq> 0 \<and> hi_region then snd (sunix_parport_ECR_present (p1, m)) else (p1, m));
          (found, m3) = sunix_parport_SPP_supported p2 m2
      in
       if found = 0 then (False, p2, m3)
       else
        (let p3 = p2\<lparr>pt_size := 3\<rparr>;
             m4 = (if pp_ecr (pt_priv p3) \<noteq> 0 then ECR_WRITE p3 0x34 m3 else m3);
             m5 = sunix_parport_pc_write_data p3 0 m4
         in (True, sunix_parport_pc_data_forward (p3, m5))))"

definition sunix_parport_pc_probe_port ::
    "'d hook \<Rightarrow> par_answers \<Rightarrow> nat \<Rightarrow> sunix_par_port \<Rightarrow> 'd par_world \<Rightarrow> (nat option \<times> 'd par_world) option" where
  "sunix_parport_pc_probe_port attach an d priv w =
    (if \<not> an_ops an then Some (None, w)
     else
      (let w1 = acquire (Ops_mem d) w in
       case sunix_parport_register_port (an_port an) (an_name an) d priv w1 of
         (None, w2) \<Rightarrow> map_option (Pair None) (give_back (Ops_mem d) w2)
       | (Some d, w2) \<Rightarrow>
          let out3 = (\<lambda>w. Option.bind (sunix_parport_put_port d w) (\<lambda>w. map_option (Pair None) (give_back (Ops_mem d) w)))
          in
           if \<not> an_region an then out3 w2
           else
            (case wd_ports w2 d of
               None \<Rightarrow> None
             | Some p \<Rightarrow>
                (let w3 = acquire (Region (pt_base p)) w2;
                     hi = pt_base_hi p \<noteq> 0 \<and> an_region_hi an;
                     w4 = (if hi then acquire (Region (pt_base_hi p)) w3 else w3)
                 in
                  case probe_hardware hi (p, wd_mach w4) of
                    (found, p1, m) \<Rightarrow>
                      let w5 = w4\<lparr>wd_ports := (wd_ports w4)(d \<mapsto> p1), wd_mach := m\<rparr> in
                      if \<not> found then
                        Option.bind (if hi then give_back (Region (pt_base_hi p1)) w5 else Some w5) (\<lambda>w6.
                        Option.bind (give_back (Region (pt_base p1)) w6) out3)
                      else
                        Some (Some d, sunix_parport_announce_port attach d
                          (w5\<lparr>wd_ports_list := d # wd_ports_list w5\<rparr>))))))"

definition sunix_parport_pc_unregister_port :: "'d hook \<Rightarrow> nat \<Rightarrow> 'd par_world \<Rightarrow> 'd par_world option" where
  "sunix_parport_pc_unregister_port detach d w =
    Option.bind (sunix_parport_remove_port detach d w) (\<lambda>w1.
    Option.bind (wd_ports w1 d) (\<lambda>p.
    Option.bind (give_back (Region (pt_base p)) (w1\<lparr>wd_ports_list := remove1 d (wd_ports_list w1)\<rparr>)) (\<lambda>w2.
    Option.bind (if pt_base_hi p \<noteq> 0 then give_back (Region (pt_base_hi p)) w2 else Some w2) (\<lambda>w3.
    Option.bind (sunix_parport_put_port d w3) (\<lambda>w4.
    give_back (Ops_mem d) w4)))))"

text \<open>
  Probing every entry of \<open>sunix_par_table\<close> that has an address and a chip; \<open>ans\<close> and \<open>addr\<close> give
  the answers and the address for each entry. The first failure ends the loop.
\<close>

abbreviation (input) SUNNONE_HWID :: u8 where "SUNNONE_HWID \<equiv> 0"

fun probe_ports :: "'d hook \<Rightarrow> (nat \<Rightarrow> par_answers) \<Rightarrow> (nat \<Rightarrow> nat) \<Rightarrow> (nat \<times> sunix_par_port) list \<Rightarrow> 'd par_world
    \<Rightarrow> (int \<times> 'd par_world) option" where
  "probe_ports attach ans addr [] w = Some (0, w)"
| "probe_ports attach ans addr ((i, pp) # pps) w =
    (if pp_base pp > 0 \<and> pp_chip_flag pp \<noteq> SUNNONE_HWID then
      (case sunix_parport_pc_probe_port attach (ans i) (addr i) pp w of
         None \<Rightarrow> None
       | Some (None, w1) \<Rightarrow> Some (- ENODEV, w1)
       | Some (Some _, w1) \<Rightarrow> probe_ports attach ans addr pps w1)
     else probe_ports attach ans addr pps w)"

definition sunix_par_parport_init :: "'d hook \<Rightarrow> (nat \<Rightarrow> par_answers) \<Rightarrow> (nat \<Rightarrow> nat) \<Rightarrow> sunix_par_port list \<Rightarrow> 'd par_world
    \<Rightarrow> (int \<times> 'd par_world) option" where
  "sunix_par_parport_init attach ans addr tab w = probe_ports attach ans addr (enumerate 0 tab) w"

fun unregister_ports :: "'d hook \<Rightarrow> nat list \<Rightarrow> 'd par_world \<Rightarrow> 'd par_world option" where
  "unregister_ports detach [] w = Some w"
| "unregister_ports detach (d # ds) w =
    Option.bind (sunix_parport_pc_unregister_port detach d w) (unregister_ports detach ds)"

definition sunix_par_parport_exit :: "'d hook \<Rightarrow> 'd par_world \<Rightarrow> 'd par_world option" where
  "sunix_par_parport_exit detach w = unregister_ports detach (wd_ports_list w) w"

section \<open>The ports keep their numbers\<close>

lemma first_gap_le: "first_gap num ns \<le> length ns"
  by (induction ns arbitrary: num) auto

lemma first_gap_prefix: "j < first_gap num ns \<Longrightarrow> ns ! j = num + int j"
proof (induction ns arbitrary: num j)
  case Nil
  then show ?case by simp
next
  case (Cons n ns)
  then show ?case by (cases j) (auto split: if_splits)
qed

lemma first_gap_rest:
  "sorted_wrt (<) ns \<Longrightarrow> (\<forall>n\<in>set ns. num \<le> n) \<Longrightarrow> x \<in> set (drop (first_gap num ns) ns) \<Longrightarrow> num + int (first_gap num ns) < x"
proof (induction ns arbitrary: num)
  case Nil
  then show ?case by simp
next
  case (Cons n ns)
  show ?case
  proof (cases "n = num")
    case True
    have "\<forall>k\<in>set ns. num + 1 \<le> k" using Cons.prems(1) True by auto
    then show ?thesis using Cons.IH [of "num + 1"] Cons.prems True by simp
  next
    case False
    then show ?thesis using Cons.prems by force
  qed
qed

lemma first_gap_before: "x \<in> set (take (first_gap num ns) ns) \<longleftrightarrow> num \<le> x \<and> x < num + int (first_gap num ns)"
proof -
  have n: "take (first_gap num ns) ns ! j = num + int j" if "j < first_gap num ns" for j
    using first_gap_prefix [OF that] that by simp
  have l: "length (take (first_gap num ns) ns) = first_gap num ns" using first_gap_le by simp
  show ?thesis
  proof
    assume "x \<in> set (take (first_gap num ns) ns)"
    then show "num \<le> x \<and> x < num + int (first_gap num ns)" using n l by (metis in_set_conv_nth le_add_same_cancel1 of_nat_0_le_iff add_strict_left_mono of_nat_less_iff)
  next
    assume x: "num \<le> x \<and> x < num + int (first_gap num ns)"
    then have "nat (x - num) < first_gap num ns" by linarith
    then show "x \<in> set (take (first_gap num ns) ns)" using n [of "nat (x - num)"] l x by (metis add.commute diff_add_cancel diff_ge_0_iff_ge int_nat_eq nth_mem)
  qed
qed

text \<open>
  \<open>numbered\<close>: the list of all ports holds live ports in the strict order of their numbers, which
  start at 2.
\<close>

definition numbered :: "'d par_world \<Rightarrow> bool" where
  "numbered w \<longleftrightarrow> (\<forall>r\<in>set (wd_all w). wd_ports w r \<noteq> None) \<and> sorted_wrt (<) (port_numbers w)
     \<and> (\<forall>n\<in>set (port_numbers w). 2 \<le> n)"

text \<open>
  Registering a port keeps the list of all ports sorted by number, without duplicates, and
  gives the new port the smallest number from 2 on that no registered port has.
\<close>

theorem register_port_smallest_number:
  assumes "numbered w" and "d \<notin> set (wd_all w)"
    and "sunix_parport_register_port True True d priv w = (r, w')"
  shows "r = Some d \<and> numbered w' \<and> (\<exists>p. wd_ports w' d = Some p \<and> pt_number p \<notin> set (port_numbers w)
     \<and> set (port_numbers w') = insert (pt_number p) (set (port_numbers w))
     \<and> (\<forall>j. 2 \<le> j \<and> j < pt_number p \<longrightarrow> j \<in> set (port_numbers w)) \<and> 2 \<le> pt_number p
     \<and> pt_ref_count p = 1)"
proof -
  let ?i = "first_gap 2 (port_numbers w)" and ?ns = "port_numbers w"
  have w: "r = Some d" "wd_all w' = take ?i (wd_all w) @ d # drop ?i (wd_all w)"
    "\<exists>p. wd_ports w' = (wd_ports w)(d \<mapsto> p) \<and> pt_number p = 2 + int ?i \<and> pt_ref_count p = 1"
    using assms(3) by (auto simp: sunix_parport_register_port_def acquire_def Let_def)
  then obtain p where p: "wd_ports w' = (wd_ports w)(d \<mapsto> p)" "pt_number p = 2 + int ?i" "pt_ref_count p = 1" by blast
  have old: "map (number_of (wd_ports w')) xs = map (number_of (wd_ports w)) xs" if "set xs \<subseteq> set (wd_all w)" for xs
    using that assms(2) p(1) by (auto simp: number_of_def)
  have "map (number_of (wd_ports w')) (take ?i (wd_all w)) = take ?i ?ns"
    "map (number_of (wd_ports w')) (drop ?i (wd_all w)) = drop ?i ?ns"
    by (simp_all add: old set_take_subset set_drop_subset take_map drop_map port_numbers_def)
  moreover have "number_of (wd_ports w') d = 2 + int ?i" using p(1,2) by (simp add: number_of_def)
  ultimately have ns: "port_numbers w' = take ?i ?ns @ (2 + int ?i) # drop ?i ?ns"
    using w(2) unfolding port_numbers_def [of w'] by simp
  have s: "sorted_wrt (<) ?ns" "\<forall>n\<in>set ?ns. 2 \<le> n" using assms(1) by (auto simp: numbered_def)
  note g = first_gap_before [of _ 2 ?ns] first_gap_rest [OF s]
  have un: "set ?ns = set (take ?i ?ns) \<union> set (drop ?i ?ns)" by (metis append_take_drop_id set_append)
  have "sorted_wrt (<) (take ?i ?ns @ (2 + int ?i) # drop ?i ?ns)"
    using s(1) g by (auto simp: sorted_wrt_append sorted_wrt_take sorted_wrt_drop dest: g(2) iff: g(1))
  moreover have "2 + int ?i \<notin> set ?ns" using g un by force
  moreover have "\<forall>x\<in>set (wd_all w'). wd_ports w' x \<noteq> None"
    using assms(1) p(1) w(2) by (auto simp: numbered_def dest: in_set_takeD in_set_dropD)
  moreover have "set (port_numbers w') = insert (2 + int ?i) (set ?ns)" using ns un by auto
  ultimately show ?thesis using w p g(1) un s(2) ns by (auto simp: numbered_def)
qed

text \<open>Three ports, the middle one of which was freed.\<close>

definition no_ports :: "unit par_world" where
  "no_ports = \<lparr>wd_ports = (\<lambda>_. None), wd_all = [], wd_list = [], wd_ports_list = [], wd_drivers = [],
     wd_held = [], wd_mach = idle_machine\<rparr>"

definition two_ports :: "unit par_world" where
  "two_ports = no_ports\<lparr>wd_ports := [10 \<mapsto> example_par, 12 \<mapsto> example_par\<lparr>pt_number := 4\<rparr>], wd_all := [10, 12]\<rparr>"

theorem register_port_smallest_number_witness:
  "\<exists>p. wd_ports (snd (sunix_parport_register_port True True 11 zero_par_port two_ports)) 11 = Some p \<and> pt_number p \<notin> {2, 4}"
proof -
  have n: "port_numbers two_ports = [2, 4]"
    by (simp add: port_numbers_def number_of_def two_ports_def no_ports_def example_par_def)
  have "numbered two_ports" by (simp add: numbered_def n) (simp add: two_ports_def no_ports_def)
  moreover have "11 \<notin> set (wd_all two_ports)" by (simp add: two_ports_def)
  ultimately show ?thesis
    using register_port_smallest_number [OF _ _ prod.collapse [symmetric], of two_ports 11 zero_par_port] n by auto
qed

section \<open>What probing acquires\<close>

lemma give_back_acquired [simp]: "wd_held w = r # hs \<Longrightarrow> give_back r w = Some (w\<lparr>wd_held := hs\<rparr>)"
  by (simp add: give_back_def)

text \<open>The hardware part touches only registers and what is detected.\<close>

lemma ECR_check_frame:
  "fst (snd (ECR_check p m)) = p \<or> fst (snd (ECR_check p m)) = p\<lparr>pt_priv := (pt_priv p)\<lparr>pp_ecr := 1\<rparr>\<rparr>"
  by (simp add: ECR_check_def case_prod_beta Let_def del: fst_inb snd_inb)

lemma ECR_present_frame:
  "fst (snd (sunix_parport_ECR_present (p, m))) = p
   \<or> fst (snd (sunix_parport_ECR_present (p, m))) = p\<lparr>pt_priv := (pt_priv p)\<lparr>pp_ecr := 1\<rparr>\<rparr>"
  unfolding sunix_parport_ECR_present_def using ECR_check_frame by (simp add: case_prod_beta Let_def del: fst_inb snd_inb)

lemma probe_hardware_frame:
  assumes "probe_hardware hi (p, m) = (found, p', m')"
  shows "pt_base p' = pt_base p" "pt_base_hi p' = pt_base_hi p" "pt_ref_count p' = pt_ref_count p"
    "pt_number p' = pt_number p" "pt_ops p' = pt_ops p" "pp_ctr_writable (pt_priv p') = NOT 0x10"
proof -
  let ?p1 = "p\<lparr>pt_priv := (pt_priv p)\<lparr>pp_ctr := 0xc, pp_ctr_writable := NOT 0x10, pp_ecr := 0\<rparr>,
     pt_modes := 1 OR PARPORT_MODE_SAFEININT\<rparr>"
  let ?X = "if pt_base_hi ?p1 \<noteq> 0 \<and> hi then snd (sunix_parport_ECR_present (?p1, m)) else (?p1, m)"
  obtain p2 m2 where 2: "?X = (p2, m2)" by (metis prod.collapse)
  have "fst ?X = ?p1 \<or> fst ?X = ?p1\<lparr>pt_priv := (pt_priv ?p1)\<lparr>pp_ecr := 1\<rparr>\<rparr>"
    using ECR_present_frame [of ?p1 m] by (simp only: if_distrib [of fst] fst_conv split: if_split) blast
  then have p2: "p2 = ?p1 \<or> p2 = ?p1\<lparr>pt_priv := (pt_priv ?p1)\<lparr>pp_ecr := 1\<rparr>\<rparr>" unfolding 2 fst_conv .
  obtain f m3 where 3: "sunix_parport_SPP_supported p2 m2 = (f, m3)" by fastforce
  have "p' = p2 \<or> (\<exists>c. p' = p2\<lparr>pt_size := 3, pt_priv := (pt_priv p2)\<lparr>pp_ctr := c\<rparr>\<rparr>)"
    using assms 2 3 by (auto simp: probe_hardware_def Let_def sunix_parport_pc_data_forward_def frob_ctr_eq split: if_splits)
  then show "pt_base p' = pt_base p" "pt_base_hi p' = pt_base_hi p" "pt_ref_count p' = pt_ref_count p"
    "pt_number p' = pt_number p" "pt_ops p' = pt_ops p" "pp_ctr_writable (pt_priv p') = NOT 0x10"
    using p2 by auto
qed

lemma probe_hardware_found:
  assumes "probe_hardware hi (p, m) = (True, p', m')"
  shows "ctr_shadow p' m'"
proof -
  have "\<exists>x. frob_ctr 0x20 0 x = (p', m')"
    using assms by (auto simp: probe_hardware_def Let_def sunix_parport_pc_data_forward_def split: if_splits prod.splits)
  then obtain q n where q: "frob_ctr 0x20 0 (q, n) = (p', m')" by (metis prod.collapse)
  show ?thesis using ctr_shadow_frob [of "0x20" 0 q n] unfolding q by simp
qed

text \<open>A driver's attach or detach function that takes and frees nothing of the port lists.\<close>

definition keeps_ports :: "'d hook \<Rightarrow> bool" where
  "keeps_ports h \<longleftrightarrow> (\<forall>drv d w. wd_held (h drv d w) = wd_held w \<and> wd_ports (h drv d w) = wd_ports w
     \<and> wd_all (h drv d w) = wd_all w \<and> wd_list (h drv d w) = wd_list w \<and> wd_ports_list (h drv d w) = wd_ports_list w
     \<and> wd_drivers (h drv d w) = wd_drivers w)"

lemma keeps_ports_fold:
  assumes "keeps_ports h"
  shows "wd_held (fold (\<lambda>drv. h drv d) ds w) = wd_held w" "wd_ports (fold (\<lambda>drv. h drv d) ds w) = wd_ports w"
    "wd_all (fold (\<lambda>drv. h drv d) ds w) = wd_all w" "wd_list (fold (\<lambda>drv. h drv d) ds w) = wd_list w"
    "wd_ports_list (fold (\<lambda>drv. h drv d) ds w) = wd_ports_list w"
  using assms by (induction ds arbitrary: w) (simp_all add: keeps_ports_def)

lemma keeps_chain:
  assumes "keeps_ports h"
  shows "wd_held (sunix_attach_driver_chain h d w) = wd_held w" "wd_ports (sunix_attach_driver_chain h d w) = wd_ports w" "wd_all (sunix_attach_driver_chain h d w) = wd_all w" "wd_list (sunix_attach_driver_chain h d w) = wd_list w" "wd_ports_list (sunix_attach_driver_chain h d w) = wd_ports_list w"
    "wd_held (sunix_detach_driver_chain h d w) = wd_held w" "wd_ports (sunix_detach_driver_chain h d w) = wd_ports w" "wd_all (sunix_detach_driver_chain h d w) = wd_all w" "wd_list (sunix_detach_driver_chain h d w) = wd_list w" "wd_ports_list (sunix_detach_driver_chain h d w) = wd_ports_list w"
  by (simp_all add: sunix_attach_driver_chain_def sunix_detach_driver_chain_def keeps_ports_fold [OF assms])

definition acquired :: "par_answers \<Rightarrow> nat \<Rightarrow> sunix_par_port \<Rightarrow> par_res list" where
  "acquired an d priv =
     (if pp_base_hi priv \<noteq> 0 \<and> an_region_hi an then [Region (pp_base_hi priv)] else [])
       @ [Region (pp_base priv), Name_mem d, Port_mem d, Ops_mem d]"

text \<open>The port's entry before the hardware is looked at, and the world of a probe that registered it.\<close>

lemma register_port_shape:
  assumes "d \<notin> set (wd_all w)" "sunix_parport_register_port True True d priv w = (r, w')"
  shows "r = Some d" "wd_held w' = Name_mem d # Port_mem d # wd_held w" "remove1 d (wd_all w') = wd_all w"
    "wd_list w' = wd_list w" "wd_ports_list w' = wd_ports_list w" "wd_drivers w' = wd_drivers w" "wd_mach w' = wd_mach w"
    "\<exists>p. wd_ports w' = (wd_ports w)(d \<mapsto> p) \<and> pt_base p = pp_base priv \<and> pt_base_hi p = pp_base_hi priv
       \<and> pt_ref_count p = 1 \<and> pt_ops p = Pc_ops"
proof -
  let ?i = "first_gap 2 (port_numbers w)"
  show "r = Some d" "wd_held w' = Name_mem d # Port_mem d # wd_held w" "wd_list w' = wd_list w"
    "wd_ports_list w' = wd_ports_list w" "wd_drivers w' = wd_drivers w" "wd_mach w' = wd_mach w"
    "\<exists>p. wd_ports w' = (wd_ports w)(d \<mapsto> p) \<and> pt_base p = pp_base priv \<and> pt_base_hi p = pp_base_hi priv
       \<and> pt_ref_count p = 1 \<and> pt_ops p = Pc_ops"
    using assms by (auto simp: sunix_parport_register_port_def acquire_def Let_def)
  have "wd_all w' = take ?i (wd_all w) @ d # drop ?i (wd_all w)"
    using assms by (auto simp: sunix_parport_register_port_def acquire_def Let_def)
  moreover have "d \<notin> set (take ?i (wd_all w))" using assms(1) by (blast dest: in_set_takeD)
  ultimately show "remove1 d (wd_all w') = wd_all w" by (simp add: remove1_append)
qed

lemma put_last:
  assumes "wd_ports w d = Some p" "pt_ref_count p = 1" "wd_held w = Name_mem d # Port_mem d # hs"
  shows "\<exists>w'. sunix_parport_put_port d w = Some w' \<and> wd_held w' = hs \<and> wd_ports w' = (wd_ports w)(d := None)
    \<and> wd_all w' = remove1 d (wd_all w) \<and> wd_list w' = wd_list w \<and> wd_ports_list w' = wd_ports_list w"
  using assms by (simp add: sunix_parport_put_port_def sunix_free_port_def)

lemma probe_registered:
  assumes "d \<notin> set (wd_all w)" "an_ops an" "an_port an" "an_name an" "an_region an" "keeps_ports attach"
  obtains p found p1 m where "pt_base p = pp_base priv" "pt_base_hi p = pp_base_hi priv"
    "probe_hardware (pp_base_hi priv \<noteq> 0 \<and> an_region_hi an) (p, wd_mach w) = (found, p1, m)"
    "pt_ref_count p = 1" "pt_ops p = Pc_ops"
    "\<not> found \<longrightarrow> (\<exists>w'. sunix_parport_pc_probe_port attach an d priv w = Some (None, w') \<and> wd_held w' = wd_held w \<and> wd_all w' = wd_all w
       \<and> wd_list w' = wd_list w \<and> wd_ports_list w' = wd_ports_list w \<and> wd_ports w' = (wd_ports w)(d := None))"
    "found \<longrightarrow> (\<exists>w1. sunix_parport_pc_probe_port attach an d priv w
         = Some (Some d, sunix_parport_announce_port attach d w1)
       \<and> wd_mach w1 = m \<and> wd_held w1 = acquired an d priv @ wd_held w \<and> remove1 d (wd_all w1) = wd_all w
       \<and> wd_list w1 = wd_list w \<and> wd_ports_list w1 = d # wd_ports_list w \<and> wd_ports w1 = (wd_ports w)(d \<mapsto> p1))"
proof -
  let ?w1 = "acquire (Ops_mem d) w"
  obtain r w2 where 2: "sunix_parport_register_port True True d priv ?w1 = (r, w2)" by fastforce
  have "d \<notin> set (wd_all ?w1)" using assms(1) by (simp add: acquire_def)
  note S = register_port_shape [OF this 2]
  obtain p where p: "wd_ports w2 = (wd_ports w)(d \<mapsto> p)" "pt_base p = pp_base priv" "pt_base_hi p = pp_base_hi priv"
    "pt_ref_count p = 1" "pt_ops p = Pc_ops" using S(8) by (auto simp: acquire_def)
  define hi where "hi \<longleftrightarrow> pp_base_hi priv \<noteq> 0 \<and> an_region_hi an"
  obtain found p1 m where h: "probe_hardware hi (p, wd_mach w) = (found, p1, m)" by (metis prod.collapse)
  note F = probe_hardware_frame [OF h]
  have mach: "wd_mach w2 = wd_mach w" using S(7) by (simp add: acquire_def)
  let ?w3 = "acquire (Region (pt_base p)) w2"
  let ?w4 = "if hi then acquire (Region (pt_base_hi p)) ?w3 else ?w3"
  define w5 where "w5 = ?w4\<lparr>wd_ports := (wd_ports ?w4)(d \<mapsto> p1), wd_mach := m\<rparr>"
  have w5: "wd_mach w5 = m" "wd_all w5 = wd_all w2" "wd_ports w5 = (wd_ports w)(d \<mapsto> p1)" "wd_list w5 = wd_list w"
    "wd_ports_list w5 = wd_ports_list w" "wd_held w5 = acquired an d priv @ wd_held w"
    using S p by (simp_all add: acquire_def acquired_def hi_def w5_def)
  have eq: "sunix_parport_pc_probe_port attach an d priv w =
     (if \<not> found then
        Option.bind (if hi then give_back (Region (pt_base_hi p1)) w5 else Some w5) (\<lambda>w6.
        Option.bind (give_back (Region (pt_base p1)) w6) (\<lambda>w.
        Option.bind (sunix_parport_put_port d w) (\<lambda>w. map_option (Pair None) (give_back (Ops_mem d) w))))
      else Some (Some d, sunix_parport_announce_port attach d (w5\<lparr>wd_ports_list := d # wd_ports_list w5\<rparr>)))"
    using assms(2-5) 2 S(1) p h mach
    by (cases found; cases hi) (simp_all add: sunix_parport_pc_probe_port_def Let_def acquire_def w5_def hi_def [symmetric])
  show thesis
  proof (rule that [OF p(2,3) h [unfolded hi_def] p(4,5)])
    show "\<not> found \<longrightarrow> (\<exists>w'. sunix_parport_pc_probe_port attach an d priv w = Some (None, w') \<and> wd_held w' = wd_held w \<and> wd_all w' = wd_all w
       \<and> wd_list w' = wd_list w \<and> wd_ports_list w' = wd_ports_list w \<and> wd_ports w' = (wd_ports w)(d := None))"
    proof
    assume nf: "\<not> found"
    let ?w6 = "w5\<lparr>wd_held := Region (pp_base priv) # Name_mem d # Port_mem d # Ops_mem d # wd_held w\<rparr>"
    let ?w7 = "w5\<lparr>wd_held := Name_mem d # Port_mem d # Ops_mem d # wd_held w\<rparr>"
    have 6: "(if hi then give_back (Region (pt_base_hi p1)) w5 else Some w5) = Some ?w6"
      using w5(6) F(2) p(3) by (cases hi) (auto simp: acquired_def hi_def)
    have 7: "give_back (Region (pt_base p1)) ?w6 = Some ?w7" using F(1) p(2) by simp
    have 8: "\<exists>w'. sunix_parport_put_port d ?w7 = Some w' \<and> wd_held w' = Ops_mem d # wd_held w \<and> wd_ports w' = (wd_ports ?w7)(d := None)
      \<and> wd_all w' = remove1 d (wd_all ?w7) \<and> wd_list w' = wd_list ?w7 \<and> wd_ports_list w' = wd_ports_list ?w7"
      by (rule put_last) (use F(3) p(4) w5 in simp_all)
    then obtain w8 where w8: "sunix_parport_put_port d ?w7 = Some w8" "wd_held w8 = Ops_mem d # wd_held w"
      "wd_ports w8 = (wd_ports w)(d := None)" "wd_all w8 = wd_all w" "wd_list w8 = wd_list w" "wd_ports_list w8 = wd_ports_list w"
      using w5 S(3) by (auto simp: acquire_def)
    have "sunix_parport_pc_probe_port attach an d priv w = Some (None, w8\<lparr>wd_held := wd_held w\<rparr>)"
      unfolding eq 6 using nf by (simp add: 7 w8(1,2))
    then show "\<exists>w'. sunix_parport_pc_probe_port attach an d priv w = Some (None, w') \<and> wd_held w' = wd_held w \<and> wd_all w' = wd_all w
       \<and> wd_list w' = wd_list w \<and> wd_ports_list w' = wd_ports_list w \<and> wd_ports w' = (wd_ports w)(d := None)"
      using w8 by simp
    qed
  next
    show "found \<longrightarrow> (\<exists>w1. sunix_parport_pc_probe_port attach an d priv w
         = Some (Some d, sunix_parport_announce_port attach d w1)
       \<and> wd_mach w1 = m \<and> wd_held w1 = acquired an d priv @ wd_held w \<and> remove1 d (wd_all w1) = wd_all w
       \<and> wd_list w1 = wd_list w \<and> wd_ports_list w1 = d # wd_ports_list w \<and> wd_ports w1 = (wd_ports w)(d \<mapsto> p1))"
    proof
    assume f: found
    let ?w' = "w5\<lparr>wd_ports_list := d # wd_ports_list w5\<rparr>"
    have e: "sunix_parport_pc_probe_port attach an d priv w = Some (Some d, sunix_parport_announce_port attach d ?w')"
      unfolding eq using f by (simp only: not_True_eq_False if_False)
    have "wd_mach ?w' = m \<and> wd_held ?w' = acquired an d priv @ wd_held w \<and> remove1 d (wd_all ?w') = wd_all w
       \<and> wd_list ?w' = wd_list w \<and> wd_ports_list ?w' = d # wd_ports_list w \<and> wd_ports ?w' = (wd_ports w)(d \<mapsto> p1)"
      using w5 S(3) by (simp add: acquire_def)
    then show "\<exists>w1. sunix_parport_pc_probe_port attach an d priv w
         = Some (Some d, sunix_parport_announce_port attach d w1)
       \<and> wd_mach w1 = m \<and> wd_held w1 = acquired an d priv @ wd_held w \<and> remove1 d (wd_all w1) = wd_all w
       \<and> wd_list w1 = wd_list w \<and> wd_ports_list w1 = d # wd_ports_list w \<and> wd_ports w1 = (wd_ports w)(d \<mapsto> p1)"
      using e by blast
    qed
  qed
qed

lemma probe_refused:
  assumes "d \<notin> set (wd_all w)" and "\<not> (an_ops an \<and> an_port an \<and> an_name an \<and> an_region an)"
  shows "\<exists>w'. sunix_parport_pc_probe_port attach an d priv w = Some (None, w') \<and> wd_all w' = wd_all w
    \<and> wd_ports_list w' = wd_ports_list w
    \<and> wd_held w' = (if an_ops an \<and> an_port an \<and> \<not> an_name an then [Port_mem d] else []) @ wd_held w"
proof -
  consider "\<not> an_ops an" | "an_ops an" "\<not> an_port an" | "an_ops an" "an_port an" "\<not> an_name an"
    | "an_ops an" "an_port an" "an_name an" "\<not> an_region an" using assms(2) by blast
  then show ?thesis
  proof cases
    case 4
    let ?w1 = "acquire (Ops_mem d) w"
    obtain r w2 where 2: "sunix_parport_register_port True True d priv ?w1 = (r, w2)" by fastforce
    have "d \<notin> set (wd_all ?w1)" using assms(1) by (simp add: acquire_def)
    note S = register_port_shape [OF this 2]
    obtain p where p: "wd_ports w2 = (wd_ports w)(d \<mapsto> p)" "pt_ref_count p = 1" using S(8) by (auto simp: acquire_def)
    obtain w8 where w8: "sunix_parport_put_port d w2 = Some w8" "wd_held w8 = Ops_mem d # wd_held w" "wd_all w8 = wd_all w"
      "wd_ports_list w8 = wd_ports_list w"
      using put_last [of w2 d p "Ops_mem d # wd_held w"] S p by (auto simp: acquire_def)
    then show ?thesis using 4 2 S(1) by (simp add: sunix_parport_pc_probe_port_def acquire_def)
  qed (simp_all add: sunix_parport_pc_probe_port_def sunix_parport_register_port_def acquire_def give_back_def)
qed

text \<open>
  C35. Probing a port always returns. A failed probe gives back all it acquired, whichever step
  failed and whatever the hardware answers, except that the memory of the port is lost when only
  the allocation of its name fails; a successful one holds the operations, the port, its name,
  its region and, when it got it, the second region, and the port starts with one reference and
  a control register copy that is true.
\<close>

theorem probe_acquires_all_or_nothing:
  assumes "d \<notin> set (wd_all w)" and "keeps_ports attach"
  shows "\<exists>r w'. sunix_parport_pc_probe_port attach an d priv w = Some (r, w')
    \<and> (case r of
         None \<Rightarrow> wd_all w' = wd_all w \<and> wd_ports_list w' = wd_ports_list w
           \<and> wd_held w' = (if an_ops an \<and> an_port an \<and> \<not> an_name an then [Port_mem d] else []) @ wd_held w
       | Some d' \<Rightarrow> d' = d \<and> wd_held w' = acquired an d priv @ wd_held w \<and> wd_ports_list w' = d # wd_ports_list w
           \<and> (\<exists>p. wd_ports w' d = Some p \<and> pt_ref_count p = 1 \<and> pp_ctr_writable (pt_priv p) = NOT 0x10
                \<and> (\<exists>m. ctr_shadow p m)))"
proof (cases "an_ops an \<and> an_port an \<and> an_name an \<and> an_region an")
  case False
  then show ?thesis using probe_refused [OF assms(1) False] by fastforce
next
  case True
  then have an: "an_ops an" "an_port an" "an_name an" "an_region an" by simp_all
  obtain p found p1 m where P: "pt_base p = pp_base priv" "pt_base_hi p = pp_base_hi priv"
      "probe_hardware (pp_base_hi priv \<noteq> 0 \<and> an_region_hi an) (p, wd_mach w) = (found, p1, m)"
      "pt_ref_count p = 1" "pt_ops p = Pc_ops"
      "\<not> found \<longrightarrow> (\<exists>w'. sunix_parport_pc_probe_port attach an d priv w = Some (None, w') \<and> wd_held w' = wd_held w \<and> wd_all w' = wd_all w
       \<and> wd_list w' = wd_list w \<and> wd_ports_list w' = wd_ports_list w \<and> wd_ports w' = (wd_ports w)(d := None))"
      "found \<longrightarrow> (\<exists>w1. sunix_parport_pc_probe_port attach an d priv w
         = Some (Some d, sunix_parport_announce_port attach d w1)
       \<and> wd_mach w1 = m \<and> wd_held w1 = acquired an d priv @ wd_held w \<and> remove1 d (wd_all w1) = wd_all w
       \<and> wd_list w1 = wd_list w \<and> wd_ports_list w1 = d # wd_ports_list w \<and> wd_ports w1 = (wd_ports w)(d \<mapsto> p1))"
    by (rule probe_registered [OF assms(1) an assms(2), of priv])
  note F = probe_hardware_frame [OF P(3)]
  show ?thesis
  proof (cases found)
    case False
    from P(6) this obtain w' where "sunix_parport_pc_probe_port attach an d priv w = Some (None, w')"
      "wd_held w' = wd_held w" "wd_all w' = wd_all w" "wd_ports_list w' = wd_ports_list w" by blast
    then show ?thesis using an by simp
  next
    case True
    from P(7) this obtain w1 where w1: "sunix_parport_pc_probe_port attach an d priv w = Some (Some d, sunix_parport_announce_port attach d w1)"
      "wd_held w1 = acquired an d priv @ wd_held w" "wd_ports_list w1 = d # wd_ports_list w" "wd_ports w1 = (wd_ports w)(d \<mapsto> p1)"
      by blast
    have "ctr_shadow p1 m" using probe_hardware_found P(3) True by simp
    then show ?thesis using w1 F(3,6) P(4) keeps_chain [OF assms(2)]
      by (auto simp: sunix_parport_announce_port_def)
  qed
qed

subsection \<open>All ports\<close>

text \<open>
  What a probed port holds when every region it asked for was granted; \<open>ports_held H w\<close>: the driver holds that
  for each port on its list, and \<open>H\<close> besides.
\<close>

definition port_res :: "nat \<Rightarrow> snx_parport \<Rightarrow> par_res multiset" where
  "port_res d p = {#Ops_mem d, Port_mem d, Name_mem d, Region (pt_base p)#} + (if pt_base_hi p \<noteq> 0 then {#Region (pt_base_hi p)#} else {#})"

definition ports_held :: "par_res multiset \<Rightarrow> 'd par_world \<Rightarrow> bool" where
  "ports_held H w \<longleftrightarrow> distinct (wd_ports_list w)
     \<and> (\<forall>d \<in> set (wd_ports_list w). \<exists>p. wd_ports w d = Some p \<and> pt_ref_count p = 1)
     \<and> mset (wd_held w) = H + sum_list (map (\<lambda>d. port_res d (the (wd_ports w d))) (wd_ports_list w))"

lemma give_back_mset:
  assumes "mset (wd_held w) = add_mset r M"
  shows "\<exists>hs. give_back r w = Some (w\<lparr>wd_held := hs\<rparr>) \<and> mset hs = M"
proof -
  have "r \<in> set (wd_held w)" using assms by (metis set_mset_mset union_single_eq_member)
  then show ?thesis using assms by (intro exI [of _ "remove1 r (wd_held w)"]) (simp add: give_back_def)
qed

lemma res_sum_cong:
  "x \<notin> set ds \<Longrightarrow> (\<Sum>d\<leftarrow>ds. port_res d (the (if d = x then q else ps d))) = (\<Sum>d\<leftarrow>ds. port_res d (the (ps d)))"
  by (intro arg_cong [where f = sum_list] map_cong) auto

lemma put_last_mset:
  assumes "wd_ports w d = Some p" "pt_ref_count p = 1" "mset (wd_held w) = {#Name_mem d, Port_mem d#} + M"
  obtains w' where "sunix_parport_put_port d w = Some w'" "mset (wd_held w') = M" "wd_ports w' = (wd_ports w)(d := None)"
    "wd_all w' = remove1 d (wd_all w)" "wd_list w' = wd_list w" "wd_ports_list w' = wd_ports_list w" "wd_drivers w' = wd_drivers w"
proof -
  let ?w1 = "w\<lparr>wd_ports := (wd_ports w)(d \<mapsto> p\<lparr>pt_ref_count := 0\<rparr>), wd_all := remove1 d (wd_all w)\<rparr>"
  obtain h1 where 1: "give_back (Name_mem d) ?w1 = Some (?w1\<lparr>wd_held := h1\<rparr>)" "mset h1 = add_mset (Port_mem d) M"
    using give_back_mset [of ?w1 "Name_mem d" "add_mset (Port_mem d) M"] assms(3) by auto
  obtain h2 where 2: "give_back (Port_mem d) (?w1\<lparr>wd_held := h1\<rparr>) = Some (?w1\<lparr>wd_held := h2\<rparr>)" "mset h2 = M"
    using give_back_mset [of "?w1\<lparr>wd_held := h1\<rparr>" "Port_mem d" M] 1(2) by auto
  show ?thesis
    by (rule that [of "?w1\<lparr>wd_held := h2, wd_ports := (wd_ports ?w1)(d := None)\<rparr>"])
      (use assms(1,2) 1(1) 2 in \<open>simp_all add: sunix_parport_put_port_def sunix_free_port_def\<close>)
qed

lemma unregister_head:
  assumes held: "ports_held H w" and l: "wd_ports_list w = d # ds" and "keeps_ports detach"
  obtains w' where "sunix_parport_pc_unregister_port detach d w = Some w'" "wd_ports_list w' = ds" "ports_held H w'"
proof -
  obtain p where p: "wd_ports w d = Some p" "pt_ref_count p = 1" using held l by (auto simp: ports_held_def)
  define w0 where "w0 = sunix_detach_driver_chain detach d w"
  have w0: "wd_held w0 = wd_held w" "wd_ports w0 = wd_ports w" "wd_all w0 = wd_all w" "wd_ports_list w0 = d # ds"
    using keeps_chain [OF assms(3)] l by (simp_all add: w0_def)
  define w1 where "w1 = w0\<lparr>wd_ports := (wd_ports w0)(d \<mapsto> p\<lparr>pt_ops := Dead_ops\<rparr>), wd_list := remove1 d (wd_list w0)\<rparr>"
  define w2 where "w2 = w1\<lparr>wd_ports_list := ds\<rparr>"
  let ?hi = "if pt_base_hi p \<noteq> 0 then {#Region (pt_base_hi p)#} else {#}"
  let ?R = "sum_list (map (\<lambda>d. port_res d (the (wd_ports w d))) ds)"
  let ?M = "{#Name_mem d, Port_mem d, Ops_mem d#} + (H + ?R)"
  have "mset (wd_held w2) = add_mset (Region (pt_base p)) (?hi + ?M)"
    using held l w0 p by (simp add: ports_held_def w1_def w2_def port_res_def add_mset_commute add_ac)
  from give_back_mset [OF this] obtain h1 where 1: "give_back (Region (pt_base p)) w2 = Some (w2\<lparr>wd_held := h1\<rparr>)" "mset h1 = ?hi + ?M" by blast
  let ?w3 = "w2\<lparr>wd_held := h1\<rparr>"
  obtain h2 where 2: "(if pt_base_hi p \<noteq> 0 then give_back (Region (pt_base_hi p)) ?w3 else Some ?w3) = Some (w2\<lparr>wd_held := h2\<rparr>)" "mset h2 = ?M"
  proof (cases "pt_base_hi p = 0")
    case True
    then show ?thesis using that [of h1] 1(2) by simp
  next
    case False
    then show ?thesis using give_back_mset [of ?w3 "Region (pt_base_hi p)" ?M] that 1(2) by auto
  qed
  let ?w4 = "w2\<lparr>wd_held := h2\<rparr>"
  have "mset (wd_held ?w4) = {#Name_mem d, Port_mem d#} + ({#Ops_mem d#} + (H + ?R))" using 2(2) by simp
  from put_last_mset [OF _ _ this, of "p\<lparr>pt_ops := Dead_ops\<rparr>"] p(2) obtain w5 where
    5: "sunix_parport_put_port d ?w4 = Some w5" "mset (wd_held w5) = add_mset (Ops_mem d) (H + ?R)" "wd_ports w5 = (wd_ports w)(d := None)"
      "wd_all w5 = remove1 d (wd_all w)" "wd_ports_list w5 = ds"
    using w0 by (auto simp: w1_def w2_def)
  from give_back_mset [OF 5(2)] obtain h6 where 6: "give_back (Ops_mem d) w5 = Some (w5\<lparr>wd_held := h6\<rparr>)" "mset h6 = H + ?R" by blast
  have "sunix_parport_pc_unregister_port detach d w = Option.bind (give_back (Region (pt_base p)) w2) (\<lambda>w2.
      Option.bind (if pt_base_hi p \<noteq> 0 then give_back (Region (pt_base_hi p)) w2 else Some w2) (\<lambda>w3.
      Option.bind (sunix_parport_put_port d w3) (give_back (Ops_mem d))))"
    using w0 p by (simp add: sunix_parport_pc_unregister_port_def sunix_parport_remove_port_def Let_def w1_def w2_def cong: if_cong flip: w0_def)
  also have "\<dots> = Some (w5\<lparr>wd_held := h6\<rparr>)"
    unfolding 1(1) Option.bind.bind_lunit 2(1) 5(1) 6(1) ..
  finally have "sunix_parport_pc_unregister_port detach d w = Some (w5\<lparr>wd_held := h6\<rparr>)" .
  moreover have "ports_held H (w5\<lparr>wd_held := h6\<rparr>)"
  proof -
    have d: "d \<notin> set ds" "distinct ds" using held l by (simp_all add: ports_held_def)
    then show ?thesis using held l 5 6(2) by (auto simp: ports_held_def res_sum_cong)
  qed
  ultimately show ?thesis using that 5(5) by simp
qed

lemma parport_exit_ok:
  assumes "ports_held H w" and "keeps_ports detach"
  obtains w' where "sunix_par_parport_exit detach w = Some w'" "mset (wd_held w') = H" "wd_ports_list w' = []"
proof -
  have "\<exists>w'. unregister_ports detach ds w = Some w' \<and> mset (wd_held w') = H \<and> wd_ports_list w' = []"
    if "ports_held H w" "wd_ports_list w = ds" for ds
    using that
  proof (induction ds arbitrary: w)
    case Nil
    then show ?case by (simp add: ports_held_def)
  next
    case (Cons d ds)
    obtain w1 where "sunix_parport_pc_unregister_port detach d w = Some w1" "wd_ports_list w1 = ds" "ports_held H w1"
      by (rule unregister_head [OF Cons.prems assms(2)])
    then show ?case using Cons.IH by simp
  qed
  then show ?thesis using assms(1) that by (auto simp: sunix_par_parport_exit_def)
qed

text \<open>Probing the ports of the table: an address is used once, so the loop never faults.\<close>

lemma probe_ports_ok:
  assumes "keeps_ports attach" and "\<And>i. an_region_hi (ans i)"
  shows "ports_held H w \<Longrightarrow> distinct (map (\<lambda>x. addr (fst x)) pps) \<Longrightarrow> set (map (\<lambda>x. addr (fst x)) pps) \<inter> (set (wd_all w) \<union> set (wd_ports_list w)) = {}
    \<Longrightarrow> \<exists>st w'. probe_ports attach ans addr pps w = Some (st, w') \<and> (st = 0 \<longrightarrow> ports_held H w')"
proof (induction pps arbitrary: w)
  case Nil
  then show ?case by simp
next
  case (Cons x pps)
  obtain i pp where x: "x = (i, pp)" by fastforce
  show ?case
  proof (cases "pp_base pp > 0 \<and> pp_chip_flag pp \<noteq> SUNNONE_HWID")
    case False
    then show ?thesis using Cons x by auto
  next
    case go: True
    have d: "addr i \<notin> set (wd_all w)" and new: "addr i \<notin> set (wd_ports_list w)" using Cons.prems x by auto
    show ?thesis
    proof (cases "an_ops (ans i) \<and> an_port (ans i) \<and> an_name (ans i) \<and> an_region (ans i)")
      case False
      then show ?thesis using probe_refused [OF d False, of attach pp] go x by auto
    next
      case True
      then have an: "an_ops (ans i)" "an_port (ans i)" "an_name (ans i)" "an_region (ans i)" by simp_all
      obtain p found p1 m where P: "pt_base p = pp_base pp" "pt_base_hi p = pp_base_hi pp"
        "probe_hardware (pp_base_hi pp \<noteq> 0 \<and> an_region_hi (ans i)) (p, wd_mach w) = (found, p1, m)" "pt_ref_count p = 1"
        "\<not> found \<longrightarrow> (\<exists>w'. sunix_parport_pc_probe_port attach (ans i) (addr i) pp w = Some (None, w'))"
        "found \<longrightarrow> (\<exists>w1. sunix_parport_pc_probe_port attach (ans i) (addr i) pp w = Some (Some (addr i), sunix_parport_announce_port attach (addr i) w1)
          \<and> wd_held w1 = acquired (ans i) (addr i) pp @ wd_held w \<and> remove1 (addr i) (wd_all w1) = wd_all w
          \<and> wd_ports_list w1 = addr i # wd_ports_list w \<and> wd_ports w1 = (wd_ports w)(addr i \<mapsto> p1))"
        by (rule probe_registered [OF d an assms(1), of pp]) blast
      note F = probe_hardware_frame [OF P(3)]
      show ?thesis
      proof (cases found)
        case False
        then show ?thesis using P(5) go x by auto
      next
        case True
        from P(6) this obtain w1 where w1: "sunix_parport_pc_probe_port attach (ans i) (addr i) pp w = Some (Some (addr i), sunix_parport_announce_port attach (addr i) w1)"
          "wd_held w1 = acquired (ans i) (addr i) pp @ wd_held w" "remove1 (addr i) (wd_all w1) = wd_all w"
          "wd_ports_list w1 = addr i # wd_ports_list w" "wd_ports w1 = (wd_ports w)(addr i \<mapsto> p1)" by blast
        let ?w2 = "sunix_parport_announce_port attach (addr i) w1"
        have w2: "wd_held ?w2 = wd_held w1" "wd_all ?w2 = wd_all w1" "wd_ports_list ?w2 = wd_ports_list w1" "wd_ports ?w2 = wd_ports w1"
          using keeps_chain [OF assms(1)] by (simp_all add: sunix_parport_announce_port_def)
        have all: "set (wd_all w1) \<subseteq> insert (addr i) (set (wd_all w))"
          using w1(3) by (metis insert_iff in_set_remove1 subsetI)
        have "mset (acquired (ans i) (addr i) pp) = port_res (addr i) p1"
          using P(1,2) F(1,2) assms(2) by (auto simp: acquired_def port_res_def add_mset_commute)
        then have "ports_held H ?w2" using Cons.prems(1) new w1 w2 F(3) P(4) by (auto simp: ports_held_def res_sum_cong)
        moreover have "set (map (\<lambda>x. addr (fst x)) pps) \<inter> (set (wd_all ?w2) \<union> set (wd_ports_list ?w2)) = {}"
        proof -
          let ?A = "set (map (\<lambda>x. addr (fst x)) pps)"
          have "?A \<inter> (set (wd_all w) \<union> set (wd_ports_list w)) = {}" "addr i \<notin> ?A" using Cons.prems(2,3) x by auto
          then show ?thesis unfolding w2 w1(4) using all by (simp del: set_map) blast
        qed
        moreover have "distinct (map (\<lambda>x. addr (fst x)) pps)" using Cons.prems(2) by simp
        ultimately show ?thesis using Cons.IH [of ?w2] w1(1) go x by auto
      qed
    qed
  qed
qed


text \<open>Probing a port at an address whose control register reads back, the second region refused.\<close>

definition par_example_priv :: sunix_par_port where
  "par_example_priv = zero_par_port\<lparr>pp_base := 0x378, pp_base_hi := 0x778\<rparr>"

definition only_base :: par_answers where
  "only_base = \<lparr>an_ops = True, an_port = True, an_name = True, an_region = True, an_region_hi = False\<rparr>"

definition echo_world :: "unit par_world" where
  "echo_world = no_ports\<lparr>wd_mach := echo_machine\<rparr>"

lemma quiet_hook: "keeps_ports (\<lambda>_ _ w. w)"
  by (simp add: keeps_ports_def)

theorem probe_acquires_all_or_nothing_witness:
  "\<exists>r w'. sunix_parport_pc_probe_port (\<lambda>_ _ w. w) (only_base\<lparr>an_name := False\<rparr>) 7 par_example_priv echo_world = Some (r, w')
     \<and> (r = None \<longrightarrow> wd_held w' = [Port_mem 7])"
  using probe_acquires_all_or_nothing [OF _ quiet_hook, of 7 echo_world "only_base\<lparr>an_name := False\<rparr>" par_example_priv]
  by (fastforce simp: echo_world_def no_ports_def only_base_def)


end
