(* ===== verification/Snx_Dlist.thy ===== *)
theory Snx_Dlist
  imports Main
begin

text \<open>
  Doubly linked lists through \<^verbatim>\<open>next\<close> and \<^verbatim>\<open>prev\<close> fields with head and tail pointers, as
  driver/snx_share.c keeps two of them: the devices of a port and the devices waiting for it.
  \<open>dll nx pv h0 t0 xs\<close>: following \<open>nx\<close> from \<open>h0\<close> gives \<open>xs\<close>, following \<open>pv\<close> from \<open>t0\<close> gives it
  backwards. The lemmas say what appending, pushing and unlinking do to the list, for pointer
  fields updated one at a time.
\<close>

section \<open>Doubly linked lists\<close>

fun first :: "'a list \<Rightarrow> 'a option" where
  "first [] = None"
| "first (x # xs) = Some x"

definition final :: "'a list \<Rightarrow> 'a option" where
  "final xs = first (rev xs)"

lemma final_simps [simp]: "final [] = None" "final (xs @ [x]) = Some x"
  by (simp_all add: final_def)

lemma first_append [simp]: "first (xs @ ys) = (case first xs of None \<Rightarrow> first ys | Some x \<Rightarrow> Some x)"
  by (cases xs) auto

lemma final_append [simp]: "final (xs @ ys) = (case final ys of None \<Rightarrow> final xs | Some y \<Rightarrow> Some y)"
  by (cases ys rule: rev_cases) (simp_all add: final_def)

lemma final_Cons [simp]: "final (x # xs) = (case final xs of None \<Rightarrow> Some x | Some y \<Rightarrow> Some y)"
  by (cases xs rule: rev_cases) (simp_all add: final_def)

lemma first_None [simp]: "first xs = None \<longleftrightarrow> xs = []"
  by (cases xs) auto

lemma final_None [simp]: "final xs = None \<longleftrightarrow> xs = []"
  by (simp add: final_def)

lemma first_Some: "first xs = Some x \<longleftrightarrow> (\<exists>ys. xs = x # ys)"
  by (cases xs) auto

lemma final_Some: "final xs = Some x \<longleftrightarrow> (\<exists>ys. xs = ys @ [x])"
  by (cases xs rule: rev_cases) auto

definition dll :: "('r \<Rightarrow> 'r option) \<Rightarrow> ('r \<Rightarrow> 'r option) \<Rightarrow> 'r option \<Rightarrow> 'r option \<Rightarrow> 'r list \<Rightarrow> bool" where
  "dll nx pv h0 t0 xs \<longleftrightarrow> distinct xs \<and> h0 = first xs \<and> t0 = final xs
     \<and> (\<forall>as d bs. xs = as @ d # bs \<longrightarrow> nx d = first bs \<and> pv d = final as)"

lemma dllD:
  assumes "dll nx pv h0 t0 xs"
  shows "distinct xs" "h0 = first xs" "t0 = final xs" "xs = as @ d # bs \<Longrightarrow> nx d = first bs"
    "xs = as @ d # bs \<Longrightarrow> pv d = final as"
  using assms by (auto simp: dll_def)

lemma dllI:
  assumes "distinct xs" "h0 = first xs" "t0 = final xs"
    "\<And>as d bs. xs = as @ d # bs \<Longrightarrow> nx d = first bs" "\<And>as d bs. xs = as @ d # bs \<Longrightarrow> pv d = final as"
  shows "dll nx pv h0 t0 xs"
  using assms by (simp add: dll_def)

lemma dll_empty [simp]: "dll nx pv h0 t0 [] \<longleftrightarrow> h0 = None \<and> t0 = None"
  by (auto simp: dll_def)

text \<open>The list is determined by the pointers.\<close>

lemma dll_unique:
  assumes "dll nx pv h0 t0 xs" and "dll nx pv h0 t0 ys"
  shows "xs = ys"
proof -
  have gen: "us = vs" if "xs = as @ us" "ys = bs @ vs" "first us = first vs" for as bs us vs
    using that
  proof (induction us arbitrary: as bs vs)
    case Nil
    then show ?case by (metis first.simps(1) first_None)
  next
    case (Cons u us)
    then obtain vs' where v: "vs = u # vs'" by (metis first.simps(2) first_Some)
    have "first us = first vs'"
      using dllD(4) [OF assms(1), of as u us] dllD(4) [OF assms(2), of bs u vs'] Cons.prems v by simp
    then show ?case using Cons.IH [of "as @ [u]" "bs @ [u]" vs'] Cons.prems v by simp
  qed
  show ?thesis using gen [of "[]" xs "[]" ys] dllD(2) [OF assms(1)] dllD(2) [OF assms(2)] by simp
qed

text \<open>Pointers of other elements do not matter.\<close>

lemma dll_cong:
  assumes "dll nx pv h0 t0 xs" and "\<And>d. d \<in> set xs \<Longrightarrow> nx' d = nx d \<and> pv' d = pv d"
  shows "dll nx' pv' h0 t0 xs"
  using assms by (auto simp: dll_def)

text \<open>Adding at the end.\<close>

lemma dll_snoc:
  assumes "dll nx pv h0 t0 xs" and "d \<notin> set xs"
    and "nx' = (case t0 of None \<Rightarrow> nx(d := None) | Some t \<Rightarrow> nx(d := None, t := Some d))"
    and "pv' = pv(d := t0)"
  shows "dll nx' pv' (if t0 = None then Some d else h0) (Some d) (xs @ [d])"
proof (rule dllI)
  note D = dllD [OF assms(1)]
  show "distinct (xs @ [d])" using D(1) assms(2) by simp
  show "(if t0 = None then Some d else h0) = first (xs @ [d])"
    using D(2,3) by (cases xs) (auto split: option.splits)
  show "Some d = final (xs @ [d])" by simp
  fix as e bs assume s: "xs @ [d] = as @ e # bs"
  show "nx' e = first bs"
  proof (cases bs rule: rev_cases)
    case Nil
    then have "e = d" "as = xs" using s by auto
    then show ?thesis using assms(2,3) D(3) Nil by (auto split: option.splits simp: final_Some)
  next
    case (snoc bs' y)
    then have x: "xs = as @ e # bs'" "y = d" using s by (metis append.assoc append_Cons last_snoc butlast_snoc)+
    have ne: "e \<noteq> d" using x assms(2) by auto
    show ?thesis
    proof (cases "bs' = []")
      case True
      then have "t0 = Some e" using D(3) x by simp
      then show ?thesis using assms(3) snoc x True by simp
    next
      case False
      then have "t0 \<noteq> Some e" using D(1,3) x by (cases bs' rule: rev_cases) auto
      then have "nx' e = nx e" using assms(3) ne by (auto split: option.splits)
      then show ?thesis using D(4) [OF x(1)] snoc False by (auto split: option.splits)
    qed
  qed
  show "pv' e = final as"
  proof (cases bs rule: rev_cases)
    case Nil
    then show ?thesis using s assms(4) D(3) by auto
  next
    case (snoc bs' y)
    then have x: "xs = as @ e # bs'" using s by (metis append.assoc append_Cons butlast_snoc)
    then show ?thesis using D(5) [OF x] assms(2,4) by auto
  qed
qed

text \<open>Adding at the front; the tail pointer is not kept by every list.\<close>

lemma dll_push:
  assumes "dll nx pv h0 t0 xs" and "d \<notin> set xs"
    and "nx' = nx(d := h0)"
    and "pv' = (case h0 of None \<Rightarrow> pv(d := None) | Some h \<Rightarrow> pv(d := None, h := Some d))"
  shows "dll nx' pv' (Some d) (if h0 = None then Some d else t0) (d # xs)"
proof (rule dllI)
  note D = dllD [OF assms(1)]
  show "distinct (d # xs)" using D(1) assms(2) by simp
  show "Some d = first (d # xs)" by simp
  show "(if h0 = None then Some d else t0) = final (d # xs)"
    using D(2,3) by (cases xs rule: rev_cases) (auto split: option.splits)
  fix as e bs assume s: "d # xs = as @ e # bs"
  show "nx' e = first bs"
  proof (cases as)
    case Nil
    then show ?thesis using s assms(3) D(2) by auto
  next
    case (Cons a as')
    then have x: "xs = as' @ e # bs" using s by simp
    then show ?thesis using D(4) [OF x] assms(2,3) by auto
  qed
  show "pv' e = final as"
  proof (cases as)
    case Nil
    then show ?thesis using s assms(2,4) D(2) by (auto split: option.splits simp: first_Some)
  next
    case (Cons a as')
    then have x: "xs = as' @ e # bs" and a: "a = d" using s by auto
    have ne: "e \<noteq> d" using x assms(2) by auto
    show ?thesis
    proof (cases "as' = []")
      case True
      then have "h0 = Some e" using D(2) x by simp
      then show ?thesis using assms(4) Cons a True by simp
    next
      case False
      then have "h0 \<noteq> Some e" using D(1,2) x by (cases as') auto
      then have "pv' e = pv e" using assms(4) ne by (auto split: option.splits)
      then show ?thesis using D(5) [OF x] Cons False by (auto split: option.splits)
    qed
  qed
qed

text \<open>Unlinking an element.\<close>

lemma dll_remove:
  assumes "dll nx pv h0 t0 xs" and "d \<in> set xs"
    and "nx' = (case pv d of None \<Rightarrow> nx | Some a \<Rightarrow> nx(a := nx d))"
    and "pv' = (case nx d of None \<Rightarrow> pv | Some b \<Rightarrow> pv(b := pv d))"
  shows "dll nx' pv' (if pv d = None then nx d else h0) (if nx d = None then pv d else t0) (remove1 d xs)"
proof -
  note D = dllD [OF assms(1)]
  obtain as bs where x: "xs = as @ d # bs" using assms(2) by (meson split_list)
  have d: "d \<notin> set as" "d \<notin> set bs" "distinct as" "distinct bs" "set as \<inter> set bs = {}" using D(1) x by auto
  have r: "remove1 d xs = as @ bs" using x d by (simp add: remove1_append)
  have n: "nx d = first bs" and p: "pv d = final as" using D(4,5) [OF x] by auto
  show ?thesis unfolding r
  proof (rule dllI)
    show "distinct (as @ bs)" using d by simp
    show "(if pv d = None then nx d else h0) = first (as @ bs)" using D(2) x n p by (cases as) (auto split: option.splits)
    show "(if nx d = None then pv d else t0) = final (as @ bs)"
      using D(3) x n p by (cases bs rule: rev_cases) (auto split: option.splits)
    fix us e vs assume s: "as @ bs = us @ e # vs"
    consider (l) cs where "as = us @ e # cs" "vs = cs @ bs" | (r) cs where "us = as @ cs" "bs = cs @ e # vs"
      using s by (auto simp: append_eq_append_conv2 append_eq_Cons_conv Cons_eq_append_conv)
    then show "nx' e = first vs"
    proof cases
      case l
      then have "xs = us @ e # (cs @ d # bs)" using x by simp
      from D(4) [OF this] have "nx e = first (cs @ d # bs)" .
      moreover have "pv d = Some e \<longleftrightarrow> cs = []" using p l(1) d(3) by (auto simp: final_Some split: option.splits)
      ultimately show ?thesis using l n p assms(3) by (cases "cs = []") (auto split: option.splits)
    next
      case r
      then have "xs = (as @ d # cs) @ e # vs" using x by simp
      from D(4) [OF this] have "nx e = first vs" .
      moreover have "pv d \<noteq> Some e" using p r(2) d(5) by (auto simp: final_Some)
      ultimately show ?thesis using assms(3) by (auto split: option.splits)
    qed
    show "pv' e = final us"
      using \<open>as @ bs = us @ e # vs\<close>
    proof -
      consider (l) cs where "as = us @ e # cs" "vs = cs @ bs" | (r) cs where "us = as @ cs" "bs = cs @ e # vs"
        using s by (auto simp: append_eq_append_conv2 append_eq_Cons_conv Cons_eq_append_conv)
      then show ?thesis
      proof cases
        case l
        then have "xs = us @ e # (cs @ d # bs)" using x by simp
        from D(5) [OF this] have "pv e = final us" .
        moreover have "nx d \<noteq> Some e" using n l(1) d(5) by (auto simp: first_Some)
        ultimately show ?thesis using assms(4) by (auto split: option.splits)
      next
        case r
        then have "xs = (as @ d # cs) @ e # vs" using x by simp
        from D(5) [OF this] have "pv e = final (as @ d # cs)" .
        moreover have "nx d = Some e \<longleftrightarrow> cs = []" using n r(2) d(4) by (cases cs) auto
        ultimately show ?thesis using r n p assms(4) by (cases "cs = []") (auto split: option.splits)
      qed
    qed
  qed
qed

end
