(* ===== verification/Snx_Share.thy ===== *)
theory Snx_Share
  imports Snx_Parport Snx_Dlist "HOL-Library.Monad_Syntax"
begin

text \<open>
  Sharing one parallel port among devices (driver/snx_share.c): registering and unregistering a
  device, claiming the port, waiting for it, and releasing it. The devices live in a store from
  addresses to structs; both lists of a port run through their pointers as in the code, so a
  stale pointer is a lookup that fails, and an operation that would follow one is \<open>None\<close>.
  The preempt and wakeup functions a device registers, and what other tasks do while one sleeps,
  are parameters. The abstraction is an arbiter: an owner and a queue of waiters.
\<close>

section \<open>Sharing a port\<close>

subsection \<open>State\<close>

abbreviation (input) PARPORT_DEV_LURK :: u32 where "PARPORT_DEV_LURK \<equiv> 1"
abbreviation (input) PARPORT_DEV_EXCL :: u32 where "PARPORT_DEV_EXCL \<equiv> 2"
abbreviation (input) PARPORT_FLAG_EXCL :: u32 where "PARPORT_FLAG_EXCL \<equiv> 2"

text \<open>The three callbacks are kept as "is not NULL"; \<open>pd_timeout\<close> is in ticks.\<close>

record snx_pardevice =
  pd_preempt :: bool
  pd_wakeup :: bool
  pd_irq_func :: bool
  pd_flags :: u32
  pd_next :: "nat option"
  pd_prev :: "nat option"
  pd_state :: snx_parport_state
  pd_time :: u64
  pd_timeslice :: u64
  pd_timeout :: int
  pd_waiting :: u64
  pd_waitprev :: "nat option"
  pd_waitnext :: "nat option"

record share =
  sh_port :: snx_parport
  sh_devs :: "nat \<Rightarrow> snx_pardevice option"
  sh_mach :: machine

type_synonym 'a preempt_fn = "nat \<Rightarrow> 'a share_scheme \<Rightarrow> bool \<times> 'a share_scheme"
type_synonym 'a wakeup_fn = "nat \<Rightarrow> 'a share_scheme \<Rightarrow> 'a share_scheme option"
type_synonym 'a sleep_fn = "'a share_scheme \<Rightarrow> 'a share_scheme"

definition upd_port :: "(snx_parport \<Rightarrow> snx_parport) \<Rightarrow> 'a share_scheme \<Rightarrow> 'a share_scheme" where
  "upd_port f s = s\<lparr>sh_port := f (sh_port s)\<rparr>"

definition upd_dev :: "nat \<Rightarrow> (snx_pardevice \<Rightarrow> snx_pardevice) \<Rightarrow> 'a share_scheme \<Rightarrow> 'a share_scheme option" where
  "upd_dev d f s = (case sh_devs s d of None \<Rightarrow> None | Some v \<Rightarrow> Some (s\<lparr>sh_devs := (sh_devs s)(d \<mapsto> f v)\<rparr>))"

text \<open>A function of port and machine, run on the shared state.\<close>

definition on_port :: "(snx_parport \<times> machine \<Rightarrow> snx_parport \<times> machine) \<Rightarrow> 'a share_scheme \<Rightarrow> 'a share_scheme" where
  "on_port f s = (case f (sh_port s, sh_mach s) of (p, m) \<Rightarrow> s\<lparr>sh_port := p, sh_mach := m\<rparr>)"

subsection \<open>The wait list\<close>

definition link_wait :: "nat \<Rightarrow> 'a share_scheme \<Rightarrow> 'a share_scheme option" where
  "link_wait d s =
    do {
      s1 \<leftarrow> upd_dev d (\<lambda>v. v\<lparr>pd_waitnext := None, pd_waitprev := pt_waittail (sh_port s)\<rparr>) s;
      case pt_waittail (sh_port s1) of
        Some t \<Rightarrow>
          do { s2 \<leftarrow> upd_dev t (\<lambda>v. v\<lparr>pd_waitnext := Some d\<rparr>) s1;
               Some (upd_port (\<lambda>p. p\<lparr>pt_waittail := Some d\<rparr>) s2) }
      | None \<Rightarrow> Some (upd_port (\<lambda>p. p\<lparr>pt_waithead := Some d, pt_waittail := Some d\<rparr>) s1)
    }"

definition unlink_wait :: "nat \<Rightarrow> 'a share_scheme \<Rightarrow> 'a share_scheme option" where
  "unlink_wait d s =
    do {
      v \<leftarrow> sh_devs s d;
      s1 \<leftarrow> (case pd_waitprev v of
               Some a \<Rightarrow> upd_dev a (\<lambda>w. w\<lparr>pd_waitnext := pd_waitnext v\<rparr>) s
             | None \<Rightarrow> Some (upd_port (\<lambda>p. p\<lparr>pt_waithead := pd_waitnext v\<rparr>) s));
      v1 \<leftarrow> sh_devs s1 d;
      (case pd_waitnext v1 of
         Some b \<Rightarrow> upd_dev b (\<lambda>w. w\<lparr>pd_waitprev := pd_waitprev v1\<rparr>) s1
       | None \<Rightarrow> Some (upd_port (\<lambda>p. p\<lparr>pt_waittail := pd_waitprev v1\<rparr>) s1))
    }"

subsection \<open>Claiming\<close>

text \<open>\<^verbatim>\<open>waiting\<close>: bit 0 says the device is on the wait list, bit 1 that its task sleeps.\<close>

definition claim_blocked :: "nat \<Rightarrow> 'a share_scheme \<Rightarrow> (int \<times> 'a share_scheme) option" where
  "claim_blocked d s =
    do {
      v \<leftarrow> sh_devs s d;
      s1 \<leftarrow> (if pd_waiting v AND 2 \<noteq> 0 \<or> pd_wakeup v then
               (if pd_waiting v AND 1 = 0 then
                 do { s0 \<leftarrow> upd_dev d (\<lambda>v. v\<lparr>pd_waiting := pd_waiting v OR 1\<rparr>) s; link_wait d s0 }
                else Some s)
             else Some s);
      Some (- EAGAIN, s1)
    }"

definition claim_granted :: "nat \<Rightarrow> 'a share_scheme \<Rightarrow> (int \<times> 'a share_scheme) option" where
  "claim_granted d s =
    do {
      v \<leftarrow> sh_devs s d;
      s1 \<leftarrow> (if pd_waiting v AND 1 \<noteq> 0 then
               do { s0 \<leftarrow> upd_dev d (\<lambda>v. v\<lparr>pd_waiting := 0\<rparr>) s;
                    s0 \<leftarrow> unlink_wait d s0;
                    upd_dev d (\<lambda>v. v\<lparr>pd_waitprev := None, pd_waitnext := None\<rparr>) s0 }
             else Some s);
      v1 \<leftarrow> sh_devs s1 d;
      (let s2 = on_port (ops_restore_state (pd_state v1)) (upd_port (\<lambda>p. p\<lparr>pt_cad := Some d\<rparr>) s1);
           (now, m) = jiffies (sh_mach s2)
       in do { s3 \<leftarrow> upd_dev d (\<lambda>v. v\<lparr>pd_time := now\<rparr>) (s2\<lparr>sh_mach := m\<rparr>); Some (0, s3) })
    }"

text \<open>
  The owner's preempt function answers \<open>True\<close> when it refuses. A new owner after it gave way saves
  the old state of the port, and the code saves it into the struct of the claiming device.
\<close>

definition save_into :: "nat \<Rightarrow> 'a share_scheme \<Rightarrow> 'a share_scheme option" where
  "save_into d s =
    do {
      v \<leftarrow> sh_devs s d;
      (let (st, m) = ops_save_state (sh_port s) (pd_state v) (sh_mach s)
       in upd_dev d (\<lambda>v. v\<lparr>pd_state := st\<rparr>) (s\<lparr>sh_mach := m\<rparr>))
    }"

definition sunix_parport_claim :: "'a preempt_fn \<Rightarrow> nat \<Rightarrow> 'a share_scheme \<Rightarrow> (int \<times> 'a share_scheme) option" where
  "sunix_parport_claim preempt d s =
    (if pt_cad (sh_port s) = Some d then Some (0, s)
     else
      (case pt_cad (sh_port s) of
         None \<Rightarrow> claim_granted d s
       | Some oldcad \<Rightarrow>
          do {
            ov \<leftarrow> sh_devs s oldcad;
            (if \<not> pd_preempt ov then claim_blocked d s
             else
              (case preempt oldcad s of (refused, s1) \<Rightarrow>
                if refused then claim_blocked d s1
                else
                  do {
                    s2 \<leftarrow> save_into d s1;
                    (if pt_cad (sh_port s2) \<noteq> Some oldcad \<and> pt_cad (sh_port s2) \<noteq> None
                     then claim_blocked d s2 else claim_granted d s2)
                  }))
          }))"

definition sunix_parport_claim_or_block ::
    "'a preempt_fn \<Rightarrow> 'a sleep_fn \<Rightarrow> nat \<Rightarrow> 'a share_scheme \<Rightarrow> (int \<times> 'a share_scheme) option" where
  "sunix_parport_claim_or_block preempt sleep d s =
    do {
      s0 \<leftarrow> upd_dev d (\<lambda>v. v\<lparr>pd_waiting := 2\<rparr>) s;
      (r, s1) \<leftarrow> sunix_parport_claim preempt d s0;
      v \<leftarrow> sh_devs s1 d;
      (let done = (\<lambda>r s. do { s' \<leftarrow> upd_dev d (\<lambda>v. v\<lparr>pd_waiting := 0\<rparr>) s; Some (r, s') }) in
       if r = - EAGAIN then
         if pd_waiting v \<noteq> 0 then
          (let s2 = sleep s1; (sig, m) = signal_pending (sh_mach s2); s3 = s2\<lparr>sh_mach := m\<rparr> in
           if sig then Some (- EINTR, s3) else done 1 s3)
         else done 0 s1
       else done r s1)
    }"

subsection \<open>Releasing\<close>

text \<open>
  The walk along the wait list. It ends at the first device whose task sleeps, which it makes the
  owner. A list that runs in a circle of devices nobody can wake would keep it going: \<open>None\<close>.
\<close>

partial_function (option) wake_waiters ::
    "'a preempt_fn \<Rightarrow> 'a wakeup_fn \<Rightarrow> nat option \<Rightarrow> 'a share_scheme \<Rightarrow> (bool \<times> 'a share_scheme) option" where
  "wake_waiters preempt wakeup pd s =
    (case pd of
       None \<Rightarrow> Some (False, s)
     | Some w \<Rightarrow>
        Option.bind (sh_devs s w) (\<lambda>v.
          if pd_waiting v AND 2 \<noteq> 0 then
            Option.bind (sunix_parport_claim preempt w s) (\<lambda>(_, s1). Some (True, s1))
          else if pd_wakeup v then
            Option.bind (wakeup w s) (\<lambda>s1.
              if pt_cad (sh_port s1) \<noteq> None then Some (True, s1)
              else Option.bind (sh_devs s1 w) (\<lambda>v1. wake_waiters preempt wakeup (pd_waitnext v1) s1))
          else wake_waiters preempt wakeup (pd_waitnext v) s))"

partial_function (option) wake_lurkers ::
    "'a wakeup_fn \<Rightarrow> nat \<Rightarrow> nat option \<Rightarrow> 'a share_scheme \<Rightarrow> 'a share_scheme option" where
  "wake_lurkers wakeup dev pd s =
    (if pt_cad (sh_port s) \<noteq> None then Some s
     else
      (case pd of
         None \<Rightarrow> Some s
       | Some w \<Rightarrow>
          Option.bind (sh_devs s w) (\<lambda>v.
            Option.bind (if pd_wakeup v \<and> w \<noteq> dev then wakeup w s else Some s) (\<lambda>s1.
              Option.bind (sh_devs s1 w) (\<lambda>v1. wake_lurkers wakeup dev (pd_next v1) s1)))))"

definition sunix_parport_release ::
    "'a preempt_fn \<Rightarrow> 'a wakeup_fn \<Rightarrow> nat \<Rightarrow> 'a share_scheme \<Rightarrow> 'a share_scheme option" where
  "sunix_parport_release preempt wakeup d s =
    (if pt_cad (sh_port s) \<noteq> Some d then Some s
     else
      do {
        s1 \<leftarrow> save_into d (upd_port (\<lambda>p. p\<lparr>pt_cad := None\<rparr>) s);
        (ended, s2) \<leftarrow> wake_waiters preempt wakeup (pt_waithead (sh_port s1)) s1;
        (if ended then Some s2 else wake_lurkers wakeup d (pt_devices (sh_port s2)) s2)
      })"

definition sunix_parport_yield_blocking ::
    "'a preempt_fn \<Rightarrow> 'a wakeup_fn \<Rightarrow> 'a sleep_fn \<Rightarrow> nat \<Rightarrow> 'a share_scheme \<Rightarrow> (int \<times> 'a share_scheme) option" where
  "sunix_parport_yield_blocking preempt wakeup sleep d s =
    do {
      v \<leftarrow> sh_devs s d;
      (let (now, m) = jiffies (sh_mach s); s1 = s\<lparr>sh_mach := m\<rparr> in
       if pt_waithead (sh_port s1) = None \<or> now - pd_time v < pd_timeslice v then Some (0, s1)
       else do { s2 \<leftarrow> sunix_parport_release preempt wakeup d s1; sunix_parport_claim_or_block preempt sleep d s2 })
    }"

subsection \<open>Registering and unregistering a device\<close>

definition sunix_parport_get_port :: "'a share_scheme \<Rightarrow> 'a share_scheme" where
  "sunix_parport_get_port = upd_port (\<lambda>p. p\<lparr>pt_ref_count := pt_ref_count p + 1\<rparr>)"

text \<open>The caller of the functions below holds a reference, so the last put is not here.\<close>

definition put_ref :: "'a share_scheme \<Rightarrow> 'a share_scheme" where
  "put_ref = upd_port (\<lambda>p. p\<lparr>pt_ref_count := pt_ref_count p - 1\<rparr>)"

text \<open>A new device. Fields the code leaves as the allocator returned them are 0 or NULL here.\<close>

definition new_pardevice :: "u64 \<Rightarrow> int \<Rightarrow> bool \<Rightarrow> bool \<Rightarrow> bool \<Rightarrow> u32 \<Rightarrow> snx_parport \<Rightarrow> snx_pardevice" where
  "new_pardevice timeslice HZ pf kf irq_func flags p =
    \<lparr>pd_preempt = pf, pd_wakeup = kf, pd_irq_func = irq_func, pd_flags = flags, pd_next = None, pd_prev = None,
     pd_state = (case pt_ops p of
                   Pc_ops \<Rightarrow> sunix_parport_pc_init_state irq_func p
                 | Dead_ops \<Rightarrow> \<lparr>st_ctr = 0, st_ecr = 0\<rparr>),
     pd_time = 0, pd_timeslice = timeslice, pd_timeout = 5 * HZ, pd_waiting = 0,
     pd_waitprev = None, pd_waitnext = None\<rparr>"

definition link_dev :: "nat \<Rightarrow> 'a share_scheme \<Rightarrow> 'a share_scheme option" where
  "link_dev d s =
    do {
      s1 \<leftarrow> upd_dev d (\<lambda>v. v\<lparr>pd_next := pt_devices (sh_port s)\<rparr>) s;
      s2 \<leftarrow> (case pt_devices (sh_port s1) of
               None \<Rightarrow> Some s1
             | Some h \<Rightarrow> upd_dev h (\<lambda>w. w\<lparr>pd_prev := Some d\<rparr>) s1);
      Some (upd_port (\<lambda>p. p\<lparr>pt_devices := Some d\<rparr>) s2)
    }"

text \<open>
  \<open>d\<close> is the address the allocator returns, \<open>alloc_dev\<close> and \<open>alloc_state\<close> whether the two
  allocations succeed, \<open>timeslice\<close> the default time slice.
\<close>

definition sunix_parport_register_device ::
    "bool \<Rightarrow> bool \<Rightarrow> u64 \<Rightarrow> int \<Rightarrow> nat \<Rightarrow> bool \<Rightarrow> bool \<Rightarrow> bool \<Rightarrow> u32 \<Rightarrow> 'a share_scheme
     \<Rightarrow> (nat option \<times> 'a share_scheme) option" where
  "sunix_parport_register_device alloc_dev alloc_state timeslice HZ d pf kf irq_func flags s =
    (if pt_flags (sh_port s) AND PARPORT_FLAG_EXCL \<noteq> 0 then Some (None, s)
     else if flags AND PARPORT_DEV_LURK \<noteq> 0 \<and> (\<not> pf \<or> \<not> kf) then Some (None, s)
     else
      (let s1 = sunix_parport_get_port s in
       if \<not> alloc_dev \<or> \<not> alloc_state then Some (None, put_ref s1)
       else if flags AND PARPORT_DEV_EXCL \<noteq> 0 \<and> pt_devices (sh_port s1) \<noteq> None then Some (None, put_ref s1)
       else
        (let s2 = (if flags AND PARPORT_DEV_EXCL \<noteq> 0
                   then upd_port (\<lambda>p. p\<lparr>pt_flags := pt_flags p OR PARPORT_FLAG_EXCL\<rparr>) s1 else s1);
             v = new_pardevice timeslice HZ pf kf irq_func flags (sh_port s2)
         in do { s3 \<leftarrow> link_dev d (s2\<lparr>sh_devs := (sh_devs s2)(d \<mapsto> v)\<rparr>); Some (Some d, s3) })))"

definition unlink_dev :: "nat \<Rightarrow> 'a share_scheme \<Rightarrow> 'a share_scheme option" where
  "unlink_dev d s =
    do {
      v \<leftarrow> sh_devs s d;
      s1 \<leftarrow> (case pd_next v of
               Some b \<Rightarrow> upd_dev b (\<lambda>w. w\<lparr>pd_prev := pd_prev v\<rparr>) s
             | None \<Rightarrow> Some s);
      v1 \<leftarrow> sh_devs s1 d;
      (case pd_prev v1 of
         Some a \<Rightarrow> upd_dev a (\<lambda>w. w\<lparr>pd_next := pd_next v1\<rparr>) s1
       | None \<Rightarrow> Some (upd_port (\<lambda>p. p\<lparr>pt_devices := pd_next v1\<rparr>) s1))
    }"

definition sunix_parport_unregister_device ::
    "'a preempt_fn \<Rightarrow> 'a wakeup_fn \<Rightarrow> nat \<Rightarrow> 'a share_scheme \<Rightarrow> 'a share_scheme option" where
  "sunix_parport_unregister_device preempt wakeup d s =
    do {
      s1 \<leftarrow> (if pt_cad (sh_port s) = Some d then sunix_parport_release preempt wakeup d s else Some s);
      s2 \<leftarrow> unlink_dev d s1;
      v \<leftarrow> sh_devs s2 d;
      (let s3 = (if pd_flags v AND PARPORT_DEV_EXCL \<noteq> 0
                 then upd_port (\<lambda>p. p\<lparr>pt_flags := pt_flags p AND NOT PARPORT_FLAG_EXCL\<rparr>) s2 else s2)
       in do {
         s4 \<leftarrow> (if pd_waitprev v \<noteq> None \<or> pd_waitnext v \<noteq> None \<or> pt_waithead (sh_port s3) = Some d
                then unlink_wait d s3 else Some s3);
         Some (put_ref (s4\<lparr>sh_devs := (sh_devs s4)(d := None)\<rparr>))
       })
    }"


section \<open>The lists of a port\<close>

definition wnx :: "'a share_scheme \<Rightarrow> nat \<Rightarrow> nat option" where
  "wnx s r = (case sh_devs s r of None \<Rightarrow> None | Some v \<Rightarrow> pd_waitnext v)"

definition wpv :: "'a share_scheme \<Rightarrow> nat \<Rightarrow> nat option" where
  "wpv s r = (case sh_devs s r of None \<Rightarrow> None | Some v \<Rightarrow> pd_waitprev v)"

definition dnx :: "'a share_scheme \<Rightarrow> nat \<Rightarrow> nat option" where
  "dnx s r = (case sh_devs s r of None \<Rightarrow> None | Some v \<Rightarrow> pd_next v)"

definition dpv :: "'a share_scheme \<Rightarrow> nat \<Rightarrow> nat option" where
  "dpv s r = (case sh_devs s r of None \<Rightarrow> None | Some v \<Rightarrow> pd_prev v)"

lemmas link_defs = wnx_def wpv_def dnx_def dpv_def

text \<open>\<open>wait_list s ws\<close>: the wait list of the port is \<open>ws\<close>; \<open>dev_list s ds\<close>: its device list is \<open>ds\<close>.\<close>

definition wait_list :: "'a share_scheme \<Rightarrow> nat list \<Rightarrow> bool" where
  "wait_list s ws \<longleftrightarrow>
     dll (wnx s) (wpv s) (pt_waithead (sh_port s)) (pt_waittail (sh_port s)) ws \<and> set ws \<subseteq> dom (sh_devs s)"

definition dev_list :: "'a share_scheme \<Rightarrow> nat list \<Rightarrow> bool" where
  "dev_list s ds \<longleftrightarrow> dll (dnx s) (dpv s) (pt_devices (sh_port s)) (final ds) ds \<and> set ds = dom (sh_devs s)"

lemma upd_dev_Some: "sh_devs s d = Some v \<Longrightarrow> upd_dev d f s = Some (s\<lparr>sh_devs := (sh_devs s)(d \<mapsto> f v)\<rparr>)"
  by (simp add: upd_dev_def)

text \<open>\<open>relinked s s'\<close>: only the wait list pointers differ.\<close>

definition relinked :: "'a share_scheme \<Rightarrow> 'a share_scheme \<Rightarrow> bool" where
  "relinked s s' \<longleftrightarrow>
     (\<exists>h0 t0. sh_port s' = (sh_port s)\<lparr>pt_waithead := h0, pt_waittail := t0\<rparr>)
     \<and> sh_mach s' = sh_mach s \<and> share.more s' = share.more s
     \<and> (\<forall>r. case sh_devs s r of None \<Rightarrow> sh_devs s' r = None
          | Some v \<Rightarrow> \<exists>a b. sh_devs s' r = Some (v\<lparr>pd_waitprev := a, pd_waitnext := b\<rparr>))"

lemma relinked_devs:
  assumes "relinked s s'"
  shows "sh_devs s r = None \<Longrightarrow> sh_devs s' r = None"
    "sh_devs s r = Some v \<Longrightarrow> \<exists>a b. sh_devs s' r = Some (v\<lparr>pd_waitprev := a, pd_waitnext := b\<rparr>)"
    "dom (sh_devs s') = dom (sh_devs s)"
proof -
  have a: "case sh_devs s r of None \<Rightarrow> sh_devs s' r = None
      | Some v \<Rightarrow> \<exists>a b. sh_devs s' r = Some (v\<lparr>pd_waitprev := a, pd_waitnext := b\<rparr>)" for r
    using assms by (simp add: relinked_def)
  show "sh_devs s r = None \<Longrightarrow> sh_devs s' r = None"
    "sh_devs s r = Some v \<Longrightarrow> \<exists>a b. sh_devs s' r = Some (v\<lparr>pd_waitprev := a, pd_waitnext := b\<rparr>)"
    using a [of r] by auto
  have "r \<in> dom (sh_devs s') \<longleftrightarrow> r \<in> dom (sh_devs s)" for r
    using a [of r] by (cases "sh_devs s r") auto
  then show "dom (sh_devs s') = dom (sh_devs s)" by blast
qed

lemma relinkedI:
  assumes "sh_port s' = (sh_port s)\<lparr>pt_waithead := h0, pt_waittail := t0\<rparr>" "sh_mach s' = sh_mach s"
    "share.more s' = share.more s"
    "\<And>r. sh_devs s' r = map_option (\<lambda>v. v\<lparr>pd_waitnext := f r v, pd_waitprev := g r v\<rparr>) (sh_devs s r)"
  shows "relinked s s'"
proof -
  have "\<exists>a b. v\<lparr>pd_waitnext := x, pd_waitprev := y\<rparr> = v\<lparr>pd_waitprev := a, pd_waitnext := b\<rparr>" for v :: snx_pardevice and x y
    by (rule exI [of _ y], rule exI [of _ x]) simp
  then show ?thesis unfolding relinked_def using assms(1-3) by (auto simp: assms(4) split: option.splits)
qed

lemma relinked_state: "relinked s s' \<Longrightarrow> map_option pd_state (sh_devs s' r) = map_option pd_state (sh_devs s r)"
  using relinked_devs(1,2) [of s s' r] by (cases "sh_devs s r") auto

lemma relinked_dev_list: "relinked s s' \<Longrightarrow> dev_list s ds \<Longrightarrow> dev_list s' ds"
proof -
  assume r: "relinked s s'" and d: "dev_list s ds"
  have "dnx s' x = dnx s x \<and> dpv s' x = dpv s x" for x
    using relinked_devs(1,2) [OF r, of x] by (cases "sh_devs s x") (auto simp: link_defs)
  moreover have "pt_devices (sh_port s') = pt_devices (sh_port s)" using r by (auto simp: relinked_def)
  ultimately show ?thesis using d relinked_devs(3) [OF r] by (auto simp: dev_list_def intro: dll_cong)
qed

lemma unlink_wait_ok:
  assumes w: "wait_list s ws" and d: "d \<in> set ws"
  shows "\<exists>s'. unlink_wait d s = Some s' \<and> relinked s s' \<and> wait_list s' (remove1 d ws)
     \<and> (\<forall>r. r \<notin> set ws \<longrightarrow> sh_devs s' r = sh_devs s r)"
proof -
  note D = w [unfolded wait_list_def, THEN conjunct1]
  obtain as bs where x: "ws = as @ d # bs" using d by (meson split_list)
  have dist: "distinct ws" using dllD(1) [OF D] .
  obtain v where v: "sh_devs s d = Some v" using w d by (auto simp: wait_list_def)
  have n: "pd_waitnext v = first bs" and p: "pd_waitprev v = final as"
    using dllD(4,5) [OF D x] v by (simp_all add: link_defs)
  have in_dom: "\<exists>u. sh_devs s r = Some u" if "r \<in> set ws" for r using that w by (auto simp: wait_list_def)
  define s1 where "s1 = (case final as of None \<Rightarrow> upd_port (\<lambda>p. p\<lparr>pt_waithead := first bs\<rparr>) s
      | Some a \<Rightarrow> s\<lparr>sh_devs := (sh_devs s)(a \<mapsto> (the (sh_devs s a))\<lparr>pd_waitnext := first bs\<rparr>)\<rparr>)"
  define s2 where "s2 = (case first bs of None \<Rightarrow> upd_port (\<lambda>p. p\<lparr>pt_waittail := final as\<rparr>) s1
      | Some b \<Rightarrow> s1\<lparr>sh_devs := (sh_devs s1)(b \<mapsto> (the (sh_devs s1 b))\<lparr>pd_waitprev := final as\<rparr>)\<rparr>)"
  have a: "final as = Some a \<Longrightarrow> a \<in> set ws \<and> a \<noteq> d" for a using x dist by (auto simp: final_Some)
  have b: "first bs = Some b \<Longrightarrow> b \<in> set ws \<and> b \<noteq> d \<and> final as \<noteq> Some b" for b
    using x dist by (auto simp: first_Some final_Some)
  have v1: "sh_devs s1 d = Some v" using v a by (auto simp: s1_def upd_port_def split: option.splits)
  have "\<exists>u. sh_devs s1 r = Some u" if "r \<in> set ws" for r
    using in_dom [OF that] by (auto simp: s1_def upd_port_def split: option.splits)
  then have u: "unlink_wait d s = Some s2"
    using v v1 n p a b in_dom
    by (auto simp: unlink_wait_def s1_def s2_def upd_dev_def split: option.splits) fastforce+
  moreover have pt: "sh_devs s2 r = map_option (\<lambda>v. v\<lparr>pd_waitnext := if final as = Some r then first bs else pd_waitnext v,
      pd_waitprev := if first bs = Some r then final as else pd_waitprev v\<rparr>) (sh_devs s r)" for r
    using a b in_dom [of r]
    by (cases "sh_devs s r") (auto simp: s1_def s2_def upd_port_def option.map_ident split: option.splits)
  moreover have port: "sh_port s2 = (sh_port s)\<lparr>pt_waithead := (if final as = None then first bs else pt_waithead (sh_port s)),
      pt_waittail := (if first bs = None then final as else pt_waittail (sh_port s))\<rparr>"
    "sh_mach s2 = sh_mach s" "share.more s2 = share.more s"
    by (auto simp: s1_def s2_def upd_port_def split: option.splits)
  moreover have "relinked s s2" by (rule relinkedI [OF port pt])
  moreover have "\<forall>r. r \<notin> set ws \<longrightarrow> sh_devs s2 r = sh_devs s r"
    using a b by (auto simp: pt split: option.splits) (auto simp: map_option_case split: option.splits)
  moreover have ab: "\<And>x. final as = Some x \<Longrightarrow> sh_devs s x \<noteq> None" "\<And>x. first bs = Some x \<Longrightarrow> sh_devs s x \<noteq> None"
    using a b in_dom by fastforce+
  moreover have "wait_list s2 (remove1 d ws)"
  proof -
    have nd: "wnx s d = first bs" "wpv s d = final as" using v n p by (simp_all add: link_defs)
    have "wnx s2 = (case wpv s d of None \<Rightarrow> wnx s | Some a \<Rightarrow> (wnx s)(a := wnx s d))"
      "wpv s2 = (case wnx s d of None \<Rightarrow> wpv s | Some b \<Rightarrow> (wpv s)(b := wpv s d))"
      using v n p ab by (auto simp: link_defs pt fun_eq_iff split: option.splits)
    note dll_remove [OF D d this]
    then have "dll (wnx s2) (wpv s2) (pt_waithead (sh_port s2)) (pt_waittail (sh_port s2)) (remove1 d ws)"
      by (simp add: port nd cong: if_cong)
    moreover have "dom (sh_devs s2) = dom (sh_devs s)" by (auto simp: pt)
    ultimately show ?thesis using w set_remove1_subset [of d ws] by (auto simp: wait_list_def)
  qed
  ultimately show ?thesis by blast
qed

lemma link_wait_ok:
  assumes w: "wait_list s ws" and d: "d \<notin> set ws" and v: "sh_devs s d = Some v"
  shows "\<exists>s'. link_wait d s = Some s' \<and> relinked s s' \<and> wait_list s' (ws @ [d])
     \<and> (\<forall>r. r \<notin> set ws \<longrightarrow> r \<noteq> d \<longrightarrow> sh_devs s' r = sh_devs s r)"
proof -
  note D = w [unfolded wait_list_def, THEN conjunct1]
  have tail: "pt_waittail (sh_port s) = final ws" by (rule dllD(3) [OF D])
  have t: "final ws = Some t \<Longrightarrow> t \<in> set ws \<and> t \<noteq> d \<and> (\<exists>u. sh_devs s t = Some u)" for t
    using d w by (auto simp: final_Some wait_list_def)
  obtain s' where u: "link_wait d s = Some s'"
    and port: "sh_port s' = (sh_port s)\<lparr>pt_waithead := (if final ws = None then Some d else pt_waithead (sh_port s)),
        pt_waittail := Some d\<rparr>" "sh_mach s' = sh_mach s" "share.more s' = share.more s"
    and pt: "\<And>r. sh_devs s' r = map_option (\<lambda>v. v\<lparr>pd_waitnext := if r = d then None else if final ws = Some r then Some d else pd_waitnext v,
        pd_waitprev := if r = d then final ws else pd_waitprev v\<rparr>) (sh_devs s r)"
  proof (cases "final ws")
    case None
    show ?thesis
      by (rule that [of "upd_port (\<lambda>p. p\<lparr>pt_waithead := Some d, pt_waittail := Some d\<rparr>)
            (s\<lparr>sh_devs := (sh_devs s)(d \<mapsto> v\<lparr>pd_waitnext := None, pd_waitprev := None\<rparr>)\<rparr>)"])
         (use None v tail in \<open>auto simp: link_wait_def upd_dev_def upd_port_def option.map_ident split: option.splits\<close>)
  next
    case (Some t)
    obtain y where y: "sh_devs s t = Some y" "t \<noteq> d" using t [OF Some] by blast
    show ?thesis
      by (rule that [of "upd_port (\<lambda>p. p\<lparr>pt_waittail := Some d\<rparr>)
            (s\<lparr>sh_devs := (sh_devs s)(d \<mapsto> v\<lparr>pd_waitnext := None, pd_waitprev := Some t\<rparr>, t \<mapsto> y\<lparr>pd_waitnext := Some d\<rparr>)\<rparr>)"])
         (use Some v y tail in \<open>auto simp: link_wait_def upd_dev_def upd_port_def option.map_ident split: option.splits\<close>)
  qed
  have "relinked s s'" by (rule relinkedI [OF port pt])
  moreover have "\<forall>r. r \<notin> set ws \<longrightarrow> r \<noteq> d \<longrightarrow> sh_devs s' r = sh_devs s r"
    using t by (auto simp: pt map_option_case split: option.splits)
  moreover have "wait_list s' (ws @ [d])"
  proof -
    have "wnx s' = (case pt_waittail (sh_port s) of None \<Rightarrow> (wnx s)(d := None) | Some t \<Rightarrow> (wnx s)(d := None, t := Some d))"
      "wpv s' = (wpv s)(d := pt_waittail (sh_port s))"
      using v t by (auto simp: tail link_defs pt fun_eq_iff split: option.splits)
    from dll_snoc [OF D d this]
    have "dll (wnx s') (wpv s') (pt_waithead (sh_port s')) (pt_waittail (sh_port s')) (ws @ [d])"
      by (simp add: port tail)
    moreover have "dom (sh_devs s') = dom (sh_devs s)" by (auto simp: pt)
    ultimately show ?thesis using w v by (auto simp: wait_list_def)
  qed
  ultimately show ?thesis using u by blast
qed

lemma link_dev_ok:
  assumes D: "dll (dnx s) (dpv s) (pt_devices (sh_port s)) (final ds) ds" and d: "d \<notin> set ds"
    and v: "sh_devs s d = Some v" "pd_prev v = None" and dom: "set ds \<subseteq> dom (sh_devs s)"
  shows "\<exists>s'. link_dev d s = Some s' \<and> dll (dnx s') (dpv s') (pt_devices (sh_port s')) (final (d # ds)) (d # ds)
     \<and> sh_port s' = (sh_port s)\<lparr>pt_devices := Some d\<rparr> \<and> sh_mach s' = sh_mach s \<and> share.more s' = share.more s
     \<and> (\<forall>r. \<exists>f g. sh_devs s' r = map_option (\<lambda>v. v\<lparr>pd_next := f v, pd_prev := g v\<rparr>) (sh_devs s r))"
proof -
  have hd: "pt_devices (sh_port s) = first ds" by (rule dllD(2) [OF D])
  have h: "first ds = Some h \<Longrightarrow> h \<noteq> d \<and> (\<exists>u. sh_devs s h = Some u)" for h
    using d dom by (auto simp: first_Some)
  obtain s' where u: "link_dev d s = Some s'"
    and port: "sh_port s' = (sh_port s)\<lparr>pt_devices := Some d\<rparr>" "sh_mach s' = sh_mach s" "share.more s' = share.more s"
    and pt: "\<And>r. sh_devs s' r = map_option (\<lambda>v. v\<lparr>pd_next := if r = d then first ds else pd_next v,
        pd_prev := if first ds = Some r then Some d else pd_prev v\<rparr>) (sh_devs s r)"
  proof (cases "first ds")
    case None
    show ?thesis
      by (rule that [of "upd_port (\<lambda>p. p\<lparr>pt_devices := Some d\<rparr>) (s\<lparr>sh_devs := (sh_devs s)(d \<mapsto> v\<lparr>pd_next := None\<rparr>)\<rparr>)"])
         (use None v hd in \<open>auto simp: link_dev_def upd_dev_def upd_port_def option.map_ident split: option.splits\<close>)
  next
    case (Some h)
    obtain y where y: "sh_devs s h = Some y" "h \<noteq> d" using h [OF Some] by blast
    show ?thesis
      by (rule that [of "upd_port (\<lambda>p. p\<lparr>pt_devices := Some d\<rparr>)
            (s\<lparr>sh_devs := (sh_devs s)(d \<mapsto> v\<lparr>pd_next := Some h\<rparr>, h \<mapsto> y\<lparr>pd_prev := Some d\<rparr>)\<rparr>)"])
         (use Some v y hd in \<open>auto simp: link_dev_def upd_dev_def upd_port_def option.map_ident split: option.splits\<close>)
  qed
  have "dnx s' = (dnx s)(d := pt_devices (sh_port s))"
    "dpv s' = (case pt_devices (sh_port s) of None \<Rightarrow> (dpv s)(d := None) | Some h \<Rightarrow> (dpv s)(d := None, h := Some d))"
    using v h by (auto simp: hd link_defs pt fun_eq_iff split: option.splits)
  note dll_push [OF D d this]
  moreover have "(if pt_devices (sh_port s) = None then Some d else final ds) = final (d # ds)"
    by (auto simp: hd split: option.splits)
  ultimately have "dll (dnx s') (dpv s') (pt_devices (sh_port s')) (final (d # ds)) (d # ds)" by (simp add: port)
  moreover have "\<exists>f g. sh_devs s' r = map_option (\<lambda>v. v\<lparr>pd_next := f v, pd_prev := g v\<rparr>) (sh_devs s r)" for r
    unfolding pt by (rule exI, rule exI, rule refl)
  ultimately show ?thesis using u port by blast
qed

lemma unlink_dev_ok:
  assumes D: "dll (dnx s) (dpv s) (pt_devices (sh_port s)) (final ds) ds" and d: "d \<in> set ds"
    and dom: "set ds \<subseteq> dom (sh_devs s)"
  shows "\<exists>s'. unlink_dev d s = Some s'
     \<and> dll (dnx s') (dpv s') (pt_devices (sh_port s')) (final (remove1 d ds)) (remove1 d ds)
     \<and> (\<exists>h0. sh_port s' = (sh_port s)\<lparr>pt_devices := h0\<rparr>) \<and> sh_mach s' = sh_mach s \<and> share.more s' = share.more s
     \<and> (\<forall>r. \<exists>f g. sh_devs s' r = map_option (\<lambda>v. v\<lparr>pd_next := f v, pd_prev := g v\<rparr>) (sh_devs s r))"
proof -
  obtain as bs where x: "ds = as @ d # bs" using d by (meson split_list)
  have dist: "distinct ds" using dllD(1) [OF D] .
  obtain v where v: "sh_devs s d = Some v" using dom d by auto
  have n: "pd_next v = first bs" and p: "pd_prev v = final as"
    using dllD(4,5) [OF D x] v by (simp_all add: link_defs)
  have a: "final as = Some a \<Longrightarrow> a \<noteq> d \<and> (\<exists>u. sh_devs s a = Some u)" for a using x dist dom by (auto simp: final_Some)
  have b: "first bs = Some b \<Longrightarrow> b \<noteq> d \<and> final as \<noteq> Some b \<and> (\<exists>u. sh_devs s b = Some u)" for b
    using x dist dom by (auto simp: first_Some final_Some)
  define s1 where "s1 = (case first bs of None \<Rightarrow> s
      | Some b \<Rightarrow> s\<lparr>sh_devs := (sh_devs s)(b \<mapsto> (the (sh_devs s b))\<lparr>pd_prev := final as\<rparr>)\<rparr>)"
  define s2 where "s2 = (case final as of None \<Rightarrow> upd_port (\<lambda>p. p\<lparr>pt_devices := first bs\<rparr>) s1
      | Some a \<Rightarrow> s1\<lparr>sh_devs := (sh_devs s1)(a \<mapsto> (the (sh_devs s1 a))\<lparr>pd_next := first bs\<rparr>)\<rparr>)"
  have v1: "sh_devs s1 d = Some v" using v b by (auto simp: s1_def split: option.splits)
  have u1: "(case first bs of Some b \<Rightarrow> upd_dev b (\<lambda>w. w\<lparr>pd_prev := final as\<rparr>) s | None \<Rightarrow> Some s) = Some s1"
    using b by (auto simp: s1_def upd_dev_def split: option.splits)
  have u2: "(case final as of Some a \<Rightarrow> upd_dev a (\<lambda>w. w\<lparr>pd_next := first bs\<rparr>) s1
      | None \<Rightarrow> Some (upd_port (\<lambda>p. p\<lparr>pt_devices := first bs\<rparr>) s1)) = Some s2"
    using a by (auto simp: s2_def s1_def upd_dev_def split: option.splits)
  have u: "unlink_dev d s = Some s2" using v v1 u1 [folded n p] u2 [folded n p] by (simp add: unlink_dev_def)
  have pt: "sh_devs s2 r = map_option (\<lambda>v. v\<lparr>pd_next := if final as = Some r then first bs else pd_next v,
      pd_prev := if first bs = Some r then final as else pd_prev v\<rparr>) (sh_devs s r)" for r
    using a b
    by (cases "sh_devs s r") (auto simp: s1_def s2_def upd_port_def option.map_ident split: option.splits)
  have port: "sh_port s2 = (sh_port s)\<lparr>pt_devices := (if final as = None then first bs else pt_devices (sh_port s))\<rparr>"
    "sh_mach s2 = sh_mach s" "share.more s2 = share.more s"
    by (auto simp: s1_def s2_def upd_port_def split: option.splits)
  have nd: "dnx s d = first bs" "dpv s d = final as" using v n p by (simp_all add: link_defs)
  have "dnx s2 = (case dpv s d of None \<Rightarrow> dnx s | Some a \<Rightarrow> (dnx s)(a := dnx s d))"
    "dpv s2 = (case dnx s d of None \<Rightarrow> dpv s | Some b \<Rightarrow> (dpv s)(b := dpv s d))"
    using v n p a b by (fastforce simp: link_defs pt fun_eq_iff split: option.splits)+
  note dll_remove [OF D d this]
  moreover have "(if dnx s d = None then dpv s d else final ds) = final (remove1 d ds)"
    using x dist by (cases bs rule: rev_cases) (auto simp: nd remove1_append split: option.splits)
  ultimately have "dll (dnx s2) (dpv s2) (pt_devices (sh_port s2)) (final (remove1 d ds)) (remove1 d ds)"
    by (simp add: port nd cong: if_cong)
  moreover have "\<exists>f g. sh_devs s2 r = map_option (\<lambda>v. v\<lparr>pd_next := f v, pd_prev := g v\<rparr>) (sh_devs s r)" for r
    unfolding pt by (rule exI, rule exI, rule refl)
  ultimately show ?thesis using u port by blast
qed

text \<open>Changes that leave the lists alone.\<close>

lemma wait_list_cong:
  assumes "wait_list s ws" and "\<And>r. r \<in> set ws \<Longrightarrow> wnx s' r = wnx s r \<and> wpv s' r = wpv s r"
    and "pt_waithead (sh_port s') = pt_waithead (sh_port s)" "pt_waittail (sh_port s') = pt_waittail (sh_port s)"
    and "set ws \<subseteq> dom (sh_devs s')"
  shows "wait_list s' ws"
  using assms by (auto simp: wait_list_def intro: dll_cong)

lemma dev_list_cong:
  assumes "dev_list s ds" and "\<And>r. r \<in> set ds \<Longrightarrow> dnx s' r = dnx s r \<and> dpv s' r = dpv s r"
    and "pt_devices (sh_port s') = pt_devices (sh_port s)" "dom (sh_devs s') = dom (sh_devs s)"
  shows "dev_list s' ds"
  using assms by (auto simp: dev_list_def intro: dll_cong)

text \<open>
  \<open>lists_ok\<close>: both lists are what the pointers say; bit 0 of \<^verbatim>\<open>waiting\<close> is set for exactly the
  devices on the wait list, every one of which has a sleeping task; no device asked to be told
  when the port is free. \<open>share_ok\<close> adds the owner, who does not wait, and that nobody waits for
  a free port.
\<close>

definition dev_ok :: "nat list \<Rightarrow> nat \<Rightarrow> snx_pardevice \<Rightarrow> bool" where
  "dev_ok ws d v \<longleftrightarrow> (pd_waiting v AND 1 \<noteq> 0 \<longleftrightarrow> d \<in> set ws) \<and> (d \<in> set ws \<longrightarrow> pd_waiting v AND 2 \<noteq> 0)
     \<and> (d \<notin> set ws \<longrightarrow> pd_waitprev v = None \<and> pd_waitnext v = None) \<and> \<not> pd_wakeup v"

definition lists_ok :: "'a share_scheme \<Rightarrow> nat list \<Rightarrow> nat list \<Rightarrow> bool" where
  "lists_ok s ws ds \<longleftrightarrow> wait_list s ws \<and> dev_list s ds \<and> (\<forall>d v. sh_devs s d = Some v \<longrightarrow> dev_ok ws d v)"

definition share_ok :: "'a share_scheme \<Rightarrow> nat list \<Rightarrow> nat list \<Rightarrow> bool" where
  "share_ok s ws ds \<longleftrightarrow> lists_ok s ws ds \<and> (\<forall>d. pt_cad (sh_port s) = Some d \<longrightarrow> d \<in> set ds \<and> d \<notin> set ws)
     \<and> (pt_cad (sh_port s) = None \<longrightarrow> ws = [])"

lemma lists_ok_dom: "lists_ok s ws ds \<Longrightarrow> dom (sh_devs s) = set ds" "lists_ok s ws ds \<Longrightarrow> set ws \<subseteq> set ds"
  by (auto simp: lists_ok_def dev_list_def wait_list_def)

lemma lists_ok_dev: "lists_ok s ws ds \<Longrightarrow> d \<in> set ds \<Longrightarrow> \<exists>v. sh_devs s d = Some v \<and> dev_ok ws d v"
  using lists_ok_dom(1) [of s ws ds] unfolding lists_ok_def by (metis domD)

text \<open>Updating a device in fields that are no links.\<close>

lemma lists_ok_touch:
  assumes "lists_ok s ws ds" and "sh_devs s d = Some v" and "dev_ok ws d (f v)"
    and "pd_next (f v) = pd_next v" "pd_prev (f v) = pd_prev v"
    and "d \<in> set ws \<Longrightarrow> pd_waitnext (f v) = pd_waitnext v \<and> pd_waitprev (f v) = pd_waitprev v"
    and "sh_devs s' = (sh_devs s)(d \<mapsto> f v)"
    and "pt_waithead (sh_port s') = pt_waithead (sh_port s)" "pt_waittail (sh_port s') = pt_waittail (sh_port s)"
    and "pt_devices (sh_port s') = pt_devices (sh_port s)"
  shows "lists_ok s' ws ds"
proof -
  have "wait_list s' ws"
    by (rule wait_list_cong [of s]) (use assms in \<open>auto simp: lists_ok_def link_defs wait_list_def\<close>)
  moreover have "dev_list s' ds"
    by (rule dev_list_cong [of s]) (use assms in \<open>auto simp: lists_ok_def link_defs\<close>)
  ultimately show ?thesis using assms by (auto simp: lists_ok_def)
qed

lemma lists_ok_port:
  assumes "lists_ok s ws ds" "sh_devs s' = sh_devs s"
    and "pt_waithead (sh_port s') = pt_waithead (sh_port s)" "pt_waittail (sh_port s') = pt_waittail (sh_port s)"
    and "pt_devices (sh_port s') = pt_devices (sh_port s)"
  shows "lists_ok s' ws ds"
proof -
  have "wnx s' = wnx s" "wpv s' = wpv s" "dnx s' = dnx s" "dpv s' = dpv s"
    using assms(2) by (simp_all add: link_defs fun_eq_iff)
  then show ?thesis using assms by (simp add: lists_ok_def wait_list_def dev_list_def)
qed

lemma lists_ok_relinked:
  assumes "lists_ok s ws ds" and "relinked s s'" and "wait_list s' ws'"
    and "\<And>d v. sh_devs s' d = Some v \<Longrightarrow> dev_ok ws' d v"
  shows "lists_ok s' ws' ds"
  using assms relinked_dev_list by (auto simp: lists_ok_def)

text \<open>\<open>moved s s'\<close>: the wait list moved, the devices' bookkeeping with it, and nothing else.\<close>

definition moved :: "'a share_scheme \<Rightarrow> 'a share_scheme \<Rightarrow> bool" where
  "moved s s' \<longleftrightarrow> (\<exists>h0 t0. sh_port s' = (sh_port s)\<lparr>pt_waithead := h0, pt_waittail := t0\<rparr>)
     \<and> sh_mach s' = sh_mach s \<and> share.more s' = share.more s
     \<and> (\<forall>r. map_option pd_state (sh_devs s' r) = map_option pd_state (sh_devs s r))"

lemma moved_refl [simp]: "moved s s"
  unfolding moved_def by (rule conjI, rule exI [of _ "pt_waithead (sh_port s)"], rule exI [of _ "pt_waittail (sh_port s)"]) simp_all

lemma dev_ok_links: "dev_ok ws d v \<Longrightarrow> d \<in> set ws \<Longrightarrow> dev_ok ws d (v\<lparr>pd_waitprev := a, pd_waitnext := b\<rparr>)"
  by (simp add: dev_ok_def)

text \<open>Leaving the wait list does not disturb the other devices.\<close>

lemma dev_ok_unlinked:
  assumes "relinked s s'" and "\<forall>r. r \<notin> set ws \<longrightarrow> sh_devs s' r = sh_devs s r" and "distinct ws"
    and "r \<noteq> d" and "sh_devs s' r = Some x" and "\<And>y. sh_devs s r = Some y \<Longrightarrow> dev_ok ws r y"
  shows "dev_ok (remove1 d ws) r x"
proof -
  have rem: "set (remove1 d ws) = set ws - {d}" using assms(3) by (simp add: set_remove1_eq)
  obtain y where y: "sh_devs s r = Some y" using relinked_devs(1) [OF assms(1), of r] assms(5) by (cases "sh_devs s r") auto
  show ?thesis
  proof (cases "r \<in> set ws")
    case True
    obtain a b where "x = y\<lparr>pd_waitprev := a, pd_waitnext := b\<rparr>" using relinked_devs(2) [OF assms(1) y] assms(5) by auto
    then show ?thesis using assms(6) [OF y] True assms(4) rem by (auto simp: dev_ok_def)
  next
    case False
    then have "x = y" using assms(2,5) y by auto
    then show ?thesis using assms(6) [OF y] False by (auto simp: dev_ok_def dest: notin_set_remove1)
  qed
qed

lemma dequeue_ok:
  assumes ok: "lists_ok s ws ds" and d: "d \<in> set ws"
  shows "\<exists>s'. do { s0 \<leftarrow> upd_dev d (\<lambda>v. v\<lparr>pd_waiting := 0\<rparr>) s; s0 \<leftarrow> unlink_wait d s0;
             upd_dev d (\<lambda>v. v\<lparr>pd_waitprev := None, pd_waitnext := None\<rparr>) s0 } = Some s'
     \<and> lists_ok s' (remove1 d ws) ds \<and> moved s s'"
proof -
  obtain v where v: "sh_devs s d = Some v" "dev_ok ws d v" using lists_ok_dev [OF ok] lists_ok_dom(2) [OF ok] d by blast
  define s0 where "s0 = s\<lparr>sh_devs := (sh_devs s)(d \<mapsto> v\<lparr>pd_waiting := 0\<rparr>)\<rparr>"
  have u0: "upd_dev d (\<lambda>v. v\<lparr>pd_waiting := 0\<rparr>) s = Some s0" using v by (simp add: s0_def upd_dev_Some)
  have w: "wait_list s ws" and dl: "dev_list s ds" using ok by (auto simp: lists_ok_def)
  have dist: "distinct ws" using w by (auto simp: wait_list_def dest: dllD(1))
  have w0: "wait_list s0 ws"
    by (rule wait_list_cong [OF w]) (use w v in \<open>auto simp: s0_def link_defs wait_list_def\<close>)
  have d0: "dev_list s0 ds" by (rule dev_list_cong [OF dl]) (use v in \<open>auto simp: s0_def link_defs\<close>)
  obtain s1 where s1: "unlink_wait d s0 = Some s1" "relinked s0 s1" "wait_list s1 (remove1 d ws)"
    "\<forall>r. r \<notin> set ws \<longrightarrow> sh_devs s1 r = sh_devs s0 r"
    using unlink_wait_ok [OF w0 d] by blast
  obtain a b where v1: "sh_devs s1 d = Some (v\<lparr>pd_waiting := 0, pd_waitprev := a, pd_waitnext := b\<rparr>)"
    using relinked_devs(2) [OF s1(2), of d] by (auto simp: s0_def)
  define s2 where "s2 = s1\<lparr>sh_devs := (sh_devs s1)(d \<mapsto> v\<lparr>pd_waiting := 0, pd_waitprev := None, pd_waitnext := None\<rparr>)\<rparr>"
  have u2: "upd_dev d (\<lambda>v. v\<lparr>pd_waitprev := None, pd_waitnext := None\<rparr>) s1 = Some s2"
    using v1 by (simp add: s2_def upd_dev_Some)
  have rem: "set (remove1 d ws) = set ws - {d}" using dist by (simp add: set_remove1_eq)
  have "wait_list s2 (remove1 d ws)"
    by (rule wait_list_cong [OF s1(3)]) (use s1(3) rem v1 in \<open>auto simp: s2_def link_defs wait_list_def\<close>)
  moreover have "dev_list s2 ds"
    by (rule dev_list_cong [OF relinked_dev_list [OF s1(2) d0]]) (use v1 in \<open>auto simp: s2_def link_defs\<close>)
  moreover have "dev_ok (remove1 d ws) r x" if x: "sh_devs s2 r = Some x" for r x
  proof (cases "r = d")
    case True
    have "x = v\<lparr>pd_waiting := 0, pd_waitprev := None, pd_waitnext := None\<rparr>" using x True by (simp add: s2_def)
    moreover have "\<not> pd_wakeup v" using v(2) by (simp add: dev_ok_def)
    moreover have "d \<notin> set (remove1 d ws)" using dist by simp
    ultimately show ?thesis using True by (simp add: dev_ok_def)
  next
    case False
    then have "sh_devs s1 r = Some x" using x by (simp add: s2_def)
    then show ?thesis
      by (rule dev_ok_unlinked [OF s1(2,4) dist False]) (use ok False in \<open>auto simp: s0_def lists_ok_def\<close>)
  qed
  ultimately have "lists_ok s2 (remove1 d ws) ds" by (simp add: lists_ok_def)
  moreover have "moved s s2"
  proof -
    have "map_option pd_state (sh_devs s2 r) = map_option pd_state (sh_devs s r)" for r
      using relinked_state [OF s1(2), of r] v by (auto simp: s2_def s0_def)
    then show ?thesis using s1(2) by (auto simp: moved_def relinked_def s2_def s0_def)
  qed
  ultimately show ?thesis using u0 s1(1) u2 by auto
qed

text \<open>Joining the wait list, the body of \<open>claim_blocked\<close>.\<close>

lemma enqueue_ok:
  assumes ok: "lists_ok s ws ds" and v: "sh_devs s d = Some v" and d: "d \<notin> set ws" and two: "pd_waiting v AND 2 \<noteq> 0"
  shows "\<exists>s'. do { s0 \<leftarrow> upd_dev d (\<lambda>v. v\<lparr>pd_waiting := pd_waiting v OR 1\<rparr>) s; link_wait d s0 } = Some s'
     \<and> lists_ok s' (ws @ [d]) ds \<and> moved s s'"
proof -
  define s0 where "s0 = s\<lparr>sh_devs := (sh_devs s)(d \<mapsto> v\<lparr>pd_waiting := pd_waiting v OR 1\<rparr>)\<rparr>"
  have u0: "upd_dev d (\<lambda>v. v\<lparr>pd_waiting := pd_waiting v OR 1\<rparr>) s = Some s0" using v by (simp add: s0_def upd_dev_Some)
  have w: "wait_list s ws" and dl: "dev_list s ds" using ok by (auto simp: lists_ok_def)
  have w0: "wait_list s0 ws"
    by (rule wait_list_cong [OF w]) (use w v in \<open>auto simp: s0_def link_defs wait_list_def\<close>)
  have d0: "dev_list s0 ds" by (rule dev_list_cong [OF dl]) (use v in \<open>auto simp: s0_def link_defs\<close>)
  have v0: "sh_devs s0 d = Some (v\<lparr>pd_waiting := pd_waiting v OR 1\<rparr>)" by (simp add: s0_def)
  obtain s1 where s1: "link_wait d s0 = Some s1" "relinked s0 s1" "wait_list s1 (ws @ [d])"
    "\<forall>r. r \<notin> set ws \<longrightarrow> r \<noteq> d \<longrightarrow> sh_devs s1 r = sh_devs s0 r"
    using link_wait_ok [OF w0 d v0] by blast
  have one: "(pd_waiting v OR 1) AND 1 \<noteq> 0" "(pd_waiting v OR 1) AND 2 \<noteq> 0"
  proof -
    have "(pd_waiting v OR 1) AND 1 = 1" by (rule word_or_and_self)
    then show "(pd_waiting v OR 1) AND 1 \<noteq> 0" by simp
    show "(pd_waiting v OR 1) AND 2 \<noteq> 0" using two by (auto simp: bit_eq_iff bit_simps)
  qed
  have okd: "dev_ok ws d v" using ok v by (auto simp: lists_ok_def)
  have "dev_ok (ws @ [d]) r x" if x: "sh_devs s1 r = Some x" for r x
  proof -
    obtain y where y: "sh_devs s0 r = Some y" using relinked_devs(1) [OF s1(2), of r] x by (cases "sh_devs s0 r") auto
    obtain a b where e: "x = y\<lparr>pd_waitprev := a, pd_waitnext := b\<rparr>" using relinked_devs(2) [OF s1(2) y] x by auto
    show ?thesis
    proof (cases "r = d")
      case True
      then have "y = v\<lparr>pd_waiting := pd_waiting v OR 1\<rparr>" using y v0 by simp
      then show ?thesis using e one okd True by (auto simp: dev_ok_def)
    next
      case False
      then have y1: "dev_ok ws r y" using y ok by (auto simp: s0_def lists_ok_def)
      show ?thesis
      proof (cases "r \<in> set ws")
        case True
        then show ?thesis using y1 e by (auto simp: dev_ok_def)
      next
        case notin: False
        then have "x = y" using s1(4) x y False by auto
        then show ?thesis using y1 notin False by (auto simp: dev_ok_def)
      qed
    qed
  qed
  then have "lists_ok s1 (ws @ [d]) ds" using s1(3) relinked_dev_list [OF s1(2) d0] by (simp add: lists_ok_def)
  moreover have "moved s s1"
  proof -
    have "map_option pd_state (sh_devs s1 r) = map_option pd_state (sh_devs s r)" for r
      using relinked_state [OF s1(2), of r] v by (auto simp: s0_def)
    then show ?thesis using s1(2) by (auto simp: moved_def relinked_def s0_def)
  qed
  ultimately show ?thesis using u0 s1(1) by auto
qed

section \<open>Claiming and releasing\<close>

lemma ops_restore_same_port: "same_port p (fst (ops_restore_state st (p, m)))"
proof (cases "pt_ops p")
  case Pc_ops
  obtain p' m' where e: "sunix_parport_pc_restore_state st (p, m) = (p', m')" by fastforce
  show ?thesis using restore_state_eq [OF e] e Pc_ops by (auto simp: ops_restore_state_def same_port_def)
qed (simp add: ops_restore_state_def)

lemma ops_restore_ctr:
  assumes "pt_ops p = Pc_ops"
  shows "pp_ctr (pt_priv (fst (ops_restore_state st (p, m)))) = ucast (st_ctr st) AND pp_ctr_writable (pt_priv p)"
proof -
  obtain p' m' where e: "sunix_parport_pc_restore_state st (p, m) = (p', m')" by fastforce
  show ?thesis using restore_state_eq [OF e] e assms by (simp add: ops_restore_state_def)
qed

text \<open>
  Handing the port over: the new owner leaves the wait list, and the port gets the register state
  the owner keeps.
\<close>

lemma granted_ok:
  assumes ok: "lists_ok s ws ds" and d: "d \<in> set ds" and v: "sh_devs s d = Some v"
  shows "\<exists>s'. claim_granted d s = Some (0, s') \<and> lists_ok s' (remove1 d ws) ds \<and> pt_cad (sh_port s') = Some d
     \<and> share.more s' = share.more s \<and> pt_flags (sh_port s') = pt_flags (sh_port s)
     \<and> (\<forall>r. map_option pd_state (sh_devs s' r) = map_option pd_state (sh_devs s r))
     \<and> pp_ctr (pt_priv (sh_port s')) = pp_ctr (pt_priv (fst (ops_restore_state (pd_state v) (sh_port s, sh_mach s))))"
proof -
  obtain s1 where s1: "lists_ok s1 (remove1 d ws) ds" "moved s s1"
    "(if pd_waiting v AND 1 \<noteq> 0 then
        do { s0 \<leftarrow> upd_dev d (\<lambda>v. v\<lparr>pd_waiting := 0\<rparr>) s; s0 \<leftarrow> unlink_wait d s0;
             upd_dev d (\<lambda>v. v\<lparr>pd_waitprev := None, pd_waitnext := None\<rparr>) s0 }
      else Some s) = Some s1"
  proof (cases "d \<in> set ws")
    case True
    then have "pd_waiting v AND 1 \<noteq> 0" using ok v by (auto simp: lists_ok_def dev_ok_def)
    then show ?thesis using dequeue_ok [OF ok True] that by auto
  next
    case False
    then have "\<not> pd_waiting v AND 1 \<noteq> 0" using ok v by (auto simp: lists_ok_def dev_ok_def)
    then show ?thesis using that [of s] ok False by (simp add: remove1_idem)
  qed
  obtain v1 where v1: "sh_devs s1 d = Some v1" "dev_ok (remove1 d ws) d v1" using lists_ok_dev [OF s1(1) d] by blast
  have states: "map_option pd_state (sh_devs s1 r) = map_option pd_state (sh_devs s r)" for r
    using s1(2) by (simp add: moved_def)
  then have st: "pd_state v1 = pd_state v" using v v1 by (metis option.inject option.simps(9))
  obtain h0 t0 where port: "sh_port s1 = (sh_port s)\<lparr>pt_waithead := h0, pt_waittail := t0\<rparr>" "sh_mach s1 = sh_mach s"
    "share.more s1 = share.more s" using s1(2) by (auto simp: moved_def)
  obtain p m where pm: "ops_restore_state (pd_state v) ((sh_port s1)\<lparr>pt_cad := Some d\<rparr>, sh_mach s) = (p, m)" by fastforce
  have same: "same_port ((sh_port s1)\<lparr>pt_cad := Some d\<rparr>) p" using ops_restore_same_port pm by (metis fst_conv)
  obtain now m1 where j: "jiffies m = (now, m1)" by fastforce
  define s3 where "s3 = s1\<lparr>sh_port := p, sh_mach := m1, sh_devs := (sh_devs s1)(d \<mapsto> v1\<lparr>pd_time := now\<rparr>)\<rparr>"
  have "claim_granted d s = Some (0, s3)"
    using v s1(3) v1 pm st port(2) j
    by (simp add: claim_granted_def on_port_def upd_port_def upd_dev_def s3_def)
  moreover have "lists_ok s3 (remove1 d ws) ds"
    by (rule lists_ok_touch [OF s1(1) v1(1), where f = "\<lambda>v. v\<lparr>pd_time := now\<rparr>"])
       (use v1(2) same_portD [OF same] in \<open>auto simp: s3_def dev_ok_def\<close>)
  moreover have "pt_cad (sh_port s3) = Some d" using same_portD(7) [OF same] by (simp add: s3_def)
  moreover have "pp_ctr (pt_priv p) = pp_ctr (pt_priv (fst (ops_restore_state (pd_state v) (sh_port s, sh_mach s))))"
  proof (cases "pt_ops (sh_port s)")
    case Pc_ops
    then show ?thesis using pm
      by (auto simp: ops_restore_state_def sunix_parport_pc_restore_state_def port Let_def)
  next
    case Dead_ops
    then show ?thesis using pm by (auto simp: ops_restore_state_def port)
  qed
  moreover have "pt_flags p = pt_flags (sh_port s)" using same by (auto simp: same_port_def port)
  moreover have "map_option pd_state (sh_devs s3 r) = map_option pd_state (sh_devs s r)" for r
    using states [of r] v v1(1) by (auto simp: s3_def)
  ultimately show ?thesis by (auto simp: s3_def port)
qed

lemma blocked_ok:
  assumes ok: "lists_ok s ws ds" and v: "sh_devs s d = Some v" and d: "d \<notin> set ws" and two: "pd_waiting v AND 2 \<noteq> 0"
  shows "\<exists>s'. claim_blocked d s = Some (- EAGAIN, s') \<and> lists_ok s' (ws @ [d]) ds \<and> moved s s'"
proof -
  have "pd_waiting v AND 1 = 0" using ok v d by (auto simp: lists_ok_def dev_ok_def)
  then show ?thesis using enqueue_ok [OF assms] v two by (auto simp: claim_blocked_def simp del: Option.bind_assoc)
qed

text \<open>
  The interface to the drivers that own devices. Each registers a preempt function that refuses,
  leaving the port alone: \<open>snx_lp_preempt\<close> only notes the request; ppdev registers none.
\<close>

locale sharing =
  fixes preempt :: "'a preempt_fn" and wakeup :: "'a wakeup_fn"
  assumes refuses: "fst (preempt o' s)"
    and keeps: "sh_port (snd (preempt o' s)) = sh_port s" "sh_devs (snd (preempt o' s)) = sh_devs s"
      "sh_mach (snd (preempt o' s)) = sh_mach s"
begin

lemma keeps_lists: "lists_ok (snd (preempt o' s)) ws ds = lists_ok s ws ds"
  using lists_ok_port [of s ws ds "snd (preempt o' s)"] lists_ok_port [of "snd (preempt o' s)" ws ds s]
  by (auto simp: keeps)

lemma claim_idle:
  assumes "lists_ok s ws ds" "d \<in> set ds" "sh_devs s d = Some v" "pt_cad (sh_port s) = None"
  shows "\<exists>s'. sunix_parport_claim preempt d s = Some (0, s') \<and> lists_ok s' (remove1 d ws) ds
     \<and> pt_cad (sh_port s') = Some d \<and> pt_flags (sh_port s') = pt_flags (sh_port s)
     \<and> (\<forall>r. map_option pd_state (sh_devs s' r) = map_option pd_state (sh_devs s r))
     \<and> pp_ctr (pt_priv (sh_port s')) = pp_ctr (pt_priv (fst (ops_restore_state (pd_state v) (sh_port s, sh_mach s))))"
  using granted_ok [OF assms(1-3)] assms(4) by (auto simp: sunix_parport_claim_def)

lemma claim_busy:
  assumes ok: "lists_ok s ws ds" and v: "sh_devs s d = Some v" and d: "d \<notin> set ws"
    and two: "pd_waiting v AND 2 \<noteq> 0" and o: "pt_cad (sh_port s) = Some o'" "o' \<noteq> d" "o' \<in> set ds"
  shows "\<exists>s'. sunix_parport_claim preempt d s = Some (- EAGAIN, s') \<and> lists_ok s' (ws @ [d]) ds
     \<and> pt_cad (sh_port s') = Some o' \<and> pt_flags (sh_port s') = pt_flags (sh_port s)
     \<and> (\<forall>r. map_option pd_state (sh_devs s' r) = map_option pd_state (sh_devs s r))"
proof -
  obtain ov where ov: "sh_devs s o' = Some ov" using lists_ok_dev [OF ok o(3)] by blast
  show ?thesis
  proof (cases "pd_preempt ov")
    case True
    obtain s1 where p: "preempt o' s = (True, s1)" using refuses [of o' s] by (cases "preempt o' s") auto
    then have k: "sh_port s1 = sh_port s" "sh_devs s1 = sh_devs s" "lists_ok s1 ws ds"
      using keeps [of o' s] keeps_lists [of o' s] ok by simp_all
    have "sunix_parport_claim preempt d s = claim_blocked d s1"
      using True ov o p by (simp add: sunix_parport_claim_def)
    then show ?thesis
      using blocked_ok [OF k(3), of d v] v d two o by (auto simp: k moved_def)
  next
    case False
    then have "sunix_parport_claim preempt d s = claim_blocked d s"
      using ov o by (simp add: sunix_parport_claim_def)
    then show ?thesis using blocked_ok [OF ok v d two] o by (auto simp: moved_def)
  qed
qed

text \<open>The owner's registers are saved into its own struct.\<close>

lemma save_ok:
  assumes ok: "lists_ok s ws ds" and v: "sh_devs s d = Some v"
  shows "\<exists>s' st. save_into d s = Some s' \<and> lists_ok s' ws ds \<and> sh_port s' = sh_port s
     \<and> share.more s' = share.more s \<and> sh_devs s' d = Some (v\<lparr>pd_state := st\<rparr>)
     \<and> (pt_ops (sh_port s) = Pc_ops \<longrightarrow> st_ctr st = ucast (pp_ctr (pt_priv (sh_port s))))
     \<and> (\<forall>r. r \<noteq> d \<longrightarrow> sh_devs s' r = sh_devs s r)"
proof -
  obtain st m where e: "ops_save_state (sh_port s) (pd_state v) (sh_mach s) = (st, m)" by fastforce
  define s' where "s' = s\<lparr>sh_mach := m, sh_devs := (sh_devs s)(d \<mapsto> v\<lparr>pd_state := st\<rparr>)\<rparr>"
  have "save_into d s = Some s'" using v e by (simp add: save_into_def upd_dev_def s'_def)
  moreover have "lists_ok s' ws ds"
    by (rule lists_ok_touch [OF ok v, where f = "\<lambda>v. v\<lparr>pd_state := st\<rparr>"])
       (use ok v in \<open>auto simp: s'_def lists_ok_def dev_ok_def\<close>)
  moreover have "pt_ops (sh_port s) = Pc_ops \<longrightarrow> st_ctr st = ucast (pp_ctr (pt_priv (sh_port s)))"
    using e save_state_eq by (fastforce simp: ops_save_state_def)
  ultimately show ?thesis by (auto simp: s'_def)
qed

lemma lurkers_quiet:
  assumes "lists_ok s ws ds" and "ds = as @ bs"
  shows "wake_lurkers wakeup dev (first bs) s = Some s"
  using assms(2)
proof (induction bs arbitrary: as)
  case Nil
  then show ?case by (subst wake_lurkers.simps) simp
next
  case (Cons b bs)
  obtain v where v: "sh_devs s b = Some v" "dev_ok ws b v" using lists_ok_dev [OF assms(1), of b] Cons.prems by auto
  have "dnx s b = first bs"
    using assms(1) Cons.prems dllD(4) [of _ _ _ _ ds as b bs] by (auto simp: lists_ok_def dev_list_def)
  then have "pd_next v = first bs" using v by (simp add: link_defs)
  moreover have "wake_lurkers wakeup dev (first bs) s = Some s" using Cons.IH [of "as @ [b]"] Cons.prems by simp
  ultimately show ?case using v by (subst wake_lurkers.simps) (simp add: dev_ok_def)
qed

text \<open>Releasing: the first waiter becomes the owner, or the port is free.\<close>

text \<open>The first half of a release: the port has no owner, and the device keeps its registers.\<close>

lemma release_saves:
  assumes ok: "share_ok s ws ds" and o: "pt_cad (sh_port s) = Some d"
  obtains s1 where "lists_ok s1 ws ds" "pt_cad (sh_port s1) = None" "pt_ops (sh_port s1) = pt_ops (sh_port s)"
    "pt_priv (sh_port s1) = pt_priv (sh_port s)" "pt_flags (sh_port s1) = pt_flags (sh_port s)"
    "\<forall>r. r \<noteq> d \<longrightarrow> sh_devs s1 r = sh_devs s r"
    "pt_ops (sh_port s) = Pc_ops \<longrightarrow> map_option st_ctr (map_option pd_state (sh_devs s1 d)) = Some (ucast (pp_ctr (pt_priv (sh_port s))))"
    "sunix_parport_release preempt wakeup d s = Option.bind (wake_waiters preempt wakeup (first ws) s1)
        (\<lambda>(ended, s2). if ended then Some s2 else wake_lurkers wakeup d (pt_devices (sh_port s2)) s2)"
proof -
  have l: "lists_ok s ws ds" and d: "d \<in> set ds" using ok o by (auto simp: share_ok_def)
  define s0 where "s0 = upd_port (\<lambda>p. p\<lparr>pt_cad := None\<rparr>) s"
  have l0: "lists_ok s0 ws ds" by (rule lists_ok_port [OF l]) (simp_all add: s0_def upd_port_def)
  obtain v where v: "sh_devs s0 d = Some v" using lists_ok_dev [OF l0 d] by blast
  obtain s1 st where s1: "save_into d s0 = Some s1" "lists_ok s1 ws ds" "sh_port s1 = sh_port s0"
    and sv: "sh_devs s1 d = Some (v\<lparr>pd_state := st\<rparr>)"
      "pt_ops (sh_port s0) = Pc_ops \<longrightarrow> st_ctr st = ucast (pp_ctr (pt_priv (sh_port s0)))"
      "\<forall>r. r \<noteq> d \<longrightarrow> sh_devs s1 r = sh_devs s0 r"
    using save_ok [OF l0 v] by blast
  have p0: "pt_ops (sh_port s0) = pt_ops (sh_port s)" "pt_priv (sh_port s0) = pt_priv (sh_port s)"
    "pt_flags (sh_port s0) = pt_flags (sh_port s)" "sh_devs s0 = sh_devs s" "pt_cad (sh_port s0) = None"
    by (simp_all add: s0_def upd_port_def)
  have "dll (wnx s1) (wpv s1) (pt_waithead (sh_port s1)) (pt_waittail (sh_port s1)) ws"
    using s1(2) by (auto simp: lists_ok_def wait_list_def)
  from dllD(2) [OF this] have "sunix_parport_release preempt wakeup d s = Option.bind (wake_waiters preempt wakeup (first ws) s1)
        (\<lambda>(ended, s2). if ended then Some s2 else wake_lurkers wakeup d (pt_devices (sh_port s2)) s2)"
    using o s1(1) by (simp add: sunix_parport_release_def s0_def)
  then show ?thesis using s1 sv p0 by (intro that [of s1]) simp_all
qed

text \<open>With nobody the owner, the first waiter gets the port.\<close>

lemma wake_first:
  assumes l: "lists_ok s1 (w # q) ds" and cad: "pt_cad (sh_port s1) = None"
  obtains vw s2 where "sh_devs s1 w = Some vw" "wake_waiters preempt wakeup (Some w) s1 = Some (True, s2)" "share_ok s2 q ds"
    "pt_cad (sh_port s2) = Some w" "pt_flags (sh_port s2) = pt_flags (sh_port s1)"
    "\<forall>r. map_option pd_state (sh_devs s2 r) = map_option pd_state (sh_devs s1 r)"
    "pp_ctr (pt_priv (sh_port s2)) = pp_ctr (pt_priv (fst (ops_restore_state (pd_state vw) (sh_port s1, sh_mach s1))))"
proof -
  have w: "w \<in> set ds" using lists_ok_dom(2) [OF l] by auto
  obtain vw where vw: "sh_devs s1 w = Some vw" "dev_ok (w # q) w vw" using lists_ok_dev [OF l w] by blast
  obtain s2 where s2: "sunix_parport_claim preempt w s1 = Some (0, s2)" "lists_ok s2 (remove1 w (w # q)) ds"
      "pt_cad (sh_port s2) = Some w" "pt_flags (sh_port s2) = pt_flags (sh_port s1)"
      "\<forall>r. map_option pd_state (sh_devs s2 r) = map_option pd_state (sh_devs s1 r)"
      "pp_ctr (pt_priv (sh_port s2)) = pp_ctr (pt_priv (fst (ops_restore_state (pd_state vw) (sh_port s1, sh_mach s1))))"
    using claim_idle [OF l w vw(1) cad] by blast
  have "pd_waiting vw AND 2 \<noteq> 0" using vw(2) by (auto simp: dev_ok_def)
  then have "wake_waiters preempt wakeup (Some w) s1 = Some (True, s2)"
    using vw s2(1) by (subst wake_waiters.simps) simp
  moreover have "w \<notin> set q"
    using l dllD(1) [of "wnx s1" "wpv s1"] by (fastforce simp: lists_ok_def wait_list_def)
  ultimately show ?thesis using that [OF vw(1) _ _ s2(3-6)] s2(2,3) w by (simp add: share_ok_def)
qed

lemma release_ok:
  assumes ok: "share_ok s ws ds" and o: "pt_cad (sh_port s) = Some d"
  shows "\<exists>s'. sunix_parport_release preempt wakeup d s = Some s' \<and> share_ok s' (tl ws) ds
     \<and> pt_cad (sh_port s') = first ws \<and> pt_flags (sh_port s') = pt_flags (sh_port s)
     \<and> (\<forall>r. r \<noteq> d \<longrightarrow> map_option pd_state (sh_devs s' r) = map_option pd_state (sh_devs s r))
     \<and> (pt_ops (sh_port s) = Pc_ops \<longrightarrow>
          map_option (st_ctr \<circ> pd_state) (sh_devs s' d) = Some (ucast (pp_ctr (pt_priv (sh_port s))))
        \<and> (\<forall>w v. first ws = Some w \<longrightarrow> sh_devs s w = Some v \<longrightarrow>
             pp_ctr (pt_priv (sh_port s')) = ucast (st_ctr (pd_state v)) AND pp_ctr_writable (pt_priv (sh_port s))))"
proof -
  obtain s1 where l1: "lists_ok s1 ws ds" and cad: "pt_cad (sh_port s1) = None"
    and p1: "pt_ops (sh_port s1) = pt_ops (sh_port s)" "pt_priv (sh_port s1) = pt_priv (sh_port s)" "pt_flags (sh_port s1) = pt_flags (sh_port s)"
    and sv: "\<forall>r. r \<noteq> d \<longrightarrow> sh_devs s1 r = sh_devs s r"
      "pt_ops (sh_port s) = Pc_ops \<longrightarrow> map_option st_ctr (map_option pd_state (sh_devs s1 d)) = Some (ucast (pp_ctr (pt_priv (sh_port s))))"
    and rel: "sunix_parport_release preempt wakeup d s = Option.bind (wake_waiters preempt wakeup (first ws) s1)
        (\<lambda>(ended, s2). if ended then Some s2 else wake_lurkers wakeup d (pt_devices (sh_port s2)) s2)"
    by (rule release_saves [OF ok o])
  show ?thesis
  proof (cases ws)
    case Nil
    then have "wake_waiters preempt wakeup (first ws) s1 = Some (False, s1)" by (subst wake_waiters.simps) simp
    moreover have "pt_devices (sh_port s1) = first ds"
      using l1 dllD(2) [of "dnx s1"] by (auto simp: lists_ok_def dev_list_def)
    ultimately have "sunix_parport_release preempt wakeup d s = Some s1" using rel lurkers_quiet [OF l1, of "[]" ds] by simp
    then show ?thesis using l1 cad Nil sv p1 by (auto simp: share_ok_def option.map_comp)
  next
    case (Cons w q)
    obtain vw s2 where s2: "sh_devs s1 w = Some vw" "wake_waiters preempt wakeup (Some w) s1 = Some (True, s2)" "share_ok s2 q ds"
      "pt_cad (sh_port s2) = Some w" "pt_flags (sh_port s2) = pt_flags (sh_port s1)"
      "\<forall>r. map_option pd_state (sh_devs s2 r) = map_option pd_state (sh_devs s1 r)"
      "pp_ctr (pt_priv (sh_port s2)) = pp_ctr (pt_priv (fst (ops_restore_state (pd_state vw) (sh_port s1, sh_mach s1))))"
      by (rule wake_first [OF l1 [unfolded Cons] cad])
    have "w \<noteq> d" using ok o Cons by (auto simp: share_ok_def)
    then have vw: "sh_devs s w = Some vw" using sv(1) s2(1) by auto
    have "map_option (st_ctr \<circ> pd_state) (sh_devs s2 d) = Some (ucast (pp_ctr (pt_priv (sh_port s))))" if "pt_ops (sh_port s) = Pc_ops"
      using sv(2) s2(6) that by (metis option.map_comp)
    moreover have "pp_ctr (pt_priv (sh_port s2)) = ucast (st_ctr (pd_state vw)) AND pp_ctr_writable (pt_priv (sh_port s))"
      if "pt_ops (sh_port s) = Pc_ops"
      using s2(7) that p1 by (simp add: ops_restore_ctr)
    moreover have "sunix_parport_release preempt wakeup d s = Some s2" using rel s2(2) Cons by simp
    ultimately show ?thesis using s2(3-6) sv(1) p1(3) vw Cons by auto
  qed
qed

lemma release_other: "pt_cad (sh_port s) \<noteq> Some d \<Longrightarrow> sunix_parport_release preempt wakeup d s = Some s"
  by (simp add: sunix_parport_release_def)

end

end
