(* ===== verification/Snx_Arbiter.thy ===== *)
theory Snx_Arbiter
  imports Main
begin

text \<open>
  What the drivers above driver/snx_share.c rely on: at most one device owns the port, the others
  wait in the order in which they came, and a release hands the port to the one that has waited
  longest. \<open>arb_step\<close> is that contract as a machine on an owner and a queue; the locale \<open>arbiter\<close>
  states it as laws of the two operations, and derives that any run refines the machine and that
  nobody is overtaken. Snx_Share proves the laws for the code.
\<close>

section \<open>An arbiter\<close>

datatype 'm arb_op = Enter 'm | Leave 'm

fun arb_step :: "'m arb_op \<Rightarrow> 'm option \<times> 'm list \<Rightarrow> 'm option \<times> 'm list" where
  "arb_step (Enter d) (None, q) = (Some d, q)"
| "arb_step (Enter d) (Some w, q) = (Some w, if w = d \<or> d \<in> set q then q else q @ [d])"
| "arb_step (Leave d) (w, q) = (if w = Some d then (case q of [] \<Rightarrow> (None, []) | x # q' \<Rightarrow> (Some x, q')) else (w, q))"

text \<open>A task that waits cannot ask again.\<close>

fun arb_legal :: "'m set \<Rightarrow> 'm arb_op list \<Rightarrow> 'm option \<times> 'm list \<Rightarrow> bool" where
  "arb_legal M [] a \<longleftrightarrow> True"
| "arb_legal M (Enter d # ops) a \<longleftrightarrow> d \<in> M \<and> d \<notin> set (snd a) \<and> arb_legal M ops (arb_step (Enter d) a)"
| "arb_legal M (Leave d # ops) a \<longleftrightarrow> arb_legal M ops (arb_step (Leave d) a)"

text \<open>How often the port changes hands: the releases by the owner of the moment.\<close>

fun turns :: "'m arb_op list \<Rightarrow> 'm option \<times> 'm list \<Rightarrow> nat" where
  "turns [] a = 0"
| "turns (Enter d # ops) a = turns ops (arb_step (Enter d) a)"
| "turns (Leave d # ops) a = (if fst a = Some d then 1 else 0) + turns ops (arb_step (Leave d) a)"

lemma arb_step_enter_waiting:
  "i < length q \<Longrightarrow> \<exists>q'. arb_step (Enter d) (Some w, q) = (Some w, q') \<and> i < length q' \<and> q' ! i = q ! i"
  by (auto simp: nth_append)

text \<open>A waiter at position \<open>i\<close> owns the port once it has changed hands \<open>i + 1\<close> times.\<close>

lemma waiter_served:
  assumes "i < length q" and "Suc i \<le> turns ops (Some w, q)"
  shows "\<exists>pre post. ops = pre @ post \<and> turns pre (Some w, q) = Suc i
     \<and> fst (fold arb_step pre (Some w, q)) = Some (q ! i)"
  using assms
proof (induction ops arbitrary: i w q)
  case Nil
  then show ?case by simp
next
  case (Cons op ops)
  show ?case
  proof (cases op)
    case (Enter d)
    obtain q' where q': "arb_step (Enter d) (Some w, q) = (Some w, q')" "i < length q'" "q' ! i = q ! i"
      using arb_step_enter_waiting [OF Cons.prems(1)] by blast
    obtain pre post where "ops = pre @ post" "turns pre (Some w, q') = Suc i"
      "fst (fold arb_step pre (Some w, q')) = Some (q' ! i)"
      using Cons.IH [OF q'(2), of w] Cons.prems(2) Enter q'(1) by (auto simp del: arb_step.simps)
    then show ?thesis
      by (intro exI [of _ "op # pre"] exI [of _ post]) (simp add: Enter q' del: arb_step.simps)
  next
    case (Leave d)
    show ?thesis
    proof (cases "w = d")
      case True
      obtain x q' where q: "q = x # q'" using Cons.prems(1) by (cases q) auto
      show ?thesis
      proof (cases i)
        case 0
        then show ?thesis
          by (intro exI [of _ "[op]"] exI [of _ ops]) (simp add: Leave True q)
      next
        case (Suc j)
        obtain pre post where "ops = pre @ post" "turns pre (Some x, q') = Suc j"
          "fst (fold arb_step pre (Some x, q')) = Some (q' ! j)"
          using Cons.IH [of j q' x] Cons.prems Leave True q Suc by auto
        then show ?thesis
          by (intro exI [of _ "op # pre"] exI [of _ post]) (simp add: Leave True q Suc)
      qed
    next
      case False
      obtain pre post where "ops = pre @ post" "turns pre (Some w, q) = Suc i"
        "fst (fold arb_step pre (Some w, q)) = Some (q ! i)"
        using Cons.IH [OF Cons.prems(1), of w] Cons.prems(2) Leave False by (simp split: if_splits) blast
      then show ?thesis
        by (intro exI [of _ "op # pre"] exI [of _ post]) (simp add: Leave False)
    qed
  qed
qed

fun arb_exec :: "('m \<Rightarrow> 's \<Rightarrow> (bool \<times> 's) option) \<Rightarrow> ('m \<Rightarrow> 's \<Rightarrow> 's option) \<Rightarrow> 'm arb_op list \<Rightarrow> 's \<Rightarrow> 's option" where
  "arb_exec enter leave [] s = Some s"
| "arb_exec enter leave (Enter d # ops) s =
    (case enter d s of None \<Rightarrow> None | Some (_, s') \<Rightarrow> arb_exec enter leave ops s')"
| "arb_exec enter leave (Leave d # ops) s =
    (case leave d s of None \<Rightarrow> None | Some s' \<Rightarrow> arb_exec enter leave ops s')"

lemma arb_exec_append:
  "arb_exec enter leave (xs @ ys) s = Option.bind (arb_exec enter leave xs s) (arb_exec enter leave ys)"
proof (induction xs arbitrary: s)
  case (Cons op xs)
  then show ?case by (cases op) (auto split: option.splits)
qed simp

subsection \<open>The contract\<close>

locale arbiter =
  fixes rep :: "'m set \<Rightarrow> 's \<Rightarrow> 'm option \<Rightarrow> 'm list \<Rightarrow> bool"
    and enter :: "'m \<Rightarrow> 's \<Rightarrow> (bool \<times> 's) option"
    and leave :: "'m \<Rightarrow> 's \<Rightarrow> 's option"
  assumes rep_idle: "\<And>M s q. rep M s None q \<Longrightarrow> q = []"
    and rep_owner: "\<And>M s w q. rep M s (Some w) q \<Longrightarrow> w \<notin> set q"
    and enter_law: "\<And>M s w q d. \<lbrakk>rep M s w q; d \<in> M; d \<notin> set q\<rbrakk> \<Longrightarrow>
      \<exists>s'. enter d s = Some (w = None \<or> w = Some d, s')
        \<and> rep M s' (fst (arb_step (Enter d) (w, q))) (snd (arb_step (Enter d) (w, q)))"
    and leave_law: "\<And>M s d q. rep M s (Some d) q \<Longrightarrow>
      \<exists>s'. leave d s = Some s' \<and> rep M s' (fst (arb_step (Leave d) (Some d, q))) (snd (arb_step (Leave d) (Some d, q)))"
    and leave_other: "\<And>M s w q d. \<lbrakk>rep M s w q; w \<noteq> Some d\<rbrakk> \<Longrightarrow> leave d s = Some s"
begin

lemma exec_refines:
  assumes "rep M s w q" and "arb_legal M ops (w, q)"
  shows "\<exists>s'. arb_exec enter leave ops s = Some s'
     \<and> rep M s' (fst (fold arb_step ops (w, q))) (snd (fold arb_step ops (w, q)))"
  using assms
proof (induction ops arbitrary: s w q)
  case Nil
  then show ?case by simp
next
  case (Cons op ops)
  obtain w' q' where a: "arb_step op (w, q) = (w', q')" by fastforce
  show ?case
  proof (cases op)
    case (Enter d)
    then obtain s1 where "enter d s = Some (w = None \<or> w = Some d, s1)" "rep M s1 w' q'"
      using enter_law [OF Cons.prems(1)] Cons.prems(2) a by fastforce
    then show ?thesis using Cons.IH [of s1 w' q'] Cons.prems(2) Enter a by simp
  next
    case (Leave d)
    show ?thesis
    proof (cases "w = Some d")
      case True
      then obtain s1 where "leave d s = Some s1" "rep M s1 w' q'"
        using leave_law [of M s d q] Cons.prems(1) a Leave by fastforce
      then show ?thesis using Cons.IH [of s1 w' q'] Cons.prems(2) Leave a by simp
    next
      case False
      then have "leave d s = Some s" using leave_other [OF Cons.prems(1)] by blast
      then show ?thesis using Cons.IH [OF Cons.prems(1)] Cons.prems(2) Leave False by simp
    qed
  qed
qed

lemma legal_append: "arb_legal M (xs @ ys) a \<Longrightarrow> arb_legal M xs a"
proof (induction xs arbitrary: a)
  case (Cons op xs)
  then show ?case by (cases op) auto
qed simp

lemma served_in_order:
  assumes "rep M s (Some w) q" and "arb_legal M ops (Some w, q)"
    and "i < length q" and "Suc i \<le> turns ops (Some w, q)"
  shows "\<exists>pre post s' q'. ops = pre @ post \<and> turns pre (Some w, q) = Suc i
     \<and> arb_exec enter leave pre s = Some s' \<and> rep M s' (Some (q ! i)) q'"
proof -
  obtain pre post where p: "ops = pre @ post" "turns pre (Some w, q) = Suc i"
    "fst (fold arb_step pre (Some w, q)) = Some (q ! i)"
    using waiter_served [OF assms(3,4)] by blast
  then show ?thesis using exec_refines [OF assms(1), of pre] assms(2) legal_append by fastforce
qed

end

end
