(* ===== verification/Snx_Arbitration.thy ===== *)
theory Snx_Arbitration
  imports Snx_Share Snx_Arbiter
begin

text \<open>
  The port sharing of Snx_Share is an arbiter: entering is \<open>sunix_parport_claim_or_block\<close> up to the
  point where it sleeps, leaving is \<open>sunix_parport_release\<close>. From the laws follow that any run of
  tasks that claim and release keeps the lists, grants the port in order of arrival and never
  follows a stale pointer. Registering and unregistering devices keep the lists too. The last part
  shows what an interrupted wait does to them.
\<close>

section \<open>The port as an arbiter\<close>

definition claim_entry :: "'a preempt_fn \<Rightarrow> nat \<Rightarrow> 'a share_scheme \<Rightarrow> (bool \<times> 'a share_scheme) option" where
  "claim_entry preempt d s =
    do {
      s0 \<leftarrow> upd_dev d (\<lambda>v. v\<lparr>pd_waiting := 2\<rparr>) s;
      (r, s1) \<leftarrow> sunix_parport_claim preempt d s0;
      (if r = - EAGAIN then Some (False, s1)
       else do { s2 \<leftarrow> upd_dev d (\<lambda>v. v\<lparr>pd_waiting := 0\<rparr>) s1; Some (True, s2) })
    }"

definition share_rep :: "nat set \<Rightarrow> 'a share_scheme \<Rightarrow> nat option \<Rightarrow> nat list \<Rightarrow> bool" where
  "share_rep M s w q \<longleftrightarrow> (\<exists>ds. set ds = M \<and> share_ok s q ds) \<and> pt_cad (sh_port s) = w"

text \<open>\<open>claim_entry\<close> is the code: when it gets the port \<open>claim_or_block\<close> returns 0 with its state.\<close>

lemma claim_or_block_entry:
  "claim_entry preempt d s = Some (True, s') \<Longrightarrow>
     sunix_parport_claim preempt d s0 = Some (r, s1) \<Longrightarrow> upd_dev d (\<lambda>v. v\<lparr>pd_waiting := 2\<rparr>) s = Some s0 \<Longrightarrow>
     sunix_parport_claim_or_block preempt sleep d s = Some (r, s')"
  by (auto simp: claim_entry_def sunix_parport_claim_or_block_def upd_dev_def split: if_splits option.splits)

lemma set_waiting_ok:
  assumes "lists_ok s ws ds" "d \<notin> set ws" "sh_devs s d = Some v" "n AND 1 = 0"
  shows "upd_dev d (\<lambda>v. v\<lparr>pd_waiting := n\<rparr>) s = Some (s\<lparr>sh_devs := (sh_devs s)(d \<mapsto> v\<lparr>pd_waiting := n\<rparr>)\<rparr>)
    \<and> lists_ok (s\<lparr>sh_devs := (sh_devs s)(d \<mapsto> v\<lparr>pd_waiting := n\<rparr>)\<rparr>) ws ds"
proof
  show "upd_dev d (\<lambda>v. v\<lparr>pd_waiting := n\<rparr>) s = Some (s\<lparr>sh_devs := (sh_devs s)(d \<mapsto> v\<lparr>pd_waiting := n\<rparr>)\<rparr>)"
    using assms(3) by (simp add: upd_dev_Some)
  show "lists_ok (s\<lparr>sh_devs := (sh_devs s)(d \<mapsto> v\<lparr>pd_waiting := n\<rparr>)\<rparr>) ws ds"
    by (rule lists_ok_touch [OF assms(1,3), where f = "\<lambda>v. v\<lparr>pd_waiting := n\<rparr>"])
       (use assms in \<open>auto simp: lists_ok_def dev_ok_def\<close>)
qed

context sharing begin

lemma entry_ok:
  assumes ok: "share_ok s q ds" and d: "d \<in> set ds" "d \<notin> set q"
  shows "\<exists>s'. claim_entry preempt d s = Some (pt_cad (sh_port s) = None \<or> pt_cad (sh_port s) = Some d, s')
     \<and> share_ok s' (snd (arb_step (Enter d) (pt_cad (sh_port s), q))) ds
     \<and> pt_cad (sh_port s') = fst (arb_step (Enter d) (pt_cad (sh_port s), q))
     \<and> pt_flags (sh_port s') = pt_flags (sh_port s)"
proof -
  have l: "lists_ok s q ds" using ok by (simp add: share_ok_def)
  obtain v where v: "sh_devs s d = Some v" using lists_ok_dev [OF l d(1)] by blast
  define s0 where "s0 = s\<lparr>sh_devs := (sh_devs s)(d \<mapsto> v\<lparr>pd_waiting := 2\<rparr>)\<rparr>"
  have s0: "upd_dev d (\<lambda>v. v\<lparr>pd_waiting := 2\<rparr>) s = Some s0" "lists_ok s0 q ds"
    using set_waiting_ok [OF l d(2) v, of 2] by (simp_all add: s0_def)
  have v0: "sh_devs s0 d = Some (v\<lparr>pd_waiting := 2\<rparr>)" "sh_port s0 = sh_port s" by (simp_all add: s0_def)
  have done': "\<exists>s2. upd_dev d (\<lambda>v. v\<lparr>pd_waiting := 0\<rparr>) s1 = Some s2 \<and> lists_ok s2 q' ds \<and> sh_port s2 = sh_port s1"
    if s1: "lists_ok s1 q' ds" "d \<notin> set q'" for s1 q'
  proof -
    obtain v1 where v1: "sh_devs s1 d = Some v1" using lists_ok_dev [OF s1(1) d(1)] by blast
    have "(0 :: u64) AND 1 = 0" by simp
    from set_waiting_ok [OF s1 v1 this] show ?thesis by auto
  qed
  consider (idle) "pt_cad (sh_port s) = None" | (own) "pt_cad (sh_port s) = Some d"
    | (busy) w where "pt_cad (sh_port s) = Some w" "w \<noteq> d" by blast
  then show ?thesis
  proof cases
    case idle
    then have q: "q = []" using ok by (simp add: share_ok_def)
    obtain s1 where s1: "sunix_parport_claim preempt d s0 = Some (0, s1)" "lists_ok s1 (remove1 d q) ds"
      "pt_cad (sh_port s1) = Some d" "pt_flags (sh_port s1) = pt_flags (sh_port s)"
      using claim_idle [OF s0(2) d(1) v0(1)] idle v0(2) by auto
    obtain s2 where "upd_dev d (\<lambda>v. v\<lparr>pd_waiting := 0\<rparr>) s1 = Some s2" "lists_ok s2 q ds" "sh_port s2 = sh_port s1"
      using done' [of s1 q] s1(2) d(2) q by auto
    then show ?thesis using s0(1) s1 idle d q by (auto simp: claim_entry_def share_ok_def)
  next
    case own
    have "sunix_parport_claim preempt d s0 = Some (0, s0)" using own v0 by (simp add: sunix_parport_claim_def)
    moreover obtain s2 where "upd_dev d (\<lambda>v. v\<lparr>pd_waiting := 0\<rparr>) s0 = Some s2" "lists_ok s2 q ds" "sh_port s2 = sh_port s0"
      using done' [OF s0(2) d(2)] by auto
    ultimately show ?thesis using s0(1) own v0 d by (auto simp: claim_entry_def share_ok_def)
  next
    case busy
    have w: "w \<in> set ds" "w \<notin> set q" using ok busy by (auto simp: share_ok_def)
    obtain s1 where "sunix_parport_claim preempt d s0 = Some (- EAGAIN, s1)" "lists_ok s1 (q @ [d]) ds"
      "pt_cad (sh_port s1) = Some w" "pt_flags (sh_port s1) = pt_flags (sh_port s)"
      using claim_busy [OF s0(2) v0(1) d(2), of w] busy w v0(2) by auto
    then show ?thesis using s0(1) busy w d by (auto simp: claim_entry_def share_ok_def)
  qed
qed

end

sublocale sharing \<subseteq> arb: arbiter share_rep "claim_entry preempt" "sunix_parport_release preempt wakeup"
proof unfold_locales
  fix M :: "nat set" and s :: "'a share_scheme" and q d and w :: "nat option"
  show "share_rep M s None q \<Longrightarrow> q = []" by (auto simp: share_rep_def share_ok_def)
  show "\<And>w. share_rep M s (Some w) q \<Longrightarrow> w \<notin> set q" by (auto simp: share_rep_def share_ok_def)
  show "\<lbrakk>share_rep M s w q; d \<in> M; d \<notin> set q\<rbrakk> \<Longrightarrow> \<exists>s'. claim_entry preempt d s = Some (w = None \<or> w = Some d, s')
        \<and> share_rep M s' (fst (arb_step (Enter d) (w, q))) (snd (arb_step (Enter d) (w, q)))"
    using entry_ok [of s q _ d] by (auto simp: share_rep_def) blast
  show "share_rep M s (Some d) q \<Longrightarrow> \<exists>s'. sunix_parport_release preempt wakeup d s = Some s'
        \<and> share_rep M s' (fst (arb_step (Leave d) (Some d, q))) (snd (arb_step (Leave d) (Some d, q)))"
    using release_ok [of s q _ d] by (cases q) (auto simp: share_rep_def, blast+)
  show "\<lbrakk>share_rep M s w q; w \<noteq> Some d\<rbrakk> \<Longrightarrow> sunix_parport_release preempt wakeup d s = Some s"
    by (rule release_other) (simp add: share_rep_def)
qed

section \<open>Registering and unregistering\<close>

text \<open>A change of the device list pointers alone keeps what the other list needs.\<close>

lemma dev_relinked:
  assumes "\<forall>r. \<exists>f g. sh_devs s' r = map_option (\<lambda>v. v\<lparr>pd_next := f v, pd_prev := g v\<rparr>) (sh_devs s r)"
  shows "dom (sh_devs s') = dom (sh_devs s)" "wnx s' = wnx s" "wpv s' = wpv s"
    "sh_devs s' r = Some x \<Longrightarrow> \<exists>y. sh_devs s r = Some y \<and> dev_ok ws r x = dev_ok ws r y \<and> pd_flags x = pd_flags y
      \<and> pd_waitprev x = pd_waitprev y \<and> pd_waitnext x = pd_waitnext y"
proof -
  note e = assms [rule_format]
  have "r \<in> dom (sh_devs s') \<longleftrightarrow> r \<in> dom (sh_devs s)" for r using e [of r] by (cases "sh_devs s r") auto
  then show "dom (sh_devs s') = dom (sh_devs s)" by blast
  have "wnx s' r = wnx s r \<and> wpv s' r = wpv s r" for r
    using e [of r] by (cases "sh_devs s r") (auto simp: link_defs)
  then show "wnx s' = wnx s" "wpv s' = wpv s" by (simp_all add: fun_eq_iff)
  show "\<exists>y. sh_devs s r = Some y \<and> dev_ok ws r x = dev_ok ws r y \<and> pd_flags x = pd_flags y
      \<and> pd_waitprev x = pd_waitprev y \<and> pd_waitnext x = pd_waitnext y" if "sh_devs s' r = Some x"
    using e [of r] that by (cases "sh_devs s r") (auto simp: dev_ok_def)
qed

lemma register_ok:
  assumes ok: "share_ok s ws ds" and fresh: "d \<notin> set ds" and kf: "\<not> kf"
    and r: "sunix_parport_register_device a b sl HZ d pf kf irq flags s = Some (Some d', s')"
  shows "d' = d \<and> share_ok s' ws (d # ds) \<and> pt_cad (sh_port s') = pt_cad (sh_port s)
     \<and> (flags AND PARPORT_DEV_EXCL \<noteq> 0 \<longrightarrow> ds = []) \<and> pt_flags (sh_port s) AND PARPORT_FLAG_EXCL = 0
     \<and> (flags AND PARPORT_DEV_EXCL = 0 \<longrightarrow> pt_flags (sh_port s') = pt_flags (sh_port s))"
proof -
  have l: "lists_ok s ws ds" using ok by (simp add: share_ok_def)
  define s2 where "s2 = (let s1 = sunix_parport_get_port s in if flags AND PARPORT_DEV_EXCL \<noteq> 0
      then upd_port (\<lambda>p. p\<lparr>pt_flags := pt_flags p OR PARPORT_FLAG_EXCL\<rparr>) s1 else s1)"
  have l2: "lists_ok s2 ws ds" and cad2: "pt_cad (sh_port s2) = pt_cad (sh_port s)"
    by (rule lists_ok_port [OF l]) (simp_all add: s2_def Let_def sunix_parport_get_port_def upd_port_def)
  have D2: "dll (dnx s2) (dpv s2) (pt_devices (sh_port s2)) (final ds) ds" "set ds = dom (sh_devs s2)"
    using l2 by (auto simp: lists_ok_def dev_list_def)
  define v where "v = new_pardevice sl HZ pf kf irq flags (sh_port s2)"
  define s3 where "s3 = s2\<lparr>sh_devs := (sh_devs s2)(d \<mapsto> v)\<rparr>"
  have dev: "pt_devices (sh_port (sunix_parport_get_port s)) = first ds"
    using dllD(2) [OF D2(1)] by (simp add: s2_def Let_def sunix_parport_get_port_def upd_port_def split: if_splits)
  have link: "link_dev d s3 = Some s'" "d' = d" "flags AND PARPORT_DEV_EXCL \<noteq> 0 \<longrightarrow> ds = []"
    "pt_flags (sh_port s) AND PARPORT_FLAG_EXCL = 0"
    using r dev by (auto simp: sunix_parport_register_device_def Let_def s2_def s3_def v_def split: if_splits bind_splits)
  have D3: "dll (dnx s3) (dpv s3) (pt_devices (sh_port s3)) (final ds) ds"
  proof -
    have "dnx s3 r = dnx s2 r \<and> dpv s3 r = dpv s2 r" if "r \<in> set ds" for r
      using that fresh by (auto simp: s3_def link_defs)
    then have "dll (dnx s3) (dpv s3) (pt_devices (sh_port s2)) (final ds) ds" by (rule dll_cong [OF D2(1)])
    then show ?thesis by (simp add: s3_def)
  qed
  have v3: "sh_devs s3 d = Some v" "pd_prev v = None" by (simp_all add: s3_def v_def new_pardevice_def)
  obtain s4 where s4: "link_dev d s3 = Some s4"
    "dll (dnx s4) (dpv s4) (pt_devices (sh_port s4)) (final (d # ds)) (d # ds)"
    "sh_port s4 = (sh_port s3)\<lparr>pt_devices := Some d\<rparr>"
    "\<forall>r. \<exists>f g. sh_devs s4 r = map_option (\<lambda>v. v\<lparr>pd_next := f v, pd_prev := g v\<rparr>) (sh_devs s3 r)"
  proof -
    have "set ds \<subseteq> dom (sh_devs s3)" using D2(2) by (auto simp: s3_def)
    from link_dev_ok [OF D3 fresh v3 this] show ?thesis using that by blast
  qed
  have eq: "s4 = s'" using s4(1) link(1) by simp
  note re = dev_relinked [OF s4(4)]
  have notin: "d \<notin> set ws" using fresh lists_ok_dom(2) [OF l] by auto
  have w2: "wait_list s2 ws" using l2 by (simp add: lists_ok_def)
  have "wait_list s4 ws"
    by (rule wait_list_cong [OF w2])
       (use notin w2 in \<open>auto simp: re(2,3) s4(3) re(1) s3_def link_defs wait_list_def\<close>)
  moreover have "dev_list s4 (d # ds)" using s4(2) D2(2) by (auto simp: dev_list_def re(1) s3_def)
  moreover have "dev_ok ws x y" if "sh_devs s4 x = Some y" for x y
  proof (cases "x = d")
    case True
    have "dev_ok ws d v" using notin kf by (simp add: dev_ok_def v_def new_pardevice_def)
    then show ?thesis using re(4) [OF that, of ws] True v3 by auto
  next
    case False
    then show ?thesis using re(4) [OF that, of ws] l2 by (auto simp: s3_def lists_ok_def)
  qed
  ultimately have "lists_ok s4 ws (d # ds)" by (simp add: lists_ok_def)
  moreover have "flags AND PARPORT_DEV_EXCL = 0 \<longrightarrow> pt_flags (sh_port s4) = pt_flags (sh_port s)"
    using s4(3) by (simp add: s3_def s2_def Let_def sunix_parport_get_port_def upd_port_def)
  ultimately show ?thesis using ok link(2-4) eq notin s4(3) cad2 by (auto simp: share_ok_def s3_def)
qed

text \<open>A refused registration leaves the port as it was, its reference count included.\<close>

lemma register_refused:
  "sunix_parport_register_device a b sl HZ d pf kf irq flags s = Some (None, s') \<Longrightarrow> s' = s"
  by (auto simp: sunix_parport_register_device_def put_ref_def sunix_parport_get_port_def upd_port_def Let_def
      split: if_splits bind_splits)

context sharing begin

lemma unregister_ok:
  assumes ok: "share_ok s ws ds" and d: "d \<in> set ds"
  shows "\<exists>s'. sunix_parport_unregister_device preempt wakeup d s = Some s'
     \<and> share_ok s' (if pt_cad (sh_port s) = Some d then tl ws else remove1 d ws) (remove1 d ds)
     \<and> pt_cad (sh_port s') = (if pt_cad (sh_port s) = Some d then first ws else pt_cad (sh_port s))
     \<and> (pt_flags (sh_port s') AND PARPORT_FLAG_EXCL \<noteq> 0 \<longrightarrow> pt_flags (sh_port s) AND PARPORT_FLAG_EXCL \<noteq> 0)"
proof -
  define w1 where "w1 = (if pt_cad (sh_port s) = Some d then tl ws else ws)"
  have dw: "pt_cad (sh_port s) = Some d \<Longrightarrow> d \<notin> set ws" using ok by (simp add: share_ok_def)
  obtain s1 where s1: "(if pt_cad (sh_port s) = Some d then sunix_parport_release preempt wakeup d s else Some s) = Some s1"
    "share_ok s1 w1 ds" "pt_flags (sh_port s1) = pt_flags (sh_port s)" "pt_cad (sh_port s1) = (if pt_cad (sh_port s) = Some d then first ws else pt_cad (sh_port s))"
  proof (cases "pt_cad (sh_port s) = Some d")
    case True
    from release_ok [OF ok True] show ?thesis using True that by (auto simp: w1_def)
  next
    case False
    then show ?thesis using that [of s] ok by (simp add: w1_def)
  qed
  have cad: "pt_cad (sh_port s1) \<noteq> Some d" using s1(4) dw by (auto simp: first_Some)
  have l1: "lists_ok s1 w1 ds" using s1(2) by (simp add: share_ok_def)
  have D: "dll (dnx s1) (dpv s1) (pt_devices (sh_port s1)) (final ds) ds" "set ds = dom (sh_devs s1)"
    using l1 by (auto simp: lists_ok_def dev_list_def)
  have dist: "distinct ds" using dllD(1) [OF D(1)] .
  obtain s2 where s2: "unlink_dev d s1 = Some s2"
    "dll (dnx s2) (dpv s2) (pt_devices (sh_port s2)) (final (remove1 d ds)) (remove1 d ds)"
    "\<exists>h0. sh_port s2 = (sh_port s1)\<lparr>pt_devices := h0\<rparr>"
    "\<forall>r. \<exists>f g. sh_devs s2 r = map_option (\<lambda>v. v\<lparr>pd_next := f v, pd_prev := g v\<rparr>) (sh_devs s1 r)"
    using unlink_dev_ok [OF D(1) d equalityD1 [OF D(2)]] by blast
  note re = dev_relinked [OF s2(4)]
  have okd: "dev_ok w1 r y" if "sh_devs s2 r = Some y" for r y
    using re(4) [OF that, of w1] l1 by (auto simp: lists_ok_def)
  obtain v where v: "sh_devs s2 d = Some v" using re(1) D(2) d by auto
  define s3 where "s3 = (if pd_flags v AND PARPORT_DEV_EXCL \<noteq> 0
      then upd_port (\<lambda>p. p\<lparr>pt_flags := pt_flags p AND NOT PARPORT_FLAG_EXCL\<rparr>) s2 else s2)"
  have same3: "sh_devs s3 = sh_devs s2" "pt_waithead (sh_port s3) = pt_waithead (sh_port s1)"
    "pt_waittail (sh_port s3) = pt_waittail (sh_port s1)" "pt_cad (sh_port s3) = pt_cad (sh_port s1)"
    "pt_devices (sh_port s3) = pt_devices (sh_port s2)"
    using s2(3) by (auto simp: s3_def upd_port_def)
  have links3: "wnx s3 = wnx s1" "wpv s3 = wpv s1" "dnx s3 = dnx s2" "dpv s3 = dpv s2"
    using re(2,3) by (simp_all add: link_defs fun_eq_iff same3(1))
  have w3: "wait_list s3 w1" using l1 by (simp add: lists_ok_def wait_list_def same3 links3 re(1))
  have distw: "distinct w1" using w3 by (auto simp: wait_list_def dest: dllD(1))
  have head: "pt_waithead (sh_port s3) = first w1" using w3 by (auto simp: wait_list_def dest: dllD(2))
  have s4: "\<exists>s4. (if pd_waitprev v \<noteq> None \<or> pd_waitnext v \<noteq> None \<or> pt_waithead (sh_port s3) = Some d
        then unlink_wait d s3 else Some s3) = Some s4
      \<and> relinked s3 s4 \<and> wait_list s4 (remove1 d w1) \<and> (\<forall>r. r \<notin> set w1 \<longrightarrow> sh_devs s4 r = sh_devs s3 r)"
  proof (cases "d \<in> set w1")
    case True
    then obtain as bs where x: "w1 = as @ d # bs" by (meson split_list)
    have "wpv s3 d = final as" using w3 dllD(5) [OF _ x] by (auto simp: wait_list_def)
    then have "pd_waitprev v \<noteq> None \<or> pt_waithead (sh_port s3) = Some d"
      using v head x by (cases as) (auto simp: link_defs same3(1) split: option.splits)
    then show ?thesis using unlink_wait_ok [OF w3 True] by auto
  next
    case False
    then have "pd_waitprev v = None" "pd_waitnext v = None" "pt_waithead (sh_port s3) \<noteq> Some d"
      using okd [OF v] head by (auto simp: dev_ok_def first_Some)
    moreover have "relinked s3 s3"
      by (rule relinkedI [where f = "\<lambda>_. pd_waitnext" and g = "\<lambda>_. pd_waitprev"
            and ?h0.0 = "pt_waithead (sh_port s3)" and ?t0.0 = "pt_waittail (sh_port s3)"]) (simp_all add: option.map_ident)
    ultimately show ?thesis using w3 False by (simp add: remove1_idem)
  qed
  then obtain s4 where s4: "(if pd_waitprev v \<noteq> None \<or> pd_waitnext v \<noteq> None \<or> pt_waithead (sh_port s3) = Some d
        then unlink_wait d s3 else Some s3) = Some s4"
    "relinked s3 s4" "wait_list s4 (remove1 d w1)" "\<forall>r. r \<notin> set w1 \<longrightarrow> sh_devs s4 r = sh_devs s3 r"
    by blast
  define s5 where "s5 = put_ref (s4\<lparr>sh_devs := (sh_devs s4)(d := None)\<rparr>)"
  have u: "sunix_parport_unregister_device preempt wakeup d s = Some s5"
    by (simp only: sunix_parport_unregister_device_def s1(1) s2(1) v s4(1) Option.bind.bind_lunit Let_def
        s3_def [symmetric] s5_def)
  have rw: "set (remove1 d w1) = set w1 - {d}" and rd: "set (remove1 d ds) = set ds - {d}"
    using distw dist by (simp_all add: set_remove1_eq)
  have "wait_list s5 (remove1 d w1)"
    by (rule wait_list_cong [OF s4(3)])
       (use s4(3) rw in \<open>auto simp: s5_def put_ref_def upd_port_def link_defs wait_list_def\<close>)
  moreover have "dev_list s5 (remove1 d ds)"
  proof -
    have "dnx s5 r = dnx s2 r \<and> dpv s5 r = dpv s2 r" if "r \<in> set (remove1 d ds)" for r
    proof -
      have "r \<noteq> d" using that rd by auto
      then have e: "sh_devs s5 r = sh_devs s4 r" by (simp add: s5_def put_ref_def upd_port_def)
      show ?thesis
      proof (cases "sh_devs s2 r")
        case None
        then show ?thesis using relinked_devs(1) [OF s4(2), of r] by (simp add: e link_defs same3(1))
      next
        case (Some y)
        then obtain a b where "sh_devs s4 r = Some (y\<lparr>pd_waitprev := a, pd_waitnext := b\<rparr>)"
          using relinked_devs(2) [OF s4(2), of r y] by (auto simp: same3(1))
        then show ?thesis using Some by (simp add: e link_defs)
      qed
    qed
    then have "dll (dnx s5) (dpv s5) (pt_devices (sh_port s2)) (final (remove1 d ds)) (remove1 d ds)"
      by (rule dll_cong [OF s2(2)])
    moreover have "pt_devices (sh_port s5) = pt_devices (sh_port s2)"
      using s4(2) same3(5) by (auto simp: s5_def put_ref_def upd_port_def relinked_def)
    moreover have "dom (sh_devs s5) = set (remove1 d ds)"
      using relinked_devs(3) [OF s4(2)] re(1) D(2) rd by (auto simp: s5_def put_ref_def upd_port_def same3(1))
    ultimately show ?thesis by (simp add: dev_list_def)
  qed
  moreover have "dev_ok (remove1 d w1) r x" if x: "sh_devs s5 r = Some x" for r x
  proof -
    have r: "r \<noteq> d" "sh_devs s4 r = Some x" using x by (auto simp: s5_def put_ref_def upd_port_def split: if_splits)
    show ?thesis by (rule dev_ok_unlinked [OF s4(2,4) distw r]) (use okd in \<open>auto simp: same3(1)\<close>)
  qed
  ultimately have l5: "lists_ok s5 (remove1 d w1) (remove1 d ds)" by (simp add: lists_ok_def)
  have cad5: "pt_cad (sh_port s5) = pt_cad (sh_port s1)"
    using s4(2) same3(4) by (auto simp: s5_def put_ref_def upd_port_def relinked_def)
  have "share_ok s5 (remove1 d w1) (remove1 d ds)"
    using l5 s1(2) cad cad5 rw rd by (auto simp: share_ok_def)
  moreover have "remove1 d w1 = (if pt_cad (sh_port s) = Some d then tl ws else remove1 d ws)"
    using dw by (cases ws) (auto simp: w1_def remove1_idem)
  moreover have "pt_flags (sh_port s5) AND PARPORT_FLAG_EXCL \<noteq> 0 \<longrightarrow> pt_flags (sh_port s) AND PARPORT_FLAG_EXCL \<noteq> 0"
  proof -
    have "pt_flags (sh_port s5) = pt_flags (sh_port s3)" using s4(2) by (auto simp: s5_def put_ref_def upd_port_def relinked_def)
    moreover have "pt_flags (sh_port s3) = pt_flags (sh_port s) AND NOT PARPORT_FLAG_EXCL \<or> pt_flags (sh_port s3) = pt_flags (sh_port s)"
      using s2(3) s1(3) by (auto simp: s3_def upd_port_def)
    ultimately show ?thesis by (auto simp: and_disjoint)
  qed
  ultimately show ?thesis using u cad5 s1(4) by (intro exI [of _ s5] conjI) simp_all
qed

end


section \<open>Runs of the port\<close>

definition refusing :: "'a preempt_fn \<Rightarrow> bool" where
  "refusing preempt \<longleftrightarrow> (\<forall>w s. fst (preempt w s) \<and> sh_port (snd (preempt w s)) = sh_port s
     \<and> sh_devs (snd (preempt w s)) = sh_devs s \<and> sh_mach (snd (preempt w s)) = sh_mach s)"

lemma refusing_sharing: "refusing preempt \<Longrightarrow> sharing preempt"
  by unfold_locales (auto simp: refusing_def)

text \<open>Devices without a preempt function, as ppdev registers them.\<close>

definition no_preempt :: "'a preempt_fn" where
  "no_preempt w s = (True, s)"

definition no_wakeup :: "'a wakeup_fn" where
  "no_wakeup w s = Some s"

lemma no_preempt_refusing: "refusing no_preempt"
  by (simp add: refusing_def no_preempt_def)

interpretation quiet: sharing no_preempt no_wakeup
  by (rule refusing_sharing [OF no_preempt_refusing])

text \<open>
  Everything that can happen to a port: a device is registered at a fresh address, without a
  wakeup function as in this driver, or unregistered; a task enters, if its device is registered
  and does not wait already; a task leaves, whoever it is.
\<close>

inductive port_step :: "'a preempt_fn \<Rightarrow> 'a wakeup_fn \<Rightarrow> 'a share_scheme \<Rightarrow> 'a share_scheme \<Rightarrow> bool"
  for preempt wakeup where
  register: "\<lbrakk>sh_devs s d = None; sunix_parport_register_device a b sl HZ d pf False irq flags s = Some (r, s')\<rbrakk>
    \<Longrightarrow> port_step preempt wakeup s s'"
| unregister: "\<lbrakk>sh_devs s d \<noteq> None; sunix_parport_unregister_device preempt wakeup d s = Some s'\<rbrakk>
    \<Longrightarrow> port_step preempt wakeup s s'"
| enter: "\<lbrakk>sh_devs s d = Some v; pd_waiting v AND 1 = 0; claim_entry preempt d s = Some (g, s')\<rbrakk>
    \<Longrightarrow> port_step preempt wakeup s s'"
| leave: "sunix_parport_release preempt wakeup d s = Some s' \<Longrightarrow> port_step preempt wakeup s s'"

inductive port_run :: "'a preempt_fn \<Rightarrow> 'a wakeup_fn \<Rightarrow> 'a share_scheme \<Rightarrow> 'a share_scheme \<Rightarrow> bool"
  for preempt wakeup where
  start: "port_run preempt wakeup s s"
| step: "\<lbrakk>port_run preempt wakeup s s1; port_step preempt wakeup s1 s2\<rbrakk> \<Longrightarrow> port_run preempt wakeup s s2"

definition port_inv :: "'a share_scheme \<Rightarrow> bool" where
  "port_inv s \<longleftrightarrow> (\<exists>ws ds. share_ok s ws ds
     \<and> (pt_flags (sh_port s) AND PARPORT_FLAG_EXCL \<noteq> 0 \<longrightarrow> length ds \<le> 1))"

lemma port_invI:
  "share_ok s ws ds \<Longrightarrow> (pt_flags (sh_port s) AND PARPORT_FLAG_EXCL \<noteq> 0 \<Longrightarrow> length ds \<le> 1) \<Longrightarrow> port_inv s"
  unfolding port_inv_def by blast

lemma share_ok_member: "share_ok s ws ds \<Longrightarrow> d \<in> set ds \<longleftrightarrow> sh_devs s d \<noteq> None"
  using lists_ok_dom(1) [of s ws ds] by (auto simp: share_ok_def)

lemma share_ok_waiting: "share_ok s ws ds \<Longrightarrow> sh_devs s d = Some v \<Longrightarrow> pd_waiting v AND 1 = 0 \<Longrightarrow> d \<notin> set ws"
  by (auto simp: share_ok_def lists_ok_def dev_ok_def)

context sharing begin

lemma port_step_inv:
  assumes "port_step preempt wakeup s s'" and "port_inv s"
  shows "port_inv s'"
proof -
  obtain ws ds where ok: "share_ok s ws ds" and x: "pt_flags (sh_port s) AND PARPORT_FLAG_EXCL \<noteq> 0 \<longrightarrow> length ds \<le> 1"
    using assms(2) by (auto simp: port_inv_def)
  from assms(1) show ?thesis
  proof cases
    case (register d a b sl HZ pf irq flags r)
    show ?thesis
    proof (cases r)
      case None
      then show ?thesis using register_refused register(2) assms(2) by blast
    next
      case (Some d')
      have "d \<notin> set ds" using register(1) share_ok_member [OF ok, of d] by simp
      from register_ok [OF ok this _ register(2) [unfolded Some]]
      have "share_ok s' ws (d # ds)" "flags AND PARPORT_DEV_EXCL \<noteq> 0 \<longrightarrow> ds = []"
        "pt_flags (sh_port s) AND PARPORT_FLAG_EXCL = 0"
        "flags AND PARPORT_DEV_EXCL = 0 \<longrightarrow> pt_flags (sh_port s') = pt_flags (sh_port s)" by auto
      then have "pt_flags (sh_port s') AND PARPORT_FLAG_EXCL \<noteq> 0 \<longrightarrow> length (d # ds) \<le> 1"
        by (cases "flags AND PARPORT_DEV_EXCL = 0") auto
      then show ?thesis using port_invI [OF \<open>share_ok s' ws (d # ds)\<close>] by blast
    qed
  next
    case (unregister d)
    have "d \<in> set ds" using unregister(1) share_ok_member [OF ok, of d] by simp
    from unregister_ok [OF ok this] unregister(2)
    obtain ws' where "share_ok s' ws' (remove1 d ds)"
      "pt_flags (sh_port s') AND PARPORT_FLAG_EXCL \<noteq> 0 \<longrightarrow> pt_flags (sh_port s) AND PARPORT_FLAG_EXCL \<noteq> 0"
      by auto
    moreover have "length (remove1 d ds) \<le> length ds" by (simp add: length_remove1)
    ultimately show ?thesis using x by (auto intro!: port_invI)
  next
    case (enter d v g)
    have "d \<in> set ds" "d \<notin> set ws"
      using enter(1,2) share_ok_member [OF ok, of d] share_ok_waiting [OF ok] by auto
    from entry_ok [OF ok this] enter(3)
    obtain ws' where "share_ok s' ws' ds" "pt_flags (sh_port s') = pt_flags (sh_port s)" by auto
    then show ?thesis using x by (auto intro!: port_invI)
  next
    case (leave d)
    show ?thesis
    proof (cases "pt_cad (sh_port s) = Some d")
      case True
      from release_ok [OF ok True] leave obtain ws' where "share_ok s' ws' ds" "pt_flags (sh_port s') = pt_flags (sh_port s)"
        by auto
      then show ?thesis using x by (auto intro!: port_invI)
    next
      case False
      then show ?thesis using release_other leave assms(2) by auto
    qed
  qed
qed

lemma port_run_inv: "port_run preempt wakeup s s' \<Longrightarrow> port_inv s \<Longrightarrow> port_inv s'"
  by (induction rule: port_run.induct) (auto intro: port_step_inv)

end

subsection \<open>A port with three devices\<close>

definition empty_share :: share where
  "empty_share = \<lparr>sh_port = example_par, sh_devs = (\<lambda>_. None), sh_mach = idle_machine\<rparr>"

lemma empty_share_ok: "share_ok empty_share [] []"
  by (auto simp: share_ok_def lists_ok_def wait_list_def dev_list_def empty_share_def example_par_def)

lemma empty_share_inv: "port_inv empty_share"
  by (rule port_invI [OF empty_share_ok]) simp

text \<open>Registering a plain device where no exclusive one is succeeds.\<close>

lemma register_plain:
  assumes ok: "share_ok s ws ds" and fresh: "d \<notin> set ds" and x: "pt_flags (sh_port s) AND PARPORT_FLAG_EXCL = 0"
  shows "\<exists>s'. sunix_parport_register_device True True sl HZ d pf False irq 0 s = Some (Some d, s')
     \<and> share_ok s' ws (d # ds) \<and> pt_flags (sh_port s') = pt_flags (sh_port s) \<and> pt_cad (sh_port s') = pt_cad (sh_port s)"
proof -
  have l: "lists_ok s ws ds" using ok by (simp add: share_ok_def)
  define s2 where "s2 = sunix_parport_get_port s"
  have l2: "lists_ok s2 ws ds" by (rule lists_ok_port [OF l]) (simp_all add: s2_def sunix_parport_get_port_def upd_port_def)
  define s3 where "s3 = s2\<lparr>sh_devs := (sh_devs s2)(d \<mapsto> new_pardevice sl HZ pf False irq 0 (sh_port s2))\<rparr>"
  have D: "dll (dnx s2) (dpv s2) (pt_devices (sh_port s2)) (final ds) ds" "set ds = dom (sh_devs s2)"
    using l2 by (auto simp: lists_ok_def dev_list_def)
  have "dnx s3 r = dnx s2 r \<and> dpv s3 r = dpv s2 r" if "r \<in> set ds" for r
    using that fresh by (auto simp: s3_def link_defs)
  then have D3: "dll (dnx s3) (dpv s3) (pt_devices (sh_port s3)) (final ds) ds"
    using dll_cong [OF D(1)] by (simp add: s3_def)
  have v: "sh_devs s3 d = Some (new_pardevice sl HZ pf False irq 0 (sh_port s2))"
    "pd_prev (new_pardevice sl HZ pf False irq 0 (sh_port s2)) = None" by (simp_all add: s3_def new_pardevice_def)
  have "set ds \<subseteq> dom (sh_devs s3)" using D(2) by (auto simp: s3_def)
  from link_dev_ok [OF D3 fresh v this] obtain s4 where "link_dev d s3 = Some s4" by blast
  then have r: "sunix_parport_register_device True True sl HZ d pf False irq 0 s = Some (Some d, s4)"
    using x by (simp add: sunix_parport_register_device_def s2_def [symmetric] s3_def Let_def)
  then show ?thesis using register_ok [OF ok fresh _ r] by auto
qed

lemma three_devices: "\<exists>s. share_ok s [] [3, 2, 1] \<and> pt_cad (sh_port s) = None
   \<and> port_run no_preempt no_wakeup empty_share s"
proof -
  let ?reg = "\<lambda>d. sunix_parport_register_device True True 50 250 d True False False 0"
  have e: "pt_flags (sh_port empty_share) AND PARPORT_FLAG_EXCL = 0" "pt_cad (sh_port empty_share) = None"
    by (simp_all add: empty_share_def example_par_def)
  obtain s1 where s1: "?reg 1 empty_share = Some (Some 1, s1)" "share_ok s1 [] [1]"
    "pt_flags (sh_port s1) AND PARPORT_FLAG_EXCL = 0" "pt_cad (sh_port s1) = None"
    using register_plain [OF empty_share_ok, of 1 50 250 True False] e by auto
  obtain s2 where s2: "?reg 2 s1 = Some (Some 2, s2)" "share_ok s2 [] [2, 1]"
    "pt_flags (sh_port s2) AND PARPORT_FLAG_EXCL = 0" "pt_cad (sh_port s2) = None"
    using register_plain [OF s1(2), of 2 50 250 True False] s1 by auto
  obtain s3 where s3: "?reg 3 s2 = Some (Some 3, s3)" "share_ok s3 [] [3, 2, 1]"
    "pt_cad (sh_port s3) = None"
    using register_plain [OF s2(2), of 3 50 250 True False] s2 by auto
  have "sh_devs empty_share 1 = None" "sh_devs s1 2 = None" "sh_devs s2 3 = None"
    using share_ok_member [OF empty_share_ok, of 1] share_ok_member [OF s1(2), of 2] share_ok_member [OF s2(2), of 3] by simp_all
  then have "port_run no_preempt no_wakeup empty_share s3"
    using s1(1) s2(1) s3(1) by (meson port_run.intros port_step.register)
  then show ?thesis using s3 by blast
qed

section \<open>Properties\<close>

context sharing begin

lemma run_refines:
  assumes "share_ok s q ds" and "arb_legal (set ds) ops (pt_cad (sh_port s), q)"
  shows "\<exists>s' q'. arb_exec (claim_entry preempt) (sunix_parport_release preempt wakeup) ops s = Some s'
     \<and> (\<exists>ds'. set ds' = set ds \<and> share_ok s' q' ds')
     \<and> (pt_cad (sh_port s'), q') = fold arb_step ops (pt_cad (sh_port s), q)"
proof -
  have "share_rep (set ds) s (pt_cad (sh_port s)) q" using assms(1) by (auto simp: share_rep_def)
  from arb.exec_refines [OF this assms(2)] show ?thesis
    unfolding share_rep_def by (metis prod.collapse)
qed

lemma run_serves:
  assumes "share_ok s q ds" and "pt_cad (sh_port s) = Some w" and "arb_legal (set ds) ops (Some w, q)"
    and "i < length q" and "Suc i \<le> turns ops (Some w, q)"
  shows "\<exists>pre post s'. ops = pre @ post \<and> turns pre (Some w, q) = Suc i
     \<and> arb_exec (claim_entry preempt) (sunix_parport_release preempt wakeup) pre s = Some s'
     \<and> pt_cad (sh_port s') = Some (q ! i)"
proof -
  have "share_rep (set ds) s (Some w) q" using assms(1,2) by (auto simp: share_rep_def)
  from arb.served_in_order [OF this assms(3-5)] show ?thesis unfolding share_rep_def by blast
qed

end

text \<open>
  C3. Any run of tasks that claim and release the port refines the arbiter: no call follows a
  stale pointer, the lists stay well formed, and owner and waiters are those of the abstract
  machine, which grants in order of arrival.
\<close>

theorem arbitration_refines:
  assumes "refusing preempt" and "share_ok s q ds"
    and "arb_legal (set ds) ops (pt_cad (sh_port s), q)"
  shows "\<exists>s' q'. arb_exec (claim_entry preempt) (sunix_parport_release preempt wakeup) ops s = Some s'
     \<and> (\<exists>ds'. set ds' = set ds \<and> share_ok s' q' ds')
     \<and> (pt_cad (sh_port s'), q') = fold arb_step ops (pt_cad (sh_port s), q)"
  using sharing.run_refines [OF refusing_sharing [OF assms(1)] assms(2,3)] .

theorem arbitration_refines_witness:
  "\<exists>s s' :: share. arb_exec (claim_entry no_preempt) (sunix_parport_release no_preempt no_wakeup)
       [Enter 1, Enter 2, Enter 3, Leave 1, Leave 2, Enter 1] s = Some s'
     \<and> pt_cad (sh_port s') = Some 3"
proof -
  obtain s :: share where s: "share_ok s [] [3, 2, 1]" "pt_cad (sh_port s) = None" using three_devices by blast
  have "arb_legal (set [3, 2, 1]) [Enter 1, Enter 2, Enter 3, Leave 1, Leave 2, Enter 1] (pt_cad (sh_port s), [])"
    using s(2) by simp
  from arbitration_refines [OF no_preempt_refusing s(1) this, of no_wakeup] s(2) show ?thesis by auto
qed

text \<open>
  C6. Nobody is overtaken: the device at position \<open>i\<close> of the wait list owns the port as soon as
  the port has changed hands \<open>i + 1\<close> times, whatever other tasks do meanwhile.
\<close>

theorem waiters_served_in_order:
  assumes "refusing preempt" and "share_ok s q ds" and "pt_cad (sh_port s) = Some w"
    and "arb_legal (set ds) ops (Some w, q)" and "i < length q" and "Suc i \<le> turns ops (Some w, q)"
  shows "\<exists>pre post s'. ops = pre @ post \<and> turns pre (Some w, q) = Suc i
     \<and> arb_exec (claim_entry preempt) (sunix_parport_release preempt wakeup) pre s = Some s'
     \<and> pt_cad (sh_port s') = Some (q ! i)"
  using sharing.run_serves [OF refusing_sharing [OF assms(1)] assms(2-6)] .

lemma queue_of_two: "\<exists>s :: share. \<exists>ds. set ds = {1, 2, 3} \<and> share_ok s [2, 3] ds \<and> pt_cad (sh_port s) = Some 1"
proof -
  obtain s :: share where s: "share_ok s [] [3, 2, 1]" "pt_cad (sh_port s) = None" using three_devices by blast
  have "arb_legal (set [3, 2, 1]) [Enter 1, Enter 2, Enter 3] (pt_cad (sh_port s), [])" using s(2) by simp
  from quiet.run_refines [OF s(1) this] s(2) show ?thesis by auto
qed

theorem waiters_served_in_order_witness:
  "\<exists>s pre post s' :: share. [Leave 1, Enter 1, Leave 2] = pre @ post
     \<and> arb_exec (claim_entry no_preempt) (sunix_parport_release no_preempt no_wakeup) pre s = Some s'
     \<and> pt_cad (sh_port s') = Some 3"
proof -
  obtain s :: share and ds where s: "set ds = {1, 2, 3}" "share_ok s [2, 3] ds" "pt_cad (sh_port s) = Some 1"
    using queue_of_two by blast
  have "arb_legal (set ds) [Leave 1, Enter 1, Leave 2] (Some 1, [2, 3])"
    "1 < length [2, 3 :: nat]" "Suc 1 \<le> turns [Leave 1, Enter 1, Leave 2] (Some (1 :: nat), [2, 3])"
    using s(1) by simp_all
  from waiters_served_in_order [OF no_preempt_refusing s(2,3) this, of no_wakeup] show ?thesis
    by (simp only: nth_Cons_Suc nth_Cons_0 One_nat_def) blast
qed

text \<open>
  C7. However devices come and go, claim and release, the lists of the port stay well formed, an
  exclusive device is alone on its port, and every operation that the steps allow returns.
\<close>

theorem port_stays_well_formed:
  assumes "refusing preempt" and "port_inv s0" and "port_run preempt wakeup s0 s"
  shows "port_inv s
    \<and> (\<forall>d v. sh_devs s d = Some v \<longrightarrow> sunix_parport_unregister_device preempt wakeup d s \<noteq> None
        \<and> sunix_parport_release preempt wakeup d s \<noteq> None
        \<and> (pd_waiting v AND 1 = 0 \<longrightarrow> claim_entry preempt d s \<noteq> None))"
proof -
  have sh: "sharing preempt" by (rule refusing_sharing [OF assms(1)])
  have inv: "port_inv s" by (rule sharing.port_run_inv [OF sh assms(3,2)])
  then obtain ws ds where ok: "share_ok s ws ds" by (auto simp: port_inv_def)
  have "sunix_parport_unregister_device preempt wakeup d s \<noteq> None \<and> sunix_parport_release preempt wakeup d s \<noteq> None
      \<and> (pd_waiting v AND 1 = 0 \<longrightarrow> claim_entry preempt d s \<noteq> None)" if v: "sh_devs s d = Some v" for d v
  proof -
    have d: "d \<in> set ds" using v share_ok_member [OF ok] by blast
    have "sunix_parport_release preempt wakeup d s \<noteq> None"
    proof (cases "pt_cad (sh_port s) = Some d")
      case True
      from sharing.release_ok [OF sh ok True, of wakeup] show ?thesis by auto
    next
      case False
      from sharing.release_other [OF sh this, of wakeup] show ?thesis by simp
    qed
    moreover from sharing.unregister_ok [OF sh ok d, of wakeup]
    have "sunix_parport_unregister_device preempt wakeup d s \<noteq> None" by auto
    ultimately show ?thesis
      using sharing.entry_ok [OF sh ok d] share_ok_waiting [OF ok v] by auto
  qed
  then show ?thesis using inv by blast
qed

theorem port_stays_well_formed_witness:
  "\<exists>s :: share. port_run no_preempt no_wakeup empty_share s \<and> port_inv s \<and> sh_devs s 1 \<noteq> None
     \<and> sunix_parport_unregister_device no_preempt no_wakeup 1 s \<noteq> None"
proof -
  obtain s :: share where s: "share_ok s [] [3, 2, 1]" "port_run no_preempt no_wakeup empty_share s"
    using three_devices by blast
  have "sh_devs s 1 \<noteq> None" using share_ok_member [OF s(1), of 1] by simp
  then show ?thesis using port_stays_well_formed [OF no_preempt_refusing empty_share_inv s(2)] s(2) by auto
qed

text \<open>
  C33. A hand-over switches the registers: releasing saves the control register into the struct of
  the device that leaves, and the first waiter finds in it what it saved itself, cut to the
  writable bits; with no waiter the port is free.
\<close>

theorem hand_over_switches_registers:
  assumes "refusing preempt" and "share_ok s ws ds" and "pt_cad (sh_port s) = Some d" and "pt_ops (sh_port s) = Pc_ops"
  shows "\<exists>s'. sunix_parport_release preempt wakeup d s = Some s' \<and> share_ok s' (tl ws) ds
     \<and> map_option (st_ctr \<circ> pd_state) (sh_devs s' d) = Some (ucast (pp_ctr (pt_priv (sh_port s))))
     \<and> (case ws of [] \<Rightarrow> pt_cad (sh_port s') = None
        | w # _ \<Rightarrow> pt_cad (sh_port s') = Some w \<and>
            (\<forall>v. sh_devs s w = Some v \<longrightarrow>
               pp_ctr (pt_priv (sh_port s')) = ucast (st_ctr (pd_state v)) AND pp_ctr_writable (pt_priv (sh_port s))))"
  using sharing.release_ok [OF refusing_sharing [OF assms(1)] assms(2,3), of wakeup] assms(4)
  by (cases ws) auto

text \<open>A port that device 1 owns while device 2 waits.\<close>

definition owner_and_waiter :: share where
  "owner_and_waiter =
    \<lparr>sh_port = example_par\<lparr>pt_cad := Some 1, pt_devices := Some 2, pt_waithead := Some 2, pt_waittail := Some 2\<rparr>,
     sh_devs = [1 \<mapsto> (new_pardevice 50 250 False False False 0 example_par)\<lparr>pd_prev := Some 2\<rparr>,
                2 \<mapsto> (new_pardevice 50 250 False False False 0 example_par)\<lparr>pd_next := Some 1, pd_waiting := 3\<rparr>],
     sh_mach = idle_machine\<rparr>"

lemma owner_and_waiter_ok: "share_ok owner_and_waiter [2] [2, 1]"
  by (auto simp: share_ok_def lists_ok_def wait_list_def dev_list_def dll_def link_defs dev_ok_def
      owner_and_waiter_def new_pardevice_def Cons_eq_append_conv split: if_splits)

theorem hand_over_switches_registers_witness:
  "\<exists>s'. sunix_parport_release no_preempt no_wakeup 1 owner_and_waiter = Some s' \<and> pt_cad (sh_port s') = Some 2
     \<and> pp_ctr (pt_priv (sh_port s')) = 0xc"
proof -
  have c: "pt_cad (sh_port owner_and_waiter) = Some 1" "pt_ops (sh_port owner_and_waiter) = Pc_ops"
    "pp_ctr_writable (pt_priv (sh_port owner_and_waiter)) = NOT 0x10"
    "\<exists>v. sh_devs owner_and_waiter 2 = Some v \<and> st_ctr (pd_state v) = 0xc"
    by (simp_all add: owner_and_waiter_def example_par_def new_pardevice_def sunix_parport_pc_init_state_def)
  from hand_over_switches_registers [OF no_preempt_refusing owner_and_waiter_ok c(1,2), of no_wakeup] c(3,4)
  show ?thesis by auto
qed

section \<open>An interrupted wait\<close>

text \<open>
  A task whose wait a signal ends leaves its device on the wait list. When it asks again, \<open>claim_or_block\<close>
  overwrites \<^verbatim>\<open>waiting\<close>, forgets that the device is listed, and links it a second time.
\<close>

text \<open>A sleep that a signal ends, and in which nobody touches the port.\<close>

definition signal_ends :: "'a sleep_fn \<Rightarrow> bool" where
  "signal_ends sleep \<longleftrightarrow> (\<forall>s. sh_port (sleep s) = sh_port s \<and> sh_devs (sleep s) = sh_devs s \<and> fst (signal_pending (sh_mach (sleep s))))"

lemma refused_claim:
  assumes "refusing preempt" and "pt_cad (sh_port s) = Some c" and "c \<noteq> d" and "sh_devs s c = Some u"
  obtains s1 where "sunix_parport_claim preempt d s = claim_blocked d s1" "sh_port s1 = sh_port s" "sh_devs s1 = sh_devs s"
proof (cases "pd_preempt u")
  case True
  obtain b s1 where 1: "preempt c s = (b, s1)" by fastforce
  have "b \<and> sh_port s1 = sh_port s \<and> sh_devs s1 = sh_devs s" using assms(1) 1 by (fastforce simp: refusing_def dest: spec [of _ c] spec [of _ s])
  then show ?thesis using that [of s1] True assms 1 by (simp add: sunix_parport_claim_def)
next
  case False
  then show ?thesis using that [of s] assms by (simp add: sunix_parport_claim_def)
qed

text \<open>One interrupted wait appends the device behind the tail, be that nobody or the device itself.\<close>

lemma interrupted_wait:
  assumes ref: "refusing preempt" and sl: "signal_ends sleep" and c: "pt_cad (sh_port s) = Some c" "c \<noteq> d" "sh_devs s c = Some u"
    and v: "sh_devs s d = Some v" and t: "pt_waittail (sh_port s) = None \<or> pt_waittail (sh_port s) = Some d"
  obtains s' v' where "sunix_parport_claim_or_block preempt sleep d s = Some (- EINTR, s')" "sh_devs s' = (sh_devs s)(d \<mapsto> v')"
    "pd_next v' = pd_next v" "pd_prev v' = pd_prev v" "pd_waitprev v' = pt_waittail (sh_port s)" "pd_waitnext v' = pt_waittail (sh_port s)"
    "sh_port s' = (sh_port s)\<lparr>pt_waithead := if pt_waittail (sh_port s) = None then Some d else pt_waithead (sh_port s), pt_waittail := Some d\<rparr>"
proof -
  let ?t = "pt_waittail (sh_port s)"
  define s0 where "s0 = s\<lparr>sh_devs := (sh_devs s)(d \<mapsto> v\<lparr>pd_waiting := 2\<rparr>)\<rparr>"
  have s0: "upd_dev d (\<lambda>v. v\<lparr>pd_waiting := 2\<rparr>) s = Some s0" using v by (simp add: upd_dev_def s0_def)
  have "pt_cad (sh_port s0) = Some c" "sh_devs s0 c = Some u" using c by (simp_all add: s0_def)
  from refused_claim [OF ref this(1) c(2) this(2)] obtain s1 where
    1: "sunix_parport_claim preempt d s0 = claim_blocked d s1" "sh_port s1 = sh_port s" "sh_devs s1 = sh_devs s0" by (auto simp: s0_def)
  define v' where "v' = v\<lparr>pd_waiting := 3, pd_waitnext := ?t, pd_waitprev := ?t\<rparr>"
  define s2 where "s2 = s1\<lparr>sh_devs := (sh_devs s)(d \<mapsto> v'), sh_port := (sh_port s)\<lparr>pt_waithead := if ?t = None then Some d else
    pt_waithead (sh_port s), pt_waittail := Some d\<rparr>\<rparr>"
  have 2: "claim_blocked d s1 = Some (- EAGAIN, s2)"
    using t 1(2,3) by (cases v) (auto simp: claim_blocked_def link_wait_def upd_dev_def upd_port_def s0_def s2_def v'_def)
  obtain b m where m: "signal_pending (sh_mach (sleep s2)) = (b, m)" by fastforce
  have "b" using sl m by (fastforce simp: signal_ends_def dest: spec [of _ s2])
  then have "sunix_parport_claim_or_block preempt sleep d s = Some (- EINTR, (sleep s2)\<lparr>sh_mach := m\<rparr>)"
    using s0 1(1) 2 m by (simp add: sunix_parport_claim_or_block_def Let_def) (simp add: s2_def v'_def)
  then show ?thesis using that [of "(sleep s2)\<lparr>sh_mach := m\<rparr>" v'] sl by (simp add: signal_ends_def) (simp add: s2_def v'_def)
qed

text \<open>Unregistering a device that is linked to itself takes it off the device list only.\<close>

lemma unregister_self_linked:
  assumes D: "dll (dnx s) (dpv s) (pt_devices (sh_port s)) (final ds) ds" "set ds = dom (sh_devs s)" and d: "d \<in> set ds"
    and c: "pt_cad (sh_port s) = Some c" "c \<noteq> d" and w: "wnx s d = Some d" "wpv s d = Some d"
  obtains s' where "sunix_parport_unregister_device preempt wakeup d s = Some s'" "sh_devs s' d = None"
    "pt_waithead (sh_port s') = pt_waithead (sh_port s)" "pt_cad (sh_port s') = Some c" "sh_devs s c \<noteq> None \<Longrightarrow> sh_devs s' c \<noteq> None"
proof -
  obtain s2 where 2: "unlink_dev d s = Some s2" "\<exists>h0. sh_port s2 = (sh_port s)\<lparr>pt_devices := h0\<rparr>"
    "\<forall>r. \<exists>f g. sh_devs s2 r = map_option (\<lambda>v. v\<lparr>pd_next := f v, pd_prev := g v\<rparr>) (sh_devs s r)"
    using unlink_dev_ok [OF D(1) d equalityD1 [OF D(2)]] by blast
  note re = dev_relinked [OF 2(3)]
  obtain v where v: "sh_devs s2 d = Some v" "pd_waitprev v = Some d" "pd_waitnext v = Some d"
    using re(1-3) w D(2) d by (auto simp: link_defs fun_eq_iff split: option.splits dest: spec [of _ d])
  define s3 where "s3 = (if pd_flags v AND PARPORT_DEV_EXCL \<noteq> 0
      then upd_port (\<lambda>p. p\<lparr>pt_flags := pt_flags p AND NOT PARPORT_FLAG_EXCL\<rparr>) s2 else s2)"
  have 3: "sh_devs s3 = sh_devs s2" "pt_waithead (sh_port s3) = pt_waithead (sh_port s)" "pt_cad (sh_port s3) = Some c"
    using 2(2) c(1) by (auto simp: s3_def upd_port_def)
  have "unlink_wait d s3 = Some (s3\<lparr>sh_devs := (sh_devs s3)(d \<mapsto> v)\<rparr>)"
    using v 3(1) by (auto simp: unlink_wait_def upd_dev_def fun_upd_idem)
  then have "sunix_parport_unregister_device preempt wakeup d s
      = Some (put_ref (s3\<lparr>sh_devs := (sh_devs s3)(d := None)\<rparr>))"
    using c 2(1) v by (simp add: sunix_parport_unregister_device_def Let_def flip: s3_def)
  then show ?thesis by (rule that) (use 3 c(2) re(1) in \<open>auto simp: put_ref_def upd_port_def\<close>)
qed

text \<open>
  C34. Starting from any well-formed port on which nobody waits: a task whose device is not the owner is
  interrupted by a signal twice while it waits, and then closes its device. Nothing reports an error other than
  \<open>-EINTR\<close>, but the head of the wait list is the freed device, and when the owner releases the port the code follows it.
\<close>

theorem interrupted_wait_use_after_free:
  assumes "refusing preempt" and "signal_ends sleep" and "share_ok s [] ds" and "pt_cad (sh_port s) = Some c"
    and "d \<in> set ds" and "c \<noteq> d"
  shows "\<exists>s1 s2 s3. sunix_parport_claim_or_block preempt sleep d s = Some (- EINTR, s1)
    \<and> sunix_parport_claim_or_block preempt sleep d s1 = Some (- EINTR, s2)
    \<and> sunix_parport_unregister_device preempt wakeup d s2 = Some s3
    \<and> sh_devs s3 d = None \<and> pt_waithead (sh_port s3) = Some d \<and> sunix_parport_release preempt wakeup c s3 = None"
proof -
  have l: "lists_ok s [] ds" and cd: "c \<in> set ds" using assms(3,4) by (auto simp: share_ok_def)
  obtain u where u: "sh_devs s c = Some u" using lists_ok_dev [OF l cd] by blast
  obtain v where v: "sh_devs s d = Some v" using lists_ok_dev [OF l assms(5)] by blast
  have t: "pt_waittail (sh_port s) = None" and D: "dll (dnx s) (dpv s) (pt_devices (sh_port s)) (final ds) ds" "set ds = dom (sh_devs s)"
    using l dllD(3) by (auto simp: lists_ok_def wait_list_def dev_list_def)
  obtain s1 v1 where 1: "sunix_parport_claim_or_block preempt sleep d s = Some (- EINTR, s1)" "sh_devs s1 = (sh_devs s)(d \<mapsto> v1)"
    "pd_next v1 = pd_next v" "pd_prev v1 = pd_prev v" "sh_port s1 = (sh_port s)\<lparr>pt_waithead := Some d, pt_waittail := Some d\<rparr>"
    by (rule interrupted_wait [OF assms(1,2,4,6) u v disjI1 [OF t]]) (simp add: t)
  have "pt_cad (sh_port s1) = Some c" "sh_devs s1 c = Some u" "sh_devs s1 d = Some v1" "pt_waittail (sh_port s1) = Some d"
    using 1(2,5) assms(4,6) u by auto
  from interrupted_wait [OF assms(1,2) this(1) assms(6) this(2,3) disjI2 [OF this(4)]] obtain s2 v2 where
    2: "sunix_parport_claim_or_block preempt sleep d s1 = Some (- EINTR, s2)" "sh_devs s2 = (sh_devs s)(d \<mapsto> v2)"
      "pd_next v2 = pd_next v" "pd_prev v2 = pd_prev v" "pd_waitprev v2 = Some d" "pd_waitnext v2 = Some d"
      "sh_port s2 = (sh_port s)\<lparr>pt_waithead := Some d, pt_waittail := Some d\<rparr>"
    using 1(2-5) by auto
  have "dnx s2 = dnx s" "dpv s2 = dpv s" using 2(2-4) v by (auto simp: link_defs fun_eq_iff)
  then have D2: "dll (dnx s2) (dpv s2) (pt_devices (sh_port s2)) (final ds) ds" "set ds = dom (sh_devs s2)"
    using D 2(2,7) assms(5) by auto
  have "pt_cad (sh_port s2) = Some c" "wnx s2 d = Some d" "wpv s2 d = Some d" using 2 assms(4) by (simp_all add: link_defs)
  from unregister_self_linked [OF D2 assms(5) this(1) assms(6) this(2,3)] obtain s3 where
    3: "sunix_parport_unregister_device preempt wakeup d s2 = Some s3" "sh_devs s3 d = None" "pt_waithead (sh_port s3) = Some d"
      "pt_cad (sh_port s3) = Some c" "sh_devs s3 c \<noteq> None"
    using 2(2,7) u assms(6) by auto
  obtain u3 where "sh_devs s3 c = Some u3" using 3(5) by blast
  then have "sunix_parport_release preempt wakeup c s3 = None"
    using 3(2-4) assms(6) by (auto simp: sunix_parport_release_def save_into_def upd_dev_def upd_port_def wake_waiters.simps split: prod.splits)
  then show ?thesis using 1(1) 2(1) 3(1-3) by blast
qed

declare wake_waiters.simps [code] wake_lurkers.simps [code]

definition signalled_owner :: share where
  "signalled_owner =
    \<lparr>sh_port = example_par\<lparr>pt_cad := Some 1, pt_devices := Some 2\<rparr>,
     sh_devs = [1 \<mapsto> (new_pardevice 50 250 False False False 0 example_par)\<lparr>pd_prev := Some 2\<rparr>,
                2 \<mapsto> (new_pardevice 50 250 False False False 0 example_par)\<lparr>pd_next := Some 1\<rparr>],
     sh_mach = idle_machine\<rparr>"

lemma signalled_owner_ok: "share_ok signalled_owner [] [2, 1]"
  by (auto simp: share_ok_def lists_ok_def wait_list_def dev_list_def dll_def link_defs dev_ok_def
      signalled_owner_def new_pardevice_def Cons_eq_append_conv example_par_def split: if_splits)

definition sleep_until_signal :: "'a sleep_fn" where
  "sleep_until_signal s = s\<lparr>sh_mach := (sh_mach s)\<lparr>m_signal := \<lambda>_. True\<rparr>\<rparr>"

theorem interrupted_wait_use_after_free_witness:
  "\<exists>s3. sh_devs s3 2 = None \<and> pt_waithead (sh_port s3) = Some 2 \<and> sunix_parport_release no_preempt no_wakeup 1 s3 = (None :: share option)"
proof -
  have "signal_ends (sleep_until_signal :: share \<Rightarrow> share)"
    by (simp add: signal_ends_def sleep_until_signal_def signal_pending_def Let_def)
  moreover have "pt_cad (sh_port signalled_owner) = Some 1" by (simp add: signalled_owner_def)
  ultimately show ?thesis
    using interrupted_wait_use_after_free [OF no_preempt_refusing _ signalled_owner_ok, of sleep_until_signal 1 2 no_wakeup] by auto
qed

end
