(* ===== verification/Snx_Ieee1284.thy ===== *)
theory Snx_Ieee1284
  imports Snx_Arbitration "HOL-Library.Signed_Division"
begin

text \<open>
  Waiting for the peripheral (driver/snx_ieee1284.c) and the transfers in software
  (driver/snx_ieee1284_ops.c): the compatibility mode write, which strobes one byte after the
  other and may give the port away in between, and the four EPP transfers. The functions run on
  the shared state of a port; following a NULL or dangling \<^verbatim>\<open>cad\<close> and a wait that never ends are
  \<open>None\<close>. The last part proves that the waits end and that the peripheral gets exactly the bytes
  that are counted.
\<close>

section \<open>Waiting for the peripheral\<close>

subsection \<open>Events\<close>

text \<open>
  The world around a task: the preempt and wakeup functions, what other tasks do while this one
  sleeps, and the kernel's clock rate with its conversion of milliseconds to ticks.
\<close>

record 'a sched =
  sc_preempt :: "'a preempt_fn"
  sc_wakeup :: "'a wakeup_fn"
  sc_sleep :: "'a sleep_fn"
  sc_HZ :: int
  sc_msecs :: "u64 \<Rightarrow> u64"

definition on_mach :: "(machine \<Rightarrow> 'b \<times> machine) \<Rightarrow> 'a share_scheme \<Rightarrow> 'b \<times> 'a share_scheme" where
  "on_mach f s = (case f (sh_mach s) of (x, m) \<Rightarrow> (x, s\<lparr>sh_mach := m\<rparr>))"

definition sunix_parport_ieee1284_wakeup :: "'a share_scheme \<Rightarrow> 'a share_scheme" where
  "sunix_parport_ieee1284_wakeup s = s\<lparr>sh_mach := emit UpIrq (sh_mach s)\<rparr>"

definition schedule_timeout_interruptible :: "'a sched \<Rightarrow> u64 \<Rightarrow> 'a share_scheme \<Rightarrow> 'a share_scheme" where
  "schedule_timeout_interruptible env n s = sc_sleep env (s\<lparr>sh_mach := emit (Sleep n) (sh_mach s)\<rparr>)"

text \<open>\<^verbatim>\<open>port->physport->cad->timeout\<close>\<close>

definition cad_timeout :: "'a share_scheme \<Rightarrow> int option" where
  "cad_timeout s = Option.bind (pt_cad (sh_port s)) (\<lambda>d. map_option pd_timeout (sh_devs s d))"

text \<open>
  Waiting for an interrupt or for a timer. How far the timer had got shows in what \<open>del_timer\<close>
  answers.
\<close>

definition sunix_parport_wait_event :: "'a sched \<Rightarrow> 'a share_scheme \<Rightarrow> (int \<times> 'a share_scheme) option" where
  "sunix_parport_wait_event env s =
    (case cad_timeout s of
       None \<Rightarrow> None
     | Some t \<Rightarrow>
        if t = 0 then Some (1, s)
        else
         (let (ret, s1) = on_mach down_irq (sc_sleep env s);
              (active, s2) = on_mach del_timer s1
          in Some (if \<not> active \<and> ret = 0 then 1 else ret, s2)))"

subsection \<open>Polling\<close>

fun poll_loop :: "nat \<Rightarrow> u8 \<Rightarrow> u8 \<Rightarrow> snx_parport \<Rightarrow> machine \<Rightarrow> int \<times> machine" where
  "poll_loop 0 msk result p m = (1, m)"
| "poll_loop (Suc n) msk result p m =
    (let (status, m1) = sunix_parport_pc_read_status p m in
     if status AND msk = result then (0, m1)
     else
      (let (sig, m2) = signal_pending m1 in
       if sig then (- EINTR, m2)
       else (let (resched, m3) = need_resched m2 in if resched then (1, m3) else poll_loop n msk result p m3)))"

definition polls :: "int \<Rightarrow> nat" where
  "polls usec = nat (usec sdiv 5 + 2)"

definition sunix_parport_poll_peripheral :: "u8 \<Rightarrow> u8 \<Rightarrow> int \<Rightarrow> 'a share_scheme \<Rightarrow> int \<times> 'a share_scheme" where
  "sunix_parport_poll_peripheral msk result usec s = on_mach (poll_loop (polls usec) msk result (sh_port s)) s"

text \<open>The slow half of \<^verbatim>\<open>sunix_parport_wait_peripheral\<close>: until the deadline.\<close>

partial_function (option) wait_loop ::
    "'a sched \<Rightarrow> u64 \<Rightarrow> u8 \<Rightarrow> u8 \<Rightarrow> 'a share_scheme \<Rightarrow> (int \<times> 'a share_scheme) option" where
  "wait_loop env deadline msk result s =
    (case on_mach jiffies s of (now, s1) \<Rightarrow>
      if \<not> time_before now deadline then Some (1, s1)
      else
       (case on_mach signal_pending s1 of (sig, s2) \<Rightarrow>
         if sig then Some (- EINTR, s2)
         else
          Option.bind (sunix_parport_wait_event env s2) (\<lambda>(ret, s3).
            if ret < 0 then Some (ret, s3)
            else
             (case on_mach (sunix_parport_pc_read_status (sh_port s3)) s3 of (status, s4) \<Rightarrow>
               if status AND msk = result then Some (0, s4)
               else
                wait_loop env deadline msk result
                  (if ret = 0 then schedule_timeout_interruptible env (sc_msecs env 10) s4 else s4)))))"

definition sunix_parport_wait_peripheral ::
    "'a sched \<Rightarrow> u8 \<Rightarrow> u8 \<Rightarrow> 'a share_scheme \<Rightarrow> (int \<times> 'a share_scheme) option" where
  "sunix_parport_wait_peripheral env msk result s =
    (case cad_timeout s of
       None \<Rightarrow> None
     | Some t \<Rightarrow>
       (let usec = (if t = 0 then 35000 else pt_spintime (sh_port s));
            (ret, s1) = sunix_parport_poll_peripheral msk result usec s
        in
         if ret \<noteq> 1 then Some (ret, s1)
         else if t = 0 then Some (1, s1)
         else
          (let (now, s2) = on_mach jiffies s1;
               deadline = now + word_of_int ((sc_HZ env + 24) div 25)
           in wait_loop env deadline msk result s2)))"

subsection \<open>The rest of driver/snx_ieee1284.c\<close>

definition sunix_parport_negotiate :: "int \<Rightarrow> int" where
  "sunix_parport_negotiate mode = (if mode = 256 then 0 else - 1)"

definition sunix_parport_read :: "int" where
  "sunix_parport_read = - ENODEV"

definition sunix_parport_set_timeout :: "nat \<Rightarrow> int \<Rightarrow> 'a share_scheme \<Rightarrow> (int \<times> 'a share_scheme) option" where
  "sunix_parport_set_timeout d inactivity s =
    do {
      v \<leftarrow> sh_devs s d;
      s1 \<leftarrow> upd_dev d (\<lambda>v. v\<lparr>pd_timeout := inactivity\<rparr>) s;
      Some (pd_timeout v, if pt_cad (sh_port s1) = Some d then sunix_parport_ieee1284_wakeup s1 else s1)
    }"

section \<open>Transfers\<close>

subsection \<open>The compatibility mode write\<close>

definition compat_ctl :: u8 where
  "compat_ctl = PARPORT_CONTROL_SELECT OR PARPORT_CONTROL_INIT"

text \<open>
  The wait for one byte: \<open>True\<close> is the jump to \<^verbatim>\<open>ready\<close>, \<open>False\<close> everything that ends the write. What
  \<^verbatim>\<open>sunix_parport_claim_or_block\<close> answers is ignored, as in the code.
\<close>

definition give_up :: "'a share_scheme \<Rightarrow> (bool \<times> 'a share_scheme) option" where
  "give_up s = Some (False, snd (on_mach signal_pending s))"

definition compat_pause :: "'a sched \<Rightarrow> nat \<Rightarrow> bool \<Rightarrow> u64 \<Rightarrow> 'a share_scheme \<Rightarrow> 'a share_scheme option" where
  "compat_pause env d lend wait s =
    (if lend then
       do {
         s1 \<leftarrow> sunix_parport_release (sc_preempt env) (sc_wakeup env) d s;
         (_, s2) \<leftarrow> sunix_parport_claim_or_block (sc_preempt env) (sc_sleep env) d
                     (schedule_timeout_interruptible env wait s1);
         Some s2
       }
     else map_option snd (sunix_parport_wait_event env s))"

partial_function (option) compat_wait ::
    "'a sched \<Rightarrow> nat \<Rightarrow> bool \<Rightarrow> u64 \<Rightarrow> u64 \<Rightarrow> 'a share_scheme \<Rightarrow> (bool \<times> 'a share_scheme) option" where
  "compat_wait env d lend expire wait s =
    Option.bind (sunix_parport_wait_peripheral env (PARPORT_STATUS_ERROR OR PARPORT_STATUS_BUSY)
        (PARPORT_STATUS_ERROR OR PARPORT_STATUS_BUSY) s) (\<lambda>(ret, s1).
      if ret = 0 then Some (True, s1)
      else
       (case on_mach (sunix_parport_pc_read_status (sh_port s1)) s1 of (status, s2) \<Rightarrow>
         if status AND (PARPORT_STATUS_PAPEROUT OR PARPORT_STATUS_SELECT OR PARPORT_STATUS_ERROR)
            \<noteq> PARPORT_STATUS_SELECT OR PARPORT_STATUS_ERROR then Some (False, s2)
         else
          (case on_mach jiffies s2 of (now, s3) \<Rightarrow>
            if \<not> time_before now expire then give_up s3
            else
              Option.bind (compat_pause env d lend wait s3) (\<lambda>s4.
                (case on_mach signal_pending s4 of (sig, s5) \<Rightarrow>
                  if sig then give_up s5
                  else
                   (case on_mach jiffies s5 of (now, s6) \<Rightarrow>
                     if time_before now expire then compat_wait env d lend expire (2 * wait) s6 else give_up s6))))))"

definition compat_strobe :: "u8 \<Rightarrow> 'a share_scheme \<Rightarrow> 'a share_scheme" where
  "compat_strobe b s =
    on_port (sunix_parport_pc_write_control compat_ctl)
      (on_port (sunix_parport_pc_write_control (compat_ctl OR PARPORT_CONTROL_STROBE))
        (on_port (\<lambda>(p, m). (p, sunix_parport_pc_write_data p b m)) s))"

definition compat_yield :: "'a sched \<Rightarrow> nat \<Rightarrow> u64 \<Rightarrow> 'a share_scheme \<Rightarrow> 'a share_scheme option" where
  "compat_yield env d expire s =
    (case on_mach jiffies s of (now, s1) \<Rightarrow>
      if \<not> time_before now expire then Some s1
      else
        do {
          (y, s2) \<leftarrow> sunix_parport_yield_blocking (sc_preempt env) (sc_wakeup env) (sc_sleep env) d s1;
          Some (if y \<noteq> 0 then s2
                else (case on_mach need_resched s2 of (resched, s3) \<Rightarrow>
                  if resched then sc_sleep env (s3\<lparr>sh_mach := emit Schedule (sh_mach s3)\<rparr>) else s3))
        })"

text \<open>
  The bytes one after the other; \<open>dev\<close> is \<^verbatim>\<open>cad\<close> as it was at the start, read once. The port is
  lent to others while waiting only once a byte is out and there is no interrupt.
\<close>

fun compat_bytes :: "'a sched \<Rightarrow> nat option \<Rightarrow> bool \<Rightarrow> u8 list \<Rightarrow> nat \<Rightarrow> 'a share_scheme \<Rightarrow> (nat \<times> 'a share_scheme) option" where
  "compat_bytes env dev no_irq [] count s = Some (count, s)"
| "compat_bytes env dev no_irq (b # bs) count s =
    do {
      d \<leftarrow> dev;
      v \<leftarrow> sh_devs s d;
      (let (now, s1) = on_mach jiffies s;
           expire = now + word_of_int (pd_timeout v)
       in do {
         (ready, s2) \<leftarrow> compat_wait env d (count \<noteq> 0 \<and> no_irq) expire (word_of_int ((sc_HZ env + 99) div 100)) s1;
         (if \<not> ready then Some (count, s2)
          else do { s3 \<leftarrow> compat_yield env d expire (compat_strobe b s2);
                    compat_bytes env dev no_irq bs (count + 1) s3 })
       })
    }"

definition sunix_parport_ieee1284_write_compat :: "'a sched \<Rightarrow> u8 list \<Rightarrow> 'a share_scheme \<Rightarrow> (nat \<times> 'a share_scheme) option" where
  "sunix_parport_ieee1284_write_compat env buf s =
    (let dev = pt_cad (sh_port s);
         no_irq = (pt_irq (sh_port s) = PARPORT_IRQ_NONE);
         s1 = (if no_irq then s else on_port sunix_parport_pc_enable_irq s);
         s2 = upd_port (\<lambda>p. p\<lparr>pt_phase := 0\<rparr>) s1;
         s3 = on_port sunix_parport_pc_data_forward (on_port (sunix_parport_pc_write_control compat_ctl) s2)
     in map_option (\<lambda>(n, s). (n, upd_port (\<lambda>p. p\<lparr>pt_phase := 1\<rparr>) s)) (compat_bytes env dev no_irq buf 0 s3))"

definition sunix_parport_write :: "'a sched \<Rightarrow> u8 list \<Rightarrow> 'a share_scheme \<Rightarrow> (nat \<times> 'a share_scheme) option" where
  "sunix_parport_write env buf s =
    (case pt_ops (sh_port s) of
       Pc_ops \<Rightarrow> sunix_parport_ieee1284_write_compat env buf s
     | Dead_ops \<Rightarrow> Some (0, s))"

subsection \<open>EPP transfers\<close>

definition ops_data_forward :: "'a share_scheme \<Rightarrow> 'a share_scheme" where
  "ops_data_forward = on_port (ops_call sunix_parport_pc_data_forward)"

definition ops_data_reverse :: "'a share_scheme \<Rightarrow> 'a share_scheme" where
  "ops_data_reverse = on_port (ops_call sunix_parport_pc_data_reverse)"

text \<open>
  The two write loops differ in the control line that strobes; the two read loops in that line and
  in what the line is set to afterwards.
\<close>

fun epp_write_loop :: "u8 \<Rightarrow> u8 list \<Rightarrow> nat \<Rightarrow> 'a share_scheme \<Rightarrow> nat \<times> 'a share_scheme" where
  "epp_write_loop line [] n s = (n, s)"
| "epp_write_loop line (b # bs) n s =
    (let s1 = on_port (\<lambda>(p, m). (p, sunix_parport_pc_write_data p b m)) s;
         s2 = on_port (sunix_parport_pc_frob_control line line) s1;
         (r, s3) = sunix_parport_poll_peripheral PARPORT_STATUS_BUSY 0 10 s2
     in
      if r \<noteq> 0 then (n, s3)
      else
       (let s4 = on_port (sunix_parport_pc_frob_control line 0) s3;
            (r, s5) = sunix_parport_poll_peripheral PARPORT_STATUS_BUSY PARPORT_STATUS_BUSY 5 s4
        in if r \<noteq> 0 then (n, s5) else epp_write_loop line bs (n + 1) s5))"

definition epp_write :: "u8 \<Rightarrow> u8 list \<Rightarrow> 'a share_scheme \<Rightarrow> nat \<times> 'a share_scheme" where
  "epp_write line buf s =
    (let s1 = on_port (sunix_parport_pc_frob_control
                (PARPORT_CONTROL_STROBE OR PARPORT_CONTROL_AUTOFD OR PARPORT_CONTROL_SELECT OR PARPORT_CONTROL_INIT)
                (PARPORT_CONTROL_STROBE OR PARPORT_CONTROL_INIT)) s;
         (n, s2) = epp_write_loop line buf 0 (ops_data_forward s1)
     in (n, on_port (sunix_parport_pc_frob_control PARPORT_CONTROL_STROBE 0) s2))"

definition sunix_parport_ieee1284_epp_write_data :: "u8 list \<Rightarrow> 'a share_scheme \<Rightarrow> nat \<times> 'a share_scheme" where
  "sunix_parport_ieee1284_epp_write_data = epp_write PARPORT_CONTROL_AUTOFD"

definition sunix_parport_ieee1284_epp_write_addr :: "u8 list \<Rightarrow> 'a share_scheme \<Rightarrow> nat \<times> 'a share_scheme" where
  "sunix_parport_ieee1284_epp_write_addr = epp_write PARPORT_CONTROL_SELECT"

text \<open>The result counts the bytes of completed cycles; a byte of a cycle that fails late is in the buffer too.\<close>

fun epp_read_loop :: "'a sched \<Rightarrow> u8 \<Rightarrow> u8 \<Rightarrow> nat \<Rightarrow> u8 list \<Rightarrow> nat \<Rightarrow> 'a share_scheme \<Rightarrow> (u8 list \<times> nat \<times> 'a share_scheme) option" where
  "epp_read_loop env line after 0 got n s = Some (got, n, s)"
| "epp_read_loop env line after (Suc len) got n s =
    do {
      (r, s2) \<leftarrow> sunix_parport_wait_peripheral env PARPORT_STATUS_BUSY 0 (on_port (sunix_parport_pc_frob_control line line) s);
      (if r \<noteq> 0 then Some (got, n, s2)
       else
        (let (b, s3) = on_mach (sunix_parport_pc_read_data (sh_port s2)) s2;
             s4 = on_port (sunix_parport_pc_frob_control line after) s3;
             (r, s5) = sunix_parport_poll_peripheral PARPORT_STATUS_BUSY PARPORT_STATUS_BUSY 5 s4
         in if r \<noteq> 0 then Some (got @ [b], n, s5) else epp_read_loop env line after len (got @ [b]) (n + 1) s5))
    }"

definition epp_read :: "'a sched \<Rightarrow> u8 \<Rightarrow> u8 \<Rightarrow> nat \<Rightarrow> 'a share_scheme \<Rightarrow> (u8 list \<times> nat \<times> 'a share_scheme) option" where
  "epp_read env line after len s =
    (let s1 = on_port (sunix_parport_pc_frob_control
                (PARPORT_CONTROL_STROBE OR PARPORT_CONTROL_AUTOFD OR PARPORT_CONTROL_SELECT OR PARPORT_CONTROL_INIT)
                PARPORT_CONTROL_INIT) s
     in map_option (\<lambda>(got, n, s). (got, n, ops_data_forward s))
          (epp_read_loop env line after len [] 0 (ops_data_reverse s1)))"

definition sunix_parport_ieee1284_epp_read_data :: "'a sched \<Rightarrow> nat \<Rightarrow> 'a share_scheme \<Rightarrow> (u8 list \<times> nat \<times> 'a share_scheme) option" where
  "sunix_parport_ieee1284_epp_read_data env = epp_read env PARPORT_CONTROL_AUTOFD 0"

definition sunix_parport_ieee1284_epp_read_addr :: "'a sched \<Rightarrow> nat \<Rightarrow> 'a share_scheme \<Rightarrow> (u8 list \<times> nat \<times> 'a share_scheme) option" where
  "sunix_parport_ieee1284_epp_read_addr env = epp_read env PARPORT_CONTROL_SELECT PARPORT_CONTROL_SELECT"

section \<open>The waits end\<close>

lemma on_mach_Some: "on_mach f s = (x, s1) \<longleftrightarrow> (\<exists>m. f (sh_mach s) = (x, m) \<and> s1 = s\<lparr>sh_mach := m\<rparr>)"
  by (auto simp: on_mach_def split: prod.splits)

text \<open>
  \<open>idle k n\<close>: a stretch that leaves port and devices alone, writes no register, looks at the clock at
  most \<open>k\<close> times and at the status at most \<open>n\<close> times.
\<close>

definition idle :: "nat \<Rightarrow> nat \<Rightarrow> 'a share_scheme \<Rightarrow> 'a share_scheme \<Rightarrow> bool" where
  "idle k n s s' \<longleftrightarrow> sh_port s' = sh_port s \<and> sh_devs s' = sh_devs s
     \<and> (\<exists>us. ran (sh_mach s) us (sh_mach s') \<and> (\<forall>a. outs_at a us = []) \<and> looks us \<le> k
          \<and> length (ins_at (SNX_DSR (sh_port s)) us) \<le> n)"

lemma idle_refl [simp]: "idle k n s s"
  by (auto simp: idle_def intro: exI [of _ "[]"])

lemma idle_trans:
  assumes "idle k n s s1" and "idle k' n' s1 s2"
  shows "idle (k + k') (n + n') s s2"
proof -
  obtain us where us: "ran (sh_mach s) us (sh_mach s1)" "\<forall>a. outs_at a us = []" "looks us \<le> k"
    "length (ins_at (SNX_DSR (sh_port s)) us) \<le> n" using assms(1) unfolding idle_def by blast
  obtain vs where vs: "ran (sh_mach s1) vs (sh_mach s2)" "\<forall>a. outs_at a vs = []" "looks vs \<le> k'"
    "length (ins_at (SNX_DSR (sh_port s1)) vs) \<le> n'" using assms(2) unfolding idle_def by blast
  have "ran (sh_mach s) (us @ vs) (sh_mach s2)" using us(1) vs(1) by (rule ran_trans)
  then show ?thesis using assms us vs unfolding idle_def by (intro conjI exI [of _ "us @ vs"]) auto
qed

lemma idle_mono: "idle k n s s' \<Longrightarrow> k \<le> k' \<Longrightarrow> n \<le> n' \<Longrightarrow> idle k' n' s s'"
  unfolding idle_def by (meson le_trans)

lemma idle_mach:
  assumes "ran (sh_mach s) us m" and "\<And>a. outs_at a us = []" and "looks us \<le> k" and "length (ins_at (SNX_DSR (sh_port s)) us) \<le> n"
  shows "idle k n s (s\<lparr>sh_mach := m\<rparr>)"
  using assms by (auto simp: idle_def)

lemma on_mach_idle:
  assumes "on_mach f s = (x, s1)" and "\<And>m m1. f m = (x, m1) \<Longrightarrow> ran m us m1"
    and "\<And>a. outs_at a us = []" and "looks us \<le> k" and "length (ins_at (SNX_DSR (sh_port s)) us) \<le> n"
  shows "idle k n s s1"
  using assms idle_mach [of s us _ k n] by (auto simp: on_mach_Some)

lemma idle_events:
  "on_mach signal_pending s = (b, s1) \<Longrightarrow> idle 0 0 s s1"
  "on_mach need_resched s = (b, s1) \<Longrightarrow> idle 0 0 s s1"
  "on_mach down_irq s = (r, s1) \<Longrightarrow> idle 0 0 s s1"
  "on_mach del_timer s = (b, s1) \<Longrightarrow> idle 0 0 s s1"
  "on_mach jiffies s = (now, s1) \<Longrightarrow> idle 1 0 s s1"
  "on_mach (sunix_parport_pc_read_status (sh_port s)) s = (v, s1) \<Longrightarrow> idle 0 1 s s1"
proof -
  show "on_mach signal_pending s = (b, s1) \<Longrightarrow> idle 0 0 s s1" by (erule on_mach_idle, erule ran_kernel) simp_all
  show "on_mach need_resched s = (b, s1) \<Longrightarrow> idle 0 0 s s1" by (erule on_mach_idle, erule ran_kernel) simp_all
  show "on_mach down_irq s = (r, s1) \<Longrightarrow> idle 0 0 s s1" by (erule on_mach_idle, erule ran_kernel) simp_all
  show "on_mach del_timer s = (b, s1) \<Longrightarrow> idle 0 0 s s1" by (erule on_mach_idle, erule ran_kernel) simp_all
  show "on_mach jiffies s = (now, s1) \<Longrightarrow> idle 1 0 s s1" by (erule on_mach_idle, erule ran_kernel) simp_all
  show "on_mach (sunix_parport_pc_read_status (sh_port s)) s = (v, s1) \<Longrightarrow> idle 0 1 s s1"
    unfolding sunix_parport_pc_read_status_def by (erule on_mach_idle, erule ran_kernel) simp_all
qed

lemma idle_00_trans: "idle 0 0 s s1 \<Longrightarrow> idle k n s1 s2 \<Longrightarrow> idle k n s s2" "idle k n s s1 \<Longrightarrow> idle 0 0 s1 s2 \<Longrightarrow> idle k n s s2"
  using idle_trans [of 0 0 s s1 k n s2] idle_trans [of k n s s1 0 0 s2] by simp_all

lemma idle_cad: "idle k n s s' \<Longrightarrow> cad_timeout s' = cad_timeout s"
  by (simp add: idle_def cad_timeout_def)

lemma idle_jiffies: "idle k n s s' \<Longrightarrow> m_jiffies (sh_mach s') = m_jiffies (sh_mach s)"
  by (auto simp: idle_def ran_def)

text \<open>Other tasks that, while this one sleeps, leave the port, its devices and its registers alone.\<close>

definition bystander :: "'a sleep_fn \<Rightarrow> bool" where
  "bystander sleep \<longleftrightarrow> (\<forall>s. idle 0 0 s (sleep s))"

lemma idle_sleep:
  assumes "bystander (sc_sleep env)"
  shows "idle 0 0 s (schedule_timeout_interruptible env n s)"
proof -
  have "idle 0 0 s (s\<lparr>sh_mach := emit (Sleep n) (sh_mach s)\<rparr>)" by (rule idle_mach [OF ran_kernel(1)]) simp_all
  moreover have "idle 0 0 (s\<lparr>sh_mach := emit (Sleep n) (sh_mach s)\<rparr>) (schedule_timeout_interruptible env n s)"
    using assms by (simp add: bystander_def schedule_timeout_interruptible_def)
  ultimately show ?thesis by (rule idle_00_trans)
qed

lemma wait_event_idle:
  assumes "bystander (sc_sleep env)" and "cad_timeout s = Some t"
  shows "\<exists>r s'. sunix_parport_wait_event env s = Some (r, s') \<and> idle 0 0 s s'"
proof (cases "t = 0")
  case False
  obtain r s1 where 1: "on_mach down_irq (sc_sleep env s) = (r, s1)" by fastforce
  obtain b s2 where 2: "on_mach del_timer s1 = (b, s2)" by fastforce
  have "idle 0 0 s (sc_sleep env s)" using assms(1) by (simp add: bystander_def)
  then have "idle 0 0 s s2" using idle_events(3) [OF 1] idle_events(4) [OF 2] by (blast intro: idle_00_trans)
  then show ?thesis using assms(2) False 1 2 by (simp add: sunix_parport_wait_event_def)
qed (use assms in \<open>simp add: sunix_parport_wait_event_def\<close>)

lemma poll_loop_idle:
  "poll_loop n msk result p m = (r, m') \<Longrightarrow>
     \<exists>us. ran m us m' \<and> (\<forall>a. outs_at a us = []) \<and> looks us = 0 \<and> length (ins_at (SNX_DSR p) us) \<le> n
       \<and> (r = 0 \<or> r = 1 \<or> r = - EINTR) \<and> (r = 0 \<longrightarrow> (\<exists>vs v. us = vs @ [In (SNX_DSR p) v] \<and> v AND msk = result))"
proof (induction n arbitrary: m)
  case 0
  then show ?case by (auto intro: exI [of _ "[]"])
next
  case (Suc n)
  obtain v m1 where 1: "inb (SNX_DSR p) m = (v, m1)" by fastforce
  obtain sig m2 where 2: "signal_pending m1 = (sig, m2)" by fastforce
  obtain rs m3 where 3: "need_resched m2 = (rs, m3)" by fastforce
  note R = ran_kernel(3) [OF 1] ran_kernel(4) [OF 2] ran_kernel(5) [OF 3]
  note R2 = ran_trans [OF R(1,2)] note R3 = ran_trans [OF R2 R(3)]
  consider "v AND msk = result" | "v AND msk \<noteq> result" "sig" | "v AND msk \<noteq> result" "\<not> sig" "rs"
    | "v AND msk \<noteq> result" "\<not> sig" "\<not> rs" by blast
  then show ?case
  proof cases
    case 4
    then have "poll_loop n msk result p m3 = (r, m')" using Suc.prems 1 2 3 by (simp add: sunix_parport_pc_read_status_def)
    from Suc.IH [OF this] obtain us where us: "ran m3 us m'" "\<forall>a. outs_at a us = []" "looks us = 0"
      "length (ins_at (SNX_DSR p) us) \<le> n" "r = 0 \<or> r = 1 \<or> r = - EINTR"
      "r = 0 \<longrightarrow> (\<exists>vs v. us = vs @ [In (SNX_DSR p) v] \<and> v AND msk = result)" by blast
    have "ran m (([In (SNX_DSR p) v] @ [SignalPending sig]) @ [NeedResched rs]) m3" by (rule R3)
    from ran_trans [OF this us(1)]
    have "ran m ([In (SNX_DSR p) v, SignalPending sig, NeedResched rs] @ us) m'" by simp
    moreover have "r = 0 \<longrightarrow> (\<exists>vs x. [In (SNX_DSR p) v, SignalPending sig, NeedResched rs] @ us = vs @ [In (SNX_DSR p) x] \<and> x AND msk = result)"
      using us(6) by (metis append.assoc)
    ultimately show ?thesis using us(2-5)
      by (intro exI [of _ "[In (SNX_DSR p) v, SignalPending sig, NeedResched rs] @ us"]) simp
  qed (use Suc.prems 1 2 3 R R2 R3 in \<open>auto simp: sunix_parport_pc_read_status_def intro!: exI\<close>)
qed

lemma read_status_last:
  "on_mach (sunix_parport_pc_read_status p) s = (v, s1) \<Longrightarrow> trace (sh_mach s1) = trace (sh_mach s) @ [In (SNX_DSR p) v]"
  by (auto simp: on_mach_Some sunix_parport_pc_read_status_def dest!: ran_kernel(3) simp: ran_oracles)

lemma looks_jiffies:
  assumes "on_mach jiffies s = (now, s1)"
  shows "now = m_jiffies (sh_mach s) (trace (sh_mach s))" "trace (sh_mach s1) = trace (sh_mach s) @ [Jiffies now]"
  using assms by (auto simp: on_mach_Some jiffies_def Let_def)

lemma idle_trace:
  assumes "idle k n s s'"
  obtains us where "trace (sh_mach s') = trace (sh_mach s) @ us" "looks us \<le> k"
  using assms ran_oracles(1) unfolding idle_def by metis

lemma wait_loop_ends:
  assumes bst: "bystander (sc_sleep env)" and t: "cad_timeout s = Some t"
    and late: "\<And>us. looks us = N \<Longrightarrow> \<not> time_before (m_jiffies (sh_mach s) (ts @ us)) deadline"
    and tr: "trace (sh_mach s) = ts @ us" "looks us + k = N"
  shows "\<exists>r s'. wait_loop env deadline msk result s = Some (r, s') \<and> idle (k + 1) k s s' \<and> (r = 0 \<or> r = 1 \<or> r < 0)
    \<and> (r = 0 \<longrightarrow> (\<exists>vs v. trace (sh_mach s') = vs @ [In (SNX_DSR (sh_port s)) v] \<and> v AND msk = result))"
  using t late tr
proof (induction k arbitrary: s us)
  case 0
  obtain now s1 where 1: "on_mach jiffies s = (now, s1)" by fastforce
  have "\<not> time_before now deadline" using looks_jiffies(1) [OF 1] 0 by simp
  then have "wait_loop env deadline msk result s = Some (1, s1)" by (subst wait_loop.simps) (simp add: 1)
  then show ?case using idle_events(5) [OF 1] by simp
next
  case (Suc k)
  obtain now s1 where 1: "on_mach jiffies s = (now, s1)" by fastforce
  obtain sig s2 where 2: "on_mach signal_pending s1 = (sig, s2)" by fastforce
  have i2: "idle 1 0 s s2" using idle_events(5) [OF 1] idle_events(1) [OF 2] by (rule idle_00_trans)
  have i1: "idle 1 0 s s1" by (rule idle_events(5) [OF 1])
  have c2: "idle 0 0 s1 s2" by (rule idle_events(1) [OF 2])
  obtain r s3 where 3: "sunix_parport_wait_event env s2 = Some (r, s3)" "idle 0 0 s2 s3"
    using wait_event_idle [OF bst, of s2 t] idle_cad [OF i2] Suc.prems(1) by auto
  have c3: "idle 0 0 s1 s3" using c2 3(2) by (rule idle_00_trans)
  obtain v s4 where 4: "on_mach (sunix_parport_pc_read_status (sh_port s3)) s3 = (v, s4)" by fastforce
  have c4: "idle 0 1 s1 s4" using c3 idle_events(6) [OF 4] by (rule idle_00_trans)
  define s5 where "s5 = (if r = 0 then schedule_timeout_interruptible env (sc_msecs env 10) s4 else s4)"
  have "idle 0 0 s4 s5" using idle_sleep [OF bst] by (simp add: s5_def)
  with c4 have c5: "idle 0 1 s1 s5" by (rule idle_00_trans)
  have i3: "idle 1 0 s s3" and i4: "idle 1 1 s s4" and i5: "idle 1 1 s s5"
    using idle_trans [OF i1 c3] idle_trans [OF i1 c4] idle_trans [OF i1 c5] by simp_all
  have port: "sh_port s3 = sh_port s" "sh_port s5 = sh_port s" using i3 i5 by (simp_all add: idle_def)
  have unf: "wait_loop env deadline msk result s =
    (if \<not> time_before now deadline then Some (1, s1) else if sig then Some (- EINTR, s2) else if r < 0 then Some (r, s3)
     else if v AND msk = result then Some (0, s4) else wait_loop env deadline msk result s5)"
    by (subst wait_loop.simps) (simp add: 1 2 3 4 s5_def)
  have w: "\<exists>r s'. Some (r0, x) = Some (r, s') \<and> idle (Suc k + 1) (Suc k) s s' \<and> (r = 0 \<or> r = 1 \<or> r < 0)
      \<and> (r = 0 \<longrightarrow> (\<exists>vs v. trace (sh_mach s') = vs @ [In (SNX_DSR (sh_port s)) v] \<and> v AND msk = result))"
    if "idle 1 1 s x" "r0 \<noteq> 0" "r0 = 1 \<or> r0 < 0" for x and r0 :: int
    using that idle_mono [OF that(1)] by simp
  consider "\<not> time_before now deadline" | "time_before now deadline" sig
    | "time_before now deadline" "\<not> sig" "r < 0" | "time_before now deadline" "\<not> sig" "\<not> r < 0" "v AND msk = result"
    | "time_before now deadline" "\<not> sig" "\<not> r < 0" "v AND msk \<noteq> result" by blast
  then show ?case
  proof cases
    case 4
    then show ?thesis using idle_mono [OF i4] read_status_last [OF \<open>on_mach _ s3 = _\<close>] port by (auto simp: unf)
  next
    case 5
    obtain vs where vs: "trace (sh_mach s5) = trace (sh_mach s1) @ vs" "looks vs \<le> 0" by (rule idle_trace [OF c5])
    have "trace (sh_mach s5) = ts @ (us @ [Jiffies now] @ vs)" "looks (us @ [Jiffies now] @ vs) + k = N"
      using vs looks_jiffies(2) [OF 1] Suc.prems(3,4) by simp_all
    with Suc.IH [of s5 "us @ [Jiffies now] @ vs"] obtain r' s' where r: "wait_loop env deadline msk result s5 = Some (r', s')"
      "idle (k + 1) k s5 s'" "r' = 0 \<or> r' = 1 \<or> r' < 0"
      "r' = 0 \<longrightarrow> (\<exists>vs v. trace (sh_mach s') = vs @ [In (SNX_DSR (sh_port s5)) v] \<and> v AND msk = result)"
      using idle_cad [OF i5] idle_jiffies [OF i5] Suc.prems(1,2) by auto
    have "idle (Suc k + 1) (Suc k) s s'" using idle_trans [OF i5 r(2)] by simp
    then show ?thesis using 5 r port by (auto simp: unf)
  qed (use unf w idle_mono [OF i1] idle_mono [OF i2] idle_mono [OF i3] in simp_all)
qed

definition wait_ticks :: "'a sched \<Rightarrow> u64" where
  "wait_ticks env = word_of_int ((sc_HZ env + 24) div 25)"

lemma clock_idle: "idle k n s s' \<Longrightarrow> clock_ok T N (sh_mach s') = clock_ok T N (sh_mach s)"
  by (simp add: clock_ok_def idle_jiffies)

lemma wait_peripheral_ends:
  assumes bst: "bystander (sc_sleep env)" and t: "cad_timeout s = Some t" and clock: "clock_ok (wait_ticks env) N (sh_mach s)"
  shows "\<exists>r s'. sunix_parport_wait_peripheral env msk result s = Some (r, s')
    \<and> idle (N + 1) (polls (if t = 0 then 35000 else pt_spintime (sh_port s)) + N) s s' \<and> (r = 0 \<or> r = 1 \<or> r < 0)
    \<and> (r = 0 \<longrightarrow> (\<exists>vs v. trace (sh_mach s') = vs @ [In (SNX_DSR (sh_port s)) v] \<and> v AND msk = result))"
proof -
  let ?usec = "if t = 0 then 35000 else pt_spintime (sh_port s)" and ?n = "polls (if t = 0 then 35000 else pt_spintime (sh_port s))"
  obtain r m1 where p: "poll_loop ?n msk result (sh_port s) (sh_mach s) = (r, m1)" by fastforce
  define s1 where "s1 = s\<lparr>sh_mach := m1\<rparr>"
  have p1: "sunix_parport_poll_peripheral msk result ?usec s = (r, s1)"
    using p by (simp add: sunix_parport_poll_peripheral_def on_mach_def s1_def)
  obtain us where us: "ran (sh_mach s) us m1" "\<forall>a. outs_at a us = []" "looks us = 0" "length (ins_at (SNX_DSR (sh_port s)) us) \<le> ?n"
    "r = 0 \<or> r = 1 \<or> r = - EINTR" "r = 0 \<longrightarrow> (\<exists>vs v. us = vs @ [In (SNX_DSR (sh_port s)) v] \<and> v AND msk = result)"
    using poll_loop_idle [OF p] by blast
  have i1: "idle 0 ?n s s1" using us by (auto simp: s1_def intro: idle_mach)
  obtain now s2 where 2: "on_mach jiffies s1 = (now, s2)" by fastforce
  have i2: "idle 1 ?n s s2" using idle_trans [OF i1 idle_events(5) [OF 2]] by simp
  have eq: "sunix_parport_wait_peripheral env msk result s =
    (if r \<noteq> 1 then Some (r, s1) else if t = 0 then Some (1, s1)
     else wait_loop env (now + wait_ticks env) msk result s2)"
    using t p1 2 by (simp add: sunix_parport_wait_peripheral_def wait_ticks_def)
  show ?thesis
  proof (cases "r \<noteq> 1 \<or> t = 0")
    case True
    have l: "r = 0 \<longrightarrow> (\<exists>vs v. trace (sh_mach s1) = vs @ [In (SNX_DSR (sh_port s)) v] \<and> v AND msk = result)"
      using us(6) ran_oracles(1) [OF us(1)] by (auto simp: s1_def)
    have "idle (N + 1) (?n + N) s s1" by (rule idle_mono [OF i1]) simp_all
    then show ?thesis using True us(5) l eq by (cases "r = 1") auto
  next
    case False
    have late: "\<not> time_before (m_jiffies (sh_mach s2) (trace (sh_mach s1) @ vs)) (now + wait_ticks env)" if "looks vs = N" for vs
      using clock that looks_jiffies(1) [OF 2] idle_jiffies [OF i1] idle_jiffies [OF i2] by (simp add: clock_ok_def)
    have N: "1 \<le> N" using clock by (simp add: clock_ok_def)
    have "trace (sh_mach s2) = trace (sh_mach s1) @ [Jiffies now]" "looks [Jiffies now] + (N - 1) = N" "cad_timeout s2 = Some t"
      using N looks_jiffies(2) [OF 2] idle_cad [OF i2] t by simp_all
    note E = wait_loop_ends [OF bst this(3) late this(1,2), where msk = msk and result = result]
    obtain r' s' where r: "wait_loop env (now + wait_ticks env) msk result s2 = Some (r', s')"
      "idle (N - 1 + 1) (N - 1) s2 s'" "r' = 0 \<or> r' = 1 \<or> r' < 0"
      "r' = 0 \<longrightarrow> (\<exists>vs v. trace (sh_mach s') = vs @ [In (SNX_DSR (sh_port s2)) v] \<and> v AND msk = result)"
      using E by blast
    have "idle (N + 1) (?n + N) s s'" by (rule idle_mono [OF idle_trans [OF i2 r(2)]]) (use N in simp_all)
    moreover have "sh_port s2 = sh_port s" using i2 by (simp add: idle_def)
    ultimately show ?thesis using False r eq by auto
  qed
qed

text \<open>
  C36. Waiting for the peripheral ends whenever the clock advances, within \<open>N + 1\<close> looks at it and a
  bounded number of looks at the status, without touching a register, the port or its devices;
  the answer 0 is given exactly when the last status read had the bits waited for.
\<close>

theorem wait_peripheral_returns:
  assumes "bystander (sc_sleep env)" and "cad_timeout s = Some t" and "clock_ok (wait_ticks env) N (sh_mach s)"
  shows "\<exists>r s'. sunix_parport_wait_peripheral env msk result s = Some (r, s')
    \<and> idle (N + 1) (polls (if t = 0 then 35000 else pt_spintime (sh_port s)) + N) s s' \<and> (r = 0 \<or> r = 1 \<or> r < 0)
    \<and> (r = 0 \<longrightarrow> (\<exists>vs v. trace (sh_mach s') = vs @ [In (SNX_DSR (sh_port s)) v] \<and> v AND msk = result))"
  by (rule wait_peripheral_ends [OF assms])

text \<open>A kernel at 100 ticks per second whose clock advances by one tick per look.\<close>

definition plain_sched :: "'a sched" where
  "plain_sched = \<lparr>sc_preempt = no_preempt, sc_wakeup = no_wakeup, sc_sleep = \<lambda>s. s, sc_HZ = 100, sc_msecs = \<lambda>n. n\<rparr>"

definition lone_device :: snx_pardevice where
  "lone_device = \<lparr>pd_preempt = False, pd_wakeup = False, pd_irq_func = False, pd_flags = 0, pd_next = None, pd_prev = None,
     pd_state = \<lparr>st_ctr = 0xc, st_ecr = 0\<rparr>, pd_time = 0, pd_timeslice = 20, pd_timeout = 5, pd_waiting = 0,
     pd_waitprev = None, pd_waitnext = None\<rparr>"

definition lone_owner :: share where
  "lone_owner = \<lparr>sh_port = example_par\<lparr>pt_devices := Some 1, pt_cad := Some 1\<rparr>, sh_devs = [1 \<mapsto> lone_device], sh_mach = counting_machine\<rparr>"

lemma plain_bystander: "bystander (sc_sleep plain_sched)"
  by (simp add: bystander_def plain_sched_def)

theorem wait_peripheral_returns_witness:
  "\<exists>r s'. sunix_parport_wait_peripheral plain_sched 0x88 0x88 lone_owner = Some (r, s') \<and> idle 5 106 lone_owner s'"
proof -
  have "cad_timeout lone_owner = Some 5" by (simp add: cad_timeout_def lone_owner_def lone_device_def)
  moreover have "clock_ok (wait_ticks (plain_sched :: unit sched)) 4 (sh_mach lone_owner)"
    using counting_clock [of 4 4] by (simp add: lone_owner_def wait_ticks_def plain_sched_def)
  moreover have "polls (pt_spintime (sh_port lone_owner)) = 102"
    by (simp add: polls_def lone_owner_def example_par_def signed_divide_int_def)
  ultimately show ?thesis using wait_peripheral_returns [OF plain_bystander, of lone_owner 5 4] by fastforce
qed

section \<open>What the peripheral receives\<close>

text \<open>
  The peripheral takes the byte on the data lines when the strobe bit of the control register
  rises: \<open>latch\<close> follows the data, the strobe and the bytes received.
\<close>

fun latch :: "snx_parport \<Rightarrow> event \<Rightarrow> u8 \<times> bool \<times> u8 list \<Rightarrow> u8 \<times> bool \<times> u8 list" where
  "latch p (Out a v) (x, strobe, got) =
    (if a = SNX_DATA p then (v, strobe, got)
     else if a = SNX_DCR p then (x, v AND 1 \<noteq> 0, if v AND 1 \<noteq> 0 \<and> \<not> strobe then got @ [x] else got)
     else (x, strobe, got))"
| "latch p _ st = st"

definition delivers :: "snx_parport \<Rightarrow> event list \<Rightarrow> u8 list \<Rightarrow> bool" where
  "delivers p us bs \<longleftrightarrow> (\<forall>x got. \<exists>y. fold (latch p) us (x, False, got) = (y, False, got @ bs))"

definition noise :: "snx_parport \<Rightarrow> event list \<Rightarrow> bool" where
  "noise p us \<longleftrightarrow> outs_at (SNX_DATA p) us = [] \<and> (\<forall>v\<in>set (outs_at (SNX_DCR p) us). v AND 1 = 0)"

lemma noise_simps [simp]:
  "noise p []" "noise p (us @ vs) \<longleftrightarrow> noise p us \<and> noise p vs"
  "noise p (Out a v # us) \<longleftrightarrow> a \<noteq> SNX_DATA p \<and> (a = SNX_DCR p \<longrightarrow> v AND 1 = 0) \<and> noise p us"
  by (auto simp: noise_def)

lemma noise_other [simp]: "(\<And>a v. e \<noteq> Out a v) \<Longrightarrow> noise p (e # us) = noise p us"
  by (simp add: noise_def)

lemma noise_idle: "(\<And>a. outs_at a us = []) \<Longrightarrow> noise p us"
  by (simp add: noise_def)

lemma noise_delivers: "noise p us \<Longrightarrow> delivers p us []"
proof (induction us)
  case Nil
  then show ?case by (simp add: delivers_def)
next
  case (Cons e us)
  show ?case
  proof (cases "\<exists>a v. e = Out a v")
    case True
    then obtain a v where e: "e = Out a v" by blast
    have "latch p e (x, False, got) = (x, False, got)" for x got using Cons.prems by (simp add: e)
    then show ?thesis using Cons e by (simp add: delivers_def)
  next
    case False
    then have "latch p e st = st" for st by (cases e) auto
    then show ?thesis using Cons False by (auto simp: delivers_def)
  qed
qed

lemma delivers_append:
  assumes "delivers p us as" and "delivers p vs bs"
  shows "delivers p (us @ vs) (as @ bs)"
  unfolding delivers_def
proof (intro allI)
  fix x got
  obtain y where y: "fold (latch p) us (x, False, got) = (y, False, got @ as)" using assms(1) by (auto simp: delivers_def)
  obtain z where "fold (latch p) vs (y, False, got @ as) = (z, False, (got @ as) @ bs)"
    using assms(2) unfolding delivers_def by blast
  then show "\<exists>z. fold (latch p) (us @ vs) (x, False, got) = (z, False, got @ as @ bs)" using y by auto
qed

subsection \<open>Owning the port without company\<close>

definition port_frame :: "snx_parport \<Rightarrow> snx_parport \<Rightarrow> bool" where
  "port_frame p q \<longleftrightarrow> pt_base q = pt_base p \<and> pt_base_hi q = pt_base_hi p \<and> pt_ops q = pt_ops p
     \<and> pp_ecr (pt_priv q) = pp_ecr (pt_priv p) \<and> pp_ctr_writable (pt_priv q) = pp_ctr_writable (pt_priv p)
     \<and> pt_spintime q = pt_spintime p"

definition strobe_low :: "snx_parport \<Rightarrow> bool" where
  "strobe_low p \<longleftrightarrow> pp_ctr (pt_priv p) AND 1 = 0 \<and> pp_ctr_writable (pt_priv p) AND 1 = 1
     \<and> (pp_ecr (pt_priv p) \<noteq> 0 \<longrightarrow> SNX_ECR p \<noteq> SNX_DATA p \<and> SNX_ECR p \<noteq> SNX_DCR p)"

definition owns :: "nat \<Rightarrow> nat list \<Rightarrow> 'a share_scheme \<Rightarrow> bool" where
  "owns d ds s \<longleftrightarrow> share_ok s [] ds \<and> pt_cad (sh_port s) = Some d \<and> strobe_low (sh_port s)"

definition same_patience :: "nat \<Rightarrow> 'a share_scheme \<Rightarrow> 'a share_scheme \<Rightarrow> bool" where
  "same_patience d s s' \<longleftrightarrow> map_option pd_timeout (sh_devs s' d) = map_option pd_timeout (sh_devs s d)"

definition calm :: "nat \<Rightarrow> nat list \<Rightarrow> nat \<Rightarrow> 'a share_scheme \<Rightarrow> 'a share_scheme \<Rightarrow> bool" where
  "calm d ds k s s' \<longleftrightarrow> owns d ds s' \<and> port_frame (sh_port s) (sh_port s') \<and> same_patience d s s'
     \<and> (\<exists>us. ran (sh_mach s) us (sh_mach s') \<and> noise (sh_port s) us \<and> looks us \<le> k)"

lemma port_frame_regs:
  assumes "port_frame p q"
  shows "SNX_DATA q = SNX_DATA p" "SNX_DCR q = SNX_DCR p" "SNX_DSR q = SNX_DSR p" "SNX_ECR q = SNX_ECR p"
    "noise q us = noise p us" "latch q = latch p" "delivers q us bs = delivers p us bs"
proof -
  show r: "SNX_DATA q = SNX_DATA p" "SNX_DCR q = SNX_DCR p" "SNX_DSR q = SNX_DSR p" "SNX_ECR q = SNX_ECR p"
    using assms by (simp_all add: port_frame_def SNX_DATA_def SNX_DCR_def SNX_DSR_def SNX_ECR_def)
  show "noise q us = noise p us" by (simp add: noise_def r)
  show l: "latch q = latch p"
  proof (intro ext)
    fix e st show "latch q e st = latch p e st" by (cases "(p, e, st)" rule: latch.cases) (auto simp: r)
  qed
  show "delivers q us bs = delivers p us bs" by (simp add: delivers_def l)
qed

lemma calm_trans:
  assumes "calm d ds k s s1" and "calm d ds k' s1 s2"
  shows "calm d ds (k + k') s s2"
proof -
  obtain us where us: "ran (sh_mach s) us (sh_mach s1)" "noise (sh_port s) us" "looks us \<le> k" using assms(1) unfolding calm_def by blast
  obtain vs where vs: "ran (sh_mach s1) vs (sh_mach s2)" "noise (sh_port s1) vs" "looks vs \<le> k'" using assms(2) unfolding calm_def by blast
  have f: "port_frame (sh_port s) (sh_port s1)" using assms(1) by (simp add: calm_def)
  have "noise (sh_port s) (us @ vs)" using us vs port_frame_regs(5) [OF f] by simp
  moreover have "ran (sh_mach s) (us @ vs) (sh_mach s2)" using us(1) vs(1) by (rule ran_trans)
  moreover have "port_frame (sh_port s) (sh_port s2)" using assms by (simp add: calm_def port_frame_def)
  ultimately show ?thesis
    using assms us(3) vs(3) unfolding calm_def same_patience_def by (intro conjI exI [of _ "us @ vs"]) auto
qed

lemma calm_mono: "calm d ds k s s' \<Longrightarrow> k \<le> k' \<Longrightarrow> calm d ds k' s s'"
  unfolding calm_def by (meson le_trans)

lemma share_ok_cong: "share_ok s ws ds \<Longrightarrow> sh_devs s' = sh_devs s \<Longrightarrow> sh_port s' = sh_port s \<Longrightarrow> share_ok s' ws ds"
  using lists_ok_port [of s ws ds s'] by (auto simp: share_ok_def)

lemma idle_calm:
  assumes "idle k n s s'" and "owns d ds s"
  shows "calm d ds k s s'"
proof -
  obtain us where us: "ran (sh_mach s) us (sh_mach s')" "\<forall>a. outs_at a us = []" "looks us \<le> k"
    and p: "sh_port s' = sh_port s" "sh_devs s' = sh_devs s" using assms(1) unfolding idle_def by blast
  have "owns d ds s'" using assms(2) p share_ok_cong [of s "[]" ds s'] by (simp add: owns_def)
  moreover have "noise (sh_port s) us" by (rule noise_idle) (use us(2) in simp)
  ultimately show ?thesis using us p by (auto simp: calm_def port_frame_def same_patience_def)
qed

text \<open>Register operations that keep the strobe low.\<close>

lemma calm_regs:
  assumes own: "owns d ds s" and f: "f (sh_port s, sh_mach s) = (p, m)"
    and same: "same_port (sh_port s) p" and low: "pp_ctr (pt_priv p) AND 1 = 0"
    and us: "ran (sh_mach s) us m" "noise (sh_port s) us" "looks us \<le> k"
  shows "calm d ds k s (on_port f s)"
proof -
  have e: "on_port f s = s\<lparr>sh_port := p, sh_mach := m\<rparr>" using f by (simp add: on_port_def)
  note P = same_portD [OF same]
  have fr: "port_frame (sh_port s) p" using same by (auto simp: port_frame_def same_port_def)
  have "lists_ok (on_port f s) [] ds"
    by (rule lists_ok_port [of s]) (use own P in \<open>simp_all add: e owns_def share_ok_def\<close>)
  moreover have "strobe_low p"
    using own low P port_frame_regs [OF fr] by (simp add: owns_def strobe_low_def)
  ultimately have "owns d ds (on_port f s)" using own P by (simp add: owns_def share_ok_def e)
  then show ?thesis using fr us by (auto simp: calm_def e same_patience_def)
qed

lemma low_bit:
  fixes v :: u8
  shows "v AND 1 = 0 \<longleftrightarrow> \<not> bit v 0" "v AND 1 = 1 \<longleftrightarrow> bit v 0"
  by (auto simp: and_one_eq bit_0 odd_iff_mod_2_eq_one)

lemma frob_value_low: "bit (frob_value msk val p) 0 \<longleftrightarrow>
    ((bit (pp_ctr (pt_priv p)) 0 \<and> \<not> bit msk 0) \<noteq> bit val 0) \<and> bit (pp_ctr_writable (pt_priv p)) 0"
  by (auto simp: frob_value_def bit_simps)

lemma frob_low:
  assumes "owns d ds s" and "\<not> bit val 0"
  shows "calm d ds 0 s (on_port (frob_ctr msk val) s)"
proof -
  have "frob_value msk val (sh_port s) AND 1 = 0"
    using assms by (simp add: low_bit frob_value_low owns_def strobe_low_def)
  then show ?thesis
    by (intro calm_regs [where f = "frob_ctr msk val" and us = "[Out (SNX_DCR (sh_port s)) (frob_value msk val (sh_port s))]",
          OF assms(1) frob_ctr_eq])
       (auto simp: same_port_def ran_kernel)
qed

lemma compat_ctl_bits [simp]: "compat_ctl AND 0x20 = 0" "\<not> bit (compat_ctl AND control_lines) 0" "(compat_ctl OR 1) AND 0x20 = 0"
  "bit ((compat_ctl OR 1) AND control_lines) 0" "bit control_lines 0"
  by (simp_all add: compat_ctl_def control_lines_def bit_0)

lemma calm_forward: "owns d ds s \<Longrightarrow> calm d ds 0 s (on_port sunix_parport_pc_data_forward s)"
  unfolding sunix_parport_pc_data_forward_def by (rule frob_low) (simp_all add: bit_0)

lemma calm_enable_irq: "owns d ds s \<Longrightarrow> calm d ds 0 s (on_port sunix_parport_pc_enable_irq s)"
  unfolding sunix_parport_pc_enable_irq_def by (rule frob_low) (simp_all add: bit_0)

lemma calm_control: "owns d ds s \<Longrightarrow> calm d ds 0 s (on_port (sunix_parport_pc_write_control compat_ctl) s)"
proof -
  assume "owns d ds s"
  then have "calm d ds 0 s (on_port (frob_ctr control_lines (compat_ctl AND control_lines)) s)" by (rule frob_low) simp
  moreover have "sunix_parport_pc_write_control compat_ctl = frob_ctr control_lines (compat_ctl AND control_lines)"
    by (simp add: sunix_parport_pc_write_control_def fun_eq_iff)
  ultimately show ?thesis by simp
qed

text \<open>Strobing a byte: the peripheral gets it, and the strobe is low again.\<close>

lemma calm_owns: "calm d ds k s s' \<Longrightarrow> owns d ds s'"
  by (simp add: calm_def)

lemma strobe_delivers:
  assumes own: "owns d ds s"
  obtains us where "ran (sh_mach s) us (sh_mach (compat_strobe b s))" "delivers (sh_port s) us [b]" "looks us = 0"
    "owns d ds (compat_strobe b s)" "port_frame (sh_port s) (sh_port (compat_strobe b s))" "same_patience d s (compat_strobe b s)"
proof -
  let ?p = "sh_port s"
  let ?hi = "frob_value control_lines ((compat_ctl OR 1) AND control_lines) ?p"
  let ?p1 = "?p\<lparr>pt_priv := (pt_priv ?p)\<lparr>pp_ctr := ?hi\<rparr>\<rparr>"
  let ?lo = "frob_value control_lines (compat_ctl AND control_lines) ?p1"
  let ?p2 = "?p1\<lparr>pt_priv := (pt_priv ?p1)\<lparr>pp_ctr := ?lo\<rparr>\<rparr>"
  let ?us = "[Out (SNX_DATA ?p) b, Out (SNX_DCR ?p) ?hi, Out (SNX_DCR ?p) ?lo]"
  let ?m = "outb ?lo (SNX_DCR ?p) (outb ?hi (SNX_DCR ?p) (outb b (SNX_DATA ?p) (sh_mach s)))"
  have w: "bit (pp_ctr_writable (pt_priv ?p)) 0" using own by (simp add: owns_def strobe_low_def low_bit)
  have hi: "?hi AND 1 \<noteq> 0" and lo: "?lo AND 1 = 0" by (simp_all add: low_bit frob_value_low w)
  have e: "compat_strobe b s = s\<lparr>sh_port := ?p2, sh_mach := ?m\<rparr>"
    by (simp add: compat_strobe_def on_port_def sunix_parport_pc_write_control_def frob_ctr_eq sunix_parport_pc_write_data_def)
  have same: "same_port ?p ?p2" by (auto simp: same_port_def)
  have fr: "port_frame ?p ?p2" by (simp add: port_frame_def)
  have "lists_ok (compat_strobe b s) [] ds"
    by (rule lists_ok_port [of s]) (use own in \<open>simp_all add: e owns_def share_ok_def\<close>)
  moreover have "strobe_low ?p2" using own lo port_frame_regs [OF fr] by (simp add: owns_def strobe_low_def)
  ultimately have "owns d ds (compat_strobe b s)" using own by (simp add: owns_def share_ok_def e)
  moreover have "delivers ?p ?us [b]" using hi lo by (simp add: delivers_def)
  moreover have "ran (sh_mach s) ?us (sh_mach (compat_strobe b s))"
    by (simp add: e ran_def outb_def emit_def)
  ultimately show thesis using that [of ?us] fr by (simp add: e same_patience_def)
qed

text \<open>Lending the port while nobody wants it: it comes back with its registers.\<close>

lemma release_alone:
  assumes "share_ok s [] ds" and "pt_cad (sh_port s) = Some d"
  shows "sunix_parport_release preempt wakeup d s = save_into d (upd_port (\<lambda>p. p\<lparr>pt_cad := None\<rparr>) s)"
proof -
  define s0 where "s0 = upd_port (\<lambda>p. p\<lparr>pt_cad := None\<rparr>) s"
  have l: "lists_ok s [] ds" and d: "d \<in> set ds" using assms by (auto simp: share_ok_def)
  have l0: "lists_ok s0 [] ds" by (rule lists_ok_port [OF l]) (simp_all add: s0_def upd_port_def)
  obtain v where v: "sh_devs s0 d = Some v" using lists_ok_dev [OF l0 d] by blast
  obtain s1 where s1: "save_into d s0 = Some s1" "lists_ok s1 [] ds" "sh_port s1 = sh_port s0"
    using quiet.save_ok [OF l0 v] by blast
  have "pt_waithead (sh_port s1) = None" "pt_devices (sh_port s1) = first ds"
    using s1(2) dllD(2) [of "wnx s1"] dllD(2) [of "dnx s1"] by (auto simp: lists_ok_def dev_list_def wait_list_def)
  moreover have "wake_lurkers wakeup d (first ds) s1 = Some s1"
    using sharing.lurkers_quiet [OF refusing_sharing [OF no_preempt_refusing] s1(2), of "[]" ds wakeup d] by simp
  moreover have "wake_waiters preempt wakeup None s1 = Some (False, s1)" by (subst wake_waiters.simps) simp
  ultimately have "sunix_parport_release preempt wakeup d s = Some s1"
    using assms(2) s1(1) by (simp add: sunix_parport_release_def s0_def)
  then show ?thesis using s1(1) by (simp add: s0_def)
qed

lemma claim_alone:
  assumes "sh_devs s d = Some v" and "pt_cad (sh_port s) = None"
    and "ops_restore_state (pd_state v) ((sh_port s)\<lparr>pt_cad := Some d\<rparr>, sh_mach s) = (p, m)" and "jiffies m = (now, m1)"
  shows "sunix_parport_claim_or_block preempt sleep d s =
    Some (0, s\<lparr>sh_port := p, sh_mach := m1, sh_devs := (sh_devs s)(d \<mapsto> v\<lparr>pd_time := now, pd_waiting := 0\<rparr>)\<rparr>)"
  using assms
  by (simp add: sunix_parport_claim_or_block_def sunix_parport_claim_def claim_granted_def upd_dev_def upd_port_def on_port_def)

lemma save_ran:
  assumes "ops_save_state p st m = (st', m1)"
  shows "\<exists>us. ran m us m1 \<and> (\<forall>a. outs_at a us = []) \<and> looks us = 0"
    "pt_ops p = Pc_ops \<Longrightarrow> st_ctr st' = ucast (pp_ctr (pt_priv p))"
proof -
  show "\<exists>us. ran m us m1 \<and> (\<forall>a. outs_at a us = []) \<and> looks us = 0"
    using assms ran_kernel(3) [of "SNX_ECR p" m]
    by (cases "pt_ops p = Pc_ops \<and> pp_ecr (pt_priv p) \<noteq> 0")
       (auto simp: ops_save_state_def sunix_parport_pc_save_state_def Let_def split: par_ops.splits prod.splits if_splits
          intro: exI [of _ "[In (SNX_ECR p) v]" for v] exI [of _ "[]"])
  show "pt_ops p = Pc_ops \<Longrightarrow> st_ctr st' = ucast (pp_ctr (pt_priv p))"
    using assms save_state_eq by (fastforce simp: ops_save_state_def)
qed

lemma restore_ran:
  assumes "ops_restore_state st (p, m) = (q, m1)" and low: "strobe_low p"
    and st: "pt_ops p = Pc_ops \<Longrightarrow> st_ctr st = ucast (pp_ctr (pt_priv p))"
  shows "\<exists>us. ran m us m1 \<and> noise p us \<and> looks us = 0" "pp_ctr (pt_priv q) AND 1 = 0" "same_port p q"
proof -
  let ?c = "pp_ctr (pt_priv p) AND pp_ctr_writable (pt_priv p)"
  have c: "?c AND 1 = 0" using low by (simp add: strobe_low_def low_bit bit_simps)
  show same: "same_port p q" using ops_restore_same_port [of p st m] assms(1) by simp
  show "pp_ctr (pt_priv q) AND 1 = 0"
    using ops_restore_ctr [of p st m] assms(1) st low c
    by (cases "pt_ops p") (auto simp: ops_restore_state_def strobe_low_def)
  show "\<exists>us. ran m us m1 \<and> noise p us \<and> looks us = 0"
  proof (cases "pt_ops p")
    case Pc_ops
    have "ran m ([Out (SNX_DCR p) ?c] @ (if pp_ecr (pt_priv p) \<noteq> 0 then [Out (SNX_ECR p) (ucast (st_ecr st))] else [])) m1"
      using assms(1) st Pc_ops
      by (auto simp: ops_restore_state_def sunix_parport_pc_restore_state_def restored_ctr Let_def ran_def outb_def emit_def
          ECR_WRITE_def sunix_frob_econtrol_def)
    moreover have "noise p ([Out (SNX_DCR p) ?c] @ (if pp_ecr (pt_priv p) \<noteq> 0 then [Out (SNX_ECR p) (ucast (st_ecr st))] else []))"
      using c low by (auto simp: strobe_low_def)
    ultimately show ?thesis by (intro exI conjI) auto
  next
    case Dead_ops
    then show ?thesis using assms(1) by (auto simp: ops_restore_state_def intro: exI [of _ "[]"])
  qed
qed

lemma lend_calm:
  assumes own: "owns d ds s"
  shows "\<exists>s1. sunix_parport_release preempt wakeup d s = Some s1 \<and> pt_cad (sh_port s1) = None \<and> (\<exists>us. ran (sh_mach s) us (sh_mach s1) \<and> noise (sh_port s) us)
    \<and> (\<forall>s2. idle 0 0 s1 s2 \<longrightarrow> (\<exists>s'. sunix_parport_claim_or_block preempt sleep d s2 = Some (0, s') \<and> calm d ds 1 s s'))"
proof -
  have ok: "share_ok s [] ds" "pt_cad (sh_port s) = Some d" and low: "strobe_low (sh_port s)" using own by (simp_all add: owns_def)
  have d: "d \<in> set ds" and l: "lists_ok s [] ds" using ok by (auto simp: share_ok_def)
  let ?s0 = "upd_port (\<lambda>p. p\<lparr>pt_cad := None\<rparr>) s"
  obtain v where v: "sh_devs s d = Some v" "dev_ok [] d v" using lists_ok_dev [OF l d] by blast
  obtain st m1 where sv: "ops_save_state (sh_port ?s0) (pd_state v) (sh_mach s) = (st, m1)" by fastforce
  define s1 where "s1 = ?s0\<lparr>sh_mach := m1, sh_devs := (sh_devs s)(d \<mapsto> v\<lparr>pd_state := st\<rparr>)\<rparr>"
  have 1: "sunix_parport_release preempt wakeup d s = Some s1"
    using release_alone [OF ok] v(1) sv by (simp add: save_into_def upd_dev_def upd_port_def s1_def)
  obtain us1 where us1: "ran (sh_mach s) us1 m1" "\<forall>a. outs_at a us1 = []" "looks us1 = 0" using save_ran(1) [OF sv] by blast
  have st: "pt_ops (sh_port s) = Pc_ops \<Longrightarrow> st_ctr st = ucast (pp_ctr (pt_priv (sh_port s)))"
    using save_ran(2) [OF sv] by (simp add: upd_port_def)
  have again: "\<exists>s'. sunix_parport_claim_or_block preempt sleep d s2 = Some (0, s') \<and> calm d ds 1 s s'" if i2: "idle 0 0 s1 s2" for s2
  proof -
    obtain us2 where us2: "ran m1 us2 (sh_mach s2)" "\<forall>a. outs_at a us2 = []" "looks us2 = 0"
      and same2: "sh_port s2 = (sh_port s)\<lparr>pt_cad := None\<rparr>" "sh_devs s2 = (sh_devs s)(d \<mapsto> v\<lparr>pd_state := st\<rparr>)"
      using i2 by (auto simp: idle_def s1_def upd_port_def)
    have p2: "(sh_port s2)\<lparr>pt_cad := Some d\<rparr> = sh_port s" using same2(1) ok(2) by simp
    obtain q m3 where rs: "ops_restore_state st (sh_port s, sh_mach s2) = (q, m3)" by fastforce
    obtain us3 where us3: "ran (sh_mach s2) us3 m3" "noise (sh_port s) us3" "looks us3 = 0" and q: "pp_ctr (pt_priv q) AND 1 = 0"
      and same: "same_port (sh_port s) q" using restore_ran [OF rs low st] by blast
    obtain now m4 where j: "jiffies m3 = (now, m4)" by fastforce
    define s' where "s' = s2\<lparr>sh_port := q, sh_mach := m4, sh_devs := (sh_devs s2)(d \<mapsto> v\<lparr>pd_state := st, pd_time := now, pd_waiting := 0\<rparr>)\<rparr>"
    have c: "sunix_parport_claim_or_block preempt sleep d s2 = Some (0, s')"
      using claim_alone [of s2 d "v\<lparr>pd_state := st\<rparr>" q m3 now m4] same2 rs p2 j by (simp add: s'_def)
    note P = same_portD [OF same]
    have fr: "port_frame (sh_port s) q" using same by (auto simp: port_frame_def same_port_def)
    have "lists_ok s' [] ds"
      by (rule lists_ok_touch [OF l v(1), where f = "\<lambda>v. v\<lparr>pd_state := st, pd_time := now, pd_waiting := 0\<rparr>"])
         (use v(2) P same2 in \<open>auto simp: s'_def dev_ok_def\<close>)
    moreover have "strobe_low q" using low q port_frame_regs [OF fr] fr by (simp add: strobe_low_def port_frame_def)
    ultimately have "owns d ds s'" using d P ok(2) by (simp add: owns_def share_ok_def s'_def)
    moreover have "ran (sh_mach s) ((us1 @ us2) @ us3 @ [Jiffies now]) (sh_mach s')"
      using ran_trans [OF ran_trans [OF us1(1) us2(1)] ran_trans [OF us3(1) ran_kernel(6) [OF j]]] by (simp add: s'_def)
    moreover have "noise (sh_port s) ((us1 @ us2) @ us3 @ [Jiffies now])" using us1(2) us2(2) us3(2) noise_idle by simp
    ultimately have "calm d ds 1 s s'" using fr v(1) us1(3) us2(3) us3(3)
      unfolding calm_def by (intro conjI exI [of _ "(us1 @ us2) @ us3 @ [Jiffies now]"]) (simp_all add: s'_def same_patience_def)
    then show ?thesis using c by blast
  qed
  have "ran (sh_mach s) us1 (sh_mach s1)" "pt_cad (sh_port s1) = None" using us1(1) by (simp_all add: s1_def upd_port_def)
  moreover have "noise (sh_port s) us1" using us1(2) noise_idle by simp
  ultimately show ?thesis using 1 again by blast
qed

lemma pause_calm:
  assumes own: "owns d ds s" and bst: "bystander (sc_sleep env)"
  shows "\<exists>s'. compat_pause env d lend wait s = Some s' \<and> calm d ds 1 s s'"
proof (cases lend)
  case False
  obtain v where "sh_devs s d = Some v" using own lists_ok_dev [of s "[]" ds d] by (auto simp: owns_def share_ok_def)
  then have "cad_timeout s = Some (pd_timeout v)" using own by (simp add: owns_def cad_timeout_def)
  from wait_event_idle [OF bst this] obtain r s' where e: "sunix_parport_wait_event env s = Some (r, s')" "idle 0 0 s s'" by blast
  then show ?thesis using False idle_calm [OF e(2) own] calm_mono [of d ds 0 s s' 1] by (simp add: compat_pause_def)
next
  case True
  obtain s1 where 1: "sunix_parport_release (sc_preempt env) (sc_wakeup env) d s = Some s1"
    "\<And>s2. idle 0 0 s1 s2 \<Longrightarrow> \<exists>s'. sunix_parport_claim_or_block (sc_preempt env) (sc_sleep env) d s2 = Some (0, s') \<and> calm d ds 1 s s'"
    using lend_calm [OF own, of "sc_preempt env" "sc_wakeup env" "sc_sleep env"] by blast
  obtain s' where "sunix_parport_claim_or_block (sc_preempt env) (sc_sleep env) d (schedule_timeout_interruptible env wait s1) = Some (0, s')"
    "calm d ds 1 s s'" using 1(2) [OF idle_sleep [OF bst]] by blast
  then show ?thesis using True 1(1) by (simp add: compat_pause_def)
qed

lemma yield_calm:
  assumes own: "owns d ds s" and bst: "bystander (sc_sleep env)"
  shows "\<exists>s'. compat_yield env d expire s = Some s' \<and> calm d ds 2 s s'"
proof -
  obtain now s1 where 1: "on_mach jiffies s = (now, s1)" by fastforce
  have c1: "calm d ds 1 s s1" by (rule idle_calm [OF idle_events(5) [OF 1] own])
  obtain v where v: "sh_devs s1 d = Some v" using calm_owns [OF c1] lists_ok_dev [of s1 "[]" ds d] by (auto simp: owns_def share_ok_def)
  have h: "pt_waithead (sh_port s1) = None"
    using calm_owns [OF c1] dllD(2) [of "wnx s1"] by (auto simp: owns_def share_ok_def lists_ok_def wait_list_def)
  obtain now2 m2 where 2: "jiffies (sh_mach s1) = (now2, m2)" by fastforce
  define s2 where "s2 = s1\<lparr>sh_mach := m2\<rparr>"
  have y: "sunix_parport_yield_blocking (sc_preempt env) (sc_wakeup env) (sc_sleep env) d s1 = Some (0, s2)"
    using v h 2 by (simp add: sunix_parport_yield_blocking_def s2_def)
  have i2: "idle 1 0 s1 s2" using idle_events(5) [of s1 now2 s2] 2 by (simp add: on_mach_Some s2_def)
  obtain rs s3 where 3: "on_mach need_resched s2 = (rs, s3)" by fastforce
  define s4 where "s4 = (if rs then sc_sleep env (s3\<lparr>sh_mach := emit Schedule (sh_mach s3)\<rparr>) else s3)"
  have "idle 0 0 s3 (s3\<lparr>sh_mach := emit Schedule (sh_mach s3)\<rparr>)" by (rule idle_mach [OF ran_kernel(1)]) simp_all
  moreover have "idle 0 0 (s3\<lparr>sh_mach := emit Schedule (sh_mach s3)\<rparr>) (sc_sleep env (s3\<lparr>sh_mach := emit Schedule (sh_mach s3)\<rparr>))"
    using bst by (simp add: bystander_def)
  ultimately have "idle 0 0 s3 s4" unfolding s4_def by (auto dest: idle_00_trans(1))
  then have "idle 1 0 s1 s4" using idle_00_trans(2) [OF idle_00_trans(2) [OF i2 idle_events(2) [OF 3]]] by blast
  then have "calm d ds 2 s s4" using calm_trans [OF c1 idle_calm [OF _ calm_owns [OF c1]], of 1 0 s4] by (simp add: numeral_2_eq_2)
  moreover have "compat_yield env d expire s = Some (if time_before now expire then s4 else s1)"
    using 1 y 3 by (simp add: compat_yield_def s4_def)
  ultimately show ?thesis using calm_mono [OF c1, of 2] by auto
qed

lemma calm_cad:
  assumes "owns d ds s" and "map_option pd_timeout (sh_devs s d) = Some t"
  shows "cad_timeout s = Some t"
  using assms by (simp add: owns_def cad_timeout_def)

lemma calm_keeps:
  assumes "calm d ds k s s'"
  shows "map_option pd_timeout (sh_devs s' d) = map_option pd_timeout (sh_devs s d)"
    "m_jiffies (sh_mach s') = m_jiffies (sh_mach s)" "clock_ok T N (sh_mach s') = clock_ok T N (sh_mach s)"
  using assms by (auto simp: calm_def same_patience_def ran_def clock_ok_def)

lemma calm_trace:
  assumes "calm d ds k s s'"
  obtains us where "trace (sh_mach s') = trace (sh_mach s) @ us" "looks us \<le> k"
  using assms ran_oracles(1) unfolding calm_def by metis

text \<open>The wait for one byte ends, by the deadline read at \<open>ts\<close>.\<close>

lemma compat_wait_ends:
  assumes bst: "bystander (sc_sleep env)" and own: "owns d ds s" and t: "map_option pd_timeout (sh_devs s d) = Some t"
    and slow: "clock_ok (wait_ticks env) N (sh_mach s)"
    and late: "\<And>us. N \<le> looks us \<Longrightarrow> looks us \<le> 3 * N + 10 \<Longrightarrow> \<not> time_before (m_jiffies (sh_mach s) (ts @ us)) expire"
    and tr: "trace (sh_mach s) = ts @ us" "looks us \<le> N"
  shows "\<exists>r s' n. compat_wait env d lend expire wait s = Some (r, s') \<and> calm d ds n s s'"
  using own t slow late tr
proof (induction "N - looks us" arbitrary: s us wait rule: less_induct)
  case (less us s wait)
  note own = less.prems(1)
  let ?bits = "PARPORT_STATUS_ERROR OR PARPORT_STATUS_BUSY"
  obtain r s1 where 1: "sunix_parport_wait_peripheral env ?bits ?bits s = Some (r, s1)"
    "idle (N + 1) (polls (if t = 0 then 35000 else pt_spintime (sh_port s)) + N) s s1"
    using wait_peripheral_ends [OF bst calm_cad [OF own less.prems(2)] less.prems(3)] by blast
  have c1: "calm d ds (N + 1) s s1" by (rule idle_calm [OF 1(2) own])
  obtain v s2 where 2: "on_mach (sunix_parport_pc_read_status (sh_port s1)) s1 = (v, s2)" by fastforce
  have c2: "calm d ds (N + 1) s s2" using calm_trans [OF c1 idle_calm [OF idle_events(6) [OF 2] calm_owns [OF c1]]] by simp
  obtain now s3 where 3: "on_mach jiffies s2 = (now, s3)" by fastforce
  have c3: "calm d ds (N + 2) s s3" using calm_trans [OF c2 idle_calm [OF idle_events(5) [OF 3] calm_owns [OF c2]]] by simp
  obtain s4 where 4: "compat_pause env d lend wait s3 = Some s4" "calm d ds 1 s3 s4" using pause_calm [OF calm_owns [OF c3] bst] by blast
  have c4: "calm d ds (N + 3) s s4" using calm_trans [OF c3 4(2)] by (simp add: numeral_3_eq_3)
  obtain sig s5 where 5: "on_mach signal_pending s4 = (sig, s5)" by fastforce
  have c45: "calm d ds 0 s4 s5" by (rule idle_calm [OF idle_events(1) [OF 5] calm_owns [OF c4]])
  have c5: "calm d ds (N + 3) s s5" using calm_trans [OF c4 c45] by simp
  obtain now2 s6 where 6: "on_mach jiffies s5 = (now2, s6)" by fastforce
  have c6: "calm d ds (N + 4) s s6" using calm_trans [OF c5 idle_calm [OF idle_events(5) [OF 6] calm_owns [OF c5]]] by (simp add: add.commute)
  have up: "\<exists>r s' n. give_up x = Some (r, s') \<and> calm d ds n s s'" if "calm d ds n s x" for x n
  proof -
    obtain b y where b: "on_mach signal_pending x = (b, y)" by fastforce
    show ?thesis using calm_trans [OF that idle_calm [OF idle_events(1) [OF b] calm_owns [OF that]]] b by (auto simp: give_up_def)
  qed
  have unf: "compat_wait env d lend expire wait s = (if r = 0 then Some (True, s1)
     else if v AND 0x38 \<noteq> 0x18 then Some (False, s2)
     else if \<not> time_before now expire then give_up s3
     else if sig then give_up s5 else if time_before now2 expire then compat_wait env d lend expire (2 * wait) s6 else give_up s6)"
    by (subst compat_wait.simps) (simp add: 1(1) [simplified] 2 3 4(1) 5 6 cong: if_cong)
  show ?case
  proof (cases "r = 0 \<or> v AND 0x38 \<noteq> 0x18 \<or> \<not> time_before now expire \<or> sig \<or> \<not> time_before now2 expire")
    case True
    then show ?thesis using unf c1 c2 up [OF c3] up [OF c5] up [OF c6] by (auto split: if_splits)
  next
    case False
    obtain u2 where u2: "trace (sh_mach s2) = trace (sh_mach s) @ u2" "looks u2 \<le> N + 1" by (rule calm_trace [OF c2])
    obtain u4 where u4: "trace (sh_mach s4) = trace (sh_mach s3) @ u4" "looks u4 \<le> 1" by (rule calm_trace [OF 4(2)])
    obtain u5 where u5: "trace (sh_mach s5) = trace (sh_mach s4) @ u5" "looks u5 \<le> 0" by (rule calm_trace [OF c45])
    have "now = m_jiffies (sh_mach s) (ts @ us @ u2)"
      using looks_jiffies(1) [OF 3] calm_keeps(2) [OF c2] u2(1) less.prems(5) by simp
    then have p1: "looks (us @ u2) < N" using less.prems(4) [of "us @ u2"] u2(2) less.prems(6) False by fastforce
    let ?w = "us @ u2 @ [Jiffies now] @ u4 @ u5"
    have w: "trace (sh_mach s5) = ts @ ?w" using u2(1) u4(1) u5(1) less.prems(5) looks_jiffies(2) [OF 3] by simp
    then have "now2 = m_jiffies (sh_mach s) (ts @ ?w)" using looks_jiffies(1) [OF 6] calm_keeps(2) [OF c5] by simp
    then have p2: "looks ?w < N" using less.prems(4) [of ?w] u4(2) u5(2) p1 False by fastforce
    let ?w6 = "?w @ [Jiffies now2]"
    have "N - looks ?w6 < N - looks us" using p1 by simp
    moreover have "trace (sh_mach s6) = ts @ ?w6" using w looks_jiffies(2) [OF 6] by simp
    moreover have "looks ?w6 \<le> N" using p2 by simp
    ultimately have "\<exists>r s' n. compat_wait env d lend expire (2 * wait) s6 = Some (r, s') \<and> calm d ds n s6 s'"
      using less.hyps [of ?w6 s6 "2 * wait"] calm_owns [OF c6] calm_keeps [OF c6] less.prems(2-4) by simp
    then show ?thesis using unf False calm_trans [OF c6] by (auto; blast)
  qed
qed

text \<open>Once the wait for a byte says "ready", the byte is sent and the loop goes on with the next.\<close>

lemma byte_sent:
  assumes bst: "bystander (sc_sleep env)" and v: "sh_devs s d = Some v" and 1: "on_mach jiffies s = (now, s1)"
    and 2: "compat_wait env d (count \<noteq> 0 \<and> no_irq) (now + word_of_int (pd_timeout v)) (word_of_int ((sc_HZ env + 99) div 100)) s1 = Some (True, s2)"
    and c2: "calm d ds n s s2"
  obtains s4 us where "compat_bytes env (Some d) no_irq (b # bs) count s = compat_bytes env (Some d) no_irq bs (count + 1) s4"
    "ran (sh_mach s) us (sh_mach s4)" "delivers (sh_port s) us [b]" "port_frame (sh_port s) (sh_port s4)" "owns d ds s4" "same_patience d s s4"
proof -
  obtain us2 where us2: "ran (sh_mach s) us2 (sh_mach s2)" "noise (sh_port s) us2" using c2 unfolding calm_def by blast
  have f2: "port_frame (sh_port s) (sh_port s2)" using c2 by (simp add: calm_def)
  obtain us3 where us3: "ran (sh_mach s2) us3 (sh_mach (compat_strobe b s2))" "delivers (sh_port s2) us3 [b]"
    and o3: "owns d ds (compat_strobe b s2)" "port_frame (sh_port s2) (sh_port (compat_strobe b s2))" "same_patience d s2 (compat_strobe b s2)"
    by (rule strobe_delivers [OF calm_owns [OF c2]])
  obtain s4 where 4: "compat_yield env d (now + word_of_int (pd_timeout v)) (compat_strobe b s2) = Some s4" "calm d ds 2 (compat_strobe b s2) s4"
    using yield_calm [OF o3(1) bst] by blast
  obtain us4 where us4: "ran (sh_mach (compat_strobe b s2)) us4 (sh_mach s4)" "noise (sh_port (compat_strobe b s2)) us4"
    using 4(2) unfolding calm_def by blast
  have "compat_bytes env (Some d) no_irq (b # bs) count s = compat_bytes env (Some d) no_irq bs (count + 1) s4"
    using v 1 2 4(1) by simp
  moreover have "ran (sh_mach s) ((us2 @ us3) @ us4) (sh_mach s4)" using ran_trans [OF ran_trans [OF us2(1) us3(1)] us4(1)] .
  moreover have "delivers (sh_port s) ((us2 @ us3) @ us4) [b]"
  proof -
    have "delivers (sh_port s) us4 []" using noise_delivers [OF us4(2)] port_frame_regs(7) [OF o3(2)] port_frame_regs(7) [OF f2] by simp
    moreover have "delivers (sh_port s) us3 [b]" using us3(2) port_frame_regs(7) [OF f2] by simp
    ultimately show ?thesis using delivers_append [OF delivers_append [OF noise_delivers [OF us2(2)]]] by fastforce
  qed
  moreover have "port_frame (sh_port s) (sh_port s4)" using f2 o3(2) 4(2) by (simp add: calm_def port_frame_def)
  moreover have "same_patience d s s4" using c2 o3(3) 4(2) by (simp add: calm_def same_patience_def)
  ultimately show ?thesis using that calm_owns [OF 4(2)] by blast
qed

lemma bytes_extend:
  assumes "ran (sh_mach s) us (sh_mach s4)" "delivers (sh_port s) us [b]" "port_frame (sh_port s) (sh_port s4)" "same_patience d s s4"
    and "ran (sh_mach s4) us' (sh_mach s')" "delivers (sh_port s4) us' bs" "port_frame (sh_port s4) (sh_port s')" "same_patience d s4 s'"
  shows "ran (sh_mach s) (us @ us') (sh_mach s')" "delivers (sh_port s) (us @ us') (b # bs)" "port_frame (sh_port s) (sh_port s')"
    "same_patience d s s'"
  using ran_trans [OF assms(1,5)] delivers_append [OF assms(2), of us' bs] assms(3,4,6-8) port_frame_regs(7) [OF assms(3)]
  by (simp_all add: port_frame_def same_patience_def)

lemma compat_bytes_ends:
  assumes bst: "bystander (sc_sleep env)" and own: "owns d ds s" and t: "map_option pd_timeout (sh_devs s d) = Some t"
    and c: "clock_ok (wait_ticks env) N (sh_mach s)" "clock_ok (word_of_int t) N (sh_mach s)"
  shows "\<exists>j s' us. compat_bytes env (Some d) no_irq bs count s = Some (count + j, s') \<and> j \<le> length bs
    \<and> owns d ds s' \<and> port_frame (sh_port s) (sh_port s') \<and> ran (sh_mach s) us (sh_mach s') \<and> delivers (sh_port s) us (take j bs)
    \<and> same_patience d s s'"
  using own t c
proof (induction bs arbitrary: s count)
  case Nil
  then show ?case by (auto simp: port_frame_def noise_delivers same_patience_def intro!: exI [of _ "[]"])
next
  case (Cons b bs)
  obtain v where v: "sh_devs s d = Some v" "pd_timeout v = t" using Cons.prems(2) by auto
  obtain now s1 where 1: "on_mach jiffies s = (now, s1)" by fastforce
  have c1: "calm d ds 1 s s1" by (rule idle_calm [OF idle_events(5) [OF 1] Cons.prems(1)])
  let ?expire = "now + word_of_int t"
  have late: "\<not> time_before (m_jiffies (sh_mach s1) (trace (sh_mach s) @ us)) ?expire" if "N \<le> looks us" "looks us \<le> 3 * N + 10" for us
    using Cons.prems(4) that looks_jiffies(1) [OF 1] calm_keeps(2) [OF c1] by (simp add: clock_ok_def)
  have N: "1 \<le> N" using Cons.prems(3) by (simp add: clock_ok_def)
  have "map_option pd_timeout (sh_devs s1 d) = Some t" "clock_ok (wait_ticks env) N (sh_mach s1)"
    "trace (sh_mach s1) = trace (sh_mach s) @ [Jiffies now]" "looks [Jiffies now] \<le> N"
    using calm_keeps [OF c1] Cons.prems(2,3) looks_jiffies(2) [OF 1] N by simp_all
  note W = compat_wait_ends [OF bst calm_owns [OF c1] this(1,2) late this(3,4)]
  obtain r s2 n where 2: "compat_wait env d (count \<noteq> 0 \<and> no_irq) ?expire (word_of_int ((sc_HZ env + 99) div 100)) s1 = Some (r, s2)"
    "calm d ds n s1 s2"
    using W by blast
  have c2: "calm d ds (1 + n) s s2" using c1 2(2) by (rule calm_trans)
  show ?case
  proof (cases r)
    case False
    then have "compat_bytes env (Some d) no_irq (b # bs) count s = Some (count + 0, s2)" using v 1 2(1) by simp
    moreover obtain us2 where "ran (sh_mach s) us2 (sh_mach s2)" "noise (sh_port s) us2" using c2 unfolding calm_def by blast
    ultimately show ?thesis using c2 calm_owns [OF c2] noise_delivers by (metis calm_def le0 take0)
  next
    case True
    obtain s4 us where 4: "compat_bytes env (Some d) no_irq (b # bs) count s = compat_bytes env (Some d) no_irq bs (count + 1) s4"
      "ran (sh_mach s) us (sh_mach s4)" "delivers (sh_port s) us [b]" "port_frame (sh_port s) (sh_port s4)" "owns d ds s4" "same_patience d s s4"
      by (rule byte_sent [OF bst v(1) 1 _ c2]) (use True 2(1) v(2) in simp)
    have t4: "map_option pd_timeout (sh_devs s4 d) = Some t" using 4(6) Cons.prems(2) by (simp add: same_patience_def)
    have "clock_ok T N (sh_mach s4) = clock_ok T N (sh_mach s)" for T using ran_oracles(2) [OF 4(2)] by (simp add: clock_ok_def)
    then obtain j s' us' where r: "compat_bytes env (Some d) no_irq bs (count + 1) s4 = Some (count + 1 + j, s')"
      "j \<le> length bs" "owns d ds s'" "port_frame (sh_port s4) (sh_port s')" "ran (sh_mach s4) us' (sh_mach s')"
      "delivers (sh_port s4) us' (take j bs)" "same_patience d s4 s'"
      using Cons.IH [OF 4(5) t4, of "count + 1"] Cons.prems(3,4) by auto
    show ?thesis using bytes_extend [OF 4(2-4,6) r(5,6,4,7)] 4(1) r(1-3)
      by (intro exI [of _ "Suc j"] exI [of _ s'] exI [of _ "us @ us'"]) simp
  qed
qed

subsection \<open>A peripheral that is always ready\<close>

text \<open>Selected, with paper, no error and not busy, whenever the status is read.\<close>

definition always_ready :: "'a share_scheme \<Rightarrow> bool" where
  "always_ready s \<longleftrightarrow> 0 \<le> pt_spintime (sh_port s) \<and> (\<forall>ts. m_in (sh_mach s) ts (SNX_DSR (sh_port s)) AND 0xB8 = 0x98)"

lemma always_ready_ran:
  assumes "always_ready s" "ran (sh_mach s) us (sh_mach s')" "port_frame (sh_port s) (sh_port s')"
  shows "always_ready s'"
  using assms ran_oracles(2) [OF assms(2)] port_frame_regs [OF assms(3)] by (simp add: always_ready_def port_frame_def ran_def)

lemma wait_peripheral_ready:
  assumes "always_ready s" and "owns d ds s"
  shows "\<exists>s'. sunix_parport_wait_peripheral env 0x88 0x88 s = Some (0, s') \<and> calm d ds 0 s s'"
proof -
  obtain v where "sh_devs s d = Some v" using assms(2) lists_ok_dev [of s "[]" ds d] by (auto simp: owns_def share_ok_def)
  then have t: "cad_timeout s = Some (pd_timeout v)" using assms(2) by (simp add: owns_def cad_timeout_def)
  obtain st s1 where 1: "on_mach (sunix_parport_pc_read_status (sh_port s)) s = (st, s1)" by fastforce
  have st: "st AND 0xB8 = 0x98"
    using assms(1) 1 by (auto simp: always_ready_def on_mach_def sunix_parport_pc_read_status_def inb_def Let_def)
  have "st AND 0x88 = (st AND 0xB8) AND 0x88" by (simp add: and.assoc)
  also have "\<dots> = 0x88" unfolding st by simp
  finally have bits: "st AND 0x88 = 0x88" .
  have "0 < polls (if pd_timeout v = 0 then 35000 else pt_spintime (sh_port s))" (is "0 < polls ?u")
    using assms(1) by (simp add: polls_def always_ready_def signed_divide_int_def sgn_if pos_imp_zdiv_nonneg_iff add_nonneg_pos)
  then obtain k where "polls ?u = Suc k" using not0_implies_Suc by blast
  then have "sunix_parport_poll_peripheral 0x88 0x88 ?u s = (0, s1)"
    using 1 bits by (auto simp: sunix_parport_poll_peripheral_def on_mach_def Let_def split: prod.splits)
  then show ?thesis using t idle_calm [OF idle_events(6) [OF 1] assms(2)] by (auto simp: sunix_parport_wait_peripheral_def Let_def)
qed

lemma compat_wait_ready:
  assumes "always_ready s" and "owns d ds s"
  shows "\<exists>s'. compat_wait env d lend expire wait s = Some (True, s') \<and> calm d ds 0 s s'"
  using wait_peripheral_ready [OF assms, of env] by (subst compat_wait.simps) auto

lemma compat_bytes_ready:
  assumes bst: "bystander (sc_sleep env)" and own: "owns d ds s" and "always_ready s"
  shows "\<exists>s' us. compat_bytes env (Some d) no_irq bs count s = Some (count + length bs, s')
    \<and> owns d ds s' \<and> port_frame (sh_port s) (sh_port s') \<and> ran (sh_mach s) us (sh_mach s') \<and> delivers (sh_port s) us bs
    \<and> same_patience d s s'"
  using own assms(3)
proof (induction bs arbitrary: s count)
  case Nil
  then show ?case by (auto simp: port_frame_def noise_delivers same_patience_def intro!: exI [of _ "[]"])
next
  case (Cons b bs)
  obtain v where v: "sh_devs s d = Some v" using Cons.prems(1) lists_ok_dev [of s "[]" ds d] by (auto simp: owns_def share_ok_def)
  obtain now s1 where 1: "on_mach jiffies s = (now, s1)" by fastforce
  have c1: "calm d ds 1 s s1" by (rule idle_calm [OF idle_events(5) [OF 1] Cons.prems(1)])
  have "always_ready s1" using always_ready_ran [OF Cons.prems(2)] c1 unfolding calm_def by blast
  from compat_wait_ready [OF this calm_owns [OF c1]] obtain s2 where
    2: "compat_wait env d (count \<noteq> 0 \<and> no_irq) (now + word_of_int (pd_timeout v)) (word_of_int ((sc_HZ env + 99) div 100)) s1 = Some (True, s2)"
      "calm d ds 0 s1 s2" by blast
  obtain s4 us where 4: "compat_bytes env (Some d) no_irq (b # bs) count s = compat_bytes env (Some d) no_irq bs (count + 1) s4"
    "ran (sh_mach s) us (sh_mach s4)" "delivers (sh_port s) us [b]" "port_frame (sh_port s) (sh_port s4)" "owns d ds s4" "same_patience d s s4"
    by (rule byte_sent [OF bst v 1 2(1) calm_trans [OF c1 2(2)]])
  obtain s' us' where r: "compat_bytes env (Some d) no_irq bs (count + 1) s4 = Some (count + 1 + length bs, s')" "owns d ds s'"
    "port_frame (sh_port s4) (sh_port s')" "ran (sh_mach s4) us' (sh_mach s')" "delivers (sh_port s4) us' bs" "same_patience d s4 s'"
    using Cons.IH [OF 4(5) always_ready_ran [OF Cons.prems(2) 4(2,4)]] by blast
  show ?case using bytes_extend [OF 4(2-4,6) r(4,5,3,6)] 4(1) r(1,2)
    by (intro exI [of _ s'] exI [of _ "us @ us'"]) simp
qed

lemma owns_phase:
  assumes "owns d ds s"
  shows "calm d ds 0 s (upd_port (\<lambda>p. p\<lparr>pt_phase := x\<rparr>) s)"
proof -
  let ?s = "upd_port (\<lambda>p. p\<lparr>pt_phase := x\<rparr>) s"
  have fr: "port_frame (sh_port s) (sh_port ?s)" by (simp add: port_frame_def upd_port_def)
  have "lists_ok ?s [] ds" by (rule lists_ok_port [of s]) (use assms in \<open>simp_all add: owns_def share_ok_def upd_port_def\<close>)
  moreover have "strobe_low (sh_port ?s)"
    using assms port_frame_regs [OF fr] by (simp add: owns_def strobe_low_def) (simp add: upd_port_def)
  ultimately have "owns d ds ?s" using assms by (simp add: owns_def share_ok_def upd_port_def)
  then show ?thesis using fr by (auto simp: calm_def same_patience_def upd_port_def intro!: exI [of _ "[]"])
qed

text \<open>The frame around the bytes, whatever they do.\<close>

lemma write_compat_frame:
  assumes own: "owns d ds s"
    and bytes: "\<And>s3. calm d ds 0 s s3 \<Longrightarrow> \<exists>j s' us. compat_bytes env (Some d) (pt_irq (sh_port s) = PARPORT_IRQ_NONE) buf 0 s3 = Some (j, s')
      \<and> P j \<and> owns d ds s' \<and> port_frame (sh_port s3) (sh_port s') \<and> ran (sh_mach s3) us (sh_mach s') \<and> delivers (sh_port s3) us (take j buf)
      \<and> same_patience d s3 s'"
  shows "\<exists>n s' us. sunix_parport_ieee1284_write_compat env buf s = Some (n, s') \<and> P n
    \<and> ran (sh_mach s) us (sh_mach s') \<and> delivers (sh_port s) us (take n buf) \<and> port_frame (sh_port s) (sh_port s')
    \<and> owns d ds s' \<and> pt_phase (sh_port s') = 1 \<and> same_patience d s s'"
proof -
  let ?no_irq = "pt_irq (sh_port s) = PARPORT_IRQ_NONE"
  define s1 where "s1 = (if ?no_irq then s else on_port sunix_parport_pc_enable_irq s)"
  have c1: "calm d ds 0 s s1"
    using calm_enable_irq [OF own] idle_calm [OF idle_refl [of 0 0 s] own] by (simp add: s1_def)
  define s2 where "s2 = upd_port (\<lambda>p. p\<lparr>pt_phase := 0\<rparr>) s1"
  have c2: "calm d ds 0 s s2" using calm_trans [OF c1 owns_phase [OF calm_owns [OF c1]]] by (simp add: s2_def)
  define s3 where "s3 = on_port sunix_parport_pc_data_forward (on_port (sunix_parport_pc_write_control compat_ctl) s2)"
  have c3: "calm d ds 0 s s3"
    using calm_trans [OF c2 calm_trans [OF calm_control [OF calm_owns [OF c2]] calm_forward]] calm_owns
      calm_owns [OF calm_control [OF calm_owns [OF c2]]] by (simp add: s3_def)
  obtain us3 where us3: "ran (sh_mach s) us3 (sh_mach s3)" "noise (sh_port s) us3" using c3 unfolding calm_def by blast
  have f: "port_frame (sh_port s) (sh_port s3)" using c3 by (simp add: calm_def)
  obtain j s4 us where 4: "compat_bytes env (Some d) ?no_irq buf 0 s3 = Some (j, s4)" "P j" "owns d ds s4"
    "ran (sh_mach s3) us (sh_mach s4)" "delivers (sh_port s3) us (take j buf)" "port_frame (sh_port s3) (sh_port s4)" "same_patience d s3 s4"
    using bytes [OF c3] by blast
  define s5 where "s5 = upd_port (\<lambda>p. p\<lparr>pt_phase := 1\<rparr>) s4"
  have c5: "calm d ds 0 s4 s5" using owns_phase [OF 4(3)] by (simp add: s5_def)
  have "pt_cad (sh_port s) = Some d" using own by (simp add: owns_def)
  then have "sunix_parport_ieee1284_write_compat env buf s = Some (j, s5)"
    using 4(1) by (simp add: sunix_parport_ieee1284_write_compat_def s1_def s2_def s3_def s5_def)
  moreover have "ran (sh_mach s) (us3 @ us) (sh_mach s5)"
    using ran_trans [OF us3(1) 4(4)] by (simp add: s5_def upd_port_def)
  moreover have "delivers (sh_port s) (us3 @ us) (take j buf)"
    using delivers_append [OF noise_delivers [OF us3(2)]] 4(5) port_frame_regs(7) [OF f] by fastforce
  moreover have "pt_phase (sh_port s5) = 1" by (simp add: s5_def upd_port_def)
  moreover have "port_frame (sh_port s) (sh_port s5)" using f 4(6) c5 by (simp add: port_frame_def calm_def)
  moreover have "same_patience d s s5" using c3 4(7) c5 by (simp add: calm_def same_patience_def)
  ultimately show ?thesis using 4(2) calm_owns [OF c5] by blast
qed

lemma write_compat_ends:
  assumes "owns d ds s" and "bystander (sc_sleep env)" and "sh_devs s d = Some v"
    and "clock_ok (wait_ticks env) N (sh_mach s)" and "clock_ok (word_of_int (pd_timeout v)) N (sh_mach s)"
  shows "\<exists>n s' us. sunix_parport_ieee1284_write_compat env buf s = Some (n, s') \<and> n \<le> length buf
    \<and> ran (sh_mach s) us (sh_mach s') \<and> delivers (sh_port s) us (take n buf) \<and> port_frame (sh_port s) (sh_port s')
    \<and> owns d ds s' \<and> pt_phase (sh_port s') = 1 \<and> same_patience d s s'"
proof (rule write_compat_frame [OF assms(1)])
  fix s3
  assume c3: "calm d ds 0 s s3"
  show "\<exists>j s' us. compat_bytes env (Some d) (pt_irq (sh_port s) = PARPORT_IRQ_NONE) buf 0 s3 = Some (j, s')
      \<and> j \<le> length buf \<and> owns d ds s' \<and> port_frame (sh_port s3) (sh_port s') \<and> ran (sh_mach s3) us (sh_mach s')
      \<and> delivers (sh_port s3) us (take j buf) \<and> same_patience d s3 s'"
    using compat_bytes_ends [OF assms(2) calm_owns [OF c3], of "pd_timeout v" N _ buf 0] calm_keeps [OF c3] assms(3-5) by simp
qed

text \<open>A peripheral that is always ready gets everything, however the clock runs.\<close>

lemma write_compat_ready:
  assumes "owns d ds s" and "bystander (sc_sleep env)" and "always_ready s"
  shows "\<exists>s' us. sunix_parport_ieee1284_write_compat env buf s = Some (length buf, s')
    \<and> ran (sh_mach s) us (sh_mach s') \<and> delivers (sh_port s) us buf \<and> port_frame (sh_port s) (sh_port s')
    \<and> owns d ds s' \<and> pt_phase (sh_port s') = 1 \<and> same_patience d s s'"
proof -
  have "\<exists>n s' us. sunix_parport_ieee1284_write_compat env buf s = Some (n, s') \<and> n = length buf
    \<and> ran (sh_mach s) us (sh_mach s') \<and> delivers (sh_port s) us (take n buf) \<and> port_frame (sh_port s) (sh_port s')
    \<and> owns d ds s' \<and> pt_phase (sh_port s') = 1 \<and> same_patience d s s'"
  proof (rule write_compat_frame [OF assms(1)])
    fix s3
    assume c3: "calm d ds 0 s s3"
    have "always_ready s3" using always_ready_ran [OF assms(3)] c3 unfolding calm_def by blast
    then show "\<exists>j s' us. compat_bytes env (Some d) (pt_irq (sh_port s) = PARPORT_IRQ_NONE) buf 0 s3 = Some (j, s')
      \<and> j = length buf \<and> owns d ds s' \<and> port_frame (sh_port s3) (sh_port s') \<and> ran (sh_mach s3) us (sh_mach s')
      \<and> delivers (sh_port s3) us (take j buf) \<and> same_patience d s3 s'"
      using compat_bytes_ready [OF assms(2) calm_owns [OF c3], of _ buf 0] by simp
  qed
  then show ?thesis by auto
qed

text \<open>
  C4. Writing in compatibility mode while nobody else wants the port returns whenever the clock
  advances; the peripheral receives exactly the first \<open>n\<close> bytes, each once and in order, where \<open>n\<close>
  is the count returned, and the device still owns the port, also when it was lent while waiting.
\<close>

theorem write_compat_delivers:
  assumes "owns d ds s" and "bystander (sc_sleep env)" and "sh_devs s d = Some v"
    and "clock_ok (wait_ticks env) N (sh_mach s)" and "clock_ok (word_of_int (pd_timeout v)) N (sh_mach s)"
  shows "\<exists>n s' us. sunix_parport_ieee1284_write_compat env buf s = Some (n, s') \<and> n \<le> length buf
    \<and> trace (sh_mach s') = trace (sh_mach s) @ us \<and> delivers (sh_port s) us (take n buf)
    \<and> owns d ds s' \<and> pt_phase (sh_port s') = 1"
  using write_compat_ends [OF assms, of buf] ran_oracles(1) by metis

text \<open>A peripheral that is always ready.\<close>

definition ready_owner :: share where
  "ready_owner = lone_owner\<lparr>sh_mach := counting_machine\<lparr>m_in := \<lambda>_ _. 0x98\<rparr>\<rparr>"

lemma ready_owner_owns: "owns 1 [1] ready_owner"
  by (auto simp: owns_def share_ok_def lists_ok_def wait_list_def dev_list_def dll_def link_defs dev_ok_def strobe_low_def
      ready_owner_def lone_owner_def lone_device_def example_par_def zero_par_port_def Cons_eq_append_conv split: if_splits)

theorem write_compat_delivers_witness:
  "\<exists>n s'. sunix_parport_ieee1284_write_compat plain_sched [0x41, 0x42] ready_owner = Some (n, s') \<and> n \<le> 2 \<and> owns 1 [1] s'"
proof -
  have m: "clock_ok T 5 (sh_mach ready_owner) = clock_ok T 5 counting_machine" for T
    by (simp add: clock_ok_def ready_owner_def lone_owner_def)
  have "clock_ok (wait_ticks (plain_sched :: unit sched)) 5 (sh_mach ready_owner)"
    using counting_clock [of 4 5] m by (simp add: wait_ticks_def plain_sched_def)
  moreover have "clock_ok (word_of_int (pd_timeout lone_device)) 5 (sh_mach ready_owner)"
    using counting_clock [of 5 5] m by (simp add: lone_device_def)
  moreover have "sh_devs ready_owner 1 = Some lone_device" by (simp add: ready_owner_def lone_owner_def)
  ultimately show ?thesis
    using write_compat_delivers [OF ready_owner_owns plain_bystander, of lone_device 5 "[0x41, 0x42]"] by fastforce
qed

section \<open>An interrupted yield\<close>

text \<open>
  Device 1 writes while device 2 waits and a signal is pending. After the first byte its time slice
  is over: \<open>sunix_parport_yield_blocking\<close> hands the port to device 2 and the wait to get it back is
  interrupted. \<open>sunix_parport_ieee1284_write_compat\<close> takes the error for "it yielded" and goes on.
\<close>

declare wait_loop.simps [code] compat_wait.simps [code]

definition yielding_owner :: share where
  "yielding_owner = owner_and_waiter\<lparr>sh_mach := idle_machine\<lparr>m_in := \<lambda>_ _. 0x98, m_signal := \<lambda>_. True, m_jiffies := \<lambda>_. 60\<rparr>\<rparr>"

lemma yielding_owner_ok: "share_ok yielding_owner [2] [2, 1]"
  using lists_ok_port [of owner_and_waiter "[2]" "[2, 1]" yielding_owner] owner_and_waiter_ok
  by (simp add: share_ok_def yielding_owner_def) (simp add: owner_and_waiter_def)

text \<open>
  From a well-formed port: after the first byte the port belongs to device 2, and the second
  byte is still strobed out, on a port the device does not own.
\<close>

theorem interrupted_yield_writes_unowned:
  "share_ok yielding_owner [2] [2, 1] \<and>
   (case compat_bytes plain_sched (Some 1) True [0x41] 0 yielding_owner of None \<Rightarrow> False
    | Some (n, s1) \<Rightarrow> n = 1 \<and> pt_cad (sh_port s1) = Some 2 \<and>
      (case compat_bytes plain_sched (Some 1) True [0x42] 1 s1 of None \<Rightarrow> False
       | Some (n, s2) \<Rightarrow> n = 2 \<and> pt_cad (sh_port s2) = Some 2 \<and>
          outs_at (SNX_DATA (sh_port s2)) (trace (sh_mach s2)) = [0x41, 0x42]))"
  by (rule conjI [OF yielding_owner_ok]) code_simp

end
