(* ===== verification/Snx_Ppdev.thy ===== *)
theory Snx_Ppdev
  imports Snx_Ieee1284
begin

text \<open>
  User access to a parallel port (driver/snx_ppdev.c): the file operations on one open file and the
  port its minor number stands for, with one definition per ioctl. \<open>None\<close> is a NULL or dangling
  pointer, an access outside \<open>sunix_par_table\<close>, or a loop that never ends. The last part proves
  that closing a file undoes whatever ioctls were made on it.
\<close>

section \<open>ppdev\<close>

subsection \<open>State\<close>

abbreviation (input) SNX_PP_CLAIMED :: u32 where "SNX_PP_CLAIMED \<equiv> 1"
abbreviation (input) SNX_PP_EXCL :: u32 where "SNX_PP_EXCL \<equiv> 2"
abbreviation (input) SNX_PP_FASTWRITE :: u32 where "SNX_PP_FASTWRITE \<equiv> 4"
abbreviation (input) SNX_PP_FASTREAD :: u32 where "SNX_PP_FASTREAD \<equiv> 8"
abbreviation (input) SNX_PP_W91284PIC :: u32 where "SNX_PP_W91284PIC \<equiv> 16"
abbreviation (input) SNX_PP_FLAGMASK :: u32 where "SNX_PP_FLAGMASK \<equiv> 0x1c"
abbreviation (input) SNX_PP_BUFFER_SIZE :: nat where "SNX_PP_BUFFER_SIZE \<equiv> 1024"
abbreviation (input) SNX_PARPORT_INACTIVITY_O_NONBLOCK :: int where "SNX_PARPORT_INACTIVITY_O_NONBLOCK \<equiv> 1"
abbreviation (input) MODE_COMPAT :: int where "MODE_COMPAT \<equiv> 256"
abbreviation (input) MODE_EPP :: int where "MODE_EPP \<equiv> 64"
abbreviation (input) MODE_ADDR :: int where "MODE_ADDR \<equiv> 8192"

text \<open>A pair is mode and phase, as in \<^verbatim>\<open>struct ieee1284_info\<close>.\<close>

record snx_pp_struct =
  pf_pdev :: "nat option"
  pf_irqc :: int
  pf_flags :: u32
  pf_irqresponse :: bool
  pf_irqctl :: u8
  pf_state :: "int \<times> int"
  pf_saved_state :: "int \<times> int"
  pf_default_inactivity :: int

record snx_par_port_info =
  pi_board_name :: string
  pi_bus_number :: u32
  pi_dev_number :: u32
  pi_port :: u32
  pi_base :: u32
  pi_base_hi :: u32
  pi_irq :: u32
  pi_minor :: u32

text \<open>
  What the kernel answers to one call: the allocations (of a name, a buffer, a device and its state),
  the address it allocates, and whether user memory can be read and written; and the default time slice.
\<close>

record pp_answers =
  ka_name :: bool
  ka_buf :: bool
  ka_dev :: bool
  ka_state :: bool
  ka_addr :: nat
  ka_from_user :: bool
  ka_to_user :: bool
  ka_timeslice :: u64

datatype pp_out = No_out | Out_int int | Out_byte u8 | Out_modes u32 | Out_time int int | Out_port snx_par_port_info

type_synonym 'a pp_result = "(int \<times> pp_out \<times> snx_pp_struct \<times> 'a share_scheme) option"

definition ret_val :: "int \<Rightarrow> snx_pp_struct \<Rightarrow> 'a share_scheme \<Rightarrow> 'a pp_result" where
  "ret_val r pp s = Some (r, No_out, pp, s)"

definition to_user :: "pp_answers \<Rightarrow> pp_out \<Rightarrow> snx_pp_struct \<Rightarrow> 'a share_scheme \<Rightarrow> 'a pp_result" where
  "to_user ka out pp s = (if ka_to_user ka then Some (0, out, pp, s) else ret_val (- EFAULT) pp s)"

definition from_user :: "pp_answers \<Rightarrow> snx_pp_struct \<Rightarrow> 'a share_scheme \<Rightarrow> 'a pp_result \<Rightarrow> 'a pp_result" where
  "from_user ka pp s k = (if ka_from_user ka then k else ret_val (- EFAULT) pp s)"

text \<open>\<^verbatim>\<open>pp->pdev->port\<close> exists only when \<^verbatim>\<open>pdev\<close> points to a live device.\<close>

definition with_pdev :: "snx_pp_struct \<Rightarrow> 'a share_scheme \<Rightarrow> (nat \<Rightarrow> 'b option) \<Rightarrow> 'b option" where
  "with_pdev pp s k = (case pf_pdev pp of None \<Rightarrow> None | Some d \<Rightarrow> if sh_devs s d = None then None else k d)"

definition claimed :: "snx_pp_struct \<Rightarrow> bool" where
  "claimed pp \<longleftrightarrow> pf_flags pp AND SNX_PP_CLAIMED \<noteq> 0"

definition snx_pp_enable_irq :: "snx_pp_struct \<Rightarrow> 'a share_scheme \<Rightarrow> 'a share_scheme option" where
  "snx_pp_enable_irq pp s = with_pdev pp s (\<lambda>_. Some (on_port (ops_call sunix_parport_pc_enable_irq) s))"

definition port_info :: "'a share_scheme \<Rightarrow> int \<times> int" where
  "port_info s = (pt_mode (sh_port s), pt_phase (sh_port s))"

definition set_port_info :: "int \<times> int \<Rightarrow> 'a share_scheme \<Rightarrow> 'a share_scheme" where
  "set_port_info i = upd_port (\<lambda>p. p\<lparr>pt_mode := fst i, pt_phase := snd i\<rparr>)"

text \<open>\<^verbatim>\<open>sunix_parport_find_number\<close> on a system with the one port: found when the number is its number.\<close>

definition is_port :: "u32 \<Rightarrow> 'a share_scheme \<Rightarrow> bool" where
  "is_port minor s \<longleftrightarrow> pt_number (sh_port s) = sint minor"

subsection \<open>Registering a device and claiming\<close>

definition snx_register_device :: "'a sched \<Rightarrow> pp_answers \<Rightarrow> u32 \<Rightarrow> snx_pp_struct \<Rightarrow> 'a share_scheme
    \<Rightarrow> (int \<times> snx_pp_struct \<times> 'a share_scheme) option" where
  "snx_register_device env ka minor pp s =
    (if \<not> ka_name ka then Some (- ENOMEM, pp, s)
     else if \<not> is_port minor s then Some (- ENXIO, pp, s)
     else
      do {
        (r, s1) \<leftarrow> sunix_parport_register_device (ka_dev ka) (ka_state ka) (ka_timeslice ka) (sc_HZ env) (ka_addr ka)
                    False False True (if pf_flags pp AND SNX_PP_EXCL \<noteq> 0 then PARPORT_FLAG_EXCL else 0)
                    (sunix_parport_get_port s);
        (let s2 = put_ref s1 in
         case r of None \<Rightarrow> Some (- ENXIO, pp, s2) | Some d \<Rightarrow> Some (0, pp\<lparr>pf_pdev := Some d\<rparr>, s2))
      })"

definition snx_init_phase :: "int \<Rightarrow> int" where
  "snx_init_phase mode = (if mode AND NOT (4 OR MODE_ADDR) \<in> {0, 1} then 5 else 1)"

text \<open>Taking over the port's mode: the file's state goes in, the port's is kept for later; and back.\<close>

definition swap_in :: "snx_pp_struct \<Rightarrow> 'a share_scheme \<Rightarrow> snx_pp_struct \<times> 'a share_scheme" where
  "swap_in pp s = (pp\<lparr>pf_saved_state := port_info s\<rparr>, set_port_info (pf_state pp) s)"

definition swap_out :: "snx_pp_struct \<Rightarrow> 'a share_scheme \<Rightarrow> snx_pp_struct \<times> 'a share_scheme" where
  "swap_out pp s = (pp\<lparr>pf_state := port_info s\<rparr>, set_port_info (pf_saved_state pp) s)"

definition pp_claim :: "'a sched \<Rightarrow> pp_answers \<Rightarrow> u32 \<Rightarrow> snx_pp_struct \<Rightarrow> 'a share_scheme \<Rightarrow> 'a pp_result" where
  "pp_claim env ka minor pp s =
    (if claimed pp then ret_val (- EINVAL) pp s
     else
      do {
        (err, pp1, s1) \<leftarrow> (if pf_pdev pp = None then snx_register_device env ka minor pp s else Some (0, pp, s));
        (if err \<noteq> 0 then ret_val err pp1 s1
         else with_pdev pp1 s1 (\<lambda>d.
           do {
             (ret, s2) \<leftarrow> sunix_parport_claim_or_block (sc_preempt env) (sc_sleep env) d s1;
             (if ret < 0 then ret_val ret pp1 s2
              else
               do {
                 s3 \<leftarrow> snx_pp_enable_irq (pp1\<lparr>pf_flags := pf_flags pp1 OR SNX_PP_CLAIMED\<rparr>) s2;
                 (let (pp2, s4) = swap_in (pp1\<lparr>pf_flags := pf_flags pp1 OR SNX_PP_CLAIMED\<rparr>) s3
                  in do {
                    (old, s5) \<leftarrow> sunix_parport_set_timeout d 0 s4;
                    (_, s6) \<leftarrow> sunix_parport_set_timeout d old s5;
                    ret_val 0 (pp2\<lparr>pf_default_inactivity := old\<rparr>) s6
                  })
               })
           }))
      })"

subsection \<open>ioctls on a file that need not be claimed\<close>

definition pp_dump_port_info :: "pp_answers \<Rightarrow> sunix_par_port list \<Rightarrow> u32 \<Rightarrow> snx_pp_struct \<Rightarrow> 'a share_scheme \<Rightarrow> 'a pp_result" where
  "pp_dump_port_info ka tab minor pp s =
    (let i = unat (minor - 2) in
     if i < length tab then
      (let sdn = tab ! i in
       to_user ka (Out_port \<lparr>pi_board_name = pb_board_name (pp_pb_info sdn), pi_bus_number = pp_bus_number sdn,
          pi_dev_number = pp_dev_number sdn, pi_port = word_of_int (pp_portnum sdn + 2), pi_base = ucast (pp_base sdn),
          pi_base_hi = ucast (pp_base_hi sdn), pi_irq = word_of_int (pp_irq sdn),
          pi_minor = 0\<rparr>) pp s)
     else None)"

definition pp_excl :: "snx_pp_struct \<Rightarrow> 'a share_scheme \<Rightarrow> 'a pp_result" where
  "pp_excl pp s =
    (if pf_pdev pp \<noteq> None then ret_val (if pf_flags pp AND SNX_PP_EXCL \<noteq> 0 then 0 else - EINVAL) pp s
     else ret_val 0 (pp\<lparr>pf_flags := pf_flags pp OR SNX_PP_EXCL\<rparr>) s)"

definition pp_setmode :: "pp_answers \<Rightarrow> int \<Rightarrow> snx_pp_struct \<Rightarrow> 'a share_scheme \<Rightarrow> 'a pp_result" where
  "pp_setmode ka mode pp s =
    from_user ka pp s
     (let pp1 = pp\<lparr>pf_state := (mode, snx_init_phase mode)\<rparr> in
      if claimed pp then with_pdev pp s (\<lambda>_. ret_val 0 pp1 (set_port_info (pf_state pp1) s)) else ret_val 0 pp1 s)"

definition pp_getmode :: "pp_answers \<Rightarrow> snx_pp_struct \<Rightarrow> 'a share_scheme \<Rightarrow> 'a pp_result" where
  "pp_getmode ka pp s =
    (if claimed pp then with_pdev pp s (\<lambda>_. to_user ka (Out_int (fst (port_info s))) pp s)
     else to_user ka (Out_int (fst (pf_state pp))) pp s)"

definition pp_setphase :: "pp_answers \<Rightarrow> int \<Rightarrow> snx_pp_struct \<Rightarrow> 'a share_scheme \<Rightarrow> 'a pp_result" where
  "pp_setphase ka phase pp s =
    from_user ka pp s
     (let pp1 = pp\<lparr>pf_state := (fst (pf_state pp), phase)\<rparr> in
      if claimed pp then with_pdev pp s (\<lambda>_. ret_val 0 pp1 (set_port_info (fst (port_info s), phase) s)) else ret_val 0 pp1 s)"

definition pp_getphase :: "pp_answers \<Rightarrow> snx_pp_struct \<Rightarrow> 'a share_scheme \<Rightarrow> 'a pp_result" where
  "pp_getphase ka pp s =
    (if claimed pp then with_pdev pp s (\<lambda>_. to_user ka (Out_int (snd (port_info s))) pp s)
     else to_user ka (Out_int (snd (pf_state pp))) pp s)"

definition pp_getmodes :: "pp_answers \<Rightarrow> u32 \<Rightarrow> snx_pp_struct \<Rightarrow> 'a share_scheme \<Rightarrow> 'a pp_result" where
  "pp_getmodes ka minor pp s =
    (if \<not> is_port minor s then ret_val (- ENODEV) pp s
     else (let s1 = sunix_parport_get_port s in to_user ka (Out_modes (pt_modes (sh_port s1))) pp s1))"

definition pp_setflags :: "pp_answers \<Rightarrow> int \<Rightarrow> snx_pp_struct \<Rightarrow> 'a share_scheme \<Rightarrow> 'a pp_result" where
  "pp_setflags ka uflags pp s =
    from_user ka pp s
     (ret_val 0 (pp\<lparr>pf_flags := (pf_flags pp AND NOT SNX_PP_FLAGMASK) OR (word_of_int uflags AND SNX_PP_FLAGMASK)\<rparr>) s)"

definition pp_getflags :: "pp_answers \<Rightarrow> snx_pp_struct \<Rightarrow> 'a share_scheme \<Rightarrow> 'a pp_result" where
  "pp_getflags ka pp s = to_user ka (Out_int (uint (pf_flags pp AND SNX_PP_FLAGMASK))) pp s"

subsection \<open>ioctls on a claimed file\<close>

definition pp_rstatus :: "pp_answers \<Rightarrow> snx_pp_struct \<Rightarrow> 'a share_scheme \<Rightarrow> 'a pp_result" where
  "pp_rstatus ka pp s = (let (reg, s1) = on_mach (sunix_parport_pc_read_status (sh_port s)) s in to_user ka (Out_byte reg) pp s1)"

definition pp_rdata :: "pp_answers \<Rightarrow> snx_pp_struct \<Rightarrow> 'a share_scheme \<Rightarrow> 'a pp_result" where
  "pp_rdata ka pp s = (let (reg, s1) = on_mach (sunix_parport_pc_read_data (sh_port s)) s in to_user ka (Out_byte reg) pp s1)"

definition pp_rcontrol :: "pp_answers \<Rightarrow> snx_pp_struct \<Rightarrow> 'a share_scheme \<Rightarrow> 'a pp_result" where
  "pp_rcontrol ka pp s = to_user ka (Out_byte (sunix_parport_pc_read_control (sh_port s))) pp s"

definition pp_yield :: "'a sched \<Rightarrow> nat \<Rightarrow> snx_pp_struct \<Rightarrow> 'a share_scheme \<Rightarrow> 'a pp_result" where
  "pp_yield env d pp s =
    Option.bind (sunix_parport_yield_blocking (sc_preempt env) (sc_wakeup env) (sc_sleep env) d s) (\<lambda>(_, s1). ret_val 0 pp s1)"

definition pp_release :: "'a sched \<Rightarrow> nat \<Rightarrow> snx_pp_struct \<Rightarrow> 'a share_scheme \<Rightarrow> 'a pp_result" where
  "pp_release env d pp s =
    (let (pp1, s1) = swap_out pp s in
     Option.bind (sunix_parport_release (sc_preempt env) (sc_wakeup env) d s1)
       (ret_val 0 (pp1\<lparr>pf_flags := pf_flags pp1 AND NOT SNX_PP_CLAIMED\<rparr>)))"

definition pp_wcontrol :: "pp_answers \<Rightarrow> u8 \<Rightarrow> snx_pp_struct \<Rightarrow> 'a share_scheme \<Rightarrow> 'a pp_result" where
  "pp_wcontrol ka reg pp s = from_user ka pp s (ret_val 0 pp (on_port (sunix_parport_pc_write_control reg) s))"

definition pp_wdata :: "pp_answers \<Rightarrow> u8 \<Rightarrow> snx_pp_struct \<Rightarrow> 'a share_scheme \<Rightarrow> 'a pp_result" where
  "pp_wdata ka reg pp s =
    from_user ka pp s (ret_val 0 pp (on_port (\<lambda>(p, m). (p, sunix_parport_pc_write_data p reg m)) s))"

definition pp_fcontrol :: "pp_answers \<Rightarrow> u8 \<Rightarrow> u8 \<Rightarrow> snx_pp_struct \<Rightarrow> 'a share_scheme \<Rightarrow> 'a pp_result" where
  "pp_fcontrol ka msk reg pp s = from_user ka pp s (ret_val 0 pp (on_port (sunix_parport_pc_frob_control msk reg) s))"

definition pp_datadir :: "pp_answers \<Rightarrow> int \<Rightarrow> snx_pp_struct \<Rightarrow> 'a share_scheme \<Rightarrow> 'a pp_result" where
  "pp_datadir ka mode pp s =
    from_user ka pp s (ret_val 0 pp (if mode \<noteq> 0 then ops_data_reverse s else ops_data_forward s))"

definition pp_negot :: "pp_answers \<Rightarrow> int \<Rightarrow> snx_pp_struct \<Rightarrow> 'a share_scheme \<Rightarrow> 'a pp_result" where
  "pp_negot ka mode pp s =
    from_user ka pp s
     (let r = sunix_parport_negotiate mode; ret = (if r = - 1 then - EIO else if r = 1 then - ENXIO else r)
      in Option.bind (snx_pp_enable_irq pp s) (ret_val ret pp))"

definition pp_wctlonirq :: "pp_answers \<Rightarrow> u8 \<Rightarrow> snx_pp_struct \<Rightarrow> 'a share_scheme \<Rightarrow> 'a pp_result" where
  "pp_wctlonirq ka reg pp s = from_user ka pp s (ret_val 0 (pp\<lparr>pf_irqctl := reg, pf_irqresponse := True\<rparr>) s)"

definition pp_clrirq :: "pp_answers \<Rightarrow> snx_pp_struct \<Rightarrow> 'a share_scheme \<Rightarrow> 'a pp_result" where
  "pp_clrirq ka pp s =
    (let ret = pf_irqc pp in to_user ka (Out_int ret) (if ka_to_user ka then pp\<lparr>pf_irqc := pf_irqc pp - ret\<rparr> else pp) s)"

text \<open>\<^verbatim>\<open>long\<close> arithmetic wraps.\<close>

definition long :: "int \<Rightarrow> int" where
  "long i = sint (word_of_int i :: u64)"

definition SNX_ROUND_UP :: "int \<Rightarrow> int \<Rightarrow> int" where
  "SNX_ROUND_UP x y = long (x + y - 1) sdiv y"

definition pp_settime :: "int \<Rightarrow> pp_answers \<Rightarrow> int \<Rightarrow> int \<Rightarrow> nat \<Rightarrow> snx_pp_struct \<Rightarrow> 'a share_scheme \<Rightarrow> 'a pp_result" where
  "pp_settime HZ ka sec usec d pp s =
    from_user ka pp s
     (if sec < 0 \<or> usec < 0 then ret_val (- EINVAL) pp s
      else
       (let to_jiffies = long (SNX_ROUND_UP usec (1000000 sdiv HZ) + long (sec * HZ)) in
        if to_jiffies \<le> 0 then ret_val (- EINVAL) pp s
        else Option.bind (upd_dev d (\<lambda>v. v\<lparr>pd_timeout := to_jiffies\<rparr>) s) (ret_val 0 pp)))"

definition pp_gettime :: "int \<Rightarrow> pp_answers \<Rightarrow> nat \<Rightarrow> snx_pp_struct \<Rightarrow> 'a share_scheme \<Rightarrow> 'a pp_result" where
  "pp_gettime HZ ka d pp s =
    Option.bind (sh_devs s d) (\<lambda>v.
      let to_jiffies = pd_timeout v
      in to_user ka (Out_time (to_jiffies sdiv HZ) (long ((to_jiffies smod HZ) * (1000000 sdiv HZ)))) pp s)"

subsection \<open>The two switches of the ioctl\<close>

datatype pp_cmd =
    PAR_DUMP_PORT_INFO | PPCLAIM | PPEXCL | PPSETMODE int | PPGETMODE | PPSETPHASE int | PPGETPHASE | PPGETMODES
  | PPSETFLAGS int | PPGETFLAGS | PPRSTATUS | PPRDATA | PPRCONTROL | PPYIELD | PPRELEASE | PPWCONTROL u8 | PPWDATA u8
  | PPFCONTROL u8 u8 | PPDATADIR int | PPNEGOT int | PPWCTLONIRQ u8 | PPCLRIRQ | PPSETTIME int int | PPGETTIME | PPOTHER

fun pp_ioctl_claimed :: "'a sched \<Rightarrow> pp_answers \<Rightarrow> pp_cmd \<Rightarrow> nat \<Rightarrow> snx_pp_struct \<Rightarrow> 'a share_scheme \<Rightarrow> 'a pp_result" where
  "pp_ioctl_claimed env ka PPRSTATUS d pp s = pp_rstatus ka pp s"
| "pp_ioctl_claimed env ka PPRDATA d pp s = pp_rdata ka pp s"
| "pp_ioctl_claimed env ka PPRCONTROL d pp s = pp_rcontrol ka pp s"
| "pp_ioctl_claimed env ka PPYIELD d pp s = pp_yield env d pp s"
| "pp_ioctl_claimed env ka PPRELEASE d pp s = pp_release env d pp s"
| "pp_ioctl_claimed env ka (PPWCONTROL reg) d pp s = pp_wcontrol ka reg pp s"
| "pp_ioctl_claimed env ka (PPWDATA reg) d pp s = pp_wdata ka reg pp s"
| "pp_ioctl_claimed env ka (PPFCONTROL msk reg) d pp s = pp_fcontrol ka msk reg pp s"
| "pp_ioctl_claimed env ka (PPDATADIR mode) d pp s = pp_datadir ka mode pp s"
| "pp_ioctl_claimed env ka (PPNEGOT mode) d pp s = pp_negot ka mode pp s"
| "pp_ioctl_claimed env ka (PPWCTLONIRQ reg) d pp s = pp_wctlonirq ka reg pp s"
| "pp_ioctl_claimed env ka PPCLRIRQ d pp s = pp_clrirq ka pp s"
| "pp_ioctl_claimed env ka (PPSETTIME sec usec) d pp s = pp_settime (sc_HZ env) ka sec usec d pp s"
| "pp_ioctl_claimed env ka PPGETTIME d pp s = pp_gettime (sc_HZ env) ka d pp s"
| "pp_ioctl_claimed env ka _ d pp s = ret_val (- EINVAL) pp s"

fun snx_pp_ioctl :: "'a sched \<Rightarrow> pp_answers \<Rightarrow> sunix_par_port list \<Rightarrow> u32 \<Rightarrow> pp_cmd \<Rightarrow> snx_pp_struct \<Rightarrow> 'a share_scheme \<Rightarrow> 'a pp_result" where
  "snx_pp_ioctl env ka tab minor PAR_DUMP_PORT_INFO pp s = pp_dump_port_info ka tab minor pp s"
| "snx_pp_ioctl env ka tab minor PPCLAIM pp s = pp_claim env ka minor pp s"
| "snx_pp_ioctl env ka tab minor PPEXCL pp s = pp_excl pp s"
| "snx_pp_ioctl env ka tab minor (PPSETMODE mode) pp s = pp_setmode ka mode pp s"
| "snx_pp_ioctl env ka tab minor PPGETMODE pp s = pp_getmode ka pp s"
| "snx_pp_ioctl env ka tab minor (PPSETPHASE phase) pp s = pp_setphase ka phase pp s"
| "snx_pp_ioctl env ka tab minor PPGETPHASE pp s = pp_getphase ka pp s"
| "snx_pp_ioctl env ka tab minor PPGETMODES pp s = pp_getmodes ka minor pp s"
| "snx_pp_ioctl env ka tab minor (PPSETFLAGS uflags) pp s = pp_setflags ka uflags pp s"
| "snx_pp_ioctl env ka tab minor PPGETFLAGS pp s = pp_getflags ka pp s"
| "snx_pp_ioctl env ka tab minor cmd pp s =
     (if \<not> claimed pp then ret_val (- EINVAL) pp s
      else with_pdev pp s (\<lambda>d. pp_ioctl_claimed env ka cmd d pp s))"

subsection \<open>Opening, closing, the interrupt, poll\<close>

text \<open>\<open>junk\<close> is what the allocated memory held: not every field is initialised. \<open>port_max\<close> is the kernel's \<^verbatim>\<open>PARPORT_MAX\<close>.\<close>

definition snx_pp_open :: "u32 \<Rightarrow> pp_answers \<Rightarrow> u32 \<Rightarrow> snx_pp_struct \<Rightarrow> int + snx_pp_struct" where
  "snx_pp_open port_max ka minor junk =
    (if minor \<ge> port_max then Inl (- ENXIO)
     else if \<not> ka_buf ka then Inl (- ENOMEM)
     else Inr (junk\<lparr>pf_state := (MODE_COMPAT, snx_init_phase MODE_COMPAT), pf_flags := 0, pf_irqresponse := False,
        pf_irqc := 0, pf_pdev := None\<rparr>))"

text \<open>What \<open>sunix_parport_claim_or_block\<close> answers is ignored here.\<close>

definition snx_pp_release :: "'a sched \<Rightarrow> snx_pp_struct \<Rightarrow> 'a share_scheme \<Rightarrow> 'a share_scheme option" where
  "snx_pp_release env pp s =
    do {
      (pp1, s1) \<leftarrow>
        (if \<not> claimed pp \<and> pf_pdev pp \<noteq> None \<and> fst (pf_state pp) \<noteq> MODE_COMPAT then
           with_pdev pp s (\<lambda>d.
             do {
               (_, s0) \<leftarrow> sunix_parport_claim_or_block (sc_preempt env) (sc_sleep env) d s;
               Some (swap_in (pp\<lparr>pf_flags := pf_flags pp OR SNX_PP_CLAIMED\<rparr>) s0)
             })
         else Some (pp, s));
      s2 \<leftarrow> (if claimed pp1 then
               with_pdev pp1 s1 (\<lambda>d. sunix_parport_release (sc_preempt env) (sc_wakeup env) d (snd (swap_out pp1 s1)))
             else Some s1);
      (case pf_pdev pp1 of
         None \<Rightarrow> Some s2
       | Some d \<Rightarrow> sunix_parport_unregister_device (sc_preempt env) (sc_wakeup env) d s2)
    }"

definition snx_pp_irq :: "snx_pp_struct \<Rightarrow> 'a share_scheme \<Rightarrow> (snx_pp_struct \<times> 'a share_scheme) option" where
  "snx_pp_irq pp s =
    do {
      (pp1, s1) \<leftarrow>
        (if pf_irqresponse pp then
           with_pdev pp s (\<lambda>_. Some (pp\<lparr>pf_irqresponse := False\<rparr>, on_port (sunix_parport_pc_write_control (pf_irqctl pp)) s))
         else Some (pp, s));
      Some (pp1\<lparr>pf_irqc := pf_irqc pp1 + 1\<rparr>, s1)
    }"

definition snx_pp_poll :: "snx_pp_struct \<Rightarrow> u32" where
  "snx_pp_poll pp = (if pf_irqc pp \<noteq> 0 then 0x1 OR 0x40 else 0)"

subsection \<open>Reading and writing\<close>

definition cond_resched :: "'a sched \<Rightarrow> 'a share_scheme \<Rightarrow> 'a share_scheme" where
  "cond_resched env s =
    (case on_mach need_resched s of (r, s1) \<Rightarrow> if r then sc_sleep env (s1\<lparr>sh_mach := emit Schedule (sh_mach s1)\<rparr>) else s1)"

definition plain_mode :: "'a share_scheme \<Rightarrow> int" where
  "plain_mode s = pt_mode (sh_port s) AND NOT (4 OR MODE_ADDR)"

text \<open>One transfer of at most a buffer; the result is what was read, and the count or the error.\<close>

definition pp_read_some :: "'a sched \<Rightarrow> int \<Rightarrow> nat \<Rightarrow> 'a share_scheme \<Rightarrow> (u8 list \<times> int \<times> 'a share_scheme) option" where
  "pp_read_some env mode need s =
    (if mode = MODE_EPP then
       (case pt_ops (sh_port s) of
          Dead_ops \<Rightarrow> Some ([], 0, s)
        | Pc_ops \<Rightarrow>
           map_option (\<lambda>(got, n, s). (got, int n, s))
             (if pt_mode (sh_port s) AND MODE_ADDR \<noteq> 0 then sunix_parport_ieee1284_epp_read_addr env need s
              else sunix_parport_ieee1284_epp_read_data env need s))
     else Some ([], sunix_parport_read, s))"

partial_function (option) pp_read_loop ::
    "'a sched \<Rightarrow> bool \<Rightarrow> int \<Rightarrow> nat \<Rightarrow> 'a share_scheme \<Rightarrow> (u8 list \<times> int \<times> 'a share_scheme) option" where
  "pp_read_loop env nonblock mode need s =
    Option.bind (pp_read_some env mode need s) (\<lambda>(got, n, s1).
      if n \<noteq> 0 then Some (got, n, s1)
      else if nonblock then Some (got, - EAGAIN, s1)
      else
       (case on_mach signal_pending s1 of (sig, s2) \<Rightarrow>
         if sig then Some (got, - ERESTARTSYS, s2)
         else pp_read_loop env nonblock mode need (cond_resched env s2)))"

definition snx_pp_read :: "'a sched \<Rightarrow> pp_answers \<Rightarrow> bool \<Rightarrow> nat \<Rightarrow> snx_pp_struct \<Rightarrow> 'a share_scheme
    \<Rightarrow> (int \<times> u8 list \<times> 'a share_scheme) option" where
  "snx_pp_read env ka nonblock count pp s =
    (if \<not> claimed pp then Some (- EINVAL, [], s)
     else if count = 0 then Some (0, [], s)
     else if \<not> ka_buf ka then Some (- ENOMEM, [], s)
     else with_pdev pp s (\<lambda>d.
       do {
         (_, s1) \<leftarrow> sunix_parport_set_timeout d
                      (if nonblock then SNX_PARPORT_INACTIVITY_O_NONBLOCK else pf_default_inactivity pp) s;
         (got, n, s2) \<leftarrow> pp_read_loop env nonblock (plain_mode s) (min count SNX_PP_BUFFER_SIZE) s1;
         (_, s3) \<leftarrow> sunix_parport_set_timeout d (pf_default_inactivity pp) s2;
         s4 \<leftarrow> snx_pp_enable_irq pp s3;
         Some (if n > 0 then if ka_to_user ka then (n, take (nat n) got, s4) else (- EFAULT, [], s4) else (n, [], s4))
       }))"

definition pp_write_some :: "'a sched \<Rightarrow> u32 \<Rightarrow> int \<Rightarrow> u8 list \<Rightarrow> 'a share_scheme \<Rightarrow> (int \<times> 'a share_scheme) option" where
  "pp_write_some env flags mode kbuf s =
    (if flags AND SNX_PP_FASTWRITE \<noteq> 0 \<and> mode = MODE_EPP then
       (case pt_ops (sh_port s) of
          Dead_ops \<Rightarrow> Some (0, s)
        | Pc_ops \<Rightarrow>
           (let (n, s1) = (if pt_mode (sh_port s) AND MODE_ADDR \<noteq> 0 then sunix_parport_ieee1284_epp_write_addr kbuf s
                           else sunix_parport_ieee1284_epp_write_data kbuf s)
            in Some (int n, s1)))
     else map_option (\<lambda>(n, s). (int n, s)) (sunix_parport_write env kbuf s))"

text \<open>
  The write loop. \<open>readable\<close> says whether user memory can be read at an offset, \<open>written\<close> counts what
  has gone out; each round that goes on has written something.
\<close>

function pp_write_loop ::
    "'a sched \<Rightarrow> (nat \<Rightarrow> bool) \<Rightarrow> bool \<Rightarrow> u32 \<Rightarrow> int \<Rightarrow> u8 list \<Rightarrow> nat \<Rightarrow> 'a share_scheme \<Rightarrow> (int \<times> 'a share_scheme) option" where
  "pp_write_loop env readable nonblock flags mode buf written s =
    (if written \<ge> length buf then Some (int written, s)
     else if \<not> readable written then Some (- EFAULT, s)
     else
       Option.bind (pp_write_some env flags mode (take SNX_PP_BUFFER_SIZE (drop written buf)) s) (\<lambda>(wrote, s1).
         if wrote \<le> 0 then Some (if written = 0 then wrote else int written, s1)
         else
          (let written' = written + nat wrote in
           if nonblock then Some (int written', s1)
           else
            (case on_mach signal_pending s1 of (sig, s2) \<Rightarrow>
              if sig then Some (int written', s2)
              else pp_write_loop env readable nonblock flags mode buf written' (cond_resched env s2)))))"
  by pat_completeness auto
termination
  by (relation "measure (\<lambda>(env, readable, nonblock, flags, mode, buf, written, s). length buf - written)") auto

declare pp_write_loop.simps [simp del]

definition snx_pp_write :: "'a sched \<Rightarrow> pp_answers \<Rightarrow> (nat \<Rightarrow> bool) \<Rightarrow> bool \<Rightarrow> u8 list \<Rightarrow> snx_pp_struct \<Rightarrow> 'a share_scheme
    \<Rightarrow> (int \<times> 'a share_scheme) option" where
  "snx_pp_write env ka readable nonblock buf pp s =
    (if \<not> claimed pp then Some (- EINVAL, s)
     else if \<not> ka_buf ka then Some (- ENOMEM, s)
     else with_pdev pp s (\<lambda>d.
       do {
         (_, s1) \<leftarrow> sunix_parport_set_timeout d
                      (if nonblock then SNX_PARPORT_INACTIVITY_O_NONBLOCK else pf_default_inactivity pp) s;
         (n, s2) \<leftarrow> pp_write_loop env readable nonblock (pf_flags pp) (plain_mode s) buf 0 s1;
         (_, s3) \<leftarrow> sunix_parport_set_timeout d (pf_default_inactivity pp) s2;
         s4 \<leftarrow> snx_pp_enable_irq pp s3;
         Some (n, s4)
       }))"

section \<open>Closing undoes a session\<close>

text \<open>
  \<open>core s s'\<close>: lists without waiters stay, and what the port keeps beside owner, mode and registers;
  \<open>same_use\<close> adds the owner and the mode.
\<close>

definition core :: "'a share_scheme \<Rightarrow> 'a share_scheme \<Rightarrow> bool" where
  "core s s' \<longleftrightarrow> (\<forall>L. lists_ok s [] L \<longrightarrow> lists_ok s' [] L) \<and> pt_flags (sh_port s') = pt_flags (sh_port s)
     \<and> pt_ref_count (sh_port s') = pt_ref_count (sh_port s) \<and> pt_number (sh_port s') = pt_number (sh_port s)
     \<and> (\<forall>r. map_option pd_flags (sh_devs s' r) = map_option pd_flags (sh_devs s r))"

definition same_use :: "'a share_scheme \<Rightarrow> 'a share_scheme \<Rightarrow> bool" where
  "same_use s s' \<longleftrightarrow> core s s' \<and> pt_cad (sh_port s') = pt_cad (sh_port s) \<and> port_info s' = port_info s"

lemma core_refl [simp]: "core s s" and same_use_refl [simp]: "same_use s s"
  by (simp_all add: core_def same_use_def)

lemma core_trans: "core s s1 \<Longrightarrow> core s1 s2 \<Longrightarrow> core s s2"
  by (simp add: core_def)

lemma core_dev:
  assumes "core s s'" and "sh_devs s d = Some v"
  obtains v' where "sh_devs s' d = Some v'"
proof -
  have "map_option pd_flags (sh_devs s' d) = Some (pd_flags v)" using assms by (simp add: core_def)
  then show thesis using that by auto
qed

lemma same_use_trans: "same_use s s1 \<Longrightarrow> same_use s1 s2 \<Longrightarrow> same_use s s2"
  using core_trans by (auto simp: same_use_def)

lemma core_portI:
  assumes "sh_devs s' = sh_devs s" "pt_waithead (sh_port s') = pt_waithead (sh_port s)" "pt_waittail (sh_port s') = pt_waittail (sh_port s)"
    "pt_devices (sh_port s') = pt_devices (sh_port s)" "pt_flags (sh_port s') = pt_flags (sh_port s)"
    "pt_ref_count (sh_port s') = pt_ref_count (sh_port s)" "pt_number (sh_port s') = pt_number (sh_port s)"
  shows "core s s'"
  using assms lists_ok_port [of s "[]" _ s'] by (simp add: core_def)

lemma core_devI:
  assumes "sh_devs s d = Some v" and "sh_devs s' = (sh_devs s)(d \<mapsto> v')"
    and "pd_waiting v' AND 1 = pd_waiting v AND 1" "pd_wakeup v' = pd_wakeup v" "pd_flags v' = pd_flags v"
    "pd_next v' = pd_next v" "pd_prev v' = pd_prev v" "pd_waitnext v' = pd_waitnext v" "pd_waitprev v' = pd_waitprev v"
    and "pt_waithead (sh_port s') = pt_waithead (sh_port s)" "pt_waittail (sh_port s') = pt_waittail (sh_port s)"
    "pt_devices (sh_port s') = pt_devices (sh_port s)" "pt_flags (sh_port s') = pt_flags (sh_port s)"
    "pt_ref_count (sh_port s') = pt_ref_count (sh_port s)" "pt_number (sh_port s') = pt_number (sh_port s)"
  shows "core s s'"
proof -
  have "lists_ok s' [] L" if l: "lists_ok s [] L" for L
    by (rule lists_ok_touch [OF l assms(1), where f = "\<lambda>_. v'"])
       (use assms l in \<open>auto simp: lists_ok_def dev_ok_def\<close>)
  then show ?thesis using assms by (auto simp: core_def)
qed

lemma same_use_mach: "sh_port s' = sh_port s \<Longrightarrow> sh_devs s' = sh_devs s \<Longrightarrow> same_use s s'"
  by (auto simp: same_use_def port_info_def intro: core_portI)

lemma same_use_port:
  assumes "same_port (sh_port s) p"
  shows "same_use s (s\<lparr>sh_port := p, sh_mach := m\<rparr>)"
proof -
  have e: "pt_flags p = pt_flags (sh_port s)" "pt_ref_count p = pt_ref_count (sh_port s)" "pt_number p = pt_number (sh_port s)"
    using assms by (auto simp: same_port_def)
  note P = same_portD [OF assms]
  have "core s (s\<lparr>sh_port := p, sh_mach := m\<rparr>)" by (rule core_portI) (simp_all add: P e)
  then show ?thesis by (simp add: same_use_def port_info_def P)
qed

lemma same_use_on_port:
  assumes "reg_step f"
  shows "same_use s (on_port f s)"
proof -
  obtain p m where f: "f (sh_port s, sh_mach s) = (p, m)" by fastforce
  show ?thesis using same_use_port [OF reg_stepD(1) [OF assms f]] f by (simp add: on_port_def)
qed

lemma reg_step_ops_call: "reg_step f \<Longrightarrow> reg_step (ops_call f)"
proof (rule reg_stepI)
  fix p m p' m' assume f: "reg_step f" and e: "ops_call f (p, m) = (p', m')"
  have "(pt_ops p = Pc_ops \<and> f (p, m) = (p', m')) \<or> (p', m') = (p, m)" using e by (cases "pt_ops p") (auto simp: ops_call_def)
  then show "same_port p p'" "ctr_shadow p m \<Longrightarrow> ctr_shadow p' m'" "\<exists>ts. trace m' = trace m @ ts \<and> writes_within p ts"
    using reg_stepD [OF f] reg_stepD [OF reg_step_id, of p m p m] by auto
qed

lemma reg_step_write_data: "reg_step (\<lambda>(p, m). (p, sunix_parport_pc_write_data p b m))"
  using reg_step_data(1) [of b] by (simp add: case_prod_unfold)

lemma same_use_on_mach: "on_mach f s = (x, s1) \<Longrightarrow> same_use s s1"
  by (auto simp: on_mach_Some intro: same_use_mach)

lemma same_use_timeout:
  assumes "sh_devs s d = Some v"
  shows "\<exists>s'. sunix_parport_set_timeout d t s = Some (pd_timeout v, s') \<and> same_use s s' \<and> (\<exists>v'. sh_devs s' d = Some v')"
proof -
  let ?s1 = "s\<lparr>sh_devs := (sh_devs s)(d \<mapsto> v\<lparr>pd_timeout := t\<rparr>)\<rparr>"
  have "core s ?s1" by (rule core_devI [OF assms, where v' = "v\<lparr>pd_timeout := t\<rparr>"]) simp_all
  then have "same_use s ?s1" by (simp add: same_use_def port_info_def)
  moreover have "same_use ?s1 (sunix_parport_ieee1284_wakeup ?s1)"
    by (rule same_use_mach) (simp_all add: sunix_parport_ieee1284_wakeup_def)
  ultimately show ?thesis
    using assms same_use_trans by (auto simp: sunix_parport_set_timeout_def upd_dev_Some sunix_parport_ieee1284_wakeup_def)
qed

lemma claim_core:
  assumes l: "lists_ok s [] L" and v: "sh_devs s d = Some v" and cad: "pt_cad (sh_port s) = None"
  shows "\<exists>s'. sunix_parport_claim_or_block preempt sleep d s = Some (0, s') \<and> core s s' \<and> pt_cad (sh_port s') = Some d
    \<and> port_info s' = port_info s"
proof -
  obtain p m where r: "ops_restore_state (pd_state v) ((sh_port s)\<lparr>pt_cad := Some d\<rparr>, sh_mach s) = (p, m)" by fastforce
  obtain now m1 where j: "jiffies m = (now, m1)" by fastforce
  have same: "same_port ((sh_port s)\<lparr>pt_cad := Some d\<rparr>) p" using ops_restore_same_port r by (metis fst_conv)
  have w: "pd_waiting v AND 1 = 0" using l v by (auto simp: lists_ok_def dev_ok_def)
  have e: "pt_flags p = pt_flags (sh_port s)" "pt_ref_count p = pt_ref_count (sh_port s)" "pt_number p = pt_number (sh_port s)"
    using same by (auto simp: same_port_def)
  let ?s = "s\<lparr>sh_port := p, sh_mach := m1, sh_devs := (sh_devs s)(d \<mapsto> v\<lparr>pd_time := now, pd_waiting := 0\<rparr>)\<rparr>"
  have "core s ?s" by (rule core_devI [OF v, where v' = "v\<lparr>pd_time := now, pd_waiting := 0\<rparr>"]) (use same_portD [OF same] e w in simp_all)
  then show ?thesis using claim_alone [OF v cad r j] same_portD [OF same] by (simp add: port_info_def)
qed

lemma release_core:
  assumes l: "lists_ok s [] L" and d: "d \<in> set L" and cad: "pt_cad (sh_port s) = Some d"
  shows "\<exists>s'. sunix_parport_release preempt wakeup d s = Some s' \<and> core s s' \<and> pt_cad (sh_port s') = None
    \<and> port_info s' = port_info s"
proof -
  have ok: "share_ok s [] L" using l d cad by (simp add: share_ok_def)
  obtain v where v: "sh_devs s d = Some v" using lists_ok_dev [OF l d] by blast
  obtain st m where sv: "ops_save_state ((sh_port s)\<lparr>pt_cad := None\<rparr>) (pd_state v) (sh_mach s) = (st, m)" by fastforce
  let ?s = "s\<lparr>sh_port := (sh_port s)\<lparr>pt_cad := None\<rparr>, sh_mach := m, sh_devs := (sh_devs s)(d \<mapsto> v\<lparr>pd_state := st\<rparr>)\<rparr>"
  have "core s ?s" by (rule core_devI [OF v, where v' = "v\<lparr>pd_state := st\<rparr>"]) simp_all
  moreover have "sunix_parport_release preempt wakeup d s = Some ?s"
    using release_alone [OF ok cad] v sv by (simp add: save_into_def upd_dev_def upd_port_def)
  ultimately show ?thesis by (simp add: port_info_def)
qed

text \<open>Registering: the device is at the head of the list, and the port has one more reference.\<close>

lemma register_frame:
  assumes "sunix_parport_register_device a b sl HZ d pf kf irq flags s = Some (Some d', s')"
  shows "port_info s' = port_info s" "pt_number (sh_port s') = pt_number (sh_port s)"
    "pt_ref_count (sh_port s') = pt_ref_count (sh_port s) + 1"
    "pt_flags (sh_port s') = (if flags AND PARPORT_DEV_EXCL \<noteq> 0 then pt_flags (sh_port s) OR PARPORT_FLAG_EXCL else pt_flags (sh_port s))"
    "map_option pd_flags (sh_devs s' d) = Some flags"
  using assms
  by (auto simp: sunix_parport_register_device_def link_dev_def upd_dev_def upd_port_def sunix_parport_get_port_def port_info_def
      new_pardevice_def Let_def split: if_splits bind_splits option.splits)

lemma unregister_frame:
  assumes "sunix_parport_unregister_device preempt wakeup d s = Some s'" and "pt_cad (sh_port s) \<noteq> Some d"
    and "lists_ok s [] L" and "map_option pd_flags (sh_devs s d) = Some flags"
  shows "port_info s' = port_info s" "pt_number (sh_port s') = pt_number (sh_port s)"
    "pt_ref_count (sh_port s') = pt_ref_count (sh_port s) - 1"
    "pt_flags (sh_port s') = (if flags AND PARPORT_DEV_EXCL \<noteq> 0 then pt_flags (sh_port s) AND NOT PARPORT_FLAG_EXCL else pt_flags (sh_port s))"
proof -
  obtain v0 where v0: "sh_devs s d = Some v0" "pd_flags v0 = flags" using assms(4) by auto
  have D: "dll (dnx s) (dpv s) (pt_devices (sh_port s)) (final L) L" "set L = dom (sh_devs s)"
    using assms(3) by (auto simp: lists_ok_def dev_list_def)
  have d: "d \<in> set L" using D(2) v0 by auto
  obtain s2 where s2: "unlink_dev d s = Some s2" "\<exists>h0. sh_port s2 = (sh_port s)\<lparr>pt_devices := h0\<rparr>"
    "\<forall>r. \<exists>f g. sh_devs s2 r = map_option (\<lambda>v. v\<lparr>pd_next := f v, pd_prev := g v\<rparr>) (sh_devs s r)"
    using unlink_dev_ok [OF D(1) d equalityD1 [OF D(2)]] by blast
  obtain h0 where h0: "sh_port s2 = (sh_port s)\<lparr>pt_devices := h0\<rparr>" using s2(2) by blast
  obtain v where v: "sh_devs s2 d = Some v" using dev_relinked(1) [OF s2(3)] D(2) d by auto
  have vf: "pd_flags v = flags" "pd_waitprev v = None" "pd_waitnext v = None"
    using dev_relinked(4) [OF s2(3) v, of "[]"] v0 assms(3) by (auto simp: lists_ok_def dev_ok_def)
  have "pt_waithead (sh_port s) = None" using assms(3) dllD(2) [of "wnx s"] by (auto simp: lists_ok_def wait_list_def)
  then have "s' = put_ref ((if flags AND PARPORT_DEV_EXCL \<noteq> 0
      then upd_port (\<lambda>p. p\<lparr>pt_flags := pt_flags p AND NOT PARPORT_FLAG_EXCL\<rparr>) s2 else s2)\<lparr>sh_devs := (sh_devs s2)(d := None)\<rparr>)"
    using assms(1,2) s2(1) v vf h0 by (auto simp: sunix_parport_unregister_device_def Let_def upd_port_def split: if_splits)
  then show "port_info s' = port_info s" "pt_number (sh_port s') = pt_number (sh_port s)"
    "pt_ref_count (sh_port s') = pt_ref_count (sh_port s) - 1"
    "pt_flags (sh_port s') = (if flags AND PARPORT_DEV_EXCL \<noteq> 0 then pt_flags (sh_port s) AND NOT PARPORT_FLAG_EXCL else pt_flags (sh_port s))"
    using h0 by (simp_all add: put_ref_def upd_port_def port_info_def)
qed

text \<open>
  The invariant of a session on a port that was in state \<open>s0\<close> with the idle devices \<open>ds\<close> when the file
  was opened; \<open>n\<close> counts the references that were taken and never given back.
\<close>

definition session :: "'a share_scheme \<Rightarrow> nat list \<Rightarrow> int \<Rightarrow> snx_pp_struct \<Rightarrow> 'a share_scheme \<Rightarrow> bool" where
  "session s0 ds n pp s \<longleftrightarrow> pt_number (sh_port s) = pt_number (sh_port s0) \<and>
     (case pf_pdev pp of
        None \<Rightarrow> \<not> claimed pp \<and> lists_ok s [] ds \<and> pt_cad (sh_port s) = None \<and> port_info s = port_info s0
          \<and> pt_flags (sh_port s) = pt_flags (sh_port s0) \<and> pt_ref_count (sh_port s) = pt_ref_count (sh_port s0) + n
      | Some d \<Rightarrow> d \<notin> set ds \<and> lists_ok s [] (d # ds) \<and> pt_cad (sh_port s) = (if claimed pp then Some d else None)
          \<and> (if claimed pp then pf_saved_state pp else port_info s) = port_info s0
          \<and> pt_ref_count (sh_port s) = pt_ref_count (sh_port s0) + n + 1
          \<and> (\<exists>fl. map_option pd_flags (sh_devs s d) = Some fl \<and> pt_flags (sh_port s0) AND PARPORT_FLAG_EXCL = 0
              \<and> pt_flags (sh_port s) = (if fl AND PARPORT_DEV_EXCL \<noteq> 0 then pt_flags (sh_port s0) OR PARPORT_FLAG_EXCL
                                        else pt_flags (sh_port s0))))"

lemma session_use:
  assumes "session s0 ds n pp s" and "same_use s s'" and "pf_pdev pp' = pf_pdev pp" "claimed pp' = claimed pp"
    and "pf_saved_state pp' = pf_saved_state pp"
  shows "session s0 ds n pp' s'"
  using assms by (auto simp: session_def same_use_def core_def split: option.splits)

lemma claimed_bit: "claimed pp \<longleftrightarrow> bit (pf_flags pp) 0"
  by (auto simp: claimed_def and_one_eq bit_0 odd_iff_mod_2_eq_one)

lemma claimed_flags [simp]:
  "claimed (pp\<lparr>pf_flags := f OR 1\<rparr>)" "\<not> claimed (pp\<lparr>pf_flags := f AND - 2\<rparr>)"
  "claimed (pp\<lparr>pf_flags := pf_flags pp OR 2\<rparr>) = claimed pp"
  "claimed (pp\<lparr>pf_flags := (pf_flags pp AND - 29) OR (x AND 28)\<rparr>) = claimed pp"
  "claimed (pp\<lparr>pf_state := st\<rparr>) = claimed pp" "claimed (pp\<lparr>pf_irqctl := c, pf_irqresponse := b\<rparr>) = claimed pp"
  "claimed (pp\<lparr>pf_irqc := i\<rparr>) = claimed pp" "claimed (pp\<lparr>pf_saved_state := st\<rparr>) = claimed pp"
  "claimed (pp\<lparr>pf_pdev := o'\<rparr>) = claimed pp" "claimed (pp\<lparr>pf_default_inactivity := i\<rparr>) = claimed pp"
  by (simp_all add: claimed_bit bit_or_iff bit_and_iff bit_not_iff bit_numeral_rec)

text \<open>\<open>good\<close>: an ioctl returned, and the session goes on.\<close>

definition good :: "'a share_scheme \<Rightarrow> nat list \<Rightarrow> int \<Rightarrow> 'a pp_result \<Rightarrow> bool" where
  "good s0 ds n res \<longleftrightarrow> (\<exists>r out pp s. res = Some (r, out, pp, s) \<and> session s0 ds n pp s)"

lemma good_intros:
  "session s0 ds n pp s \<Longrightarrow> good s0 ds n (ret_val r pp s)"
  "session s0 ds n pp s \<Longrightarrow> good s0 ds n (to_user ka out pp s)"
  "session s0 ds n pp s \<Longrightarrow> good s0 ds n k \<Longrightarrow> good s0 ds n (from_user ka pp s k)"
  by (auto simp: good_def ret_val_def to_user_def from_user_def)

lemma session_pdev:
  assumes "session s0 ds n pp s" and "claimed pp"
  obtains d v where "pf_pdev pp = Some d" "sh_devs s d = Some v" "pt_cad (sh_port s) = Some d" "lists_ok s [] (d # ds)"
proof -
  obtain d where d: "pf_pdev pp = Some d" "pt_cad (sh_port s) = Some d" "lists_ok s [] (d # ds)"
    using assms by (auto simp: session_def split: option.splits)
  obtain v where "sh_devs s d = Some v" using lists_ok_dev [OF d(3)] by auto
  then show thesis using d that by blast
qed

lemma with_pdev_Some: "pf_pdev pp = Some d \<Longrightarrow> sh_devs s d = Some v \<Longrightarrow> with_pdev pp s k = k d"
  by (simp add: with_pdev_def)

lemma session_regs:
  assumes "session s0 ds n pp s" and "reg_step f"
  shows "session s0 ds n pp (on_port f s)"
  using session_use [OF assms(1) same_use_on_port [OF assms(2)]] by simp

lemmas reg_steps = reg_step_control reg_step_write_data reg_step_ops_call [OF reg_step_control(1)]
  reg_step_ops_call [OF reg_step_control(2)] reg_step_ops_call [OF reg_step_control(5)]

lemma session_mach: "session s0 ds n pp s \<Longrightarrow> on_mach f s = (x, s1) \<Longrightarrow> session s0 ds n pp s1"
  by (erule session_use [OF _ same_use_on_mach]) simp_all

lemma swap_out_session:
  assumes "session s0 ds n pp s" and "pf_pdev pp = Some d" and "claimed pp"
  shows "port_info (snd (swap_out pp s)) = port_info s0" "core s (snd (swap_out pp s))"
    "pt_cad (sh_port (snd (swap_out pp s))) = pt_cad (sh_port s)" "pf_pdev (fst (swap_out pp s)) = Some d"
proof -
  show "core s (snd (swap_out pp s))" by (rule core_portI) (simp_all add: swap_out_def set_port_info_def upd_port_def)
qed (use assms in \<open>auto simp: session_def swap_out_def set_port_info_def port_info_def upd_port_def\<close>)

lemma good_yield:
  assumes "session s0 ds n pp s" "claimed pp"
  shows "good s0 ds n (with_pdev pp s (\<lambda>d. pp_yield env d pp s))"
proof -
  obtain d v where d: "sh_devs s d = Some v" "lists_ok s [] (d # ds)" "pf_pdev pp = Some d"
    using session_pdev [OF assms] by blast
  have "pt_waithead (sh_port s) = None" using d(2) dllD(2) [of "wnx s"] by (auto simp: lists_ok_def wait_list_def)
  moreover obtain now m where j: "jiffies (sh_mach s) = (now, m)" by fastforce
  moreover have "session s0 ds n pp (s\<lparr>sh_mach := m\<rparr>)" by (rule session_use [OF assms(1) same_use_mach]) simp_all
  ultimately show ?thesis using d(1) by (simp add: with_pdev_Some [OF d(3,1)] pp_yield_def sunix_parport_yield_blocking_def good_intros)
qed

lemma good_release:
  assumes s: "session s0 ds n pp s" "claimed pp"
  shows "good s0 ds n (with_pdev pp s (\<lambda>d. pp_release env d pp s))"
proof -
  obtain d v where d: "pf_pdev pp = Some d" "pt_cad (sh_port s) = Some d" "lists_ok s [] (d # ds)" "sh_devs s d = Some v"
    using session_pdev [OF s] by blast
  obtain pp1 s1 where sw: "swap_out pp s = (pp1, s1)" by fastforce
  note W = swap_out_session [OF s(1) d(1) s(2), unfolded sw fst_conv snd_conv]
  have "lists_ok s1 [] (d # ds)" using W(2) d(3) by (simp add: core_def)
  from release_core [OF this, of d "sc_preempt env" "sc_wakeup env"] W(3) d(2)
  obtain s2 where r: "sunix_parport_release (sc_preempt env) (sc_wakeup env) d s1 = Some s2" "core s1 s2"
    "pt_cad (sh_port s2) = None" "port_info s2 = port_info s1" by auto
  have "session s0 ds n (pp1\<lparr>pf_flags := pf_flags pp1 AND NOT SNX_PP_CLAIMED\<rparr>) s2"
    using s core_trans [OF W(2) r(2)] r(3,4) W(1,4) d(1) by (auto simp: session_def core_def)
  then show ?thesis using r(1) sw by (simp add: with_pdev_Some [OF d(1,4)] pp_release_def good_intros)
qed

lemma pp_settime_session:
  assumes s: "session s0 ds n pp s" and v: "sh_devs s d = Some v"
  shows "good s0 ds n (pp_settime HZ ka sec usec d pp s)"
proof -
  have "session s0 ds n pp (s\<lparr>sh_devs := (sh_devs s)(d \<mapsto> v\<lparr>pd_timeout := t\<rparr>)\<rparr>)" for t
  proof (rule session_use [OF s])
    have "core s (s\<lparr>sh_devs := (sh_devs s)(d \<mapsto> v\<lparr>pd_timeout := t\<rparr>)\<rparr>)"
      by (rule core_devI [OF v, where v' = "v\<lparr>pd_timeout := t\<rparr>"]) simp_all
    then show "same_use s (s\<lparr>sh_devs := (sh_devs s)(d \<mapsto> v\<lparr>pd_timeout := t\<rparr>)\<rparr>)" by (simp add: same_use_def port_info_def)
  qed simp_all
  then show ?thesis using s v by (auto simp: pp_settime_def upd_dev_Some Let_def intro!: good_intros)
qed

text \<open>The second switch.\<close>

lemma good_claimed:
  assumes s: "session s0 ds n pp s" and c: "claimed pp"
  shows "good s0 ds n (with_pdev pp s (\<lambda>d. pp_ioctl_claimed env ka cmd d pp s))"
proof -
  obtain d v where d: "pf_pdev pp = Some d" "sh_devs s d = Some v" using session_pdev [OF s c] by blast
  note w = with_pdev_Some [OF d]
  note regs = session_regs [OF s] reg_steps
  show ?thesis
  proof (cases cmd)
    case PPRSTATUS
    then show ?thesis using session_mach [OF s] by (auto simp: w pp_rstatus_def split: prod.splits intro!: good_intros)
  next
    case PPRDATA
    then show ?thesis using session_mach [OF s] by (auto simp: w pp_rdata_def split: prod.splits intro!: good_intros)
  next
    case PPYIELD
    then show ?thesis using good_yield [OF s c] by simp
  next
    case PPRELEASE
    then show ?thesis using good_release [OF s c] by simp
  next
    case (PPNEGOT mode)
    then show ?thesis using s by (auto simp: w pp_negot_def snx_pp_enable_irq_def Let_def intro!: good_intros regs)
  next
    case (PPSETTIME sec usec)
    then show ?thesis using pp_settime_session [OF s d(2)] by (simp add: w)
  next
    case PPGETTIME
    then show ?thesis using s d(2) by (simp add: w pp_gettime_def Let_def good_intros)
  next
    case (PPWCTLONIRQ reg)
    then show ?thesis using s session_use [OF s same_use_refl, of "pp\<lparr>pf_irqctl := reg, pf_irqresponse := True\<rparr>"]
      by (auto simp: w pp_wctlonirq_def intro!: good_intros)
  next
    case PPCLRIRQ
    then show ?thesis using s session_use [OF s same_use_refl, of "pp\<lparr>pf_irqc := 0\<rparr>"]
      by (auto simp: w pp_clrirq_def Let_def intro!: good_intros)
  qed (use s in \<open>auto simp: w pp_rcontrol_def pp_wcontrol_def pp_wdata_def pp_fcontrol_def pp_datadir_def
        ops_data_forward_def ops_data_reverse_def intro!: good_intros regs\<close>)
qed

lemma link_dev_None:
  "link_dev d s = None \<longleftrightarrow> sh_devs s d = None \<or> (\<exists>h. pt_devices (sh_port s) = Some h \<and> h \<noteq> d \<and> sh_devs s h = None)"
  by (auto simp: link_dev_def upd_dev_def split: option.splits)

lemma register_returns:
  assumes "lists_ok s ws L"
  shows "\<exists>r s'. sunix_parport_register_device a b sl HZ d pf kf irq flags s = Some (r, s')"
proof -
  have "dll (dnx s) (dpv s) (pt_devices (sh_port s)) (final L) L" "set L = dom (sh_devs s)"
    using assms by (auto simp: lists_ok_def dev_list_def)
  then have "pt_devices (sh_port s) = first L" "set L = dom (sh_devs s)" by (simp_all add: dll_def)
  then have h: "sh_devs s h \<noteq> None" if "pt_devices (sh_port s) = Some h" for h
    using that list.set_intros(1) by (fastforce simp: first_Some dest!: sym [of "Some h"])
  have l: "\<exists>s3. link_dev d (s2\<lparr>sh_devs := (sh_devs s2)(d \<mapsto> v)\<rparr>) = Some s3"
    if "pt_devices (sh_port s2) = pt_devices (sh_port s)" "sh_devs s2 = sh_devs s" for s2 v
  proof -
    have "link_dev d (s2\<lparr>sh_devs := (sh_devs s2)(d \<mapsto> v)\<rparr>) \<noteq> None" using h that by (auto simp: link_dev_None)
    then show ?thesis by auto
  qed
  have branch: "(c \<Longrightarrow> \<exists>r s'. x = Some (r, s')) \<Longrightarrow> (\<not> c \<Longrightarrow> \<exists>r s'. y = Some (r, s'))
      \<Longrightarrow> \<exists>r s'. (if c then x else y) = Some (r, s')" for c x y
    by simp
  have more: "\<exists>s3. x = Some s3 \<Longrightarrow> \<exists>r s'. Option.bind x (\<lambda>s3. Some (Some d, s3)) = Some (r, s')" for x
    by auto
  show ?thesis unfolding sunix_parport_register_device_def Let_def
    by (intro branch more l) (simp_all add: sunix_parport_get_port_def upd_port_def)
qed

text \<open>Claiming: registers a device the first time, gets the port at once, and swaps the modes.\<close>

lemma register_session:
  assumes s: "session s0 ds n pp s" and none: "pf_pdev pp = None" and fresh: "ka_addr ka \<notin> set ds"
  shows "\<exists>err pp1 s1. snx_register_device env ka minor pp s = Some (err, pp1, s1) \<and> session s0 ds n pp1 s1
    \<and> claimed pp1 = claimed pp \<and> (err = 0 \<longrightarrow> pf_pdev pp1 = Some (ka_addr ka))"
proof -
  let ?fl = "if pf_flags pp AND SNX_PP_EXCL \<noteq> 0 then PARPORT_FLAG_EXCL else 0"
  let ?s1 = "sunix_parport_get_port s"
  have S: "\<not> claimed pp" "lists_ok s [] ds" "pt_cad (sh_port s) = None" "port_info s = port_info s0" "pt_number (sh_port s) = pt_number (sh_port s0)"
    "pt_flags (sh_port s) = pt_flags (sh_port s0)" "pt_ref_count (sh_port s) = pt_ref_count (sh_port s0) + n"
    using s none by (auto simp: session_def)
  have "lists_ok ?s1 [] ds" by (rule lists_ok_port [OF S(2)]) (simp_all add: sunix_parport_get_port_def upd_port_def)
  then have ok: "share_ok ?s1 [] ds" using S(3) by (simp add: share_ok_def sunix_parport_get_port_def upd_port_def)
  show ?thesis
  proof (cases "ka_name ka \<and> is_port minor s")
    case False
    then show ?thesis using s by (auto simp: snx_register_device_def)
  next
    case True
    obtain r s2 where r: "sunix_parport_register_device (ka_dev ka) (ka_state ka) (ka_timeslice ka) (sc_HZ env) (ka_addr ka)
        False False True ?fl ?s1 = Some (r, s2)"
      using register_returns ok [unfolded share_ok_def] by blast
    show ?thesis
    proof (cases r)
      case None
      then have "s2 = ?s1" using register_refused r by blast
      then have "put_ref s2 = s" by (simp add: put_ref_def sunix_parport_get_port_def upd_port_def)
      then show ?thesis using True r None s by (simp add: snx_register_device_def)
    next
      case (Some d')
      note R = register_ok [OF ok fresh _ r [unfolded Some]] register_frame [OF r [unfolded Some]]
      have d': "d' = ka_addr ka" "share_ok s2 [] (ka_addr ka # ds)" "pt_cad (sh_port s2) = None"
        "pt_flags (sh_port s) AND PARPORT_FLAG_EXCL = 0"
        using R(1) S(3) by (auto simp: sunix_parport_get_port_def upd_port_def)
      have l: "lists_ok (put_ref s2) [] (ka_addr ka # ds)"
        by (rule lists_ok_port [of s2]) (use d'(2) in \<open>simp_all add: put_ref_def upd_port_def share_ok_def\<close>)
      have "session s0 ds n (pp\<lparr>pf_pdev := Some d'\<rparr>) (put_ref s2)"
        using l d' S fresh R(2-6) by (auto simp: session_def put_ref_def upd_port_def port_info_def sunix_parport_get_port_def)
      then show ?thesis using True r Some d'(1) by (simp add: snx_register_device_def)
    qed
  qed
qed

lemma good_claim:
  assumes s: "session s0 ds n pp s" and fresh: "ka_addr ka \<notin> set ds"
  shows "good s0 ds n (pp_claim env ka minor pp s)"
proof (cases "claimed pp")
  case True
  then show ?thesis using s by (simp add: pp_claim_def good_intros)
next
  case free: False
  obtain err pp1 s1 where r: "(if pf_pdev pp = None then snx_register_device env ka minor pp s else Some (0, pp, s)) = Some (err, pp1, s1)"
    "session s0 ds n pp1 s1" "\<not> claimed pp1" "err = 0 \<longrightarrow> pf_pdev pp1 \<noteq> None"
    using register_session [OF s _ fresh] s free by (cases "pf_pdev pp") fastforce+
  show ?thesis
  proof (cases "err = 0")
    case False
    then show ?thesis using r free by (simp add: pp_claim_def good_intros)
  next
    case True
    then obtain d where d: "pf_pdev pp1 = Some d" using r(4) by auto
    have S: "lists_ok s1 [] (d # ds)" "pt_cad (sh_port s1) = None" "port_info s1 = port_info s0"
      using r(2,3) d by (auto simp: session_def)
    obtain v where v: "sh_devs s1 d = Some v" using lists_ok_dev [OF S(1)] by auto
    obtain s2 where c: "sunix_parport_claim_or_block (sc_preempt env) (sc_sleep env) d s1 = Some (0, s2)"
      "core s1 s2" "pt_cad (sh_port s2) = Some d" "port_info s2 = port_info s1" using claim_core [OF S(1) v S(2)] by blast
    define pp2 where "pp2 = pp1\<lparr>pf_flags := pf_flags pp1 OR SNX_PP_CLAIMED, pf_saved_state := port_info s2\<rparr>"
    obtain v2 where v2: "sh_devs s2 d = Some v2" using core_dev [OF c(2) v] by blast
    define s3 where "s3 = on_port (ops_call sunix_parport_pc_enable_irq) s2"
    have u3: "same_use s2 s3" unfolding s3_def by (rule same_use_on_port) (rule reg_steps)
    obtain v3 where v3: "sh_devs s3 d = Some v3" using core_dev [of s2 s3] u3 v2 by (auto simp: same_use_def)
    define s4 where "s4 = set_port_info (pf_state pp1) s3"
    have s4: "core s3 s4" "pt_cad (sh_port s4) = pt_cad (sh_port s3)" "sh_devs s4 d = Some v3"
      using v3 core_portI [of s4 s3] by (simp_all add: s4_def set_port_info_def upd_port_def)
    have "core s1 s4" using core_trans [OF c(2)] core_trans [of s2 s3 s4] u3 s4(1) by (auto simp: same_use_def)
    then have ses: "session s0 ds n pp2 s4"
      using r(2,3) d S(3) c(3,4) u3 s4(2) unfolding session_def
      by (auto simp: pp2_def core_def same_use_def)
    obtain s5 v5 where t1: "sunix_parport_set_timeout d 0 s4 = Some (pd_timeout v3, s5)" "same_use s4 s5" "sh_devs s5 d = Some v5"
      using same_use_timeout [OF s4(3)] by blast
    obtain s6 where t2: "sunix_parport_set_timeout d (pd_timeout v3) s5 = Some (pd_timeout v5, s6)" "same_use s5 s6"
      using same_use_timeout [OF t1(3)] by blast
    have fin: "session s0 ds n (pp2\<lparr>pf_default_inactivity := pd_timeout v3\<rparr>) s6"
      by (rule session_use [OF ses same_use_trans [OF t1(2) t2(2)]]) simp_all
    have en: "snx_pp_enable_irq (pp1\<lparr>pf_flags := pf_flags pp1 OR SNX_PP_CLAIMED\<rparr>) s2 = Some s3"
      using d v2 by (simp add: snx_pp_enable_irq_def with_pdev_def s3_def)
    have sw: "swap_in (pp1\<lparr>pf_flags := pf_flags pp1 OR SNX_PP_CLAIMED\<rparr>) s3 = (pp2, s4)"
      using u3 by (simp add: swap_in_def pp2_def s4_def same_use_def)
    have "pp_claim env ka minor pp s = ret_val 0 (pp2\<lparr>pf_default_inactivity := pd_timeout v3\<rparr>) s6"
      using free r(1) True c(1) en sw t1(1) t2(1) by (simp add: pp_claim_def with_pdev_Some [OF d v])
    then show ?thesis using fin by (simp add: good_intros)
  qed
qed

text \<open>The first switch. \<^verbatim>\<open>PPGETMODES\<close> keeps the reference it takes.\<close>

definition leaks :: "'a share_scheme \<Rightarrow> u32 \<Rightarrow> pp_cmd \<Rightarrow> int" where
  "leaks s minor cmd = (if cmd = PPGETMODES \<and> is_port minor s then 1 else 0)"

lemma good_getmodes:
  assumes "session s0 ds n pp s"
  shows "good s0 ds (n + leaks s0 minor PPGETMODES) (pp_getmodes ka minor pp s)"
proof -
  let ?s = "sunix_parport_get_port s"
  have "lists_ok ?s [] L" if "lists_ok s [] L" for L
    by (rule lists_ok_port [OF that]) (simp_all add: sunix_parport_get_port_def upd_port_def)
  then have "session s0 ds (n + 1) pp ?s"
    using assms by (auto simp: session_def sunix_parport_get_port_def upd_port_def port_info_def split: option.splits)
  moreover have "pt_number (sh_port s) = pt_number (sh_port s0)" using assms by (simp add: session_def)
  ultimately show ?thesis using assms by (simp add: pp_getmodes_def leaks_def is_port_def Let_def good_intros)
qed

lemma set_port_info_session:
  assumes "session s0 ds n pp s" and "claimed pp"
  shows "session s0 ds n pp (set_port_info i s)"
proof -
  have "core s (set_port_info i s)" by (rule core_portI) (simp_all add: set_port_info_def upd_port_def)
  then show ?thesis using assms by (auto simp: session_def core_def set_port_info_def upd_port_def split: option.splits)
qed

lemma good_setmode:
  assumes s: "session s0 ds n pp s"
  shows "good s0 ds n (pp_setmode ka mode pp s)" and "good s0 ds n (pp_setphase ka phase pp s)"
    and "good s0 ds n (pp_getmode ka pp s)" and "good s0 ds n (pp_getphase ka pp s)"
proof -
  have st: "session s0 ds n (pp\<lparr>pf_state := st\<rparr>) s'" if "session s0 ds n pp s'" for st s'
    by (rule session_use [OF that same_use_refl]) simp_all
  have p: "\<exists>d v. pf_pdev pp = Some d \<and> sh_devs s d = Some v" if "claimed pp" using session_pdev [OF s that] by blast
  note I = st [OF s] st [OF set_port_info_session [OF s]] s
  show "good s0 ds n (pp_setmode ka mode pp s)"
    using p I(1,2) by (cases "claimed pp") (auto simp: pp_setmode_def Let_def with_pdev_Some intro!: good_intros I(3))
  show "good s0 ds n (pp_setphase ka phase pp s)"
    using p I(1,2) by (cases "claimed pp") (auto simp: pp_setphase_def Let_def with_pdev_Some intro!: good_intros I(3))
  show "good s0 ds n (pp_getmode ka pp s)" "good s0 ds n (pp_getphase ka pp s)"
    using p by (cases "claimed pp"; auto simp: pp_getmode_def pp_getphase_def with_pdev_Some intro!: good_intros I(3))+
qed

lemma good_flags:
  assumes s: "session s0 ds n pp s"
  shows "good s0 ds n (pp_excl pp s)" and "good s0 ds n (pp_setflags ka uflags pp s)"
    and "good s0 ds n (pp_getflags ka pp s)"
proof -
  have "session s0 ds n (pp\<lparr>pf_flags := pf_flags pp OR 2\<rparr>) s"
    "session s0 ds n (pp\<lparr>pf_flags := (pf_flags pp AND NOT 28) OR (x AND 28)\<rparr>) s" for x
    by (rule session_use [OF s same_use_refl]; simp)+
  then show "good s0 ds n (pp_excl pp s)" "good s0 ds n (pp_setflags ka uflags pp s)" "good s0 ds n (pp_getflags ka pp s)"
    using s by (simp_all add: pp_excl_def pp_setflags_def pp_getflags_def good_intros)
qed

lemma session_ioctl:
  assumes s: "session s0 ds n pp s" and fresh: "ka_addr ka \<notin> set ds" and tab: "unat (minor - 2) < length tab"
  shows "good s0 ds (n + leaks s0 minor cmd) (snx_pp_ioctl env ka tab minor cmd pp s)"
proof (cases "cmd = PPGETMODES")
  case True
  then show ?thesis using good_getmodes [OF s] by simp
next
  case False
  note G = good_claim [OF s fresh] good_setmode [OF s] good_flags [OF s] good_claimed [OF s, of env ka cmd]
  have "good s0 ds n (pp_dump_port_info ka tab minor pp s)"
    using tab s by (simp add: pp_dump_port_info_def Let_def good_intros)
  then show ?thesis using False G s by (cases cmd) (auto simp: leaks_def intro: good_intros)
qed

text \<open>A session is a sequence of ioctls on one open file.\<close>

fun pp_session :: "'a sched \<Rightarrow> sunix_par_port list \<Rightarrow> u32 \<Rightarrow> (pp_answers \<times> pp_cmd) list \<Rightarrow> snx_pp_struct \<Rightarrow> 'a share_scheme
    \<Rightarrow> (snx_pp_struct \<times> 'a share_scheme) option" where
  "pp_session env tab minor [] pp s = Some (pp, s)"
| "pp_session env tab minor ((ka, cmd) # calls) pp s =
     Option.bind (snx_pp_ioctl env ka tab minor cmd pp s) (\<lambda>(_, _, pp1, s1). pp_session env tab minor calls pp1 s1)"

lemma session_run:
  assumes "session s0 ds n pp s" and "\<And>ka cmd. (ka, cmd) \<in> set calls \<Longrightarrow> ka_addr ka \<notin> set ds"
    and "unat (minor - 2) < length tab"
  shows "\<exists>pp' s'. pp_session env tab minor calls pp s = Some (pp', s')
    \<and> session s0 ds (n + (\<Sum>(ka, cmd) \<leftarrow> calls. leaks s0 minor cmd)) pp' s'"
  using assms
proof (induction env tab minor calls pp s arbitrary: n rule: pp_session.induct)
  case (2 env tab minor ka cmd calls pp s)
  obtain r out pp1 s1 where i: "snx_pp_ioctl env ka tab minor cmd pp s = Some (r, out, pp1, s1)"
    "session s0 ds (n + leaks s0 minor cmd) pp1 s1"
    using session_ioctl [OF 2(2) 2(3) 2(4)] by (fastforce simp: good_def)
  show ?case using 2(1) [OF i(1) refl refl refl i(2)] 2(3,4) i(1) by (auto simp: add.assoc)
qed simp

lemma excl_cleared:
  assumes "(f :: u32) AND x = 0"
  shows "(f OR x) AND NOT x = f"
proof (rule bit_word_eqI)
  fix i assume i: "i < LENGTH(32)"
  have "bit (f AND x) i = False" using assms by simp
  then show "bit ((f OR x) AND NOT x) i = bit f i" using i by (auto simp: bit_and_iff bit_or_iff bit_not_iff)
qed

text \<open>Giving the port back, then taking the device off the list.\<close>

lemma session_unclaim:
  assumes s: "session s0 ds n pp s" and d: "pf_pdev pp = Some d"
  shows "\<exists>s2. (if claimed pp then with_pdev pp s (\<lambda>d. sunix_parport_release (sc_preempt env) (sc_wakeup env) d (snd (swap_out pp s)))
      else Some s) = Some s2 \<and> core s s2 \<and> pt_cad (sh_port s2) = None \<and> port_info s2 = port_info s0"
proof (cases "claimed pp")
  case False
  then show ?thesis using s d by (simp add: session_def)
next
  case True
  obtain v where v: "sh_devs s d = Some v" "pt_cad (sh_port s) = Some d" "lists_ok s [] (d # ds)"
    using session_pdev [OF s True] d by (metis option.inject)
  note W = swap_out_session [OF s d True]
  have "lists_ok (snd (swap_out pp s)) [] (d # ds)" using W(2) v(3) by (simp add: core_def)
  from release_core [OF this, of d "sc_preempt env" "sc_wakeup env"] W(3) v(2)
  obtain s2 where r: "sunix_parport_release (sc_preempt env) (sc_wakeup env) d (snd (swap_out pp s)) = Some s2"
    "core (snd (swap_out pp s)) s2" "pt_cad (sh_port s2) = None" "port_info s2 = port_info (snd (swap_out pp s))" by auto
  then show ?thesis using True core_trans [OF W(2) r(2)] W(1) by (simp add: with_pdev_Some [OF d v(1)])
qed

lemma session_unregister:
  assumes s: "session s0 ds n pp s" and d: "pf_pdev pp = Some d" and c: "core s s2"
    and cad: "pt_cad (sh_port s2) = None" and info: "port_info s2 = port_info s0"
  shows "\<exists>s'. sunix_parport_unregister_device preempt wakeup d s2 = Some s' \<and> lists_ok s' [] ds \<and> pt_cad (sh_port s') = None
    \<and> port_info s' = port_info s0 \<and> pt_flags (sh_port s') = pt_flags (sh_port s0)
    \<and> pt_ref_count (sh_port s') = pt_ref_count (sh_port s0) + n"
proof -
  obtain fl where S: "lists_ok s [] (d # ds)" "pt_ref_count (sh_port s) = pt_ref_count (sh_port s0) + n + 1"
    "map_option pd_flags (sh_devs s d) = Some fl" "pt_flags (sh_port s0) AND PARPORT_FLAG_EXCL = 0"
    "pt_flags (sh_port s) = (if fl AND PARPORT_DEV_EXCL \<noteq> 0 then pt_flags (sh_port s0) OR PARPORT_FLAG_EXCL else pt_flags (sh_port s0))"
    using s d by (auto simp: session_def)
  have C: "lists_ok s2 [] (d # ds)" "map_option pd_flags (sh_devs s2 d) = Some fl" "pt_flags (sh_port s2) = pt_flags (sh_port s)"
    "pt_ref_count (sh_port s2) = pt_ref_count (sh_port s)" using c S(1,3) by (auto simp: core_def)
  then have ok: "share_ok s2 [] (d # ds)" using cad by (simp add: share_ok_def)
  have "sunix_parport_unregister_device preempt wakeup d s2 = sunix_parport_unregister_device no_preempt no_wakeup d s2"
    using cad by (simp add: sunix_parport_unregister_device_def)
  then obtain s' where u: "sunix_parport_unregister_device preempt wakeup d s2 = Some s'" "share_ok s' [] ds" "pt_cad (sh_port s') = None"
    using quiet.unregister_ok [OF ok, of d] cad by auto
  note U = unregister_frame [OF u(1) _ C(1,2)]
  have "pt_flags (sh_port s') = pt_flags (sh_port s0)"
    using U(4) cad C(3) S(4,5) excl_cleared [OF S(4)] by (cases "fl AND PARPORT_DEV_EXCL = 0") simp_all
  then show ?thesis using u U(1,3) cad info C(4) S(2) by (simp add: share_ok_def)
qed

lemma session_reclaim:
  assumes s: "session s0 ds n pp s" and d: "pf_pdev pp = Some d"
  shows "\<exists>pp1 s1. (if \<not> claimed pp \<and> pf_pdev pp \<noteq> None \<and> fst (pf_state pp) \<noteq> MODE_COMPAT then
           with_pdev pp s (\<lambda>d. Option.bind (sunix_parport_claim_or_block (sc_preempt env) (sc_sleep env) d s)
             (\<lambda>(_, s0). Some (swap_in (pp\<lparr>pf_flags := pf_flags pp OR SNX_PP_CLAIMED\<rparr>) s0)))
         else Some (pp, s)) = Some (pp1, s1) \<and> session s0 ds n pp1 s1 \<and> pf_pdev pp1 = Some d"
proof (cases "\<not> claimed pp \<and> fst (pf_state pp) \<noteq> MODE_COMPAT")
  case False
  then show ?thesis using s d by auto
next
  case True
  have S: "lists_ok s [] (d # ds)" "pt_cad (sh_port s) = None" "port_info s = port_info s0"
    using s d True by (auto simp: session_def)
  obtain v where v: "sh_devs s d = Some v" using lists_ok_dev [OF S(1)] by auto
  obtain s2 where c: "sunix_parport_claim_or_block (sc_preempt env) (sc_sleep env) d s = Some (0, s2)"
    "core s s2" "pt_cad (sh_port s2) = Some d" "port_info s2 = port_info s" using claim_core [OF S(1) v S(2)] by blast
  obtain pp1 s1 where sw: "swap_in (pp\<lparr>pf_flags := pf_flags pp OR SNX_PP_CLAIMED\<rparr>) s2 = (pp1, s1)" by fastforce
  have e: "pf_pdev pp1 = Some d" "claimed pp1" "pf_saved_state pp1 = port_info s2" "pt_cad (sh_port s1) = Some d"
    using sw d c(3) by (auto simp: swap_in_def set_port_info_def upd_port_def)
  have "core s2 s1" using sw by (auto simp: swap_in_def set_port_info_def upd_port_def intro: core_portI)
  then have "core s s1" using core_trans [OF c(2)] by blast
  then have "session s0 ds n pp1 s1" using s d e c(4) S(3) by (auto simp: session_def core_def)
  then show ?thesis using True d sw c(1) e(1) by (simp add: with_pdev_Some [OF d v])
qed

lemma session_close:
  assumes s: "session s0 ds n pp s"
  shows "\<exists>s'. snx_pp_release env pp s = Some s' \<and> lists_ok s' [] ds \<and> pt_cad (sh_port s') = None
    \<and> port_info s' = port_info s0 \<and> pt_flags (sh_port s') = pt_flags (sh_port s0)
    \<and> pt_ref_count (sh_port s') = pt_ref_count (sh_port s0) + n"
proof (cases "pf_pdev pp")
  case None
  then show ?thesis using s by (simp add: session_def snx_pp_release_def)
next
  case (Some d)
  obtain pp1 s1 where 1: "(if \<not> claimed pp \<and> pf_pdev pp \<noteq> None \<and> fst (pf_state pp) \<noteq> MODE_COMPAT then
           with_pdev pp s (\<lambda>d. Option.bind (sunix_parport_claim_or_block (sc_preempt env) (sc_sleep env) d s)
             (\<lambda>(_, s0). Some (swap_in (pp\<lparr>pf_flags := pf_flags pp OR SNX_PP_CLAIMED\<rparr>) s0)))
         else Some (pp, s)) = Some (pp1, s1)" "session s0 ds n pp1 s1" "pf_pdev pp1 = Some d"
    using session_reclaim [OF s Some] by blast
  obtain s2 where 2: "(if claimed pp1 then with_pdev pp1 s1 (\<lambda>d. sunix_parport_release (sc_preempt env) (sc_wakeup env) d (snd (swap_out pp1 s1)))
      else Some s1) = Some s2" "core s1 s2" "pt_cad (sh_port s2) = None" "port_info s2 = port_info s0"
    using session_unclaim [OF 1(2,3), of env] by blast
  have "snx_pp_release env pp s = sunix_parport_unregister_device (sc_preempt env) (sc_wakeup env) d s2"
    unfolding snx_pp_release_def 1(1) by (simp add: 2(1) 1(3))
  then show ?thesis using session_unregister [OF 1(2,3) 2(2-4)] by simp
qed

text \<open>
  C8. Closing a file undoes what was done through it. Whatever ioctls were made on a freshly opened
  file, with whatever failing allocations and bad user addresses, none of them crashes or hangs, and
  after the close the port has the same devices on its list (the file's own is gone), no owner and no
  waiters, and the same 1284 mode and exclusive flag as when the file was opened. Its reference count
  is the old one plus one for each PPGETMODES on it: that ioctl never gives its reference back. The
  port is idle when the file is opened, its minor number has an entry in the driver's port table, and
  the allocator returns addresses that are not in use.
\<close>

theorem closing_undoes_session:
  assumes "lists_ok s0 [] ds" and "pt_cad (sh_port s0) = None"
    and "snx_pp_open port_max ka0 minor junk = Inr pp0"
    and "\<And>ka cmd. (ka, cmd) \<in> set calls \<Longrightarrow> ka_addr ka \<notin> set ds" and "unat (minor - 2) < length tab"
  shows "\<exists>pp s s'. pp_session env tab minor calls pp0 s0 = Some (pp, s) \<and> snx_pp_release env pp s = Some s'
    \<and> lists_ok s' [] ds \<and> pt_cad (sh_port s') = None
    \<and> port_info s' = port_info s0 \<and> pt_flags (sh_port s') = pt_flags (sh_port s0)
    \<and> pt_ref_count (sh_port s') = pt_ref_count (sh_port s0) + (\<Sum>(ka, cmd) \<leftarrow> calls. leaks s0 minor cmd)"
proof -
  have "pf_pdev pp0 = None" "\<not> claimed pp0" using assms(3) by (auto simp: snx_pp_open_def claimed_def split: if_splits)
  then have "session s0 ds 0 pp0 s0" using assms(1,2) by (simp add: session_def)
  then obtain pp s where
    r: "pp_session env tab minor calls pp0 s0 = Some (pp, s)" "session s0 ds (0 + (\<Sum>(ka, cmd) \<leftarrow> calls. leaks s0 minor cmd)) pp s"
    using session_run [of s0 ds 0 pp0 s0 calls minor tab env] assms(4,5) by blast
  then show ?thesis using session_close [OF r(2), of env] by auto
qed

definition user_answers :: pp_answers where
  "user_answers = \<lparr>ka_name = True, ka_buf = True, ka_dev = True, ka_state = True, ka_addr = 7, ka_from_user = True,
     ka_to_user = True, ka_timeslice = 20\<rparr>"

definition junk_file :: snx_pp_struct where
  "junk_file = \<lparr>pf_pdev = Some 99, pf_irqc = 5, pf_flags = 1, pf_irqresponse = True, pf_irqctl = 3, pf_state = (1, 1),
     pf_saved_state = (1, 1), pf_default_inactivity = 0\<rparr>"

theorem closing_undoes_session_witness:
  "\<exists>pp0 pp s s'. snx_pp_open 256 user_answers 2 junk_file = Inr pp0
    \<and> pp_session plain_sched (replicate 4 zero_par_port) 2
        [(user_answers, PPEXCL), (user_answers, PPCLAIM), (user_answers, PPSETMODE 64), (user_answers, PPGETMODES),
         (user_answers, PPWDATA 0x55), (user_answers, PPRELEASE)] pp0 empty_share = Some (pp, s)
    \<and> snx_pp_release plain_sched pp s = Some s' \<and> port_info s' = (256, 1) \<and> pt_ref_count (sh_port s') = 2"
proof -
  obtain pp0 where o: "snx_pp_open 256 user_answers 2 junk_file = Inr pp0" by (simp add: snx_pp_open_def user_answers_def)
  have "lists_ok empty_share [] []" "pt_cad (sh_port empty_share) = None" "port_info empty_share = (256, 1)"
    "pt_ref_count (sh_port empty_share) = 1" "is_port 2 empty_share"
    using empty_share_ok by (simp_all add: share_ok_def empty_share_def example_par_def port_info_def is_port_def)
  then show ?thesis
    using closing_undoes_session [of empty_share "[]" 256 user_answers 2 junk_file pp0
        "[(user_answers, PPEXCL), (user_answers, PPCLAIM), (user_answers, PPSETMODE 64), (user_answers, PPGETMODES),
          (user_answers, PPWDATA 0x55), (user_answers, PPRELEASE)]" "replicate 4 zero_par_port" plain_sched] o
    by (auto simp: leaks_def)
qed

section \<open>The time-out\<close>

lemma long_small: "- (2 ^ 63) \<le> i \<Longrightarrow> i < 2 ^ 63 \<Longrightarrow> long i = i"
  by (simp add: long_def signed_of_int signed_take_bit_int_eq_self)

lemma sdiv_nonneg: "0 \<le> a \<Longrightarrow> 0 < b \<Longrightarrow> a sdiv b = a div (b :: int)"
  by (cases "a = 0") (simp_all add: signed_divide_int_def)

lemma ceil_div:
  assumes "0 < (q :: int)"
  shows "u \<le> (u + q - 1) div q * q" and "(u + q - 1) div q * q < u + q"
  using assms div_mult_mod_eq [of "u + q - 1" q] pos_mod_bound [of q "u + q - 1"] pos_mod_sign [of q "u + q - 1"] by linarith+

lemma div_le_dividend_int: "0 \<le> a \<Longrightarrow> 0 < q \<Longrightarrow> a div q \<le> (a :: int)"
  using zdiv_mono2 [of a 1 q] by simp

text \<open>The jiffies PPSETTIME computes, and what PPGETTIME makes of them, without wrap-around.\<close>

lemma settime_jiffies:
  assumes HZ: "0 < HZ" "HZ dvd 1000000" and n: "0 \<le> sec" "0 \<le> usec" and lim: "sec * HZ + usec < 2 ^ 62"
  defines "q \<equiv> 1000000 div HZ"
  shows "long (SNX_ROUND_UP usec (1000000 sdiv HZ) + long (sec * HZ)) = (usec + q - 1) div q + sec * HZ"
proof -
  have q: "HZ * q = 1000000" "0 < q" using HZ by (auto simp: q_def pos_imp_zdiv_pos_iff zdvd_imp_le)
  then have "q \<le> 1000000" using HZ mult_right_mono [of 1 HZ q] by linarith
  note q = q this
  have m: "0 \<le> sec * HZ" using n HZ by simp
  have c: "0 \<le> (usec + q - 1) div q" "(usec + q - 1) div q \<le> usec + q - 1"
    using n q div_le_dividend_int [of "usec + q - 1" q] by (simp_all add: pos_imp_zdiv_nonneg_iff)
  have "1000000 sdiv HZ = q" using HZ by (simp add: q_def sdiv_nonneg)
  moreover have "long (sec * HZ) = sec * HZ" using m lim n by (intro long_small; simp)
  moreover have "long (usec + q - 1) = usec + q - 1" using m lim n q by (intro long_small; simp)
  moreover have "long ((usec + q - 1) div q + sec * HZ) = (usec + q - 1) div q + sec * HZ"
    using m c lim q by (intro long_small; simp)
  ultimately show ?thesis using q n by (simp add: SNX_ROUND_UP_def sdiv_nonneg)
qed

text \<open>
  PPSETTIME and PPGETTIME are inverse up to one clock tick: when the ticks divide a second into
  whole microseconds, any positive time whose jiffies fit in a long is accepted, and what is read back
  is a proper seconds/microseconds pair, never shorter than the time set and less than a tick longer.
\<close>

theorem settime_gettime:
  assumes "0 < HZ" and "HZ dvd 1000000" and "0 \<le> sec" and "0 \<le> usec" and "0 < sec + usec"
    and "sec * HZ + usec < 2 ^ 62" and "sh_devs s d = Some v" and "ka_from_user ka" and "ka_to_user ka"
  shows "\<exists>s1 sec' usec'. pp_settime HZ ka sec usec d pp s = Some (0, No_out, pp, s1)
    \<and> pp_gettime HZ ka d pp s1 = Some (0, Out_time sec' usec', pp, s1) \<and> 0 \<le> usec' \<and> usec' < 1000000
    \<and> sec * 1000000 + usec \<le> sec' * 1000000 + usec' \<and> sec' * 1000000 + usec' < sec * 1000000 + usec + 1000000 div HZ"
proof -
  define q where "q = 1000000 div HZ"
  have q: "HZ * q = 1000000" "0 < q" using assms(1,2) by (auto simp: q_def pos_imp_zdiv_pos_iff zdvd_imp_le)
  define j where "j = (usec + q - 1) div q + sec * HZ"
  note C = ceil_div [OF q(2), of usec]
  have jq: "j * q = (usec + q - 1) div q * q + sec * 1000000" using q(1) by (simp add: j_def algebra_simps)
  have "0 < j * q" using C(1) jq assms(3-5) by linarith
  then have pos: "0 < j" using q(2) by (simp add: zero_less_mult_iff)
  have jif: "long (SNX_ROUND_UP usec (1000000 sdiv HZ) + long (sec * HZ)) = j"
    using settime_jiffies [OF assms(1-4,6)] by (simp add: j_def q_def)
  have m: "0 \<le> j mod HZ * q" "j mod HZ * q < 1000000"
    using assms(1) q pos_mod_bound [of HZ j] mult_strict_right_mono [of "j mod HZ" HZ q] by auto
  have e: "j sdiv HZ = j div HZ" "long ((j smod HZ) * (1000000 sdiv HZ)) = j mod HZ * q"
    using pos assms(1) m by (simp_all add: signed_divide_int_def signed_modulo_int_def q_def long_small)
  have sum: "j div HZ * 1000000 + j mod HZ * q = j * q"
    using q(1) div_mult_mod_eq [of j HZ] by (metis distrib_right mult.assoc)
  have "pp_settime HZ ka sec usec d pp s = Some (0, No_out, pp, s\<lparr>sh_devs := (sh_devs s)(d \<mapsto> v\<lparr>pd_timeout := j\<rparr>)\<rparr>)"
    using assms(3,4,7,8) pos jif by (simp add: pp_settime_def from_user_def upd_dev_Some ret_val_def)
  moreover have "pp_gettime HZ ka d pp (s\<lparr>sh_devs := (sh_devs s)(d \<mapsto> v\<lparr>pd_timeout := j\<rparr>)\<rparr>)
      = Some (0, Out_time (j div HZ) (j mod HZ * q), pp, s\<lparr>sh_devs := (sh_devs s)(d \<mapsto> v\<lparr>pd_timeout := j\<rparr>)\<rparr>)"
    using assms(9) e by (simp add: pp_gettime_def to_user_def Let_def)
  moreover have "sec * 1000000 + usec \<le> j div HZ * 1000000 + j mod HZ * q"
    "j div HZ * 1000000 + j mod HZ * q < sec * 1000000 + usec + q" using sum jq C by linarith+
  ultimately show ?thesis using m unfolding q_def [symmetric] by blast
qed

theorem settime_gettime_witness:
  "\<exists>s1 sec' usec'. pp_settime 100 user_answers 1 1 1 junk_file lone_owner = Some (0, No_out, junk_file, s1)
    \<and> pp_gettime 100 user_answers 1 junk_file s1 = Some (0, Out_time sec' usec', junk_file, s1)
    \<and> 1000001 \<le> sec' * 1000000 + usec' \<and> sec' * 1000000 + usec' < 1010001"
proof -
  have "sh_devs lone_owner 1 = Some lone_device" by (simp add: lone_owner_def)
  then show ?thesis
    using settime_gettime [of 100 1 1 lone_owner 1 lone_device user_answers junk_file] by (fastforce simp: user_answers_def)
qed

end
