(* ===== verification/Snx_Lp.thy ===== *)
theory Snx_Lp
  imports Snx_Ppdev
begin

text \<open>
  The line printer driver on a parallel port (driver/snx_lp.c): claiming with the preempt request, the
  status of the printer, opening, writing and releasing the device, and the registration of the printers.
  \<open>None\<close> is a NULL \<^verbatim>\<open>dev\<close>, or a loop that never ends: a blocking write waits for the printer as long as
  it takes. \<open>snx_lp_ioctl\<close> and \<open>snx_lp_read\<close> are not compiled for the kernels modelled.
\<close>

section \<open>The line printer\<close>

subsection \<open>State\<close>

abbreviation (input) SNX_LP_NO :: nat where "SNX_LP_NO \<equiv> 4"
abbreviation (input) SNX_LP_EXIST :: u64 where "SNX_LP_EXIST \<equiv> 0x0001"
abbreviation (input) SNX_LP_BUSY :: u64 where "SNX_LP_BUSY \<equiv> 0x0004"
abbreviation (input) SNX_LP_ABORT :: u64 where "SNX_LP_ABORT \<equiv> 0x0040"
abbreviation (input) SNX_LP_CAREFUL :: u64 where "SNX_LP_CAREFUL \<equiv> 0x0080"
abbreviation (input) SNX_LP_ABORTOPEN :: u64 where "SNX_LP_ABORTOPEN \<equiv> 0x0100"
abbreviation (input) SNX_LP_POUTPA :: u8 where "SNX_LP_POUTPA \<equiv> 0x20"
abbreviation (input) SNX_LP_PSELECD :: u8 where "SNX_LP_PSELECD \<equiv> 0x10"
abbreviation (input) SNX_LP_PERRORP :: u8 where "SNX_LP_PERRORP \<equiv> 0x08"
abbreviation (input) SNX_LP_PSELECP :: u8 where "SNX_LP_PSELECP \<equiv> 0x08"
abbreviation (input) SNX_LP_PINITP :: u8 where "SNX_LP_PINITP \<equiv> 0x04"
abbreviation (input) SNX_LP_INIT_CHAR :: u32 where "SNX_LP_INIT_CHAR \<equiv> 1000"
abbreviation (input) SNX_LP_INIT_WAIT :: u32 where "SNX_LP_INIT_WAIT \<equiv> 1"
abbreviation (input) SNX_LP_INIT_TIME :: u32 where "SNX_LP_INIT_TIME \<equiv> 2"
abbreviation (input) SNX_LP_BUFFER_SIZE :: nat where "SNX_LP_BUFFER_SIZE \<equiv> 4096"
abbreviation (input) PARPORT_MODE_ECP :: u32 where "PARPORT_MODE_ECP \<equiv> 8"
abbreviation (input) MODE_ECP :: int where "MODE_ECP \<equiv> 16"

text \<open>\<open>lp_preempt_request\<close> and \<open>lp_claimed\<close> are the two bits of \<^verbatim>\<open>bits\<close>; \<open>lp_buffer\<close> says that there is one.\<close>

record snx_lp_struct =
  lp_dev :: "nat option"
  lp_flags :: u64
  lp_chars :: u32
  lp_time :: u32
  lp_wait :: u32
  lp_buffer :: bool
  lp_last_error :: u8
  lp_timeout :: int
  lp_best_mode :: int
  lp_current_mode :: int
  lp_preempt_request :: bool
  lp_claimed :: bool

text \<open>A port and the printer on it.\<close>

record lp_share = share +
  sh_lp :: snx_lp_struct

type_synonym lp_sched = "unit lp_share_ext sched"

definition upd_lp :: "(snx_lp_struct \<Rightarrow> snx_lp_struct) \<Rightarrow> lp_share \<Rightarrow> lp_share" where
  "upd_lp f s = s\<lparr>sh_lp := f (sh_lp s)\<rparr>"

definition lp_has :: "u64 \<Rightarrow> lp_share \<Rightarrow> bool" where
  "lp_has f s \<longleftrightarrow> lp_flags (sh_lp s) AND f \<noteq> 0"

subsection \<open>Claiming the port\<close>

text \<open>What \<^verbatim>\<open>sunix_parport_claim_or_block\<close> answers is ignored, as in the code.\<close>

definition snx_lp_claim_parport_or_block :: "lp_sched \<Rightarrow> lp_share \<Rightarrow> lp_share option" where
  "snx_lp_claim_parport_or_block env s =
    (if lp_claimed (sh_lp s) then Some s
     else
      do {
        d \<leftarrow> lp_dev (sh_lp s);
        (_, s1) \<leftarrow> sunix_parport_claim_or_block (sc_preempt env) (sc_sleep env) d (upd_lp (\<lambda>l. l\<lparr>lp_claimed := True\<rparr>) s);
        Some s1
      })"

definition snx_lp_release_parport :: "lp_sched \<Rightarrow> lp_share \<Rightarrow> lp_share option" where
  "snx_lp_release_parport env s =
    (if \<not> lp_claimed (sh_lp s) then Some s
     else
      do {
        d \<leftarrow> lp_dev (sh_lp s);
        sunix_parport_release (sc_preempt env) (sc_wakeup env) d (upd_lp (\<lambda>l. l\<lparr>lp_claimed := False\<rparr>) s)
      })"

text \<open>The printer refuses to give way, but remembers that it was asked.\<close>

definition snx_lp_preempt :: "unit lp_share_ext preempt_fn" where
  "snx_lp_preempt handle s = (True, upd_lp (\<lambda>l. l\<lparr>lp_preempt_request := True\<rparr>) s)"

definition snx_lp_negotiate :: "int \<Rightarrow> int" where
  "snx_lp_negotiate mode = (if sunix_parport_negotiate mode \<noteq> 0 then MODE_COMPAT else mode)"

definition lp_mode :: "int \<Rightarrow> lp_share \<Rightarrow> lp_share" where
  "lp_mode mode = upd_lp (\<lambda>l. l\<lparr>lp_current_mode := mode\<rparr>)"

text \<open>\<^verbatim>\<open>r_str\<close> and \<^verbatim>\<open>w_ctr\<close>\<close>

definition r_str :: "lp_share \<Rightarrow> u8 \<times> lp_share" where
  "r_str s = on_mach (sunix_parport_pc_read_status (sh_port s)) s"

definition w_ctr :: "u8 \<Rightarrow> lp_share \<Rightarrow> lp_share" where
  "w_ctr v = on_port (sunix_parport_pc_write_control v)"

subsection \<open>The printer's status\<close>

definition snx_lp_reset :: "lp_sched \<Rightarrow> lp_share \<Rightarrow> (u8 \<times> lp_share) option" where
  "snx_lp_reset env s =
    do {
      s1 \<leftarrow> snx_lp_claim_parport_or_block env s;
      (let (retval, s2) = r_str (w_ctr (SNX_LP_PSELECP OR SNX_LP_PINITP) (w_ctr SNX_LP_PSELECP s1))
       in do { s3 \<leftarrow> snx_lp_release_parport env s2; Some (retval, s3) })
    }"

definition snx_lp_error :: "lp_sched \<Rightarrow> lp_share \<Rightarrow> lp_share option" where
  "snx_lp_error env s =
    (if lp_has SNX_LP_ABORT s then Some s
     else
      (let polling = (pt_irq (sh_port s) = PARPORT_IRQ_NONE) in
       do {
         s1 \<leftarrow> (if polling then snx_lp_release_parport env s else Some s);
         (let s2 = schedule_timeout_interruptible env (word_of_int (10 * sc_HZ env)) s1 in
          if polling then snx_lp_claim_parport_or_block env s2
          else
           do {
             d \<leftarrow> lp_dev (sh_lp s2);
             map_option snd (sunix_parport_yield_blocking (sc_preempt env) (sc_wakeup env) (sc_sleep env) d s2)
           })
       }))"

text \<open>The error a status stands for, with the bit remembered as \<^verbatim>\<open>last_error\<close>.\<close>

definition lp_status_error :: "bool \<Rightarrow> u8 \<Rightarrow> u8 \<times> int" where
  "lp_status_error careful status =
    (if status AND SNX_LP_PERRORP \<noteq> 0 \<and> \<not> careful then (0, 0)
     else if status AND SNX_LP_POUTPA \<noteq> 0 then (SNX_LP_POUTPA, - ENOSPC)
     else if status AND SNX_LP_PSELECD = 0 then (SNX_LP_PSELECD, - EIO)
     else if status AND SNX_LP_PERRORP = 0 then (SNX_LP_PERRORP, - EIO)
     else (0, 0))"

definition snx_lp_check_status :: "lp_sched \<Rightarrow> lp_share \<Rightarrow> (int \<times> lp_share) option" where
  "snx_lp_check_status env s =
    (let (status, s1) = r_str s;
         (last, err) = lp_status_error (lp_has SNX_LP_CAREFUL s) status;
         s2 = upd_lp (\<lambda>l. l\<lparr>lp_last_error := last\<rparr>) s1
     in do {
       s3 \<leftarrow> (if last \<noteq> 0 then snx_lp_error env s2 else Some s2);
       Some (err, s3)
     })"

partial_function (option) wait_ready_loop :: "lp_sched \<Rightarrow> bool \<Rightarrow> lp_share \<Rightarrow> (int \<times> lp_share) option" where
  "wait_ready_loop env nonblock s =
    Option.bind (snx_lp_check_status env s) (\<lambda>(err, s1).
      if err \<noteq> 0 \<and> (nonblock \<or> lp_has SNX_LP_ABORT s1) then Some (err, s1)
      else
       (case on_mach signal_pending s1 of (sig, s2) \<Rightarrow>
         if sig then Some (- EINTR, s2)
         else if err \<noteq> 0 then wait_ready_loop env nonblock s2
         else Some (0, s2)))"

definition snx_lp_wait_ready :: "lp_sched \<Rightarrow> bool \<Rightarrow> lp_share \<Rightarrow> (int \<times> lp_share) option" where
  "snx_lp_wait_ready env nonblock s =
    (if lp_current_mode (sh_lp s) \<noteq> MODE_COMPAT then Some (0, s) else wait_ready_loop env nonblock s)"

subsection \<open>Writing\<close>

text \<open>
  \<open>buf\<close> is the user's memory and \<open>readable off n\<close> whether its \<open>n\<close> bytes at \<open>off\<close> can be copied. A round
  of the loop has the chunk of \<open>copy_size\<close> bytes at \<open>off\<close> in the buffer. \<open>Inl\<close> leaves the loop.
\<close>

type_synonym lp_round = "nat \<times> nat \<times> int \<times> lp_share"

definition or_else :: "int \<Rightarrow> int \<Rightarrow> int" where
  "or_else retv e = (if retv = 0 then e else retv)"

definition lp_next_chunk :: "(nat \<Rightarrow> nat \<Rightarrow> bool) \<Rightarrow> nat \<Rightarrow> lp_round \<Rightarrow> (int \<times> lp_share) + lp_round" where
  "lp_next_chunk readable len = (\<lambda>(off, n, retv, s).
    if off < len then
      (let n' = min (len - off) SNX_LP_BUFFER_SIZE in
       if \<not> readable off n' then Inl (or_else retv (- EFAULT), s) else Inr (off, n', retv, s))
    else Inl (retv, s))"

text \<open>What follows a transfer that left \<open>rest\<close> bytes of the chunk.\<close>

definition lp_after_write :: "lp_sched \<Rightarrow> bool \<Rightarrow> nat \<Rightarrow> int \<Rightarrow> lp_share \<Rightarrow> ((int \<times> lp_share) + lp_share) option" where
  "lp_after_write env nonblock rest retv s =
    (case on_mach signal_pending s of (sig, s1) \<Rightarrow>
      if sig then Some (Inl (or_else retv (- EINTR), s1))
      else if rest > 0 then
        do {
          (err, s2) \<leftarrow> snx_lp_wait_ready env nonblock (lp_mode MODE_COMPAT s1);
          (if err \<noteq> 0 then Some (Inl (or_else retv err, s2))
           else if nonblock then Some (Inl (or_else retv (- EAGAIN), s2))
           else
            do {
              d \<leftarrow> lp_dev (sh_lp s2);
              (_, s3) \<leftarrow> sunix_parport_yield_blocking (sc_preempt env) (sc_wakeup env) (sc_sleep env) d s2;
              Some (Inr (lp_mode (snx_lp_negotiate (lp_best_mode (sh_lp s3))) s3))
            })
        }
      else
       (case on_mach need_resched s1 of (resched, s2) \<Rightarrow>
         Some (Inr (if resched then sc_sleep env (s2\<lparr>sh_mach := emit Schedule (sh_mach s2)\<rparr>) else s2))))"

definition lp_round :: "lp_sched \<Rightarrow> bool \<Rightarrow> u8 list \<Rightarrow> (nat \<Rightarrow> nat \<Rightarrow> bool) \<Rightarrow> lp_round \<Rightarrow> ((int \<times> lp_share) + lp_round) option" where
  "lp_round env nonblock buf readable = (\<lambda>(off, n, retv, s).
    do {
      (written, s1) \<leftarrow> sunix_parport_write env (take n (drop off buf)) s;
      r \<leftarrow> lp_after_write env nonblock (n - written) (retv + int written) s1;
      Some (case r of Inl e \<Rightarrow> Inl e
            | Inr s2 \<Rightarrow> lp_next_chunk readable (length buf) (off + written, n - written, retv + int written, s2))
    })"

partial_function (option) lp_write_loop :: "lp_sched \<Rightarrow> bool \<Rightarrow> u8 list \<Rightarrow> (nat \<Rightarrow> nat \<Rightarrow> bool) \<Rightarrow> lp_round \<Rightarrow> (int \<times> lp_share) option" where
  "lp_write_loop env nonblock buf readable st =
    Option.bind (lp_round env nonblock buf readable st) (\<lambda>r.
      case r of Inl e \<Rightarrow> Some e | Inr st1 \<Rightarrow> lp_write_loop env nonblock buf readable st1)"

definition lp_write_end :: "lp_sched \<Rightarrow> lp_share \<Rightarrow> lp_share option" where
  "lp_write_end env s =
    (if lp_preempt_request (sh_lp s)
     then snx_lp_release_parport env (lp_mode MODE_COMPAT (upd_lp (\<lambda>l. l\<lparr>lp_preempt_request := False\<rparr>) s))
     else Some s)"

definition snx_lp_write :: "lp_sched \<Rightarrow> bool \<Rightarrow> bool \<Rightarrow> (nat \<Rightarrow> nat \<Rightarrow> bool) \<Rightarrow> u8 list \<Rightarrow> lp_share \<Rightarrow> (int \<times> lp_share) option" where
  "snx_lp_write env mutex o_nonblock readable buf s =
    do {
      d \<leftarrow> lp_dev (sh_lp s);
      (let nonblock = (o_nonblock \<or> lp_has SNX_LP_ABORT s); n = min (length buf) SNX_LP_BUFFER_SIZE in
       if \<not> mutex then Some (- EINTR, s)
       else if \<not> readable 0 n then Some (- EFAULT, s)
       else
        do {
          s1 \<leftarrow> snx_lp_claim_parport_or_block env s;
          (_, s2) \<leftarrow> sunix_parport_set_timeout d (if nonblock then SNX_PARPORT_INACTIVITY_O_NONBLOCK else lp_timeout (sh_lp s1))
                     (lp_mode (snx_lp_negotiate (lp_best_mode (sh_lp s1))) s1);
          (retv, s3) \<leftarrow> snx_lp_wait_ready env nonblock s2;
          (retv1, s4) \<leftarrow> lp_write_loop env nonblock buf readable (0, n, retv, s3);
          s5 \<leftarrow> lp_write_end env s4;
          Some (retv1, s5)
        })
    }"

subsection \<open>Opening and releasing the device\<close>

definition lp_open_status :: "u8 \<Rightarrow> int" where
  "lp_open_status status =
    (if status AND SNX_LP_POUTPA \<noteq> 0 then - ENOSPC
     else if status AND SNX_LP_PSELECD = 0 then - EIO
     else if status AND SNX_LP_PERRORP = 0 then - EIO
     else 0)"

definition lp_set_flag :: "u64 \<Rightarrow> lp_share \<Rightarrow> lp_share" where
  "lp_set_flag f = upd_lp (\<lambda>l. l\<lparr>lp_flags := lp_flags l OR f\<rparr>)"

definition lp_clear_flag :: "u64 \<Rightarrow> lp_share \<Rightarrow> lp_share" where
  "lp_clear_flag f = upd_lp (\<lambda>l. l\<lparr>lp_flags := lp_flags l AND NOT f\<rparr>)"

definition lp_probe_status :: "lp_sched \<Rightarrow> lp_share \<Rightarrow> (int \<times> lp_share) option" where
  "lp_probe_status env s =
    do {
      s1 \<leftarrow> snx_lp_claim_parport_or_block env s;
      (let (status, s2) = r_str s1
       in do { s3 \<leftarrow> snx_lp_release_parport env s2; Some (lp_open_status status, s3) })
    }"

definition snx_lp_open :: "lp_sched \<Rightarrow> nat \<Rightarrow> bool \<Rightarrow> bool \<Rightarrow> lp_share \<Rightarrow> (int \<times> lp_share) option" where
  "snx_lp_open env minor o_nonblock mem s =
    (if minor \<ge> SNX_LP_NO \<or> \<not> lp_has SNX_LP_EXIST s then Some (- ENXIO, s)
     else if lp_has SNX_LP_BUSY s then Some (- EBUSY, s)
     else
      (let s0 = lp_set_flag SNX_LP_BUSY s in
       do {
         (err, s1) \<leftarrow> (if lp_has SNX_LP_ABORTOPEN s0 \<and> \<not> o_nonblock then lp_probe_status env s0 else Some (0, s0));
         (if err \<noteq> 0 then Some (err, lp_clear_flag SNX_LP_BUSY s1)
          else if \<not> mem then Some (- ENOMEM, lp_clear_flag SNX_LP_BUSY s1)
          else
           do {
             s2 \<leftarrow> snx_lp_claim_parport_or_block env (upd_lp (\<lambda>l. l\<lparr>lp_buffer := True\<rparr>) s1);
             (let best = (if pt_modes (sh_port s2) AND PARPORT_MODE_ECP \<noteq> 0 \<and> sunix_parport_negotiate MODE_ECP = 0
                          then MODE_ECP else MODE_COMPAT)
              in do {
                s3 \<leftarrow> snx_lp_release_parport env (upd_lp (\<lambda>l. l\<lparr>lp_best_mode := best\<rparr>) s2);
                Some (0, lp_mode MODE_COMPAT s3)
              })
           })
       }))"

definition snx_lp_release :: "lp_sched \<Rightarrow> lp_share \<Rightarrow> (int \<times> lp_share) option" where
  "snx_lp_release env s =
    do {
      s1 \<leftarrow> snx_lp_claim_parport_or_block env s;
      s2 \<leftarrow> snx_lp_release_parport env (lp_mode MODE_COMPAT s1);
      Some (0, lp_clear_flag SNX_LP_BUSY (upd_lp (\<lambda>l. l\<lparr>lp_buffer := False\<rparr>) s2))
    }"

subsection \<open>Registering the printers\<close>

text \<open>The entry of \<^verbatim>\<open>snx_lp_table\<close> for a port, by \<^verbatim>\<open>snx_parport_nr\<close>; the ports are numbered from 2.\<close>

definition snx_parport_nr :: "int list" where "snx_parport_nr = [0, 1, 2, 3]"

definition lp_slot :: "int \<Rightarrow> nat option" where
  "lp_slot number = find (\<lambda>i. number = snx_parport_nr ! i) [0..<SNX_LP_NO]"

definition lp_init_entry :: "int \<Rightarrow> snx_lp_struct \<Rightarrow> snx_lp_struct" where
  "lp_init_entry HZ l = l\<lparr>lp_dev := None, lp_flags := 0, lp_chars := SNX_LP_INIT_CHAR, lp_time := SNX_LP_INIT_TIME,
     lp_wait := SNX_LP_INIT_WAIT, lp_buffer := False, lp_last_error := 0, lp_timeout := 10 * HZ\<rparr>"

text \<open>\<open>reset\<close> is the driver's variable, \<open>ka\<close> what the kernel answers to the registration.\<close>

definition snx_lp_register :: "lp_sched \<Rightarrow> pp_answers \<Rightarrow> bool \<Rightarrow> lp_share \<Rightarrow> (int \<times> lp_share) option" where
  "snx_lp_register env ka reset s =
    do {
      (dev, s1) \<leftarrow> sunix_parport_register_device (ka_dev ka) (ka_state ka) (ka_timeslice ka) (sc_HZ env) (ka_addr ka) True False False 0 s;
      (let s2 = upd_lp (\<lambda>l. l\<lparr>lp_dev := dev\<rparr>) s1 in
       if dev = None then Some (1, s2)
       else
        (let s3 = lp_set_flag SNX_LP_EXIST s2 in
         if reset then do { (_, s4) \<leftarrow> snx_lp_reset env s3; Some (0, s4) } else Some (0, s3)))
    }"

definition snx_lp_attach :: "lp_sched \<Rightarrow> pp_answers \<Rightarrow> bool \<Rightarrow> nat \<Rightarrow> lp_share \<Rightarrow> (nat \<times> lp_share) option" where
  "snx_lp_attach env ka reset snx_lp_count s =
    (if lp_slot (pt_number (sh_port s)) = None then Some (snx_lp_count, s)
     else
      do {
        (r, s1) \<leftarrow> snx_lp_register env ka reset s;
        Some (if r = 0 then snx_lp_count + 1 else snx_lp_count, s1)
      })"

text \<open>One round of the loop of \<^verbatim>\<open>sunix_par_lp_exit\<close>.\<close>

definition lp_exit_entry :: "lp_sched \<Rightarrow> lp_share \<Rightarrow> lp_share option" where
  "lp_exit_entry env s =
    (case lp_dev (sh_lp s) of
       None \<Rightarrow> Some s
     | Some d \<Rightarrow> sunix_parport_unregister_device (sc_preempt env) (sc_wakeup env) d s)"

section \<open>The printer's own state\<close>

text \<open>
  What the port functions leave of the printer's state: everything but the preempt request, which another
  task's claim sets.
\<close>

definition kept :: "lp_share \<Rightarrow> lp_share \<Rightarrow> bool" where
  "kept s s' \<longleftrightarrow> (sh_lp s')\<lparr>lp_preempt_request := False\<rparr> = (sh_lp s)\<lparr>lp_preempt_request := False\<rparr>"

definition lp_env :: "lp_sched \<Rightarrow> bool" where
  "lp_env env \<longleftrightarrow> sc_preempt env = snx_lp_preempt \<and> bystander (sc_sleep env) \<and> (\<forall>s. kept s (sc_sleep env s))
     \<and> (\<forall>w s s'. sc_wakeup env w s = Some s' \<longrightarrow> kept s s')"

lemma kept_refl [simp]: "kept s s"
  by (simp add: kept_def)

lemma kept_trans: "kept s s1 \<Longrightarrow> kept s1 s2 \<Longrightarrow> kept s s2"
  by (simp add: kept_def)

lemma kept_lp: "sh_lp s1 = sh_lp s \<Longrightarrow> kept s s1"
  by (simp add: kept_def)

lemma kept_fields:
  assumes "kept s s'"
  shows "lp_dev (sh_lp s') = lp_dev (sh_lp s)" "lp_flags (sh_lp s') = lp_flags (sh_lp s)" "lp_claimed (sh_lp s') = lp_claimed (sh_lp s)"
    "lp_current_mode (sh_lp s') = lp_current_mode (sh_lp s)" "lp_best_mode (sh_lp s') = lp_best_mode (sh_lp s)"
  using assms by (cases "sh_lp s"; cases "sh_lp s'"; simp add: kept_def)+

lemma sh_lp_port [simp]:
  "sh_lp (on_port f s) = sh_lp s" "sh_lp (snd (on_mach g s)) = sh_lp s" "sh_lp (upd_port h s) = sh_lp s"
  "upd_dev d k s = Some s' \<Longrightarrow> sh_lp s' = sh_lp s"
  by (auto simp: on_port_def on_mach_def upd_port_def upd_dev_def split: prod.split option.splits)

lemma on_mach_lp: "on_mach g s = (x, s') \<Longrightarrow> sh_lp s' = sh_lp s"
  by (auto simp: on_mach_def split: prod.splits)

lemma lp_link: "link_wait d s = Some s' \<Longrightarrow> sh_lp s' = sh_lp s"
  by (auto simp: link_wait_def bind_eq_Some_conv split: option.splits)

lemma lp_unlink: "unlink_wait d s = Some s' \<Longrightarrow> sh_lp s' = sh_lp s"
  by (auto simp: unlink_wait_def bind_eq_Some_conv split: option.splits)

lemma lp_blocked: "claim_blocked d s = Some (r, s') \<Longrightarrow> sh_lp s' = sh_lp s"
  by (auto simp: claim_blocked_def bind_eq_Some_conv dest: lp_link split: if_splits)

lemma lp_granted: "claim_granted d s = Some (r, s') \<Longrightarrow> sh_lp s' = sh_lp s"
  by (auto simp: claim_granted_def bind_eq_Some_conv Let_def split_beta dest!: lp_unlink sh_lp_port(4) split: if_splits)

lemma lp_save: "save_into d s = Some s' \<Longrightarrow> sh_lp s' = sh_lp s"
  by (auto simp: save_into_def bind_eq_Some_conv split_beta dest!: sh_lp_port(4))

lemma kept_claim: "sunix_parport_claim snx_lp_preempt d s = Some (r, s') \<Longrightarrow> kept s s'"
  by (auto simp: sunix_parport_claim_def bind_eq_Some_conv snx_lp_preempt_def split: option.splits if_splits dest!: lp_blocked lp_granted)
    (simp_all add: kept_def upd_lp_def)

lemma kept_claim_or_block:
  assumes "lp_env env" and "sunix_parport_claim_or_block (sc_preempt env) (sc_sleep env) d s = Some (r, s')"
  shows "kept s s'"
proof -
  have sl: "kept u (sc_sleep env u)" for u using assms(1) by (simp add: lp_env_def)
  show ?thesis
    using assms
    by (auto simp: sunix_parport_claim_or_block_def lp_env_def bind_eq_Some_conv Let_def signal_pending_def split: if_splits
        dest!: kept_claim sh_lp_port(4)) (use sl in \<open>auto simp: kept_def\<close>)
qed

lemma kept_waiters: "wake_waiters preempt wakeup pd s = Some y \<Longrightarrow> preempt = snx_lp_preempt
    \<Longrightarrow> (\<forall>w s s'. wakeup w s = Some s' \<longrightarrow> kept s s') \<Longrightarrow> kept s (snd y)"
proof (induction preempt wakeup pd s y rule: wake_waiters.raw_induct [rotated -1, consumes 1])
  case (1 f preempt wakeup pd s y)
  show ?case
  proof (cases pd)
    case None
    then show ?thesis using "1.hyps" by auto
  next
    case (Some w)
    then obtain v where v: "sh_devs s w = Some v" using "1.hyps" by (auto simp: bind_eq_Some_conv)
    have rec: "kept s1 (snd y)" if "f preempt wakeup n s1 = Some y" for n s1
      using "1.IH" [OF that] "1.prems" by blast
    show ?thesis using "1.hyps" "1.prems" Some v rec
      by (auto simp: bind_eq_Some_conv split: if_splits dest: kept_claim) (metis kept_trans)+
  qed
qed

lemma kept_lurkers: "wake_lurkers wakeup dev pd s = Some y \<Longrightarrow> (\<forall>w s s'. wakeup w s = Some s' \<longrightarrow> kept s s') \<Longrightarrow> kept s y"
proof (induction wakeup dev pd s y rule: wake_lurkers.raw_induct [rotated -1, consumes 1])
  case (1 f wakeup dev pd s y)
  have rec: "kept s1 y" if "f wakeup dev n s1 = Some y" for n s1 using "1.IH" [OF that] "1.prems" by blast
  show ?case using "1.hyps" "1.prems" rec
    by (auto simp: bind_eq_Some_conv split: if_splits option.splits) (metis kept_trans)+
qed

lemma kept_release:
  assumes "lp_env env" and "sunix_parport_release (sc_preempt env) (sc_wakeup env) d s = Some s'"
  shows "kept s s'"
proof (cases "pt_cad (sh_port s) = Some d")
  case False
  then show ?thesis using assms(2) by (simp add: sunix_parport_release_def)
next
  case True
  then obtain s1 e s2 where 1: "save_into d (upd_port (\<lambda>p. p\<lparr>pt_cad := None\<rparr>) s) = Some s1"
    "wake_waiters (sc_preempt env) (sc_wakeup env) (pt_waithead (sh_port s1)) s1 = Some (e, s2)"
    "(if e then Some s2 else wake_lurkers (sc_wakeup env) d (pt_devices (sh_port s2)) s2) = Some s'"
    using assms(2) by (auto simp: sunix_parport_release_def bind_eq_Some_conv)
  have "kept s s1" using lp_save [OF 1(1)] by (intro kept_lp) simp
  moreover have "kept s1 s2" using kept_waiters [OF 1(2)] assms(1) by (simp add: lp_env_def)
  moreover have "kept s2 s'" using 1(3) assms(1) kept_lurkers by (auto simp: lp_env_def split: if_splits)
  ultimately show ?thesis using kept_trans by blast
qed

lemma kept_yield:
  assumes "lp_env env" and "sunix_parport_yield_blocking (sc_preempt env) (sc_wakeup env) (sc_sleep env) d s = Some (r, s')"
  shows "kept s s'"
proof -
  obtain now m where j: "jiffies (sh_mach s) = (now, m)" by fastforce
  have k: "kept s (s\<lparr>sh_mach := m\<rparr>)" by (rule kept_lp) simp
  show ?thesis
    using assms(2) j k kept_trans [OF k kept_trans [OF kept_release [OF assms(1)] kept_claim_or_block [OF assms(1)]]]
    by (auto simp: sunix_parport_yield_blocking_def bind_eq_Some_conv Let_def split: if_splits)
qed

lemma kept_sleep: "lp_env env \<Longrightarrow> kept s (sc_sleep env (s\<lparr>sh_mach := m\<rparr>))"
  using kept_trans [OF kept_lp [of "s\<lparr>sh_mach := m\<rparr>" s]] by (simp add: lp_env_def)

lemma kept_timeout: "lp_env env \<Longrightarrow> kept s (schedule_timeout_interruptible env n s)"
  by (simp add: schedule_timeout_interruptible_def kept_sleep)

lemma kept_wait_event:
  assumes "lp_env env" and "sunix_parport_wait_event env s = Some (r, s')"
  shows "kept s s'"
proof -
  have "kept s (sc_sleep env s)" using assms(1) by (simp add: lp_env_def)
  then show ?thesis using assms(2)
    by (auto simp: sunix_parport_wait_event_def Let_def split: option.splits if_splits prod.splits)
      (auto simp: kept_def dest!: on_mach_lp)
qed

lemma kept_wait_loop: "wait_loop env deadline msk result s = Some y \<Longrightarrow> lp_env env \<Longrightarrow> kept s (snd y)"
proof (induction env deadline msk result s y rule: wait_loop.raw_induct [rotated -1, consumes 1])
  case (1 f env deadline msk result s y)
  obtain now s1 where 1: "on_mach jiffies s = (now, s1)" by fastforce
  obtain sig s2 where 2: "on_mach signal_pending s1 = (sig, s2)" by fastforce
  have k: "kept s s1" "kept s s2" using on_mach_lp [OF 1] on_mach_lp [OF 2] by (simp_all add: kept_lp)
  have rec: "kept u (snd y)" if "f env deadline msk result u = Some y" for u using "1.IH" [OF that "1.prems"] .
  show ?case
  proof (cases "time_before now deadline \<and> \<not> sig")
    case False
    then show ?thesis using "1.hyps" 1 2 k by (auto split: if_splits)
  next
    case True
    then obtain ret s3 where 3: "sunix_parport_wait_event env s2 = Some (ret, s3)" using "1.hyps" 1 2 by (auto simp: bind_eq_Some_conv)
    obtain st s4 where 4: "on_mach (sunix_parport_pc_read_status (sh_port s3)) s3 = (st, s4)" by fastforce
    have k3: "kept s s3" "kept s s4" using kept_trans [OF k(2) kept_wait_event [OF "1.prems" 3]] on_mach_lp [OF 4] by (simp_all add: kept_def)
    show ?thesis using "1.hyps" 1 2 3 4 True k3 kept_trans [OF k3(2) rec] kept_trans [OF kept_trans [OF k3(2) kept_timeout [OF "1.prems"]] rec]
      by (auto split: if_splits)
  qed
qed

lemma kept_wait_peripheral:
  assumes "lp_env env" and "sunix_parport_wait_peripheral env msk result s = Some (r, s')"
  shows "kept s s'"
proof -
  obtain ret s1 where 1: "sunix_parport_poll_peripheral msk result (if cad_timeout s = Some 0 then 35000 else pt_spintime (sh_port s)) s = (ret, s1)"
    by fastforce
  obtain now s2 where 2: "on_mach jiffies s1 = (now, s2)" by fastforce
  have k: "kept s s1" "kept s s2" using 1 on_mach_lp [OF 2] by (auto simp: kept_lp sunix_parport_poll_peripheral_def dest!: on_mach_lp)
  show ?thesis using assms(2) 1 2 k kept_trans [OF k(2)] kept_wait_loop [OF _ assms(1)]
    by (auto simp: sunix_parport_wait_peripheral_def Let_def split: option.splits if_splits)
qed

lemma kept_pause:
  assumes "lp_env env" and "compat_pause env d lend wait s = Some s'"
  shows "kept s s'"
proof (cases lend)
  case True
  then obtain s1 r where 1: "sunix_parport_release (sc_preempt env) (sc_wakeup env) d s = Some s1"
    "sunix_parport_claim_or_block (sc_preempt env) (sc_sleep env) d (schedule_timeout_interruptible env wait s1) = Some (r, s')"
    using assms(2) by (auto simp: compat_pause_def bind_eq_Some_conv)
  show ?thesis
    using kept_trans [OF kept_release [OF assms(1) 1(1)] kept_trans [OF kept_timeout [OF assms(1)] kept_claim_or_block [OF assms(1) 1(2)]]] .
next
  case False
  then show ?thesis using assms(2) kept_wait_event [OF assms(1)] by (auto simp: compat_pause_def)
qed

lemma kept_compat_wait: "compat_wait env d lend expire wait s = Some y \<Longrightarrow> lp_env env \<Longrightarrow> kept s (snd y)"
proof (induction env d lend expire wait s y rule: compat_wait.raw_induct [rotated -1, consumes 1])
  case (1 f env d lend expire wait s y)
  obtain ret s1 where 1: "sunix_parport_wait_peripheral env (PARPORT_STATUS_ERROR OR PARPORT_STATUS_BUSY)
      (PARPORT_STATUS_ERROR OR PARPORT_STATUS_BUSY) s = Some (ret, s1)"
    using "1.hyps" by (auto simp: bind_eq_Some_conv)
  obtain st s2 where 2: "on_mach (sunix_parport_pc_read_status (sh_port s1)) s1 = (st, s2)" by fastforce
  obtain now s3 where 3: "on_mach jiffies s2 = (now, s3)" by fastforce
  have k: "kept s s1" "kept s s2" "kept s s3"
    using kept_wait_peripheral [OF "1.prems" 1] on_mach_lp [OF 2] on_mach_lp [OF 3] by (simp_all add: kept_def)
  have give: "kept u (snd y)" if "give_up u = Some y" for u using that by (auto simp: give_up_def kept_lp)
  have rec: "kept u (snd y)" if "f env d lend expire w u = Some y" for u w using "1.IH" [OF that "1.prems"] .
  show ?case
  proof (cases "ret = 0 \<or> st AND (PARPORT_STATUS_PAPEROUT OR PARPORT_STATUS_SELECT OR PARPORT_STATUS_ERROR)
            \<noteq> PARPORT_STATUS_SELECT OR PARPORT_STATUS_ERROR \<or> \<not> time_before now expire")
    case True
    then show ?thesis using "1.hyps" 1 2 3 k kept_trans [OF k(3) give] by (auto split: if_splits)
  next
    case False
    then obtain s4 where 4: "compat_pause env d lend wait s3 = Some s4" using "1.hyps" 1 2 3 by (auto simp: bind_eq_Some_conv)
    obtain sig s5 where 5: "on_mach signal_pending s4 = (sig, s5)" by fastforce
    obtain now' s6 where 6: "on_mach jiffies s5 = (now', s6)" by fastforce
    have k6: "kept s s4" "kept s s5" "kept s s6"
      using kept_trans [OF k(3) kept_pause [OF "1.prems" 4]] on_mach_lp [OF 5] on_mach_lp [OF 6] by (simp_all add: kept_def)
    show ?thesis using "1.hyps" 1 2 3 4 5 6 False kept_trans [OF k6(2) give] kept_trans [OF k6(3) give] kept_trans [OF k6(3) rec]
      by (auto split: if_splits)
  qed
qed

lemma kept_compat_yield:
  assumes "lp_env env" and "compat_yield env d expire s = Some s'"
  shows "kept s s'"
proof -
  obtain now s1 where 1: "on_mach jiffies s = (now, s1)" by fastforce
  have k1: "kept s s1" using on_mach_lp [OF 1] by (simp add: kept_lp)
  show ?thesis
  proof (cases "time_before now expire")
    case False
    then show ?thesis using assms(2) 1 k1 by (simp add: compat_yield_def)
  next
    case True
    then obtain y s2 where 2: "sunix_parport_yield_blocking (sc_preempt env) (sc_wakeup env) (sc_sleep env) d s1 = Some (y, s2)"
      using assms(2) 1 by (auto simp: compat_yield_def bind_eq_Some_conv)
    obtain rs s3 where 3: "on_mach need_resched s2 = (rs, s3)" by fastforce
    have k3: "kept s s2" "kept s s3" using kept_trans [OF k1 kept_yield [OF assms(1) 2]] on_mach_lp [OF 3] by (simp_all add: kept_def)
    show ?thesis using assms(2) 1 2 3 True k3 kept_trans [OF k3(2) kept_sleep [OF assms(1)]] by (auto simp: compat_yield_def split: if_splits)
  qed
qed

lemma lp_strobe [simp]: "sh_lp (compat_strobe b s) = sh_lp s"
  by (simp add: compat_strobe_def)

lemma kept_bytes:
  assumes "lp_env env"
  shows "compat_bytes env dev no_irq bs count s = Some (n, s') \<Longrightarrow> kept s s'"
proof (induction bs arbitrary: count s)
  case (Cons b bs)
  then obtain d v where v: "dev = Some d" "sh_devs s d = Some v" by (auto simp: bind_eq_Some_conv)
  obtain now s1 where 1: "on_mach jiffies s = (now, s1)" by fastforce
  obtain ready s2 where 2: "compat_wait env d (count \<noteq> 0 \<and> no_irq) (now + word_of_int (pd_timeout v)) (word_of_int ((sc_HZ env + 99) div 100)) s1
      = Some (ready, s2)" using Cons.prems v 1 by (auto simp: bind_eq_Some_conv Let_def)
  have k: "kept s s2" using kept_trans [OF kept_lp [OF on_mach_lp [OF 1]] kept_compat_wait [OF 2 assms]] by simp
  show ?case
  proof (cases ready)
    case False
    then show ?thesis using Cons.prems v 1 2 k by (simp add: Let_def)
  next
    case True
    then obtain s3 where 3: "compat_yield env d (now + word_of_int (pd_timeout v)) (compat_strobe b s2) = Some s3"
      "compat_bytes env dev no_irq bs (count + 1) s3 = Some (n, s')" using Cons.prems v 1 2 by (auto simp: bind_eq_Some_conv Let_def)
    have "kept s2 s3" using kept_compat_yield [OF assms 3(1)] by (simp add: kept_def)
    then show ?thesis using k Cons.IH [OF 3(2)] kept_trans by blast
  qed
qed simp

lemma kept_write:
  assumes "lp_env env" and "sunix_parport_write env buf s = Some (n, s')"
  shows "kept s s'"
proof (cases "pt_ops (sh_port s)")
  case Dead_ops
  then show ?thesis using assms(2) by (simp add: sunix_parport_write_def)
next
  case Pc_ops
  then obtain s3 s4 where "compat_bytes env (pt_cad (sh_port s)) (pt_irq (sh_port s) = PARPORT_IRQ_NONE) buf 0 s3 = Some (n, s4)"
    "sh_lp s3 = sh_lp s" "sh_lp s' = sh_lp s4"
    using assms(2) by (auto simp: sunix_parport_write_def sunix_parport_ieee1284_write_compat_def Let_def split: if_splits)
  then show ?thesis using kept_bytes [OF assms(1)] by (simp add: kept_def)
qed

section \<open>What a write sends\<close>

lemma upd_lp_share [simp]:
  "sh_port (upd_lp f s) = sh_port s" "sh_devs (upd_lp f s) = sh_devs s" "sh_mach (upd_lp f s) = sh_mach s" "sh_lp (upd_lp f s) = f (sh_lp s)"
  by (simp_all add: upd_lp_def)

lemma upd_lp_calm [simp]:
  "owns d ds (upd_lp f s) = owns d ds s" "calm d ds k s (upd_lp f s') = calm d ds k s s'" "calm d ds k (upd_lp f s) s' = calm d ds k s s'"
  "idle k n s (upd_lp f s') = idle k n s s'" "idle k n (upd_lp f s) s' = idle k n s s'"
proof -
  show o: "owns d ds (upd_lp f s) = owns d ds s" for f s
    using share_ok_cong [of s "[]" ds "upd_lp f s"] share_ok_cong [of "upd_lp f s" "[]" ds s] by (auto simp: owns_def)
  show "calm d ds k s (upd_lp f s') = calm d ds k s s'" "calm d ds k (upd_lp f s) s' = calm d ds k s s'"
    by (simp_all add: calm_def same_patience_def o)
  show "idle k n s (upd_lp f s') = idle k n s s'" "idle k n (upd_lp f s) s' = idle k n s s'" by (simp_all add: idle_def)
qed

text \<open>The printer's device, whether it is claimed, its flags and best mode: what a write does not change.\<close>

definition lp_same :: "lp_share \<Rightarrow> lp_share \<Rightarrow> bool" where
  "lp_same s s' \<longleftrightarrow> lp_dev (sh_lp s') = lp_dev (sh_lp s) \<and> lp_claimed (sh_lp s') = lp_claimed (sh_lp s)
     \<and> lp_flags (sh_lp s') = lp_flags (sh_lp s) \<and> lp_best_mode (sh_lp s') = lp_best_mode (sh_lp s)"

lemma lp_same_trans: "lp_same s s1 \<Longrightarrow> lp_same s1 s2 \<Longrightarrow> lp_same s s2"
  by (simp add: lp_same_def)

lemma kept_same: "kept s s' \<Longrightarrow> lp_same s s'"
  using kept_fields by (simp add: lp_same_def)

definition lp_owns :: "nat \<Rightarrow> nat list \<Rightarrow> lp_share \<Rightarrow> bool" where
  "lp_owns d ds s \<longleftrightarrow> owns d ds s \<and> lp_dev (sh_lp s) = Some d \<and> lp_claimed (sh_lp s)"

definition lp_calm :: "nat \<Rightarrow> nat list \<Rightarrow> lp_share \<Rightarrow> lp_share \<Rightarrow> bool" where
  "lp_calm d ds s s' \<longleftrightarrow> (\<exists>k. calm d ds k s s') \<and> lp_same s s'"

lemma lp_calm_trans: "lp_calm d ds s s1 \<Longrightarrow> lp_calm d ds s1 s2 \<Longrightarrow> lp_calm d ds s s2"
  unfolding lp_calm_def using calm_trans lp_same_trans by blast

lemma lp_calm_owns: "lp_owns d ds s \<Longrightarrow> lp_calm d ds s s' \<Longrightarrow> lp_owns d ds s'"
  by (auto simp: lp_owns_def lp_calm_def lp_same_def dest: calm_owns)

lemma lp_calm_idle: "idle k n s s' \<Longrightarrow> kept s s' \<Longrightarrow> lp_owns d ds s \<Longrightarrow> lp_calm d ds s s'"
  using idle_calm [of k n s s' d ds] kept_same [of s s'] by (auto simp: lp_calm_def lp_owns_def)

lemma owns_no_waiter: "owns d ds s \<Longrightarrow> pt_waithead (sh_port s) = None"
  using dllD(2) [of "wnx s"] by (auto simp: owns_def share_ok_def lists_ok_def wait_list_def)

lemma error_calm:
  assumes env: "lp_env env" and own: "lp_owns d ds s"
  shows "\<exists>s'. snx_lp_error env s = Some s' \<and> lp_calm d ds s s'"
proof (cases "lp_has SNX_LP_ABORT s")
  case True
  have "lp_calm d ds s s" by (rule lp_calm_idle [OF idle_refl [of 0 0 s] kept_refl own])
  then show ?thesis using True by (simp add: snx_lp_error_def)
next
  case False
  have bst: "bystander (sc_sleep env)" using env by (simp add: lp_env_def)
  have o: "owns d ds s" "lp_dev (sh_lp s) = Some d" "lp_claimed (sh_lp s)" using own by (simp_all add: lp_owns_def)
  let ?n = "10 * word_of_int (sc_HZ env) :: u64"
  show ?thesis
  proof (cases "pt_irq (sh_port s) = PARPORT_IRQ_NONE")
    case True
    let ?s = "upd_lp (\<lambda>l. l\<lparr>lp_claimed := False\<rparr>) s"
    have "owns d ds ?s" using o(1) by simp
    from lend_calm [OF this, of "sc_preempt env" "sc_wakeup env" "sc_sleep env"] obtain s1 where
      1: "sunix_parport_release (sc_preempt env) (sc_wakeup env) d ?s = Some s1"
      "\<And>s2. idle 0 0 s1 s2 \<Longrightarrow> \<exists>s'. sunix_parport_claim_or_block (sc_preempt env) (sc_sleep env) d s2 = Some (0, s') \<and> calm d ds 1 ?s s'"
      by blast
    define s2 where "s2 = schedule_timeout_interruptible env ?n s1"
    have k: "kept ?s s2" using kept_trans [OF kept_release [OF env 1(1)] kept_timeout [OF env]] by (simp add: s2_def)
    let ?s2 = "upd_lp (\<lambda>l. l\<lparr>lp_claimed := True\<rparr>) s2"
    have "idle 0 0 s1 ?s2" using idle_sleep [OF bst] by (simp add: s2_def)
    then obtain s' where s': "sunix_parport_claim_or_block (sc_preempt env) (sc_sleep env) d ?s2 = Some (0, s')" "calm d ds 1 s s'"
      using 1(2) by fastforce
    have "kept ?s2 s'" using kept_claim_or_block [OF env s'(1)] .
    then have "lp_same s s'" using kept_same k o(3) by (fastforce simp: lp_same_def)
    moreover have "snx_lp_error env s = Some s'"
      using False True o 1(1) s'(1) kept_fields(1,3) [OF k]
      by (simp add: snx_lp_error_def snx_lp_release_parport_def snx_lp_claim_parport_or_block_def Let_def flip: s2_def)
    ultimately show ?thesis using s'(2) by (auto simp: lp_calm_def)
  next
    case irq: False
    define s2 where "s2 = schedule_timeout_interruptible env ?n s"
    have c2: "lp_calm d ds s s2" using lp_calm_idle [OF idle_sleep [OF bst] kept_timeout [OF env] own] by (simp add: s2_def)
    note o2 = lp_calm_owns [OF own c2]
    have "owns d ds s2" using o2 by (simp add: lp_owns_def)
    then obtain v where v: "sh_devs s2 d = Some v" using lists_ok_dev [of s2 "[]" ds d] by (auto simp: owns_def share_ok_def)
    obtain now m where j: "jiffies (sh_mach s2) = (now, m)" by fastforce
    have y: "sunix_parport_yield_blocking (sc_preempt env) (sc_wakeup env) (sc_sleep env) d s2 = Some (0, s2\<lparr>sh_mach := m\<rparr>)"
      using v j owns_no_waiter [OF \<open>owns d ds s2\<close>] by (simp add: sunix_parport_yield_blocking_def)
    have "idle 1 0 s2 (s2\<lparr>sh_mach := m\<rparr>)" using idle_events(5) [of s2 now "s2\<lparr>sh_mach := m\<rparr>"] j by (simp add: on_mach_Some)
    then have "lp_calm d ds s2 (s2\<lparr>sh_mach := m\<rparr>)" using lp_calm_idle [OF _ kept_lp o2] by simp
    then show ?thesis using lp_calm_trans [OF c2] y False irq o2
      by (auto simp: snx_lp_error_def lp_owns_def simp flip: s2_def)
  qed
qed

definition lp_errors :: "int set" where "lp_errors = {- EIO, - ENOSPC, - EINTR}"

lemma check_status_calm:
  assumes env: "lp_env env" and own: "lp_owns d ds s"
  shows "\<exists>e s'. snx_lp_check_status env s = Some (e, s') \<and> lp_calm d ds s s' \<and> e \<in> insert 0 lp_errors"
proof -
  obtain st s1 where 1: "r_str s = (st, s1)" by fastforce
  have r: "on_mach (sunix_parport_pc_read_status (sh_port s)) s = (st, s1)" using 1 by (simp add: r_str_def)
  have c1: "lp_calm d ds s s1" by (rule lp_calm_idle [OF idle_events(6) [OF r] kept_lp [OF on_mach_lp [OF r]] own])
  obtain last e where e: "lp_status_error (lp_has SNX_LP_CAREFUL s) st = (last, e)" by fastforce
  define s2 where "s2 = upd_lp (\<lambda>l. l\<lparr>lp_last_error := last\<rparr>) s1"
  have c2: "lp_calm d ds s s2" using c1 by (simp add: lp_calm_def lp_same_def s2_def)
  have st2: "snx_lp_check_status env s
      = Option.bind (if last \<noteq> 0 then snx_lp_error env s2 else Some s2) (\<lambda>s3. Some (e, s3))"
    unfolding snx_lp_check_status_def 1 e s2_def by (simp add: e)
  obtain s3 where 3: "snx_lp_error env s2 = Some s3" "lp_calm d ds s2 s3"
    using error_calm [OF env lp_calm_owns [OF own c2]] by blast
  have "e \<in> insert 0 lp_errors" using e by (auto simp: lp_status_error_def lp_errors_def split: if_splits)
  then show ?thesis using st2 3(1) c2 lp_calm_trans [OF c2 3(2)] by (cases "last = 0") simp_all
qed

lemma wait_ready_calm:
  assumes env: "lp_env env" and own: "lp_owns d ds s"
  shows "\<exists>e s'. snx_lp_wait_ready env True s = Some (e, s') \<and> lp_calm d ds s s' \<and> e \<in> insert 0 lp_errors"
proof (cases "lp_current_mode (sh_lp s) = MODE_COMPAT")
  case False
  have "lp_calm d ds s s" by (rule lp_calm_idle [OF idle_refl [of 0 0 s] kept_refl own])
  then show ?thesis using False by (simp add: snx_lp_wait_ready_def)
next
  case True
  obtain e s1 where 1: "snx_lp_check_status env s = Some (e, s1)" "lp_calm d ds s s1" "e \<in> insert 0 lp_errors"
    using check_status_calm [OF env own] by blast
  obtain sig s2 where 2: "on_mach signal_pending s1 = (sig, s2)" by fastforce
  have "lp_calm d ds s s2"
    using lp_calm_trans [OF 1(2) lp_calm_idle [OF idle_events(1) [OF 2] kept_lp [OF on_mach_lp [OF 2]] lp_calm_owns [OF own 1(2)]]] .
  then show ?thesis using True 1 2 by (auto simp: snx_lp_wait_ready_def wait_ready_loop.simps lp_errors_def)
qed

lemma lp_calm_mode: "lp_calm d ds s (lp_mode x s') = lp_calm d ds s s'" "lp_owns d ds (lp_mode x s) = lp_owns d ds s"
  by (simp_all add: lp_calm_def lp_mode_def lp_same_def lp_owns_def)

lemma set_timeout_calm:
  assumes "lp_owns d ds s"
  shows "\<exists>t s'. sunix_parport_set_timeout d x s = Some (t, s') \<and> lp_owns d ds s' \<and> lp_same s s'
    \<and> map_option pd_timeout (sh_devs s' d) = Some x \<and> port_frame (sh_port s) (sh_port s')
    \<and> (\<exists>us. ran (sh_mach s) us (sh_mach s') \<and> noise (sh_port s) us)"
proof -
  have o: "share_ok s [] ds" "pt_cad (sh_port s) = Some d" "strobe_low (sh_port s)" using assms by (simp_all add: lp_owns_def owns_def)
  have d: "d \<in> set ds" and l: "lists_ok s [] ds" using o by (auto simp: share_ok_def)
  obtain v where v: "sh_devs s d = Some v" "dev_ok [] d v" using lists_ok_dev [OF l d] by blast
  let ?s' = "s\<lparr>sh_devs := (sh_devs s)(d \<mapsto> v\<lparr>pd_timeout := x\<rparr>), sh_mach := emit UpIrq (sh_mach s)\<rparr>"
  have "sunix_parport_set_timeout d x s = Some (pd_timeout v, ?s')"
    using v(1) o(2) by (simp add: sunix_parport_set_timeout_def upd_dev_def sunix_parport_ieee1284_wakeup_def)
  moreover have "lists_ok ?s' [] ds"
    by (rule lists_ok_touch [OF l v(1), where f = "\<lambda>v. v\<lparr>pd_timeout := x\<rparr>"]) (use v(2) in \<open>auto simp: dev_ok_def\<close>)
  then have "lp_owns d ds ?s'" using assms d o by (simp add: lp_owns_def owns_def share_ok_def)
  moreover have "ran (sh_mach s) [UpIrq] (sh_mach ?s')" "noise (sh_port s) [UpIrq]" by (simp_all add: ran_kernel)
  ultimately show ?thesis by (auto simp: lp_same_def port_frame_def)
qed

lemma lp_ran:
  assumes "lp_calm d ds s s'"
  obtains us where "ran (sh_mach s) us (sh_mach s')" "delivers (sh_port s) us []" "port_frame (sh_port s) (sh_port s')"
  using assms noise_delivers unfolding lp_calm_def calm_def by blast

text \<open>The end of a write gives the port up when another task has asked for it.\<close>

lemma write_end_calm:
  assumes env: "lp_env env" and own: "lp_owns d ds s"
  shows "\<exists>s' us. lp_write_end env s = Some s' \<and> ran (sh_mach s) us (sh_mach s') \<and> delivers (sh_port s) us []
    \<and> (if lp_claimed (sh_lp s') then lp_owns d ds s' else pt_cad (sh_port s') = None)"
proof (cases "lp_preempt_request (sh_lp s)")
  case False
  have "delivers (sh_port s) [] []" by (rule noise_delivers) simp
  then show ?thesis using False own ran_refl by (intro exI [of _ s] exI [of _ "[]"]) (simp add: lp_write_end_def lp_owns_def)
next
  case True
  let ?s = "upd_lp (\<lambda>l. l\<lparr>lp_claimed := False\<rparr>) (lp_mode MODE_COMPAT (upd_lp (\<lambda>l. l\<lparr>lp_preempt_request := False\<rparr>) s))"
  have "owns d ds ?s" using own by (simp add: lp_owns_def lp_mode_def)
  from lend_calm [OF this, of "sc_preempt env" "sc_wakeup env" "sc_sleep env"] obtain s1 us where
    1: "sunix_parport_release (sc_preempt env) (sc_wakeup env) d ?s = Some s1" "pt_cad (sh_port s1) = None"
      "ran (sh_mach s) us (sh_mach s1)" "noise (sh_port s) us" by (auto simp: lp_mode_def)
  have "\<not> lp_claimed (sh_lp s1)" using kept_fields(3) [OF kept_release [OF env 1(1)]] by simp
  moreover have "lp_write_end env s = Some s1"
    using True own 1(1) by (simp add: lp_write_end_def snx_lp_release_parport_def lp_owns_def lp_mode_def)
  ultimately show ?thesis using 1(2,3) noise_delivers [OF 1(4)] by auto
qed

text \<open>A printer that owns the port, on a live port, whose clock advances.\<close>

definition lp_ready :: "lp_sched \<Rightarrow> nat \<Rightarrow> nat list \<Rightarrow> int \<Rightarrow> nat \<Rightarrow> lp_share \<Rightarrow> bool" where
  "lp_ready env d ds t N s \<longleftrightarrow> lp_owns d ds s \<and> pt_ops (sh_port s) = Pc_ops \<and> map_option pd_timeout (sh_devs s d) = Some t
     \<and> clock_ok (wait_ticks env) N (sh_mach s) \<and> clock_ok (word_of_int t) N (sh_mach s)"

text \<open>A stretch in which the peripheral receives \<open>bs\<close>.\<close>

definition sends :: "lp_share \<Rightarrow> u8 list \<Rightarrow> lp_share \<Rightarrow> bool" where
  "sends s bs s' \<longleftrightarrow> port_frame (sh_port s) (sh_port s')
     \<and> (\<exists>us. ran (sh_mach s) us (sh_mach s') \<and> delivers (sh_port s) us bs)"

lemma sends_trans: "sends s as s1 \<Longrightarrow> sends s1 bs s2 \<Longrightarrow> sends s (as @ bs) s2"
proof -
  assume a: "sends s as s1" and b: "sends s1 bs s2"
  obtain us where us: "ran (sh_mach s) us (sh_mach s1)" "delivers (sh_port s) us as" using a unfolding sends_def by blast
  obtain vs where vs: "ran (sh_mach s1) vs (sh_mach s2)" "delivers (sh_port s1) vs bs" using b unfolding sends_def by blast
  have f: "port_frame (sh_port s) (sh_port s1)" "port_frame (sh_port s1) (sh_port s2)" using a b by (simp_all add: sends_def)
  have "delivers (sh_port s) vs bs" using vs(2) port_frame_regs(7) [OF f(1)] by simp
  then have "delivers (sh_port s) (us @ vs) (as @ bs)" by (rule delivers_append [OF us(2)])
  moreover have "port_frame (sh_port s) (sh_port s2)" using f by (simp add: port_frame_def)
  ultimately show "sends s (as @ bs) s2" using ran_trans [OF us(1) vs(1)] unfolding sends_def by blast
qed

lemma calm_sends: "lp_calm d ds s s' \<Longrightarrow> sends s [] s'"
  unfolding sends_def by (erule lp_ran) blast

lemma lp_ready_calm: "lp_ready env d ds t N s \<Longrightarrow> lp_calm d ds s s' \<Longrightarrow> lp_ready env d ds t N s'"
proof -
  assume r: "lp_ready env d ds t N s" and c: "lp_calm d ds s s'"
  obtain k where k: "calm d ds k s s'" using c by (auto simp: lp_calm_def)
  have "pt_ops (sh_port s') = pt_ops (sh_port s)" using k by (simp add: calm_def port_frame_def)
  moreover have "lp_owns d ds s'" using r lp_calm_owns [OF _ c] by (simp add: lp_ready_def)
  ultimately show ?thesis using r calm_keeps [OF k] by (simp add: lp_ready_def)
qed

lemma lp_calm_events:
  assumes "lp_owns d ds s"
  shows "on_mach signal_pending s = (b, s1) \<Longrightarrow> lp_calm d ds s s1" "on_mach need_resched s = (b, s1) \<Longrightarrow> lp_calm d ds s s1"
proof -
  show "lp_calm d ds s s1" if x: "on_mach signal_pending s = (b, s1)"
    by (rule lp_calm_idle [OF idle_events(1) [OF x] kept_lp [OF on_mach_lp [OF x]] assms])
  show "lp_calm d ds s s1" if x: "on_mach need_resched s = (b, s1)"
    by (rule lp_calm_idle [OF idle_events(2) [OF x] kept_lp [OF on_mach_lp [OF x]] assms])
qed

lemma write_ready:
  assumes "lp_env env" and "lp_ready env d ds t N s"
  shows "\<exists>n s'. sunix_parport_write env buf s = Some (n, s') \<and> n \<le> length buf \<and> sends s (take n buf) s' \<and> lp_ready env d ds t N s'"
proof -
  have r: "owns d ds s" "pt_ops (sh_port s) = Pc_ops" "clock_ok (wait_ticks env) N (sh_mach s)" using assms(2) by (simp_all add: lp_ready_def lp_owns_def)
  obtain v where v: "sh_devs s d = Some v" "pd_timeout v = t" using assms(2) by (auto simp: lp_ready_def)
  have "bystander (sc_sleep env)" "clock_ok (word_of_int (pd_timeout v)) N (sh_mach s)" using assms v by (simp_all add: lp_env_def lp_ready_def)
  from write_compat_ends [OF r(1) this(1) v(1) r(3) this(2), of buf] obtain n s' us where
    w: "sunix_parport_write env buf s = Some (n, s')" "n \<le> length buf" "ran (sh_mach s) us (sh_mach s')" "delivers (sh_port s) us (take n buf)"
      "port_frame (sh_port s) (sh_port s')" "owns d ds s'" "same_patience d s s'"
    using r(2) by (auto simp: sunix_parport_write_def)
  have "lp_same s s'" using kept_same [OF kept_write [OF assms(1) w(1)]] .
  then have "lp_ready env d ds t N s'" using assms(2) w(5-7) ran_oracles(2) [OF w(3)]
    by (auto simp: lp_ready_def lp_owns_def lp_same_def port_frame_def same_patience_def clock_ok_def)
  then show ?thesis using w by (auto simp: sends_def)
qed

text \<open>Between two transfers of a non-blocking write: a signal, a status error, "try again", or on to the next chunk.\<close>

lemma after_write_nonblock:
  assumes env: "lp_env env" and own: "lp_owns d ds s"
  shows "\<exists>x s'. lp_calm d ds s s' \<and> (lp_after_write env True rest retv s = Some (Inl (or_else retv x, s')) \<and> x \<in> {- EAGAIN} \<union> lp_errors
      \<or> rest = 0 \<and> lp_after_write env True rest retv s = Some (Inr s'))"
proof -
  obtain sig s1 where 1: "on_mach signal_pending s = (sig, s1)" by fastforce
  have c1: "lp_calm d ds s s1" by (rule lp_calm_events(1) [OF own 1])
  note o1 = lp_calm_owns [OF own c1]
  consider "sig" | "\<not> sig" "0 < rest" | "\<not> sig" "rest = 0" by blast
  then show ?thesis
  proof cases
    case 1
    then show ?thesis using c1 \<open>on_mach signal_pending s = (sig, s1)\<close> by (auto simp: lp_after_write_def lp_errors_def)
  next
    case 2
    have "lp_owns d ds (lp_mode MODE_COMPAT s1)" using o1 by (simp add: lp_calm_mode)
    from wait_ready_calm [OF env this] obtain e s2 where
      e: "snx_lp_wait_ready env True (lp_mode MODE_COMPAT s1) = Some (e, s2)" "lp_calm d ds s1 s2" "e \<in> insert 0 lp_errors"
      by (auto simp: lp_calm_def lp_same_def lp_mode_def)
    show ?thesis using lp_calm_trans [OF c1 e(2)] e(1,3) 1 2
      by (cases "e = 0") (auto simp: lp_after_write_def)
  next
    case 3
    obtain rs s2 where rs: "on_mach need_resched s1 = (rs, s2)" by fastforce
    have c2: "lp_calm d ds s s2" by (rule lp_calm_trans [OF c1 lp_calm_events(2) [OF o1 rs]])
    let ?s3 = "s2\<lparr>sh_mach := emit Schedule (sh_mach s2)\<rparr>"
    have "idle 0 0 s2 ?s3" by (rule idle_mach [OF ran_kernel(1)]) simp_all
    moreover have "idle 0 0 ?s3 (sc_sleep env ?s3)" using env by (simp add: lp_env_def bystander_def)
    ultimately have "idle 0 0 s2 (sc_sleep env ?s3)" using idle_00_trans(1) by blast
    from lp_calm_idle [OF this kept_sleep [OF env] lp_calm_owns [OF own c2]] have "lp_calm d ds s (sc_sleep env ?s3)"
      using lp_calm_trans [OF c2] by blast
    then show ?thesis using 1 3 rs c2 by (auto simp: lp_after_write_def)
  qed
qed

definition write_errors :: "int set" where "write_errors = {- EAGAIN, - EFAULT} \<union> lp_errors"

text \<open>One round sends a prefix of its chunk; it ends the write, or it sent the chunk and goes on with the next.\<close>

lemma round_sends:
  assumes env: "lp_env env" and ready: "lp_ready env d ds t N s" and n: "n = min (length buf - off) SNX_LP_BUFFER_SIZE"
  obtains w s2 e where "w \<le> length buf - off" "sends s (take w (drop off buf)) s2" "lp_ready env d ds t N s2"
    "lp_round env True buf readable (off, n, retv, s) = Some (Inl (or_else (retv + int w) e, s2))" "e \<in> insert 0 write_errors"
    "e = 0 \<longrightarrow> w = length buf - off"
  | w s2 where "w = n" "off + n < length buf" "sends s (take w (drop off buf)) s2" "lp_ready env d ds t N s2"
    "lp_round env True buf readable (off, n, retv, s)
      = Some (Inr (off + n, min (length buf - (off + n)) SNX_LP_BUFFER_SIZE, retv + int n, s2))"
proof -
  let ?c = "take n (drop off buf)"
  obtain w s1 where 1: "sunix_parport_write env ?c s = Some (w, s1)" "w \<le> length ?c" "sends s (take w ?c) s1" "lp_ready env d ds t N s1"
    using write_ready [OF env ready] by blast
  have w: "w \<le> n" "w \<le> length buf - off" "take w ?c = take w (drop off buf)" using 1(2) by (simp_all add: n min_absorb1)
  have own: "lp_owns d ds s1" using 1(4) by (simp add: lp_ready_def)
  obtain x s2 where c2: "lp_calm d ds s1 s2" and
    2: "lp_after_write env True (n - w) (retv + int w) s1 = Some (Inl (or_else (retv + int w) x, s2)) \<and> x \<in> {- EAGAIN} \<union> lp_errors
      \<or> n - w = 0 \<and> lp_after_write env True (n - w) (retv + int w) s1 = Some (Inr s2)"
    using after_write_nonblock [OF env own, of "n - w" "retv + int w"] by blast
  have s2: "w \<le> length buf - off" "sends s (take w (drop off buf)) s2" "lp_ready env d ds t N s2"
    using sends_trans [OF 1(3) calm_sends [OF c2]] w(2,3) lp_ready_calm [OF 1(4) c2] by simp_all
  note stop = that(1) [OF s2]
  show ?thesis
  proof (cases "n - w = 0 \<and> lp_after_write env True (n - w) (retv + int w) s1 = Some (Inr s2)")
    case False
    then have "lp_round env True buf readable (off, n, retv, s) = Some (Inl (or_else (retv + int w) x, s2))" "x \<in> write_errors"
      using 1(1) 2 by (auto simp: lp_round_def write_errors_def)
    then show ?thesis using stop [of x] by (auto simp: write_errors_def lp_errors_def)
  next
    case True
    then have wn: "w = n" using w(1) by simp
    have "lp_after_write env True 0 (retv + int n) s1 = Some (Inr s2)" using conjunct2 [OF True] wn by simp
    then have round: "lp_round env True buf readable (off, n, retv, s) = Some (lp_next_chunk readable (length buf) (off + n, 0, retv + int n, s2))"
      using 1(1) wn by (simp add: lp_round_def)
    consider "\<not> off + n < length buf" | "off + n < length buf" "\<not> readable (off + n) (min (length buf - (off + n)) SNX_LP_BUFFER_SIZE)"
      | "off + n < length buf" "readable (off + n) (min (length buf - (off + n)) SNX_LP_BUFFER_SIZE)" by blast
    then show ?thesis
    proof cases
      case 1
      then show ?thesis using stop [of 0] round wn w(2) by (simp add: lp_next_chunk_def or_else_def)
    next
      case 2
      then show ?thesis using stop [of "- EFAULT"] round wn by (simp add: lp_next_chunk_def Let_def write_errors_def)
    next
      case 3
      then show ?thesis using that(2) [OF wn _ s2(2,3)] round by (simp add: lp_next_chunk_def Let_def)
    qed
  qed
qed

lemma write_loop_sends:
  assumes env: "lp_env env"
  shows "off \<le> length buf \<Longrightarrow> lp_ready env d ds t N s \<Longrightarrow> \<exists>j x s'.
    lp_write_loop env True buf readable (off, min (length buf - off) SNX_LP_BUFFER_SIZE, retv, s) = Some (or_else (retv + int j) x, s')
    \<and> j \<le> length buf - off \<and> sends s (take j (drop off buf)) s' \<and> lp_ready env d ds t N s'
    \<and> x \<in> insert 0 write_errors \<and> (x = 0 \<longrightarrow> j = length buf - off)"
proof (induction "length buf - off" arbitrary: off retv s rule: less_induct)
  case less
  define n where "n = min (length buf - off) SNX_LP_BUFFER_SIZE"
  note unf = lp_write_loop.simps [of env True buf readable "(off, n, retv, s)"]
  from round_sends [OF env less.prems(2) n_def, of readable retv] show ?case
  proof cases
    case (1 w s2 e)
    then show ?thesis using unf by (intro exI [of _ w] exI [of _ e] exI [of _ s2]) (simp flip: n_def)
  next
    case (2 w s2)
    let ?n' = "min (length buf - (off + n)) SNX_LP_BUFFER_SIZE"
    have "length buf - (off + n) < length buf - off" "off + n \<le> length buf" using 2(2) by (auto simp: n_def)
    from less.hyps [OF this 2(4), of "retv + int n"] obtain j e s' where
      r: "lp_write_loop env True buf readable (off + n, ?n', retv + int n, s2) = Some (or_else (retv + int n + int j) e, s')"
        "j \<le> length buf - (off + n)" "sends s2 (take j (drop (off + n) buf)) s'" "lp_ready env d ds t N s'"
        "e \<in> insert 0 write_errors" "e = 0 \<longrightarrow> j = length buf - (off + n)" by blast
    have "sends s (take (n + j) (drop off buf)) s'"
      using sends_trans [OF 2(3) r(3)] 2(1) by (simp add: take_add add.commute [of n off])
    moreover have "lp_write_loop env True buf readable (off, n, retv, s) = Some (or_else (retv + int n + int j) e, s')"
      using unf 2(5) r(1) by simp
    ultimately show ?thesis using r(2,4-6) 2(2)
      by (intro exI [of _ "n + j"] exI [of _ e] exI [of _ s']) (simp add: add.assoc flip: n_def)
  qed
qed

text \<open>
  C5. A non-blocking write to a printer that can claim its port returns whenever the clock advances, and the
  printer has received exactly the first \<open>n\<close> bytes, each once and in order. Its result is \<open>e + n\<close>, where
  \<open>e\<close> is what \<^verbatim>\<open>snx_lp_wait_ready\<close> answered, called once after the claim, the mode and the time-out and
  before the first byte: 0 or a negative error. Only when \<open>e + n = 0\<close> the result is instead an error \<open>x\<close> of the
  end of the write, and \<open>x = 0\<close> only if every byte went out. The port is then still claimed, or has been given up.
\<close>

theorem lp_write_delivers:
  assumes "lp_env env" and "snx_lp_claim_parport_or_block env s = Some s1" and "lp_owns d ds s1" and "pt_ops (sh_port s1) = Pc_ops"
    and "readable 0 (min (length buf) SNX_LP_BUFFER_SIZE)"
    and "clock_ok (wait_ticks env) N (sh_mach s1)" and "clock_ok (word_of_int SNX_PARPORT_INACTIVITY_O_NONBLOCK) N (sh_mach s1)"
  shows "\<exists>t s2 e s3 n x s' us.
      sunix_parport_set_timeout d SNX_PARPORT_INACTIVITY_O_NONBLOCK (lp_mode (snx_lp_negotiate (lp_best_mode (sh_lp s1))) s1) = Some (t, s2)
    \<and> snx_lp_wait_ready env True s2 = Some (e, s3) \<and> e \<in> {0, - EIO, - ENOSPC, - EINTR}
    \<and> snx_lp_write env True True readable buf s = Some (if e + int n = 0 then x else e + int n, s')
    \<and> n \<le> length buf \<and> (x = 0 \<longrightarrow> n = length buf) \<and> x \<in> {0, - EIO, - ENOSPC, - EINTR, - EAGAIN, - EFAULT}
    \<and> trace (sh_mach s') = trace (sh_mach s1) @ us \<and> delivers (sh_port s1) us (take n buf)
    \<and> (if lp_claimed (sh_lp s') then owns d ds s' else pt_cad (sh_port s') = None)"
proof -
  have env: "lp_env env" by fact
  have dev: "lp_dev (sh_lp s) = Some d"
    using assms(2,3) kept_claim_or_block [OF env] kept_fields(1)
    by (fastforce simp: snx_lp_claim_parport_or_block_def lp_owns_def bind_eq_Some_conv split: if_splits)
  define s1' where "s1' = lp_mode (snx_lp_negotiate (lp_best_mode (sh_lp s1))) s1"
  have same: "sh_port s1' = sh_port s1" "sh_mach s1' = sh_mach s1" by (simp_all add: s1'_def lp_mode_def)
  have "lp_owns d ds s1'" using assms(3) by (simp add: s1'_def lp_calm_mode)
  from set_timeout_calm [OF this, of SNX_PARPORT_INACTIVITY_O_NONBLOCK] obtain t s2 us2 where
    2: "sunix_parport_set_timeout d SNX_PARPORT_INACTIVITY_O_NONBLOCK s1' = Some (t, s2)" "lp_owns d ds s2"
      "map_option pd_timeout (sh_devs s2 d) = Some SNX_PARPORT_INACTIVITY_O_NONBLOCK" "port_frame (sh_port s1) (sh_port s2)"
      "ran (sh_mach s1) us2 (sh_mach s2)" "noise (sh_port s1) us2" unfolding same by blast
  have r2: "lp_ready env d ds SNX_PARPORT_INACTIVITY_O_NONBLOCK N s2"
    using assms(4,6,7) 2 ran_oracles(2) [OF 2(5)] by (simp add: lp_ready_def port_frame_def clock_ok_def)
  have d2: "sends s1 [] s2" using 2(4-6) noise_delivers unfolding sends_def by blast
  obtain e s3 where 3: "snx_lp_wait_ready env True s2 = Some (e, s3)" "lp_calm d ds s2 s3" "e \<in> insert 0 lp_errors"
    using wait_ready_calm [OF env 2(2)] by blast
  obtain n x s4 where 4: "lp_write_loop env True buf readable (0, min (length buf) SNX_LP_BUFFER_SIZE, e, s3) = Some (or_else (e + int n) x, s4)"
    "n \<le> length buf" "sends s3 (take n buf) s4" "lp_ready env d ds SNX_PARPORT_INACTIVITY_O_NONBLOCK N s4" "x \<in> insert 0 write_errors"
    "x = 0 \<longrightarrow> n = length buf"
    using write_loop_sends [OF env _ lp_ready_calm [OF r2 3(2)], of 0 buf readable e] by auto
  have "lp_owns d ds s4" using 4(4) by (simp add: lp_ready_def)
  from write_end_calm [OF env this] obtain s5 us5 where 5: "lp_write_end env s4 = Some s5" "ran (sh_mach s4) us5 (sh_mach s5)"
    "delivers (sh_port s4) us5 []" "if lp_claimed (sh_lp s5) then lp_owns d ds s5 else pt_cad (sh_port s5) = None" by blast
  have "sends s1 (take n buf) s4" using sends_trans [OF sends_trans [OF d2 calm_sends [OF 3(2)]] 4(3)] by simp
  then obtain us4 where 6: "ran (sh_mach s1) us4 (sh_mach s4)" "delivers (sh_port s1) us4 (take n buf)" "port_frame (sh_port s1) (sh_port s4)"
    unfolding sends_def by blast
  have "trace (sh_mach s5) = trace (sh_mach s1) @ us4 @ us5" using ran_oracles(1) [OF ran_trans [OF 6(1) 5(2)]] .
  moreover have "delivers (sh_port s1) (us4 @ us5) (take n buf)"
    using delivers_append [OF 6(2), of us5 "[]"] 5(3) port_frame_regs(7) [OF 6(3)] by simp
  moreover have "snx_lp_write env True True readable buf s = Some (if e + int n = 0 then x else e + int n, s5)"
    using dev assms(2,5) 2(1) 3(1) 4(1) 5(1) by (simp add: snx_lp_write_def or_else_def flip: s1'_def)
  moreover have "if lp_claimed (sh_lp s5) then owns d ds s5 else pt_cad (sh_port s5) = None" using 5(4) by (auto simp: lp_owns_def split: if_splits)
  moreover have "e \<in> {0, - EIO, - ENOSPC, - EINTR}" "x \<in> {0, - EIO, - ENOSPC, - EINTR, - EAGAIN, - EFAULT}"
    using 3(3) 4(5) by (auto simp: lp_errors_def write_errors_def)
  ultimately show ?thesis using 2(1) [unfolded s1'_def] 3(1) 4(2,6) by blast
qed

text \<open>A printer on a port it has claimed, with a peripheral that is always ready.\<close>

definition lp_sched_example :: lp_sched where
  "lp_sched_example = plain_sched\<lparr>sc_preempt := snx_lp_preempt\<rparr>"

definition lp_printer :: snx_lp_struct where
  "lp_printer = \<lparr>lp_dev = Some 1, lp_flags = SNX_LP_EXIST OR SNX_LP_BUSY, lp_chars = SNX_LP_INIT_CHAR, lp_time = SNX_LP_INIT_TIME,
     lp_wait = SNX_LP_INIT_WAIT, lp_buffer = True, lp_last_error = 0, lp_timeout = 1000, lp_best_mode = MODE_COMPAT,
     lp_current_mode = MODE_COMPAT, lp_preempt_request = False, lp_claimed = True\<rparr>"

definition lp_example :: lp_share where
  "lp_example = \<lparr>sh_port = sh_port ready_owner, sh_devs = sh_devs ready_owner, sh_mach = sh_mach ready_owner, sh_lp = lp_printer\<rparr>"

lemma lp_example_owns: "lp_owns 1 [1] lp_example"
  using ready_owner_owns share_ok_cong [of ready_owner "[]" "[1]" lp_example]
  by (auto simp: lp_owns_def owns_def lp_example_def lp_printer_def)

theorem lp_write_delivers_witness:
  "\<exists>e n x s' s2 s3. snx_lp_wait_ready lp_sched_example True s2 = Some (e, s3)
    \<and> snx_lp_write lp_sched_example True True (\<lambda>_ _. True) [0x41, 0x42] lp_example = Some (if e + int n = 0 then x else e + int n, s')
    \<and> n \<le> length [0x41, 0x42 :: u8]"
proof -
  have env: "lp_env lp_sched_example"
    by (simp add: lp_env_def lp_sched_example_def plain_sched_def bystander_def no_wakeup_def)
  have m: "clock_ok T 5 (sh_mach lp_example) = clock_ok T 5 counting_machine" for T
    by (simp add: clock_ok_def lp_example_def ready_owner_def lone_owner_def)
  have c1: "clock_ok (wait_ticks lp_sched_example) 5 (sh_mach lp_example)"
    using counting_clock [of 4 5] m by (simp add: wait_ticks_def lp_sched_example_def plain_sched_def)
  have c2: "clock_ok (word_of_int SNX_PARPORT_INACTIVITY_O_NONBLOCK) 5 (sh_mach lp_example)"
    using counting_clock [of 1 5] m by simp
  have claim: "snx_lp_claim_parport_or_block lp_sched_example lp_example = Some lp_example"
    by (simp add: snx_lp_claim_parport_or_block_def lp_example_def lp_printer_def)
  have ops: "pt_ops (sh_port lp_example) = Pc_ops"
    by (simp add: lp_example_def ready_owner_def lone_owner_def example_par_def)
  show ?thesis
    using lp_write_delivers [OF env claim lp_example_owns ops TrueI c1 c2, of "[0x41, 0x42]"]
    by (elim exE conjE) (intro exI conjI, assumption+)
qed

section \<open>An interrupted write\<close>

lemma status_ready:
  assumes "st AND 0xB8 = (0x98 :: u8)"
  shows "lp_status_error careful st = (0, 0)"
proof -
  have "st AND 8 = (st AND 0xB8) AND 8" "st AND 16 = (st AND 0xB8) AND 16" "st AND 32 = (st AND 0xB8) AND 32"
    by (simp_all add: and.assoc)
  then show ?thesis unfolding assms by (simp add: lp_status_error_def)
qed

lemma set_timeout_lp: "sunix_parport_set_timeout d x s = Some (t, s') \<Longrightarrow> sh_lp s' = sh_lp s"
  by (auto simp: sunix_parport_set_timeout_def upd_dev_def bind_eq_Some_conv sunix_parport_ieee1284_wakeup_def split: if_splits)

text \<open>A ready printer does not keep the first wait, but a signal turns its answer into \<open>-EINTR\<close>.\<close>

lemma wait_ready_signalled:
  assumes own: "lp_owns d ds s" and "always_ready s" and "\<forall>ts. m_signal (sh_mach s) ts" and "lp_current_mode (sh_lp s) = MODE_COMPAT"
  shows "\<exists>s'. snx_lp_wait_ready env nonblock s = Some (- EINTR, s') \<and> lp_calm d ds s s'"
proof -
  obtain st s1 where 1: "r_str s = (st, s1)" by fastforce
  have r: "on_mach (sunix_parport_pc_read_status (sh_port s)) s = (st, s1)" using 1 by (simp add: r_str_def)
  have c1: "lp_calm d ds s s1" by (rule lp_calm_idle [OF idle_events(6) [OF r] kept_lp [OF on_mach_lp [OF r]] own])
  have "st AND 0xB8 = 0x98"
    using assms(2) r by (auto simp: always_ready_def on_mach_def sunix_parport_pc_read_status_def inb_def Let_def)
  note ok = status_ready [OF this]
  define s2 where "s2 = upd_lp (\<lambda>l. l\<lparr>lp_last_error := 0\<rparr>) s1"
  have c2: "lp_calm d ds s s2" using c1 by (simp add: lp_calm_def lp_same_def s2_def)
  have chk: "snx_lp_check_status env s = Some (0, s2)" using 1 ok by (simp add: snx_lp_check_status_def s2_def)
  obtain sig s3 where 3: "on_mach signal_pending s2 = (sig, s3)" by fastforce
  have "m_signal (sh_mach s2) = m_signal (sh_mach s)"
    using r by (auto simp: s2_def on_mach_def sunix_parport_pc_read_status_def inb_def Let_def)
  then have sig: "sig" using 3 assms(3) by (auto simp: on_mach_def signal_pending_def Let_def)
  have "lp_calm d ds s s3" by (rule lp_calm_trans [OF c2 lp_calm_events(1) [OF lp_calm_owns [OF own c2] 3]])
  then show ?thesis using assms(4) chk 3 sig by (auto simp: snx_lp_wait_ready_def wait_ready_loop.simps)
qed

text \<open>One round on a ready printer sends the whole chunk; the signal then ends the write.\<close>

lemma round_signalled:
  assumes env: "lp_env env" and own: "lp_owns d ds s" and ops: "pt_ops (sh_port s) = Pc_ops" and "always_ready s"
    and sig: "\<forall>ts. m_signal (sh_mach s) ts" and n: "n \<le> length buf"
  shows "\<exists>s'. lp_round env nonblock buf readable (0, n, retv, s) = Some (Inl (or_else (retv + int n) (- EINTR), s'))
    \<and> sends s (take n buf) s' \<and> lp_owns d ds s'"
proof -
  have bst: "bystander (sc_sleep env)" and o: "owns d ds s" using env own by (simp_all add: lp_env_def lp_owns_def)
  from write_compat_ready [OF o bst assms(4), of "take n buf"] obtain s1 us where
    1: "sunix_parport_write env (take n buf) s = Some (n, s1)" "ran (sh_mach s) us (sh_mach s1)" "delivers (sh_port s) us (take n buf)"
      "port_frame (sh_port s) (sh_port s1)" "owns d ds s1"
    using ops n by (auto simp: sunix_parport_write_def min_absorb2)
  have own1: "lp_owns d ds s1" using own 1(5) kept_same [OF kept_write [OF env 1(1)]] by (auto simp: lp_owns_def lp_same_def)
  obtain b s2 where 2: "on_mach signal_pending s1 = (b, s2)" by fastforce
  have c: "lp_calm d ds s1 s2" by (rule lp_calm_events(1) [OF own1 2])
  have "b" using 2 sig ran_oracles(2) [OF 1(2)] 1(2) by (auto simp: on_mach_def signal_pending_def Let_def ran_def)
  moreover have "sends s (take n buf) s1" using 1(2-4) unfolding sends_def by blast
  ultimately show ?thesis using 1(1) 2 sends_trans [OF _ calm_sends [OF c]] lp_calm_owns [OF own1 c]
    by (auto simp: lp_round_def lp_after_write_def)
qed

text \<open>
  C37. A write to a ready printer while a signal is pending prints the first chunk, all of up to 4096 bytes, each
  once and in order, but reports their number less 4: the first wait has answered \<open>-EINTR\<close>, which is -4, and the
  write goes on and adds what it has written to that. One to three printed bytes are reported as an error number
  that is not \<open>-EINTR\<close>, four as \<open>-EINTR\<close>, and more as a short write, whose last bytes the caller will send again.
\<close>

theorem interrupted_write_miscounts:
  assumes "lp_env env" and "snx_lp_claim_parport_or_block env s = Some s1" and "lp_owns d ds s1" and "pt_ops (sh_port s1) = Pc_ops"
    and "n = min (length buf) SNX_LP_BUFFER_SIZE" and "readable 0 n" and "snx_lp_negotiate (lp_best_mode (sh_lp s1)) = MODE_COMPAT"
    and "always_ready s1" and "\<forall>ts. m_signal (sh_mach s1) ts"
  shows "\<exists>s' us. snx_lp_write env True o_nonblock readable buf s = Some (if n = 4 then - EINTR else int n - 4, s')
    \<and> trace (sh_mach s') = trace (sh_mach s1) @ us \<and> delivers (sh_port s1) us (take n buf)"
proof -
  have env: "lp_env env" by fact
  have dev: "lp_dev (sh_lp s) = Some d"
    using assms(2,3) kept_claim_or_block [OF env] kept_fields(1)
    by (fastforce simp: snx_lp_claim_parport_or_block_def lp_owns_def bind_eq_Some_conv split: if_splits)
  let ?nb = "o_nonblock \<or> lp_has SNX_LP_ABORT s"
  let ?t = "if ?nb then SNX_PARPORT_INACTIVITY_O_NONBLOCK else lp_timeout (sh_lp s1)"
  have "lp_owns d ds (lp_mode MODE_COMPAT s1)" using assms(3) by (simp add: lp_calm_mode)
  from set_timeout_calm [OF this, of ?t] obtain t s2 us2 where
    2: "sunix_parport_set_timeout d ?t (lp_mode MODE_COMPAT s1) = Some (t, s2)" "lp_owns d ds s2"
      "port_frame (sh_port s1) (sh_port s2)" "ran (sh_mach s1) us2 (sh_mach s2)" "noise (sh_port s1) us2"
    by (auto simp: lp_mode_def)
  have s2: "sends s1 [] s2" using 2(3-5) noise_delivers unfolding sends_def by blast
  have keep: "always_ready s'" "\<forall>ts. m_signal (sh_mach s') ts" "pt_ops (sh_port s') = Pc_ops" if "sends s1 bs s'" for bs s'
    using that assms(4,8,9) always_ready_ran by (fastforce simp: sends_def ran_def port_frame_def)+
  have "lp_current_mode (sh_lp s2) = MODE_COMPAT" using set_timeout_lp [OF 2(1)] by (simp add: lp_mode_def)
  from wait_ready_signalled [OF 2(2) keep(1,2) [OF s2] this] obtain s3 where
    3: "snx_lp_wait_ready env ?nb s2 = Some (- EINTR, s3)" "lp_calm d ds s2 s3" by blast
  have s3: "sends s1 [] s3" using sends_trans [OF s2 calm_sends [OF 3(2)]] by simp
  from round_signalled [OF env lp_calm_owns [OF 2(2) 3(2)] keep(3,1,2) [OF s3], of n buf ?nb readable "- EINTR"] obtain s4 where
    4: "lp_round env ?nb buf readable (0, n, - EINTR, s3) = Some (Inl (or_else (- EINTR + int n) (- EINTR), s4))"
      "sends s3 (take n buf) s4" "lp_owns d ds s4" using assms(5) by auto
  obtain us4 where 5: "ran (sh_mach s1) us4 (sh_mach s4)" "delivers (sh_port s1) us4 (take n buf)" "port_frame (sh_port s1) (sh_port s4)"
    using sends_trans [OF s3 4(2)] unfolding sends_def by auto
  from write_end_calm [OF env 4(3)] obtain s5 us5 where 6: "lp_write_end env s4 = Some s5" "ran (sh_mach s4) us5 (sh_mach s5)"
    "delivers (sh_port s4) us5 []" by blast
  have "trace (sh_mach s5) = trace (sh_mach s1) @ us4 @ us5" using ran_oracles(1) [OF ran_trans [OF 5(1) 6(2)]] .
  moreover have "delivers (sh_port s1) (us4 @ us5) (take n buf)"
    using delivers_append [OF 5(2), of us5 "[]"] 6(3) port_frame_regs(7) [OF 5(3)] by simp
  moreover have "snx_lp_write env True o_nonblock readable buf s = Some (if n = 4 then - EINTR else int n - 4, s5)"
    using dev assms(2,6,7) 2(1) 3(1) 4(1) 6(1)
    by (simp add: snx_lp_write_def lp_write_loop.simps or_else_def Let_def flip: assms(5))
  ultimately show ?thesis by blast
qed

definition interrupted_lp :: lp_share where
  "interrupted_lp = lp_example\<lparr>sh_mach := idle_machine\<lparr>m_in := \<lambda>_ _. 0x98, m_signal := \<lambda>_. True\<rparr>\<rparr>"

text \<open>One byte is printed, and error 3 reported.\<close>

theorem interrupted_write_miscounts_witness:
  "\<exists>s' us. snx_lp_write lp_sched_example True False (\<lambda>_ _. True) [0x41] interrupted_lp = Some (- 3, s')
    \<and> trace (sh_mach s') = us \<and> delivers (sh_port interrupted_lp) us [0x41]"
proof -
  have env: "lp_env lp_sched_example"
    by (simp add: lp_env_def lp_sched_example_def plain_sched_def bystander_def no_wakeup_def)
  have own: "lp_owns 1 [1] interrupted_lp"
    using lp_example_owns share_ok_cong [of lp_example "[]" "[1]" interrupted_lp]
    by (auto simp: lp_owns_def owns_def interrupted_lp_def)
  have "always_ready interrupted_lp"
    by (simp add: always_ready_def interrupted_lp_def lp_example_def ready_owner_def lone_owner_def example_par_def)
  moreover have "pt_ops (sh_port interrupted_lp) = Pc_ops"
    by (simp add: interrupted_lp_def lp_example_def ready_owner_def lone_owner_def example_par_def)
  moreover have "snx_lp_claim_parport_or_block lp_sched_example interrupted_lp = Some interrupted_lp"
    by (simp add: snx_lp_claim_parport_or_block_def interrupted_lp_def lp_example_def lp_printer_def)
  moreover have "snx_lp_negotiate (lp_best_mode (sh_lp interrupted_lp)) = MODE_COMPAT"
    by (simp add: interrupted_lp_def lp_example_def lp_printer_def snx_lp_negotiate_def sunix_parport_negotiate_def)
  ultimately show ?thesis
    using interrupted_write_miscounts [OF env _ own, of interrupted_lp 1 "[0x41]" "\<lambda>_ _. True" False]
    by (simp add: interrupted_lp_def idle_machine_def)
qed

text \<open>The ports are numbered from 2, the table names 0 to 3: only the first two parallel ports get a printer.\<close>

lemma lp_slot_ports: "lp_slot (2 + int k) = (if k < 2 then Some (k + 2) else None)"
  by (auto simp: lp_slot_def snx_parport_nr_def upt_conv_Cons find_Some_iff)

subsection \<open>The printer shares its port\<close>

interpretation lp: sharing snx_lp_preempt no_wakeup
  by unfold_locales (simp_all add: snx_lp_preempt_def)

end
