(* ===== verification/Snx_Chardev.thy ===== *)
theory Snx_Chardev
  imports Snx_Lp "HOL-Library.Multiset"
begin

text \<open>
  Loading and unloading the two users of the parallel ports: \<open>sunix_par_ppdev_init\<close> and \<open>sunix_par_ppdev_exit\<close>
  (driver/snx_ppdev.c), \<open>snx_lp_init\<close> and \<open>sunix_par_lp_exit\<close> (driver/snx_lp.c). The kernel objects they take are a
  list; \<open>None\<close> is giving back one that is not held.
\<close>

section \<open>The character devices\<close>

datatype cdev = Chrdev string | Dev_class string | Port_driver string | Dev_node string int | Port_device nat

text \<open>\<open>cd_lp\<close> are the \<^verbatim>\<open>dev\<close> pointers of \<^verbatim>\<open>snx_lp_table\<close>.\<close>

record chardevs =
  cd_held :: "cdev list"
  cd_lp :: "nat option list"
  cd_lp_count :: nat

text \<open>
  What the kernel answers: the major number or an error, the error of \<^verbatim>\<open>class_create\<close> or 0, and the device the
  registration on the port with a number gives.
\<close>

record cdev_answers =
  ca_major :: int
  ca_class :: int
  ca_device :: "int \<Rightarrow> nat option"

definition hold :: "cdev \<Rightarrow> chardevs \<Rightarrow> chardevs" where
  "hold x w = w\<lparr>cd_held := x # cd_held w\<rparr>"

definition drop_it :: "cdev \<Rightarrow> chardevs \<Rightarrow> chardevs option" where
  "drop_it x w = (if x \<in> set (cd_held w) then Some (w\<lparr>cd_held := remove1 x (cd_held w)\<rparr>) else None)"

fun drop_all :: "cdev list \<Rightarrow> chardevs \<Rightarrow> chardevs option" where
  "drop_all [] w = Some w"
| "drop_all (x # xs) w = Option.bind (drop_it x w) (drop_all xs)"

subsection \<open>ppdev\<close>

definition SNX_CHRDEV :: string where "SNX_CHRDEV = ''sppdev''"

definition snx_pp_attach :: "int \<Rightarrow> chardevs \<Rightarrow> chardevs" where
  "snx_pp_attach number w = hold (Dev_node SNX_CHRDEV number) w"

definition snx_pp_detach :: "int \<Rightarrow> chardevs \<Rightarrow> chardevs option" where
  "snx_pp_detach number w = drop_it (Dev_node SNX_CHRDEV number) w"

text \<open>Registering the driver attaches it to the ports there are, in the order of the port list, and cannot fail.\<close>

definition sunix_par_ppdev_init :: "cdev_answers \<Rightarrow> int list \<Rightarrow> chardevs \<Rightarrow> (int \<times> chardevs) option" where
  "sunix_par_ppdev_init ca ports w =
    (if ca_major ca < 0 then Some (- EIO, w)
     else
      (let w1 = hold (Chrdev SNX_CHRDEV) w in
       if ca_class ca \<noteq> 0 then map_option (Pair (ca_class ca)) (drop_it (Chrdev SNX_CHRDEV) w1)
       else Some (0, hold (Port_driver SNX_CHRDEV) (fold snx_pp_attach ports (hold (Dev_class SNX_CHRDEV) w1)))))"

fun detach_all :: "int list \<Rightarrow> chardevs \<Rightarrow> chardevs option" where
  "detach_all [] w = Some w"
| "detach_all (p # ps) w = Option.bind (snx_pp_detach p w) (detach_all ps)"

definition sunix_par_ppdev_exit :: "int list \<Rightarrow> chardevs \<Rightarrow> chardevs option" where
  "sunix_par_ppdev_exit ports w =
    Option.bind (drop_it (Port_driver SNX_CHRDEV) w) (\<lambda>w1. Option.bind (detach_all ports w1)
      (\<lambda>w2. Option.bind (drop_it (Dev_class SNX_CHRDEV) w2) (drop_it (Chrdev SNX_CHRDEV))))"

subsection \<open>lp\<close>

text \<open>What \<open>Snx_Lp.snx_lp_attach\<close> does to the table and the kernel's objects; the device itself is Snx_Lp's.\<close>

definition lp_attach_port :: "cdev_answers \<Rightarrow> int \<Rightarrow> chardevs \<Rightarrow> chardevs" where
  "lp_attach_port ca number w =
    (case lp_slot number of
       None \<Rightarrow> w
     | Some nr \<Rightarrow>
        (case ca_device ca number of
           None \<Rightarrow> w\<lparr>cd_lp := (cd_lp w)[nr := None]\<rparr>
         | Some d \<Rightarrow> hold (Dev_node ''sprinter'' (int nr))
             (hold (Port_device d) (w\<lparr>cd_lp := (cd_lp w)[nr := Some d], cd_lp_count := cd_lp_count w + 1\<rparr>))))"

definition snx_lp_init :: "cdev_answers \<Rightarrow> int list \<Rightarrow> chardevs \<Rightarrow> (int \<times> chardevs) option" where
  "snx_lp_init ca ports w =
    (let w0 = w\<lparr>cd_lp := replicate SNX_LP_NO None\<rparr> in
     if ca_major ca < 0 then Some (- EIO, w0)
     else
      (let w1 = hold (Chrdev ''lx'') w0 in
       if ca_class ca \<noteq> 0 then map_option (Pair (ca_class ca)) (drop_it (Chrdev ''lx'') w1)
       else Some (0, hold (Port_driver ''lx'') (fold (lp_attach_port ca) ports (hold (Dev_class ''sprinter'') w1)))))"

text \<open>The table keeps its pointers.\<close>

definition lp_exit_slot :: "nat \<Rightarrow> chardevs \<Rightarrow> chardevs option" where
  "lp_exit_slot offset w =
    (case cd_lp w ! offset of
       None \<Rightarrow> Some w
     | Some d \<Rightarrow> Option.bind (drop_it (Port_device d) w) (drop_it (Dev_node ''sprinter'' (int offset))))"

fun lp_exit_slots :: "nat list \<Rightarrow> chardevs \<Rightarrow> chardevs option" where
  "lp_exit_slots [] w = Some w"
| "lp_exit_slots (i # is) w = Option.bind (lp_exit_slot i w) (lp_exit_slots is)"

definition sunix_par_lp_exit :: "chardevs \<Rightarrow> chardevs option" where
  "sunix_par_lp_exit w =
    Option.bind (drop_it (Port_driver ''lx'') w) (\<lambda>w1. Option.bind (drop_it (Chrdev ''lx'') w1)
      (\<lambda>w2. Option.bind (lp_exit_slots [0..<SNX_LP_NO] w2) (drop_it (Dev_class ''sprinter''))))"

section \<open>Unloading gives back what loading took\<close>

lemma drop_it_mset:
  assumes "mset (cd_held w) = add_mset x M"
  obtains w' where "drop_it x w = Some w'" "mset (cd_held w') = M" "cd_lp w' = cd_lp w"
proof -
  have "x \<in> set (cd_held w)" using assms by (metis set_mset_mset union_single_eq_member)
  then show ?thesis using assms that [of "w\<lparr>cd_held := remove1 x (cd_held w)\<rparr>"] by (simp add: drop_it_def)
qed

lemma hold_simps [simp]:
  "mset (cd_held (hold x w)) = add_mset x (mset (cd_held w))" "cd_lp (hold x w) = cd_lp w"
  by (simp_all add: hold_def)

lemma attach_all_mset:
  "mset (cd_held (fold snx_pp_attach ps w)) = mset (map (Dev_node SNX_CHRDEV) ps) + mset (cd_held w)"
  by (induction ps arbitrary: w) (simp_all add: snx_pp_attach_def)

lemma detach_all_mset:
  "mset (cd_held w) = mset (map (Dev_node SNX_CHRDEV) ps) + M \<Longrightarrow> \<exists>w'. detach_all ps w = Some w' \<and> mset (cd_held w') = M"
proof (induction ps arbitrary: w)
  case (Cons p ps)
  obtain w1 where "snx_pp_detach p w = Some w1" "mset (cd_held w1) = mset (map (Dev_node SNX_CHRDEV) ps) + M"
    using drop_it_mset [of w "Dev_node SNX_CHRDEV p"] Cons.prems by (auto simp: snx_pp_detach_def)
  then show ?case using Cons.IH by auto
qed simp

text \<open>What ppdev holds while it is loaded.\<close>

definition pp_objects :: "int list \<Rightarrow> cdev multiset" where
  "pp_objects ports = add_mset (Port_driver SNX_CHRDEV) (mset (map (Dev_node SNX_CHRDEV) ports) + {#Dev_class SNX_CHRDEV, Chrdev SNX_CHRDEV#})"

lemma ppdev_init_mset:
  obtains st w1 where "sunix_par_ppdev_init ca ports w = Some (st, w1)" "st \<noteq> 0 \<longrightarrow> w1 = w"
    "st = 0 \<longrightarrow> mset (cd_held w1) = pp_objects ports + mset (cd_held w)"
proof (cases "ca_major ca < 0 \<or> ca_class ca \<noteq> 0")
  case True
  then have "sunix_par_ppdev_init ca ports w = Some (if ca_major ca < 0 then - EIO else ca_class ca, w)"
    by (auto simp: sunix_par_ppdev_init_def drop_it_def hold_def Let_def)
  then show ?thesis using True by (intro that) (auto split: if_splits)
next
  case False
  let ?w1 = "hold (Port_driver SNX_CHRDEV) (fold snx_pp_attach ports (hold (Dev_class SNX_CHRDEV) (hold (Chrdev SNX_CHRDEV) w)))"
  show ?thesis using False by (intro that [of 0 ?w1]) (simp_all add: sunix_par_ppdev_init_def Let_def attach_all_mset pp_objects_def)
qed

lemma ppdev_exit_mset:
  assumes "mset (cd_held w) = pp_objects ports + M"
  shows "\<exists>w2. sunix_par_ppdev_exit ports w = Some w2 \<and> mset (cd_held w2) = M"
proof -
  obtain v1 where v1: "drop_it (Port_driver SNX_CHRDEV) w = Some v1"
    "mset (cd_held v1) = mset (map (Dev_node SNX_CHRDEV) ports) + ({#Dev_class SNX_CHRDEV, Chrdev SNX_CHRDEV#} + M)"
    by (rule drop_it_mset [of w "Port_driver SNX_CHRDEV"]) (simp_all add: assms pp_objects_def)
  obtain v2 where v2: "detach_all ports v1 = Some v2" "mset (cd_held v2) = {#Dev_class SNX_CHRDEV, Chrdev SNX_CHRDEV#} + M"
    using detach_all_mset [OF v1(2)] by blast
  obtain v3 where v3: "drop_it (Dev_class SNX_CHRDEV) v2 = Some v3" "mset (cd_held v3) = add_mset (Chrdev SNX_CHRDEV) M"
    by (rule drop_it_mset [of v2 "Dev_class SNX_CHRDEV"]) (simp_all add: v2)
  obtain v4 where v4: "drop_it (Chrdev SNX_CHRDEV) v3 = Some v4" "mset (cd_held v4) = M"
    by (rule drop_it_mset [OF v3(2)])
  show ?thesis using v1 v2 v3 v4 by (simp add: sunix_par_ppdev_exit_def)
qed

lemma ppdev_undone:
  obtains st w1 where "sunix_par_ppdev_init ca ports w = Some (st, w1)" "st \<noteq> 0 \<longrightarrow> cd_held w1 = cd_held w"
    "st = 0 \<longrightarrow> (\<exists>w2. sunix_par_ppdev_exit ports w1 = Some w2 \<and> mset (cd_held w2) = mset (cd_held w))"
proof -
  obtain st w1 where 1: "sunix_par_ppdev_init ca ports w = Some (st, w1)" "st \<noteq> 0 \<longrightarrow> w1 = w"
    "st = 0 \<longrightarrow> mset (cd_held w1) = pp_objects ports + mset (cd_held w)" by (rule ppdev_init_mset)
  show ?thesis by (rule that [OF 1(1)]) (use 1(2,3) ppdev_exit_mset in blast)+
qed


text \<open>The objects of the printers: the device of each table entry and its node.\<close>

definition printer :: "nat option list \<Rightarrow> nat \<Rightarrow> cdev multiset" where
  "printer t i = (case t ! i of None \<Rightarrow> {#} | Some d \<Rightarrow> {#Port_device d, Dev_node ''sprinter'' (int i)#})"

definition printers :: "nat option list \<Rightarrow> nat list \<Rightarrow> cdev multiset" where
  "printers t is = sum_list (map (printer t) is)"

lemma slot_number: "lp_slot number = Some nr \<Longrightarrow> number = int nr \<and> nr < SNX_LP_NO"
proof -
  assume "lp_slot number = Some nr"
  then have nr: "nr < 4" "number = snx_parport_nr ! nr" by (auto simp: lp_slot_def find_Some_iff simp del: upt_Suc)
  then have "nr = 0 \<or> nr = 1 \<or> nr = 2 \<or> nr = 3" by presburger
  then show ?thesis using nr by (elim disjE) (simp_all add: snx_parport_nr_def)
qed

text \<open>Each port has its own entry, still empty when the port is attached.\<close>

lemma printers_update:
  assumes "t ! nr = None" and "nr < length t" and "distinct is" and "nr \<in> set is"
  shows "printers (t[nr := Some d]) is = add_mset (Port_device d) (add_mset (Dev_node ''sprinter'' (int nr)) (printers t is))"
  using assms(3,4)
proof (induction "is")
  case (Cons i "is")
  show ?case
  proof (cases "i = nr")
    case True
    have "printer (t[nr := Some d]) x = printer t x" if "x \<in> set is" for x
    proof -
      have "nr \<noteq> x" using that True Cons.prems(1) by auto
      then show ?thesis by (simp add: printer_def)
    qed
    then have "printers (t[nr := Some d]) is = printers t is" by (simp add: printers_def cong: map_cong)
    then show ?thesis using True assms(1,2) by (simp add: printers_def printer_def)
  next
    case False
    then show ?thesis using Cons by (simp add: printers_def printer_def)
  qed
qed simp

lemma swap_held:
  fixes a1 :: "'a multiset"
  assumes "a1 + p0 = p1 + h" and "a2 + p1 = p2 + a1"
  shows "a2 + p0 = p2 + h"
proof -
  have "(a1 + p0) + (a2 + p1) = (p1 + h) + (p2 + a1)" using assms by simp
  then have "(a2 + p0) + (a1 + p1) = (p2 + h) + (a1 + p1)" by (simp only: ac_simps)
  then show ?thesis by (rule add_right_imp_eq)
qed

lemma lp_attach_all_mset:
  assumes "distinct ports" and "length (cd_lp w) = SNX_LP_NO" and "\<forall>n\<in>set ports. 0 \<le> n \<and> n < int SNX_LP_NO \<longrightarrow> cd_lp w ! nat n = None"
  shows "length (cd_lp (fold (lp_attach_port ca) ports w)) = SNX_LP_NO
    \<and> mset (cd_held (fold (lp_attach_port ca) ports w)) + printers (cd_lp w) [0..<SNX_LP_NO]
      = printers (cd_lp (fold (lp_attach_port ca) ports w)) [0..<SNX_LP_NO] + mset (cd_held w)"
  using assms
proof (induction ports arbitrary: w)
  case (Cons p ports)
  let ?w = "lp_attach_port ca p w"
  have "length (cd_lp ?w) = SNX_LP_NO \<and> (\<forall>n\<in>set ports. 0 \<le> n \<and> n < int SNX_LP_NO \<longrightarrow> cd_lp ?w ! nat n = None)
    \<and> mset (cd_held ?w) + printers (cd_lp w) [0..<SNX_LP_NO] = printers (cd_lp ?w) [0..<SNX_LP_NO] + mset (cd_held w)"
  proof (cases "lp_slot p")
    case None
    then show ?thesis using Cons.prems by (simp add: lp_attach_port_def)
  next
    case (Some nr)
    have nr: "p = int nr" "nr < SNX_LP_NO" using slot_number [OF Some] by simp_all
    then have free: "cd_lp w ! nr = None" using Cons.prems(3) by auto
    have other: "(cd_lp w)[nr := v] ! nat n = cd_lp w ! nat n" if "n \<in> set ports" "0 \<le> n" for n v
    proof -
      have "nr \<noteq> nat n" using that nr(1) Cons.prems(1) by auto
      then show ?thesis by simp
    qed
    show ?thesis
    proof (cases "ca_device ca p")
      case None
      then have "lp_attach_port ca p w = w"
        using Some free list_update_id [of "cd_lp w" nr] by (simp add: lp_attach_port_def)
      then show ?thesis using Cons.prems by simp
    next
      case (Some d)
      then show ?thesis
        using \<open>lp_slot p = Some nr\<close> Cons.prems other printers_update [OF free, of "[0..<SNX_LP_NO]" d] nr(2)
        by (simp add: lp_attach_port_def)
    qed
  qed
  then have w: "length (cd_lp ?w) = SNX_LP_NO" "\<forall>n\<in>set ports. 0 \<le> n \<and> n < int SNX_LP_NO \<longrightarrow> cd_lp ?w ! nat n = None"
    "mset (cd_held ?w) + printers (cd_lp w) [0..<SNX_LP_NO] = printers (cd_lp ?w) [0..<SNX_LP_NO] + mset (cd_held w)" by blast+
  have "distinct ports" using Cons.prems(1) by simp
  from Cons.IH [OF this w(1,2)] show ?case using swap_held [OF w(3)] by simp
qed simp

lemma lp_exit_slots_mset:
  "mset (cd_held w) = printers (cd_lp w) is + M \<Longrightarrow> \<exists>w'. lp_exit_slots is w = Some w' \<and> mset (cd_held w') = M \<and> cd_lp w' = cd_lp w"
proof (induction "is" arbitrary: w)
  case Nil
  then show ?case by (simp add: printers_def)
next
  case (Cons i "is")
  show ?case
  proof (cases "cd_lp w ! i")
    case None
    then show ?thesis using Cons.IH [of w] Cons.prems by (simp add: lp_exit_slot_def printers_def printer_def)
  next
    case (Some d)
    have "mset (cd_held w) = add_mset (Port_device d) (add_mset (Dev_node ''sprinter'' (int i)) (printers (cd_lp w) is + M))"
      using Cons.prems Some by (simp add: printers_def printer_def)
    from drop_it_mset [OF this] obtain w1 where 1: "drop_it (Port_device d) w = Some w1"
      "mset (cd_held w1) = add_mset (Dev_node ''sprinter'' (int i)) (printers (cd_lp w) is + M)" "cd_lp w1 = cd_lp w" by blast
    from drop_it_mset [OF 1(2)] obtain w2 where 2: "drop_it (Dev_node ''sprinter'' (int i)) w1 = Some w2"
      "mset (cd_held w2) = printers (cd_lp w) is + M" "cd_lp w2 = cd_lp w1" by blast
    then show ?thesis using Cons.IH [of w2] Some 1 by (simp add: lp_exit_slot_def)
  qed
qed


lemma printers_empty: "printers (replicate SNX_LP_NO None) [0..<SNX_LP_NO] = {#}"
  by (simp add: printers_def printer_def upt_conv_Cons)

lemma lp_undone:
  assumes "distinct ports"
  obtains st w1 where "snx_lp_init ca ports w = Some (st, w1)" "st \<noteq> 0 \<longrightarrow> cd_held w1 = cd_held w"
    "st = 0 \<longrightarrow> (\<exists>w2. sunix_par_lp_exit w1 = Some w2 \<and> mset (cd_held w2) = mset (cd_held w) \<and> cd_lp w2 = cd_lp w1)"
proof (cases "ca_major ca < 0 \<or> ca_class ca \<noteq> 0")
  case True
  then have "snx_lp_init ca ports w = Some (if ca_major ca < 0 then - EIO else ca_class ca, w\<lparr>cd_lp := replicate SNX_LP_NO None\<rparr>)"
    by (auto simp: snx_lp_init_def drop_it_def hold_def Let_def)
  then show ?thesis using True by (intro that) (auto split: if_splits)
next
  case False
  let ?w0 = "w\<lparr>cd_lp := replicate SNX_LP_NO None\<rparr>"
  let ?c = "hold (Dev_class ''sprinter'') (hold (Chrdev ''lx'') ?w0)"
  let ?a = "fold (lp_attach_port ca) ports ?c"
  let ?P = "printers (cd_lp ?a) [0..<SNX_LP_NO]"
  let ?w1 = "hold (Port_driver ''lx'') ?a"
  have a: "mset (cd_held ?a) = ?P + mset (cd_held ?c)"
  proof -
    have "cd_lp ?c ! nat n = None" if "0 \<le> n \<and> n < int SNX_LP_NO" for n
    proof -
      have "nat n < SNX_LP_NO" using that by linarith
      then show ?thesis by simp
    qed
    then show ?thesis using lp_attach_all_mset [OF assms, of ?c ca] printers_empty by simp
  qed
  obtain v1 where v1: "drop_it (Port_driver ''lx'') ?w1 = Some v1" "mset (cd_held v1) = ?P + mset (cd_held ?c)" "cd_lp v1 = cd_lp ?a"
    by (rule drop_it_mset [of ?w1 "Port_driver ''lx''"]) (simp_all add: a)
  obtain v2 where v2: "drop_it (Chrdev ''lx'') v1 = Some v2"
    "mset (cd_held v2) = ?P + add_mset (Dev_class ''sprinter'') (mset (cd_held w))" "cd_lp v2 = cd_lp ?a"
    by (rule drop_it_mset [of v1 "Chrdev ''lx''"]) (simp_all add: v1 add_mset_commute)
  obtain v3 where v3: "lp_exit_slots [0..<SNX_LP_NO] v2 = Some v3"
    "mset (cd_held v3) = add_mset (Dev_class ''sprinter'') (mset (cd_held w))" "cd_lp v3 = cd_lp ?a"
    using lp_exit_slots_mset [of v2 "[0..<SNX_LP_NO]"] v2 by metis
  obtain v4 where v4: "drop_it (Dev_class ''sprinter'') v3 = Some v4" "mset (cd_held v4) = mset (cd_held w)" "cd_lp v4 = cd_lp v3"
    by (rule drop_it_mset [OF v3(2)])
  have "sunix_par_lp_exit ?w1 = Some v4" using v1(1) v2(1) v3(1) v4(1) by (simp add: sunix_par_lp_exit_def del: upt_Suc)
  then show ?thesis using False v3(3) v4(2,3) by (intro that [of 0 ?w1]) (simp_all add: snx_lp_init_def Let_def)
qed

text \<open>
  C25. Loading ppdev or the printer driver takes all its kernel objects or none, and unloading gives back
  exactly what loading took. For any ports with different numbers and whatever the kernel answers, an
  initialisation that fails holds nothing more than before; after one that succeeds the exit function
  never gives back an object that is not held and leaves what was held before, although the table of the
  printers still points at the devices it freed.
\<close>

theorem chardev_exit_undoes_init:
  assumes "distinct ports"
  shows "\<exists>st w1 st' v1. sunix_par_ppdev_init ca ports w = Some (st, w1) \<and> snx_lp_init ca ports w = Some (st', v1)
    \<and> (if st \<noteq> 0 then cd_held w1 = cd_held w
       else \<exists>w2. sunix_par_ppdev_exit ports w1 = Some w2 \<and> mset (cd_held w2) = mset (cd_held w))
    \<and> (if st' \<noteq> 0 then cd_held v1 = cd_held w
       else \<exists>v2. sunix_par_lp_exit v1 = Some v2 \<and> mset (cd_held v2) = mset (cd_held w) \<and> cd_lp v2 = cd_lp v1)"
proof -
  obtain st w1 where p: "sunix_par_ppdev_init ca ports w = Some (st, w1)" "st \<noteq> 0 \<longrightarrow> cd_held w1 = cd_held w"
    "st = 0 \<longrightarrow> (\<exists>w2. sunix_par_ppdev_exit ports w1 = Some w2 \<and> mset (cd_held w2) = mset (cd_held w))"
    by (rule ppdev_undone)
  obtain st' v1 where l: "snx_lp_init ca ports w = Some (st', v1)" "st' \<noteq> 0 \<longrightarrow> cd_held v1 = cd_held w"
    "st' = 0 \<longrightarrow> (\<exists>v2. sunix_par_lp_exit v1 = Some v2 \<and> mset (cd_held v2) = mset (cd_held w) \<and> cd_lp v2 = cd_lp v1)"
    by (rule lp_undone [OF assms])
  show ?thesis using p l by (intro exI [of _ st] exI [of _ w1] exI [of _ st'] exI [of _ v1]) auto
qed

text \<open>Four ports, numbered from 2: two printers.\<close>

definition chardev_answers :: cdev_answers where
  "chardev_answers = \<lparr>ca_major = 240, ca_class = 0, ca_device = (\<lambda>n. Some (nat n))\<rparr>"

definition no_chardevs :: chardevs where
  "no_chardevs = \<lparr>cd_held = [], cd_lp = replicate 4 None, cd_lp_count = 0\<rparr>"

theorem chardev_exit_undoes_init_witness:
  "\<exists>v1 v2. snx_lp_init chardev_answers [2, 3, 4, 5] no_chardevs = Some (0, v1) \<and> cd_lp v1 = [None, None, Some 2, Some 3]
    \<and> sunix_par_lp_exit v1 = Some v2 \<and> cd_held v2 = []"
proof -
  have i: "map_option (\<lambda>(st, v). (st, cd_lp v)) (snx_lp_init chardev_answers [2, 3, 4, 5] no_chardevs) = Some (0, [None, None, Some 2, Some 3])"
    by code_simp
  have "distinct [2, 3, 4, 5 :: int]" "cd_held no_chardevs = []" by (simp_all add: no_chardevs_def)
  with chardev_exit_undoes_init [of "[2, 3, 4, 5]" chardev_answers no_chardevs] i show ?thesis by auto
qed

end
