(* ===== verification/Snx_Init.thy ===== *)
theory Snx_Init
  imports Snx_Resources Snx_Driver Snx_Portlist Snx_Chardev
begin

text \<open>
  Loading and unloading the module: \<open>snx_init\<close>, \<open>snx_exit\<close> and the interrupt entry
  \<open>sunix_interrupt\<close> of driver/snx_main.c. The functions of the driver are composed the way the
  code composes them, with its labels for unwinding: the table functions of this file, the
  registration of the tty driver and its ports (Snx_Driver), the parallel ports (Snx_Portlist),
  ppdev and the printers (Snx_Chardev). What the kernel answers them is a record of parameters.
\<close>

section \<open>Loading, unloading and the interrupt entry\<close>

subsection \<open>The interrupt entry\<close>

text \<open>
  \<open>dev_id\<close> is the cookie of the irq: the index of a board entry, or \<open>None\<close> for a pointer that
  is not one of the table. The handlers are parameters (the serial one is modelled in its own
  theory, the parallel one is always NULL in this driver). The result \<open>None\<close> is the dereference
  of the NULL \<open>sb\<close>; otherwise it is whether the function answers IRQ_HANDLED.
\<close>

definition sunix_interrupt :: "(sunix_board \<Rightarrow> nat \<Rightarrow> 's \<Rightarrow> int \<times> 's) \<Rightarrow> (sunix_board \<Rightarrow> nat \<Rightarrow> 's \<Rightarrow> int \<times> 's)
    \<Rightarrow> sunix_board list \<Rightarrow> nat option \<Rightarrow> 's \<Rightarrow> (bool \<times> 's) option" where
  "sunix_interrupt ser_isr par_isr boards dev_id s =
    (case dev_id of
       None \<Rightarrow> None
     | Some i \<Rightarrow>
        (if i \<ge> SNX_BOARDS_MAX then None
         else
          (let sb = boards ! i in
           if sb_board_enum sb \<le> 0 then Some (False, s)
           else
            (let (status1, s1) = (if sb_ser_port sb > 0 \<and> sb_ser_isr sb
                                  then ser_isr sb (unat (sb_ser_port_index sb)) s else (0, s));
                 (status2, s2) = (if sb_par_port sb > 0 \<and> sb_par_isr sb
                                  then par_isr sb (unat (sb_par_port_index sb)) s1 else (status1, s1))
             in Some (status2 = 0, s2)))))"

subsection \<open>What loading calls\<close>

datatype part = PciDriver | Irq nat | SerDriver | SerPorts | Parport | Ppdev | Lp

datatype call = Setup part | Teardown part

text \<open>
  What the kernel answers: the registration of the PCI driver, the bus, the interrupt lines, the
  memory of the lines, \<^verbatim>\<open>tty_alloc_driver\<close> and \<^verbatim>\<open>tty_register_driver\<close>, the allocator and
  \<^verbatim>\<open>request_region\<close> for each entry of \<^verbatim>\<open>sunix_par_table\<close> with the address of its port, and the
  character devices of ppdev and of the printers.
\<close>

record services =
  sv_HZ :: u32
  sv_pci_register :: int
  sv_scan :: pci_scan
  sv_request_irq :: "sunix_board \<Rightarrow> int"
  sv_kmalloc :: bool
  sv_tty_alloc :: tty_alloc
  sv_tty_register :: int
  sv_par_answers :: "nat \<Rightarrow> par_answers"
  sv_par_addr :: "nat \<Rightarrow> nat"
  sv_ppdev :: cdev_answers
  sv_lp :: cdev_answers

text \<open>
  The driver's state while it loads: the tty driver with its ports, the parallel ports with the
  machine, the character devices. The drivers on the parallel ports are only those of this
  module, none of them present while the ports are probed and again when they are given up.
\<close>

record loading =
  ld_ser :: ser_reg
  ld_par :: "unit par_world"
  ld_cdev :: chardevs

definition start_loading :: "sunix_ser_port list \<Rightarrow> machine \<Rightarrow> loading" where
  "start_loading ser m =
    \<lparr>ld_ser = \<lparr>rg_nr = SNX_SER_TOTAL_MAX + 1, rg_state = None, rg_tty = False, rg_table = ser\<rparr>,
     ld_par = \<lparr>wd_ports = (\<lambda>_. None), wd_all = [], wd_list = [], wd_ports_list = [], wd_drivers = [], wd_held = [], wd_mach = m\<rparr>,
     ld_cdev = \<lparr>cd_held = [], cd_lp = replicate SNX_LP_NO None, cd_lp_count = 0\<rparr>\<rparr>"

definition ld_mach :: "loading \<Rightarrow> machine" where
  "ld_mach ld = wd_mach (ld_par ld)"

definition with_ser :: "ser_reg \<times> machine \<Rightarrow> loading \<Rightarrow> loading" where
  "with_ser dm ld = ld\<lparr>ld_ser := fst dm, ld_par := (ld_par ld)\<lparr>wd_mach := snd dm\<rparr>\<rparr>"

text \<open>The numbers of the announced ports, to which ppdev and the printers attach.\<close>

definition announced :: "loading \<Rightarrow> int list" where
  "announced ld = map (number_of (wd_ports (ld_par ld))) (wd_list (ld_par ld))"

abbreviation (input) no_hook :: "unit hook" where "no_hook \<equiv> (\<lambda>_ _ w. w)"

text \<open>Tearing a part down. \<^verbatim>\<open>pci_unregister_driver\<close> and \<^verbatim>\<open>free_irq\<close> are the kernel's.\<close>

definition tear_down :: "part \<Rightarrow> loading \<Rightarrow> loading option" where
  "tear_down p ld =
    (case p of
       PciDriver \<Rightarrow> Some ld
     | Irq i \<Rightarrow> Some ld
     | SerDriver \<Rightarrow> Some (with_ser (sunix_ser_unregister_driver (ld_ser ld) (ld_mach ld)) ld)
     | SerPorts \<Rightarrow> map_option (\<lambda>dm. with_ser dm ld) (sunix_ser_unregister_ports (ld_ser ld) (ld_mach ld))
     | Parport \<Rightarrow> map_option (\<lambda>w. ld\<lparr>ld_par := w\<rparr>) (sunix_par_parport_exit no_hook (ld_par ld))
     | Ppdev \<Rightarrow> map_option (\<lambda>c. ld\<lparr>ld_cdev := c\<rparr>) (sunix_par_ppdev_exit (announced ld) (ld_cdev ld))
     | Lp \<Rightarrow> map_option (\<lambda>c. ld\<lparr>ld_cdev := c\<rparr>) (sunix_par_lp_exit (ld_cdev ld)))"

text \<open>The tear-down calls of a list, run; \<open>None\<close>: one of them follows a pointer it must not.\<close>

fun unwind :: "call list \<Rightarrow> loading \<Rightarrow> loading option" where
  "unwind [] ld = Some ld"
| "unwind (Teardown p # cs) ld = Option.bind (tear_down p ld) (unwind cs)"
| "unwind (Setup p # cs) ld = unwind cs ld"

text \<open>
  The outcome: the status \<open>snx_init\<close> returns, the calls that set something up successfully or
  tore it down, in order, the tables and the number of parallel ports (which \<open>snx_exit\<close> reads),
  and the state that is left.
\<close>

record outcome =
  oc_status :: int
  oc_calls :: "call list"
  oc_tables :: tables
  oc_par_total :: int
  oc_state :: loading

text \<open>The labels of the unwinding code, each falling through to the next.\<close>

definition step1_fail :: "call list" where
  "step1_fail = []"

definition step2_fail :: "sunix_board list \<Rightarrow> call list" where
  "step2_fail boards = map (Teardown \<circ> Irq) (sunix_release_irq boards) @ step1_fail"

definition step3_fail :: "sunix_board list \<Rightarrow> call list" where
  "step3_fail boards = Teardown SerDriver # step2_fail boards"

definition step4_fail :: "sunix_board list \<Rightarrow> call list" where
  "step4_fail boards = Teardown SerPorts # step3_fail boards"

definition step5_fail :: "sunix_board list \<Rightarrow> call list" where
  "step5_fail boards = Teardown Parport # step4_fail boards"

definition step6_fail :: "sunix_board list \<Rightarrow> call list" where
  "step6_fail boards = Teardown Ppdev # step5_fail boards"

definition step7_fail :: "sunix_board list \<Rightarrow> call list" where
  "step7_fail boards = Teardown PciDriver # step6_fail boards"

definition no_tables :: tables where
  "no_tables = \<lparr>tb_boards = replicate SNX_BOARDS_MAX zero_board,
     tb_ser = replicate (SNX_SER_TOTAL_MAX + 1) zero_ser_port,
     tb_par = replicate SNX_PAR_TOTAL_MAX zero_par_port, tb_index = 0\<rparr>"

text \<open>A jump to a label: the calls from there on are made, and the status is returned.\<close>

definition leave :: "int \<Rightarrow> call list \<Rightarrow> call list \<Rightarrow> loading \<Rightarrow> (int \<times> call list \<times> loading) option" where
  "leave status log cs ld = map_option (\<lambda>ld'. (status, log @ cs, ld')) (unwind cs ld)"

definition register_parallel :: "services \<Rightarrow> tables \<Rightarrow> loading \<Rightarrow> call list \<Rightarrow> (int \<times> call list \<times> loading) option" where
  "register_parallel sv tb ld log =
    (let boards = tb_boards tb in
     case sunix_par_parport_init no_hook (sv_par_answers sv) (sv_par_addr sv) (tb_par tb) (ld_par ld) of
       None \<Rightarrow> None
     | Some (status, w) \<Rightarrow>
        (let ld1 = ld\<lparr>ld_par := w\<rparr> in
         if status \<noteq> 0 then leave status log (step4_fail boards) ld1
         else case sunix_par_ppdev_init (sv_ppdev sv) (announced ld1) (ld_cdev ld1) of
           None \<Rightarrow> None
         | Some (status, c) \<Rightarrow>
            (let ld2 = ld1\<lparr>ld_cdev := c\<rparr> in
             if status \<noteq> 0 then leave status (log @ [Setup Parport]) (step5_fail boards) ld2
             else case snx_lp_init (sv_lp sv) (announced ld2) (ld_cdev ld2) of
               None \<Rightarrow> None
             | Some (status, c) \<Rightarrow>
                (let ld3 = ld2\<lparr>ld_cdev := c\<rparr> in
                 if status \<noteq> 0 then leave status (log @ [Setup Parport, Setup Ppdev]) (step6_fail boards) ld3
                 else Some (0, log @ [Setup Parport, Setup Ppdev, Setup Lp], ld3)))))"

definition register_all :: "services \<Rightarrow> int \<Rightarrow> tables \<Rightarrow> loading \<Rightarrow> call list \<Rightarrow> (int \<times> call list \<times> loading) option" where
  "register_all sv par_total tb ld log =
    (let boards = tb_boards tb;
         (status, irqs) = sunix_register_irq (sv_request_irq sv) boards;
         log1 = log @ map (Setup \<circ> Irq) irqs
     in
      if status \<noteq> 0 then leave status log1 step1_fail ld
      else case sunix_ser_register_driver (sv_HZ sv) (sv_kmalloc sv) (sv_tty_alloc sv) (sv_tty_register sv) (ld_ser ld) (ld_mach ld) of
        None \<Rightarrow> None
      | Some (status, drv1, m1) \<Rightarrow>
         (let ld1 = with_ser (drv1, m1) ld in
          if status \<noteq> 0 then leave status log1 (step2_fail boards) ld1
          else case sunix_ser_register_ports (ld_ser ld1) (ld_mach ld1) of
            None \<Rightarrow> None
          | Some (status, drv2, m2) \<Rightarrow>
             (let ld2 = with_ser (drv2, m2) ld1 in
              if status \<noteq> 0 then leave status (log1 @ [Setup SerDriver]) (step3_fail boards) ld2
              else if par_total > 0 then register_parallel sv tb ld2 (log1 @ [Setup SerDriver, Setup SerPorts])
              else Some (0, log1 @ [Setup SerDriver, Setup SerPorts], ld2))))"

definition outcome_of :: "tables \<Rightarrow> int \<Rightarrow> int \<times> call list \<times> loading \<Rightarrow> outcome" where
  "outcome_of tb par_total r = \<lparr>oc_status = fst r, oc_calls = fst (snd r), oc_tables = tb,
     oc_par_total = par_total, oc_state = snd (snd r)\<rparr>"

text \<open>\<open>None\<close> is an access the C code must not make, in one of the functions called.\<close>

definition snx_init :: "services \<Rightarrow> machine \<Rightarrow> outcome option" where
  "snx_init sv m =
    (let start = start_loading (tb_ser no_tables) m;
         fail = (\<lambda>status log cs par_total. map_option (outcome_of no_tables par_total) (leave status log cs start));
         log = [Setup PciDriver]
     in
      if sv_pci_register sv \<noteq> 0 then fail (sv_pci_register sv) [] (step7_fail (tb_boards no_tables)) 0
      else
       (case sunix_pci_board_probe (sv_scan sv) m of
          Inl e \<Rightarrow> fail e log step1_fail 0
        | Inr pr \<Rightarrow>
           (case sunix_get_pci_board_conf \<lparr>cf_boards = pr_boards pr, cf_ser_total = 0, cf_par_total = 0\<rparr> of
              Inl (Status e) \<Rightarrow> fail e log step1_fail 0
            | Inl Fault \<Rightarrow> None
            | Inr cf \<Rightarrow>
               (case sunix_assign_resource (cf_boards cf) of
                  Inl (Status e) \<Rightarrow> fail e log step1_fail (cf_par_total cf)
                | Inl Fault \<Rightarrow> None
                | Inr tb \<Rightarrow>
                   (let (tb1, m1) = sunix_ser_port_table_init tb (pr_mach pr);
                        tb2 = sunix_par_port_table_init tb1
                    in map_option (outcome_of tb2 (cf_par_total cf))
                         (register_all sv (cf_par_total cf) tb2 (start_loading (tb_ser tb2) m1) log))))))"

definition snx_exit :: "outcome \<Rightarrow> call list" where
  "snx_exit oc =
     (if oc_par_total oc > 0 then [Teardown Lp, Teardown Ppdev, Teardown Parport] else [])
     @ [Teardown SerPorts, Teardown SerDriver]
     @ map (Teardown \<circ> Irq) (sunix_release_irq (tb_boards (oc_tables oc)))
     @ [Teardown PciDriver]"

subsection \<open>What the calls leave set up\<close>

text \<open>
  The parts still set up after a sequence of calls. Tearing down a part that is not set up
  is an error of the driver: \<open>None\<close>.
\<close>

fun still_up :: "part list \<Rightarrow> call list \<Rightarrow> part list option" where
  "still_up up [] = Some up"
| "still_up up (Setup p # cs) = still_up (p # up) cs"
| "still_up up (Teardown p # cs) = (if p \<in> set up then still_up (remove1 p up) cs else None)"

lemma still_up_append:
  "still_up up (cs @ ds) = (case still_up up cs of None \<Rightarrow> None | Some up' \<Rightarrow> still_up up' ds)"
  by (induction up cs rule: still_up.induct) auto

lemma still_up_setup [simp]: "still_up up (map (Setup \<circ> f) xs @ cs) = still_up (rev (map f xs) @ up) cs"
  by (induction xs arbitrary: up) auto

lemma register_irqs_ok:
  "register_irqs req boards is held = (0, held')
    \<Longrightarrow> held' = held @ filter (\<lambda>i. board_used (boards ! i)) is"
  by (induction req boards "is" held rule: register_irqs.induct) (auto split: if_splits)

lemma register_irq_all: "sunix_register_irq req boards = (0, irqs) \<Longrightarrow> irqs = sunix_release_irq boards"
  using register_irqs_ok [of req boards "[0..<SNX_BOARDS_MAX]" "[]" irqs]
  by (simp add: sunix_register_irq_def sunix_release_irq_def)

lemma remove1_irq: "distinct (map Irq xs @ up) \<Longrightarrow> set ys = set (map Irq xs) \<Longrightarrow> distinct ys
    \<Longrightarrow> still_up (ys @ up) (map (Teardown \<circ> Irq) xs @ cs) = still_up up cs"
proof (induction xs arbitrary: ys)
  case Nil
  then show ?case by simp
next
  case (Cons x xs)
  have "Irq x \<in> set ys" using Cons.prems by simp
  moreover have "still_up (remove1 (Irq x) ys @ up) (map (Teardown \<circ> Irq) xs @ cs) = still_up up cs"
    using Cons.prems by (intro Cons.IH) (auto simp: set_remove1_eq)
  ultimately show ?case by (simp add: remove1_append comp_def)
qed

lemma still_up_irqs:
  assumes "set up \<inter> range Irq = {}" and "distinct xs" and "distinct up"
  shows "still_up (rev (map Irq xs) @ up) (map (Teardown \<circ> Irq) xs @ cs) = still_up up cs"
proof (rule remove1_irq)
  show "distinct (map Irq xs @ up)" using assms by (auto simp: distinct_map inj_on_def)
  show "distinct (rev (map Irq xs))" using assms by (simp add: distinct_map inj_on_def)
qed simp

lemma distinct_release: "distinct (sunix_release_irq boards)"
  by (simp add: sunix_release_irq_def)

text \<open>Registering, from the state in which only the PCI driver is set up.\<close>

lemma up_after_irqs:
  assumes "sunix_register_irq req boards = (0, irqs)"
  shows "still_up [] (Setup PciDriver # map (Setup \<circ> Irq) irqs @ cs) = still_up (rev (map Irq irqs) @ [PciDriver]) cs"
    "still_up (rev (map Irq irqs) @ [PciDriver]) (step2_fail boards) = Some [PciDriver]"
    "still_up (rev (map Irq irqs) @ [PciDriver]) (map (Teardown \<circ> Irq) (sunix_release_irq boards) @ cs)
       = still_up [PciDriver] cs"
proof -
  have "still_up (rev (map Irq irqs) @ [PciDriver]) (map (Teardown \<circ> Irq) irqs @ ds) = still_up [PciDriver] ds" for ds
    using distinct_release [of boards] register_irq_all [OF assms] by (intro still_up_irqs) auto
  note this [unfolded register_irq_all [OF assms]]
  from this this [of "[]"]
  show "still_up (rev (map Irq irqs) @ [PciDriver]) (step2_fail boards) = Some [PciDriver]"
    "still_up (rev (map Irq irqs) @ [PciDriver]) (map (Teardown \<circ> Irq) (sunix_release_irq boards) @ cs)
       = still_up [PciDriver] cs"
    using register_irq_all [OF assms] by (simp_all add: step2_fail_def step1_fail_def)
qed simp

lemma leave_iff: "leave st log cs ld = Some (st', calls, ld') \<longleftrightarrow> st' = st \<and> calls = log @ cs \<and> unwind cs ld = Some ld'"
  by (auto simp: leave_def)

lemmas step_labels = step3_fail_def step4_fail_def step5_fail_def step6_fail_def

lemma register_parallel_calls:
  assumes "register_parallel sv tb ld log = Some (status, calls, ld')"
  shows "if status = 0 then calls = log @ [Setup Parport, Setup Ppdev, Setup Lp]
    else calls \<in> {log @ step4_fail (tb_boards tb), log @ [Setup Parport] @ step5_fail (tb_boards tb),
                  log @ [Setup Parport, Setup Ppdev] @ step6_fail (tb_boards tb)}"
  using assms by (auto simp: register_parallel_def leave_iff Let_def split: option.splits if_splits)

lemma register_all_calls:
  assumes "register_all sv par_total tb ld log = Some (status, calls, ld')"
    and "sunix_register_irq (sv_request_irq sv) (tb_boards tb) = (st, irqs)"
  shows "if st \<noteq> 0 then status \<noteq> 0 \<and> calls = log @ map (Setup \<circ> Irq) irqs
    else \<exists>cs. calls = log @ map (Setup \<circ> Irq) irqs @ cs
      \<and> (if status = 0 then cs = [Setup SerDriver, Setup SerPorts] @ (if par_total > 0 then [Setup Parport, Setup Ppdev, Setup Lp] else [])
         else cs \<in> {step2_fail (tb_boards tb), Setup SerDriver # step3_fail (tb_boards tb),
            [Setup SerDriver, Setup SerPorts] @ step4_fail (tb_boards tb), [Setup SerDriver, Setup SerPorts, Setup Parport] @ step5_fail (tb_boards tb),
            [Setup SerDriver, Setup SerPorts, Setup Parport, Setup Ppdev] @ step6_fail (tb_boards tb)})"
  using assms
  by (auto simp: register_all_def leave_iff Let_def step1_fail_def dest!: register_parallel_calls split: option.splits if_splits)

lemma register_all_fails:
  assumes "register_all sv par_total tb ld [Setup PciDriver] = Some (status, calls, ld')" and "status \<noteq> 0"
  shows "\<exists>irqs. still_up [] calls = Some (map Irq irqs @ [PciDriver])"
proof -
  obtain st irqs where r: "sunix_register_irq (sv_request_irq sv) (tb_boards tb) = (st, irqs)" by fastforce
  note calls = register_all_calls [OF assms(1) r]
  show ?thesis
  proof (cases "st = 0")
    case False
    then have "calls = Setup PciDriver # map (Setup \<circ> Irq) irqs @ []" using calls by simp
    then have "still_up [] calls = Some (map Irq (rev irqs) @ [PciDriver])"
      by (simp only: still_up.simps still_up_setup) (simp add: rev_map)
    then show ?thesis by blast
  next
    case True
    note up = up_after_irqs [OF r [unfolded True]]
    have "still_up [] calls = Some [PciDriver]"
      using calls assms(2) True
      by (auto simp: up step_labels simp del: still_up.simps(2)) (simp_all add: up)
    then show ?thesis by (intro exI [of _ "[]"]) simp
  qed
qed

lemma register_all_succeeds:
  assumes "register_all sv (oc_par_total oc) (oc_tables oc) ld [Setup PciDriver] = Some (0, calls, ld')"
  shows "still_up [] (calls @ snx_exit oc) = Some []"
proof -
  let ?boards = "tb_boards (oc_tables oc)"
  obtain st irqs where r: "sunix_register_irq (sv_request_irq sv) ?boards = (st, irqs)" by fastforce
  note calls = register_all_calls [OF assms r]
  have z: "st = 0" using calls by (auto split: if_splits)
  note up = up_after_irqs [OF r [unfolded z]]
  show ?thesis
    using calls z
    by (auto simp: snx_exit_def up simp del: still_up.simps(2) split: if_splits) (simp_all add: up)
qed

subsection \<open>Loading as a whole\<close>

lemma add_board_status: "add_board t d st = Inl e \<Longrightarrow> e \<noteq> 0"
  by (auto simp: add_board_def Let_def split: if_splits)

lemma search_status:
  assumes "search body ds st = Inl e" and "\<And>t d st e. body t d st = Inl e \<Longrightarrow> e \<noteq> 0"
  shows "e \<noteq> 0"
  using assms unfolding search_def by (auto dest!: fold_err_Inl)

lemma probe_status: "sunix_pci_board_probe scan m = Inl e \<Longrightarrow> e \<noteq> 0"
proof -
  have "probe_golden_serial t d st = Inl e \<Longrightarrow> e \<noteq> 0" "probe_golden_parallel t d st = Inl e \<Longrightarrow> e \<noteq> 0"
    "probe_matrix t d st = Inl e \<Longrightarrow> e \<noteq> 0" "probe_sun1999 t d st = Inl e \<Longrightarrow> e \<noteq> 0"
    "probe_sun1999_parallel t d st = Inl e \<Longrightarrow> e \<noteq> 0" for t d st e
    by (auto simp: probe_golden_serial_def probe_golden_parallel_def probe_matrix_def probe_sun1999_def
        probe_sun1999_parallel_def Let_def dest: add_board_status split: if_splits sum.splits prod.splits)
  note st = search_status [OF _ this(1)] search_status [OF _ this(2)] search_status [OF _ this(3)]
    search_status [OF _ this(4)] search_status [OF _ this(5)]
  show "sunix_pci_board_probe scan m = Inl e \<Longrightarrow> e \<noteq> 0"
    unfolding sunix_pci_board_probe_def by (auto split: sum.splits if_splits dest: st)
qed

lemma conf_status: "sunix_get_pci_board_conf cf = Inl (Status e) \<Longrightarrow> e \<noteq> 0"
  unfolding sunix_get_pci_board_conf_def
  by (auto dest!: fold_err_Inl simp: conf_board_def Let_def split: if_splits option.splits)

lemma assign_serial_status: "assign_serial k j n sb ser = Inl e \<Longrightarrow> e = Fault"
  by (induction k j n sb ser rule: assign_serial.induct) (auto simp: Let_def split: if_splits option.splits)

lemma assign_parallel_status: "assign_parallel js k sb par = Inl e \<Longrightarrow> e = Fault"
  by (induction js k sb par rule: assign_parallel.induct) (auto simp: Let_def split: if_splits option.splits)

lemma assign_board_status: "assign_board i st = Inl e \<Longrightarrow> e = Fault"
  unfolding assign_board_def Let_def
  by (auto dest: assign_serial_status assign_parallel_status split: sum.split_asm if_split_asm prod.split_asm)

lemma assign_status: "sunix_assign_resource boards = Inl e \<Longrightarrow> e = Fault"
  unfolding sunix_assign_resource_def by (auto dest!: fold_err_Inl dest: assign_board_status)

text \<open>
  When the PCI core refuses the driver, the unwinding code jumps to its last label and tears down
  parts that were never set up; ppdev's is the first to fault.
\<close>

lemma snx_init_refused_faults: "sv_pci_register sv \<noteq> 0 \<Longrightarrow> snx_init sv m = None"
  by (simp add: snx_init_def leave_def step7_fail_def step6_fail_def tear_down_def start_loading_def
      sunix_par_ppdev_exit_def drop_it_def)

lemma leave_step1 [simp]: "leave st log step1_fail ld = Some (st, log, ld)"
  by (simp add: leave_def step1_fail_def)

text \<open>A run of \<open>snx_init\<close> that returns fails before anything else is set up, or registers.\<close>

lemma snx_init_cases [consumes 1, case_names early registers]:
  assumes "snx_init sv m = Some oc"
  obtains "sv_pci_register sv = 0" "oc_status oc \<noteq> 0" "oc_calls oc = [Setup PciDriver]"
  | ld where "sv_pci_register sv = 0"
    "register_all sv (oc_par_total oc) (oc_tables oc) ld [Setup PciDriver] = Some (oc_status oc, oc_calls oc, oc_state oc)"
proof -
  have reg: "sv_pci_register sv = 0" using assms snx_init_refused_faults by fastforce
  show ?thesis
  proof (cases "sunix_pci_board_probe (sv_scan sv) m")
    case (Inl e)
    with that(1) reg assms show ?thesis by (auto simp: snx_init_def outcome_of_def Let_def dest: probe_status)
  next
    case (Inr pr)
    note pr = this
    show ?thesis
    proof (cases "sunix_get_pci_board_conf \<lparr>cf_boards = pr_boards pr, cf_ser_total = 0, cf_par_total = 0\<rparr>")
      case (Inl e)
      with that(1) reg pr assms show ?thesis
        by (auto simp: snx_init_def outcome_of_def Let_def dest: conf_status split: res_error.splits)
    next
      case (Inr cf)
      show ?thesis
      proof (cases "sunix_assign_resource (cf_boards cf)")
        case (Inl e)
        have "e = Fault" using assign_status [OF Inl] .
        with Inl Inr reg pr assms show ?thesis by (simp add: snx_init_def)
      next
        case (Inr tb)
        with reg pr \<open>sunix_get_pci_board_conf _ = Inr cf\<close> assms
        obtain tb2 ld r where "register_all sv (cf_par_total cf) tb2 ld [Setup PciDriver] = Some r" "oc = outcome_of tb2 (cf_par_total cf) r"
          by (auto simp: snx_init_def Let_def split: prod.splits)
        then show ?thesis using that(2) reg by (auto simp: outcome_of_def)
      qed
    qed
  qed
qed

text \<open>A board the probe has filled has its device, so reading the configuration cannot fault.\<close>

lemma conf_no_fault:
  assumes "board_table_ok D pr"
  shows "fold_err conf_board [0..<4] \<lparr>cf_boards = pr_boards pr, cf_ser_total = 0, cf_par_total = 0\<rparr> \<noteq> Inl Fault"
proof -
  define good where "good boards \<longleftrightarrow> length boards = 4
      \<and> (\<forall>i<4. board_used (boards ! i) \<longrightarrow> sb_pdev (boards ! i) \<noteq> None)" for boards
  have start: "good (pr_boards pr)"
    unfolding good_def
  proof (intro conjI allI impI)
    fix i :: nat
    assume "i < 4" and used: "board_used (pr_boards pr ! i)"
    then have "i < pr_boardcnt pr" using assms by (cases "i < pr_boardcnt pr") (auto simp: board_table_ok_def)
    then show "sb_pdev (pr_boards pr ! i) \<noteq> None" using assms by (auto simp: board_table_ok_def entry_ok_def)
  qed (use assms in \<open>simp add: board_table_ok_def\<close>)
  have keep: "good (cf_boards st')" if "good (cf_boards st)" "i < 4" "conf_board i st = Inr st'" for i st st'
    using that by (auto simp: good_def conf_board_def Let_def nth_list_update split: if_splits option.splits)
  have nofault: "conf_board i st \<noteq> Inl Fault" if "good (cf_boards st)" "i < 4" for i st
    using that by (auto simp: good_def conf_board_def Let_def split: option.splits)
  have "good (cf_boards st) \<Longrightarrow> \<forall>i\<in>set is. i < 4 \<Longrightarrow> fold_err conf_board is st \<noteq> Inl Fault" for "is" st
  proof (induction "is" arbitrary: st)
    case Nil
    then show ?case by simp
  next
    case (Cons i "is")
    then show ?case using keep nofault by (auto split: sum.splits)
  qed
  from this [of "\<lparr>cf_boards = pr_boards pr, cf_ser_total = 0, cf_par_total = 0\<rparr>" "[0..<4]"] start show ?thesis by simp
qed

subsection \<open>The functions called\<close>

lemma init_serial_length [simp]: "length (fst (snd (init_serial k j n sb modes ser m))) = length ser"
  by (induction k j n sb modes ser m rule: init_serial.induct) (simp_all add: Let_def split: prod.splits)

lemma serial_table_length: "length (tb_ser (fst (sunix_ser_port_table_init tb m))) = length (tb_ser tb)"
proof -
  have step: "length (tb_ser (fst (snd (init_board i st)))) = length (tb_ser (fst (snd st)))" for i st
  proof -
    obtain modes tb m where st: "st = (modes, tb, m)" by (cases st)
    let ?sb = "tb_boards tb ! i"
    obtain modes' ser m' where s: "init_serial (unat (sb_ser_port ?sb)) 0 (unat (sb_ser_port_index ?sb)) ?sb modes (tb_ser tb) m = (modes', ser, m')"
      by (rule prod_cases3)
    have "length ser = length (tb_ser tb)"
      using init_serial_length [of "unat (sb_ser_port ?sb)" 0 "unat (sb_ser_port_index ?sb)" ?sb modes "tb_ser tb" m] s by simp
    then show ?thesis using s by (simp add: st init_board_def Let_def)
  qed
  have "length (tb_ser (fst (snd (fold init_board is st)))) = length (tb_ser (fst (snd st)))" for "is" st
    by (induction "is" arbitrary: st) (simp_all add: step)
  then show ?thesis by (simp add: sunix_ser_port_table_init_def)
qed

lemma parallel_table_keeps_serial: "tb_ser (sunix_par_port_table_init tb) = tb_ser tb"
proof -
  have "tb_ser (fold par_init_board is tb) = tb_ser tb" for "is"
    by (induction "is" arbitrary: tb) (simp_all add: par_init_board_def Let_def split: prod.splits)
  then show ?thesis by (simp add: sunix_par_port_table_init_def)
qed

lemma driver_registered:
  assumes "rg_nr drv = SNX_SER_TOTAL_MAX + 1" and "length (rg_table drv) = SNX_SER_TOTAL_MAX + 1"
  obtains drv1 m1 where "sunix_ser_register_driver HZ True TtyDriver st drv m = Some (st, drv1, m1)"
    "st = 0 \<longrightarrow> unregistered drv1 (replicate (SNX_SER_TOTAL_MAX + 1) (init_line HZ))"
proof (cases "st < 0")
  case True
  then show ?thesis by (intro that) (simp_all add: sunix_ser_register_driver_def Let_def)
next
  case False
  let ?drv1 = "drv\<lparr>rg_state := Some (replicate (SNX_SER_TOTAL_MAX + 1) (init_line HZ)), rg_tty := True\<rparr>"
  have "\<exists>m1. sunix_ser_register_driver HZ True TtyDriver st drv m = Some (st, ?drv1, m1)"
    using False assms by (simp add: sunix_ser_register_driver_def Let_def)
  moreover have "unregistered ?drv1 (replicate (SNX_SER_TOTAL_MAX + 1) (init_line HZ))"
    using assms by (simp add: unregistered_def init_line_def)
  ultimately show ?thesis using that by blast
qed

lemma ports_registered:
  assumes "unregistered drv lines"
  obtains drv1 m1 lines1 where "sunix_ser_register_ports drv m = Some (0, drv1, m1)" "registered drv1 lines1"
  using register_prefix [OF assms order_refl] registered_all [OF assms] by (auto simp: sunix_ser_register_ports_def)

lemma lp_init_returns: "\<exists>st c. snx_lp_init ca ports w = Some (st, c) \<and> (st \<noteq> 0 \<longrightarrow> cd_held c = cd_held w)"
  by (simp add: snx_lp_init_def Let_def drop_it_def hold_def)

text \<open>Unwinding from each label, with what must be set up there.\<close>

lemma unwind_irqs: "unwind (map (Teardown \<circ> Irq) is @ cs) ld = unwind cs ld"
  by (induction "is") (simp_all add: tear_down_def)

lemma unwind_step2: "unwind (step2_fail boards) ld = Some ld"
  using unwind_irqs [of _ "[]"] by (simp add: step2_fail_def step1_fail_def)

lemma unwind_step3: "\<exists>ld'. unwind (step3_fail boards) ld = Some ld'"
  by (simp add: step3_fail_def unwind_step2 tear_down_def)

lemma unwind_step4:
  assumes "registered (ld_ser ld) lines"
  shows "\<exists>ld'. unwind (step4_fail boards) ld = Some ld'"
  using unregister_prefix [OF assms order_refl] unwind_step3
  by (simp add: step4_fail_def tear_down_def sunix_ser_unregister_ports_def)

lemma unwind_step5:
  assumes "registered (ld_ser ld) lines" and "ports_held {#} (ld_par ld)"
  shows "\<exists>ld'. unwind (step5_fail boards) ld = Some ld'"
proof -
  obtain w where "sunix_par_parport_exit no_hook (ld_par ld) = Some w"
    by (rule parport_exit_ok [OF assms(2) quiet_hook])
  then show ?thesis using unwind_step4 [of "ld\<lparr>ld_par := w\<rparr>"] assms(1) by (simp add: step5_fail_def tear_down_def)
qed

lemma unwind_step6:
  assumes "registered (ld_ser ld) lines" and "ports_held {#} (ld_par ld)" and "mset (cd_held (ld_cdev ld)) = pp_objects (announced ld)"
  shows "\<exists>ld'. unwind (step6_fail boards) ld = Some ld'"
proof -
  obtain c where "sunix_par_ppdev_exit (announced ld) (ld_cdev ld) = Some c"
    using ppdev_exit_mset [of "ld_cdev ld" "announced ld" "{#}"] assms(3) by auto
  then show ?thesis using unwind_step5 [of "ld\<lparr>ld_cdev := c\<rparr>"] assms(1,2) by (simp add: step6_fail_def tear_down_def)
qed

text \<open>Before the parallel ports: the serial ones are registered, nothing else is held.\<close>

definition only_serial :: "loading \<Rightarrow> bool" where
  "only_serial ld \<longleftrightarrow> (\<exists>lines. registered (ld_ser ld) lines) \<and> wd_held (ld_par ld) = [] \<and> wd_all (ld_par ld) = []
     \<and> wd_ports_list (ld_par ld) = [] \<and> cd_held (ld_cdev ld) = []"

lemma register_parallel_returns:
  assumes "only_serial ld" and "inj (sv_par_addr sv)" and "\<forall>i. an_region_hi (sv_par_answers sv i)"
  shows "register_parallel sv tb ld log \<noteq> None"
proof -
  from assms(1) obtain lines where reg: "registered (ld_ser ld) lines" by (auto simp: only_serial_def)
  have d: "distinct (map (\<lambda>x. sv_par_addr sv (fst x)) (enumerate 0 (tb_par tb)))"
  proof -
    have "map (\<lambda>x. sv_par_addr sv (fst x)) (enumerate 0 (tb_par tb)) = map (sv_par_addr sv) (map fst (enumerate 0 (tb_par tb)))"
      by (simp only: map_map comp_def)
    then show ?thesis using assms(2) by (simp only: map_fst_enumerate) (simp add: distinct_map inj_on_def inj_def)
  qed
  have hi: "an_region_hi (sv_par_answers sv i)" for i using assms(3) ..
  have h: "ports_held {#} (ld_par ld)" using assms(1) by (simp add: only_serial_def ports_held_def)
  obtain st w where 1: "sunix_par_parport_init no_hook (sv_par_answers sv) (sv_par_addr sv) (tb_par tb) (ld_par ld) = Some (st, w)"
    "st = 0 \<longrightarrow> ports_held {#} w"
    using probe_ports_ok [where ans = "sv_par_answers sv", OF quiet_hook hi h d] assms(1) by (auto simp: sunix_par_parport_init_def only_serial_def)
  let ?ld1 = "ld\<lparr>ld_par := w\<rparr>"
  obtain st2 c where 2: "sunix_par_ppdev_init (sv_ppdev sv) (announced ?ld1) (ld_cdev ?ld1) = Some (st2, c)"
    "st2 = 0 \<longrightarrow> mset (cd_held c) = pp_objects (announced ?ld1) + mset (cd_held (ld_cdev ?ld1))"
    by (rule ppdev_init_mset)
  let ?ld2 = "?ld1\<lparr>ld_cdev := c\<rparr>"
  obtain st3 c3 where 3: "snx_lp_init (sv_lp sv) (announced ?ld2) (ld_cdev ?ld2) = Some (st3, c3)" "st3 \<noteq> 0 \<longrightarrow> cd_held c3 = cd_held c"
    using lp_init_returns [of "sv_lp sv" "announced ?ld2" "ld_cdev ?ld2"] by auto
  let ?ld3 = "?ld2\<lparr>ld_cdev := c3\<rparr>"
  have same: "announced ?ld3 = announced ?ld1" by (simp add: announced_def)
  consider "st \<noteq> 0" | "st = 0" "st2 \<noteq> 0" | "st = 0" "st2 = 0" "st3 \<noteq> 0" | "st = 0" "st2 = 0" "st3 = 0" by blast
  then show ?thesis
  proof cases
    case 1
    then show ?thesis using \<open>sunix_par_parport_init _ _ _ _ _ = _\<close> unwind_step4 [of ?ld1] reg
      by (auto simp: register_parallel_def leave_def Let_def)
  next
    case 2
    then show ?thesis using 1 \<open>sunix_par_ppdev_init _ _ _ = _\<close> unwind_step5 [of ?ld2] reg
      by (auto simp: register_parallel_def leave_def Let_def)
  next
    case 3
    then have "mset (cd_held (ld_cdev ?ld3)) = pp_objects (announced ?ld3)"
      using 2(2) \<open>st3 \<noteq> 0 \<longrightarrow> _\<close> assms(1) unfolding same by (simp add: only_serial_def)
    then show ?thesis using 3 1 2 \<open>snx_lp_init _ _ _ = _\<close> unwind_step6 [of ?ld3] reg
      by (auto simp: register_parallel_def leave_def Let_def)
  next
    case 4
    then show ?thesis using 1 2 3 by (simp add: register_parallel_def)
  qed
qed

lemma serial_part:
  assumes "length ser = SNX_SER_TOTAL_MAX + 1" and "fst (sunix_register_irq (sv_request_irq sv) (tb_boards tb)) = 0"
    and "sv_kmalloc sv" and "sv_tty_alloc sv = TtyDriver"
  shows "(if sv_tty_register sv \<noteq> 0 then \<exists>r. register_all sv n tb (start_loading ser m) log = Some r
    else \<exists>ld log2. only_serial ld \<and> register_all sv n tb (start_loading ser m) log
           = (if n > 0 then register_parallel sv tb ld log2 else Some (0, log2, ld)))"
proof -
  let ?ld = "start_loading ser m"
  obtain irqs where r: "sunix_register_irq (sv_request_irq sv) (tb_boards tb) = (0, irqs)" using assms(2) by (metis prod.collapse)
  obtain drv1 m1 where 1: "sunix_ser_register_driver (sv_HZ sv) True TtyDriver (sv_tty_register sv) (ld_ser ?ld) (ld_mach ?ld)
      = Some (sv_tty_register sv, drv1, m1)"
    "sv_tty_register sv = 0 \<longrightarrow> unregistered drv1 (replicate (SNX_SER_TOTAL_MAX + 1) (init_line (sv_HZ sv)))"
    by (rule driver_registered [of "ld_ser ?ld"]) (simp_all add: start_loading_def assms(1))
  let ?ld1 = "with_ser (drv1, m1) ?ld"
  show ?thesis
  proof (cases "sv_tty_register sv = 0")
    case False
    then show ?thesis using r assms(3,4) 1(1) by (simp add: register_all_def leave_def unwind_step2)
  next
    case True
    then have u: "unregistered drv1 (replicate (SNX_SER_TOTAL_MAX + 1) (init_line (sv_HZ sv)))" using 1(2) by simp
    obtain drv2 m2 lines2 where 2: "sunix_ser_register_ports drv1 m1 = Some (0, drv2, m2)" "registered drv2 lines2"
      by (rule ports_registered [OF u])
    let ?ld2 = "with_ser (drv2, m2) ?ld1"
    let ?log = "log @ map (Setup \<circ> Irq) irqs @ [Setup SerDriver, Setup SerPorts]"
    have "only_serial ?ld2" using 2(2) by (auto simp: only_serial_def with_ser_def start_loading_def)
    moreover have "register_all sv n tb ?ld log = (if n > 0 then register_parallel sv tb ?ld2 ?log else Some (0, ?log, ?ld2))"
      using r assms(3,4) 1(1) 2(1) True by (simp add: register_all_def with_ser_def ld_mach_def)
    ultimately show ?thesis using True by auto
  qed
qed

lemma register_all_faults:
  assumes "length ser = SNX_SER_TOTAL_MAX + 1" and "inj (sv_par_addr sv)" and "\<forall>i. an_region_hi (sv_par_answers sv i)"
  shows "register_all sv n tb (start_loading ser m) log = None
    \<longleftrightarrow> fst (sunix_register_irq (sv_request_irq sv) (tb_boards tb)) = 0 \<and> (\<not> sv_kmalloc sv \<or> sv_tty_alloc sv \<noteq> TtyDriver)"
proof -
  obtain st irqs where r: "sunix_register_irq (sv_request_irq sv) (tb_boards tb) = (st, irqs)" by fastforce
  consider "st \<noteq> 0" | "st = 0" "\<not> sv_kmalloc sv \<or> sv_tty_alloc sv \<noteq> TtyDriver" | "st = 0" "sv_kmalloc sv" "sv_tty_alloc sv = TtyDriver"
    by blast
  then show ?thesis
  proof cases
    case 1
    then show ?thesis using r by (simp add: register_all_def)
  next
    case 2
    then show ?thesis using r by (simp add: register_all_def sunix_ser_register_driver_def)
  next
    case 3
    have "register_all sv n tb (start_loading ser m) log \<noteq> None"
      using serial_part [OF assms(1) _ 3(2,3), of tb n m log] r 3(1) register_parallel_returns [OF _ assms(2,3)]
      by (auto split: if_splits)
    then show ?thesis using 3 by simp
  qed
qed

subsection \<open>Properties\<close>

text \<open>Loading gets as far as registering the tty driver: there are boards, their resources fit, their irqs are granted.\<close>

definition irqs_granted :: "services \<Rightarrow> machine \<Rightarrow> bool" where
  "irqs_granted sv m =
    (case sunix_pci_board_probe (sv_scan sv) m of
       Inl _ \<Rightarrow> False
     | Inr pr \<Rightarrow>
        (case sunix_get_pci_board_conf \<lparr>cf_boards = pr_boards pr, cf_ser_total = 0, cf_par_total = 0\<rparr> of
           Inl _ \<Rightarrow> False
         | Inr cf \<Rightarrow>
            (case sunix_assign_resource (cf_boards cf) of
               Inl _ \<Rightarrow> False
             | Inr tb \<Rightarrow>
                fst (sunix_register_irq (sv_request_irq sv)
                  (tb_boards (sunix_par_port_table_init (fst (sunix_ser_port_table_init tb (pr_mach pr)))))) = 0)))"

lemma loading_run [consumes 3, case_names early registers]:
  assumes "sv_pci_register sv = 0" and "\<And>v w. set (sv_scan sv v w) \<subseteq> D" and "\<forall>d\<in>D. pd_subdev d \<noteq> 0x9999"
  obtains oc where "snx_init sv m = Some oc" "\<not> irqs_granted sv m"
  | pr cf tb m1 where "sunix_pci_board_probe (sv_scan sv) m = Inr pr"
    "sunix_get_pci_board_conf \<lparr>cf_boards = pr_boards pr, cf_ser_total = 0, cf_par_total = 0\<rparr> = Inr cf"
    "length (tb_ser tb) = SNX_SER_TOTAL_MAX + 1"
    "irqs_granted sv m \<longleftrightarrow> fst (sunix_register_irq (sv_request_irq sv) (tb_boards tb)) = 0"
    "snx_init sv m = map_option (outcome_of tb (cf_par_total cf))
       (register_all sv (cf_par_total cf) tb (start_loading (tb_ser tb) m1) [Setup PciDriver])"
proof (cases "sunix_pci_board_probe (sv_scan sv) m")
  case (Inl e)
  then show ?thesis using that(1) assms(1) by (simp add: snx_init_def irqs_granted_def)
next
  case pr: (Inr pr)
  have tab: "board_table_ok D pr" using probe_keeps_table [OF pr assms(2,3)] by simp
  have len: "length (pr_boards pr) = 4" using tab by (simp add: board_table_ok_def)
  note wf = table_boards_wf [OF tab]
  let ?cf = "\<lparr>cf_boards = pr_boards pr, cf_ser_total = 0, cf_par_total = 0\<rparr>"
  show ?thesis
  proof (cases "sunix_get_pci_board_conf ?cf")
    case (Inl e)
    have "e \<noteq> Fault"
      using Inl conf_no_fault [OF tab] by (auto simp: sunix_get_pci_board_conf_def)
    then show ?thesis using that(1) assms(1) pr Inl by (cases e) (simp_all add: snx_init_def irqs_granted_def)
  next
    case cf: (Inr cf)
    obtain tb where tb: "sunix_assign_resource (cf_boards cf) = Inr tb" "length (tb_ser tb) = SNX_SER_TOTAL_MAX + 1"
      using conf_then_assign [OF cf len wf] by (auto simp: assigned_def)
    obtain tb1 m1 where init: "sunix_ser_port_table_init tb (pr_mach pr) = (tb1, m1)" by fastforce
    have "length (tb_ser (sunix_par_port_table_init tb1)) = SNX_SER_TOTAL_MAX + 1"
      using serial_table_length [of tb "pr_mach pr"] init tb(2) by (simp add: parallel_table_keeps_serial)
    from that(2) [OF pr cf this, of m1] show ?thesis using assms(1) pr cf tb(1) init by (simp add: snx_init_def irqs_granted_def Let_def)
  qed
qed


text \<open>The kernel of the examples grants everything; the bus has one GOLDEN board.\<close>

definition example_services :: services where
  "example_services = \<lparr>sv_HZ = 250, sv_pci_register = 0, sv_scan = lone_scan 1 golden_dev, sv_request_irq = (\<lambda>_. 0),
     sv_kmalloc = True, sv_tty_alloc = TtyDriver, sv_tty_register = 0,
     sv_par_answers = (\<lambda>_. \<lparr>an_ops = True, an_port = True, an_name = True, an_region = True, an_region_hi = True\<rparr>),
     sv_par_addr = (\<lambda>i. i), sv_ppdev = chardev_answers, sv_lp = chardev_answers\<rparr>"

lemma example_irqs: "irqs_granted example_services idle_machine"
  by code_simp


text \<open>
  C23. Loading and unloading balance: after a successful \<open>snx_init\<close>, \<open>snx_exit\<close> tears down exactly
  what was set up, each part once and none that is not set up, and nothing remains.
\<close>

theorem snx_exit_undoes_init:
  assumes "snx_init sv m = Some oc" and "oc_status oc = 0"
  shows "still_up [] (oc_calls oc @ snx_exit oc) = Some []"
  using assms by (cases rule: snx_init_cases) (simp_all add: register_all_succeeds)

lemma example_par_total:
  "case sunix_pci_board_probe (sv_scan example_services) idle_machine of Inl _ \<Rightarrow> False | Inr pr \<Rightarrow>
     (case sunix_get_pci_board_conf \<lparr>cf_boards = pr_boards pr, cf_ser_total = 0, cf_par_total = 0\<rparr> of
        Inl _ \<Rightarrow> False | Inr cf \<Rightarrow> cf_par_total cf = 0)"
  by code_simp

lemma example_init: "\<exists>oc. snx_init example_services idle_machine = Some oc \<and> oc_status oc = 0"
proof -
  have pci: "sv_pci_register example_services = 0" and scan: "set (sv_scan example_services v w) \<subseteq> {golden_dev}" for v w
    by (auto simp: example_services_def lone_scan_def)
  have dev: "\<forall>d\<in>{golden_dev}. pd_subdev d \<noteq> 0x9999" by (simp add: golden_dev_subdev)
  from pci scan dev show ?thesis
  proof (cases rule: loading_run [of _ _ idle_machine])
    case early
    then show ?thesis using example_irqs by blast
  next
    case (registers pr cf tb m1)
    then have "cf_par_total cf = 0" using example_par_total by simp
    then show ?thesis
      using registers(4,5) example_irqs serial_part [OF registers(3), of example_services tb 0 m1 "[Setup PciDriver]"]
      by (auto simp: example_services_def outcome_of_def)
  qed
qed

theorem snx_exit_undoes_init_witness:
  "\<exists>oc. snx_init example_services idle_machine = Some oc \<and> still_up [] (oc_calls oc @ snx_exit oc) = Some []"
proof -
  obtain oc where "snx_init example_services idle_machine = Some oc" "oc_status oc = 0"
    using example_init by blast
  then show ?thesis using snx_exit_undoes_init by blast
qed

text \<open>
  A loading that fails after the PCI driver was registered does not undo everything: the PCI
  driver always stays registered, and with it the irq handlers of the boards before the one whose
  line was refused.
\<close>

theorem snx_init_failure_leaks_pci_driver:
  assumes "snx_init sv m = Some oc" and "sv_pci_register sv = 0" and "oc_status oc \<noteq> 0"
  shows "\<exists>irqs. still_up [] (oc_calls oc) = Some (map Irq irqs @ [PciDriver])"
  using assms
proof (cases rule: snx_init_cases)
  case early
  then show ?thesis by (intro exI [of _ "[]"]) simp
next
  case registers
  then show ?thesis using register_all_fails assms(3) by blast
qed

lemma no_board_probe: "sunix_pci_board_probe (\<lambda>v w. []) m = Inl (- ENXIO)"
  by (simp add: sunix_pci_board_probe_def probe_init_def)

theorem snx_init_failure_leaks_pci_driver_witness:
  "\<exists>oc irqs. snx_init (example_services\<lparr>sv_scan := (\<lambda>v w. [])\<rparr>) idle_machine = Some oc
     \<and> oc_status oc = - ENXIO \<and> still_up [] (oc_calls oc) = Some (map Irq irqs @ [PciDriver])"
proof -
  let ?sv = "example_services\<lparr>sv_scan := (\<lambda>v w. [])\<rparr>"
  obtain oc where oc: "snx_init ?sv idle_machine = Some oc" "oc_status oc = - ENXIO"
    by (simp add: snx_init_def no_board_probe example_services_def outcome_of_def)
  then show ?thesis using snx_init_failure_leaks_pci_driver [OF oc(1)] by (auto simp: example_services_def)
qed

end
