(* ===== verification/Snx_Serial_Irq.thy ===== *)
theory Snx_Serial_Irq
  imports Snx_Tty
begin

text \<open>
  The interrupt side of a serial port (driver/snx_serial.c): receiving, transmitting, modem
  status, \<open>sunix_ser_handle_port\<close>, and the board's interrupt routine \<open>sunix_ser_interrupt\<close>
  with its three ways of finding the ports that need service. \<open>None\<close> is a dereference of a NULL
  info, tty or buffer. The do-while loops count down what the code counts down.
\<close>

section \<open>The serial interrupt\<close>

subsection \<open>Counters\<close>

definition upd_icount :: "(snx_ser_icount \<Rightarrow> snx_ser_icount) \<Rightarrow> sunix_ser_port \<Rightarrow> sunix_ser_port" where
  "upd_icount f sp = sp\<lparr>sp_icount := f (sp_icount sp)\<rparr>"

subsection \<open>Receiving\<close>

definition flip_or_count :: "u8 \<Rightarrow> tty_flag \<Rightarrow> sunix_ser_port \<Rightarrow> machine \<Rightarrow> sunix_ser_port \<times> machine" where
  "flip_or_count ch flag sp m =
    (let (room, m1) = flip_char ch flag m in
     (if room then sp else upd_icount (\<lambda>ic. ic\<lparr>ic_buf_overrun := ic_buf_overrun ic + 1\<rparr>) sp, m1))"

definition snx_ser_insert_char :: "u32 \<Rightarrow> u32 \<Rightarrow> u8 \<Rightarrow> tty_flag \<Rightarrow> sunix_ser_port \<Rightarrow> machine
    \<Rightarrow> sunix_ser_port \<times> machine" where
  "snx_ser_insert_char status overrun ch flag sp m =
    (let (sp1, m1) = (if status AND sp_ignore_status_mask sp AND NOT overrun = 0
                      then flip_or_count ch flag sp m else (sp, m))
     in if status AND NOT (sp_ignore_status_mask sp1) AND overrun \<noteq> 0
        then flip_or_count 0 TTY_OVERRUN sp1 m1 else (sp1, m1))"

text \<open>\<open>snx_ser_handle_break\<close> always returns 0, so the character is never skipped because of it.\<close>

definition snx_ser_handle_break :: "snx_ser_info \<Rightarrow> machine \<Rightarrow> machine" where
  "snx_ser_handle_break info m = (if has (si_flags info) SNX_UPF_SAK then emit DoSAK m else m)"

definition rx_flag :: "u8 \<Rightarrow> tty_flag" where
  "rx_flag lsr =
    (if has lsr UART_LSR_BI then TTY_BREAK else if has lsr UART_LSR_PE then TTY_PARITY
     else if has lsr UART_LSR_FE then TTY_FRAME else TTY_NORMAL)"

text \<open>Counting the errors of a status byte; the result is the byte masked, and its flag.\<close>

definition rx_status :: "u8 \<Rightarrow> snx_ser_info \<Rightarrow> sunix_ser_port \<Rightarrow> machine \<Rightarrow> u8 \<times> tty_flag \<times> sunix_ser_port \<times> machine" where
  "rx_status lsr info sp m =
    (if \<not> has lsr (UART_LSR_BI OR UART_LSR_PE OR UART_LSR_FE OR UART_LSR_OE) then (lsr, TTY_NORMAL, sp, m)
     else
      (let (lsr1, sp1, m1) =
             (if has lsr UART_LSR_BI then
                (lsr AND NOT (UART_LSR_FE OR UART_LSR_PE),
                 upd_icount (\<lambda>ic. ic\<lparr>ic_brk := ic_brk ic + 1\<rparr>) sp, snx_ser_handle_break info m)
              else if has lsr UART_LSR_PE then (lsr, upd_icount (\<lambda>ic. ic\<lparr>ic_parity := ic_parity ic + 1\<rparr>) sp, m)
              else if has lsr UART_LSR_FE then (lsr, upd_icount (\<lambda>ic. ic\<lparr>ic_frame := ic_frame ic + 1\<rparr>) sp, m)
              else (lsr, sp, m));
           sp2 = (if has lsr1 UART_LSR_OE then upd_icount (\<lambda>ic. ic\<lparr>ic_overrun := ic_overrun ic + 1\<rparr>) sp1 else sp1);
           lsr2 = lsr1 AND ucast (sp_read_status_mask sp2)
       in (lsr2, rx_flag lsr2, sp2, m1)))"

text \<open>One round of the loop, up to the label \<^verbatim>\<open>ignore_char\<close>.\<close>

definition rx_one :: "u8 \<Rightarrow> sunix_ser_port \<Rightarrow> machine \<Rightarrow> (sunix_ser_port \<times> machine) option" where
  "rx_one lsr sp m =
    (case sp_info sp of
       None \<Rightarrow> None
     | Some info \<Rightarrow>
        (case si_tty info of
           None \<Rightarrow> None
         | Some t \<Rightarrow>
            (let (ch, m1) = READ_UART_RX sp m;
                 sp1 = upd_icount (\<lambda>ic. ic\<lparr>ic_rx := ic_rx ic + 1\<rparr>) sp;
                 (lsr2, flag, sp2, m2) = rx_status lsr info sp1 m1
             in Some
                (if (has (tty_c_iflag t) IXOFF \<or> has (tty_c_iflag t) IXON) \<and> ch = tty_start_char t
                 then sunix_ser_start_tx (upd_tty (\<lambda>t. t\<lparr>tty_stopped := False\<rparr>) sp2) m2
                 else if (has (tty_c_iflag t) IXOFF \<or> has (tty_c_iflag t) IXON) \<and> ch = tty_stop_char t
                 then sunix_ser_stop_tx (upd_tty (\<lambda>t. t\<lparr>tty_stopped := True\<rparr>) sp2) m2
                 else snx_ser_insert_char (ucast lsr2) (ucast UART_LSR_OE) ch flag sp2 m2))))"

definition lsr_fix :: "u8 \<Rightarrow> u8" where
  "lsr_fix lsr = (if lsr = 0xff then 0x01 else lsr)"

text \<open>\<open>n\<close> is \<^verbatim>\<open>max_count\<close>.\<close>

fun rx_loop :: "nat \<Rightarrow> u8 \<Rightarrow> sunix_ser_port \<Rightarrow> machine \<Rightarrow> (u8 \<times> sunix_ser_port \<times> machine) option" where
  "rx_loop n lsr sp m =
    (case rx_one lsr sp m of
       None \<Rightarrow> None
     | Some (sp1, m1) \<Rightarrow>
        (let (l, m2) = READ_UART_LSR sp1 m1; lsr1 = lsr_fix l in
         if has lsr1 UART_LSR_DR \<and> n > 0 then rx_loop (n - 1) lsr1 sp1 m2 else Some (lsr1, sp1, m2)))"

declare rx_loop.simps [simp del]

definition sunix_ser_receive_chars :: "u8 \<Rightarrow> sunix_ser_port \<Rightarrow> machine \<Rightarrow> (u8 \<times> sunix_ser_port \<times> machine) option" where
  "sunix_ser_receive_chars status sp m =
    (case rx_loop 256 status sp m of
       None \<Rightarrow> None
     | Some (lsr, sp1, m1) \<Rightarrow> Some (lsr, sp1, emit FlipPush m1))"

subsection \<open>Transmitting\<close>

abbreviation (input) WAKEUP_CHARS :: int where "WAKEUP_CHARS \<equiv> 256"

definition tx_one :: "circ_buf \<Rightarrow> sunix_ser_port \<Rightarrow> machine \<Rightarrow> circ_buf \<times> sunix_ser_port \<times> machine" where
  "tx_one circ sp m =
    (let (c, circ1) = circ_get_char circ
     in (circ1, upd_icount (\<lambda>ic. ic\<lparr>ic_tx := ic_tx ic + 1\<rparr>) sp, WRITE_UART_TX sp c m))"

text \<open>\<open>n\<close> is \<^verbatim>\<open>count\<close>; the body runs once even when it is 0.\<close>

fun tx_loop :: "nat \<Rightarrow> circ_buf \<Rightarrow> sunix_ser_port \<Rightarrow> machine \<Rightarrow> circ_buf \<times> sunix_ser_port \<times> machine" where
  "tx_loop n circ sp m =
    (let (circ1, sp1, m1) = tx_one circ sp m in
     if snx_ser_circ_empty circ1 then (circ1, sp1, m1)
     else if n > 1 then tx_loop (n - 1) circ1 sp1 m1 else (circ1, sp1, m1))"

declare tx_loop.simps [simp del]

definition sunix_ser_transmit_chars :: "sunix_ser_port \<Rightarrow> machine \<Rightarrow> (sunix_ser_port \<times> machine) option" where
  "sunix_ser_transmit_chars sp m =
    (if sp_iobase sp = 0 then Some (sp, m)
     else case sp_info sp of
       None \<Rightarrow> Some (sp, m)
     | Some info \<Rightarrow>
        (if sp_x_char sp \<noteq> 0 then
           Some ((upd_icount (\<lambda>ic. ic\<lparr>ic_tx := ic_tx ic + 1\<rparr>) sp)\<lparr>sp_x_char := 0\<rparr>, WRITE_UART_TX sp (sp_x_char sp) m)
         else if snx_ser_circ_empty (si_xmit info) then Some (sunix_ser_stop_tx sp m)
         else case si_tty info of
           None \<Rightarrow> None
         | Some t \<Rightarrow>
            (if tty_stopped t \<or> tty_hw_stopped t then Some (sunix_ser_stop_tx sp m)
             else if cb_buf (si_xmit info) = None then None
             else
              (let (circ, sp1, m1) = tx_loop (unat (sp_fifosize sp)) (si_xmit info) sp m
               in Some (set_xmit circ sp1,
                        if snx_ser_circ_chars_pending circ < WAKEUP_CHARS then snx_ser_write_wakeup m1 else m1)))))"

subsection \<open>Modem status\<close>

definition snx_ser_handle_dcd_change :: "bool \<Rightarrow> snx_ser_info \<Rightarrow> sunix_ser_port \<Rightarrow> machine \<Rightarrow> sunix_ser_port \<times> machine" where
  "snx_ser_handle_dcd_change status info sp m =
    (upd_icount (\<lambda>ic. ic\<lparr>ic_dcd := ic_dcd ic + 1\<rparr>) sp,
     if has (si_flags info) SNX_UIF_CHECK_CD
     then if status then emit WakeOpen m else if si_tty info \<noteq> None then emit TtyHangup m else m
     else m)"

definition snx_ser_handle_cts_change :: "bool \<Rightarrow> sunix_ser_port \<Rightarrow> machine \<Rightarrow> (sunix_ser_port \<times> machine) option" where
  "snx_ser_handle_cts_change status sp0 m =
    (let sp = upd_icount (\<lambda>ic. ic\<lparr>ic_cts := ic_cts ic + 1\<rparr>) sp0 in
     case sp_info sp of
       None \<Rightarrow> None
     | Some info \<Rightarrow>
        (if \<not> has (si_flags info) SNX_UIF_CTS_FLOW then Some (sp, m)
         else case si_tty info of
           None \<Rightarrow> None
         | Some t \<Rightarrow> Some
            (if tty_hw_stopped t then
               (if status then
                  (let (sp1, m1) = sunix_ser_start_tx (upd_tty (\<lambda>t. t\<lparr>tty_hw_stopped := False\<rparr>) sp) m
                   in (sp1, snx_ser_write_wakeup m1))
                else (sp, m))
             else if \<not> status then sunix_ser_stop_tx (upd_tty (\<lambda>t. t\<lparr>tty_hw_stopped := True\<rparr>) sp) m
             else (sp, m))))"

definition sunix_ser_check_modem_status :: "u8 \<Rightarrow> sunix_ser_port \<Rightarrow> machine \<Rightarrow> (sunix_ser_port \<times> machine) option" where
  "sunix_ser_check_modem_status status sp m =
    (if \<not> has status UART_MSR_ANY_DELTA then Some (sp, m)
     else case sp_info sp of
       None \<Rightarrow> Some (sp, m)
     | Some info \<Rightarrow>
        (let sp1 = (if has status UART_MSR_TERI then upd_icount (\<lambda>ic. ic\<lparr>ic_rng := ic_rng ic + 1\<rparr>) sp else sp);
             sp2 = (if has status UART_MSR_DDSR then upd_icount (\<lambda>ic. ic\<lparr>ic_dsr := ic_dsr ic + 1\<rparr>) sp1 else sp1);
             (sp3, m3) = (if has status UART_MSR_DDCD
                          then snx_ser_handle_dcd_change (has status UART_MSR_DCD) info sp2 m else (sp2, m))
         in
          case (if has status UART_MSR_DCTS then snx_ser_handle_cts_change (has status UART_MSR_CTS) sp3 m3
                else Some (sp3, m3)) of
            None \<Rightarrow> None
          | Some (sp4, m4) \<Rightarrow> Some (sp4, emit WakeDelta m4)))"

subsection \<open>One port\<close>

definition sunix_ser_handle_port :: "u8 \<Rightarrow> sunix_ser_port \<Rightarrow> machine \<Rightarrow> (sunix_ser_port \<times> machine) option" where
  "sunix_ser_handle_port iir sp m =
    (let (l, m1) = READ_UART_LSR sp m; lsr = lsr_fix l in
     case (if iir = UART_IIR_RLSI \<or> iir = UART_IIR_CTO \<or> iir = UART_IIR_RDI
           then sunix_ser_receive_chars lsr sp m1 else Some (lsr, sp, m1)) of
       None \<Rightarrow> None
     | Some (lsr2, sp2, m2) \<Rightarrow>
        (case (if iir = UART_IIR_THRI \<and> has lsr2 UART_LSR_THRE
               then sunix_ser_transmit_chars sp2 m2 else Some (sp2, m2)) of
           None \<Rightarrow> None
         | Some (sp3, m3) \<Rightarrow>
            (let (msr, m4) = READ_UART_MSR sp3 m3 in
             if has msr UART_MSR_ANY_DELTA then sunix_ser_check_modem_status msr sp3 m4
             else Some (if iir = 0 \<and> sp_chip_flag sp3 = ucast SUN1699_HWID
                        then sunix_ser_start_tx sp3 m4 else (sp3, m4)))))"

text \<open>The polling timer: the interval it re-arms itself with is the last component.\<close>

definition sunix_ser_timeout :: "sunix_ser_port \<Rightarrow> machine \<Rightarrow> (sunix_ser_port \<times> machine \<times> u32) option" where
  "sunix_ser_timeout sp m =
    (let (iir, m1) = READ_UART_IIR sp m in
     case (if \<not> has iir UART_IIR_NO_INT then sunix_ser_handle_port iir sp m1 else Some (sp, m1)) of
       None \<Rightarrow> None
     | Some (sp1, m2) \<Rightarrow>
        Some (sp1, m2, if sp_timeout sp1 > 6 then sp_timeout sp1 div 2 - 2 else 1))"

subsection \<open>The board\<close>

text \<open>
  The state of the interrupt routine is the whole serial table and the machine. \<open>service\<close> asks
  one port and handles it.
\<close>

type_synonym ser_state = "sunix_ser_port list \<times> machine"

definition service :: "nat \<Rightarrow> ser_state \<Rightarrow> ser_state option" where
  "service k st =
    (case st of (ser, m) \<Rightarrow>
      if k \<ge> length ser then None
      else
       (let (v, m1) = READ_UART_IIR (ser ! k) m; iir = v AND 0x0f in
        if has iir UART_IIR_NO_INT then Some (ser, m1)
        else case sunix_ser_handle_port iir (ser ! k) m1 of
          None \<Rightarrow> None
        | Some (sp1, m2) \<Rightarrow> Some (ser[k := sp1], m2)))"

text \<open>The loop over the ports of the board that \<open>due\<close> selects.\<close>

fun service_all :: "(nat \<Rightarrow> sunix_ser_port \<Rightarrow> bool) \<Rightarrow> nat \<Rightarrow> nat list \<Rightarrow> ser_state \<Rightarrow> ser_state option" where
  "service_all due first [] st = Some st"
| "service_all due first (i # is) st =
    (if due i (fst st ! (first + i)) then
       (case service (first + i) st of None \<Rightarrow> None | Some st1 \<Rightarrow> service_all due first is st1)
     else service_all due first is st)"

text \<open>A board without a vector register: every pass asks every port; only the count ends it.\<close>

fun remap_passes :: "nat \<Rightarrow> nat \<Rightarrow> nat \<Rightarrow> ser_state \<Rightarrow> ser_state option" where
  "remap_passes 0 first mx st = Some st"
| "remap_passes (Suc n) first mx st =
    (case service_all (\<lambda>i sp. sp_iobase sp \<noteq> 0) first [0..<mx] st of
       None \<Rightarrow> None
     | Some st1 \<Rightarrow> remap_passes n first mx st1)"

text \<open>A board with one: a pass reads it, stops when no port of the board asks, and serves those that do.\<close>

fun vector_passes :: "(sunix_ser_port \<Rightarrow> machine \<Rightarrow> u32 \<times> machine) \<Rightarrow> nat \<Rightarrow> nat \<Rightarrow> nat \<Rightarrow> ser_state \<Rightarrow> ser_state option" where
  "vector_passes vec 0 first mx st = Some st"
| "vector_passes vec (Suc n) first mx st =
    (case st of (ser, m) \<Rightarrow>
      let (v, m1) = vec (ser ! first) m; irqbits = v AND sp_vector_mask (ser ! first) in
      if irqbits = 0 then Some (ser, m1)
      else case service_all (\<lambda>i sp. bit irqbits i) first [0..<mx] (ser, m1) of
        None \<Rightarrow> None
      | Some st1 \<Rightarrow> vector_passes vec n first mx st1)"

abbreviation (input) INTERRUPT_COUNT :: nat where "INTERRUPT_COUNT \<equiv> 128"

text \<open>
  \<^verbatim>\<open>pass_counter++ > INTERRUPT_COUNT\<close> is true for the first time after pass number
  \<open>INTERRUPT_COUNT + 2\<close>. The status is always 0.
\<close>

definition sunix_ser_interrupt :: "sunix_board \<Rightarrow> nat \<Rightarrow> ser_state \<Rightarrow> ser_state option" where
  "sunix_ser_interrupt sb first st =
    (let mx = unat (sb_ser_port sb); n = INTERRUPT_COUNT + 2; sp = fst st ! first in
     if sp_port_flag sp AND PORTFLAG_REMAP = PORTFLAG_REMAP then remap_passes n first mx st
     else if sp_snx_type sp = SNX_SER_PORT_SUN1999
     then vector_passes (READ_1999_INTERRUPT_VECTOR_WORD sb) n first mx st
     else if sp_snx_type sp = SNX_SER_PORT_SUNMATX then vector_passes READ_INTERRUPT_VECTOR_WORD n first mx st
     else vector_passes (\<lambda>sp m. case READ_INTERRUPT_VECTOR_BYTE sp m of (v, m1) \<Rightarrow> (ucast v, m1)) n first mx st)"

subsection \<open>What every step of the interrupt side keeps\<close>

text \<open>
  A port is \<open>live\<close> while its line is open: it has a tty and a good transmit buffer. \<open>thr\<close> is what
  has been written to the transmitter followed by what still waits in the buffer: the bytes
  accepted so far, in order.
\<close>

definition live :: "sunix_ser_port \<Rightarrow> bool" where
  "live sp \<longleftrightarrow> sp_iobase sp \<noteq> 0
     \<and> (\<exists>info t. sp_info sp = Some info \<and> si_tty info = Some t \<and> circ_ok (si_xmit info))"

definition xmit_of :: "sunix_ser_port \<Rightarrow> circ_buf" where
  "xmit_of sp = (case sp_info sp of None \<Rightarrow> \<lparr>cb_buf = None, cb_head = 0, cb_tail = 0\<rparr> | Some info \<Rightarrow> si_xmit info)"

definition thr :: "sunix_ser_port \<Rightarrow> machine \<Rightarrow> u8 list" where
  "thr sp m = outs_at (uart_addr sp UART_TX) (trace m) @ circ_content (xmit_of sp)"

definition good_step :: "sunix_ser_port \<Rightarrow> machine \<Rightarrow> sunix_ser_port \<Rightarrow> machine \<Rightarrow> bool" where
  "good_step sp m sp' m' \<longleftrightarrow> live sp' \<and> sp_iobase sp' = sp_iobase sp \<and> sp_x_char sp' = sp_x_char sp
     \<and> sp_line sp' = sp_line sp \<and> thr sp' m' = thr sp m \<and> (shadow sp m \<longrightarrow> shadow sp' m')"

lemma good_step_refl [simp]: "good_step sp m sp m \<longleftrightarrow> live sp"
  by (simp add: good_step_def)

lemma good_step_trans [trans]: "good_step sp m sp1 m1 \<Longrightarrow> good_step sp1 m1 sp2 m2 \<Longrightarrow> good_step sp m sp2 m2"
  by (auto simp: good_step_def)

lemma good_step_live: "good_step sp m sp' m' \<Longrightarrow> live sp'"
  by (simp add: good_step_def)

text \<open>Steps that change only the machine.\<close>

lemma good_read: "live sp \<Longrightarrow> uart_read r sp m = (v, m') \<Longrightarrow> good_step sp m sp m'"
  using outs_at_uart_read [of _ r sp m] shadow_uart_read [of sp m r sp] by (simp add: good_step_def thr_def)

lemma good_emit:
  assumes "live sp" and "\<And>a v. e \<noteq> Out a v"
  shows "good_step sp m sp (emit e m)"
  using assms by (simp add: good_step_def thr_def shadow_def)

text \<open>Steps that change only fields the invariant does not read.\<close>

lemma good_upd:
  assumes "live sp" and "sp_iobase sp' = sp_iobase sp" "sp_x_char sp' = sp_x_char sp" "sp_ier sp' = sp_ier sp"
    "sp_lcr sp' = sp_lcr sp" "sp_line sp' = sp_line sp" and "live sp'" and "xmit_of sp' = xmit_of sp"
  shows "good_step sp m sp' m"
  using assms shadow_same [of sp' sp] uart_addr_cong [of sp' sp] by (simp add: good_step_def thr_def)

lemma good_icount: "live sp \<Longrightarrow> good_step sp m (upd_icount f sp) m"
  by (rule good_upd) (simp_all add: upd_icount_def live_def xmit_of_def)

lemma good_upd_tty: "live sp \<Longrightarrow> good_step sp m (upd_tty f sp) m"
  by (rule good_upd) (auto simp: upd_tty_def upd_info_def live_def xmit_of_def)

text \<open>The two that write IER.\<close>

lemma good_stop_tx:
  assumes "live sp" and "sunix_ser_stop_tx sp m = (sp', m')"
  shows "good_step sp m sp' m'"
proof -
  have "live sp'" "xmit_of sp' = xmit_of sp" "sp_iobase sp' = sp_iobase sp" "sp_x_char sp' = sp_x_char sp" "sp_line sp' = sp_line sp"
    "outs_at (uart_addr sp UART_TX) (trace m') = outs_at (uart_addr sp UART_TX) (trace m)"
    using assms by (auto simp: sunix_ser_stop_tx_def Let_def live_def xmit_of_def uart_access split: if_splits)
  then show ?thesis
    using assms shadow_stop_tx [of sp m] uart_addr_cong [of sp' sp] by (simp add: good_step_def thr_def)
qed

lemma good_start_tx:
  assumes "live sp" and "sunix_ser_start_tx sp m = (sp', m')"
  shows "good_step sp m sp' m'"
proof -
  have "live sp'" "xmit_of sp' = xmit_of sp" "sp_iobase sp' = sp_iobase sp" "sp_x_char sp' = sp_x_char sp" "sp_line sp' = sp_line sp"
    "outs_at (uart_addr sp UART_TX) (trace m') = outs_at (uart_addr sp UART_TX) (trace m)"
    using assms by (auto simp: sunix_ser_start_tx_def Let_def live_def xmit_of_def uart_access split: if_splits)
  then show ?thesis
    using assms shadow_start_tx [of sp m] uart_addr_cong [of sp' sp] by (simp add: good_step_def thr_def)
qed

text \<open>The same as rules that extend a step at its end.\<close>

lemma then_emit:
  "good_step sp m sp1 m1 \<Longrightarrow> (\<And>a v. e \<noteq> Out a v) \<Longrightarrow> good_step sp m sp1 (emit e m1)"
  by (blast intro: good_step_trans good_emit good_step_live)

lemma then_icount: "good_step sp m sp1 m1 \<Longrightarrow> good_step sp m (upd_icount f sp1) m1"
  by (blast intro: good_step_trans good_icount good_step_live)

lemma then_upd_tty: "good_step sp m sp1 m1 \<Longrightarrow> good_step sp m (upd_tty f sp1) m1"
  by (blast intro: good_step_trans good_upd_tty good_step_live)

lemma then_read: "good_step sp m sp1 m1 \<Longrightarrow> uart_read r sp1 m1 = (v, m2) \<Longrightarrow> good_step sp m sp1 m2"
  by (blast intro: good_step_trans good_read good_step_live)

lemma then_start_tx: "good_step sp m sp1 m1 \<Longrightarrow> sunix_ser_start_tx sp1 m1 = (sp2, m2) \<Longrightarrow> good_step sp m sp2 m2"
  by (blast intro: good_step_trans good_start_tx good_step_live)

lemma then_stop_tx: "good_step sp m sp1 m1 \<Longrightarrow> sunix_ser_stop_tx sp1 m1 = (sp2, m2) \<Longrightarrow> good_step sp m sp2 m2"
  by (blast intro: good_step_trans good_stop_tx good_step_live)

lemmas good_thens = then_emit then_icount then_upd_tty

lemma then_flip:
  assumes "good_step sp m sp1 m1" and "flip_or_count ch flag sp1 m1 = (sp2, m2)"
  shows "good_step sp m sp2 m2"
  using assms by (auto simp: flip_or_count_def flip_char_def Let_def intro!: good_thens)

lemma then_insert_char:
  assumes "good_step sp m sp1 m1" and "snx_ser_insert_char st ov ch flag sp1 m1 = (sp2, m2)"
  shows "good_step sp m sp2 m2"
  using assms by (auto simp: snx_ser_insert_char_def Let_def split: if_splits prod.splits intro: then_flip)

lemma then_rx_status:
  assumes "good_step sp m sp1 m1" and "rx_status lsr info sp1 m1 = (lsr', flag, sp2, m2)"
  shows "good_step sp m sp2 m2"
  using assms by (auto simp: rx_status_def snx_ser_handle_break_def Let_def split: if_splits intro!: good_thens)

lemmas then_pairs = then_start_tx [OF _ surjective_pairing] then_stop_tx [OF _ surjective_pairing]
  then_insert_char [OF _ surjective_pairing] then_read [OF _ surjective_pairing]

lemma ex_pair_eq: "(\<exists>a b. x = (a, b) \<and> P a b) \<longleftrightarrow> P (fst x) (snd x)"
  by (cases x) auto

lemma liveD:
  assumes "live sp"
  obtains info t where "sp_info sp = Some info" "si_tty info = Some t" "circ_ok (si_xmit info)" "xmit_of sp = si_xmit info"
  using assms by (auto simp: live_def xmit_of_def)

lemma rx_one_good:
  assumes "live sp"
  shows "\<exists>sp' m'. rx_one lsr sp m = Some (sp', m') \<and> good_step sp m sp' m'"
proof -
  obtain info t where i: "sp_info sp = Some info" "si_tty info = Some t" using assms by (rule liveD)
  obtain ch m1 where 1: "uart_read UART_RX sp m = (ch, m1)" by fastforce
  let ?sp1 = "upd_icount (\<lambda>ic. ic\<lparr>ic_rx := ic_rx ic + 1\<rparr>) sp"
  obtain lsr2 flag sp2 m2 where 2: "rx_status lsr info ?sp1 m1 = (lsr2, flag, sp2, m2)"
    by (rule prod_cases4)
  have g: "good_step sp m sp2 m2"
    by (rule then_rx_status [OF _ 2]) (use good_read [OF assms 1] in \<open>rule then_icount\<close>)
  show ?thesis
    using i 1 2 g
    by (simp add: rx_one_def uart_access Let_def ex_pair_eq then_pairs then_upd_tty)
qed

lemma rx_loop_good:
  "live sp \<Longrightarrow> \<exists>l sp' m'. rx_loop n lsr sp m = Some (l, sp', m') \<and> good_step sp m sp' m'"
proof (induction n arbitrary: lsr sp m)
  case (0 lsr sp m)
  obtain sp1 m1 where 1: "rx_one lsr sp m = Some (sp1, m1)" "good_step sp m sp1 m1" using rx_one_good [OF 0] by blast
  then show ?case
    by (subst rx_loop.simps) (auto simp: uart_access Let_def intro: then_read split: prod.splits)
next
  case (Suc n)
  obtain sp1 m1 where 1: "rx_one lsr sp m = Some (sp1, m1)" "good_step sp m sp1 m1" using rx_one_good [OF Suc.prems] by blast
  obtain l m2 where 2: "uart_read UART_LSR sp1 m1 = (l, m2)" by fastforce
  have g: "good_step sp m sp1 m2" by (rule then_read [OF 1(2) 2])
  from Suc.IH [OF good_step_live [OF g], of "lsr_fix l" m2] g 1 2 show ?case
    by (subst rx_loop.simps) (auto simp: uart_access Let_def intro: good_step_trans)
qed

lemma receive_good:
  "live sp \<Longrightarrow> \<exists>l sp' m'. sunix_ser_receive_chars lsr sp m = Some (l, sp', m') \<and> good_step sp m sp' m'"
  using rx_loop_good [of sp 256 lsr m] by (auto simp: sunix_ser_receive_chars_def intro: then_emit)

subsection \<open>Transmitting keeps the order of the bytes\<close>

lemma circ_empty_content: "circ_ok circ \<Longrightarrow> snx_ser_circ_empty circ \<longleftrightarrow> circ_content circ = []"
  using length_content [of circ] pending_eq [of circ]
  by (auto simp: snx_ser_circ_empty_def circ_ok_def simp flip: length_0_conv split: if_splits)

text \<open>The loop, on the buffer it was given.\<close>

lemma tx_loop_fifo:
  assumes "circ_ok circ" and "circ_content circ \<noteq> []" and "sp_iobase sp \<noteq> 0"
  shows "\<exists>circ' sp' m' bs. tx_loop n circ sp m = (circ', sp', m') \<and> circ_ok circ'
    \<and> circ_content circ = bs @ circ_content circ' \<and> bs \<noteq> [] \<and> length bs \<le> max 1 n
    \<and> trace m' = trace m @ map (Out (uart_addr sp UART_TX)) bs \<and> (\<exists>f. sp' = upd_icount f sp)"
  using assms
proof (induction n arbitrary: circ sp m)
  case 0
  note g = ring.get_good [OF 0(1,2)] ring.get_content [OF 0(1,2)]
  show ?case using g 0
    by (subst tx_loop.simps) (auto simp: tx_one_def uart_access uart_write_trace split_beta Let_def
      intro!: exI [of _ "[fst (circ_get_char circ)]"])
next
  case (Suc n)
  note g = ring.get_good [OF Suc.prems(1,2)] ring.get_content [OF Suc.prems(1,2)]
  obtain c circ1 where c: "circ_get_char circ = (c, circ1)" by fastforce
  let ?sp1 = "upd_icount (\<lambda>ic. ic\<lparr>ic_tx := ic_tx ic + 1\<rparr>) sp" and ?m1 = "uart_write UART_TX sp c m"
  show ?case
  proof (cases "snx_ser_circ_empty circ1 \<or> n = 0")
    case True
    then have "tx_loop (Suc n) circ sp m = (circ1, ?sp1, ?m1)"
      by (subst tx_loop.simps) (auto simp: tx_one_def c uart_access Let_def)
    then show ?thesis using g c Suc.prems(3)
      by (auto simp: uart_write_trace intro!: exI [of _ "[c]"])
  next
    case False
    then have step: "tx_loop (Suc n) circ sp m = tx_loop n circ1 ?sp1 ?m1"
      by (subst tx_loop.simps) (auto simp: tx_one_def c uart_access Let_def)
    have ne: "circ_content circ1 \<noteq> []"
      using False circ_empty_content g(1) c by auto
    have io: "sp_iobase ?sp1 \<noteq> 0" "uart_addr ?sp1 UART_TX = uart_addr sp UART_TX"
      using Suc.prems(3) by (simp_all add: upd_icount_def uart_addr_def)
    from Suc.IH [OF _ ne io(1), of ?m1] g(1) c obtain circ' sp' m' bs f where r:
      "tx_loop n circ1 ?sp1 ?m1 = (circ', sp', m')" "circ_ok circ'" "circ_content circ1 = bs @ circ_content circ'"
      "length bs \<le> max 1 n" "trace m' = trace ?m1 @ map (Out (uart_addr sp UART_TX)) bs" "sp' = upd_icount f ?sp1"
      by (auto simp: io(2))
    then show ?thesis using g(2) c Suc.prems(3) step False
      by (auto simp: uart_write_trace upd_icount_def intro!: exI [of _ "c # bs"])
  qed
qed

lemma outs_at_map_Out [simp]: "outs_at a (map (Out b) bs) = (if a = b then bs else [])"
  by (induction bs) auto

lemma shadow_tx_writes:
  assumes "shadow sp m" and "trace m' = trace m @ map (Out (uart_addr sp UART_TX)) bs"
  shows "shadow sp m'"
  using assms by (simp add: shadow_def)

lemma good_after_tx:
  assumes live: "live sp" and tr: "trace m' = trace m @ map (Out (uart_addr sp UART_TX)) bs"
    and content: "circ_content (xmit_of sp) = bs @ circ_content circ" and ok: "circ_ok circ"
  shows "good_step sp m (set_xmit circ (upd_icount f sp)) m'"
proof -
  let ?sp' = "set_xmit circ (upd_icount f sp)"
  have same: "sp_iobase ?sp' = sp_iobase sp" "sp_x_char ?sp' = sp_x_char sp" "sp_ier ?sp' = sp_ier sp" "sp_lcr ?sp' = sp_lcr sp"
    "sp_line ?sp' = sp_line sp"
    by (simp_all add: set_xmit_def upd_info_def upd_icount_def)
  have "live ?sp'" "xmit_of ?sp' = circ"
    using live ok by (auto simp: live_def xmit_of_def set_xmit_def upd_info_def upd_icount_def)
  moreover have "thr ?sp' m' = thr sp m"
    using \<open>xmit_of ?sp' = circ\<close> content tr uart_addr_cong [OF same(1)] by (simp add: thr_def)
  moreover have "shadow sp m \<longrightarrow> shadow ?sp' m'"
    using shadow_same [OF same(1,3,4)] shadow_tx_writes [OF _ tr] by simp
  ultimately show ?thesis using same by (simp add: good_step_def)
qed

lemma transmit_good:
  assumes "live sp" and "sp_x_char sp = 0"
  shows "\<exists>sp' m'. sunix_ser_transmit_chars sp m = Some (sp', m') \<and> good_step sp m sp' m'"
proof -
  obtain info t where i: "sp_info sp = Some info" "si_tty info = Some t" "circ_ok (si_xmit info)" "xmit_of sp = si_xmit info"
    using assms(1) by (rule liveD)
  have io: "sp_iobase sp \<noteq> 0" using assms(1) by (simp add: live_def)
  have stop: "good_step sp m (fst (sunix_ser_stop_tx sp m)) (snd (sunix_ser_stop_tx sp m))"
    using assms(1) by (simp add: good_stop_tx)
  show ?thesis
  proof (cases "snx_ser_circ_empty (si_xmit info) \<or> tty_stopped t \<or> tty_hw_stopped t")
    case True
    then show ?thesis using i io assms(2) stop
      by (cases "sunix_ser_stop_tx sp m") (auto simp: sunix_ser_transmit_chars_def)
  next
    case False
    then have ne: "circ_content (si_xmit info) \<noteq> []" using circ_empty_content [OF i(3)] by simp
    obtain circ' sp1 m1 bs f where r: "tx_loop (unat (sp_fifosize sp)) (si_xmit info) sp m = (circ', sp1, m1)"
      "circ_ok circ'" "circ_content (si_xmit info) = bs @ circ_content circ'"
      "trace m1 = trace m @ map (Out (uart_addr sp UART_TX)) bs" "sp1 = upd_icount f sp"
      using tx_loop_fifo [OF i(3) ne io, of "unat (sp_fifosize sp)" m] by blast
    have buf: "cb_buf (si_xmit info) \<noteq> None" using i(3) by (auto simp: circ_ok_def)
    have g: "good_step sp m (set_xmit circ' sp1) m1"
      unfolding r(5) by (rule good_after_tx [OF assms(1) r(4)]) (use r i in auto)
    show ?thesis using False i io assms(2) r(1) buf g
      by (auto simp: sunix_ser_transmit_chars_def snx_ser_write_wakeup_def intro: then_emit)
  qed
qed

lemma then_transmit:
  assumes "good_step sp m sp1 m1" and "sp_x_char sp = 0"
  shows "\<exists>sp2 m2. sunix_ser_transmit_chars sp1 m1 = Some (sp2, m2) \<and> good_step sp m sp2 m2"
proof -
  have "live sp1" "sp_x_char sp1 = 0" using assms by (simp_all add: good_step_def)
  from transmit_good [OF this, of m1] assms(1) show ?thesis by (blast intro: good_step_trans)
qed

subsection \<open>The modem status and the whole handler\<close>

lemma then_cts:
  assumes "good_step sp m sp1 m1"
  shows "\<exists>sp2 m2. snx_ser_handle_cts_change b sp1 m1 = Some (sp2, m2) \<and> good_step sp m sp2 m2"
proof -
  obtain info t where i: "sp_info sp1 = Some info" "si_tty info = Some t" using good_step_live [OF assms] by (rule liveD)
  let ?sp2 = "upd_icount (\<lambda>ic. ic\<lparr>ic_cts := ic_cts ic + 1\<rparr>) sp1"
  have g: "good_step sp m ?sp2 m1" using assms by (rule then_icount)
  have "sp_info ?sp2 = Some info" using i by (simp add: upd_icount_def)
  then show ?thesis using i g
    by (simp add: snx_ser_handle_cts_change_def Let_def ex_pair_eq then_pairs then_upd_tty split_beta
        snx_ser_write_wakeup_def then_emit)
qed

lemma then_modem:
  assumes "good_step sp m sp1 m1"
  shows "\<exists>sp2 m2. sunix_ser_check_modem_status msr sp1 m1 = Some (sp2, m2) \<and> good_step sp m sp2 m2"
proof -
  obtain info t where i: "sp_info sp1 = Some info" using good_step_live [OF assms] by (rule liveD)
  define sp2 where "sp2 = (if has msr UART_MSR_TERI then upd_icount (\<lambda>ic. ic\<lparr>ic_rng := ic_rng ic + 1\<rparr>) sp1 else sp1)"
  define sp3 where "sp3 = (if has msr UART_MSR_DDSR then upd_icount (\<lambda>ic. ic\<lparr>ic_dsr := ic_dsr ic + 1\<rparr>) sp2 else sp2)"
  obtain sp4 m4 where 4: "(if has msr UART_MSR_DDCD then snx_ser_handle_dcd_change (has msr UART_MSR_DCD) info sp3 m1
      else (sp3, m1)) = (sp4, m4)" by fastforce
  have "good_step sp m sp2 m1" unfolding sp2_def using assms by (simp add: then_icount)
  then have "good_step sp m sp3 m1" unfolding sp3_def by (simp add: then_icount)
  then have g: "good_step sp m sp4 m4"
    using 4 by (auto simp: snx_ser_handle_dcd_change_def intro!: good_thens split: if_splits)
  have "\<exists>sp5 m5. (if has msr UART_MSR_DCTS then snx_ser_handle_cts_change (has msr UART_MSR_CTS) sp4 m4
      else Some (sp4, m4)) = Some (sp5, m5) \<and> good_step sp m sp5 m5"
    using then_cts [OF g, of "has msr UART_MSR_CTS"] g by (cases "has msr UART_MSR_DCTS") auto
  then obtain sp5 m5 where "(if has msr UART_MSR_DCTS then snx_ser_handle_cts_change (has msr UART_MSR_CTS) sp4 m4
      else Some (sp4, m4)) = Some (sp5, m5)" "good_step sp m sp5 m5"
    by blast
  then have "sunix_ser_check_modem_status msr sp1 m1
      = (if \<not> has msr UART_MSR_ANY_DELTA then Some (sp1, m1) else Some (sp5, emit WakeDelta m5))"
    by (simp only: sunix_ser_check_modem_status_def sp2_def [symmetric] sp3_def [symmetric] Let_def i 4
        option.case prod.case)
  then show ?thesis using assms \<open>good_step sp m sp5 m5\<close> by (simp add: then_emit)
qed

lemma handle_port_good:
  assumes "live sp" and x: "sp_x_char sp = 0"
  shows "\<exists>sp' m'. sunix_ser_handle_port iir sp m = Some (sp', m') \<and> good_step sp m sp' m'"
proof -
  obtain l m1 where 1: "uart_read UART_LSR sp m = (l, m1)" by fastforce
  have g1: "good_step sp m sp m1" using good_read [OF assms(1) 1] .
  have "\<exists>lsr2 sp2 m2. (if iir = UART_IIR_RLSI \<or> iir = UART_IIR_CTO \<or> iir = UART_IIR_RDI
      then sunix_ser_receive_chars (lsr_fix l) sp m1 else Some (lsr_fix l, sp, m1)) = Some (lsr2, sp2, m2)
      \<and> good_step sp m sp2 m2" (is "\<exists>lsr2 sp2 m2. (if ?rx then _ else _) = _ \<and> _")
    using receive_good [OF assms(1), of "lsr_fix l" m1] good_step_trans [OF g1] g1 by (cases ?rx) auto
  then obtain lsr2 sp2 m2 where 2: "(if iir = UART_IIR_RLSI \<or> iir = UART_IIR_CTO \<or> iir = UART_IIR_RDI
      then sunix_ser_receive_chars (lsr_fix l) sp m1 else Some (lsr_fix l, sp, m1)) = Some (lsr2, sp2, m2)"
    and g2: "good_step sp m sp2 m2"
    by blast
  have "\<exists>sp3 m3. (if iir = UART_IIR_THRI \<and> has lsr2 UART_LSR_THRE then sunix_ser_transmit_chars sp2 m2
      else Some (sp2, m2)) = Some (sp3, m3) \<and> good_step sp m sp3 m3" (is "\<exists>sp3 m3. (if ?tx then _ else _) = _ \<and> _")
    using then_transmit [OF g2 x] g2 by (cases ?tx) auto
  then obtain sp3 m3 where 3: "(if iir = UART_IIR_THRI \<and> has lsr2 UART_LSR_THRE then sunix_ser_transmit_chars sp2 m2
      else Some (sp2, m2)) = Some (sp3, m3)" and g3: "good_step sp m sp3 m3"
    by blast
  obtain msr m4 where 4: "uart_read UART_MSR sp3 m3 = (msr, m4)" by fastforce
  have g4: "good_step sp m sp3 m4" by (rule then_read [OF g3 4])
  show ?thesis
    using 1 2 3 4 g4 then_modem [OF g4, of msr]
    by (simp add: sunix_ser_handle_port_def uart_access Let_def ex_pair_eq then_pairs)
qed

subsection \<open>Output end to end\<close>

lemma start_locked_good:
  assumes "live sp"
  shows "\<exists>sp' m'. snx_ser_start_locked sp m = Some (sp', m') \<and> good_step sp m sp' m'"
proof -
  obtain info t where "sp_info sp = Some info" "si_tty info = Some t" using assms by (rule liveD)
  then show ?thesis using assms then_pairs(1) [of sp m sp m]
    by (simp add: snx_ser_start_locked_def ex_pair_eq)
qed

lemma start_good: "live sp \<Longrightarrow> \<exists>sp' m'. snx_ser_start sp m = Some (sp', m') \<and> good_step sp m sp' m'"
  using start_locked_good [of sp m] by (simp add: snx_ser_start_def)

text \<open>A new transmit buffer, and nothing else.\<close>

lemma set_xmit_facts:
  assumes "live sp" and "circ_ok circ"
  shows "live (set_xmit circ sp)" "xmit_of (set_xmit circ sp) = circ" "sp_line (set_xmit circ sp) = sp_line sp"
    "sp_x_char (set_xmit circ sp) = sp_x_char sp" "sp_iobase (set_xmit circ sp) = sp_iobase sp"
    "shadow (set_xmit circ sp) m = shadow sp m"
    "thr (set_xmit circ sp) m = outs_at (uart_addr sp UART_TX) (trace m) @ circ_content circ"
proof -
  show a: "sp_line (set_xmit circ sp) = sp_line sp" "sp_x_char (set_xmit circ sp) = sp_x_char sp"
    "sp_iobase (set_xmit circ sp) = sp_iobase sp"
    by (simp_all add: set_xmit_def upd_info_def)
  show b: "live (set_xmit circ sp)" "xmit_of (set_xmit circ sp) = circ"
    using assms by (auto simp: live_def xmit_of_def set_xmit_def upd_info_def)
  show "shadow (set_xmit circ sp) m = shadow sp m"
    by (rule shadow_same) (simp_all add: set_xmit_def upd_info_def)
  show "thr (set_xmit circ sp) m = outs_at (uart_addr sp UART_TX) (trace m) @ circ_content circ"
    using b uart_addr_cong [OF a(3)] by (simp add: thr_def)
qed

lemma write_accepts:
  assumes "live sp"
  shows "\<exists>sp' m'. snx_ser_write buf sp m = Some (int (min (length buf) (circ_room (xmit_of sp))), sp', m')
    \<and> live sp' \<and> sp_x_char sp' = sp_x_char sp \<and> sp_line sp' = sp_line sp \<and> (shadow sp m \<longrightarrow> shadow sp' m')
    \<and> thr sp' m' = thr sp m @ take (circ_room (xmit_of sp)) buf"
proof -
  obtain info t where i: "sp_info sp = Some info" "si_tty info = Some t" "circ_ok (si_xmit info)" "xmit_of sp = si_xmit info"
    using assms by (rule liveD)
  obtain circ ret where w: "circ_write buf (si_xmit info) 0 = (circ, ret)" by fastforce
  have c: "circ_ok circ" "circ_content circ = circ_content (si_xmit info) @ take (circ_room (si_xmit info)) buf"
    "ret = int (min (length buf) (circ_room (si_xmit info)))"
    using circ_write_content [OF i(3), of buf 0] w by simp_all
  note x = set_xmit_facts [OF assms c(1)]
  obtain sp' m' where s: "snx_ser_start (set_xmit circ sp) m = Some (sp', m')" "good_step (set_xmit circ sp) m sp' m'"
    using start_good [OF x(1)] by blast
  have "cb_buf (si_xmit info) \<noteq> None" using i(3) by (auto simp: circ_ok_def)
  then have "snx_ser_write buf sp m = Some (ret, sp', m')" using i(1) w s(1) by (auto simp: snx_ser_write_def)
  moreover have "thr sp m = outs_at (uart_addr sp UART_TX) (trace m) @ circ_content (si_xmit info)"
    using i(4) by (simp add: thr_def)
  ultimately show ?thesis using s(2) x c i(4) by (simp add: good_step_def)
qed

lemma put_char_accepts:
  assumes "live sp" and "line_ok sp"
  shows "\<exists>sp'. snx_ser_put_char c sp = Some sp' \<and> live sp' \<and> sp_x_char sp' = sp_x_char sp \<and> sp_line sp' = sp_line sp
    \<and> (shadow sp m \<longrightarrow> shadow sp' m) \<and> thr sp' m = thr sp m @ (if circ_room (xmit_of sp) = 0 then [] else [c])"
proof -
  obtain info t where i: "sp_info sp = Some info" "circ_ok (si_xmit info)" "xmit_of sp = si_xmit info"
    using assms(1) by (rule liveD)
  note x = set_xmit_facts [OF assms(1) ring.put_good [OF i(2)], of c]
  show ?thesis using assms(2) i x ring.put_content [OF i(2), of c] by (simp add: snx_ser_put_char_def thr_def)
qed

text \<open>
  A history of an open line: the writers' calls and the port's interrupts, in any order. The
  first component of the result collects the bytes the driver accepted.
\<close>

datatype line_op = PutChar u8 | Write "u8 list" | PortIrq u8

fun line_run :: "line_op list \<Rightarrow> sunix_ser_port \<Rightarrow> machine \<Rightarrow> (u8 list \<times> sunix_ser_port \<times> machine) option" where
  "line_run [] sp m = Some ([], sp, m)"
| "line_run (PutChar c # ops) sp m =
    (case snx_ser_put_char c sp of None \<Rightarrow> None | Some sp1 \<Rightarrow>
      (case line_run ops sp1 m of None \<Rightarrow> None | Some (acc, r) \<Rightarrow>
        Some ((if circ_room (xmit_of sp) = 0 then [] else [c]) @ acc, r)))"
| "line_run (Write buf # ops) sp m =
    (case snx_ser_write buf sp m of None \<Rightarrow> None | Some (ret, sp1, m1) \<Rightarrow>
      (case line_run ops sp1 m1 of None \<Rightarrow> None | Some (acc, r) \<Rightarrow> Some (take (nat ret) buf @ acc, r)))"
| "line_run (PortIrq iir # ops) sp m =
    (case sunix_ser_handle_port iir sp m of None \<Rightarrow> None | Some (sp1, m1) \<Rightarrow> line_run ops sp1 m1)"

lemma line_run_fifo:
  "live sp \<Longrightarrow> line_ok sp \<Longrightarrow> sp_x_char sp = 0 \<Longrightarrow> \<exists>acc sp' m'. line_run ops sp m = Some (acc, sp', m')
     \<and> live sp' \<and> (shadow sp m \<longrightarrow> shadow sp' m') \<and> thr sp' m' = thr sp m @ acc"
proof (induction ops arbitrary: sp m)
  case Nil
  then show ?case by simp
next
  case (Cons op ops)
  show ?case
  proof (cases op)
    case (PutChar c)
    obtain sp1 where 1: "snx_ser_put_char c sp = Some sp1" "live sp1" "sp_x_char sp1 = 0" "line_ok sp1"
      "shadow sp m \<longrightarrow> shadow sp1 m" "thr sp1 m = thr sp m @ (if circ_room (xmit_of sp) = 0 then [] else [c])"
      using put_char_accepts [OF Cons.prems(1,2), of c m] Cons.prems(2,3) by (auto simp: line_ok_def)
    from Cons.IH [OF 1(2,4,3), of m] show ?thesis using 1 PutChar by auto
  next
    case (Write buf)
    obtain sp1 m1 where 1: "snx_ser_write buf sp m = Some (int (min (length buf) (circ_room (xmit_of sp))), sp1, m1)"
      "live sp1" "sp_x_char sp1 = 0" "line_ok sp1" "shadow sp m \<longrightarrow> shadow sp1 m1"
      "thr sp1 m1 = thr sp m @ take (circ_room (xmit_of sp)) buf"
      using write_accepts [OF Cons.prems(1), of buf m] Cons.prems(2,3) by (auto simp: line_ok_def)
    have "take (min (length buf) (circ_room (xmit_of sp))) buf = take (circ_room (xmit_of sp)) buf"
      by (simp add: min_def)
    with Cons.IH [OF 1(2,4,3), of m1] show ?thesis using 1 Write by auto
  next
    case (PortIrq iir)
    obtain sp1 m1 where 1: "sunix_ser_handle_port iir sp m = Some (sp1, m1)" "good_step sp m sp1 m1"
      using handle_port_good [OF Cons.prems(1,3)] by blast
    then have 2: "live sp1" "line_ok sp1" "sp_x_char sp1 = 0" using Cons.prems by (auto simp: good_step_def line_ok_def)
    from Cons.IH [OF this, of m1] show ?thesis using 1 PortIrq by (auto simp: good_step_def)
  qed
qed

subsection \<open>Receiving keeps the order of the bytes\<close>

text \<open>The data bytes a trace hands to the tty layer: all but the overrun marks.\<close>

definition data_flips :: "event list \<Rightarrow> u8 list" where
  "data_flips ts = map fst (filter (\<lambda>(c, f). f \<noteq> TTY_OVERRUN) (flips ts))"

lemma data_flips_simps [simp]:
  "data_flips [] = []" "data_flips (xs @ ys) = data_flips xs @ data_flips ys"
  "data_flips (FlipChar c f b # xs) = (if f = TTY_OVERRUN then data_flips xs else c # data_flips xs)"
  by (simp_all add: data_flips_def)

lemma data_flips_other [simp]: "(\<And>c f b. e \<noteq> FlipChar c f b) \<Longrightarrow> data_flips (e # xs) = data_flips xs"
  by (simp add: data_flips_def)

text \<open>The characters a full flip buffer refused.\<close>

definition refused :: "event list \<Rightarrow> nat" where
  "refused ts = length (filter (\<lambda>e. \<exists>c f. e = FlipChar c f False) ts)"

lemma refused_simps [simp]:
  "refused [] = 0" "refused (xs @ ys) = refused xs + refused ys"
  "refused (FlipChar c f b # xs) = (if b then refused xs else Suc (refused xs))"
  by (simp_all add: refused_def)

lemma refused_other [simp]: "(\<And>c f b. e \<noteq> FlipChar c f b) \<Longrightarrow> refused (e # xs) = refused xs"
  by (simp add: refused_def)

text \<open>The counter of a stretch: every refused character counts as a buffer overrun, and nothing else does.\<close>

definition counts :: "sunix_ser_port \<Rightarrow> event list \<Rightarrow> sunix_ser_port \<Rightarrow> bool" where
  "counts sp ts sp' \<longleftrightarrow> ic_buf_overrun (sp_icount sp') = ic_buf_overrun (sp_icount sp) + of_nat (refused ts)"

lemma counts_trans: "counts sp ts sp1 \<Longrightarrow> counts sp1 us sp2 \<Longrightarrow> counts sp (ts @ us) sp2"
  by (simp add: counts_def)

text \<open>A tty without software flow control and a port that ignores no status.\<close>

definition raw_input :: "sunix_ser_port \<Rightarrow> bool" where
  "raw_input sp \<longleftrightarrow> sp_iobase sp \<noteq> 0 \<and> sp_ignore_status_mask sp = 0
     \<and> (\<exists>info t. sp_info sp = Some info \<and> si_tty info = Some t
          \<and> \<not> has (tty_c_iflag t) IXOFF \<and> \<not> has (tty_c_iflag t) IXON)"

definition same_input :: "sunix_ser_port \<Rightarrow> sunix_ser_port \<Rightarrow> bool" where
  "same_input sp sp' \<longleftrightarrow> sp_iobase sp' = sp_iobase sp \<and> sp_info sp' = sp_info sp
     \<and> sp_ignore_status_mask sp' = sp_ignore_status_mask sp"

lemma same_input_icount [simp]: "same_input sp (upd_icount f sp') \<longleftrightarrow> same_input sp sp'"
  by (simp add: same_input_def upd_icount_def)

lemma same_input_raw: "same_input sp sp' \<Longrightarrow> raw_input sp' \<longleftrightarrow> raw_input sp"
  by (simp add: same_input_def raw_input_def)

lemma rx_flag_data: "rx_flag lsr \<noteq> TTY_OVERRUN"
  by (simp add: rx_flag_def)

lemma rx_status_data:
  assumes "rx_status lsr info sp m = (lsr', flag, sp', m')"
  shows "same_input sp sp'" "flag \<noteq> TTY_OVERRUN" "trace m' = trace m \<or> trace m' = trace m @ [DoSAK]" "counts sp [] sp'"
proof -
  show "counts sp [] sp'" using assms by (auto simp: rx_status_def Let_def counts_def upd_icount_def split: if_splits)
  show "same_input sp sp'" "trace m' = trace m \<or> trace m' = trace m @ [DoSAK]"
    using assms by (auto simp: rx_status_def snx_ser_handle_break_def Let_def same_input_def upd_icount_def split: if_splits)
  show "flag \<noteq> TTY_OVERRUN" using assms rx_flag_data by (auto simp: rx_status_def Let_def split: if_splits prod.splits)
qed

lemma insert_char_data:
  assumes "snx_ser_insert_char st ov ch flag sp m = (sp', m')" and "sp_ignore_status_mask sp = 0" and "flag \<noteq> TTY_OVERRUN"
  shows "same_input sp sp' \<and> (\<exists>ts. trace m' = trace m @ ts \<and> data_flips ts = [ch] \<and> ins_at a ts = [] \<and> counts sp ts sp')"
  using assms
  by (auto simp: counts_def snx_ser_insert_char_def flip_or_count_def flip_char_def Let_def same_input_def upd_icount_def split: if_splits)

lemma rx_one_data:
  assumes "rx_one lsr sp m = Some (sp', m')" and raw: "raw_input sp"
  shows "same_input sp sp' \<and> (\<exists>ts ch. trace m' = trace m @ ts \<and> data_flips ts = [ch] \<and> ins_at (uart_addr sp UART_RX) ts = [ch]
    \<and> counts sp ts sp')"
proof -
  obtain info t where i: "sp_info sp = Some info" "si_tty info = Some t" "\<not> has (tty_c_iflag t) IXOFF" "\<not> has (tty_c_iflag t) IXON"
    using raw by (auto simp: raw_input_def)
  obtain ch m1 where 1: "uart_read UART_RX sp m = (ch, m1)" by fastforce
  then have tr: "trace m1 = trace m @ [In (uart_addr sp UART_RX) ch]"
    using raw by (auto simp: uart_read_def raw_input_def inb_def Let_def)
  let ?sp1 = "upd_icount (\<lambda>ic. ic\<lparr>ic_rx := ic_rx ic + 1\<rparr>) sp"
  obtain lsr2 flag sp2 m2 where 2: "rx_status lsr info ?sp1 m1 = (lsr2, flag, sp2, m2)"
    by (rule prod_cases4)
  note d = rx_status_data [OF 2]
  have s2: "same_input sp sp2" using d(1) by (simp add: same_input_def upd_icount_def)
  have "snx_ser_insert_char (ucast lsr2) (ucast UART_LSR_OE) ch flag sp2 m2 = (sp', m')"
    using assms(1) i 1 2 by (simp add: rx_one_def uart_access Let_def)
  moreover have "sp_ignore_status_mask sp2 = 0" using s2 raw by (simp add: same_input_def raw_input_def)
  ultimately obtain ts where ts: "same_input sp2 sp'" "trace m' = trace m2 @ ts" "data_flips ts = [ch]"
    "ins_at (uart_addr sp UART_RX) ts = []" "counts sp2 ts sp'"
    using insert_char_data [OF _ _ d(2)] by blast
  have "counts sp ts sp'" using d(4) ts(5) by (simp add: counts_def upd_icount_def)
  moreover have "same_input sp sp'" using s2 ts(1) by (simp add: same_input_def)
  ultimately show ?thesis using d(3) ts(2-4) tr by (auto simp: counts_def)
qed

lemma rx_loop_data:
  "rx_loop n lsr sp m = Some (l, sp', m') \<Longrightarrow> raw_input sp
    \<Longrightarrow> \<exists>ts. trace m' = trace m @ ts \<and> data_flips ts = ins_at (uart_addr sp UART_RX) ts
          \<and> 1 \<le> length (ins_at (uart_addr sp UART_RX) ts) \<and> length (ins_at (uart_addr sp UART_RX) ts) \<le> n + 1
          \<and> counts sp ts sp'"
proof (induction n arbitrary: lsr sp m)
  case (0 lsr sp m)
  then obtain sp1 m1 l' where 1: "rx_one lsr sp m = Some (sp1, m1)" "uart_read UART_LSR sp1 m1 = (l', m')"
    by (subst (asm) rx_loop.simps) (auto simp: uart_access Let_def split: option.splits prod.splits)
  obtain ts ch where d: "same_input sp sp1" "trace m1 = trace m @ ts" "data_flips ts = [ch]" "ins_at (uart_addr sp UART_RX) ts = [ch]"
    "counts sp ts sp1"
    using rx_one_data [OF 1(1) 0(2)] by blast
  then have "trace m' = trace m1 @ [In (uart_addr sp UART_LSR) l']"
    using 1(2) 0(2) by (auto simp: uart_read_def raw_input_def same_input_def uart_addr_def inb_def Let_def)
  moreover have "sp' = sp1"
    using 0(1) 1 by (subst (asm) rx_loop.simps) (auto simp: uart_access Let_def split: if_splits)
  ultimately show ?case using d by (intro exI [of _ "ts @ [In (uart_addr sp UART_LSR) l']"]) (simp add: counts_def)
next
  case (Suc n)
  obtain sp1 m1 where 1: "rx_one lsr sp m = Some (sp1, m1)"
    using Suc.prems(1) by (subst (asm) rx_loop.simps) (auto split: option.splits)
  obtain l' m2 where 2: "uart_read UART_LSR sp1 m1 = (l', m2)" by fastforce
  obtain ts ch where d: "same_input sp sp1" "trace m1 = trace m @ ts" "data_flips ts = [ch]" "ins_at (uart_addr sp UART_RX) ts = [ch]"
    "counts sp ts sp1"
    using rx_one_data [OF 1 Suc.prems(2)] by blast
  have tr: "trace m2 = trace m @ ts @ [In (uart_addr sp UART_LSR) l']"
    using 2 d(1,2) Suc.prems(2) by (auto simp: uart_read_def raw_input_def same_input_def uart_addr_def inb_def Let_def)
  have raw1: "raw_input sp1" and addr: "uart_addr sp1 UART_RX = uart_addr sp UART_RX"
    using same_input_raw [OF d(1)] Suc.prems(2) d(1) by (simp_all add: same_input_def uart_addr_def)
  have res: "if has (lsr_fix l') UART_LSR_DR then rx_loop n (lsr_fix l') sp1 m2 = Some (l, sp', m') else m' = m2 \<and> sp' = sp1"
    using Suc.prems(1) 1 2 by (subst (asm) rx_loop.simps) (auto simp: uart_access Let_def split: if_splits)
  show ?case
  proof (cases "has (lsr_fix l') UART_LSR_DR")
    case True
    with res Suc.IH [OF _ raw1] obtain us where us: "trace m' = trace m2 @ us"
      "data_flips us = ins_at (uart_addr sp UART_RX) us" "length (ins_at (uart_addr sp UART_RX) us) \<le> n + 1" "counts sp1 us sp'"
      unfolding addr by auto
    then show ?thesis using tr d by (intro exI [of _ "ts @ In (uart_addr sp UART_LSR) l' # us"]) (simp add: counts_def)
  next
    case False
    then show ?thesis using tr d res by (intro exI [of _ "ts @ [In (uart_addr sp UART_LSR) l']"]) (simp add: counts_def)
  qed
qed

subsection \<open>The board's interrupt routine\<close>

text \<open>It serves the ports of its board only, and it keeps every one of them live.\<close>

definition ready :: "sunix_ser_port \<Rightarrow> bool" where
  "ready sp \<longleftrightarrow> live sp \<and> sp_x_char sp = 0"

definition board_step :: "nat \<Rightarrow> nat \<Rightarrow> ser_state \<Rightarrow> ser_state \<Rightarrow> bool" where
  "board_step first mx st st' \<longleftrightarrow> length (fst st') = length (fst st)
     \<and> (\<forall>k. k < first \<or> first + mx \<le> k \<longrightarrow> fst st' ! k = fst st ! k)
     \<and> (\<forall>i<mx. ready (fst st' ! (first + i)))"

definition board_live :: "nat \<Rightarrow> nat \<Rightarrow> ser_state \<Rightarrow> bool" where
  "board_live first mx st \<longleftrightarrow> first + mx \<le> length (fst st) \<and> (\<forall>i<mx. ready (fst st ! (first + i)))"

lemma board_step_refl: "board_live first mx st \<Longrightarrow> board_step first mx st st"
  by (simp add: board_step_def board_live_def)

lemma board_step_machine: "board_live first mx (ser, m) \<Longrightarrow> board_step first mx (ser, m) (ser, m')"
  by (simp add: board_step_def board_live_def)

lemma board_step_trans: "board_step first mx st st1 \<Longrightarrow> board_step first mx st1 st2 \<Longrightarrow> board_step first mx st st2"
  by (simp add: board_step_def)

lemma board_step_live: "board_step first mx st st' \<Longrightarrow> board_live first mx st \<Longrightarrow> board_live first mx st'"
  by (simp add: board_step_def board_live_def)

lemma service_ok:
  assumes "board_live first mx st" and "i < mx"
  shows "\<exists>st'. service (first + i) st = Some st' \<and> board_step first mx st st'"
proof -
  obtain ser m where st: "st = (ser, m)" by (cases st)
  let ?sp = "ser ! (first + i)"
  have lt: "first + i < length ser" and r: "live ?sp" "sp_x_char ?sp = 0"
    using assms st by (auto simp: board_live_def ready_def)
  obtain v m1 where v: "READ_UART_IIR ?sp m = (v, m1)" by fastforce
  obtain sp1 m2 where h: "sunix_ser_handle_port (v AND 0x0f) ?sp m1 = Some (sp1, m2)" "good_step ?sp m1 sp1 m2"
    using handle_port_good [OF r] by blast
  have "ready sp1" using h(2) r(2) by (simp add: good_step_def ready_def)
  then have "board_step first mx st (ser[first + i := sp1], m2)"
    using assms st lt by (auto simp: board_step_def board_live_def nth_list_update)
  then show ?thesis
    using st v h(1) lt board_step_machine [of first mx ser m m1] assms(1) by (auto simp: service_def Let_def)
qed

lemma service_all_ok:
  "board_live first mx st \<Longrightarrow> \<forall>i\<in>set is. i < mx
    \<Longrightarrow> \<exists>st'. service_all due first is st = Some st' \<and> board_step first mx st st'"
proof (induction "is" arbitrary: st)
  case Nil
  then show ?case by (simp add: board_step_refl)
next
  case (Cons i "is")
  obtain st1 where 1: "service (first + i) st = Some st1" "board_step first mx st st1"
    using service_ok [OF Cons.prems(1), of i] Cons.prems(2) by (metis list.set_intros(1))
  have rest: "\<forall>i\<in>set is. i < mx" using Cons.prems(2) by simp
  show ?case
    using Cons.IH [OF Cons.prems(1) rest] Cons.IH [OF board_step_live [OF 1(2) Cons.prems(1)] rest] 1
    by (auto intro: board_step_trans)
qed

lemma service_upto_ok:
  "board_live first mx st \<Longrightarrow> \<exists>st'. service_all due first [0..<mx] st = Some st' \<and> board_step first mx st st'"
  by (rule service_all_ok) simp_all

lemma remap_passes_ok:
  "board_live first mx st \<Longrightarrow> \<exists>st'. remap_passes n first mx st = Some st' \<and> board_step first mx st st'"
proof (induction n arbitrary: st)
  case 0
  then show ?case by (simp add: board_step_refl)
next
  case (Suc n)
  obtain st1 where 1: "service_all (\<lambda>i sp. sp_iobase sp \<noteq> 0) first [0..<mx] st = Some st1" "board_step first mx st st1"
    using service_upto_ok [OF Suc.prems] by blast
  from Suc.IH [OF board_step_live [OF 1(2) Suc.prems]] 1 show ?case by (auto intro: board_step_trans)
qed

lemma vector_passes_ok:
  "board_live first mx st \<Longrightarrow> \<exists>st'. vector_passes vec n first mx st = Some st' \<and> board_step first mx st st'"
proof (induction n arbitrary: st)
  case 0
  then show ?case by (simp add: board_step_refl)
next
  case (Suc n)
  obtain ser m where st: "st = (ser, m)" by (cases st)
  obtain v m1 where v: "vec (ser ! first) m = (v, m1)" by fastforce
  have m1: "board_live first mx (ser, m1)" "board_step first mx st (ser, m1)"
    using Suc.prems st by (simp_all add: board_live_def board_step_def)
  let ?bits = "v AND sp_vector_mask (ser ! first)"
  obtain st1 where 1: "service_all (\<lambda>i sp. bit ?bits i) first [0..<mx] (ser, m1) = Some st1"
    "board_step first mx (ser, m1) st1"
    using service_upto_ok [OF m1(1)] by blast
  have 2: "board_step first mx st st1" by (rule board_step_trans [OF m1(2) 1(2)])
  from Suc.IH [OF board_step_live [OF 2 Suc.prems]] 1 2 m1 show ?case
    by (auto simp: st v Let_def intro: board_step_trans)
qed

lemma interrupt_ok:
  assumes "board_live first (unat (sb_ser_port sb)) st"
  shows "\<exists>st'. sunix_ser_interrupt sb first st = Some st' \<and> board_step first (unat (sb_ser_port sb)) st st'"
  using remap_passes_ok [OF assms] vector_passes_ok [OF assms] by (simp add: sunix_ser_interrupt_def Let_def)

subsection \<open>Properties\<close>

lemma example_line_live: "live example_line" "sp_x_char example_line = 0" "line_ok example_line"
  using example_xmit_ok
  by (simp_all add: live_def example_line_def example_uart_def line_ok_def zero_ser_port_def example_info_def)

text \<open>
  C1. Output of an open line, end to end: over any history of \<open>put_char\<close> and \<open>write\<close> calls and
  interrupts of the port, in any interleaving, what has been written to the transmitter followed by
  what still waits in the ring buffer is what was there at first followed by the accepted bytes, in the
  order they were accepted: none lost, none doubled, none out of order. No step dereferences NULL,
  and the line stays open with a good buffer.
\<close>

theorem output_is_fifo:
  assumes "live sp" and "line_ok sp" and "sp_x_char sp = 0"
  shows "\<exists>acc sp' m'. line_run ops sp m = Some (acc, sp', m') \<and> live sp' \<and> thr sp' m' = thr sp m @ acc"
  using line_run_fifo [OF assms, of ops m] by blast

theorem output_is_fifo_witness:
  "\<exists>acc sp' m'. line_run [PutChar 65, Write [66, 67], PortIrq 2] example_line idle_machine = Some (acc, sp', m')
     \<and> thr sp' m' = thr example_line idle_machine @ acc"
  using output_is_fifo [OF example_line_live(1,3,2), of "[PutChar 65, Write [66, 67], PortIrq 2]" idle_machine] by blast

text \<open>
  C9. Receiving, on a line without software flow control (neither IXON nor IXOFF) that ignores no status: the data
  bytes offered to the tty layer's flip buffer are exactly the bytes read from the receiver, each once and in order,
  at least one and at most 257 in one interrupt, whatever the status register says. The buffer keeps a byte if it
  has room; \<^verbatim>\<open>buf_overrun\<close> grows by exactly the number of offers it refused, the overrun marks among them, so
  nothing was lost if it has not grown (modulo \<open>2\<^sup>3\<^sup>2\<close>).
\<close>

theorem receive_is_fifo:
  assumes "sunix_ser_receive_chars lsr sp m = Some (l, sp', m')" and "raw_input sp"
  shows "\<exists>ts. trace m' = trace m @ ts \<and> data_flips ts = ins_at (uart_addr sp UART_RX) ts
    \<and> 1 \<le> length (ins_at (uart_addr sp UART_RX) ts) \<and> length (ins_at (uart_addr sp UART_RX) ts) \<le> 257
    \<and> ic_buf_overrun (sp_icount sp') = ic_buf_overrun (sp_icount sp) + of_nat (refused ts)"
proof -
  obtain m1 where 1: "rx_loop 256 lsr sp m = Some (l, sp', m1)" "m' = emit FlipPush m1"
    using assms(1) by (auto simp: sunix_ser_receive_chars_def split: option.splits)
  from rx_loop_data [OF 1(1) assms(2)] obtain ts where "trace m1 = trace m @ ts"
    "data_flips ts = ins_at (uart_addr sp UART_RX) ts" "1 \<le> length (ins_at (uart_addr sp UART_RX) ts)"
    "length (ins_at (uart_addr sp UART_RX) ts) \<le> 257" "counts sp ts sp'"
    by auto
  then show ?thesis using 1(2) by (intro exI [of _ "ts @ [FlipPush]"]) (simp add: counts_def)
qed

theorem receive_is_fifo_witness:
  "\<exists>l sp' m' ts. sunix_ser_receive_chars 1 example_line idle_machine = Some (l, sp', m')
     \<and> trace m' = trace idle_machine @ ts \<and> data_flips ts = ins_at (uart_addr example_line UART_RX) ts
     \<and> ic_buf_overrun (sp_icount sp') = ic_buf_overrun (sp_icount example_line) + of_nat (refused ts)"
proof -
  obtain l sp' m' where r: "sunix_ser_receive_chars 1 example_line idle_machine = Some (l, sp', m')"
    using receive_good [OF example_line_live(1)] by blast
  have "raw_input example_line"
    by (simp add: raw_input_def example_line_def example_uart_def example_info_def example_tty_def zero_ser_port_def)
  with receive_is_fifo [OF r] r show ?thesis by blast
qed

text \<open>
  C17. The interrupt routine of a board whose ports are all open with no flow control character pending
  returns, whichever way it finds the ports that need service: it never dereferences NULL, leaves every
  port of the board open, and does not touch a port of another board.
\<close>

theorem interrupt_safe_and_local:
  assumes "first + unat (sb_ser_port sb) \<le> length ser"
    and "\<And>i. i < unat (sb_ser_port sb) \<Longrightarrow> ready (ser ! (first + i))"
  shows "\<exists>ser' m'. sunix_ser_interrupt sb first (ser, m) = Some (ser', m') \<and> length ser' = length ser
     \<and> (\<forall>i<unat (sb_ser_port sb). ready (ser' ! (first + i)))
     \<and> (\<forall>k. k < first \<or> first + unat (sb_ser_port sb) \<le> k \<longrightarrow> ser' ! k = ser ! k)"
proof -
  have "board_live first (unat (sb_ser_port sb)) (ser, m)" using assms by (simp add: board_live_def)
  from interrupt_ok [OF this] show ?thesis by (auto simp: board_step_def)
qed

theorem interrupt_safe_and_local_witness:
  "\<exists>ser' m'. sunix_ser_interrupt (zero_board\<lparr>sb_ser_port := 2\<rparr>) 0 ([example_line, example_line, zero_ser_port], idle_machine) = Some (ser', m')
     \<and> ser' ! 2 = zero_ser_port"
proof -
  have "ready ([example_line, example_line, zero_ser_port] ! i)" if "i < 2" for i :: nat
    using that example_line_live by (auto simp: ready_def less_2_cases_iff)
  then show ?thesis
    using interrupt_safe_and_local [of 0 "zero_board\<lparr>sb_ser_port := 2\<rparr>" "[example_line, example_line, zero_ser_port]" idle_machine]
    by (auto simp: zero_board_def)
qed

text \<open>
  \<open>write\<close> takes the longest prefix there is room for, says how long that is, and starts the
  transmitter interrupt; a following \<open>write_room\<close> is smaller by that number.
\<close>

theorem write_takes_longest_prefix:
  assumes "live sp" and "line_ok sp"
  shows "\<exists>n sp' m'. snx_ser_write buf sp m = Some (int n, sp', m') \<and> snx_ser_write_room sp = Some (int (circ_room (xmit_of sp)))
    \<and> n = min (length buf) (circ_room (xmit_of sp)) \<and> thr sp' m' = thr sp m @ take n buf \<and> live sp'"
proof -
  obtain info t where i: "sp_info sp = Some info" "circ_ok (si_xmit info)" "xmit_of sp = si_xmit info"
    using assms(1) by (rule liveD)
  have "0 \<le> snx_ser_circ_chars_free (si_xmit info)" using free_eq [OF i(2)] pending_bounds [OF i(2)] by simp
  then have "snx_ser_write_room sp = Some (int (circ_room (xmit_of sp)))"
    using assms(2) i by (simp add: snx_ser_write_room_def circ_room_def)
  moreover have "take (min (length buf) (circ_room (xmit_of sp))) buf = take (circ_room (xmit_of sp)) buf"
    by (simp add: min_def)
  ultimately show ?thesis using write_accepts [OF assms(1), of buf m] by auto
qed

theorem write_takes_longest_prefix_witness:
  "\<exists>n sp' m'. snx_ser_write [1, 2, 3] example_line idle_machine = Some (int n, sp', m') \<and> n \<le> 3"
  using write_takes_longest_prefix [OF example_line_live(1,3), of "[1, 2, 3]" idle_machine] by auto

end
