(* ===== verification/Snx_Line.thy ===== *)
theory Snx_Line
  imports Snx_Serial_Irq
begin

text \<open>
  The life of an open serial line: from a successful start-up through any interleaving of the
  tty operations, the port's interrupts and its polling timer. Operations under the port lock are
  atomic steps. The invariant of all reachable states: the line has its tty and a good transmit
  buffer, and the driver's copies of the write-only registers are what the chip holds.
\<close>

section \<open>The life of an open line\<close>

subsection \<open>Steps\<close>

type_synonym line_state = "sunix_ser_port \<times> machine"

text \<open>
  The tty layer may change the termios and its throttled flag between calls (\<open>TtyChange\<close>);
  everything else is an operation of the driver.
\<close>

inductive line_step :: "u32 \<Rightarrow> line_state \<Rightarrow> line_state \<Rightarrow> bool" for HZ where
  TtyChange: "line_step HZ (sp, m)
      (upd_tty (\<lambda>t. t\<lparr>tty_c_cflag := c, tty_c_iflag := i, tty_throttled := th\<rparr>) sp, m)"
| DoPutChar: "snx_ser_put_char c sp = Some sp' \<Longrightarrow> line_step HZ (sp, m) (sp', m)"
| DoWrite: "snx_ser_write buf sp m = Some (ret, sp', m') \<Longrightarrow> line_step HZ (sp, m) (sp', m')"
| DoStart: "snx_ser_start sp m = Some (sp', m') \<Longrightarrow> line_step HZ (sp, m) (sp', m')"
| DoStop: "snx_ser_stop sp m = (sp', m') \<Longrightarrow> line_step HZ (sp, m) (sp', m')"
| DoFlushBuffer: "snx_ser_flush_buffer sp m = (sp', m') \<Longrightarrow> line_step HZ (sp, m) (sp', m')"
| DoSendXchar: "snx_ser_send_xchar c sp m = (sp', m') \<Longrightarrow> line_step HZ (sp, m) (sp', m')"
| DoThrottle: "snx_ser_throttle sp m = Some (sp', m') \<Longrightarrow> line_step HZ (sp, m) (sp', m')"
| DoUnthrottle: "snx_ser_unthrottle sp m = Some (sp', m') \<Longrightarrow> line_step HZ (sp, m) (sp', m')"
| DoSetTermios: "snx_ser_set_termios HZ sp old m = Some (sp', m') \<Longrightarrow> line_step HZ (sp, m) (sp', m')"
| DoTiocmset: "snx_ser_tiocmset s c sp m = Some (ret, sp', m') \<Longrightarrow> line_step HZ (sp, m) (sp', m')"
| DoBreak: "snx_ser_break_ctl b sp m = (sp', m') \<Longrightarrow> line_step HZ (sp, m) (sp', m')"
| DoPortIrq: "sunix_ser_handle_port iir sp m = Some (sp', m') \<Longrightarrow> line_step HZ (sp, m) (sp', m')"
| DoTimeout: "sunix_ser_timeout sp m = Some (sp', m', next) \<Longrightarrow> line_step HZ (sp, m) (sp', m')"

inductive reachable :: "u32 \<Rightarrow> line_state \<Rightarrow> line_state \<Rightarrow> bool" for HZ s0 where
  Here: "reachable HZ s0 s0"
| Next: "reachable HZ s0 s \<Longrightarrow> line_step HZ s s' \<Longrightarrow> reachable HZ s0 s'"

subsection \<open>The invariant\<close>

definition line_inv :: "line_state \<Rightarrow> bool" where
  "line_inv s \<longleftrightarrow> live (fst s) \<and> shadow (fst s) (snd s)"

lemma line_inv_good: "good_step sp m sp' m' \<Longrightarrow> line_inv (sp, m) \<Longrightarrow> line_inv (sp', m')"
  by (simp add: line_inv_def good_step_def)

lemma live_same:
  assumes "live sp" "sp_iobase sp' = sp_iobase sp" "sp_info sp' = sp_info sp"
  shows "live sp'"
  using assms by (simp add: live_def)

lemma inv_upd_mctrl:
  assumes "line_inv (sp, m)" and "snx_ser_update_mctrl sp s c m = (sp', m')"
  shows "line_inv (sp', m')"
proof -
  have "live sp'" using assms live_same [of sp sp'] by (auto simp: line_inv_def snx_ser_update_mctrl_def Let_def)
  moreover have "shadow sp' m'" using shadow_update_mctrl [of sp m s c] assms by (simp add: line_inv_def)
  ultimately show ?thesis by (simp add: line_inv_def)
qed

lemma inv_start_tx: "line_inv (sp, m) \<Longrightarrow> sunix_ser_start_tx sp m = (sp', m') \<Longrightarrow> line_inv (sp', m')"
  using line_inv_good good_start_tx by (fastforce simp: line_inv_def)

lemma inv_stop_tx: "line_inv (sp, m) \<Longrightarrow> sunix_ser_stop_tx sp m = (sp', m') \<Longrightarrow> line_inv (sp', m')"
  using line_inv_good good_stop_tx by (fastforce simp: line_inv_def)

lemma inv_fields:
  assumes "line_inv (sp, m)" "sp_iobase sp' = sp_iobase sp" "sp_info sp' = sp_info sp" "sp_ier sp' = sp_ier sp"
    "sp_lcr sp' = sp_lcr sp"
  shows "line_inv (sp', m)"
  using assms live_same [of sp sp'] shadow_same [of sp' sp] by (simp add: line_inv_def)

lemma inv_upd_tty: "line_inv (sp, m) \<Longrightarrow> line_inv (upd_tty f sp, m)"
  using line_inv_good good_upd_tty by (fastforce simp: line_inv_def)

lemma inv_upd_flags:
  assumes "line_inv (sp, m)"
  shows "line_inv (upd_info (\<lambda>i. i\<lparr>si_flags := fl\<rparr>) sp, m)"
proof -
  have "live (upd_info (\<lambda>i. i\<lparr>si_flags := fl\<rparr>) sp)" using assms by (auto simp: line_inv_def live_def upd_info_def)
  moreover have "shadow (upd_info (\<lambda>i. i\<lparr>si_flags := fl\<rparr>) sp) m \<longleftrightarrow> shadow sp m"
    by (rule shadow_same) (simp_all add: upd_info_def)
  ultimately show ?thesis using assms by (simp add: line_inv_def)
qed

lemma inv_emit: "line_inv (sp, m) \<Longrightarrow> (\<And>a v. e \<noteq> Out a v) \<Longrightarrow> line_inv (sp, emit e m)"
  by (rule line_inv_good [OF good_emit]) (simp_all add: line_inv_def)

lemma inv_put_char:
  assumes "line_inv (sp, m)" and "snx_ser_put_char c sp = Some sp'"
  shows "line_inv (sp', m)"
  using assms put_char_accepts [of sp c m] by (cases "line_ok sp") (auto simp: line_inv_def snx_ser_put_char_def)

lemma inv_write:
  assumes "line_inv (sp, m)" and "snx_ser_write buf sp m = Some (ret, sp', m')"
  shows "line_inv (sp', m')"
  using assms write_accepts [of sp buf m] by (auto simp: line_inv_def)

lemma inv_start:
  assumes "line_inv (sp, m)" and "snx_ser_start_locked sp m = Some (sp', m')"
  shows "line_inv (sp', m')"
  using assms start_locked_good [of sp m] line_inv_good [of sp m sp' m'] by (auto simp: line_inv_def)

lemma inv_flush:
  assumes "line_inv (sp, m)" and "snx_ser_flush_buffer sp m = (sp', m')"
  shows "line_inv (sp', m')"
proof (cases "line_ok sp")
  case True
  have "live sp" using assms(1) by (simp add: line_inv_def)
  then obtain info t where i: "sp_info sp = Some info" "circ_ok (si_xmit info)" by (rule liveD)
  have "circ_ok (snx_ser_circ_clear (si_xmit info))" using i(2) by (auto simp: circ_ok_def snx_ser_circ_clear_def)
  from set_xmit_facts [OF _ this] have "line_inv (set_xmit (snx_ser_circ_clear (si_xmit info)) sp, m)"
    using assms(1) by (simp add: line_inv_def)
  then have "line_inv (set_xmit (snx_ser_circ_clear (si_xmit info)) sp, emit WakeWrite m)" by (rule inv_emit) simp
  then show ?thesis using assms(2) True i(1) by (simp add: snx_ser_flush_buffer_def)
qed (use assms in \<open>auto simp: snx_ser_flush_buffer_def\<close>)

lemma inv_send_xchar:
  assumes "line_inv (sp, m)" and "snx_ser_send_xchar c sp m = (sp', m')"
  shows "line_inv (sp', m')"
proof -
  have "line_inv (sp\<lparr>sp_x_char := c\<rparr>, m)" using assms(1) by (rule inv_fields) simp_all
  then show ?thesis using assms inv_start_tx by (auto simp: snx_ser_send_xchar_def Let_def split: if_splits)
qed

lemma inv_throttle:
  assumes "line_inv (sp, m)" and "snx_ser_throttle sp m = Some (sp', m')"
  shows "line_inv (sp', m')"
proof -
  have "line_inv (sp\<lparr>sp_ldisc_stop_rx := 1\<rparr>, m)" using assms(1) by (rule inv_fields) simp_all
  then show ?thesis using assms
    by (auto simp: snx_ser_throttle_def Let_def split: if_splits option.splits prod.splits
        intro: inv_send_xchar inv_upd_mctrl)
qed

lemma inv_unthrottle:
  assumes "line_inv (sp, m)" and "snx_ser_unthrottle sp m = Some (sp', m')"
  shows "line_inv (sp', m')"
proof -
  have a: "line_inv (sp\<lparr>sp_ldisc_stop_rx := 0\<rparr>, m)" using assms(1) by (rule inv_fields) simp_all
  moreover have "line_inv (sp\<lparr>sp_ldisc_stop_rx := 0, sp_x_char := 0\<rparr>, m)" using a by (rule inv_fields) simp_all
  ultimately show ?thesis using assms
    by (auto simp: snx_ser_unthrottle_def Let_def split: if_splits option.splits prod.splits
        intro: inv_send_xchar inv_upd_mctrl)
qed

lemma set_termios_keeps:
  assumes "sunix_ser_set_termios HZ sp tm old m = Some (tm', sp', m')"
  shows "sp_iobase sp' = sp_iobase sp \<and> sp_info sp' = sp_info sp"
  using assms by (auto simp: sunix_ser_set_termios_def snx_ser_update_timeout_def Let_def
      split: option.splits prod.splits if_splits)

lemma inv_change_speed:
  assumes "line_inv (sp, m)" and "snx_ser_change_speed HZ sp old m = Some (sp', m')"
  shows "line_inv (sp', m')"
proof -
  have "live sp" using assms(1) by (simp add: line_inv_def)
  then obtain info t where i: "sp_info sp = Some info" "si_tty info = Some t" by (rule liveD)
  show ?thesis
  proof (cases "sp_type sp = PORT_UNKNOWN")
    case True
    then show ?thesis using assms i by (simp add: snx_ser_change_speed_def)
  next
    case False
    then obtain fl tm tm' sp2 where s: "sunix_ser_set_termios HZ (upd_info (\<lambda>i. i\<lparr>si_flags := fl\<rparr>) sp) tm old m = Some (tm', sp2, m')"
      "sp' = upd_tty (\<lambda>t. t\<lparr>tty_c_cflag := tm_cflag tm'\<rparr>) sp2"
      using assms(2) i by (auto simp: snx_ser_change_speed_def Let_def split: option.splits)
    let ?sp1 = "upd_info (\<lambda>i. i\<lparr>si_flags := fl\<rparr>) sp"
    have "line_inv (?sp1, m)" using inv_upd_flags [OF assms(1)] .
    then have "live ?sp1" by (simp add: line_inv_def)
    moreover have "sp_iobase ?sp1 \<noteq> 0" using \<open>live ?sp1\<close> by (simp add: live_def)
    ultimately have "line_inv (sp2, m')"
      using shadow_set_termios [OF s(1)] set_termios_keeps [OF s(1)] live_same [of ?sp1 sp2] by (simp add: line_inv_def)
    then show ?thesis unfolding s(2) by (rule inv_upd_tty)
  qed
qed

lemma inv_set_termios:
  assumes "line_inv (sp, m)" and "snx_ser_set_termios HZ sp old m = Some (sp', m')"
  shows "line_inv (sp', m')"
proof -
  obtain t where t: "port_tty sp = Some t" using assms(2) by (auto simp: snx_ser_set_termios_def split: option.splits)
  let ?c = "tty_c_cflag t"
  show ?thesis
  proof (cases "\<not> line_ok sp \<or> ?c XOR tm_cflag old = 0 \<and> RELEVANT_IFLAG (tty_c_iflag t XOR tm_iflag old) = 0")
    case True
    then have "snx_ser_set_termios HZ sp old m = Some (sp, m)"
      unfolding snx_ser_set_termios_def t option.case Let_def
      by (cases "line_ok sp") (simp_all only: if_True if_False simp_thms)
    then show ?thesis using assms by simp
  next
    case False
    then obtain sp1 m1 where 1: "snx_ser_change_speed HZ sp (Some old) m = Some (sp1, m1)"
      using assms(2) t by (auto simp: snx_ser_set_termios_def Let_def split: option.splits)
    have i1: "line_inv (sp1, m1)" using inv_change_speed [OF assms(1) 1] .
    obtain sp2 m2 where 2: "(if has (tm_cflag old) CBAUD \<and> \<not> has ?c CBAUD
        then snx_ser_update_mctrl sp1 0 (TIOCM_RTS OR TIOCM_DTR) m1 else (sp1, m1)) = (sp2, m2)" by fastforce
    have i2: "line_inv (sp2, m2)" using 2 i1 inv_upd_mctrl [OF i1] by (simp split: if_splits)
    obtain sp3 m3 where 3: "(if \<not> has (tm_cflag old) CBAUD \<and> has ?c CBAUD
        then snx_ser_update_mctrl sp2 (if \<not> has ?c CRTSCTS \<or> \<not> tty_throttled t then TIOCM_DTR OR TIOCM_RTS else TIOCM_DTR) 0 m2
        else (sp2, m2)) = (sp3, m3)" by fastforce
    have i3: "line_inv (sp3, m3)" using 3 i2 inv_upd_mctrl [OF i2] by (simp split: if_splits)
    have "(if has (tm_cflag old) CRTSCTS \<and> \<not> has ?c CRTSCTS
        then snx_ser_start_locked (upd_tty (\<lambda>t. t\<lparr>tty_hw_stopped := False\<rparr>) sp3) m3 else Some (sp3, m3)) = Some (sp', m')"
    proof -
      from False have a: "(\<not> line_ok sp) = False"
        and b: "(?c XOR tm_cflag old = 0 \<and> RELEVANT_IFLAG (tty_c_iflag t XOR tm_iflag old) = 0) = False"
        by blast+
      show ?thesis using assms(2) unfolding snx_ser_set_termios_def t option.case Let_def 1 prod.case 2 3
        by (simp only: a b if_False)
    qed
    then show ?thesis using i3 inv_start [OF inv_upd_tty [OF i3]] by (simp split: if_splits)
  qed
qed

lemma inv_break:
  assumes "line_inv (sp, m)" and "snx_ser_break_ctl b sp m = (sp', m')"
  shows "line_inv (sp', m')"
  using assms shadow_break_ctl [of sp m b] live_same [of sp sp']
  by (auto simp: snx_ser_break_ctl_def line_inv_def sunix_ser_break_ctl_def Let_def split: if_splits)

subsection \<open>The interrupt, with a flow control character pending\<close>

lemma inv_transmit:
  assumes "line_inv (sp, m)"
  shows "\<exists>sp' m'. sunix_ser_transmit_chars sp m = Some (sp', m') \<and> line_inv (sp', m')"
proof (cases "sp_x_char sp = 0")
  case True
  then show ?thesis using assms transmit_good [of sp m] line_inv_good [OF _ assms] by (auto simp: line_inv_def)
next
  case False
  have "live sp" using assms by (simp add: line_inv_def)
  then obtain info t where i: "sp_info sp = Some info" by (rule liveD)
  have io: "sp_iobase sp \<noteq> 0" using assms by (simp add: line_inv_def live_def)
  have "line_inv (sp, WRITE_UART_TX sp (sp_x_char sp) m)"
    using assms shadow_uart_write [of UART_TX sp m] by (simp add: line_inv_def uart_access)
  then have "line_inv ((upd_icount f sp)\<lparr>sp_x_char := 0\<rparr>, WRITE_UART_TX sp (sp_x_char sp) m)" for f
    by (rule inv_fields) (simp_all add: upd_icount_def)
  then show ?thesis using i io False by (simp add: sunix_ser_transmit_chars_def)
qed

lemma inv_handle_port:
  assumes "line_inv (sp, m)"
  shows "\<exists>sp' m'. sunix_ser_handle_port iir sp m = Some (sp', m') \<and> line_inv (sp', m')"
proof -
  have live: "live sp" using assms by (simp add: line_inv_def)
  obtain l m1 where 1: "uart_read UART_LSR sp m = (l, m1)" by fastforce
  have g1: "good_step sp m sp m1" using good_read [OF live 1] .
  have "\<exists>lsr2 sp2 m2. (if iir = UART_IIR_RLSI \<or> iir = UART_IIR_CTO \<or> iir = UART_IIR_RDI
      then sunix_ser_receive_chars (lsr_fix l) sp m1 else Some (lsr_fix l, sp, m1)) = Some (lsr2, sp2, m2)
      \<and> line_inv (sp2, m2)" (is "\<exists>lsr2 sp2 m2. (if ?rx then _ else _) = _ \<and> _")
  proof -
    obtain la spr mr where "sunix_ser_receive_chars (lsr_fix l) sp m1 = Some (la, spr, mr)" "good_step sp m1 spr mr"
      using receive_good [OF live] by blast
    moreover from this have "line_inv (spr, mr)" using line_inv_good [OF good_step_trans [OF g1] assms] by blast
    moreover have "line_inv (sp, m1)" using line_inv_good [OF g1 assms] .
    ultimately show ?thesis by (cases ?rx) simp_all
  qed
  then obtain lsr2 sp2 m2 where 2: "(if iir = UART_IIR_RLSI \<or> iir = UART_IIR_CTO \<or> iir = UART_IIR_RDI
      then sunix_ser_receive_chars (lsr_fix l) sp m1 else Some (lsr_fix l, sp, m1)) = Some (lsr2, sp2, m2)"
    and i2: "line_inv (sp2, m2)"
    by blast
  have "\<exists>sp3 m3. (if iir = UART_IIR_THRI \<and> has lsr2 UART_LSR_THRE then sunix_ser_transmit_chars sp2 m2
      else Some (sp2, m2)) = Some (sp3, m3) \<and> line_inv (sp3, m3)" (is "\<exists>sp3 m3. (if ?tx then _ else _) = _ \<and> _")
    using inv_transmit [OF i2] i2 by (cases ?tx) auto
  then obtain sp3 m3 where 3: "(if iir = UART_IIR_THRI \<and> has lsr2 UART_LSR_THRE then sunix_ser_transmit_chars sp2 m2
      else Some (sp2, m2)) = Some (sp3, m3)" and i3: "line_inv (sp3, m3)"
    by blast
  obtain msr m4 where 4: "uart_read UART_MSR sp3 m3 = (msr, m4)" by fastforce
  have live3: "live sp3" using i3 by (simp add: line_inv_def)
  have g4: "good_step sp3 m3 sp3 m4" by (rule good_read [OF live3 4])
  have tail: "good_step sp3 m3 sp' m' \<Longrightarrow> line_inv (sp', m')" for sp' m' using line_inv_good [OF _ i3] .
  have st: "line_inv (sunix_ser_start_tx sp3 m4)" using tail [OF then_pairs(1) [OF g4]] by simp
  obtain sp5 m5 where "sunix_ser_check_modem_status msr sp3 m4 = Some (sp5, m5)" "line_inv (sp5, m5)"
    using then_modem [OF g4, of msr] tail by blast
  then show ?thesis
    using 1 2 3 4 st tail [OF g4]
    by (simp add: sunix_ser_handle_port_def uart_access Let_def ex_pair_eq)
qed

lemma inv_timeout:
  assumes "line_inv (sp, m)" and "sunix_ser_timeout sp m = Some (sp', m', next)"
  shows "line_inv (sp', m')"
proof -
  have live: "live sp" using assms by (simp add: line_inv_def)
  obtain iir m1 where 1: "uart_read UART_IIR sp m = (iir, m1)" by fastforce
  have "line_inv (sp, m1)" using line_inv_good [OF good_read [OF live 1] assms(1)] .
  then show ?thesis using assms(2) 1 inv_handle_port [of sp m1 iir]
    by (auto simp: sunix_ser_timeout_def uart_access split: if_splits option.splits)
qed

subsection \<open>Every reachable state\<close>

lemma line_step_inv: "line_step HZ s s' \<Longrightarrow> line_inv s \<Longrightarrow> line_inv s'"
proof (induction rule: line_step.induct)
  case (DoStart sp m sp' m')
  then show ?case by (auto simp: snx_ser_start_def intro: inv_start split: if_splits)
next
  case (DoStop sp m sp' m')
  then show ?case by (auto simp: snx_ser_stop_def intro: inv_stop_tx split: if_splits)
next
  case (DoTiocmset s c sp m ret sp' m')
  then show ?case by (auto simp: snx_ser_tiocmset_def intro: inv_upd_mctrl split: if_splits option.splits prod.splits)
next
  case (DoPortIrq iir sp m sp' m')
  then show ?case using inv_handle_port [of sp m iir] by auto
qed (auto intro: inv_upd_tty inv_put_char inv_write inv_flush inv_send_xchar inv_throttle inv_unthrottle
    inv_set_termios inv_break inv_timeout)

lemma reachable_inv: "reachable HZ s0 s \<Longrightarrow> line_inv s0 \<Longrightarrow> line_inv s"
  by (induction rule: reachable.induct) (auto intro: line_step_inv)

subsection \<open>Starting the line establishes the invariant\<close>

definition initialized :: "sunix_ser_port \<Rightarrow> bool" where
  "initialized sp \<longleftrightarrow> (case sp_info sp of None \<Rightarrow> False | Some info \<Rightarrow> has (si_flags info) SNX_UIF_INITIALIZED)"

text \<open>A line as \<open>snx_ser_open\<close> hands it to \<open>snx_ser_startup\<close>.\<close>

definition startable :: "sunix_ser_port \<Rightarrow> bool" where
  "startable sp \<longleftrightarrow> sp_iobase sp \<noteq> 0 \<and> sp_lcr sp AND UART_LCR_DLAB = 0
     \<and> sp_type sp \<noteq> PORT_UNKNOWN \<and> unat (sp_type sp) \<le> 8 \<and> \<not> initialized sp
     \<and> (\<exists>info t. sp_info sp = Some info \<and> si_tty info = Some t
          \<and> (cb_buf (si_xmit info) = None \<or> circ_ok (si_xmit info)))"

lemma startup_keeps:
  assumes "sunix_ser_startup sp m = Some (r, sp', m')"
  shows "sp_iobase sp' = sp_iobase sp" "sp_info sp' = sp_info sp"
  using assms by (auto simp: sunix_ser_startup_def Let_def split: if_splits prod.splits)

lemma inv_initialized:
  assumes "line_inv (sp, m)"
  shows "line_inv (upd_tty f (upd_info (\<lambda>i. i\<lparr>si_flags := si_flags i OR SNX_UIF_INITIALIZED\<rparr>) sp), m)"
proof -
  have "live sp" using assms by (simp add: line_inv_def)
  then obtain info t where i: "sp_info sp = Some info" by (rule liveD)
  have "upd_info (\<lambda>i. i\<lparr>si_flags := si_flags i OR SNX_UIF_INITIALIZED\<rparr>) sp
      = upd_info (\<lambda>i. i\<lparr>si_flags := si_flags info OR SNX_UIF_INITIALIZED\<rparr>) sp"
    using i by (simp add: upd_info_def)
  then show ?thesis using inv_upd_tty [OF inv_upd_flags [OF assms]] by simp
qed

lemma startup_inv:
  assumes st: "startable sp" and run: "snx_ser_startup HZ alloc admin sp init_hw m = Some (0, sp', m')"
    and init: "initialized sp'"
  shows "line_inv (sp', m')"
proof -
  obtain info t where i: "sp_info sp = Some info" "si_tty info = Some t" "\<not> has (si_flags info) SNX_UIF_INITIALIZED"
    "cb_buf (si_xmit info) = None \<or> circ_ok (si_xmit info)"
    using st by (auto simp: startable_def initialized_def)
  define sp1 where "sp1 = upd_tty (\<lambda>t. t\<lparr>tty_io_error := True\<rparr>) sp"
  define sp2 where "sp2 = (if cb_buf (si_xmit info) = None
      then set_xmit \<lparr>cb_buf = Some (replicate 4096 0), cb_head = 0, cb_tail = 0\<rparr> sp1 else sp1)"
  have f1: "sp_type sp1 = sp_type sp" "\<not> initialized sp1"
    using i by (simp_all add: sp1_def upd_tty_def upd_info_def initialized_def)
  have f2: "sp_iobase sp2 = sp_iobase sp" "sp_lcr sp2 = sp_lcr sp" "\<not> initialized sp2"
    using i f1(2) by (simp_all add: sp2_def sp1_def set_xmit_def upd_tty_def upd_info_def initialized_def)
  have live2: "live sp2"
    using st i by (auto simp: sp2_def sp1_def set_xmit_def upd_tty_def upd_info_def live_def startable_def circ_ok_def)
  have ne: "sp_type sp1 \<noteq> PORT_UNKNOWN" using st f1 by (simp add: startable_def)
  note body = run [unfolded snx_ser_startup_def i(1) option.case Let_def, folded sp1_def, folded sp2_def]
  have ok: "\<not> (cb_buf (si_xmit info) = None \<and> \<not> alloc)"
  proof
    assume "cb_buf (si_xmit info) = None \<and> \<not> alloc"
    with body i(3) ne show False by simp
  qed
  note body = body [unfolded if_not_P [OF i(3)] if_not_P [OF ne] if_not_P [OF ok]]
  obtain r sp3 m3 where s3: "sunix_ser_startup sp2 m = Some (r, sp3, m3)"
    using body by (auto split: option.splits)
  have k3: "\<not> initialized sp3" using startup_keeps(2) [OF s3] f2(3) by (simp add: initialized_def)
  have r0: "r = 0"
    using body s3 init k3 by (auto split: if_splits)
  have "shadow sp3 m3" using shadow_startup [of sp2 m sp3 m3] s3 r0 f2 st by (simp add: startable_def)
  then have i3: "line_inv (sp3, m3)"
    using live_same [OF live2 startup_keeps(1) startup_keeps(2)] s3 by (simp add: line_inv_def)
  obtain sp5 m5 where s5: "sp' = upd_tty (\<lambda>t. t\<lparr>tty_io_error := False\<rparr>)
      (upd_info (\<lambda>i. i\<lparr>si_flags := si_flags i OR SNX_UIF_INITIALIZED\<rparr>) sp5)" "m' = m5" "line_inv (sp5, m5)"
  proof (cases init_hw)
    case False
    then show ?thesis using that [of sp3 m3] body s3 r0 i3 by (auto split: if_splits)
  next
    case True
    then obtain sp4 m4 where s4: "snx_ser_change_speed HZ sp3 None m3 = Some (sp4, m4)"
      using body s3 r0 by (auto split: if_splits option.splits)
    have i4: "line_inv (sp4, m4)" using inv_change_speed [OF i3 s4] .
    then have "live sp4" by (simp add: line_inv_def)
    then obtain info4 t4 where t4: "port_tty sp4 = Some t4" by (metis liveD option.simps(5) port_tty_def)
    obtain sp5 m5 where s5: "(if has (tty_c_cflag t4) CBAUD then snx_ser_update_mctrl sp4 (TIOCM_RTS OR TIOCM_DTR) 0 m4
        else (sp4, m4)) = (sp5, m5)" by fastforce
    have "line_inv (sp5, m5)" using s5 i4 inv_upd_mctrl [OF i4] by (simp split: if_splits)
    moreover have "Some (0, upd_tty (\<lambda>t. t\<lparr>tty_io_error := False\<rparr>)
        (upd_info (\<lambda>i. i\<lparr>si_flags := si_flags i OR SNX_UIF_INITIALIZED\<rparr>) sp5), m5) = Some (0, sp', m')"
      using body True s3 r0 s4 t4 s5 by (auto split: if_splits)
    ultimately show ?thesis using that [of sp5 m5] by simp
  qed
  show ?thesis unfolding s5(1,2) by (rule inv_initialized [OF s5(3)])
qed

text \<open>So every state of an open line is good, from start-up on.\<close>

lemma open_line_inv:
  assumes "startable sp" and "snx_ser_startup HZ alloc admin sp init_hw m = Some (0, sp1, m1)" and "initialized sp1"
    and "reachable HZ (sp1, m1) s"
  shows "line_inv s"
  using reachable_inv [OF assms(4)] startup_inv [OF assms(1-3)] .

subsection \<open>Property\<close>

text \<open>
  C2. From a successful start-up on, through every interleaving of the tty operations (writes, flow
  control, termios changes, breaks, modem lines), the port's interrupts and its timer: the line keeps
  its tty and a good transmit buffer, the driver's copy of the interrupt enables is the last value
  written to that register, and the divisor latch is closed.
\<close>

theorem open_line_keeps_registers:
  assumes "startable sp" and "snx_ser_startup HZ alloc admin sp init_hw m = Some (0, sp1, m1)" and "initialized sp1"
    and "reachable HZ (sp1, m1) (sp2, m2)"
  shows "live sp2 \<and> shadow sp2 m2"
  using open_line_inv [OF assms] by (simp add: line_inv_def)

lemma closed_line_startable: "startable closed_line"
  by (simp add: startable_def closed_line_def example_uart_def zero_ser_port_def initialized_def example_info_def)

lemma closed_line_starts:
  "case snx_ser_startup 250 True False closed_line False idle_machine of
     None \<Rightarrow> False | Some (r, sp, m) \<Rightarrow> r = 0 \<and> initialized sp"
  by code_simp

theorem open_line_keeps_registers_witness:
  "\<exists>sp1 m1. snx_ser_startup 250 True False closed_line False idle_machine = Some (0, sp1, m1) \<and> shadow sp1 m1"
proof -
  obtain sp1 m1 where 1: "snx_ser_startup 250 True False closed_line False idle_machine = Some (0, sp1, m1)" "initialized sp1"
    using closed_line_starts by (auto split: option.splits)
  have "live sp1 \<and> shadow sp1 m1"
    by (rule open_line_keeps_registers [OF closed_line_startable 1]) (rule Here)
  then show ?thesis using 1(1) by blast
qed

end
