(* ===== verification/Snx_Resume.thy ===== *)
theory Snx_Resume
  imports Snx_Open
begin

text \<open>
  Suspend and resume (driver/snx_main.c): \<open>snx_suspend_one\<close> does nothing, \<open>snx_resume_one\<close> programs the
  open lines again. The tty's \<^verbatim>\<open>driver_data\<close> is the line it was opened on. \<open>None\<close> is a NULL dereference.
\<close>

section \<open>Suspend and resume\<close>

definition snx_suspend_one :: int where
  "snx_suspend_one = 0"

definition snx_set_port_termios :: "ser_env \<Rightarrow> snx_ser_state \<Rightarrow> machine \<Rightarrow> (snx_ser_state \<times> machine) option" where
  "snx_set_port_termios env st m =
    (case snx_ser_startup (se_HZ env) (se_alloc_page env) (se_admin env) (ss_port st) False m of
       None \<Rightarrow> None
     | Some (retval, sp1, m1) \<Rightarrow>
        (if retval = 0
         then map_option (\<lambda>(sp2, m2). (st\<lparr>ss_port := sp2\<rparr>, m2)) (snx_ser_update_termios (se_HZ env) sp1 m1)
         else Some (st\<lparr>ss_port := sp1\<rparr>, m1)))"

definition snx_resume_port_termios :: "ser_env \<Rightarrow> snx_ser_state \<Rightarrow> machine \<Rightarrow> (snx_ser_state \<times> machine) option" where
  "snx_resume_port_termios env st m =
    (case port_tty (ss_port st) of None \<Rightarrow> None | Some tty \<Rightarrow> snx_set_port_termios env st m)"

definition snx_resume_port :: "ser_env \<Rightarrow> snx_ser_state \<Rightarrow> machine \<Rightarrow> (snx_ser_state \<times> machine) option" where
  "snx_resume_port env st m =
    (if sp_info (ss_port st) = None then Some (st, m) else snx_resume_port_termios env st m)"

text \<open>One round of the loop: entry \<open>j\<close> of the port table, whatever board it belongs to.\<close>

definition resume_entry :: "ser_env \<Rightarrow> nat \<Rightarrow> snx_ser_state list \<times> machine \<Rightarrow> unit + snx_ser_state list \<times> machine" where
  "resume_entry env j = (\<lambda>(lines, m).
    if sp_suspended (ss_port (lines ! j)) \<noteq> 1 then Inr (lines, m)
    else case snx_resume_port env (lines ! j) m of None \<Rightarrow> Inl () | Some (st, m1) \<Rightarrow> Inr (lines[j := st], m1))"

text \<open>
  \<open>drvdata\<close> is what \<^verbatim>\<open>pci_get_drvdata\<close> answers: \<^verbatim>\<open>sunix_ser_register_ports\<close> sets it for the device of the
  first board only.
\<close>

definition snx_resume_one :: "ser_env \<Rightarrow> sunix_board option \<Rightarrow> snx_ser_state list \<Rightarrow> machine \<Rightarrow> (snx_ser_state list \<times> machine) option" where
  "snx_resume_one env drvdata lines m =
    (case drvdata of
       None \<Rightarrow> Some (lines, m)
     | Some sb \<Rightarrow>
        (case fold_err (resume_entry env) [0..<unat (sb_ser_port sb)] (lines, m) of
           Inl _ \<Rightarrow> None
         | Inr r \<Rightarrow> Some r))"

section \<open>Resuming open lines\<close>

text \<open>A started line of a standard board, with a tty that has no error, and what resuming it writes.\<close>

definition live :: "snx_ser_state \<Rightarrow> bool" where
  "live st \<longleftrightarrow> sp_suspended (ss_port st) = 1 \<and> sp_iobase (ss_port st) \<noteq> 0 \<and> sp_type (ss_port st) \<noteq> PORT_UNKNOWN
     \<and> sp_uartclk (ss_port st) = 921600 * 16 \<and> \<not> has (sp_flags (ss_port st)) SNX_UPF_MAGIC_MULTIPLIER
     \<and> sp_flags (ss_port st) AND SNX_UPF_SPD_MASK = 0
     \<and> (\<exists>i t. sp_info (ss_port st) = Some i \<and> has (si_flags i) SNX_UIF_INITIALIZED \<and> si_tty i = Some t \<and> \<not> tty_io_error t)"

definition idle_line :: "snx_ser_state \<Rightarrow> bool" where
  "idle_line st \<longleftrightarrow> sp_suspended (ss_port st) \<noteq> 1 \<or> sp_info (ss_port st) = None"

text \<open>
  The registers of a chip as the writes of the driver set them, from any state it wakes up in: the divisor
  latch is behind the data and interrupt enable registers while DLAB is set.
\<close>

record uart_chip =
  ch_lcr :: u8
  ch_ier :: u8
  ch_fcr :: u8
  ch_mcr :: u8
  ch_dll :: u8
  ch_dlm :: u8

fun chip_step :: "sunix_ser_port \<Rightarrow> event \<Rightarrow> uart_chip \<Rightarrow> uart_chip" where
  "chip_step sp (Out a v) c =
    (let dlab = (ch_lcr c AND UART_LCR_DLAB \<noteq> 0) in
     if a = uart_addr sp UART_LCR then c\<lparr>ch_lcr := v\<rparr>
     else if a = uart_addr sp UART_MCR then c\<lparr>ch_mcr := v\<rparr>
     else if a = uart_addr sp UART_FCR then c\<lparr>ch_fcr := v\<rparr>
     else if a = uart_addr sp UART_IER then (if dlab then c\<lparr>ch_dlm := v\<rparr> else c\<lparr>ch_ier := v\<rparr>)
     else if a = uart_addr sp UART_DLL \<and> dlab then c\<lparr>ch_dll := v\<rparr>
     else c)"
| "chip_step sp _ c = c"

text \<open>The chip is set up as the line's termios and the driver's copies say.\<close>

definition programmed :: "sunix_ser_port \<Rightarrow> uart_chip \<Rightarrow> bool" where
  "programmed sp c \<longleftrightarrow> (\<exists>t. port_tty sp = Some t \<and> ch_lcr c = termios_lcr (tty_c_cflag t) \<and> ch_ier c = sp_ier sp
     \<and> ch_mcr c = mctrl_bits sp (sp_mctrl sp) \<and> ch_fcr c = termios_fcr sp (try_baud sp (tty_c_cflag t))
     \<and> unat (ch_dll c) + 256 * unat (ch_dlm c) = 14745600 div (16 * unat (try_baud sp (tty_c_cflag t))))"

definition on_chip :: "sunix_ser_port \<Rightarrow> event \<Rightarrow> bool" where
  "on_chip sp e \<longleftrightarrow> (\<exists>r v. r < 8 \<and> e = Out (uart_addr sp r) v)"

definition apart :: "sunix_ser_port \<Rightarrow> sunix_ser_port \<Rightarrow> bool" where
  "apart sp sp' \<longleftrightarrow> (\<forall>r<8. \<forall>r'<8. uart_addr sp r \<noteq> uart_addr sp' r')"

lemma chip_step_other:
  assumes "on_chip sp' e" and "apart sp sp'"
  shows "chip_step sp e c = c"
proof -
  obtain r v where r: "r < 8" "e = Out (uart_addr sp' r) v" using assms(1) by (auto simp: on_chip_def)
  have "uart_addr sp' r \<noteq> uart_addr sp k" if "k < 8" for k using assms(2) r(1) that unfolding apart_def by metis
  from this [of 0] this [of 1] this [of 2] this [of 3] this [of 4] show ?thesis by (simp add: r(2) Let_def)
qed

lemma chip_fold_other: "\<forall>e\<in>set us. on_chip sp' e \<Longrightarrow> apart sp sp' \<Longrightarrow> fold (chip_step sp) us c = c"
  by (induction us arbitrary: c) (simp_all add: chip_step_other [of sp'])

lemma termios_keeps_setup:
  assumes "sunix_ser_set_termios HZ sp tm old m = Some (tm', sp', m')"
  shows "sp_info sp' = sp_info sp \<and> sp_mctrl sp' = sp_mctrl sp \<and> sp_suspended sp' = sp_suspended sp
    \<and> sp_iobase sp' = sp_iobase sp \<and> sp_flags sp' = sp_flags sp \<and> sp_setserial_flag sp' = sp_setserial_flag sp
    \<and> sp_capabilities sp' = sp_capabilities sp \<and> sp_snx_type sp' = sp_snx_type sp \<and> sp_type sp' = sp_type sp
    \<and> sp_uartclk sp' = sp_uartclk sp"
  using assms
  by (auto simp: sunix_ser_set_termios_def snx_ser_update_timeout_def Let_def split: option.splits prod.splits if_splits)

lemma same_speed:
  assumes "sp_flags sp' = sp_flags sp" and "sp_setserial_flag sp' = sp_setserial_flag sp"
    and "sp_capabilities sp' = sp_capabilities sp" and "sp_snx_type sp' = sp_snx_type sp"
  shows "try_baud sp' = try_baud sp" "termios_fcr sp' = termios_fcr sp"
  using assms by (simp_all add: fun_eq_iff try_baud_def termios_fcr_def)

lemma uart_addr_iobase: "sp_iobase sp' = sp_iobase sp \<Longrightarrow> uart_addr sp' = uart_addr sp"
  by (rule ext) (rule uart_addr_cong)

lemma chip_step_iobase: "sp_iobase sp' = sp_iobase sp \<Longrightarrow> chip_step sp' = chip_step sp"
proof (intro ext)
  fix e c
  assume "sp_iobase sp' = sp_iobase sp"
  note uart_addr_iobase [OF this]
  then show "chip_step sp' e c = chip_step sp e c" by (cases e) (simp_all cong: if_cong)
qed

lemma on_chip_iobase: "sp_iobase sp' = sp_iobase sp \<Longrightarrow> on_chip sp' = on_chip sp"
  unfolding on_chip_def [abs_def] by (drule uart_addr_iobase) simp

lemma on_chip_Out [simp]: "r < 8 \<Longrightarrow> on_chip sp (Out (uart_addr sp r) v)"
  by (auto simp: on_chip_def)

text \<open>The seven writes, run on the chip.\<close>

lemma chip_latch:
  assumes "cval AND UART_LCR_DLAB = 0"
  shows "fold (chip_step sp) [Out (uart_addr sp UART_LCR) (cval OR UART_LCR_DLAB), Out (uart_addr sp UART_DLL) lo,
      Out (uart_addr sp UART_DLM) hi, Out (uart_addr sp UART_FCR) fcr, Out (uart_addr sp UART_LCR) cval,
      Out (uart_addr sp UART_MCR) mcr, Out (uart_addr sp UART_IER) ier] c
    = \<lparr>ch_lcr = cval, ch_ier = ier, ch_fcr = fcr, ch_mcr = mcr, ch_dll = lo, ch_dlm = hi\<rparr>"
proof -
  have "(cval OR UART_LCR_DLAB) AND UART_LCR_DLAB \<noteq> (0 :: u8)" by (simp add: bit.conj_disj_distrib2)
  then show ?thesis using assms by (cases c) (simp add: Let_def)
qed

lemma set_termios_programs:
  fixes sp :: sunix_ser_port and tm :: ktermios
  assumes "sp_uartclk sp = 921600 * 16" and io: "sp_iobase sp \<noteq> 0"
    and "\<not> has (sp_flags sp) SNX_UPF_MAGIC_MULTIPLIER" and "sp_flags sp AND SNX_UPF_SPD_MASK = 0"
  obtains sp' m' us where "sunix_ser_set_termios HZ sp tm old m = Some (tm, sp', m')" "trace m' = trace m @ us"
    "\<forall>e\<in>set us. on_chip sp e"
    "\<And>c. \<exists>lo hi. fold (chip_step sp) us c = \<lparr>ch_lcr = termios_lcr (tm_cflag tm), ch_ier = sp_ier sp',
        ch_fcr = termios_fcr sp (try_baud sp (tm_cflag tm)), ch_mcr = mctrl_bits sp' (sp_mctrl sp), ch_dll = lo, ch_dlm = hi\<rparr>
      \<and> unat lo + 256 * unat hi = 14745600 div (16 * unat (try_baud sp (tm_cflag tm)))"
proof -
  let ?q = "14745600 div (16 * try_baud sp (tm_cflag tm))" and ?l = "termios_lcr (tm_cflag tm)"
  have q: "unat ?q < 65536" "unat ?q = 14745600 div (16 * unat (try_baud sp (tm_cflag tm)))"
    using divisor_range [of sp "tm_cflag tm"] by simp_all
  have "?l AND UART_LCR_DLAB = 0"
    by (simp add: termios_lcr_def or_if_def Let_def bit.conj_disj_distrib2)
  note chip = chip_latch [OF this, of sp] and bytes = latch_bytes [OF q(1), unfolded q(2)]
  obtain sp' m' where r: "sunix_ser_set_termios HZ sp tm old m = Some (tm, sp', m')"
    "trace m' = trace m @ [Out (uart_addr sp UART_LCR) (?l OR UART_LCR_DLAB),
          Out (uart_addr sp UART_DLL) (ucast (?q AND 0xff)), Out (uart_addr sp UART_DLM) (ucast (drop_bit 8 ?q)),
          Out (uart_addr sp UART_FCR) (termios_fcr sp (try_baud sp (tm_cflag tm))), Out (uart_addr sp UART_LCR) ?l,
          Out (uart_addr sp UART_MCR) (mctrl_bits sp' (sp_mctrl sp)), Out (uart_addr sp UART_IER) (sp_ier sp')]"
    using set_termios_result [OF assms, of HZ tm old m] by blast
  show ?thesis
  proof (rule that [OF r])
    show "\<forall>e\<in>set [Out (uart_addr sp UART_LCR) (?l OR UART_LCR_DLAB),
          Out (uart_addr sp UART_DLL) (ucast (?q AND 0xff)), Out (uart_addr sp UART_DLM) (ucast (drop_bit 8 ?q)),
          Out (uart_addr sp UART_FCR) (termios_fcr sp (try_baud sp (tm_cflag tm))), Out (uart_addr sp UART_LCR) ?l,
          Out (uart_addr sp UART_MCR) (mctrl_bits sp' (sp_mctrl sp)), Out (uart_addr sp UART_IER) (sp_ier sp')]. on_chip sp e"
      by simp
  qed (intro exI conjI, rule chip, rule bytes)
qed

text \<open>The line's settings, which resuming keeps.\<close>

definition same_line :: "snx_ser_state \<Rightarrow> snx_ser_state \<Rightarrow> bool" where
  "same_line st st' \<longleftrightarrow> sp_iobase (ss_port st') = sp_iobase (ss_port st)
     \<and> port_tty (ss_port st') = port_tty (ss_port st) \<and> sp_suspended (ss_port st') = sp_suspended (ss_port st)"

lemma mctrl_bits_info [simp]: "mctrl_bits (upd_info f sp) x = mctrl_bits sp x"
  by (simp add: upd_info_def mctrl_bits_def rs422_485_def)

lemma mctrl_bits_mctrl [simp]: "mctrl_bits (sp\<lparr>sp_mctrl := y\<rparr>) x = mctrl_bits sp x"
  by (simp add: mctrl_bits_def rs422_485_def)

lemma change_speed_programs:
  assumes "live st" and "port_tty (ss_port st) = Some t"
  obtains sp' m' us where "snx_ser_change_speed HZ (ss_port st) None m = Some (sp', m')" "trace m' = trace m @ us"
    "\<forall>e\<in>set us. on_chip (ss_port st) e" "port_tty sp' = Some t" "sp_iobase sp' = sp_iobase (ss_port st)"
    "sp_suspended sp' = sp_suspended (ss_port st)" "\<And>c. programmed sp' (fold (chip_step (ss_port st)) us c)"
proof -
  let ?sp = "ss_port st"
  obtain i where i: "sp_info ?sp = Some i" "si_tty i = Some t"
    using assms(2) by (auto simp: port_tty_def split: option.splits)
  let ?fl = "or_flag (\<not> has (tty_c_cflag t) CLOCAL) SNX_UIF_CHECK_CD
              (or_flag (has (tty_c_cflag t) CRTSCTS) SNX_UIF_CTS_FLOW (si_flags i))"
  let ?sp1 = "upd_info (\<lambda>i. i\<lparr>si_flags := ?fl\<rparr>) ?sp" and ?tm = "\<lparr>tm_cflag = tty_c_cflag t, tm_iflag = tty_c_iflag t\<rparr>"
  have "sp_uartclk ?sp1 = 921600 * 16" "sp_iobase ?sp1 \<noteq> 0" "\<not> has (sp_flags ?sp1) SNX_UPF_MAGIC_MULTIPLIER"
    "sp_flags ?sp1 AND SNX_UPF_SPD_MASK = 0"
    using assms(1) by (simp_all add: live_def upd_info_def)
  then obtain sp2 m2 us where t2: "sunix_ser_set_termios HZ ?sp1 ?tm None m = Some (?tm, sp2, m2)" "trace m2 = trace m @ us"
    "\<forall>e\<in>set us. on_chip ?sp1 e"
    and c: "\<And>c. \<exists>lo hi. fold (chip_step ?sp1) us c = \<lparr>ch_lcr = termios_lcr (tty_c_cflag t), ch_ier = sp_ier sp2,
        ch_fcr = termios_fcr ?sp1 (try_baud ?sp1 (tty_c_cflag t)), ch_mcr = mctrl_bits sp2 (sp_mctrl ?sp1), ch_dll = lo, ch_dlm = hi\<rparr>
      \<and> unat lo + 256 * unat hi = 14745600 div (16 * unat (try_baud ?sp1 (tty_c_cflag t)))"
    by (rule set_termios_programs [of ?sp1 HZ ?tm None m]) simp_all
  note k = termios_keeps_setup [OF t2(1)]
  let ?sp3 = "upd_tty (\<lambda>t'. t'\<lparr>tty_c_cflag := tty_c_cflag t\<rparr>) sp2"
  have io1: "sp_iobase ?sp1 = sp_iobase ?sp" by (simp add: upd_info_def)
  have same: "sp_flags ?sp3 = sp_flags ?sp1" "sp_setserial_flag ?sp3 = sp_setserial_flag ?sp1"
    "sp_capabilities ?sp3 = sp_capabilities ?sp1" "sp_snx_type ?sp3 = sp_snx_type ?sp1" "sp_ier ?sp3 = sp_ier sp2"
    "sp_mctrl ?sp3 = sp_mctrl ?sp1" "mctrl_bits ?sp3 = mctrl_bits sp2"
    using k by (simp_all add: upd_tty_def upd_info_def [of _ sp2] mctrl_bits_def [abs_def] rs422_485_def)
  have tty3: "port_tty ?sp3 = Some t"
    using k i by (simp add: upd_tty_def upd_info_def port_tty_def)
  show ?thesis
  proof (rule that [of ?sp3 m2 us])
    show "snx_ser_change_speed HZ ?sp None m = Some (?sp3, m2)"
      using assms(1) i t2(1) by (simp add: snx_ser_change_speed_def live_def Let_def)
    show "\<forall>e\<in>set us. on_chip ?sp e" using t2(3) unfolding on_chip_iobase [OF io1] .
    show "sp_iobase ?sp3 = sp_iobase ?sp" "sp_suspended ?sp3 = sp_suspended ?sp"
      using k by (simp_all add: upd_tty_def upd_info_def)
    show "programmed ?sp3 (fold (chip_step ?sp) us x)" for x
      using c [of x, unfolded chip_step_iobase [OF io1]] tty3 same_speed [OF same(1-4)] same(5-7)
      by (auto simp: programmed_def)
  qed (rule t2(2) tty3)+
qed

text \<open>Raising DTR and RTS afterwards rewrites the modem control register if they were down.\<close>

lemma raise_lines_programs:
  assumes "\<And>c. programmed sp (fold (chip_step sp) us c)" and "sp_iobase sp \<noteq> 0"
  obtains sp' m' us' where "snx_ser_update_mctrl sp x 0 m = (sp', m')" "trace m' = trace m @ us'"
    "\<forall>e\<in>set us'. on_chip sp e" "port_tty sp' = port_tty sp" "sp_iobase sp' = sp_iobase sp"
    "sp_suspended sp' = sp_suspended sp" "\<And>c. programmed sp' (fold (chip_step sp) (us @ us') c)"
proof (cases "sp_mctrl sp OR x = sp_mctrl sp")
  case True
  then show ?thesis using assms by (intro that [of sp m "[]"]) (simp_all add: snx_ser_update_mctrl_def Let_def)
next
  case False
  let ?sp' = "sp\<lparr>sp_mctrl := sp_mctrl sp OR x\<rparr>"
  let ?e = "Out (uart_addr sp UART_MCR) (mctrl_bits sp (sp_mctrl sp OR x))"
  have io: "sp_iobase ?sp' = sp_iobase sp" by simp
  show ?thesis
  proof (rule that [of ?sp' "emit ?e m" "[?e]"])
    show "snx_ser_update_mctrl sp x 0 m = (?sp', emit ?e m)"
      using False assms(2) uart_addr_iobase [OF io]
      by (simp add: snx_ser_update_mctrl_def sunix_ser_set_mctrl_def WRITE_UART_MCR_def uart_write_def outb_def Let_def)
    show "programmed ?sp' (fold (chip_step sp) (us @ [?e]) c)" for c
      using assms(1) [of c] same_speed [of ?sp' sp] by (auto simp: programmed_def port_tty_def)
  qed (simp_all add: port_tty_def)
qed

lemma live_not_idle: "live st \<Longrightarrow> \<not> idle_line st"
  by (auto simp: live_def idle_line_def)

text \<open>One line.\<close>

lemma resume_live:
  assumes "live st"
  obtains st' m' us where "snx_resume_port env st m = Some (st', m')" "trace m' = trace m @ us"
    "\<forall>e\<in>set us. on_chip (ss_port st) e" "same_line st st'"
    "\<And>c. programmed (ss_port st') (fold (chip_step (ss_port st)) us c)"
proof -
  let ?sp = "ss_port st"
  obtain i t where i: "sp_info ?sp = Some i" "has (si_flags i) SNX_UIF_INITIALIZED" "si_tty i = Some t" "\<not> tty_io_error t"
    and io: "sp_iobase ?sp \<noteq> 0" using assms by (auto simp: live_def)
  have tty: "port_tty ?sp = Some t" using i by (simp add: port_tty_def)
  obtain sp1 m1 us1 where 1: "snx_ser_change_speed (se_HZ env) ?sp None m = Some (sp1, m1)" "trace m1 = trace m @ us1"
    "\<forall>e\<in>set us1. on_chip ?sp e" "port_tty sp1 = Some t" "sp_iobase sp1 = sp_iobase ?sp"
    "sp_suspended sp1 = sp_suspended ?sp" "\<And>c. programmed sp1 (fold (chip_step ?sp) us1 c)"
    using change_speed_programs [OF assms tty] by metis
  note chip = chip_step_iobase [OF 1(5)] and at = on_chip_iobase [OF 1(5)]
  obtain sp2 m2 us2 where 2: "snx_ser_update_mctrl sp1 (TIOCM_DTR OR TIOCM_RTS) 0 m1 = (sp2, m2)" "trace m2 = trace m1 @ us2"
    "\<forall>e\<in>set us2. on_chip ?sp e" "port_tty sp2 = Some t" "sp_iobase sp2 = sp_iobase ?sp"
    "sp_suspended sp2 = sp_suspended ?sp" "\<And>c. programmed sp2 (fold (chip_step ?sp) (us1 @ us2) c)"
    using raise_lines_programs [of sp1 us1 "TIOCM_DTR OR TIOCM_RTS" m1, unfolded chip at] 1(4-7) io by metis
  have start: "snx_ser_startup (se_HZ env) (se_alloc_page env) (se_admin env) ?sp False m = Some (0, ?sp, m)"
    using i by (simp add: snx_ser_startup_def)
  have "snx_resume_port env st m =
      (if has (tty_c_cflag t) CBAUD then Some (st\<lparr>ss_port := sp2\<rparr>, m2) else Some (st\<lparr>ss_port := sp1\<rparr>, m1))"
    using i tty 1(1,4) 2(1)
    by (simp add: snx_resume_port_def snx_resume_port_termios_def snx_set_port_termios_def start snx_ser_update_termios_def)
  then show ?thesis
    using 1 2 tty that [of "st\<lparr>ss_port := sp2\<rparr>" m2 "us1 @ us2"] that [of "st\<lparr>ss_port := sp1\<rparr>" m1 us1]
    by (cases "has (tty_c_cflag t) CBAUD") (simp_all add: same_line_def ball_Un)
qed

text \<open>The lines the loop has passed, their chips and the writes so far.\<close>

definition resumed :: "snx_ser_state list \<Rightarrow> nat \<Rightarrow> snx_ser_state list \<Rightarrow> event list \<Rightarrow> bool" where
  "resumed lines k lines' us \<longleftrightarrow> length lines' = length lines
     \<and> (\<forall>e\<in>set us. \<exists>i<k. live (lines ! i) \<and> on_chip (ss_port (lines ! i)) e)
     \<and> (\<forall>i<length lines. i < k \<and> live (lines ! i) \<or> lines' ! i = lines ! i)
     \<and> (\<forall>i<k. live (lines ! i) \<longrightarrow> same_line (lines ! i) (lines' ! i)
          \<and> (\<forall>c. programmed (ss_port (lines' ! i)) (fold (chip_step (ss_port (lines ! i))) us c)))"

lemma resumed_step:
  assumes "resumed lines k lines' us" and "k < length lines" and "live (lines ! k)" and "same_line (lines ! k) st'"
    and "\<forall>e\<in>set us'. on_chip (ss_port (lines ! k)) e"
    and "\<And>c. programmed (ss_port st') (fold (chip_step (ss_port (lines ! k))) us' c)"
    and "\<forall>i<k. live (lines ! i) \<longrightarrow> apart (ss_port (lines ! i)) (ss_port (lines ! k))"
  shows "resumed lines (Suc k) (lines'[k := st']) (us @ us')"
proof -
  have "fold (chip_step (ss_port (lines ! i))) us' c = c" if "i < k" "live (lines ! i)" for i c
    using chip_fold_other [OF assms(5)] assms(7) that by blast
  then show ?thesis using assms
    by (auto simp: resumed_def nth_list_update less_Suc_eq)
qed

lemma resume_loop:
  assumes "k \<le> length lines" and "\<forall>i<k. live (lines ! i) \<or> idle_line (lines ! i)"
    and "\<forall>i<k. \<forall>j<i. live (lines ! i) \<and> live (lines ! j) \<longrightarrow> apart (ss_port (lines ! j)) (ss_port (lines ! i))"
  shows "\<exists>lines' m' us. fold_err (resume_entry env) [0..<k] (lines, m) = Inr (lines', m')
    \<and> trace m' = trace m @ us \<and> resumed lines k lines' us"
  using assms
proof (induction k)
  case 0
  then show ?case by (simp add: resumed_def)
next
  case (Suc k)
  then obtain lines1 m1 us where 1: "fold_err (resume_entry env) [0..<k] (lines, m) = Inr (lines1, m1)"
    "trace m1 = trace m @ us" "resumed lines k lines1 us" by auto
  have k: "k < length lines" using Suc.prems(1) by simp
  then have nth: "lines1 ! k = lines ! k" using 1(3) by (auto simp: resumed_def)
  show ?case
  proof (cases "live (lines ! k)")
    case True
    obtain st' m' us' where r: "snx_resume_port env (lines ! k) m1 = Some (st', m')" "trace m' = trace m1 @ us'"
      "\<forall>e\<in>set us'. on_chip (ss_port (lines ! k)) e" "same_line (lines ! k) st'"
      "\<And>c. programmed (ss_port st') (fold (chip_step (ss_port (lines ! k))) us' c)"
      using resume_live [OF True, of env m1] by metis
    have "resumed lines (Suc k) (lines1[k := st']) (us @ us')"
      using Suc.prems(3) True by (intro resumed_step [OF 1(3) k True r(4,3,5)]) auto
    moreover have "resume_entry env k (lines1, m1) = Inr (lines1[k := st'], m')"
      using True r(1) nth by (simp add: resume_entry_def live_def)
    ultimately show ?thesis using 1 r(2) by (simp add: fold_err_append)
  next
    case False
    then have "idle_line (lines ! k)" using Suc.prems(2) by blast
    then have "resume_entry env k (lines1, m1) = Inr (lines1, m1)"
      using list_update_id [of lines1 k] nth by (auto simp: resume_entry_def idle_line_def snx_resume_port_def)
    moreover have "resumed lines (Suc k) lines1 us"
      using 1(3) False by (auto simp: resumed_def less_Suc_eq)
    ultimately show ?thesis using 1 by (simp add: fold_err_append)
  qed
qed

text \<open>
  C12. Resuming a board programs every open line of it again. With each of the board's entries of the port
  table either started with a tty on a standard clock or not in use, and the lines on chips apart from each
  other, \<open>snx_resume_one\<close> returns; afterwards every started line has its own tty and its chip holds the frame,
  the divisor of the rate, the FIFO control, the modem control and the interrupt enables the driver's state
  says, whatever state the chips woke up in; every write goes to the chip of one of those lines, and every
  other line is untouched.
\<close>

theorem resume_reprograms_lines:
  assumes "unat (sb_ser_port sb) \<le> length lines"
    and "\<forall>i<unat (sb_ser_port sb). live (lines ! i) \<or> idle_line (lines ! i)"
    and "\<forall>i<unat (sb_ser_port sb). \<forall>j<i. live (lines ! i) \<and> live (lines ! j)
      \<longrightarrow> apart (ss_port (lines ! j)) (ss_port (lines ! i))"
  shows "\<exists>lines' m' us. snx_resume_one env (Some sb) lines m = Some (lines', m') \<and> trace m' = trace m @ us
    \<and> (\<forall>i<unat (sb_ser_port sb). live (lines ! i) \<longrightarrow> same_line (lines ! i) (lines' ! i)
         \<and> (\<forall>c. programmed (ss_port (lines' ! i)) (fold (chip_step (ss_port (lines ! i))) us c)))
    \<and> (\<forall>e\<in>set us. \<exists>i<unat (sb_ser_port sb). live (lines ! i) \<and> on_chip (ss_port (lines ! i)) e)
    \<and> (\<forall>i<length lines. i < unat (sb_ser_port sb) \<and> live (lines ! i) \<or> lines' ! i = lines ! i)"
proof -
  obtain lines' m' us where "fold_err (resume_entry env) [0..<unat (sb_ser_port sb)] (lines, m) = Inr (lines', m')"
    "trace m' = trace m @ us" "resumed lines (unat (sb_ser_port sb)) lines' us"
    using resume_loop [OF assms, of env m] by blast
  then show ?thesis by (intro exI [of _ lines'] exI [of _ m'] exI [of _ us]) (simp add: snx_resume_one_def resumed_def)
qed

text \<open>Two lines of a board, the first of them open.\<close>

definition resume_lines :: "snx_ser_state list" where
  "resume_lines = [open_state\<lparr>ss_port := (ss_port open_state)\<lparr>sp_suspended := 1\<rparr>\<rparr>, open_state\<lparr>ss_port := (ss_port open_state)\<lparr>sp_iobase := 0xd008\<rparr>\<rparr>]"

lemma resume_lines_ok: "live (resume_lines ! 0)" "idle_line (resume_lines ! Suc 0)" "\<not> live (resume_lines ! Suc 0)"
  by (auto simp: resume_lines_def live_def idle_line_def open_state_def example_line_def example_uart_def zero_ser_port_def
      example_info_def example_tty_def)

theorem resume_reprograms_lines_witness:
  "\<exists>lines' m'. snx_resume_one patient_env (Some (zero_board\<lparr>sb_ser_port := 2\<rparr>)) resume_lines idle_machine = Some (lines', m')
    \<and> lines' ! 1 = resume_lines ! 1
    \<and> (\<exists>us. \<forall>c. programmed (ss_port (lines' ! 0)) (fold (chip_step (ss_port (resume_lines ! 0))) us c))"
proof -
  have n: "unat (sb_ser_port (zero_board\<lparr>sb_ser_port := 2\<rparr>)) = 2" "length resume_lines = 2" by (simp_all add: resume_lines_def)
  have "\<forall>i<2. live (resume_lines ! i) \<or> idle_line (resume_lines ! i)"
    "\<forall>i<2. \<forall>j<i. live (resume_lines ! i) \<and> live (resume_lines ! j) \<longrightarrow> apart (ss_port (resume_lines ! j)) (ss_port (resume_lines ! i))"
    using resume_lines_ok by (auto simp: less_2_cases_iff)
  note ok = this
  have "\<exists>lines' m' us. snx_resume_one patient_env (Some (zero_board\<lparr>sb_ser_port := 2\<rparr>)) resume_lines idle_machine = Some (lines', m')
    \<and> (\<forall>i<2. live (resume_lines ! i) \<longrightarrow> (\<forall>c. programmed (ss_port (lines' ! i)) (fold (chip_step (ss_port (resume_lines ! i))) us c)))
    \<and> (\<forall>i<2. i < 2 \<and> live (resume_lines ! i) \<or> lines' ! i = resume_lines ! i)"
    using resume_reprograms_lines [of "zero_board\<lparr>sb_ser_port := 2\<rparr>" resume_lines patient_env idle_machine, unfolded n, OF _ ok]
    by blast
  then show ?thesis using resume_lines_ok by (metis One_nat_def less_2_cases_iff)
qed

text \<open>A hang-up takes the tty and leaves the mark.\<close>

lemma hangup_drops_tty:
  assumes "snx_ser_hangup st m0 = Some (st', m1)" and "line_ok (ss_port st)" and "sp_info (ss_port st) = Some i"
    and "has (si_flags i) SNX_UIF_NORMAL_ACTIVE"
  obtains i' where "sp_suspended (ss_port st') = sp_suspended (ss_port st)" "sp_info (ss_port st') = Some i'" "si_tty i' = None"
proof -
  obtain sp1 m2 where f: "snx_ser_flush_buffer (ss_port st) m0 = (sp1, m2)" by fastforce
  have f1: "sp_suspended sp1 = sp_suspended (ss_port st)" "sp_info sp1 \<noteq> None"
    using f assms(2,3) by (auto simp: snx_ser_flush_buffer_def set_xmit_def upd_info_def)
  obtain sp2 m3 where s: "snx_ser_shutdown sp1 m2 = Some (sp2, m3)" and st': "st' = st\<lparr>ss_count := 0,
      ss_port := upd_info (\<lambda>i. i\<lparr>si_flags := si_flags i AND NOT SNX_UIF_NORMAL_ACTIVE, si_tty := None\<rparr>) sp2\<rparr>"
    using assms by (auto simp: snx_ser_hangup_def f split: option.splits)
  have "sp_suspended sp2 = sp_suspended sp1 \<and> sp_info sp2 \<noteq> None"
    using s f1(2)
    by (auto simp: snx_ser_shutdown_def upd_info_def snx_ser_update_mctrl_def sunix_ser_shutdown_def Let_def
        split: option.splits if_splits prod.splits)
  then show ?thesis using f1 that st' by (auto simp: upd_info_def)
qed

text \<open>
  C39. Resuming after a hang-up dereferences a null pointer. A hang-up takes the tty of a line away but
  leaves it marked as suspended by its open; if the line is one of the entries the loop visits and the lines
  before it resume, \<open>snx_resume_one\<close> faults.
\<close>

theorem resume_after_hangup_faults:
  assumes "snx_ser_hangup st m0 = Some (st', m1)" and "line_ok (ss_port st)" and "sp_info (ss_port st) = Some i"
    and "has (si_flags i) SNX_UIF_NORMAL_ACTIVE" and "sp_suspended (ss_port st) = 1"
    and "j < unat (sb_ser_port sb)" and "unat (sb_ser_port sb) \<le> length lines" and "lines ! j = st'"
  shows "snx_resume_one env (Some sb) lines m = None"
proof -
  obtain i' where i': "sp_suspended (ss_port st') = 1" "sp_info (ss_port st') = Some i'" "si_tty i' = None"
    using hangup_drops_tty [OF assms(1-4)] assms(5) by metis
  have step: "resume_entry env j (l, m') = Inl ()" if "l ! j = st'" for l m'
    using i' that by (simp add: resume_entry_def snx_resume_port_def snx_resume_port_termios_def port_tty_def)
  have keep: "l' ! j = st'" if "fold_err (resume_entry env) [0..<j] (lines, m) = Inr (l', m')" for l' m'
  proof -
    have "fst s' ! j = st'" if "x \<in> set [0..<j]" "fst s ! j = st'" "resume_entry env x s = Inr s'" for x s s'
      using that by (auto simp: resume_entry_def nth_list_update split: if_splits option.splits prod.splits)
    from fold_err_inv [OF that, of "\<lambda>s. fst s ! j = st'", OF _ this] show ?thesis using assms(8) by simp
  qed
  have "[0..<unat (sb_ser_port sb)] = [0..<j] @ j # [Suc j..<unat (sb_ser_port sb)]"
    using assms(6) upt_add_eq_append [of 0 j "unat (sb_ser_port sb) - j"] by (simp add: upt_conv_Cons)
  then show ?thesis using step keep
    by (auto simp: snx_resume_one_def fold_err_append split: sum.splits)
qed

definition hung_line :: snx_ser_state where
  "hung_line = upd_line (upd_info (\<lambda>i. i\<lparr>si_flags := SNX_UIF_INITIALIZED OR SNX_UIF_NORMAL_ACTIVE\<rparr>)) (resume_lines ! 0)"

lemma hangup_returns:
  assumes "sp_info (ss_port st) = Some i"
  shows "\<exists>r. snx_ser_hangup st m = Some r"
  using assms
  by (auto simp: snx_ser_hangup_def snx_ser_flush_buffer_def snx_ser_shutdown_def set_xmit_def upd_info_def
      split: option.splits prod.splits)

theorem resume_after_hangup_faults_witness:
  "\<exists>st' m1. snx_ser_hangup hung_line idle_machine = Some (st', m1)
    \<and> snx_resume_one patient_env (Some (zero_board\<lparr>sb_ser_port := 2\<rparr>)) [resume_lines ! 1, st'] m1 = None"
proof -
  have l: "line_ok (ss_port hung_line)" "sp_suspended (ss_port hung_line) = 1"
    and i: "sp_info (ss_port hung_line) = Some (example_info\<lparr>si_flags := SNX_UIF_INITIALIZED OR SNX_UIF_NORMAL_ACTIVE\<rparr>)"
    by (simp_all add: hung_line_def resume_lines_def open_state_def example_line_def example_uart_def zero_ser_port_def
        line_ok_def upd_line_def upd_info_def)
  obtain st' m1 where h: "snx_ser_hangup hung_line idle_machine = Some (st', m1)" using hangup_returns [OF i] by fast
  have "has (si_flags (example_info\<lparr>si_flags := SNX_UIF_INITIALIZED OR SNX_UIF_NORMAL_ACTIVE\<rparr>)) SNX_UIF_NORMAL_ACTIVE" by simp
  from resume_after_hangup_faults [OF h l(1) i this l(2), of 1 "zero_board\<lparr>sb_ser_port := 2\<rparr>" "[resume_lines ! 1, st']" patient_env m1]
  show ?thesis using h by simp
qed

end
