(* ===== verification/Snx_Term.thy ===== *)
theory Snx_Term
  imports Snx_Uart
begin

text \<open>
  The terminal program (snxterm/snxterm.c): its menus over a list of keys, the settings and the termios it
  keeps, the name of the device and how it is opened, what it sends, and where it puts what it receives.
  What ncurses draws and the threads around \<open>readTerm\<close> and \<open>sentTerm\<close> are not modelled.
\<close>

section \<open>The terminal program\<close>

subsection \<open>State\<close>

abbreviation (input) KEY_SESC :: int where "KEY_SESC \<equiv> 27"
abbreviation (input) KEY_SENTER :: int where "KEY_SENTER \<equiv> 10"
abbreviation (input) KEY_SDEL :: int where "KEY_SDEL \<equiv> 330"
abbreviation (input) KEY_SBACKSPACE :: int where "KEY_SBACKSPACE \<equiv> 263"
abbreviation (input) KEY_CTL_N :: int where "KEY_CTL_N \<equiv> 14"
abbreviation (input) WIN_DUMB_H :: int where "WIN_DUMB_H \<equiv> 19"
abbreviation (input) WIN_DUMB_W :: int where "WIN_DUMB_W \<equiv> 80"
abbreviation (input) MAIN_COMMSETUP :: nat where "MAIN_COMMSETUP \<equiv> 1"
abbreviation (input) MAIN_DUMBTERM_ASCII :: nat where "MAIN_DUMBTERM_ASCII \<equiv> 2"
abbreviation (input) MAIN_DUMBTERM_HEX :: nat where "MAIN_DUMBTERM_HEX \<equiv> 3"
abbreviation (input) MAIN_SENDPATTERN :: nat where "MAIN_SENDPATTERN \<equiv> 4"
abbreviation (input) MAIN_EXITPROGRAM :: nat where "MAIN_EXITPROGRAM \<equiv> 5"
abbreviation (input) ERRTYPE_OPEN_OTHER :: nat where "ERRTYPE_OPEN_OTHER \<equiv> 1"
abbreviation (input) ERRTYPE_OPEN_BUSY :: nat where "ERRTYPE_OPEN_BUSY \<equiv> 2"
abbreviation (input) ERRTYPE_OPEN_NOFILE :: nat where "ERRTYPE_OPEN_NOFILE \<equiv> 3"
abbreviation (input) ERRTYPE_OPEN_NOBASEADDR :: nat where "ERRTYPE_OPEN_NOBASEADDR \<equiv> 4"
abbreviation (input) OF_FIRSTOPEN :: u32 where "OF_FIRSTOPEN \<equiv> 0x0001"
abbreviation (input) OF_OPENERR :: u32 where "OF_OPENERR \<equiv> 0x0008"
abbreviation (input) MF_ASCIIMODE :: u32 where "MF_ASCIIMODE \<equiv> 0x0001"
abbreviation (input) MF_HEXMODE :: u32 where "MF_HEXMODE \<equiv> 0x0002"
abbreviation (input) MF_PATTERNMODE :: u32 where "MF_PATTERNMODE \<equiv> 0x0004"

text \<open>The fourth of the sizes that make up \<open>CSIZE\<close>, and the codes of ncurses for the arrow keys.\<close>

abbreviation (input) CS8 :: u32 where "CS8 \<equiv> 0x30"
abbreviation (input) KEY_DOWN :: int where "KEY_DOWN \<equiv> 258"
abbreviation (input) KEY_UP :: int where "KEY_UP \<equiv> 259"
abbreviation (input) KEY_LEFT :: int where "KEY_LEFT \<equiv> 260"
abbreviation (input) KEY_RIGHT :: int where "KEY_RIGHT \<equiv> 261"

text \<open>
  \<^verbatim>\<open>sunix_term_conf\<close> with the static \<^verbatim>\<open>deviceName\<close>, 15 bytes without a terminator, and the system calls made
  so far: \<open>SetAttr\<close> carries the control and input flags of the termios.
\<close>

datatype term_event = TcFlush int | CloseFd int | OpenDev string | SetAttr int u32 u32 | WriteFd int "u8 list" | ErrMsg nat

record term_conf =
  tc_fd :: int
  tc_cflag :: u32
  tc_iflag :: u32
  tc_start_stop :: "u8 \<times> u8"
  tc_open_flag :: u32
  tc_mode_flag :: u32
  flowctlSelect :: nat
  baudrateSelect :: nat
  databitSelect :: nat
  paritySelect :: nat
  stopbitSelect :: nat
  deviceName :: string
  tc_calls :: "term_event list"

definition term_init :: term_conf where
  "term_init = \<lparr>tc_fd = 0, tc_cflag = B9600 OR CS8 OR CLOCAL OR CREAD OR CRTSCTS, tc_iflag = IGNPAR, tc_start_stop = (0, 0),
     tc_open_flag = OF_FIRSTOPEN, tc_mode_flag = 0,
     flowctlSelect = 0, baudrateSelect = 5, databitSelect = 3, paritySelect = 0, stopbitSelect = 0,
     deviceName = ''/dev/ttyS0     '', tc_calls = []\<rparr>"

definition term_call :: "term_event \<Rightarrow> term_conf \<Rightarrow> term_conf" where
  "term_call e tc = tc\<lparr>tc_calls := tc_calls tc @ [e]\<rparr>"

text \<open>The tables the settings are shown with.\<close>

definition baudTable :: "string list" where
  "baudTable = [''0      '', ''300    '', ''1200   '', ''2400   '', ''4800   '', ''9600   '', ''19200  '', ''38400  '',
     ''57600  '', ''115200 '', ''230400 '', ''460800 '', ''921600 '']"

definition pariTable :: "string list" where "pariTable = [''N'', ''E'', ''O'']"
definition dataTable :: "string list" where "dataTable = [''5'', ''6'', ''7'', ''8'']"
definition stopTable :: "string list" where "stopTable = [''1'', ''2'']"
definition flowTable :: "string list" where "flowTable = [''RTS/CTS  '', ''Xon/Xoff '', ''None     '']"

text \<open>A menu has seen all the keys there are and waits for another, or is done and leaves some of them.\<close>

datatype 'a keyed = Waits 'a | Done 'a "int list"

fun keyed_state :: "'a keyed \<Rightarrow> 'a" where
  "keyed_state (Waits x) = x"
| "keyed_state (Done x ks) = x"

text \<open>\<open>case 'a': case 'A':\<close>\<close>

definition letter :: "int \<Rightarrow> int" where
  "letter ch = (if 65 \<le> ch \<and> ch \<le> 90 then ch + 32 else ch)"

subsection \<open>The settings\<close>

definition set_bits :: "u32 \<Rightarrow> u32 \<Rightarrow> term_conf \<Rightarrow> term_conf" where
  "set_bits msk v tc = tc\<lparr>tc_cflag := (tc_cflag tc AND NOT msk) OR v\<rparr>"

text \<open>\<open>B300|B1200|\<dots>|B921600\<close>, \<open>CS5|CS6|CS7|CS8\<close>, \<open>PARENB|PARODD\<close>\<close>

definition baud_mask :: u32 where
  "baud_mask = 0x07 OR 0x09 OR 0x0b OR 0x0c OR 0x0d OR 0x0e OR 0x0f OR 0x1001 OR 0x1002 OR 0x1003 OR 0x1004 OR 0x1007"

definition size_mask :: u32 where "size_mask = CS5 OR CS6 OR CS7 OR CS8"
definition parity_mask :: u32 where "parity_mask = PARENB OR PARODD"

definition baud_codes :: "u32 list" where
  "baud_codes = [0x07, 0x09, 0x0b, 0x0c, 0x0d, 0x0e, 0x0f, 0x1001, 0x1002, 0x1003, 0x1004, 0x1007]"

definition comm_key :: "int \<Rightarrow> term_conf \<Rightarrow> term_conf" where
  "comm_key ch tc =
    (let k = letter ch in
     if 97 \<le> k \<and> k \<le> 108 then (set_bits baud_mask (baud_codes ! nat (k - 97)) tc)\<lparr>baudrateSelect := nat (k - 96)\<rparr>
     else if k = 109 then (set_bits parity_mask 0 tc)\<lparr>paritySelect := 0\<rparr>
     else if k = 110 then (set_bits parity_mask PARENB tc)\<lparr>paritySelect := 1\<rparr>
     else if k = 111 then (set_bits parity_mask (PARENB OR PARODD) tc)\<lparr>paritySelect := 2\<rparr>
     else if k = 112 then (set_bits CSTOPB 0 tc)\<lparr>stopbitSelect := 0\<rparr>
     else if k = 113 then (set_bits 0 CSTOPB tc)\<lparr>stopbitSelect := 1\<rparr>
     else if k = 114 then (set_bits size_mask CS5 tc)\<lparr>databitSelect := 0\<rparr>
     else if k = 115 then (set_bits size_mask CS6 tc)\<lparr>databitSelect := 1\<rparr>
     else if k = 116 then (set_bits size_mask CS7 tc)\<lparr>databitSelect := 2\<rparr>
     else if k = 117 then (set_bits size_mask CS8 tc)\<lparr>databitSelect := 3\<rparr>
     else tc)"

fun commPamSetup :: "int list \<Rightarrow> term_conf \<Rightarrow> term_conf keyed" where
  "commPamSetup [] tc = Waits tc"
| "commPamSetup (ch # ks) tc = (if ch = KEY_SENTER then Done tc ks else commPamSetup ks (comm_key ch tc))"

definition flow_key :: "term_conf \<Rightarrow> term_conf" where
  "flow_key tc =
    (let sel = (if flowctlSelect tc + 1 > 2 then 0 else flowctlSelect tc + 1);
         tc1 = (set_bits CRTSCTS 0 tc)\<lparr>flowctlSelect := sel, tc_iflag := tc_iflag tc AND NOT (IXON OR IXOFF)\<rparr>
     in if sel = 0 then set_bits 0 CRTSCTS tc1
        else if sel = 1 then tc1\<lparr>tc_iflag := tc_iflag tc1 OR (IXON OR IXOFF), tc_start_stop := (0x11, 0x13)\<rparr>
        else tc1)"

subsection \<open>The name of the device\<close>

text \<open>
  The cursor is a column of the window, the name starts at column 22. \<^verbatim>\<open>getyx\<close> reads the column the last
  \<^verbatim>\<open>wmove\<close> set. \<open>None\<close> is a store outside the 15 bytes.
\<close>

definition name_put :: "int \<Rightarrow> char \<Rightarrow> string \<Rightarrow> string option" where
  "name_put i c name = (if 0 \<le> i \<and> i < 15 then Some (name[nat i := c]) else None)"

definition name_left :: "int \<Rightarrow> int" where "name_left x = (if x - 1 < 22 then 36 else x - 1)"
definition name_right :: "int \<Rightarrow> int" where "name_right x = (if x + 1 > 36 then 22 else x + 1)"

text \<open>The loop of \<^verbatim>\<open>KEY_SDEL\<close>: byte \<open>i\<close> and those behind it.\<close>

function delete_from :: "int \<Rightarrow> string \<Rightarrow> string option" where
  "delete_from i name =
    (if i < 15 then
       Option.bind (if i \<ge> 14 then name_put i CHR '' '' name
                    else if i + 1 < 0 then None else name_put i (name ! nat (i + 1)) name)
         (delete_from (i + 1))
     else Some name)"
  by auto
termination by (relation "measure (\<lambda>(i, name). nat (15 - i))") auto

definition scan_key :: "int \<Rightarrow> int \<times> string \<Rightarrow> (int \<times> string) option" where
  "scan_key ch = (\<lambda>(x, name).
    if ch = KEY_LEFT then Some (name_left x, name)
    else if ch = KEY_RIGHT then Some (name_right x, name)
    else if ch = KEY_SBACKSPACE then
      map_option (Pair (name_left x))
        (if x = 22 then name_put 14 CHR '' '' name else if x - 23 \<ge> 0 then name_put (x - 23) CHR '' '' name else Some name)
    else if ch = KEY_SDEL then map_option (Pair x) (delete_from (x - 22) name)
    else if 0x20 \<le> ch \<and> ch \<le> 0x7E then
      (if x - 22 \<ge> 0 then map_option (Pair (name_right x)) (name_put (x - 22) (char_of (nat ch)) name) else Some (x, name))
    else Some (x, name))"

fun scan_keys :: "int list \<Rightarrow> int \<times> string \<Rightarrow> (int \<times> string) keyed option" where
  "scan_keys [] st = Some (Waits st)"
| "scan_keys (ch # ks) st = (if ch = KEY_SENTER then Some (Done st ks) else Option.bind (scan_key ch st) (scan_keys ks))"

definition scanDeviceName :: "int list \<Rightarrow> term_conf \<Rightarrow> term_conf keyed option" where
  "scanDeviceName ks tc = map_option (map_keyed (\<lambda>(x, name). tc\<lparr>deviceName := name\<rparr>)) (scan_keys ks (31, deviceName tc))"

lemma map_keyed_eq_Done [simp]: "map_keyed f r = Done x ks \<longleftrightarrow> (\<exists>y. r = Done y ks \<and> x = f y)"
  by (cases r) auto

text \<open>What \<^verbatim>\<open>open\<close> is given: \<^verbatim>\<open>fd\<close> holds the name without its trailing blanks, over zeroed bytes.\<close>

fun trim_name :: "nat \<Rightarrow> bool \<Rightarrow> string \<Rightarrow> string \<Rightarrow> string" where
  "trim_name 0 hasChar name path = path"
| "trim_name (Suc i) hasChar name path =
    (if name ! i = CHR '' '' \<and> \<not> hasChar then trim_name i False name path
     else trim_name i True name (path[i := name ! i]))"

definition device_path :: "string \<Rightarrow> string" where
  "device_path name = trim_name 15 False name (replicate 15 (CHR 0x00))"

subsection \<open>Opening the device\<close>

text \<open>A C string in an array: \<open>None\<close> when its end is not in the array.\<close>

definition c_string :: "string \<Rightarrow> string option" where
  "c_string bs = (if CHR 0x00 \<in> set bs then Some (takeWhile (\<lambda>c. c \<noteq> CHR 0x00) bs) else None)"

text \<open>
  What the system answers: \<open>te_open\<close> is the descriptor or minus the error number, \<open>te_sent\<close> how often \<^verbatim>\<open>sentTerm\<close>
  writes its pattern before it is cancelled.
\<close>

record term_env =
  te_open :: "term_event list \<Rightarrow> string \<Rightarrow> int"
  te_sent :: "term_event list \<Rightarrow> nat"

definition closeDevice :: "term_conf \<Rightarrow> term_conf" where
  "closeDevice tc = (if tc_fd tc > 0 then term_call (CloseFd (tc_fd tc)) (term_call (TcFlush (tc_fd tc)) tc) else tc)"

definition termioConfSetup :: "term_conf \<Rightarrow> term_conf" where
  "termioConfSetup tc = term_call (SetAttr (tc_fd tc) (tc_cflag tc) (tc_iflag tc)) (term_call (TcFlush (tc_fd tc)) tc)"

definition open_error :: "int \<Rightarrow> nat" where
  "open_error errno = (if errno = 16 then ERRTYPE_OPEN_BUSY else if errno = 2 then ERRTYPE_OPEN_NOFILE
     else if errno = 19 then ERRTYPE_OPEN_NOBASEADDR else ERRTYPE_OPEN_OTHER)"

text \<open>The message waits for a key.\<close>

definition printErrMsg :: "nat \<Rightarrow> int list \<Rightarrow> term_conf \<Rightarrow> term_conf keyed" where
  "printErrMsg errType ks tc = (case ks of [] \<Rightarrow> Waits (term_call (ErrMsg errType) tc) | k # ks' \<Rightarrow> Done (term_call (ErrMsg errType) tc) ks')"

definition openDevice :: "term_env \<Rightarrow> int list \<Rightarrow> term_conf \<Rightarrow> (bool \<times> term_conf) keyed" where
  "openDevice env ks tc =
    (let path = device_path (deviceName tc);
         tc1 = closeDevice (tc\<lparr>tc_open_flag := tc_open_flag tc AND NOT OF_OPENERR\<rparr>);
         ret = te_open env (tc_calls tc1) path;
         tc2 = (term_call (OpenDev path) tc1)\<lparr>tc_fd := (if ret < 0 then -1 else ret)\<rparr>
     in if ret < 0 then
          (case printErrMsg (open_error (- ret)) ks tc2 of
             Waits tc3 \<Rightarrow> Waits (False, tc3)
           | Done tc3 ks' \<Rightarrow> Done (False, tc3\<lparr>tc_open_flag := tc_open_flag tc3 OR OF_OPENERR\<rparr>) ks')
        else Done (True, termioConfSetup tc2) ks)"

subsection \<open>The terminals\<close>

text \<open>\<^verbatim>\<open>char ch = wgetch(...)\<close> keeps the low byte of the key.\<close>

definition key_byte :: "int \<Rightarrow> u8" where
  "key_byte ch = word_of_int ch"

fun dumbTerm1 :: "int list \<Rightarrow> term_conf \<Rightarrow> term_conf keyed" where
  "dumbTerm1 [] tc = Waits tc"
| "dumbTerm1 (ch # ks) tc =
    (if sint (key_byte ch) = KEY_CTL_N
     then Done (term_call (TcFlush (tc_fd tc)) (tc\<lparr>tc_mode_flag := tc_mode_flag tc AND NOT (MF_ASCIIMODE OR MF_HEXMODE)\<rparr>)) ks
     else dumbTerm1 ks (term_call (WriteFd (tc_fd tc) [key_byte ch]) tc))"

definition pattern :: "u8 list" where
  "pattern = map (\<lambda>i. word_of_nat (48 + i)) [0..<40]"

text \<open>The thread \<open>sentTerm\<close> has written its pattern \<open>n\<close> times when it is cancelled.\<close>

primrec sentTerm :: "nat \<Rightarrow> term_conf \<Rightarrow> term_conf" where
  "sentTerm 0 tc = tc"
| "sentTerm (Suc n) tc = sentTerm n (term_call (WriteFd (tc_fd tc) pattern) tc)"

fun dumbTerm2 :: "term_env \<Rightarrow> int list \<Rightarrow> term_conf \<Rightarrow> term_conf keyed" where
  "dumbTerm2 env [] tc = Waits tc"
| "dumbTerm2 env (ch # ks) tc =
    (if sint (key_byte ch) = KEY_CTL_N
     then Done (term_call (TcFlush (tc_fd tc))
                 ((sentTerm (te_sent env (tc_calls tc)) tc)
                    \<lparr>tc_mode_flag := tc_mode_flag tc AND NOT (MF_ASCIIMODE OR MF_HEXMODE OR MF_PATTERNMODE)\<rparr>)) ks
     else dumbTerm2 env ks tc)"

fun printDefaultPattern :: "int list \<Rightarrow> nat keyed" where
  "printDefaultPattern [] = Waits 0"
| "printDefaultPattern (ch # ks) = (if ch = KEY_SESC then Done 1 ks else if ch = KEY_SENTER then Done 2 ks else printDefaultPattern ks)"

text \<open>What a menu leaves of the keys is shorter than what it was given.\<close>

lemma printDefaultPattern_less: "printDefaultPattern ks = Done x ks' \<Longrightarrow> length ks' < length ks"
  by (induction ks) (auto split: if_splits)

lemma dumbTerm1_less: "dumbTerm1 ks tc = Done x ks' \<Longrightarrow> length ks' < length ks"
  by (induction ks tc rule: dumbTerm1.induct) (auto split: if_splits)

lemma dumbTerm2_less: "dumbTerm2 env ks tc = Done x ks' \<Longrightarrow> length ks' < length ks"
  by (induction env ks tc rule: dumbTerm2.induct) (auto split: if_splits)

lemma commPamSetup_less: "commPamSetup ks tc = Done x ks' \<Longrightarrow> length ks' < length ks"
  by (induction ks tc rule: commPamSetup.induct) (auto split: if_splits)

lemma scan_keys_less: "scan_keys ks st = Some (Done x ks') \<Longrightarrow> length ks' < length ks"
  by (induction ks st rule: scan_keys.induct) (auto split: if_splits bind_splits)

lemma scanDeviceName_less: "scanDeviceName ks tc = Some (Done x ks') \<Longrightarrow> length ks' < length ks"
  by (auto simp: scanDeviceName_def dest: scan_keys_less)

lemma openDevice_less: "openDevice env ks tc = Done x ks' \<Longrightarrow> length ks' \<le> length ks"
  by (auto simp: openDevice_def printErrMsg_def Let_def split: if_splits list.splits)

function sendPattern :: "term_env \<Rightarrow> int list \<Rightarrow> term_conf \<Rightarrow> term_conf keyed" where
  "sendPattern env ks tc =
    (case printDefaultPattern ks of
       Waits _ \<Rightarrow> Waits tc
     | Done ret_patn ks1 \<Rightarrow>
        (if ret_patn = 1 then Done tc ks1
         else (case dumbTerm2 env ks1 (tc\<lparr>tc_mode_flag := MF_PATTERNMODE\<rparr>) of
                 Waits tc1 \<Rightarrow> Waits tc1
               | Done tc1 ks2 \<Rightarrow> sendPattern env ks2 tc1)))"
  by auto
termination
  by (relation "measure (\<lambda>(_, ks, _). length ks)") (auto dest!: printDefaultPattern_less dumbTerm2_less)

declare sendPattern.simps [simp del]

subsection \<open>The menus\<close>

function serialPortSetup :: "int list \<Rightarrow> term_conf \<Rightarrow> term_conf keyed option" where
  "serialPortSetup [] tc = Some (Waits tc)"
| "serialPortSetup (ch # ks) tc =
    (if letter ch = 97 then
       (case scanDeviceName ks tc of
          None \<Rightarrow> None
        | Some (Waits tc1) \<Rightarrow> Some (Waits tc1)
        | Some (Done tc1 ks1) \<Rightarrow> serialPortSetup ks1 tc1)
     else if letter ch = 98 then
       (case commPamSetup ks tc of Waits tc1 \<Rightarrow> Some (Waits tc1) | Done tc1 ks1 \<Rightarrow> serialPortSetup ks1 tc1)
     else if letter ch = 99 then serialPortSetup ks (flow_key tc)
     else if ch = KEY_SENTER then Some (Done tc ks)
     else serialPortSetup ks tc)"
  by pat_completeness auto
termination
  by (relation "measure (\<lambda>(ks, _). length ks)") (auto dest!: scanDeviceName_less commPamSetup_less)

text \<open>\<open>n_mainMENU\<close> is 4.\<close>

fun printMainMenu :: "nat \<Rightarrow> int list \<Rightarrow> nat keyed" where
  "printMainMenu highlight [] = Waits highlight"
| "printMainMenu highlight (ch # ks) =
    (if ch = KEY_UP then printMainMenu (if highlight = 1 then 4 else highlight - 1) ks
     else if ch = KEY_DOWN then printMainMenu (if highlight = 4 then 1 else highlight + 1) ks
     else if ch = KEY_SESC then Done MAIN_EXITPROGRAM ks
     else if ch = KEY_SENTER \<and> highlight \<noteq> 0 then Done highlight ks
     else printMainMenu highlight ks)"

lemma printMainMenu_less: "printMainMenu h ks = Done x ks' \<Longrightarrow> length ks' < length ks"
  by (induction h ks rule: printMainMenu.induct) (auto split: if_splits)

lemma serialPortSetup_less: "serialPortSetup ks tc = Some (Done x ks') \<Longrightarrow> length ks' \<le> length ks"
  by (induction ks tc rule: serialPortSetup.induct)
    (fastforce split: if_splits option.splits keyed.splits dest: scanDeviceName_less commPamSetup_less)+

lemma sendPattern_less: "sendPattern env ks tc = Done x ks' \<Longrightarrow> length ks' \<le> length ks"
  by (induction env ks tc rule: sendPattern.induct)
    (subst (asm) (2) sendPattern.simps, fastforce split: if_splits keyed.splits dest: printDefaultPattern_less dumbTerm2_less)

text \<open>One choice of the main menu. The menu shows the choice again when it comes back.\<close>

definition run_choice :: "term_env \<Rightarrow> nat \<Rightarrow> int list \<Rightarrow> term_conf \<Rightarrow> term_conf keyed option" where
  "run_choice env choice ks tc =
    (if choice = MAIN_COMMSETUP then serialPortSetup ks tc
     else Some
      (case openDevice env ks tc of
         Waits (_, tc1) \<Rightarrow> Waits tc1
       | Done (opened, tc1) ks1 \<Rightarrow>
          (if \<not> opened then Done tc1 ks1
           else if choice = MAIN_DUMBTERM_ASCII then dumbTerm1 ks1 (tc1\<lparr>tc_mode_flag := MF_ASCIIMODE\<rparr>)
           else if choice = MAIN_DUMBTERM_HEX then dumbTerm1 ks1 (tc1\<lparr>tc_mode_flag := MF_HEXMODE\<rparr>)
           else sendPattern env ks1 (tc1\<lparr>tc_mode_flag := MF_PATTERNMODE\<rparr>))))"

lemma run_choice_less: "run_choice env choice ks tc = Some (Done x ks') \<Longrightarrow> length ks' \<le> length ks"
  by (auto simp: run_choice_def split: if_splits keyed.splits prod.splits
      dest!: serialPortSetup_less dumbTerm1_less sendPattern_less openDevice_less)

function mainFunction :: "term_env \<Rightarrow> nat \<Rightarrow> int list \<Rightarrow> term_conf \<Rightarrow> term_conf keyed option" where
  "mainFunction env select ks tc =
    (case printMainMenu select ks of
       Waits _ \<Rightarrow> Some (Waits tc)
     | Done choice ks1 \<Rightarrow>
        (if choice = MAIN_EXITPROGRAM then Some (Done (closeDevice tc) ks1)
         else
          (case run_choice env choice ks1 tc of
             None \<Rightarrow> None
           | Some (Waits tc1) \<Rightarrow> Some (Waits tc1)
           | Some (Done tc1 ks2) \<Rightarrow> mainFunction env choice ks2 tc1)))"
  by auto
termination
  by (relation "measure (\<lambda>(_, _, ks, _). length ks)") (auto dest!: printMainMenu_less run_choice_less)

declare mainFunction.simps [simp del]

text \<open>\<open>main\<close> closes the device again.\<close>

definition snxterm_main :: "term_env \<Rightarrow> int list \<Rightarrow> term_conf keyed option" where
  "snxterm_main env ks =
    (case mainFunction env 1 ks term_init of
       None \<Rightarrow> None
     | Some (Waits tc) \<Rightarrow> Some (Waits tc)
     | Some (Done tc ks') \<Rightarrow> Some (Done (closeDevice tc) ks'))"

section \<open>What is shown is what is set\<close>

text \<open>The number a rate is shown as.\<close>

fun decimal :: "nat \<Rightarrow> string \<Rightarrow> nat" where
  "decimal n [] = n"
| "decimal n (c # cs) = (if 48 \<le> (of_char c :: nat) \<and> (of_char c :: nat) \<le> 57 then decimal (10 * n + (of_char c - 48)) cs else n)"

definition shown_rate :: "term_conf \<Rightarrow> nat" where
  "shown_rate tc = decimal 0 (baudTable ! baudrateSelect tc)"

text \<open>The termios says what the selections, indices of the tables on the screen, say.\<close>

definition settings_shown :: "term_conf \<Rightarrow> bool" where
  "settings_shown tc \<longleftrightarrow>
     (\<exists>k<12. baudrateSelect tc = Suc k \<and> tc_cflag tc AND (CBAUD OR CBAUDEX) = baud_codes ! k)
     \<and> databitSelect tc < 4 \<and> tc_cflag tc AND CSIZE = [CS5, CS6, CS7, CS8] ! databitSelect tc
     \<and> paritySelect tc < 3 \<and> tc_cflag tc AND (PARENB OR PARODD) = [0, PARENB, PARENB OR PARODD] ! paritySelect tc
     \<and> stopbitSelect tc < 2 \<and> tc_cflag tc AND CSTOPB = [0, CSTOPB] ! stopbitSelect tc
     \<and> flowctlSelect tc < 3 \<and> tc_cflag tc AND CRTSCTS = [CRTSCTS, 0, 0] ! flowctlSelect tc
     \<and> tc_iflag tc AND (IXON OR IXOFF) = [0, IXON OR IXOFF, 0] ! flowctlSelect tc
     \<and> tc_cflag tc AND CMSPAR = 0 \<and> tc_cflag tc AND (CLOCAL OR CREAD) = CLOCAL OR CREAD"

lemma set_other: "m AND k = 0 \<Longrightarrow> v AND k = 0 \<Longrightarrow> tc_cflag (set_bits m v tc) AND k = tc_cflag tc AND k"
  by (auto simp: set_bits_def bit_eq_iff bit_simps)

lemma set_same: "v AND k = v \<Longrightarrow> m = k \<Longrightarrow> tc_cflag (set_bits m v tc) AND k = v"
  by (auto simp: set_bits_def bit_eq_iff bit_simps)

text \<open>Adding a flag without clearing it first is the same as setting it.\<close>

lemma set_only: "tc_cflag (set_bits 0 v tc) = tc_cflag (set_bits v v tc)"
  by (auto simp: set_bits_def bit_eq_iff bit_simps)

lemma set_bits_simps [simp]:
  "tc_iflag (set_bits m v tc) = tc_iflag tc"
  "baudrateSelect (set_bits m v tc) = baudrateSelect tc" "databitSelect (set_bits m v tc) = databitSelect tc"
  "paritySelect (set_bits m v tc) = paritySelect tc" "stopbitSelect (set_bits m v tc) = stopbitSelect tc"
  "flowctlSelect (set_bits m v tc) = flowctlSelect tc" "deviceName (set_bits m v tc) = deviceName tc"
  "tc_calls (set_bits m v tc) = tc_calls tc" "tc_fd (set_bits m v tc) = tc_fd tc"
  by (simp_all add: set_bits_def)

lemma masks [simp]: "baud_mask = 0x100f" "size_mask = 0x30" "parity_mask = 0x300"
  by (simp_all add: baud_mask_def size_mask_def parity_mask_def)

lemma baud_code_bits:
  assumes "k < 12"
  shows "baud_codes ! k AND 0x100f = baud_codes ! k" "baud_codes ! k AND 0x30 = 0" "baud_codes ! k AND 0x300 = 0"
    "baud_codes ! k AND 0x40 = 0" "baud_codes ! k AND 0x80000000 = 0" "baud_codes ! k AND 0x40000000 = 0"
    "baud_codes ! k AND 0x880 = 0"
proof -
  have "baud_codes ! k \<in> set baud_codes" using assms by (intro nth_mem) (simp add: baud_codes_def)
  then show "baud_codes ! k AND 0x100f = baud_codes ! k" "baud_codes ! k AND 0x30 = 0" "baud_codes ! k AND 0x300 = 0"
    "baud_codes ! k AND 0x40 = 0" "baud_codes ! k AND 0x80000000 = 0" "baud_codes ! k AND 0x40000000 = 0"
    "baud_codes ! k AND 0x880 = 0"
    by (auto simp: baud_codes_def)
qed

lemma settings_init: "settings_shown term_init"
  by (auto simp: settings_shown_def term_init_def baud_codes_def intro!: exI [of _ 4])

lemma settings_rate:
  assumes "settings_shown tc" and "k < 12"
  shows "settings_shown ((set_bits baud_mask (baud_codes ! k) tc)\<lparr>baudrateSelect := Suc k\<rparr>)"
  using assms by (simp add: settings_shown_def set_other set_same baud_code_bits)

lemma settings_frame:
  assumes "settings_shown tc"
  shows "settings_shown ((set_bits parity_mask 0 tc)\<lparr>paritySelect := 0\<rparr>)"
    "settings_shown ((set_bits parity_mask PARENB tc)\<lparr>paritySelect := 1\<rparr>)"
    "settings_shown ((set_bits parity_mask (PARENB OR PARODD) tc)\<lparr>paritySelect := 2\<rparr>)"
    "settings_shown ((set_bits CSTOPB 0 tc)\<lparr>stopbitSelect := 0\<rparr>)"
    "settings_shown ((set_bits size_mask CS5 tc)\<lparr>databitSelect := 0\<rparr>)"
    "settings_shown ((set_bits size_mask CS6 tc)\<lparr>databitSelect := 1\<rparr>)"
    "settings_shown ((set_bits size_mask CS7 tc)\<lparr>databitSelect := 2\<rparr>)"
    "settings_shown ((set_bits size_mask CS8 tc)\<lparr>databitSelect := 3\<rparr>)"
  using assms by (simp_all add: settings_shown_def set_other set_same)

lemma settings_stop2: "settings_shown tc \<Longrightarrow> settings_shown ((set_bits 0 CSTOPB tc)\<lparr>stopbitSelect := 1\<rparr>)"
  by (simp add: settings_shown_def set_only set_other set_same)

lemma settings_comm_key:
  assumes "settings_shown tc"
  shows "settings_shown (comm_key ch tc)"
proof (cases "97 \<le> letter ch \<and> letter ch \<le> 108")
  case True
  then have "nat (letter ch - 96) = Suc (nat (letter ch - 97))" "nat (letter ch - 97) < 12" by auto
  then show ?thesis using settings_rate [OF assms] True by (simp add: comm_key_def Let_def)
next
  case False
  show ?thesis
    unfolding comm_key_def Let_def if_not_P [OF False]
    using settings_frame [OF assms] settings_stop2 [OF assms] assms by presburger
qed

lemma settings_flow_key:
  assumes "settings_shown tc"
  shows "settings_shown (flow_key tc)"
proof -
  have sel: "flowctlSelect tc = 0 \<or> flowctlSelect tc = 1 \<or> flowctlSelect tc = 2"
    using assms by (auto simp: settings_shown_def)
  have "(x AND NOT m) AND m = 0" "((x AND NOT m) OR m) AND m = m" for x m :: u32
    by (auto simp: bit_eq_iff bit_simps)
  from this [where m = "IXON OR IXOFF", simplified] sel assms show ?thesis
    by (elim disjE) (simp_all add: flow_key_def Let_def settings_shown_def set_only set_other set_same)
qed

section \<open>Editing the name stays in its array\<close>

lemma delete_from_shifts:
  assumes "k \<le> 15" and "length name = 15"
  shows "delete_from (int k) name = Some (if k < 15 then take k name @ drop (Suc k) name @ [CHR '' ''] else name)"
  using assms
proof (induction "15 - k" arbitrary: k name)
  case 0
  then show ?case by simp
next
  case (Suc n)
  then have k: "k < 15" by simp
  let ?name = "name[k := if k \<ge> 14 then CHR '' '' else name ! Suc k]"
  have "name_put (int k) (if k \<ge> 14 then CHR '' '' else name ! Suc k) name = Some ?name"
    using k by (simp add: name_put_def)
  moreover have "nat (int k + 1) = Suc k" by simp
  ultimately have "delete_from (int k) name = delete_from (int (Suc k)) ?name"
    using k by (subst delete_from.simps) (auto simp: algebra_simps simp del: delete_from.simps)
  also have "\<dots> = Some (if Suc k < 15 then take (Suc k) ?name @ drop (Suc (Suc k)) ?name @ [CHR '' ''] else ?name)"
    using Suc by (intro Suc.hyps(1)) auto
  also have "(if Suc k < 15 then take (Suc k) ?name @ drop (Suc (Suc k)) ?name @ [CHR '' ''] else ?name)
      = take k name @ drop (Suc k) name @ [CHR '' '']"
  proof (cases "Suc k < 15")
    case True
    then have "drop (Suc k) name = name ! Suc k # drop (Suc (Suc k)) name"
      using Suc.prems by (intro Cons_nth_drop_Suc [symmetric]) simp
    then show ?thesis using True Suc.prems by (simp add: take_Suc_conv_app_nth)
  next
    case False
    then have "k = 14" using k by simp
    then show ?thesis using Suc.prems by (simp add: list_eq_iff_nth_eq nth_append nth_list_update less_Suc_eq)
  qed
  finally show ?case using k by simp
qed

declare delete_from.simps [simp del]

definition name_ok :: "int \<times> string \<Rightarrow> bool" where
  "name_ok = (\<lambda>(x, name). 22 \<le> x \<and> x \<le> 36 \<and> length name = 15)"

lemma name_put_ok: "0 \<le> i \<Longrightarrow> i < 15 \<Longrightarrow> length name = 15 \<Longrightarrow> \<exists>n. name_put i c name = Some n \<and> length n = 15"
  by (simp add: name_put_def)

lemma scan_key_ok:
  assumes "name_ok st"
  shows "\<exists>st'. scan_key ch st = Some st' \<and> name_ok st'"
proof -
  obtain x name where st: "st = (x, name)" "22 \<le> x" "x \<le> 36" "length name = 15"
    using assms by (cases st) (auto simp: name_ok_def)
  have "\<exists>n. delete_from (x - 22) name = Some n \<and> length n = 15"
    using delete_from_shifts [of "nat (x - 22)" name] st(2-4) by simp
  then show ?thesis
    using st(2-4) unfolding st(1) scan_key_def
    by (auto simp: name_ok_def name_left_def name_right_def name_put_def)
qed

lemma scan_keys_ok: "name_ok st \<Longrightarrow> \<exists>r. scan_keys ks st = Some r \<and> name_ok (keyed_state r)"
proof (induction ks st rule: scan_keys.induct)
  case (2 ch ks st)
  obtain st' where "scan_key ch st = Some st'" "name_ok st'" using scan_key_ok [OF 2(2)] by blast
  then show ?case using 2 by auto
qed simp

section \<open>Every run\<close>

text \<open>
  What \<^verbatim>\<open>tcsetattr\<close> is given: one of the twelve rates, a receiver that is on, no parity bit without parity, and
  not both flow controls.
\<close>

definition termios_sane :: "u32 \<Rightarrow> u32 \<Rightarrow> bool" where
  "termios_sane c i \<longleftrightarrow> c AND (CBAUD OR CBAUDEX) \<in> set baud_codes \<and> c AND (CLOCAL OR CREAD) = CLOCAL OR CREAD
     \<and> c AND CMSPAR = 0 \<and> (has c PARODD \<longrightarrow> has c PARENB) \<and> (has c CRTSCTS \<longrightarrow> i AND (IXON OR IXOFF) = 0)"

fun call_ok :: "term_event \<Rightarrow> bool" where
  "call_ok (SetAttr fd c i) = termios_sane c i"
| "call_ok (WriteFd fd bs) = (bs \<noteq> [])"
| "call_ok (OpenDev path) = (length path = 15)"
| "call_ok _ = True"

definition term_ok :: "term_conf \<Rightarrow> bool" where
  "term_ok tc \<longleftrightarrow> settings_shown tc \<and> length (deviceName tc) = 15 \<and> (\<forall>e\<in>set (tc_calls tc). call_ok e)"

lemma length_baud_codes: "length baud_codes = 12"
  by (simp add: baud_codes_def)

lemma settings_sane:
  assumes "settings_shown tc"
  shows "termios_sane (tc_cflag tc) (tc_iflag tc)"
proof -
  have par: "c AND PARODD = (c AND (PARENB OR PARODD)) AND PARODD" "c AND PARENB = (c AND (PARENB OR PARODD)) AND PARENB" for c :: u32
    by (simp_all add: and.assoc)
  have "paritySelect tc = 0 \<or> paritySelect tc = 1 \<or> paritySelect tc = 2"
    using assms by (auto simp: settings_shown_def)
  then have "has (tc_cflag tc) PARODD \<longrightarrow> has (tc_cflag tc) PARENB"
    using assms par [of "tc_cflag tc"] by (elim disjE) (simp_all add: settings_shown_def)
  moreover have "has (tc_cflag tc) CRTSCTS \<longrightarrow> tc_iflag tc AND (IXON OR IXOFF) = 0"
    using assms by (cases "flowctlSelect tc") (auto simp: settings_shown_def less_Suc_eq numeral_3_eq_3)
  ultimately show ?thesis
    using assms nth_mem [of _ baud_codes] length_baud_codes by (auto simp: termios_sane_def settings_shown_def)
qed

lemma settings_upd [simp]:
  "settings_shown (tc\<lparr>tc_fd := a\<rparr>) = settings_shown tc" "settings_shown (tc\<lparr>tc_open_flag := b\<rparr>) = settings_shown tc"
  "settings_shown (tc\<lparr>tc_mode_flag := b\<rparr>) = settings_shown tc" "settings_shown (tc\<lparr>deviceName := n\<rparr>) = settings_shown tc"
  "settings_shown (tc\<lparr>tc_calls := es\<rparr>) = settings_shown tc"
  by (simp_all add: settings_shown_def)

lemma term_ok_upd [simp]:
  "term_ok (tc\<lparr>tc_fd := a\<rparr>) = term_ok tc" "term_ok (tc\<lparr>tc_open_flag := b\<rparr>) = term_ok tc"
  "term_ok (tc\<lparr>tc_mode_flag := b\<rparr>) = term_ok tc"
  by (simp_all add: term_ok_def)

lemma term_ok_call [simp]: "term_ok (term_call e tc) \<longleftrightarrow> term_ok tc \<and> call_ok e"
  by (auto simp: term_ok_def term_call_def)

lemma term_call_simps [simp]:
  "tc_fd (term_call e tc) = tc_fd tc" "tc_cflag (term_call e tc) = tc_cflag tc" "tc_iflag (term_call e tc) = tc_iflag tc"
  "tc_mode_flag (term_call e tc) = tc_mode_flag tc" "deviceName (term_call e tc) = deviceName tc"
  "tc_calls (term_call e tc) = tc_calls tc @ [e]"
  by (simp_all add: term_call_def)

lemma term_ok_init: "term_ok term_init"
  using settings_init by (simp add: term_ok_def term_init_def)

lemma closeDevice_fd [simp]: "tc_fd (closeDevice tc) = tc_fd tc"
  by (simp add: closeDevice_def)

lemma term_ok_closeDevice [simp]: "term_ok (closeDevice tc) = term_ok tc"
  by (simp add: closeDevice_def)

lemma term_ok_sent: "term_ok tc \<Longrightarrow> term_ok (sentTerm n tc)"
  by (induction n arbitrary: tc) (simp_all add: pattern_def)

lemma term_ok_dumbTerm1: "term_ok tc \<Longrightarrow> term_ok (keyed_state (dumbTerm1 ks tc))"
  by (induction ks tc rule: dumbTerm1.induct) simp_all

lemma term_ok_dumbTerm2: "term_ok tc \<Longrightarrow> term_ok (keyed_state (dumbTerm2 env ks tc))"
  by (induction env ks tc rule: dumbTerm2.induct) (simp_all add: term_ok_sent)

lemma term_ok_sendPattern: "term_ok tc \<Longrightarrow> term_ok (keyed_state (sendPattern env ks tc))"
proof (induction env ks tc rule: sendPattern.induct)
  case (1 env ks tc)
  have "term_ok (keyed_state (dumbTerm2 env ks1 (tc\<lparr>tc_mode_flag := MF_PATTERNMODE\<rparr>)))" for ks1
    using 1(2) by (intro term_ok_dumbTerm2) simp
  then have "(dumbTerm2 env ks1 (tc\<lparr>tc_mode_flag := MF_PATTERNMODE\<rparr>) = Done y ks2 \<longrightarrow> term_ok y)
      \<and> (dumbTerm2 env ks1 (tc\<lparr>tc_mode_flag := MF_PATTERNMODE\<rparr>) = Waits y \<longrightarrow> term_ok y)" for y ks1 ks2
    by (metis keyed_state.simps)
  then show ?case using 1
    by (subst sendPattern.simps) (auto split: keyed.split)
qed

lemma trim_name_length: "length (trim_name i h name path) = length path"
  by (induction i h name path rule: trim_name.induct) simp_all

lemma term_ok_openDevice:
  assumes "term_ok tc"
  shows "term_ok (snd (keyed_state (openDevice env ks tc)))"
proof -
  have "call_ok (SetAttr fd (tc_cflag tc) (tc_iflag tc))" for fd
    using assms settings_sane [of tc] by (simp add: term_ok_def)
  moreover have "length (device_path (deviceName tc)) = 15" by (simp add: device_path_def trim_name_length)
  moreover have "tc_cflag (closeDevice t) = tc_cflag t" "tc_iflag (closeDevice t) = tc_iflag t" for t by (simp_all add: closeDevice_def)
  ultimately show ?thesis
    using assms by (auto simp: openDevice_def printErrMsg_def termioConfSetup_def Let_def split: list.split)
qed

lemma term_ok_comm_key: "term_ok tc \<Longrightarrow> term_ok (comm_key ch tc)"
  using settings_comm_key [of tc ch] by (simp add: term_ok_def comm_key_def Let_def)

lemma term_ok_flow_key: "term_ok tc \<Longrightarrow> term_ok (flow_key tc)"
  using settings_flow_key [of tc] by (simp add: term_ok_def flow_key_def Let_def)

lemma keyed_state_map: "keyed_state (map_keyed f r) = f (keyed_state r)"
  by (cases r) simp_all

lemma term_ok_serialPortSetup:
  "term_ok tc \<Longrightarrow> \<exists>r. serialPortSetup ks tc = Some r \<and> term_ok (keyed_state r)"
proof (induction ks tc rule: serialPortSetup.induct)
  case (2 ch ks tc)
  have comm: "term_ok (keyed_state (commPamSetup ks t))" if "term_ok t" for t ks
    using that by (induction ks t rule: commPamSetup.induct) (simp_all add: term_ok_comm_key)
  obtain q where q: "scan_keys ks (31, deviceName tc) = Some q" "name_ok (keyed_state q)"
    using scan_keys_ok [of "(31, deviceName tc)" ks] 2(5) by (auto simp: name_ok_def term_ok_def)
  let ?r = "map_keyed (\<lambda>(x, name). tc\<lparr>deviceName := name\<rparr>) q"
  have scan: "scanDeviceName ks tc = Some ?r" "term_ok (keyed_state ?r)"
    using q 2(5) by (auto simp: scanDeviceName_def keyed_state_map name_ok_def term_ok_def split: prod.splits)
  show ?case
  proof (cases "letter ch = 97")
    case True
    then show ?thesis using 2(1) scan by (cases ?r) auto
  next
    case False
    note nscan = this
    show ?thesis
    proof (cases "letter ch = 98")
      case True
      then show ?thesis using 2(2) nscan comm [OF 2(5), of ks] by (cases "commPamSetup ks tc") auto
    next
      case False
      then show ?thesis using 2(3-5) nscan term_ok_flow_key [OF 2(5)] by auto
    qed
  qed
qed simp

lemma term_ok_run_choice: "term_ok tc \<Longrightarrow> \<exists>r. run_choice env choice ks tc = Some r \<and> term_ok (keyed_state r)"
  using term_ok_openDevice [of tc env ks] term_ok_serialPortSetup [of tc ks]
  by (auto simp: run_choice_def split: keyed.splits prod.splits intro!: term_ok_dumbTerm1 term_ok_sendPattern)

lemma term_ok_mainFunction: "term_ok tc \<Longrightarrow> \<exists>r. mainFunction env select ks tc = Some r \<and> term_ok (keyed_state r)"
proof (induction env select ks tc rule: mainFunction.induct)
  case (1 env select ks tc)
  show ?case
  proof (cases "printMainMenu select ks")
    case (Waits h)
    then show ?thesis using 1(2) by (simp add: mainFunction.simps)
  next
    case (Done choice ks1)
    obtain r where r: "run_choice env choice ks1 tc = Some r" "term_ok (keyed_state r)" using term_ok_run_choice [OF 1(2)] by blast
    then show ?thesis
      using 1 Done by (cases r) (simp_all add: mainFunction.simps [of env select ks tc])
  qed
qed

section \<open>What is received\<close>

datatype draw = Put int int string | Erase | Box

definition hex_digit :: "nat \<Rightarrow> char" where
  "hex_digit n = (if n < 10 then char_of (48 + n) else char_of (87 + n))"

text \<open>\<^verbatim>\<open>%2x\<close>, padded with a blank.\<close>

definition hex2 :: "u8 \<Rightarrow> string" where
  "hex2 b = [if unat b < 16 then CHR '' '' else hex_digit (unat b div 16), hex_digit (unat b mod 16)]"

text \<open>One byte in each of the three modes: what it draws and where the cursor goes, column first.\<close>

definition next_row :: "draw list \<Rightarrow> int \<Rightarrow> (int \<times> int) \<times> draw list" where
  "next_row page curY = (if curY + 1 > WIN_DUMB_H - 2 then ((1, 1), page) else ((1, curY + 1), []))"

definition show_char :: "draw list \<Rightarrow> u8 \<Rightarrow> int \<times> int \<Rightarrow> (int \<times> int) \<times> draw list" where
  "show_char page b = (\<lambda>(curX, curY).
     (let (cur, ds) = (if curX > WIN_DUMB_W - 3 then next_row page curY else ((curX + 1, curY), []))
      in (cur, Put curY curX [char_of (unat b)] # ds)))"

definition show_hex :: "u8 \<Rightarrow> int \<times> int \<Rightarrow> (int \<times> int) \<times> draw list" where
  "show_hex b = (\<lambda>(curX, curY).
     (let (cur, ds) = (if curX > WIN_DUMB_W - 4 then next_row [Erase, Box] curY else ((curX + 2, curY), []))
      in (cur, Put curY curX (hex2 b) # ds)))"

definition show_byte :: "u32 \<Rightarrow> u8 \<Rightarrow> int \<times> int \<Rightarrow> (int \<times> int) \<times> draw list" where
  "show_byte mode b cur =
    (if has mode MF_PATTERNMODE then show_char [Box] b cur
     else if has mode MF_ASCIIMODE then show_char [Erase, Box] b cur
     else if has mode MF_HEXMODE then show_hex b cur
     else (cur, []))"

fun show_bytes :: "u32 \<Rightarrow> u8 list \<Rightarrow> int \<times> int \<Rightarrow> (int \<times> int) \<times> draw list" where
  "show_bytes mode [] cur = (cur, [])"
| "show_bytes mode (b # bs) cur =
    (let (cur1, ds) = show_byte mode b cur; (cur2, ds') = show_bytes mode bs cur1 in (cur2, ds @ ds'))"

text \<open>The reads of the thread until it is cancelled; an empty one is a \<^verbatim>\<open>read\<close> that gave nothing or failed.\<close>

fun read_chunks :: "u32 \<Rightarrow> u8 list list \<Rightarrow> int \<times> int \<Rightarrow> (int \<times> int) \<times> draw list" where
  "read_chunks mode [] cur = (cur, [])"
| "read_chunks mode (bs # bss) cur =
    (let (cur1, ds) = show_bytes mode bs cur; (cur2, ds') = read_chunks mode bss cur1 in (cur2, ds @ ds'))"

definition readTerm :: "u32 \<Rightarrow> u8 list list \<Rightarrow> (int \<times> int) \<times> draw list" where
  "readTerm mode bss = (let (cur, ds) = read_chunks mode bss (1, 1) in (cur, Box # ds))"

subsection \<open>The window is filled row by row\<close>

definition shown_hex :: "u32 \<Rightarrow> bool" where
  "shown_hex mode \<longleftrightarrow> \<not> has mode MF_PATTERNMODE \<and> \<not> has mode MF_ASCIIMODE"

definition per_row :: "u32 \<Rightarrow> nat" where
  "per_row mode = (if shown_hex mode then 39 else 78)"

definition cursor_at :: "u32 \<Rightarrow> nat \<Rightarrow> int \<times> int" where
  "cursor_at mode k = (1 + int ((78 div per_row mode) * (k mod per_row mode)), 1 + int (k div per_row mode mod 17))"

definition cell_text :: "u32 \<Rightarrow> u8 \<Rightarrow> string" where
  "cell_text mode b = (if shown_hex mode then hex2 b else [char_of (unat b)])"

definition puts_of :: "draw list \<Rightarrow> (int \<times> int \<times> string) list" where
  "puts_of = List.map_filter (\<lambda>d. case d of Put y x t \<Rightarrow> Some (x, y, t) | _ \<Rightarrow> None)"

lemma puts_of_simps [simp]:
  "puts_of [] = []" "puts_of (Put y x t # ds) = (x, y, t) # puts_of ds" "puts_of (Erase # ds) = puts_of ds"
  "puts_of (Box # ds) = puts_of ds" "puts_of (ds @ ds') = puts_of ds @ puts_of ds'"
  by (simp_all add: puts_of_def)

lemma cursor_Suc:
  fixes mode k
  defines "c \<equiv> k mod per_row mode" and "r \<equiv> k div per_row mode mod 17"
  shows "cursor_at mode (Suc k) =
    (if Suc c = per_row mode then (1, if r = 16 then 1 else 2 + int r)
     else (1 + int (78 div per_row mode) + int ((78 div per_row mode) * c), 1 + int r))"
  by (simp add: cursor_at_def c_def r_def mod_Suc div_Suc algebra_simps)

lemma show_char_at:
  assumes "\<not> shown_hex mode" and "puts_of page = []"
  shows "fst (show_char page b (cursor_at mode k)) = cursor_at mode (Suc k)"
    "puts_of (snd (show_char page b (cursor_at mode k))) = [(fst (cursor_at mode k), snd (cursor_at mode k), cell_text mode b)]"
proof -
  have n: "per_row mode = 78" using assms(1) by (simp add: per_row_def)
  have "k mod 78 < 78" "k div 78 mod 17 < 17" by simp_all
  then have "1 + int (k mod 78) > 77 \<longleftrightarrow> Suc (k mod 78) = 78" "1 + int (k div 78 mod 17) + 1 > 17 \<longleftrightarrow> k div 78 mod 17 = 16"
    by linarith+
  then show "fst (show_char page b (cursor_at mode k)) = cursor_at mode (Suc k)"
    "puts_of (snd (show_char page b (cursor_at mode k))) = [(fst (cursor_at mode k), snd (cursor_at mode k), cell_text mode b)]"
    unfolding cursor_Suc using assms n
    by (simp_all add: show_char_def cursor_at_def next_row_def cell_text_def)
qed

lemma show_hex_at:
  assumes "shown_hex mode"
  shows "fst (show_hex b (cursor_at mode k)) = cursor_at mode (Suc k)"
    "puts_of (snd (show_hex b (cursor_at mode k))) = [(fst (cursor_at mode k), snd (cursor_at mode k), cell_text mode b)]"
proof -
  have n: "per_row mode = 39" using assms(1) by (simp add: per_row_def)
  have "k mod 39 < 39" "k div 39 mod 17 < 17" by simp_all
  then have "1 + int (2 * (k mod 39)) > 76 \<longleftrightarrow> Suc (k mod 39) = 39" "1 + int (k div 39 mod 17) + 1 > 17 \<longleftrightarrow> k div 39 mod 17 = 16"
    by linarith+
  then show "fst (show_hex b (cursor_at mode k)) = cursor_at mode (Suc k)"
    "puts_of (snd (show_hex b (cursor_at mode k))) = [(fst (cursor_at mode k), snd (cursor_at mode k), cell_text mode b)]"
    unfolding cursor_Suc using assms n
    by (simp_all add: show_hex_def cursor_at_def next_row_def cell_text_def)
qed

definition terminal_mode :: "u32 \<Rightarrow> bool" where
  "terminal_mode mode \<longleftrightarrow> has mode MF_PATTERNMODE \<or> has mode MF_ASCIIMODE \<or> has mode MF_HEXMODE"

lemma show_byte_at:
  assumes "terminal_mode mode"
  shows "fst (show_byte mode b (cursor_at mode k)) = cursor_at mode (Suc k)"
    "puts_of (snd (show_byte mode b (cursor_at mode k))) = [(fst (cursor_at mode k), snd (cursor_at mode k), cell_text mode b)]"
  using assms show_char_at [of mode "[Box]"] show_char_at [of mode "[Erase, Box]"] show_hex_at [of mode]
  by (auto simp: show_byte_def terminal_mode_def shown_hex_def)

definition cells :: "u32 \<Rightarrow> nat \<Rightarrow> u8 list \<Rightarrow> (int \<times> int \<times> string) list" where
  "cells mode k bs = map (\<lambda>i. (fst (cursor_at mode (k + i)), snd (cursor_at mode (k + i)), cell_text mode (bs ! i))) [0..<length bs]"

lemma cells_Cons:
  "cells mode k (b # bs) = (fst (cursor_at mode k), snd (cursor_at mode k), cell_text mode b) # cells mode (Suc k) bs"
  by (simp add: cells_def upt_conv_Cons map_Suc_upt [symmetric] o_def del: upt_Suc)

lemma cells_append: "cells mode k (bs @ bs') = cells mode k bs @ cells mode (k + length bs) bs'"
  by (induction bs arbitrary: k) (simp_all add: cells_Cons, simp add: cells_def)

lemma show_bytes_at:
  assumes "terminal_mode mode"
  shows "fst (show_bytes mode bs (cursor_at mode k)) = cursor_at mode (k + length bs)
    \<and> puts_of (snd (show_bytes mode bs (cursor_at mode k))) = cells mode k bs"
proof (induction bs arbitrary: k)
  case Nil
  then show ?case by (simp add: cells_def)
next
  case (Cons b bs)
  then show ?case using Cons.IH [of "Suc k"] show_byte_at [OF assms, of b k]
    by (simp add: cells_Cons split_beta Let_def)
qed

lemma read_chunks_at:
  assumes "terminal_mode mode"
  shows "fst (read_chunks mode bss (cursor_at mode k)) = cursor_at mode (k + length (concat bss))
    \<and> puts_of (snd (read_chunks mode bss (cursor_at mode k))) = cells mode k (concat bss)"
proof (induction bss arbitrary: k)
  case Nil
  then show ?case by (simp add: cells_def)
next
  case (Cons bs bss)
  then show ?case using Cons.IH [of "k + length bs"] show_bytes_at [OF assms, of bs k]
    by (simp add: cells_append split_beta Let_def algebra_simps)
qed

lemma cells_inside:
  assumes "(x, y, t) \<in> set (cells mode k bs)"
  shows "1 \<le> x \<and> x + int (length t) \<le> WIN_DUMB_W - 1 \<and> 1 \<le> y \<and> y \<le> WIN_DUMB_H - 2"
proof -
  obtain j b where j: "x = fst (cursor_at mode j)" "y = snd (cursor_at mode j)" "t = cell_text mode b"
    using assms by (auto simp: cells_def)
  have "j mod 39 < 39" "j mod 78 < 78" "j div per_row mode mod 17 < 17" by simp_all
  then have "int (2 * (j mod 39)) \<le> 76" "int (j mod 78) \<le> 77" "int (j div per_row mode mod 17) \<le> 16" by linarith+
  then show ?thesis
    by (cases "shown_hex mode") (auto simp: j cursor_at_def cell_text_def per_row_def hex2_def)
qed

text \<open>
  C29. The dumb terminal fills its window row by row and never leaves it. For any split of the received
  bytes into reads, in each of the three modes, byte \<open>k\<close> is drawn at column \<open>k mod 78\<close> of row \<open>k div 78 mod 17\<close>, two
  hex digits wide and 39 to a row in hex mode, every text drawn lies within the border of the 80 by 19
  window, and the cursor ends where the next byte goes.
\<close>

theorem received_bytes_fill_window:
  assumes "terminal_mode mode"
  shows "puts_of (snd (readTerm mode bss)) = cells mode 0 (concat bss)
    \<and> fst (readTerm mode bss) = cursor_at mode (length (concat bss))
    \<and> (\<forall>(x, y, t)\<in>set (puts_of (snd (readTerm mode bss))).
         1 \<le> x \<and> x + int (length t) \<le> WIN_DUMB_W - 1 \<and> 1 \<le> y \<and> y \<le> WIN_DUMB_H - 2)"
proof -
  have start: "cursor_at mode 0 = (1, 1)" by (simp add: cursor_at_def)
  have "puts_of (snd (readTerm mode bss)) = cells mode 0 (concat bss)"
    "fst (readTerm mode bss) = cursor_at mode (length (concat bss))"
    using read_chunks_at [OF assms, of bss 0] by (simp_all add: start readTerm_def split_beta Let_def)
  then show ?thesis using cells_inside by fastforce
qed

theorem received_bytes_fill_window_witness:
  "puts_of (snd (readTerm MF_HEXMODE [[0x41], [], [0x0a, 0xff]])) = [(1, 1, ''41''), (3, 1, '' a''), (5, 1, ''ff'')]"
proof -
  have "hex2 0x41 = ''41''" "hex2 0x0a = '' a''" "hex2 0xff = ''ff''" by code_simp+
  then show ?thesis
    using received_bytes_fill_window [of MF_HEXMODE "[[0x41], [], [0x0a, 0xff]]"]
    by (simp add: terminal_mode_def cells_def cursor_at_def per_row_def shown_hex_def cell_text_def upt_conv_Cons)
qed

section \<open>The line runs at the rate on the screen\<close>

definition rates :: "nat list" where
  "rates = [300, 1200, 2400, 4800, 9600, 19200, 38400, 57600, 115200, 230400, 460800, 921600]"

lemma below_12: "k < 12 \<Longrightarrow> k \<in> {0, 1, 2, 3, 4, 5, 6, 7, 8, 9, 10, 11 :: nat}"
  by (simp, presburger)

lemma shown_rates:
  assumes "k < 12"
  shows "decimal 0 (baudTable ! Suc k) = rates ! k" "map_of baud_table (baud_codes ! k) = Some (word_of_nat (rates ! k))"
  using below_12 [OF assms] by (auto simp: baudTable_def rates_def baud_codes_def baud_table_def)

lemma rates_divide: "k < 12 \<Longrightarrow> rates ! k * (14745600 div (16 * rates ! k)) = 921600 \<and> rates ! k < 2 ^ 32 \<and> 0 < rates ! k"
  by (drule below_12) (auto simp: rates_def)

lemma shown_frame:
  assumes "settings_shown tc"
  shows "termios_lcr (tc_cflag tc) = word_of_nat (databitSelect tc) OR (if stopbitSelect tc = 1 then 0x04 else 0)
    OR (if paritySelect tc = 0 then 0 else UART_LCR_PARITY) OR (if paritySelect tc = 2 then 0 else UART_LCR_EPAR)"
proof -
  have "c AND PARODD = (c AND (PARENB OR PARODD)) AND PARODD" "c AND PARENB = (c AND (PARENB OR PARODD)) AND PARENB" for c :: u32
    by (simp_all add: and.assoc)
  note par = this [of "tc_cflag tc"]
  have "databitSelect tc \<in> {0, 1, 2, 3}" "paritySelect tc \<in> {0, 1, 2}" "stopbitSelect tc \<in> {0, 1}"
    using assms by (auto simp: settings_shown_def)
  then show ?thesis using assms par
    by (auto simp: settings_shown_def termios_lcr_def or_if_def)
qed

text \<open>
  C27. What the terminal program shows is what the line does. For any keys pressed, whatever the settings then
  are, handing them to a line of a standard board makes the driver latch a divisor that, times the rate
  printed on the screen, is exactly the board's base rate of 921600, and the frame byte carries the data
  bits, the stop bit and the parity on the screen.
\<close>

theorem shown_settings_reach_line:
  assumes "serialPortSetup ks term_init = Some r" and "tc = keyed_state r"
    and "sp_uartclk sp = 921600 * 16" and "sp_iobase sp \<noteq> 0" and "\<not> has (sp_flags sp) SNX_UPF_MAGIC_MULTIPLIER"
    and "sp_flags sp AND SNX_UPF_SPD_MASK = 0" and "sp_setserial_flag sp \<noteq> SNX_SER_BAUD_SETSERIAL"
  shows "\<exists>sp' m' lo hi fcr mcr. sunix_ser_set_termios HZ sp \<lparr>tm_cflag = tc_cflag tc, tm_iflag = tc_iflag tc\<rparr> old m
        = Some (\<lparr>tm_cflag = tc_cflag tc, tm_iflag = tc_iflag tc\<rparr>, sp', m')
     \<and> trace m' = trace m @ [Out (uart_addr sp UART_LCR) (sp_lcr sp' OR UART_LCR_DLAB), Out (uart_addr sp UART_DLL) lo,
          Out (uart_addr sp UART_DLM) hi, Out (uart_addr sp UART_FCR) fcr, Out (uart_addr sp UART_LCR) (sp_lcr sp'),
          Out (uart_addr sp UART_MCR) mcr, Out (uart_addr sp UART_IER) (sp_ier sp')]
     \<and> shown_rate tc * (unat lo + 256 * unat hi) = 921600
     \<and> sp_lcr sp' = word_of_nat (databitSelect tc) OR (if stopbitSelect tc = 1 then 0x04 else 0)
          OR (if paritySelect tc = 0 then 0 else UART_LCR_PARITY) OR (if paritySelect tc = 2 then 0 else UART_LCR_EPAR)"
proof -
  let ?tm = "\<lparr>tm_cflag = tc_cflag tc, tm_iflag = tc_iflag tc\<rparr>"
  have shown: "settings_shown tc"
    using term_ok_serialPortSetup [OF term_ok_init, of ks] assms(1,2) by (auto simp: term_ok_def)
  then obtain k where k: "k < 12" "baudrateSelect tc = Suc k" "tc_cflag tc AND (CBAUD OR CBAUDEX) = baud_codes ! k"
    by (auto simp: settings_shown_def)
  note rate = shown_rates [OF k(1)] rates_divide [OF k(1)]
  have word: "unat (word_of_nat (rates ! k) :: u32) = rates ! k"
    using rate(3) by (simp add: unsigned_of_nat take_bit_nat_eq_self)
  then have "(word_of_nat (rates ! k) :: u32) \<noteq> 0" using rate(3) by (metis less_irrefl unsigned_0)
  then have baud: "unat (try_baud sp (tm_cflag ?tm)) = rates ! k"
    using rate(2) k(3) assms(6,7) word by (simp add: try_baud_def cflag_baud_def)
  obtain sp' m' quot where s: "sunix_ser_set_termios HZ sp ?tm old m = Some (?tm, sp', m')"
     "trace m' = trace m @ [Out (uart_addr sp UART_LCR) (termios_lcr (tm_cflag ?tm) OR UART_LCR_DLAB),
          Out (uart_addr sp UART_DLL) (ucast (quot AND 0xff)), Out (uart_addr sp UART_DLM) (ucast (drop_bit 8 quot)),
          Out (uart_addr sp UART_FCR) (termios_fcr sp (try_baud sp (tm_cflag ?tm))),
          Out (uart_addr sp UART_LCR) (termios_lcr (tm_cflag ?tm)),
          Out (uart_addr sp UART_MCR) (mctrl_bits sp' (sp_mctrl sp)), Out (uart_addr sp UART_IER) (sp_ier sp')]"
     "quot = 14745600 div (16 * try_baud sp (tm_cflag ?tm))" "sp_lcr sp' = termios_lcr (tm_cflag ?tm)"
    using set_termios_result [OF assms(3-6), of HZ ?tm old m] by blast
  have "unat quot = 14745600 div (16 * rates ! k)" "unat quot < 65536"
    using divisor_range [of sp "tm_cflag ?tm"] unfolding s(3) baud by simp_all
  then have "shown_rate tc * (unat (ucast (quot AND 0xff) :: u8) + 256 * unat (ucast (drop_bit 8 quot) :: u8)) = 921600"
    using latch_bytes [of quot] rate k(2) by (simp add: shown_rate_def)
  then show ?thesis using s(1,2,4) shown_frame [OF shown] by (intro exI conjI) auto
qed

theorem shown_settings_reach_line_witness:
  "\<exists>tc sp' m' lo hi. serialPortSetup [98, 105, 110, 10, 10] term_init = Some (Done tc [])
     \<and> sunix_ser_set_termios 250 example_uart \<lparr>tm_cflag = tc_cflag tc, tm_iflag = tc_iflag tc\<rparr> None idle_machine
        = Some (\<lparr>tm_cflag = tc_cflag tc, tm_iflag = tc_iflag tc\<rparr>, sp', m')
     \<and> shown_rate tc * (unat (lo :: u8) + 256 * unat (hi :: u8)) = 921600 \<and> sp_lcr sp' = 0x1b"
proof -
  let ?tc = "comm_key 110 (comm_key 105 term_init)"
  have r: "serialPortSetup [98, 105, 110, 10, 10] term_init = Some (Done ?tc [])"
    by (simp add: letter_def)
  have sel: "databitSelect ?tc = 3" "stopbitSelect ?tc = 0" "paritySelect ?tc = 1"
    by (simp_all add: comm_key_def letter_def term_init_def)
  from shown_settings_reach_line [OF r refl, of example_uart 250 None idle_machine] sel r show ?thesis
    by (auto simp: example_uart_def zero_ser_port_def)
qed

section \<open>Runs of the program\<close>

text \<open>
  C28. Whatever keys are pressed and whatever the system answers, the program goes on without storing outside the
  15 bytes of the device name, its selections index the tables on the screen and agree with the termios it
  keeps, and every \<^verbatim>\<open>tcsetattr\<close> it makes asks for one of the twelve rates, with the receiver on, no odd parity
  without parity, and not both flow controls.
\<close>

theorem terminal_run_consistent:
  "\<exists>r. snxterm_main env ks = Some r \<and> settings_shown (keyed_state r) \<and> length (deviceName (keyed_state r)) = 15
    \<and> list_all call_ok (tc_calls (keyed_state r))"
proof -
  obtain r where r: "mainFunction env 1 ks term_init = Some r" "term_ok (keyed_state r)"
    using term_ok_mainFunction [OF term_ok_init] by blast
  then have "term_ok (keyed_state (case r of Waits tc \<Rightarrow> Waits tc | Done tc ks' \<Rightarrow> Done (closeDevice tc) ks'))"
    by (cases r) simp_all
  then show ?thesis using r(1)
    by (cases r) (auto simp: snxterm_main_def term_ok_def list_all_iff)
qed

text \<open>\<open>Esc\<close> in the main menu after the device was opened.\<close>

lemma mainFunction_exits:
  "mainFunction env select ks tc = Some (Done tc' ks') \<Longrightarrow> \<exists>tc0. tc' = closeDevice tc0"
proof (induction env select ks tc rule: mainFunction.induct)
  case (1 env select ks tc)
  then show ?case
    by (subst (asm) (2) mainFunction.simps) (auto split: keyed.splits option.splits if_splits)
qed

text \<open>
  The program closes its device twice. When it ends with a descriptor it has opened, its last calls flush
  and close the descriptor and then flush and close it again, whoever owns the number by then.
\<close>

theorem exit_closes_device_twice:
  assumes "snxterm_main env ks = Some (Done tc ks')" and "tc_fd tc > 0"
  shows "\<exists>calls. tc_calls tc = calls @ [TcFlush (tc_fd tc), CloseFd (tc_fd tc), TcFlush (tc_fd tc), CloseFd (tc_fd tc)]"
proof -
  obtain tc1 where "mainFunction env 1 ks term_init = Some (Done tc1 ks')" "tc = closeDevice tc1"
    using assms(1) by (auto simp: snxterm_main_def split: option.splits keyed.splits)
  then obtain tc0 where tc: "tc = closeDevice (closeDevice tc0)" using mainFunction_exits by blast
  then have "tc_fd tc0 > 0" using assms(2) by simp
  then show ?thesis by (simp add: tc closeDevice_def)
qed

text \<open>\<open>Enter\<close> on the second item opens the device, Ctrl-N leaves the terminal, \<open>Esc\<close> ends.\<close>

definition term_env_ok :: term_env where
  "term_env_ok = \<lparr>te_open = (\<lambda>_ _. 3), te_sent = (\<lambda>_. 0)\<rparr>"

theorem exit_closes_device_twice_witness:
  "\<exists>tc calls. snxterm_main term_env_ok [258, 10, 65, 14, 27] = Some (Done tc [])
    \<and> tc_calls tc = calls @ [TcFlush 3, CloseFd 3, TcFlush 3, CloseFd 3]"
proof -
  have k: "sint (key_byte 65) = 65" "sint (key_byte 14) = 14" by code_simp+
  obtain tc where r: "snxterm_main term_env_ok [258, 10, 65, 14, 27] = Some (Done tc [])" "tc_fd tc = 3"
    by (simp add: snxterm_main_def mainFunction.simps run_choice_def openDevice_def term_env_ok_def Let_def k
        termioConfSetup_def closeDevice_def term_init_def)
  then show ?thesis using exit_closes_device_twice [OF r(1)] by auto
qed

section \<open>The path that is opened\<close>

definition strip :: "string \<Rightarrow> string" where
  "strip name = rev (dropWhile (\<lambda>c. c = CHR '' '') (rev name))"

lemma trim_name_True: "i \<le> length path \<Longrightarrow> length name = length path \<Longrightarrow> trim_name i True name path = take i name @ drop i path"
proof (induction i arbitrary: path)
  case (Suc i)
  then have "trim_name (Suc i) True name path = take i name @ drop i (path[i := name ! i])" by simp
  also have "drop i (path[i := name ! i]) = name ! i # drop (Suc i) path"
    using Suc.prems Cons_nth_drop_Suc [of i "path[i := name ! i]"] by simp
  finally show ?case using Suc.prems by (simp add: take_Suc_conv_app_nth)
qed simp

lemma trim_name_False:
  assumes "i \<le> length name"
  shows "trim_name i False name (replicate (length name) z) = strip (take i name) @ replicate (length name - length (strip (take i name))) z"
  using assms
proof (induction i)
  case 0
  then show ?case by (simp add: strip_def)
next
  case (Suc i)
  then have tk: "take (Suc i) name = take i name @ [name ! i]" by (simp add: take_Suc_conv_app_nth)
  show ?case
  proof (cases "name ! i = CHR '' ''")
    case True
    then show ?thesis using Suc by (simp add: tk strip_def)
  next
    case False
    let ?path = "(replicate (length name) z)[i := name ! i]"
    have "drop i ?path = name ! i # replicate (length name - Suc i) z"
      using Suc.prems Cons_nth_drop_Suc [of i ?path] by simp
    then show ?thesis
      using False Suc.prems trim_name_True [of i ?path name] by (simp add: tk strip_def min_def)
  qed
qed

text \<open>
  The path handed to \<^verbatim>\<open>open\<close> is the name on the screen without its trailing blanks when the name leaves
  at least one of the 15 bytes blank at the end; a name that fills them all is handed over without a
  terminator, and \<^verbatim>\<open>open\<close> reads past the array.
\<close>

theorem device_path_is_name:
  assumes "length name = 15" and "CHR 0x00 \<notin> set name"
  shows "c_string (device_path name) = (if last name = CHR '' '' then Some (strip name) else None)"
proof -
  have path: "device_path name = strip name @ replicate (15 - length (strip name)) (CHR 0x00)"
    using trim_name_False [of 15 name "CHR 0x00"] assms(1) by (simp add: device_path_def)
  have name: "name = butlast name @ [last name]" using assms(1) by (metis append_butlast_last_id list.size(3) zero_neq_numeral)
  have sub: "set (strip name) \<subseteq> set name" using set_dropWhileD [of _ _ "rev name"] by (auto simp: strip_def)
  show ?thesis
  proof (cases "last name = CHR '' ''")
    case True
    then have "strip name = strip (butlast name)" by (subst name) (simp add: strip_def)
    moreover have "length (strip (butlast name)) \<le> 14"
      using length_dropWhile_le [of _ "rev (butlast name)"] assms(1) by (simp add: strip_def)
    ultimately have "length (strip name) < 15" by simp
    moreover have "takeWhile (\<lambda>c. c \<noteq> CHR 0x00) (strip name @ replicate n (CHR 0x00)) = strip name" for n
      using sub assms(2) by (subst takeWhile_append2, blast, cases n) simp_all
    ultimately show ?thesis using True by (simp add: path c_string_def)
  next
    case False
    then have "strip name = name" by (subst name, subst (2) name) (simp add: strip_def)
    then show ?thesis using False assms by (simp add: path c_string_def)
  qed
qed

theorem device_path_is_name_witness:
  "c_string (device_path ''/dev/ttyS0     '') = Some ''/dev/ttyS0'' \<and> c_string (device_path ''/dev/ttySNX1234'') = None"
  using device_path_is_name [of "''/dev/ttyS0     ''"] device_path_is_name [of "''/dev/ttySNX1234''"]
  by (simp add: strip_def)

end
