(* ===== verification/Snx_Proc.thy ===== *)
theory Snx_Proc
  imports Snx_Prelude
begin

text \<open>
  The proc files of the parallel ports (driver/procfs.c): what each file shows, in the buffer it is printed
  into, and how the tables are built, registered and taken down. The structs are the kernel's, and only the
  fields the file reads are here; \<open>None\<close> is a store outside a buffer.
\<close>

section \<open>The files\<close>

record parport =
  kp_base :: u64
  kp_base_hi :: u64
  kp_irq :: "32 word"
  kp_dma :: "32 word"
  kp_modes :: u32
  kp_devices :: "(nat \<times> string) list"
  kp_cad :: "nat option"

record probe_info =
  pi_class_name :: "string option"
  pi_model :: "string option"
  pi_mfr :: "string option"
  pi_description :: "string option"
  pi_cmdset :: "string option"

text \<open>A call: is it a write, the size of the reader's buffer, and the position. An answer: status, bytes, size, position.\<close>

type_synonym answer = "int \<times> string \<times> nat \<times> nat"

subsection \<open>Printing\<close>

fun digits :: "nat \<Rightarrow> string" where
  "digits n = (if n < 10 then [char_of (48 + n)] else digits (n div 10) @ [char_of (48 + n mod 10)])"

declare digits.simps [simp del]

definition show_int :: "int \<Rightarrow> string" where
  "show_int i = (if i < 0 then CHR ''-'' # digits (nat (- i)) else digits (nat i))"

definition newline :: string where
  "newline = [CHR 0x0A]"

text \<open>\<^verbatim>\<open>sprintf(buffer + len, ...)\<close> stores the text and a terminator into the \<open>n\<close> bytes of the buffer.\<close>

definition sprintf :: "nat \<Rightarrow> string \<Rightarrow> string \<Rightarrow> string option" where
  "sprintf n txt buf = (if length buf + length txt < n then Some (buf @ txt) else None)"

text \<open>The end of every handler.\<close>

definition copy_out :: "nat \<Rightarrow> nat \<Rightarrow> string \<Rightarrow> answer" where
  "copy_out lenp ppos buf = (let len = min (length buf) lenp in (0, take len buf, len, ppos + len))"

definition at_end :: "nat \<Rightarrow> answer" where
  "at_end ppos = (0, [], 0, ppos)"

definition refused :: "nat \<Rightarrow> nat \<Rightarrow> answer" where
  "refused lenp ppos = (- EACCES, [], lenp, ppos)"

subsection \<open>The handlers\<close>

text \<open>The name goes to the start of the buffer; a device is in the list once.\<close>

fun active_text :: "nat option \<Rightarrow> (nat \<times> string) list \<Rightarrow> string \<Rightarrow> string option" where
  "active_text cad [] buf = Some buf"
| "active_text cad ((d, name) # ds) buf =
    (if cad = Some d then Option.bind (sprintf 256 (name @ newline) []) (active_text cad ds) else active_text cad ds buf)"

definition do_active_device :: "parport \<Rightarrow> bool \<Rightarrow> nat \<Rightarrow> nat \<Rightarrow> answer option" where
  "do_active_device port write lenp ppos =
    (if write then Some (refused lenp ppos)
     else if ppos \<noteq> 0 then Some (at_end ppos)
     else map_option (copy_out lenp ppos)
            (Option.bind (active_text (kp_cad port) (kp_devices port) [])
              (\<lambda>buf. if buf = [] then sprintf 256 (''none'' @ newline) [] else Some buf)))"

definition probe_line :: "string \<Rightarrow> string option \<Rightarrow> string \<Rightarrow> string option" where
  "probe_line key str buf = (case str of None \<Rightarrow> Some buf | Some s \<Rightarrow> sprintf 256 (key @ '':'' @ s @ '';'' @ newline) buf)"

definition do_autoprobe :: "probe_info \<Rightarrow> bool \<Rightarrow> nat \<Rightarrow> nat \<Rightarrow> answer option" where
  "do_autoprobe info write lenp ppos =
    (if write then Some (refused lenp ppos)
     else if ppos \<noteq> 0 then Some (at_end ppos)
     else map_option (copy_out lenp ppos)
            (Option.bind (probe_line ''CLASS'' (pi_class_name info) [])
              (\<lambda>b. Option.bind (probe_line ''MODEL'' (pi_model info) b)
                (\<lambda>b. Option.bind (probe_line ''MANUFACTURER'' (pi_mfr info) b)
                  (\<lambda>b. Option.bind (probe_line ''DESCRIPTION'' (pi_description info) b)
                    (probe_line ''COMMAND SET'' (pi_cmdset info)))))))"

definition do_hardware_base_addr :: "parport \<Rightarrow> bool \<Rightarrow> nat \<Rightarrow> nat \<Rightarrow> answer option" where
  "do_hardware_base_addr port write lenp ppos =
    (if ppos \<noteq> 0 then Some (at_end ppos)
     else if write then Some (refused lenp ppos)
     else map_option (copy_out lenp ppos)
            (sprintf 20 (digits (unat (kp_base port)) @ [CHR 0x09] @ digits (unat (kp_base_hi port)) @ newline) []))"

definition do_hardware_irq :: "parport \<Rightarrow> bool \<Rightarrow> nat \<Rightarrow> nat \<Rightarrow> answer option" where
  "do_hardware_irq port write lenp ppos =
    (if ppos \<noteq> 0 then Some (at_end ppos)
     else if write then Some (refused lenp ppos)
     else map_option (copy_out lenp ppos) (sprintf 20 (show_int (sint (kp_irq port)) @ newline) []))"

definition do_hardware_dma :: "parport \<Rightarrow> bool \<Rightarrow> nat \<Rightarrow> nat \<Rightarrow> answer option" where
  "do_hardware_dma port write lenp ppos =
    (if ppos \<noteq> 0 then Some (at_end ppos)
     else if write then Some (refused lenp ppos)
     else map_option (copy_out lenp ppos) (sprintf 20 (show_int (sint (kp_dma port)) @ newline) []))"

text \<open>\<open>printmode\<close>, with \<open>f\<close> the number of modes printed before; the flags are those of the kernel's linux/parport.h.\<close>

definition mode_flags :: "(u32 \<times> string) list" where
  "mode_flags = [(1, ''PCSPP''), (2, ''TRISTATE''), (16, ''COMPAT''), (4, ''EPP''), (8, ''ECP''), (32, ''DMA'')]"

fun printmodes :: "u32 \<Rightarrow> (u32 \<times> string) list \<Rightarrow> nat \<Rightarrow> string \<Rightarrow> string option" where
  "printmodes modes [] f buf = Some buf"
| "printmodes modes ((flag, name) # fs) f buf =
    (if modes AND flag \<noteq> 0
     then Option.bind (sprintf 40 ((if f \<noteq> 0 then '','' else []) @ name) buf) (printmodes modes fs (Suc f))
     else printmodes modes fs f buf)"

definition do_hardware_modes :: "parport \<Rightarrow> bool \<Rightarrow> nat \<Rightarrow> nat \<Rightarrow> answer option" where
  "do_hardware_modes port write lenp ppos =
    (if ppos \<noteq> 0 then Some (at_end ppos)
     else if write then Some (refused lenp ppos)
     else map_option (copy_out lenp ppos)
            (Option.bind (printmodes (kp_modes port) mode_flags 0 [])
              (\<lambda>buf. if length buf < 40 then Some (buf @ newline) else None)))"


subsection \<open>The tables\<close>

text \<open>
  An entry of a sysctl table: its name, what its data points at, its mode and handler, its two extra pointers
  and its children. A table ends at the first entry without a name.
\<close>

datatype ctl_ptr = Null | MinTimeslice | MaxTimeslice | MinSpintime | MaxSpintime | ThePort | ProbeInfo nat
  | PortSpintime | DeviceTimeslice | DefaultTimeslice | DefaultSpintime

datatype handler = No_handler | Proc_int_minmax | Proc_ulong_ms_minmax | Hardware_base_addr | Hardware_irq | Hardware_dma
  | Hardware_modes | Autoprobe | Active_device

datatype ctl_table = Ctl (ct_procname: "string option") (ct_data: ctl_ptr) (ct_mode: nat) (ct_handler: handler)
  (ct_extra1: ctl_ptr) (ct_extra2: ctl_ptr) (ct_child: "ctl_table list")

definition ctl_zero :: ctl_table where
  "ctl_zero = Ctl None Null 0 No_handler Null Null []"

definition set_extra1 :: "ctl_ptr \<Rightarrow> ctl_table \<Rightarrow> ctl_table" where
  "set_extra1 p t = Ctl (ct_procname t) (ct_data t) (ct_mode t) (ct_handler t) p (ct_extra2 t) (ct_child t)"

definition set_extra2 :: "ctl_ptr \<Rightarrow> ctl_table \<Rightarrow> ctl_table" where
  "set_extra2 p t = Ctl (ct_procname t) (ct_data t) (ct_mode t) (ct_handler t) (ct_extra1 t) p (ct_child t)"

definition set_data :: "ctl_ptr \<Rightarrow> ctl_table \<Rightarrow> ctl_table" where
  "set_data p t = Ctl (ct_procname t) p (ct_mode t) (ct_handler t) (ct_extra1 t) (ct_extra2 t) (ct_child t)"

definition set_child :: "ctl_table list \<Rightarrow> ctl_table \<Rightarrow> ctl_table" where
  "set_child c t = Ctl (ct_procname t) (ct_data t) (ct_mode t) (ct_handler t) (ct_extra1 t) (ct_extra2 t) c"

definition set_procname :: "string \<Rightarrow> ctl_table \<Rightarrow> ctl_table" where
  "set_procname n t = Ctl (Some n) (ct_data t) (ct_mode t) (ct_handler t) (ct_extra1 t) (ct_extra2 t) (ct_child t)"

definition PARPORT_PORT_DIR :: ctl_table where "PARPORT_PORT_DIR = Ctl None Null 365 No_handler Null Null []"
definition PARPORT_PARPORT_DIR :: ctl_table where "PARPORT_PARPORT_DIR = Ctl (Some ''parport'') Null 365 No_handler Null Null []"
definition PARPORT_DEV_DIR :: ctl_table where "PARPORT_DEV_DIR = Ctl (Some ''dev'') Null 365 No_handler Null Null []"
definition PARPORT_DEVICES_ROOT_DIR :: ctl_table where
  "PARPORT_DEVICES_ROOT_DIR = Ctl (Some ''devices'') Null 365 No_handler Null Null []"

text \<open>Modes 0644 and 0444.\<close>

definition parport_vars :: "ctl_table list" where
  "parport_vars = [Ctl (Some ''spintime'') Null 420 Proc_int_minmax MinSpintime MaxSpintime [],
     Ctl (Some ''base-addr'') Null 292 Hardware_base_addr Null Null [],
     Ctl (Some ''irq'') Null 292 Hardware_irq Null Null [], Ctl (Some ''dma'') Null 292 Hardware_dma Null Null [],
     Ctl (Some ''modes'') Null 292 Hardware_modes Null Null [], PARPORT_DEVICES_ROOT_DIR,
     Ctl (Some ''autoprobe'') Null 292 Autoprobe Null Null [], Ctl (Some ''autoprobe0'') Null 292 Autoprobe Null Null [],
     Ctl (Some ''autoprobe1'') Null 292 Autoprobe Null Null [], Ctl (Some ''autoprobe2'') Null 292 Autoprobe Null Null [],
     Ctl (Some ''autoprobe3'') Null 292 Autoprobe Null Null [], ctl_zero]"

definition parport_device_dir :: "ctl_table list" where
  "parport_device_dir = [Ctl (Some ''active'') Null 292 Active_device Null Null [], ctl_zero]"

definition parport_device_vars :: "ctl_table list" where
  "parport_device_vars = [Ctl (Some ''timeslice'') Null 420 Proc_ulong_ms_minmax MinTimeslice MaxTimeslice [], ctl_zero]"

definition upd :: "nat \<Rightarrow> ('a \<Rightarrow> 'a) \<Rightarrow> 'a list \<Rightarrow> 'a list" where
  "upd i f xs = xs[i := f (xs ! i)]"

text \<open>The assignments of \<open>parport_proc_register\<close>, in their order; \<open>dev_dir\<close> is the result.\<close>

definition port_tables :: "string \<Rightarrow> ctl_table list" where
  "port_tables name =
    (let device_dir = upd 0 (set_extra1 ThePort) parport_device_dir;
         vars1 = fold (\<lambda>i. upd i (set_extra1 ThePort)) [0..<5] parport_vars;
         vars2 = upd 0 (set_data PortSpintime) vars1;
         vars3 = upd 5 (set_child device_dir) vars2;
         vars4 = fold (\<lambda>i. upd (6 + i) (set_extra2 (ProbeInfo i))) [0..<5] vars3;
         port_dir = upd 0 (set_child vars4) (upd 0 (set_procname name) [PARPORT_PORT_DIR, ctl_zero]);
         parport_dir = upd 0 (set_child port_dir) [PARPORT_PARPORT_DIR, ctl_zero]
     in upd 0 (set_child parport_dir) [PARPORT_DEV_DIR, ctl_zero])"

definition device_tables :: "string \<Rightarrow> string \<Rightarrow> ctl_table list" where
  "device_tables port_name name =
    (let vars = upd 0 (set_data DeviceTimeslice) parport_device_vars;
         device_dir = upd 0 (set_child vars) (upd 0 (set_procname name) [Ctl None Null 365 No_handler Null Null [], ctl_zero]);
         devices_root_dir = upd 0 (set_child device_dir) [PARPORT_DEVICES_ROOT_DIR, ctl_zero];
         port_dir = upd 0 (set_child devices_root_dir) (upd 0 (set_procname port_name) [PARPORT_PORT_DIR, ctl_zero]);
         parport_dir = upd 0 (set_child port_dir) [PARPORT_PARPORT_DIR, ctl_zero]
     in upd 0 (set_child parport_dir) [PARPORT_DEV_DIR, ctl_zero])"

text \<open>How the kernel finds a file of a registered table.\<close>

fun ctl_find :: "string list \<Rightarrow> ctl_table list \<Rightarrow> ctl_table option" where
  "ctl_find path [] = None"
| "ctl_find [] (t # ts) = None"
| "ctl_find (n # ns) (t # ts) =
    (if ct_procname t = None then None
     else if ct_procname t = Some n then (if ns = [] then Some t else ctl_find ns (ct_child t))
     else ctl_find (n # ns) ts)"

subsection \<open>Registering\<close>

datatype proc_event = Kmemdup nat | Kfree nat | Register nat "ctl_table list" | Unregister nat

text \<open>
  A registered table: the memory of the copy and the header. \<open>mem\<close> is what \<^verbatim>\<open>kmemdup\<close> and \<open>hdr\<close> what
  \<^verbatim>\<open>register_sysctl_table\<close> answers. The last component is \<^verbatim>\<open>sysctl_table\<close>, unchanged without memory.
\<close>

type_synonym sysctl = "(nat \<times> nat) option"

definition register_copy :: "ctl_table list \<Rightarrow> nat option \<Rightarrow> nat option \<Rightarrow> sysctl \<Rightarrow> int \<times> proc_event list \<times> sysctl" where
  "register_copy dev_dir mem hdr old =
    (case mem of
       None \<Rightarrow> (- ENOMEM, [], old)
     | Some t \<Rightarrow>
        (case hdr of
           None \<Rightarrow> (0, [Kmemdup t, Kfree t], None)
         | Some h \<Rightarrow> (0, [Kmemdup t, Register h dev_dir], Some (t, h))))"

definition parport_proc_register :: "string \<Rightarrow> nat option \<Rightarrow> nat option \<Rightarrow> sysctl \<Rightarrow> int \<times> proc_event list \<times> sysctl" where
  "parport_proc_register name = register_copy (port_tables name)"

definition parport_device_proc_register :: "string \<Rightarrow> string \<Rightarrow> nat option \<Rightarrow> nat option \<Rightarrow> sysctl \<Rightarrow> int \<times> proc_event list \<times> sysctl" where
  "parport_device_proc_register port_name name = register_copy (device_tables port_name name)"

definition parport_proc_unregister :: "sysctl \<Rightarrow> int \<times> proc_event list \<times> sysctl" where
  "parport_proc_unregister st = (case st of None \<Rightarrow> (0, [], None) | Some (t, h) \<Rightarrow> (0, [Unregister h, Kfree t], None))"

definition parport_device_proc_unregister :: "sysctl \<Rightarrow> int \<times> proc_event list \<times> sysctl" where
  "parport_device_proc_unregister st = (case st of None \<Rightarrow> (0, [], None) | Some (t, h) \<Rightarrow> (0, [Unregister h, Kfree t], None))"

definition parport_default_vars :: "ctl_table list" where
  "parport_default_vars = [Ctl (Some ''timeslice'') DefaultTimeslice 420 Proc_ulong_ms_minmax MinTimeslice MaxTimeslice [],
     Ctl (Some ''spintime'') DefaultSpintime 420 Proc_int_minmax MinSpintime MaxSpintime [], ctl_zero]"

definition default_tables :: "ctl_table list" where
  "default_tables =
    [set_child [set_child [Ctl (Some ''default'') Null 365 No_handler Null Null parport_default_vars, ctl_zero] PARPORT_PARPORT_DIR, ctl_zero]
       PARPORT_DEV_DIR, ctl_zero]"

text \<open>\<open>bus\<close> is the status of \<^verbatim>\<open>parport_bus_init\<close>. The header stays set when it fails.\<close>

definition parport_default_proc_register :: "nat option \<Rightarrow> int \<Rightarrow> int \<times> proc_event list \<times> nat option" where
  "parport_default_proc_register hdr bus =
    (case hdr of
       None \<Rightarrow> (- ENOMEM, [], None)
     | Some h \<Rightarrow> if bus \<noteq> 0 then (bus, [Register h default_tables, Unregister h], Some h) else (0, [Register h default_tables], Some h))"

definition parport_default_proc_unregister :: "nat option \<Rightarrow> proc_event list \<times> nat option" where
  "parport_default_proc_unregister header = (case header of None \<Rightarrow> ([], None) | Some h \<Rightarrow> ([Unregister h], None))"


section \<open>The texts and their buffers\<close>

lemma digits_length: "0 < k \<Longrightarrow> n < 10 ^ k \<Longrightarrow> length (digits n) \<le> k"
proof (induction n arbitrary: k rule: digits.induct)
  case (1 n)
  show ?case
  proof (cases "n < 10")
    case False
    then obtain j where j: "k = Suc j" "0 < j" using 1(2,3) by (cases k; cases "k - 1") auto
    then have "n div 10 < 10 ^ j" using 1(3) by (simp add: less_mult_imp_div_less mult.commute)
    then show ?thesis using 1(1) [OF False j(2)] False j by (simp add: digits.simps [of n])
  qed (use 1 in \<open>simp add: digits.simps [of n]\<close>)
qed

lemma digits_length_ge: "10 ^ k \<le> n \<Longrightarrow> k < length (digits n)"
proof (induction k arbitrary: n)
  case 0
  then show ?case by (simp add: digits.simps [of n])
next
  case (Suc k)
  then have "10 ^ k \<le> n div 10" "\<not> n < 10"
    by (simp_all add: less_eq_div_iff_mult_less_eq mult.commute) (metis One_nat_def le_trans mult_le_mono2 nat_mult_1_right not_less one_le_numeral one_le_power)
  then show ?case using Suc.IH [of "n div 10"] by (simp add: digits.simps [of n])
qed

lemma show_int_length:
  fixes w :: "32 word"
  shows "length (show_int (sint w)) \<le> 11"
proof -
  have "- (2 ^ 31) \<le> sint w" "sint w < 2 ^ 31" using sint_range_size [of w] by (simp_all add: word_size)
  then have "nat (sint w) < 10 ^ 10" "nat (- sint w) < 10 ^ 10" by auto
  then show ?thesis
    using digits_length [of 10 "nat (sint w)"] digits_length [of 10 "nat (- sint w)"] by (simp add: show_int_def)
qed

text \<open>The names of the modes, separated by commas.\<close>

definition commas :: "string list \<Rightarrow> string" where
  "commas ns = (case ns of [] \<Rightarrow> [] | n # ns' \<Rightarrow> n @ concat (map (\<lambda>x. '','' @ x) ns'))"

definition mode_names :: "u32 \<Rightarrow> (u32 \<times> string) list \<Rightarrow> string list" where
  "mode_names modes fs = map snd (filter (\<lambda>(flag, name). modes AND flag \<noteq> 0) fs)"

lemma printmodes_commas:
  assumes "length buf + sum_list (map (\<lambda>(flag, name). Suc (length name)) fs) < 40"
  shows "printmodes modes fs f buf
    = Some (buf @ (if f = 0 then commas (mode_names modes fs) else concat (map (\<lambda>x. '','' @ x) (mode_names modes fs))))"
  using assms
  by (induction modes fs f buf rule: printmodes.induct) (auto simp: mode_names_def commas_def sprintf_def)

lemma mode_names_length: "sum_list (map length (mode_names modes fs)) + length (mode_names modes fs)
    \<le> sum_list (map (\<lambda>(flag, name). Suc (length name)) fs)"
  by (induction fs) (auto simp: mode_names_def)

lemma commas_length: "length (commas ns) \<le> sum_list (map length ns) + length ns"
  by (cases ns) (simp_all add: commas_def length_concat o_def sum_list_Suc)

lemma modes_text:
  "Option.bind (printmodes modes mode_flags 0 []) (\<lambda>buf. if length buf < 40 then Some (buf @ newline) else None)
    = Some (commas (mode_names modes mode_flags) @ newline)"
proof -
  have "sum_list (map (\<lambda>(flag, name). Suc (length name)) mode_flags) = 34" by (simp add: mode_flags_def)
  then show ?thesis
    using printmodes_commas [of "[]" mode_flags modes 0] commas_length [of "mode_names modes mode_flags"]
      mode_names_length [of modes mode_flags] by simp
qed

text \<open>
  C40. What the hardware files of a port show fits the buffers they print into, with one exception. Reading the
  modes file from the start gives the names of the modes of the port separated by commas, as much of them as
  the reader has room for; the files of the interrupt and the DMA channel show any 32-bit number; the file of the
  base addresses shows any two addresses below \<open>10 ^ 8\<close>, as I/O ports are, but writes past its 20 bytes when
  both have ten digits or more.
\<close>

theorem hardware_files_fit:
  "do_hardware_modes port False lenp 0 = Some (copy_out lenp 0 (commas (mode_names (kp_modes port) mode_flags) @ newline))
    \<and> do_hardware_irq port False lenp 0 = Some (copy_out lenp 0 (show_int (sint (kp_irq port)) @ newline))
    \<and> do_hardware_dma port False lenp 0 = Some (copy_out lenp 0 (show_int (sint (kp_dma port)) @ newline))
    \<and> (unat (kp_base port) < 10 ^ 8 \<and> unat (kp_base_hi port) < 10 ^ 8 \<longrightarrow>
        do_hardware_base_addr port False lenp 0
          = Some (copy_out lenp 0 (digits (unat (kp_base port)) @ [CHR 0x09] @ digits (unat (kp_base_hi port)) @ newline)))
    \<and> (10 ^ 9 \<le> unat (kp_base port) \<and> 10 ^ 9 \<le> unat (kp_base_hi port) \<longrightarrow> do_hardware_base_addr port False lenp 0 = None)"
proof (intro conjI impI)
  show "do_hardware_modes port False lenp 0 = Some (copy_out lenp 0 (commas (mode_names (kp_modes port) mode_flags) @ newline))"
    using modes_text [of "kp_modes port"] by (simp add: do_hardware_modes_def)
  show "do_hardware_irq port False lenp 0 = Some (copy_out lenp 0 (show_int (sint (kp_irq port)) @ newline))"
    using show_int_length [of "kp_irq port"] by (simp add: do_hardware_irq_def sprintf_def newline_def)
  show "do_hardware_dma port False lenp 0 = Some (copy_out lenp 0 (show_int (sint (kp_dma port)) @ newline))"
    using show_int_length [of "kp_dma port"] by (simp add: do_hardware_dma_def sprintf_def newline_def)
next
  assume "unat (kp_base port) < 10 ^ 8 \<and> unat (kp_base_hi port) < 10 ^ 8"
  then have "length (digits (unat (kp_base port))) \<le> 8" "length (digits (unat (kp_base_hi port))) \<le> 8"
    using digits_length [of 8] by simp_all
  then show "do_hardware_base_addr port False lenp 0
      = Some (copy_out lenp 0 (digits (unat (kp_base port)) @ [CHR 0x09] @ digits (unat (kp_base_hi port)) @ newline))"
    by (simp add: do_hardware_base_addr_def sprintf_def newline_def)
next
  assume "10 ^ 9 \<le> unat (kp_base port) \<and> 10 ^ 9 \<le> unat (kp_base_hi port)"
  then have "9 < length (digits (unat (kp_base port)))" "9 < length (digits (unat (kp_base_hi port)))"
    using digits_length_ge [of 9] by simp_all
  then show "do_hardware_base_addr port False lenp 0 = None"
    by (simp add: do_hardware_base_addr_def sprintf_def newline_def)
qed

definition lpt1 :: parport where
  "lpt1 = \<lparr>kp_base = 0x378, kp_base_hi = 0x778, kp_irq = 7, kp_dma = 0xFFFFFFFF, kp_modes = 0x0D,
     kp_devices = [(1, ''lp''), (2, ''ppdev0'')], kp_cad = Some 2\<rparr>"

theorem hardware_files_fit_witness:
  "do_hardware_modes lpt1 False 5 0 = Some (0, ''PCSPP'', 5, 5)
    \<and> do_hardware_base_addr lpt1 False 80 0 = Some (copy_out 80 0 (''888'' @ [CHR 0x09] @ ''1912'' @ newline))
    \<and> do_hardware_base_addr (lpt1\<lparr>kp_base := 0xFFFFFFFFFFFFFFFF, kp_base_hi := 0xFFFFFFFFFFFFFFFF\<rparr>) False 80 0 = None"
proof -
  have "char_of (56 :: nat) = CHR ''8''" "char_of (49 :: nat) = CHR ''1''" "char_of (57 :: nat) = CHR ''9''" "char_of (50 :: nat) = CHR ''2''"
    by code_simp+
  then have "digits 888 = ''888''" "digits 1912 = ''1912''" by (simp_all add: digits.simps)
  then show ?thesis
    using hardware_files_fit [of lpt1 5] hardware_files_fit [of lpt1 80]
      hardware_files_fit [of "lpt1\<lparr>kp_base := 0xFFFFFFFFFFFFFFFF, kp_base_hi := 0xFFFFFFFFFFFFFFFF\<rparr>" 80]
    by (simp add: lpt1_def copy_out_def mode_names_def mode_flags_def commas_def newline_def)
qed

section \<open>The tree of files\<close>

text \<open>
  Registering a port puts its files under \<^verbatim>\<open>dev/parport\<close> and its name, each with the handler and the port or
  the probe information it shows, whatever the name is; unregistering takes down that table once and frees
  the copy. A registration the kernel refuses frees the copy and yet reports success, and so unregistering then does
  nothing. The lower bound of \<^verbatim>\<open>spintime\<close>, set in the template, is overwritten by the pointer to the port.
\<close>

definition hardware_files :: "(string \<times> handler) list" where
  "hardware_files = [(''base-addr'', Hardware_base_addr), (''irq'', Hardware_irq), (''dma'', Hardware_dma), (''modes'', Hardware_modes)]"

definition probe_files :: "string list" where
  "probe_files = [''autoprobe'', ''autoprobe0'', ''autoprobe1'', ''autoprobe2'', ''autoprobe3'']"

definition found :: "string list \<Rightarrow> ctl_table list \<Rightarrow> (handler \<times> ctl_ptr \<times> ctl_ptr \<times> ctl_ptr) option" where
  "found path tables = map_option (\<lambda>e. (ct_handler e, ct_data e, ct_extra1 e, ct_extra2 e)) (ctl_find path tables)"

text \<open>The tables, with all the assignments made.\<close>

definition port_files :: "ctl_table list" where
  "port_files = [Ctl (Some ''spintime'') PortSpintime 420 Proc_int_minmax ThePort MaxSpintime [],
     Ctl (Some ''base-addr'') Null 292 Hardware_base_addr ThePort Null [],
     Ctl (Some ''irq'') Null 292 Hardware_irq ThePort Null [], Ctl (Some ''dma'') Null 292 Hardware_dma ThePort Null [],
     Ctl (Some ''modes'') Null 292 Hardware_modes ThePort Null [],
     Ctl (Some ''devices'') Null 365 No_handler Null Null [Ctl (Some ''active'') Null 292 Active_device ThePort Null [], ctl_zero],
     Ctl (Some ''autoprobe'') Null 292 Autoprobe Null (ProbeInfo 0) [], Ctl (Some ''autoprobe0'') Null 292 Autoprobe Null (ProbeInfo 1) [],
     Ctl (Some ''autoprobe1'') Null 292 Autoprobe Null (ProbeInfo 2) [], Ctl (Some ''autoprobe2'') Null 292 Autoprobe Null (ProbeInfo 3) [],
     Ctl (Some ''autoprobe3'') Null 292 Autoprobe Null (ProbeInfo 4) [], ctl_zero]"

lemma port_tables_eq: "port_tables name =
  [Ctl (Some ''dev'') Null 365 No_handler Null Null
     [Ctl (Some ''parport'') Null 365 No_handler Null Null [Ctl (Some name) Null 365 No_handler Null Null port_files, ctl_zero], ctl_zero], ctl_zero]"
  by code_simp

lemma found_port: "ns \<noteq> [] \<Longrightarrow> found (''dev'' # ''parport'' # name # ns) (port_tables name) = found ns port_files"
  by (simp add: found_def port_tables_eq)

lemma hardware_file:
  assumes "(f, hnd) \<in> set hardware_files"
  shows "found [''dev'', ''parport'', name, f] (port_tables name) = Some (hnd, Null, ThePort, Null)"
proof -
  have "\<forall>(f, hnd)\<in>set hardware_files. found [f] port_files = Some (hnd, Null, ThePort, Null)" by code_simp
  then show ?thesis using assms by (auto simp: found_port)
qed

lemma probe_file:
  assumes "i < 5"
  shows "found [''dev'', ''parport'', name, probe_files ! i] (port_tables name) = Some (Autoprobe, Null, Null, ProbeInfo i)"
proof -
  have "\<forall>i\<in>set [0..<5]. found [probe_files ! i] port_files = Some (Autoprobe, Null, Null, ProbeInfo i)" by code_simp
  then show ?thesis using assms by (simp add: found_port)
qed

theorem port_files_registered:
  "parport_proc_register name (Some t) (Some h) old = (0, [Kmemdup t, Register h (port_tables name)], Some (t, h))
    \<and> (\<forall>(f, hnd)\<in>set hardware_files. found [''dev'', ''parport'', name, f] (port_tables name) = Some (hnd, Null, ThePort, Null))
    \<and> (\<forall>i<5. found [''dev'', ''parport'', name, probe_files ! i] (port_tables name) = Some (Autoprobe, Null, Null, ProbeInfo i))
    \<and> found [''dev'', ''parport'', name, ''devices'', ''active''] (port_tables name) = Some (Active_device, Null, ThePort, Null)
    \<and> found [''dev'', ''parport'', name, ''spintime''] (port_tables name) = Some (Proc_int_minmax, PortSpintime, ThePort, MaxSpintime)
    \<and> parport_proc_unregister (Some (t, h)) = (0, [Unregister h, Kfree t], None)
    \<and> parport_proc_register name (Some t) None old = (0, [Kmemdup t, Kfree t], None)
    \<and> parport_proc_unregister None = (0, [], None)"
proof (intro conjI)
  show "found [''dev'', ''parport'', name, ''devices'', ''active''] (port_tables name) = Some (Active_device, Null, ThePort, Null)"
    "found [''dev'', ''parport'', name, ''spintime''] (port_tables name) = Some (Proc_int_minmax, PortSpintime, ThePort, MaxSpintime)"
    by (simp add: found_port, code_simp)+
qed (use hardware_file probe_file in \<open>auto simp: parport_proc_register_def parport_proc_unregister_def register_copy_def\<close>)

end
