(* ===== verification/Spec2Isabelle.thy ===== *)
theory Spec2Isabelle
  imports Snx_Init Snx_Line Snx_Portlist Snx_Ppdev Snx_Gpio Snx_Open Snx_Setserial Snx_Driver Snx_Lp Snx_Resume Snx_Term Snx_Proc Snx_Chardev
begin

text \<open>
  A verification development for the SUNIX multi-I/O driver (driver/ of the repository): a Linux
  kernel module for PCI boards with up to 32 serial and four parallel ports.

  \<^bold>\<open>The program.\<close> Loading the module (\<open>snx_init\<close>, driver/snx_main.c) searches the PCI bus for
  boards by a static table (driver/snx_devtable.c), copies each board's row and resources into
  \<open>sunix_board_table\<close>, gives each board a run of entries of the global port tables, requests the
  interrupts, and registers the serial driver, the parallel ports, ppdev and lp. From then on the
  tty layer calls the serial operations (driver/snx_serial.c), and the interrupt entry
  \<open>sunix_interrupt\<close> finds the board and calls \<open>sunix_ser_interrupt\<close>, which services its ports. The
  tty operations and the interrupt share one \<open>sunix_ser_port\<close> under its spinlock: the transmit ring,
  the copy of the interrupt enable register and the tty's flags. A parallel port
  (driver/snx_parallel.c) is shared by devices that claim it in turn (driver/snx_share.c); its two
  users are ppdev, which hands it to programs (driver/snx_ppdev.c), and the printer driver
  (driver/snx_lp.c). Both transfer bytes with the compatibility mode handshake
  (driver/snx_ieee1284.c, driver/snx_ieee1284_ops.c). Next to the driver, snxterm (snxterm/snxterm.c) is a
  terminal program for its serial ports: its settings reach the driver as a termios.

  \<^bold>\<open>The model.\<close> Every function is a HOL function that takes the driver structs it reads as records
  and returns those it changes. The world outside is the \<open>machine\<close> of Snx_Kernel: one oracle per
  question the code asks (what \<^verbatim>\<open>inb\<close> reads, the clock, a pending signal), each a function of the
  whole history of I/O, and the history itself, the \<open>trace\<close>. A theorem that holds for every machine
  holds for every hardware. A NULL dereference, an access outside an array, a division by zero and
  a loop that never ends are values (\<open>None\<close>, or \<open>Inl Fault\<close> in Snx_Resources); an error return is
  the negative errno. Registers and fields keep their C widths as words. A function under a
  spinlock is one step; where the code sleeps, a function of the environment changes the state.

  Loading the module:

  \<^item> Snx_Prelude, Snx_Kernel: widths, errno values, the machine, its events, and \<open>ran\<close>, a stretch of a run.
  \<^item> Snx_Devtable: \<open>snx_pci_board_conf\<close>, \<open>sunix_pci_board_id\<close>; their 50 rows are evaluated once.
  \<^item> Snx_Ports: the structs of driver/snx_common.h.
  \<^item> Snx_Boards: \<open>sunix_pci_board_probe\<close>, with the invariant \<open>board_table_ok\<close> of its five searches.
  \<^item> Snx_Resources: \<open>sunix_get_pci_board_conf\<close>, \<open>sunix_assign_resource\<close>, the irq registration: the
    checks of the first are what keeps the second inside the port tables.
  \<^item> Snx_Init: \<open>snx_init\<close>, which calls the functions of Snx_Resources, Snx_Driver, Snx_Portlist and
    Snx_Chardev, with its step labels, \<open>snx_exit\<close>, \<open>sunix_interrupt\<close>. A load and an unload are also
    lists of set-up and tear-down calls: \<open>still_up\<close> replays them, \<open>unwind\<close> runs the tear-down functions.
  \<^item> Snx_Driver: \<open>sunix_ser_register_driver\<close>, \<open>sunix_ser_register_ports\<close> and their inverses:
    unregistering gives back what registering took; a port moved by setserial breaks that.

  The serial ports:

  \<^item> Snx_Circ: the transmit ring, interpreted in the locale \<open>byte_fifo\<close> of a bounded byte queue.
  \<^item> Snx_Uart: the registers, modem lines, start-up and shut-down, baud rate, divisor, termios.
    \<open>shadow\<close> says that the driver's copies of write-only registers are what was last written.
  \<^item> Snx_Tty: the tty operations that do not sleep; \<open>write\<close> is equivalent to \<open>put_char\<close> for every byte.
  \<^item> Snx_Serial_Irq: receive, transmit, modem status, the polling timer, the board interrupt.
    \<open>line_run\<close> interleaves writers and interrupts and refines a byte queue.
  \<^item> Snx_Line: the step relation of an open line, its reachable states and their invariant.
  \<^item> Snx_Open: open, close, hangup, the waits for the carrier and the transmitter. The last close ends
    and releases the line.
  \<^item> Snx_Setserial: \<open>snx_ser_get_info\<close>, \<open>snx_ser_set_info\<close>, the counters and \<open>snx_ser_ioctl\<close> itself: who may
    change what, and what is read back.
  \<^item> Snx_Resume: \<open>snx_resume_one\<close>. \<open>programmed\<close> compares a chip, as the writes left it, with the line's
    state: resuming programs every open line whatever its chip woke up with; a hung-up line faults.
  \<^item> Snx_Term: snxterm over a list of keys and the system's answers. \<open>settings_shown\<close> ties the screen to
    the termios, and \<open>shown_settings_reach_line\<close> the termios to the divisor the driver latches.
  \<^item> Snx_Gpio: the configuration ioctls: GPIO banks, RS-232/422/485 types, defaults in the EEPROM.

  The parallel ports:

  \<^item> Snx_Parport: the register operations, saving and restoring, detection.
  \<^item> Snx_Dlist, Snx_Share: doubly linked lists through \<open>next\<close> and \<open>prev\<close> fields, and the devices of a
    port with \<open>sunix_parport_claim\<close>, \<open>release\<close>, \<open>register_device\<close>, \<open>unregister_device\<close>. \<open>share_ok\<close> is
    the invariant; the locale \<open>sharing\<close> states what the code needs of a preempt callback.
  \<^item> Snx_Arbiter, Snx_Arbitration: the abstract arbiter (an owner and a queue) as a locale, and the proof
    that claiming and releasing refine it: waiters are served in order.
  \<^item> Snx_Portlist: the lists of ports and drivers, probing and unregistering a port.
  \<^item> Snx_Ieee1284: waiting, polling, the compatibility mode write, the EPP transfers. \<open>delivers\<close> is what a
    peripheral that takes a byte on the strobe receives; \<open>idle\<close> and \<open>calm\<close> are stretches without a write
    to the port, and with one that strobes nothing.
  \<^item> Snx_Ppdev: the file operations with every ioctl; closing undoes any session.
  \<^item> Snx_Lp: the printer driver. \<open>kept\<close> is what the port functions leave of the printer's state; a
    write is a sequence of transfers, and what the printer receives is a prefix of the buffer.
  \<^item> Snx_Chardev: loading and unloading ppdev and lp: an exit gives back what its init took.
  \<^item> Snx_Proc: the proc files of driver/procfs.c, compiled but never called: their texts and buffers, the
    tables and what registering and unregistering them does.

  \<^bold>\<open>Loops.\<close> Counting loops recurse on the count: the receive loop takes at most 257 bytes, the
  transmit loop at most \<open>fifosize\<close>, an interrupt makes at most 130 passes, the probe handles at most
  four boards, a wait for the EEPROM gives up after \<open>EEPROM_ACCESS_DELAY_COUNT\<close> (100000) reads. Loops
  that wait for the hardware, the clock or another task are \<^verbatim>\<open>partial_function (option)\<close>: there is no
  fuel, \<open>None\<close> is "never returns", and the theorems prove \<open>\<exists>y. f x = Some y\<close>. Those that depend on time
  assume \<open>clock_ok T N\<close>: whoever looks at the clock \<open>N\<close> times has seen \<open>T\<close> ticks pass.

  \<^bold>\<open>Parameters.\<close> The PCI bus (\<open>pci_scan\<close>), the port hardware, the kernel's answers (registration
  results, allocations, capabilities, \<^verbatim>\<open>irq_canonicalize\<close>), HZ, and what other tasks do while the code
  sleeps. The theorems quantify over them. Where a property needs something of them it is a named
  hypothesis: a flash that keeps what is written and a register file for the GPIO properties, other
  tasks that leave the port alone (\<open>bystander\<close>, \<open>lp_env\<close>) or the line (\<open>patient\<close>). The witnesses
  instantiate each with a concrete machine (\<open>idle_machine\<close>, \<open>counting_machine\<close>, \<open>plain_sched\<close>,
  \<open>patient_env\<close>). Kernel constants (a page of 4096 bytes, errno and termios values) are those of x86.

  \<^bold>\<open>Not modelled.\<close> What snxterm draws of its menus and how its threads interleave; the programs snxdump
  and snxtest, which print registers and send test patterns; the IEEE 1284 modes whose functions only
  return 0; \<open>snx_lp_ioctl\<close>, \<open>snx_lp_read\<close> and
  the printer console, which are not compiled for the kernels modelled. Of the conditional compilation
  the branches for kernels from 3.9 to 5.11 are the ones modelled. Locks have no value.
\<close>

end
